(* ===== verification/Prelude.thy ===== *)
theory Prelude
  imports Main "HOL-Library.Word" "HOL-Library.AList"
begin

text \<open>
  Shared vocabulary of the development.

  \<^item> the machine integers of the C++ sources (\<open>std::uint8_t\<close> and its kin) as words;
  \<^item> \<open>std::unordered_map\<close> as an association list with distinct keys (\<open>um_ok\<close>). The list
    order is the iteration order of the container. C++ leaves that order unspecified, so the
    theorems about loops quantify over arbitrary lists, that is over every order;
  \<^item> \<open>std::find_if\<close> with an in-place update of the element it finds (\<open>upd_first\<close>);
  \<^item> a generic machine: a step function, its runs, and the rule that an invariant kept by
    every step holds after every run (locale \<open>machine\<close>).
\<close>

named_theorems umap_simps \<open>lookup, key and size equations of the unordered_map model\<close>

section \<open>Machine integers\<close>

type_synonym u8 = "8 word"
type_synonym u16 = "16 word"
type_synonym u32 = "32 word"
type_synonym u64 = "64 word"

type_synonym SessionId = u64
type_synonym PlayerId = u64
type_synonym AccountId = u64

lemma unat_Suc_word:
  fixes n :: "'a::len word"
  assumes "unat n < 2 ^ LENGTH('a) - 1"
  shows "unat (n + 1) = Suc (unat n)"
proof -
  from assms have "unat n + 1 < 2 ^ LENGTH('a)" by simp
  then show ?thesis by (simp add: unat_word_ariths)
qed

text \<open>A counter that has not wrapped is above every identifier it has issued.\<close>

lemma word_counter:
  fixes i n :: "'a::len word"
  assumes "unat n < 2 ^ LENGTH('a) - 1"
  shows "i < n \<Longrightarrow> i < n + 1" "n < n + 1" "0 < n + 1"
  using unat_Suc_word [OF assms] by (auto simp: word_less_nat_alt)

text \<open>Time points of the steady clock and durations are nanoseconds; \<open>ms\<close> converts from milliseconds.\<close>

definition ms :: "int \<Rightarrow> int" where "ms d = d * 1000000"

section \<open>The unordered_map model\<close>

type_synonym ('k, 'v) umap = "('k \<times> 'v) list"

definition um_ok :: "('k, 'v) umap \<Rightarrow> bool" where
  "um_ok m \<longleftrightarrow> distinct (map fst m)"

definition um_contains :: "('k, 'v) umap \<Rightarrow> 'k \<Rightarrow> bool" where
  "um_contains m k \<longleftrightarrow> map_of m k \<noteq> None"

text \<open>\<open>emplace\<close> and \<open>try_emplace\<close>: no effect when the key is present.\<close>

definition um_emplace :: "'k \<Rightarrow> 'v \<Rightarrow> ('k, 'v) umap \<Rightarrow> ('k, 'v) umap" where
  "um_emplace k v m = (if um_contains m k then m else m @ [(k, v)])"

text \<open>\<open>m[k] = v\<close> and \<open>insert_or_assign\<close>.\<close>

definition um_set :: "'k \<Rightarrow> 'v \<Rightarrow> ('k, 'v) umap \<Rightarrow> ('k, 'v) umap" where
  "um_set k v m = AList.update k v m"

definition um_erase :: "'k \<Rightarrow> ('k, 'v) umap \<Rightarrow> ('k, 'v) umap" where
  "um_erase k m = filter (\<lambda>e. fst e \<noteq> k) m"

text \<open>A write through an iterator or a shared pointer obtained from the map.\<close>

definition um_modify :: "'k \<Rightarrow> ('v \<Rightarrow> 'v) \<Rightarrow> ('k, 'v) umap \<Rightarrow> ('k, 'v) umap" where
  "um_modify k f m = map (\<lambda>e. if fst e = k then (fst e, f (snd e)) else e) m"

lemma um_contains_iff_dom: "um_contains m k \<longleftrightarrow> k \<in> fst ` set m"
  by (simp add: um_contains_def map_of_eq_None_iff)

lemma um_contains_Some [umap_simps]: "map_of m k = Some v \<Longrightarrow> um_contains m k"
  by (simp add: um_contains_def)

lemma um_ok_Nil [simp]: "um_ok []"
  by (simp add: um_ok_def)

lemma um_contains_Nil [simp]: "\<not> um_contains [] k"
  by (simp add: um_contains_def)

lemma um_find_emplace [umap_simps]:
  "map_of (um_emplace k v m) j = (if j = k \<and> \<not> um_contains m k then Some v else map_of m j)"
proof (cases "um_contains m k")
  case True
  then show ?thesis by (simp add: um_emplace_def)
next
  case False
  then show ?thesis
    by (auto simp: um_emplace_def map_of_append map_add_def um_contains_def split: option.split)
qed

lemma um_find_set [umap_simps]: "map_of (um_set k v m) j = (if j = k then Some v else map_of m j)"
  by (simp add: um_set_def update_conv')

lemma um_find_erase [umap_simps]: "map_of (um_erase k m) j = (if j = k then None else map_of m j)"
  by (induction m) (auto simp: um_erase_def)

lemma um_find_modify [umap_simps]:
  "map_of (um_modify k f m) j = (if j = k then map_option f (map_of m k) else map_of m j)"
  by (induction m) (auto simp: um_modify_def)

lemma um_contains_emplace [umap_simps]:
  "um_contains (um_emplace k v m) j \<longleftrightarrow> j = k \<or> um_contains m j"
  by (auto simp: um_contains_def um_find_emplace)

lemma um_contains_set [umap_simps]: "um_contains (um_set k v m) j \<longleftrightarrow> j = k \<or> um_contains m j"
  by (auto simp: um_contains_def um_find_set)

lemma um_contains_erase [umap_simps]:
  "um_contains (um_erase k m) j \<longleftrightarrow> j \<noteq> k \<and> um_contains m j"
  by (auto simp: um_contains_def um_find_erase)

lemma um_contains_modify [umap_simps]: "um_contains (um_modify k f m) j \<longleftrightarrow> um_contains m j"
  by (auto simp: um_contains_def um_find_modify)

lemma um_ok_emplace [simp]: "um_ok m \<Longrightarrow> um_ok (um_emplace k v m)"
  by (auto simp: um_ok_def um_emplace_def um_contains_iff_dom)

lemma um_ok_set [simp]: "um_ok m \<Longrightarrow> um_ok (um_set k v m)"
  by (simp add: um_ok_def um_set_def distinct_update)

lemma um_ok_filter [simp]: "um_ok m \<Longrightarrow> um_ok (filter P m)"
  by (simp add: um_ok_def distinct_map_filter)

lemma um_ok_erase [simp]: "um_ok m \<Longrightarrow> um_ok (um_erase k m)"
  by (simp add: um_erase_def)

lemma map_fst_um_modify [simp]: "map fst (um_modify k f m) = map fst m"
  by (simp add: um_modify_def comp_def if_distrib cong: if_cong)

lemma um_ok_modify [simp]: "um_ok (um_modify k f m) = um_ok m"
  by (simp add: um_ok_def)

lemma um_length_erase [umap_simps]:
  assumes "um_ok m" "um_contains m k"
  shows "Suc (length (um_erase k m)) = length m"
  using assms
proof (induction m)
  case Nil
  then show ?case by simp
next
  case (Cons e m)
  show ?case
  proof (cases "fst e = k")
    case True
    with Cons.prems have "\<forall>d \<in> set m. fst d \<noteq> k"
      by (metis image_eqI list.simps(9) distinct.simps(2) list.set_map um_ok_def)
    then have "filter (\<lambda>e. fst e \<noteq> k) m = m" by (simp add: filter_id_conv)
    with True show ?thesis by (simp add: um_erase_def)
  next
    case False
    with Cons.prems have "um_ok m" "um_contains m k"
      by (auto simp: um_ok_def um_contains_def split: if_splits)
    with Cons.IH False show ?thesis by (simp add: um_erase_def)
  qed
qed

lemma um_erase_absent [umap_simps]: "\<not> um_contains m k \<Longrightarrow> um_erase k m = m"
  by (auto simp: um_erase_def um_contains_iff_dom filter_id_conv)

lemma um_modify_absent [umap_simps]: "\<not> um_contains m k \<Longrightarrow> um_modify k f m = m"
  by (force simp: um_modify_def um_contains_iff_dom intro!: map_idI)

lemma um_modify_Nil [simp]: "um_modify k f [] = []"
  by (simp add: um_modify_def)

lemma um_erase_modify [umap_simps]: "um_erase k (um_modify k f m) = um_erase k m"
  by (induction m) (auto simp: um_erase_def um_modify_def)

lemma um_find_in_set: "map_of m k = Some v \<Longrightarrow> (k, v) \<in> set m"
  by (rule map_of_SomeD)

lemma um_find_iff_set: "um_ok m \<Longrightarrow> map_of m k = Some v \<longleftrightarrow> (k, v) \<in> set m"
  by (simp add: um_ok_def)

lemma set_um_modify:
  "um_ok m \<Longrightarrow> set (um_modify k f m) = {(j, if j = k then f v else v) |j v. (j, v) \<in> set m}"
  by (force simp: um_modify_def image_def)

section \<open>std::find_if followed by an in-place update\<close>

fun upd_first :: "('a \<Rightarrow> bool) \<Rightarrow> ('a \<Rightarrow> 'a) \<Rightarrow> 'a list \<Rightarrow> 'a list" where
  "upd_first P f [] = []"
| "upd_first P f (x # xs) = (if P x then f x # xs else x # upd_first P f xs)"

lemma length_upd_first [simp]: "length (upd_first P f xs) = length xs"
  by (induction xs) auto

lemma upd_first_none [simp]: "find P xs = None \<Longrightarrow> upd_first P f xs = xs"
  by (induction xs) (auto split: if_splits)

lemma set_upd_first: "set (upd_first P f xs) \<subseteq> set xs \<union> f ` {x \<in> set xs. P x}"
  by (induction xs) auto

lemma upd_first_nth:
  "upd_first P f xs ! i = xs ! i \<or> upd_first P f xs ! i = f (xs ! i) \<and> P (xs ! i)"
proof (induction xs arbitrary: i)
  case Nil
  then show ?case by simp
next
  case (Cons x xs)
  then show ?case by (cases i) auto
qed

lemma map_upd_first:
  "(\<And>x. P x \<Longrightarrow> g (f x) = g x) \<Longrightarrow> map g (upd_first P f xs) = map g xs"
  by (induction xs) auto

lemma find_Some_in: "find P xs = Some x \<Longrightarrow> x \<in> set xs \<and> P x"
  by (auto simp: find_Some_iff in_set_conv_nth)

section \<open>Machines and their invariants\<close>

text \<open>
  A component whose public operations lock one mutex is a machine: every interleaving of calls
  is a sequence of its operations. An invariant established by the constructor and kept by every
  operation holds after every sequence of calls.
\<close>

fun run :: "('s \<Rightarrow> 'op \<Rightarrow> 's) \<Rightarrow> 's \<Rightarrow> 'op list \<Rightarrow> 's" where
  "run step s [] = s"
| "run step s (x # xs) = run step (step s x) xs"

lemma run_append: "run step s (xs @ ys) = run step (run step s xs) ys"
  by (induction xs arbitrary: s) auto

locale machine =
  fixes step :: "'s \<Rightarrow> 'op \<Rightarrow> 's"
    and inv :: "'s \<Rightarrow> bool"
  assumes step_inv: "inv s \<Longrightarrow> inv (step s x)"
begin

lemma run_inv: "inv s \<Longrightarrow> inv (run step s xs)"
  by (induction xs arbitrary: s) (auto simp: step_inv)

lemma run_inv_every:
  assumes "inv s" "i \<le> length xs"
  shows "inv (run step s (take i xs))"
  using assms(1) by (rule run_inv)

end

text \<open>
  A machine with a budget: each operation spends at most one unit (an identifier counter that
  must not wrap around), and the invariant is kept while the budget lasts.
\<close>

locale budget_machine =
  fixes step :: "'s \<Rightarrow> 'op \<Rightarrow> 's"
    and inv :: "'s \<Rightarrow> bool"
    and spent :: "'s \<Rightarrow> nat"
    and limit :: nat
  assumes budget_step_inv: "inv s \<Longrightarrow> spent s < limit \<Longrightarrow> inv (step s x)"
    and budget_step_spent: "inv s \<Longrightarrow> spent s < limit \<Longrightarrow> spent (step s x) \<le> Suc (spent s)"
begin

lemma budget_run_inv: "inv s \<Longrightarrow> spent s + length xs \<le> limit \<Longrightarrow> inv (run step s xs)"
proof (induction xs arbitrary: s)
  case Nil
  then show ?case by simp
next
  case (Cons x xs)
  from Cons.prems have "spent s < limit" by simp
  with Cons.prems(1) have "inv (step s x)" "spent (step s x) \<le> Suc (spent s)"
    by (auto intro: budget_step_inv budget_step_spent)
  with Cons.prems(2) show ?case by (auto intro: Cons.IH)
qed

end

end
