(* ===== verification/Packet.thy ===== *)
theory Packet
  imports Prelude
begin

text \<open>
  The TCP packet format (\<open>src/include/Packet.h\<close>, \<open>src/src/Packet.cpp\<close>): an 8-byte big-endian
  header (size, type, request id) followed by the payload. \<open>PacketType\<close> is an unscoped C++
  enumeration over \<open>std::uint16_t\<close>, so a header can carry any 16-bit value and
  \<open>ValidateHeader\<close> decides which are packet types. A thrown exception is the left summand.

  The lemmas show that encoding and decoding are inverse to each other on valid headers
  (locale \<open>partial_codec\<close>, interpreted on the header codec), and what \<open>EncodePacket\<close> produces.
\<close>

unbundle bit_operations_syntax

datatype packet_error = InvalidPacketSize | InvalidPacketType | PacketTooLarge

type_synonym PacketType = u16

definition PACKET_HEADER_SIZE :: nat where "PACKET_HEADER_SIZE = 8"

definition MAX_PACKET_SIZE :: nat where "MAX_PACKET_SIZE = 16 * 1024"

abbreviation (input) LoginRequest :: PacketType where "LoginRequest \<equiv> 1"
abbreviation (input) ChannelListRequest :: PacketType where "ChannelListRequest \<equiv> 2"
abbreviation (input) JoinChannelRequest :: PacketType where "JoinChannelRequest \<equiv> 3"
abbreviation (input) EnterDungeonRequest :: PacketType where "EnterDungeonRequest \<equiv> 4"
abbreviation (input) DungeonConnectionInfoRequest :: PacketType where
  "DungeonConnectionInfoRequest \<equiv> 5"
abbreviation (input) CreatePartyRequest :: PacketType where "CreatePartyRequest \<equiv> 6"
abbreviation (input) JoinPartyRequest :: PacketType where "JoinPartyRequest \<equiv> 7"
abbreviation (input) LeavePartyRequest :: PacketType where "LeavePartyRequest \<equiv> 8"
abbreviation (input) PartySnapshotRequest :: PacketType where "PartySnapshotRequest \<equiv> 9"
abbreviation (input) DungeonCatalogRequest :: PacketType where "DungeonCatalogRequest \<equiv> 10"
abbreviation (input) DungeonStaticDataRequest :: PacketType where "DungeonStaticDataRequest \<equiv> 11"

definition packetTypes :: "PacketType list" where
  "packetTypes =
     [1, 2, 3, 4, 5, 6, 7, 8, 9, 10, 11,
      201, 202, 203,
      101, 102, 103, 104, 105, 106, 107, 108, 109, 110, 111,
      301, 302, 303]"

record PacketHeader =
  packetSize :: u16
  headerType :: PacketType
  requestId :: u32

record Packet =
  header :: PacketHeader
  payload :: "u8 list"

definition IsValidPacketType :: "u16 \<Rightarrow> bool" where
  "IsValidPacketType ty = List.member packetTypes ty"

definition ValidateHeader :: "u16 \<Rightarrow> u16 \<Rightarrow> packet_error option" where
  "ValidateHeader sz ty =
     (if unat sz < PACKET_HEADER_SIZE \<or> MAX_PACKET_SIZE < unat sz then Some InvalidPacketSize
      else if \<not> IsValidPacketType ty then Some InvalidPacketType
      else None)"

definition EncodeHeader :: "PacketHeader \<Rightarrow> packet_error + u8 list" where
  "EncodeHeader h =
     (case ValidateHeader (packetSize h) (headerType h) of
        Some e \<Rightarrow> Inl e
      | None \<Rightarrow> Inr
         [ucast (drop_bit 8 (packetSize h)), ucast (packetSize h),
          ucast (drop_bit 8 (headerType h)), ucast (headerType h),
          ucast (drop_bit 24 (requestId h)), ucast (drop_bit 16 (requestId h)),
          ucast (drop_bit 8 (requestId h)), ucast (requestId h)])"

text \<open>The operands of the 16-bit fields are promoted to \<open>int\<close> before the shift.\<close>

definition be16 :: "u8 \<Rightarrow> u8 \<Rightarrow> u16" where
  "be16 hi lo = ucast (push_bit 8 (ucast hi :: u32) OR (ucast lo :: u32))"

definition be32 :: "u8 \<Rightarrow> u8 \<Rightarrow> u8 \<Rightarrow> u8 \<Rightarrow> u32" where
  "be32 a b c d =
     push_bit 24 (ucast a) OR push_bit 16 (ucast b) OR push_bit 8 (ucast c) OR ucast d"

text \<open>The argument is a \<open>std::array\<close> of eight bytes.\<close>

definition DecodeHeader :: "u8 list \<Rightarrow> packet_error + PacketHeader" where
  "DecodeHeader bs =
     (let sz = be16 (bs ! 0) (bs ! 1);
          ty = be16 (bs ! 2) (bs ! 3);
          rid = be32 (bs ! 4) (bs ! 5) (bs ! 6) (bs ! 7)
      in case ValidateHeader sz ty of
           Some e \<Rightarrow> Inl e
         | None \<Rightarrow> Inr \<lparr>packetSize = sz, headerType = ty, requestId = rid\<rparr>)"

definition EncodePacket :: "PacketType \<Rightarrow> u32 \<Rightarrow> u8 list \<Rightarrow> packet_error + u8 list" where
  "EncodePacket ty rid body =
     (let sz = PACKET_HEADER_SIZE + length body in
      if MAX_PACKET_SIZE < sz then Inl PacketTooLarge
      else case EncodeHeader
               \<lparr>packetSize = of_nat sz, headerType = ty, requestId = rid\<rparr> of
             Inl e \<Rightarrow> Inl e
           | Inr headerBytes \<Rightarrow> Inr (headerBytes @ body))"

definition valid_header :: "PacketHeader \<Rightarrow> bool" where
  "valid_header h \<longleftrightarrow> ValidateHeader (packetSize h) (headerType h) = None"

section \<open>Fallible codecs\<close>

text \<open>
  An encoder and a decoder that may fail, of fixed width: decoding an encoding gives the value
  back, and what decodes successfully is the encoding of its value.
\<close>

locale partial_codec =
  fixes encode :: "'a \<Rightarrow> 'e + 'b list"
    and decode :: "'b list \<Rightarrow> 'e + 'a"
    and width :: nat
  assumes encode_width: "encode x = Inr bs \<Longrightarrow> length bs = width"
    and decode_encode: "encode x = Inr bs \<Longrightarrow> decode bs = Inr x"
    and encode_decode: "length bs = width \<Longrightarrow> decode bs = Inr x \<Longrightarrow> encode x = Inr bs"
begin

lemma encode_inj: "encode x = Inr bs \<Longrightarrow> encode y = Inr bs \<Longrightarrow> x = y"
  using decode_encode by (metis sum.inject(2))

lemma decode_inj:
  "length bs = width \<Longrightarrow> length cs = width \<Longrightarrow> decode bs = Inr x \<Longrightarrow> decode cs = Inr x \<Longrightarrow> bs = cs"
  using encode_decode by (metis sum.inject(2))

text \<open>On a stream, the first \<open>width\<close> elements decide.\<close>

lemma decode_prefix:
  "encode x = Inr bs \<Longrightarrow> decode (take width (bs @ cs)) = Inr x \<and> drop width (bs @ cs) = cs"
  using encode_width decode_encode by simp

end

lemma u8_no_high_bit [simp]: "\<not> bit (b :: u8) (8 + n)" "\<not> bit (b :: u8) (16 + n)"
  "\<not> bit (b :: u8) (24 + n)"
  using bit_imp_le_length [of b "8 + n"] bit_imp_le_length [of b "16 + n"]
    bit_imp_le_length [of b "24 + n"]
  by auto

lemma be16_split: "be16 (ucast (drop_bit 8 w)) (ucast w) = w"
  unfolding be16_def by (rule bit_word_eqI) (auto simp: bit_simps)

lemma be32_split:
  "be32 (ucast (drop_bit 24 w)) (ucast (drop_bit 16 w)) (ucast (drop_bit 8 w)) (ucast w) = w"
proof (rule bit_word_eqI)
  fix n assume "n < LENGTH(32)"
  then consider "n < 8" | "8 \<le> n" "n < 16" | "16 \<le> n" "n < 24" | "24 \<le> n" "n < 32"
    by (cases "n < 8"; cases "n < 16"; cases "n < 24") (simp_all add: not_less)
  then show "bit (be32 (ucast (drop_bit 24 w)) (ucast (drop_bit 16 w)) (ucast (drop_bit 8 w))
      (ucast w)) n = bit w n"
    unfolding be32_def by cases (auto simp: bit_simps)
qed

lemma split_be16: "ucast (drop_bit 8 (be16 a b)) = a \<and> ucast (be16 a b) = b"
  unfolding be16_def by (auto intro!: bit_word_eqI simp: bit_simps)

lemma split_be32:
  "ucast (drop_bit 24 (be32 a b c d)) = a \<and> ucast (drop_bit 16 (be32 a b c d)) = b \<and>
   ucast (drop_bit 8 (be32 a b c d)) = c \<and> ucast (be32 a b c d) = d"
  unfolding be32_def by (auto intro!: bit_word_eqI simp: bit_simps)

lemma list_of_8:
  assumes "length bs = 8"
  shows "bs = [bs ! 0, bs ! 1, bs ! 2, bs ! 3, bs ! 4, bs ! 5, bs ! 6, bs ! 7]"
  using assms by (auto simp: list_eq_iff_nth_eq less_Suc_eq numeral_eq_Suc)

interpretation header_codec: partial_codec EncodeHeader DecodeHeader PACKET_HEADER_SIZE
proof (unfold_locales, goal_cases)
  case (1 h bs)
  then show ?case by (auto simp: EncodeHeader_def PACKET_HEADER_SIZE_def split: option.splits)
next
  case (2 h bs)
  then show ?case
    by (auto simp: EncodeHeader_def DecodeHeader_def be16_split be32_split split: option.splits)
next
  case (3 bs h)
  then have "EncodeHeader h = Inr [bs ! 0, bs ! 1, bs ! 2, bs ! 3, bs ! 4, bs ! 5, bs ! 6, bs ! 7]"
    by (auto simp: EncodeHeader_def DecodeHeader_def Let_def split_be16 split_be32
        split: option.splits)
  then show ?case using list_of_8 [of bs] "3"(1) by (simp add: PACKET_HEADER_SIZE_def)
qed

lemma EncodeHeader_valid: "valid_header h \<longleftrightarrow> (\<exists>bs. EncodeHeader h = Inr bs)"
  by (auto simp: valid_header_def EncodeHeader_def split: option.splits)

lemma DecodeHeader_size:
  "DecodeHeader bs = Inr h \<Longrightarrow>
   PACKET_HEADER_SIZE \<le> unat (packetSize h) \<and> unat (packetSize h) \<le> MAX_PACKET_SIZE"
  by (auto simp: DecodeHeader_def ValidateHeader_def Let_def split: option.splits if_splits)

lemma EncodePacket_Inr:
  assumes "EncodePacket ty rid body = Inr bs"
  obtains hb where
    "EncodeHeader \<lparr>packetSize = of_nat (8 + length body), headerType = ty, requestId = rid\<rparr> = Inr hb"
    and "bs = hb @ body" and "8 + length body \<le> MAX_PACKET_SIZE"
  using assms
  by (auto simp: EncodePacket_def Let_def PACKET_HEADER_SIZE_def split: if_splits sum.splits)

end
