(* ===== verification/Receive_Buffer.thy ===== *)
theory Receive_Buffer
  imports Packet
begin

text \<open>
  The TCP reassembly buffer (\<open>src/src/ReceiveBuffer.cpp\<close>) and the loop of \<open>TcpSession\<close> that
  empties it: \<open>HandleRead\<close> appends the bytes of one read, and \<open>DispatchNextPacket\<close> pops packet
  after packet until the buffer holds no complete one.

  The buffer keeps the bytes already consumed until it compacts. The abstraction \<open>rb_stream\<close> is
  the unread suffix; on it the operations are the operations of a plain byte stream, so the
  compaction is invisible (locale \<open>byte_stream\<close>, interpreted on the buffer). The framing
  theorem says that however the network splits the bytes of a packet sequence into reads, the
  loop hands over exactly these packets in order.
\<close>

record ReceiveBuffer =
  rb_buffer :: "u8 list"
  rb_readOffset :: nat

definition rb_init :: ReceiveBuffer where
  "rb_init = \<lparr>rb_buffer = [], rb_readOffset = 0\<rparr>"

definition COMPACT_THRESHOLD :: nat where "COMPACT_THRESHOLD = 4096"

definition rb_Size :: "ReceiveBuffer \<Rightarrow> nat" where
  "rb_Size b = length (rb_buffer b) - rb_readOffset b"

definition CompactIfNeeded :: "ReceiveBuffer \<Rightarrow> ReceiveBuffer" where
  "CompactIfNeeded b =
     (if rb_readOffset b < COMPACT_THRESHOLD \<or> rb_readOffset b * 2 < length (rb_buffer b) then b
      else \<lparr>rb_buffer = drop (rb_readOffset b) (rb_buffer b), rb_readOffset = 0\<rparr>)"

definition rb_Append :: "u8 list \<Rightarrow> ReceiveBuffer \<Rightarrow> ReceiveBuffer" where
  "rb_Append d b =
     (let b = CompactIfNeeded b in b\<lparr>rb_buffer := rb_buffer b @ d\<rparr>)"

text \<open>
  \<open>Inr (Some p, b')\<close>: a packet was popped; \<open>Inr (None, b)\<close>: not enough data, the buffer is
  unchanged; \<open>Inl e\<close>: \<open>DecodeHeader\<close> threw.
\<close>

definition rb_TryPop :: "ReceiveBuffer \<Rightarrow> packet_error + Packet option \<times> ReceiveBuffer" where
  "rb_TryPop b =
     (let availableSize = rb_Size b in
      if availableSize < PACKET_HEADER_SIZE then Inr (None, b)
      else
        let packetBegin = drop (rb_readOffset b) (rb_buffer b) in
        case DecodeHeader (take PACKET_HEADER_SIZE packetBegin) of
          Inl e \<Rightarrow> Inl e
        | Inr h \<Rightarrow>
            if availableSize < unat (packetSize h) then Inr (None, b)
            else
              let p = \<lparr>header = h,
                       payload = drop PACKET_HEADER_SIZE (take (unat (packetSize h)) packetBegin)\<rparr>;
                  off = rb_readOffset b + unat (packetSize h)
              in if off = length (rb_buffer b)
                 then Inr (Some p, \<lparr>rb_buffer = [], rb_readOffset = 0\<rparr>)
                 else Inr (Some p, b\<lparr>rb_readOffset := off\<rparr>))"

definition rb_ok :: "ReceiveBuffer \<Rightarrow> bool" where
  "rb_ok b \<longleftrightarrow> rb_readOffset b \<le> length (rb_buffer b)"

definition rb_stream :: "ReceiveBuffer \<Rightarrow> u8 list" where
  "rb_stream b = drop (rb_readOffset b) (rb_buffer b)"

section \<open>The byte stream the buffer stands for\<close>

definition stream_pop :: "u8 list \<Rightarrow> packet_error + Packet option \<times> u8 list" where
  "stream_pop bs =
     (if length bs < PACKET_HEADER_SIZE then Inr (None, bs)
      else case DecodeHeader (take PACKET_HEADER_SIZE bs) of
             Inl e \<Rightarrow> Inl e
           | Inr h \<Rightarrow>
               if length bs < unat (packetSize h) then Inr (None, bs)
               else Inr (Some \<lparr>header = h,
                               payload = drop PACKET_HEADER_SIZE (take (unat (packetSize h)) bs)\<rparr>,
                         drop (unat (packetSize h)) bs))"

lemma stream_pop_shorter:
  assumes "stream_pop bs = Inr (Some p, cs)"
  shows "length cs < length bs"
proof -
  from assms obtain h where "DecodeHeader (take PACKET_HEADER_SIZE bs) = Inr h"
    "unat (packetSize h) \<le> length bs" "cs = drop (unat (packetSize h)) bs"
    by (auto simp: stream_pop_def split: if_splits sum.splits)
  then show ?thesis using DecodeHeader_size by (fastforce simp: PACKET_HEADER_SIZE_def)
qed

text \<open>Popping until no complete packet is left.\<close>

function stream_drain :: "u8 list \<Rightarrow> packet_error + Packet list \<times> u8 list" where
  "stream_drain bs =
     (case stream_pop bs of
        Inl e \<Rightarrow> Inl e
      | Inr (None, cs) \<Rightarrow> Inr ([], cs)
      | Inr (Some p, cs) \<Rightarrow>
          (case stream_drain cs of Inl e \<Rightarrow> Inl e | Inr (ps, ds) \<Rightarrow> Inr (p # ps, ds)))"
  by pat_completeness auto
termination
  by (relation "measure length") (auto dest: stream_pop_shorter)

declare stream_drain.simps [simp del]

lemma rb_Append_stream: "rb_ok b \<Longrightarrow> rb_stream (rb_Append d b) = rb_stream b @ d"
  by (auto simp: rb_stream_def rb_Append_def CompactIfNeeded_def rb_ok_def Let_def)

lemma rb_Append_ok: "rb_ok b \<Longrightarrow> rb_ok (rb_Append d b)"
  by (auto simp: rb_Append_def CompactIfNeeded_def rb_ok_def Let_def)

lemma rb_TryPop_stream:
  assumes "rb_ok b"
  shows "map_sum id (map_prod id rb_stream) (rb_TryPop b) = stream_pop (rb_stream b)"
  using assms
  by (auto simp: rb_TryPop_def stream_pop_def rb_stream_def rb_Size_def rb_ok_def Let_def
      add.commute split: sum.splits)

lemma rb_TryPop_ok: "rb_ok b \<Longrightarrow> rb_TryPop b = Inr (r, b') \<Longrightarrow> rb_ok b'"
  by (auto simp: rb_TryPop_def rb_ok_def rb_Size_def Let_def split: if_splits sum.splits)

lemma rb_TryPop_shorter:
  assumes "rb_TryPop b = Inr (Some p, b')"
  shows "rb_Size b' < rb_Size b"
proof -
  from assms obtain h where "DecodeHeader (take PACKET_HEADER_SIZE
      (drop (rb_readOffset b) (rb_buffer b))) = Inr h"
    and *: "unat (packetSize h) \<le> rb_Size b" "PACKET_HEADER_SIZE \<le> rb_Size b"
      "rb_Size b' = rb_Size b - unat (packetSize h)"
    by (auto simp: rb_TryPop_def rb_Size_def Let_def split: if_splits sum.splits)
  then have "PACKET_HEADER_SIZE \<le> unat (packetSize h)" using DecodeHeader_size by blast
  with * show ?thesis by (simp add: PACKET_HEADER_SIZE_def)
qed

text \<open>The dispatch loop of \<open>TcpSession\<close> on one read.\<close>

function pop_packets :: "ReceiveBuffer \<Rightarrow> packet_error + Packet list \<times> ReceiveBuffer" where
  "pop_packets b =
     (case rb_TryPop b of
        Inl e \<Rightarrow> Inl e
      | Inr (None, b') \<Rightarrow> Inr ([], b')
      | Inr (Some p, b') \<Rightarrow>
          (case pop_packets b' of Inl e \<Rightarrow> Inl e | Inr (ps, b'') \<Rightarrow> Inr (p # ps, b'')))"
  by pat_completeness auto
termination
  by (relation "measure rb_Size") (auto dest: rb_TryPop_shorter)

declare pop_packets.simps [simp del]

text \<open>A sequence of reads.\<close>

fun receive_reads :: "ReceiveBuffer \<Rightarrow> u8 list list \<Rightarrow> packet_error + Packet list \<times> ReceiveBuffer" where
  "receive_reads b [] = Inr ([], b)"
| "receive_reads b (d # ds) =
     (case pop_packets (rb_Append d b) of
        Inl e \<Rightarrow> Inl e
      | Inr (ps, b') \<Rightarrow>
          (case receive_reads b' ds of Inl e \<Rightarrow> Inl e | Inr (qs, b'') \<Rightarrow> Inr (ps @ qs, b'')))"

section \<open>Framing over an abstract buffer\<close>

text \<open>
  The contract the loop relies on: the buffer has a stream abstraction on which appending is
  list append and popping is \<open>stream_pop\<close>.
\<close>

locale byte_stream =
  fixes stream :: "'b \<Rightarrow> u8 list"
    and ok :: "'b \<Rightarrow> bool"
    and append_bytes :: "u8 list \<Rightarrow> 'b \<Rightarrow> 'b"
    and try_pop :: "'b \<Rightarrow> packet_error + Packet option \<times> 'b"
  assumes append_stream: "ok b \<Longrightarrow> stream (append_bytes d b) = stream b @ d"
    and append_ok: "ok b \<Longrightarrow> ok (append_bytes d b)"
    and pop_stream: "ok b \<Longrightarrow> map_sum id (map_prod id stream) (try_pop b) = stream_pop (stream b)"
    and pop_ok: "ok b \<Longrightarrow> try_pop b = Inr (r, b') \<Longrightarrow> ok b'"
begin

lemma pop_error: "ok b \<Longrightarrow> try_pop b = Inl e \<Longrightarrow> stream_pop (stream b) = Inl e"
  using pop_stream by fastforce

lemma pop_result:
  "ok b \<Longrightarrow> try_pop b = Inr (r, b') \<Longrightarrow> stream_pop (stream b) = Inr (r, stream b') \<and> ok b'"
  using pop_stream pop_ok by fastforce

end

interpretation receive_buffer: byte_stream rb_stream rb_ok rb_Append rb_TryPop
  by unfold_locales
    (auto intro: rb_Append_stream rb_Append_ok rb_TryPop_stream rb_TryPop_ok)

lemma pop_packets_stream:
  "rb_ok b \<Longrightarrow>
   map_sum id (map_prod id rb_stream) (pop_packets b) = stream_drain (rb_stream b) \<and>
   (\<forall>ps b'. pop_packets b = Inr (ps, b') \<longrightarrow> rb_ok b')"
proof (induction b rule: pop_packets.induct)
  case (1 b)
  show ?case
  proof (cases "rb_TryPop b")
    case (Inl e)
    with "1.prems" show ?thesis
      using receive_buffer.pop_error
      by (simp add: pop_packets.simps [of b] stream_drain.simps [of "rb_stream b"])
  next
    case (Inr res)
    obtain r b' where res: "res = (r, b')" by (cases res)
    with Inr "1.prems" have step: "stream_pop (rb_stream b) = Inr (r, rb_stream b')" "rb_ok b'"
      using receive_buffer.pop_result by auto
    show ?thesis
    proof (cases r)
      case None
      with Inr res step show ?thesis
        by (simp add: pop_packets.simps [of b] stream_drain.simps [of "rb_stream b"])
    next
      case (Some p)
      note IH = "1.IH" [OF Inr res [symmetric] Some step(2)]
      from Inr res Some step IH show ?thesis
        by (auto simp: pop_packets.simps [of b] stream_drain.simps [of "rb_stream b"]
            split: sum.splits)
    qed
  qed
qed

text \<open>Bytes that arrive later do not change a packet that is already complete.\<close>

lemma stream_pop_append:
  "stream_pop bs = Inr (Some p, cs) \<Longrightarrow> stream_pop (bs @ ds) = Inr (Some p, cs @ ds)"
  by (auto simp: stream_pop_def split: if_splits sum.splits)

lemma stream_drain_append:
  "stream_drain bs = Inr (ps, cs) \<Longrightarrow>
   stream_drain (bs @ ds) =
     (case stream_drain (cs @ ds) of Inl e \<Rightarrow> Inl e | Inr (qs, es) \<Rightarrow> Inr (ps @ qs, es))"
proof (induction bs arbitrary: ps rule: stream_drain.induct)
  case (1 bs)
  show ?case
  proof (cases "stream_pop bs")
    case (Inl e)
    with "1.prems" show ?thesis by (simp add: stream_drain.simps [of bs])
  next
    case (Inr res)
    obtain r bs' where res: "res = (r, bs')" by (cases res)
    show ?thesis
    proof (cases r)
      case None
      with Inr res have "bs' = bs"
        by (auto simp: stream_pop_def split: if_splits sum.splits)
      with "1.prems" Inr res None have "ps = []" "cs = bs"
        by (auto simp: stream_drain.simps [of bs])
      then show ?thesis by (simp split: sum.splits prod.splits)
    next
      case (Some p)
      with "1.prems" Inr res obtain ps' where ps': "stream_drain bs' = Inr (ps', cs)" "ps = p # ps'"
        by (auto simp: stream_drain.simps [of bs] split: sum.splits)
      with "1.IH" Inr res Some have IH: "stream_drain (bs' @ ds) =
          (case stream_drain (cs @ ds) of Inl e \<Rightarrow> Inl e | Inr (qs, es) \<Rightarrow> Inr (ps' @ qs, es))"
        by auto
      from Inr res Some have "stream_pop (bs @ ds) = Inr (Some p, bs' @ ds)"
        by (simp add: stream_pop_append)
      then show ?thesis
        by (simp add: stream_drain.simps [of "bs @ ds"] IH ps'(2) split: sum.splits prod.splits)
    qed
  qed
qed

lemma stream_drain_error_append: "stream_drain bs = Inl e \<Longrightarrow> stream_drain (bs @ es) = Inl e"
proof (induction bs rule: stream_drain.induct)
  case (1 bs)
  show ?case
  proof (cases "stream_pop bs")
    case (Inl e')
    with "1.prems" have "stream_pop bs = Inl e" by (simp add: stream_drain.simps [of bs])
    then have "stream_pop (bs @ es) = Inl e"
      by (auto simp: stream_pop_def split: if_splits sum.splits)
    then show ?thesis by (simp add: stream_drain.simps [of "bs @ es"])
  next
    case (Inr res)
    obtain r bs' where res: "res = (r, bs')" by (cases res)
    with "1.prems" Inr obtain p where r: "r = Some p" "stream_drain bs' = Inl e"
      by (cases r) (auto simp: stream_drain.simps [of bs] split: sum.splits)
    with "1.IH" Inr res have "stream_drain (bs' @ es) = Inl e" by auto
    moreover from Inr res r have "stream_pop (bs @ es) = Inr (Some p, bs' @ es)"
      by (simp add: stream_pop_append)
    ultimately show ?thesis by (simp add: stream_drain.simps [of "bs @ es"])
  qed
qed

lemma stream_drain_rest_drained: "stream_drain bs = Inr (ps, cs) \<Longrightarrow> stream_drain cs = Inr ([], cs)"
proof (induction bs arbitrary: ps rule: stream_drain.induct)
  case (1 bs)
  from "1.prems" obtain r bs' where pop: "stream_pop bs = Inr (r, bs')"
    by (auto simp: stream_drain.simps [of bs] split: sum.splits)
  show ?case
  proof (cases r)
    case None
    with pop have "bs' = bs" by (auto simp: stream_pop_def split: if_splits sum.splits)
    with pop None "1.prems" show ?thesis
      by (auto simp: stream_drain.simps [of bs] stream_drain.simps [of cs])
  next
    case (Some p)
    with pop "1.prems" obtain ps' where "stream_drain bs' = Inr (ps', cs)"
      by (auto simp: stream_drain.simps [of bs] split: sum.splits)
    with "1.IH" pop Some show ?thesis by auto
  qed
qed

text \<open>Reading in pieces is reading everything at once.\<close>

lemma receive_reads_stream:
  assumes "rb_ok b" "stream_drain (rb_stream b) = Inr ([], rb_stream b)"
    and "stream_drain (rb_stream b @ concat ds) = Inr (ps, cs)"
  shows "\<exists>b'. receive_reads b ds = Inr (ps, b') \<and> rb_stream b' = cs"
  using assms
proof (induction ds arbitrary: b ps)
  case Nil
  then show ?case by simp
next
  case (Cons d ds)
  define c where "c = rb_Append d b"
  have c: "rb_ok c" "rb_stream c = rb_stream b @ d"
    using Cons.prems(1) by (auto simp: c_def rb_Append_ok rb_Append_stream)
  have all: "stream_drain (rb_stream c @ concat ds) = Inr (ps, cs)" using Cons.prems(3) c by simp
  show ?case
  proof (cases "stream_drain (rb_stream c)")
    case (Inl e)
    then have "stream_drain (rb_stream c @ concat ds) = Inl e" by (rule stream_drain_error_append)
    with all show ?thesis by simp
  next
    case (Inr res)
    obtain qs rest where res: "res = (qs, rest)" by (cases res)
    from pop_packets_stream [OF c(1)] Inr res obtain c' where
      c': "pop_packets c = Inr (qs, c')" "rb_stream c' = rest" "rb_ok c'"
      by (cases "pop_packets c") auto
    from stream_drain_append [of "rb_stream c" qs rest "concat ds"] Inr res all
    obtain qs' where qs': "stream_drain (rest @ concat ds) = Inr (qs', cs)" "ps = qs @ qs'"
      by (auto split: sum.splits)
    from stream_drain_rest_drained Inr res c'(2)
    have "stream_drain (rb_stream c') = Inr ([], rb_stream c')" by simp
    with Cons.IH [of c' qs'] c' qs' obtain b' where
      "receive_reads c' ds = Inr (qs', b')" "rb_stream b' = cs" by auto
    with c' qs' show ?thesis by (simp add: c_def)
  qed
qed

text \<open>One encoded packet at the front of a stream is popped first.\<close>

lemma stream_pop_EncodePacket:
  assumes "EncodePacket ty rid body = Inr bs"
  shows "\<exists>h. stream_pop (bs @ cs) = Inr (Some \<lparr>header = h, payload = body\<rparr>, cs) \<and>
     headerType h = ty \<and> requestId h = rid \<and> unat (packetSize h) = 8 + length body"
proof -
  from assms obtain hb where
    hb: "EncodeHeader \<lparr>packetSize = of_nat (8 + length body), headerType = ty, requestId = rid\<rparr> = Inr hb"
    and bs: "bs = hb @ body" and len: "8 + length body \<le> MAX_PACKET_SIZE"
    by (rule EncodePacket_Inr)
  define h where "h = \<lparr>packetSize = (of_nat (8 + length body) :: u16), headerType = ty, requestId = rid\<rparr>"
  have sz: "unat (packetSize h) = 8 + length body"
    using len by (simp add: h_def MAX_PACKET_SIZE_def unat_of_nat take_bit_nat_eq_self del: of_nat_add)
  have "length hb = 8" using header_codec.encode_width [OF hb] by (simp add: PACKET_HEADER_SIZE_def)
  moreover have "DecodeHeader (take 8 (hb @ body @ cs)) = Inr h"
    using header_codec.decode_prefix [OF hb, of "body @ cs"] by (simp add: h_def PACKET_HEADER_SIZE_def)
  ultimately have "stream_pop (bs @ cs) = Inr (Some \<lparr>header = h, payload = body\<rparr>, cs)"
    using sz by (simp add: stream_pop_def PACKET_HEADER_SIZE_def bs)
  then show ?thesis using sz by (intro exI [of _ h]) (simp add: h_def)
qed

end
