(* ===== verification/Membership.thy ===== *)
theory Membership
  imports Prelude
begin

text \<open>
  The contract between the session layer and the managers that group sessions
  (\<open>ChannelManager\<close>, \<open>PartyManager\<close>): each session belongs to at most one group, leaving
  removes exactly that session, joining succeeds only for a session without a group. Both
  managers are interpretations; \<open>SessionManager::RemoveSession\<close> relies on the laws.
\<close>

locale membership =
  fixes joined :: "'s \<Rightarrow> SessionId \<Rightarrow> 'g option"
    and leave :: "SessionId \<Rightarrow> 's \<Rightarrow> bool \<times> 's"
    and ok :: "'s \<Rightarrow> bool"
  assumes leave_view: "ok s \<Longrightarrow> joined (snd (leave x s)) = (joined s)(x := None)"
    and leave_result: "ok s \<Longrightarrow> fst (leave x s) \<longleftrightarrow> joined s x \<noteq> None"
    and leave_ok: "ok s \<Longrightarrow> ok (snd (leave x s))"
begin

lemma leave_twice: "ok s \<Longrightarrow> \<not> fst (leave x (snd (leave x s)))"
  by (simp add: leave_result leave_ok leave_view)

lemma leave_commute:
  "ok s \<Longrightarrow> joined (snd (leave x (snd (leave y s)))) = joined (snd (leave y (snd (leave x s))))"
  by (simp add: leave_view leave_ok fun_upd_twist fun_eq_iff)

lemma leave_all:
  "ok s \<Longrightarrow> joined (fold (\<lambda>x t. snd (leave x t)) xs s) = (\<lambda>x. if x \<in> set xs then None else joined s x)"
  by (induction xs arbitrary: s) (auto simp: leave_ok leave_view fun_eq_iff)

end

locale membership_join = membership joined leave ok
  for joined :: "'s \<Rightarrow> SessionId \<Rightarrow> 'g option"
    and leave :: "SessionId \<Rightarrow> 's \<Rightarrow> bool \<times> 's"
    and ok :: "'s \<Rightarrow> bool" +
  fixes join :: "'g \<Rightarrow> SessionId \<Rightarrow> 's \<Rightarrow> 'r \<times> 's"
    and success :: 'r
  assumes join_success:
      "ok s \<Longrightarrow> fst (join g x s) = success \<Longrightarrow>
       joined s x = None \<and> joined (snd (join g x s)) = (joined s)(x := Some g)"
    and join_failure: "ok s \<Longrightarrow> fst (join g x s) \<noteq> success \<Longrightarrow> snd (join g x s) = s"
    and join_ok: "ok s \<Longrightarrow> ok (snd (join g x s))"
begin

lemma join_leave_view:
  assumes "ok s" "fst (join g x s) = success"
  shows "joined (snd (leave x (snd (join g x s)))) = joined s"
  using join_success [OF assms] assms by (auto simp: leave_view join_ok)

lemma join_again_fails:
  assumes "ok s" "fst (join g x s) = success"
  shows "fst (join h x (snd (join g x s))) \<noteq> success"
  using join_success [OF assms] join_success [OF join_ok [OF assms(1)]] by fastforce

end

end
