(* ===== verification/Channel_Manager.thy ===== *)
theory Channel_Manager
  imports Membership
begin

text \<open>
  Channels (\<open>src/include/ChannelManager.h\<close>, \<open>src/src/ChannelManager.cpp\<close>): a map of channels with
  their occupancy counters and the map of the channel each session has joined. The invariant
  \<open>cm_inv\<close> says that the counters count the joined sessions and stay within capacity; it holds
  after every sequence of operations (interpretation \<open>channel_machine\<close>).
\<close>

type_synonym ChannelId = u32

record ChannelInfo =
  ch_id :: ChannelId
  ch_name :: string
  ch_currentPlayers :: nat
  ch_maxPlayers :: nat

datatype JoinChannelResult = JoinChannel_Success | ChannelNotFound | ChannelFull | AlreadyJoinedChannel

record ChannelManager =
  cm_channels :: "(ChannelId, ChannelInfo) umap"
  cm_joinedChannels :: "(SessionId, ChannelId) umap"

definition cm_init :: ChannelManager where
  "cm_init = \<lparr>cm_channels = [], cm_joinedChannels = []\<rparr>"

definition AddChannel :: "ChannelId \<Rightarrow> string \<Rightarrow> nat \<Rightarrow> ChannelManager \<Rightarrow> bool \<times> ChannelManager" where
  "AddChannel channelId name maxPlayers s =
     (if channelId = 0 \<or> name = [] \<or> maxPlayers = 0 \<or> um_contains (cm_channels s) channelId
      then (False, s)
      else (True, s\<lparr>cm_channels := um_emplace channelId
              \<lparr>ch_id = channelId, ch_name = name, ch_currentPlayers = 0, ch_maxPlayers = maxPlayers\<rparr>
              (cm_channels s)\<rparr>))"

definition GetChannelList :: "ChannelManager \<Rightarrow> ChannelInfo list" where
  "GetChannelList s = sort_key ch_id (map snd (cm_channels s))"

definition JoinChannel ::
    "SessionId \<Rightarrow> ChannelId \<Rightarrow> ChannelManager \<Rightarrow> JoinChannelResult \<times> ChannelManager" where
  "JoinChannel sessionId channelId s =
     (case map_of (cm_channels s) channelId of
        None \<Rightarrow> (ChannelNotFound, s)
      | Some channel \<Rightarrow>
          if um_contains (cm_joinedChannels s) sessionId then (AlreadyJoinedChannel, s)
          else if ch_maxPlayers channel \<le> ch_currentPlayers channel then (ChannelFull, s)
          else (JoinChannel_Success,
                s\<lparr>cm_channels := um_modify channelId
                     (\<lambda>c. c\<lparr>ch_currentPlayers := ch_currentPlayers c + 1\<rparr>) (cm_channels s),
                  cm_joinedChannels := um_emplace sessionId channelId (cm_joinedChannels s)\<rparr>))"

definition LeaveChannel :: "SessionId \<Rightarrow> ChannelManager \<Rightarrow> bool \<times> ChannelManager" where
  "LeaveChannel sessionId s =
     (case map_of (cm_joinedChannels s) sessionId of
        None \<Rightarrow> (False, s)
      | Some channelId \<Rightarrow>
          (True,
           s\<lparr>cm_channels := um_modify channelId
               (\<lambda>c. if 0 < ch_currentPlayers c
                    then c\<lparr>ch_currentPlayers := ch_currentPlayers c - 1\<rparr> else c) (cm_channels s),
             cm_joinedChannels := um_erase sessionId (cm_joinedChannels s)\<rparr>))"

definition GetJoinedChannel :: "ChannelManager \<Rightarrow> SessionId \<Rightarrow> ChannelId option" where
  "GetJoinedChannel s sessionId = map_of (cm_joinedChannels s) sessionId"

datatype channel_op =
  OpAddChannel ChannelId string nat
| OpJoinChannel SessionId ChannelId
| OpLeaveChannel SessionId

fun channel_step :: "ChannelManager \<Rightarrow> channel_op \<Rightarrow> ChannelManager" where
  "channel_step s (OpAddChannel c n m) = snd (AddChannel c n m s)"
| "channel_step s (OpJoinChannel x c) = snd (JoinChannel x c s)"
| "channel_step s (OpLeaveChannel x) = snd (LeaveChannel x s)"

definition occupants :: "ChannelManager \<Rightarrow> ChannelId \<Rightarrow> nat" where
  "occupants s c = length (filter (\<lambda>e. snd e = c) (cm_joinedChannels s))"

definition cm_inv :: "ChannelManager \<Rightarrow> bool" where
  "cm_inv s \<longleftrightarrow>
     um_ok (cm_channels s) \<and> um_ok (cm_joinedChannels s) \<and>
     (\<forall>i c. map_of (cm_channels s) i = Some c \<longrightarrow>
        ch_id c = i \<and> ch_currentPlayers c = occupants s i \<and>
        occupants s i \<le> ch_maxPlayers c) \<and>
     (\<forall>x i. map_of (cm_joinedChannels s) x = Some i \<longrightarrow> um_contains (cm_channels s) i)"

lemma cm_inv_init: "cm_inv cm_init"
  by (simp add: cm_inv_def cm_init_def)

lemma count_erase:
  assumes "um_ok m" "map_of m x = Some c"
  shows "length (filter (\<lambda>e. snd e = d) m) =
    (if d = c then 1 else 0) + length (filter (\<lambda>e. snd e = d) (um_erase x m))"
  using assms
proof (induction m)
  case (Cons e m)
  show ?case
  proof (cases "fst e = x")
    case True
    with Cons.prems have "\<not> um_contains m x" by (auto simp: um_ok_def um_contains_iff_dom)
    then have "um_erase x m = m" by (rule um_erase_absent)
    with True have "um_erase x (e # m) = m" by (simp add: um_erase_def)
    with True Cons.prems show ?thesis by auto
  next
    case False
    with Cons.prems have "um_ok m" "map_of m x = Some c" by (auto simp: um_ok_def)
    with Cons.IH False show ?thesis by (auto simp: um_erase_def)
  qed
qed simp

lemma occupants_unknown: "cm_inv s \<Longrightarrow> \<not> um_contains (cm_channels s) c \<Longrightarrow> occupants s c = 0"
  by (auto simp: cm_inv_def occupants_def filter_empty_conv um_find_iff_set)

lemma cm_inv_AddChannel: "cm_inv s \<Longrightarrow> cm_inv (snd (AddChannel c n m s))"
  using occupants_unknown [of s c]
  by (auto simp: cm_inv_def AddChannel_def umap_simps occupants_def split: if_splits)

lemma cm_inv_JoinChannel: "cm_inv s \<Longrightarrow> cm_inv (snd (JoinChannel x c s))"
  unfolding cm_inv_def JoinChannel_def occupants_def
  by (auto simp: umap_simps split: option.splits if_splits) (auto simp: um_emplace_def)

lemma cm_inv_LeaveChannel: "cm_inv s \<Longrightarrow> cm_inv (snd (LeaveChannel x s))"
proof (cases "map_of (cm_joinedChannels s) x")
  case None
  then show "cm_inv s \<Longrightarrow> ?thesis" by (simp add: LeaveChannel_def)
next
  case (Some c)
  assume inv: "cm_inv s"
  define t where "t = snd (LeaveChannel x s)"
  have t: "cm_joinedChannels t = um_erase x (cm_joinedChannels s)"
    "map_of (cm_channels t) i = map_option (\<lambda>ch. if i = c \<and> 0 < ch_currentPlayers ch
        then ch\<lparr>ch_currentPlayers := ch_currentPlayers ch - 1\<rparr> else ch) (map_of (cm_channels s) i)"
    "um_contains (cm_channels t) i = um_contains (cm_channels s) i"
    "um_ok (cm_channels t) = um_ok (cm_channels s)" for i
    using Some by (auto simp: t_def LeaveChannel_def umap_simps option.map_ident_strong)
  from inv Some have occ: "occupants s d = (if d = c then 1 else 0) + occupants t d" for d
    unfolding occupants_def t(1) by (intro count_erase) (simp_all add: cm_inv_def)
  have "ch_id ch = i \<and> ch_currentPlayers ch = occupants t i \<and> occupants t i \<le> ch_maxPlayers ch"
    if ch: "map_of (cm_channels t) i = Some ch" for i ch
  proof -
    from ch t(2) obtain ch0 where ch0: "map_of (cm_channels s) i = Some ch0"
      "ch = (if i = c \<and> 0 < ch_currentPlayers ch0
         then ch0\<lparr>ch_currentPlayers := ch_currentPlayers ch0 - 1\<rparr> else ch0)" by auto
    with inv have "ch_id ch0 = i" "ch_currentPlayers ch0 = occupants s i"
      "occupants s i \<le> ch_maxPlayers ch0" by (auto simp: cm_inv_def)
    with ch0(2) occ [of i] show ?thesis by (cases "i = c") auto
  qed
  with inv show ?thesis unfolding t_def [symmetric] cm_inv_def t(1,3,4) by (simp add: umap_simps)
qed

interpretation channel_machine: machine channel_step cm_inv
proof
  fix s x assume "cm_inv s"
  then show "cm_inv (channel_step s x)"
    by (cases x) (auto intro: cm_inv_AddChannel cm_inv_JoinChannel cm_inv_LeaveChannel)
qed

interpretation channel_membership:
  membership_join GetJoinedChannel LeaveChannel cm_inv
    "\<lambda>c x. JoinChannel x c" JoinChannel_Success
proof (unfold_locales, goal_cases)
  case (1 s x)
  then show ?case
    by (auto simp: GetJoinedChannel_def LeaveChannel_def umap_simps fun_eq_iff split: option.splits)
next
  case (2 s x)
  then show ?case by (auto simp: GetJoinedChannel_def LeaveChannel_def split: option.splits)
next
  case (3 s x)
  then show ?case by (rule cm_inv_LeaveChannel)
next
  case (4 s c x)
  then show ?case
    by (auto simp: GetJoinedChannel_def JoinChannel_def umap_simps um_contains_def fun_eq_iff
        split: option.splits if_splits)
next
  case (5 s c x)
  then show ?case by (auto simp: JoinChannel_def split: option.splits if_splits)
next
  case (6 s c x)
  then show ?case by (rule cm_inv_JoinChannel)
qed

end
