(* ===== verification/Party_Manager.thy ===== *)
theory Party_Manager
  imports Membership
begin

text \<open>
  Parties (\<open>src/include/PartyManager.h\<close>, \<open>src/src/PartyManager.cpp\<close>). The invariant \<open>pm_inv\<close>
  ties the index \<open>joinedParties_\<close> to the member lists: a session is indexed under a party exactly
  when it is among its members, every party has one to four distinct members and its leader is
  one of them. Identifiers come from a 64-bit counter that wraps around, so the invariant is
  claimed while the counter has not wrapped (locale \<open>budget_machine\<close>).
\<close>

type_synonym PartyId = u64

definition MAX_PARTY_MEMBERS :: nat where "MAX_PARTY_MEMBERS = 4"

record PartyInfo =
  party_id :: PartyId
  party_leader :: SessionId
  party_members :: "SessionId list"

datatype JoinPartyResult = JoinParty_Success | PartyNotFound | PartyFull | AlreadyJoinedParty

record PartyManager =
  pm_nextPartyId :: PartyId
  pm_parties :: "(PartyId, PartyInfo) umap"
  pm_joinedParties :: "(SessionId, PartyId) umap"

definition pm_init :: PartyManager where
  "pm_init = \<lparr>pm_nextPartyId = 1, pm_parties = [], pm_joinedParties = []\<rparr>"

definition CreateParty :: "SessionId \<Rightarrow> PartyManager \<Rightarrow> PartyId option \<times> PartyManager" where
  "CreateParty leader s =
     (if um_contains (pm_joinedParties s) leader then (None, s)
      else
        let partyId = pm_nextPartyId s in
        (Some partyId,
         s\<lparr>pm_nextPartyId := partyId + 1,
           pm_parties := um_emplace partyId
             \<lparr>party_id = partyId, party_leader = leader, party_members = [leader]\<rparr> (pm_parties s),
           pm_joinedParties := um_emplace leader partyId (pm_joinedParties s)\<rparr>))"

definition JoinParty :: "PartyId \<Rightarrow> SessionId \<Rightarrow> PartyManager \<Rightarrow> JoinPartyResult \<times> PartyManager" where
  "JoinParty partyId sessionId s =
     (case map_of (pm_parties s) partyId of
        None \<Rightarrow> (PartyNotFound, s)
      | Some party \<Rightarrow>
          if um_contains (pm_joinedParties s) sessionId then (AlreadyJoinedParty, s)
          else if MAX_PARTY_MEMBERS \<le> length (party_members party) then (PartyFull, s)
          else (JoinParty_Success,
                s\<lparr>pm_parties := um_modify partyId
                     (\<lambda>p. p\<lparr>party_members := party_members p @ [sessionId]\<rparr>) (pm_parties s),
                  pm_joinedParties := um_emplace sessionId partyId (pm_joinedParties s)\<rparr>))"

definition party_without :: "SessionId \<Rightarrow> PartyInfo \<Rightarrow> PartyInfo" where
  "party_without sessionId p =
     (let p = p\<lparr>party_members := filter (\<lambda>m. m \<noteq> sessionId) (party_members p)\<rparr> in
      if party_members p \<noteq> [] \<and> party_leader p = sessionId
      then p\<lparr>party_leader := hd (party_members p)\<rparr> else p)"

definition LeaveParty :: "SessionId \<Rightarrow> PartyManager \<Rightarrow> bool \<times> PartyManager" where
  "LeaveParty sessionId s =
     (case map_of (pm_joinedParties s) sessionId of
        None \<Rightarrow> (False, s)
      | Some partyId \<Rightarrow>
          (case map_of (pm_parties s) partyId of
             None \<Rightarrow> (False, s\<lparr>pm_joinedParties := um_erase sessionId (pm_joinedParties s)\<rparr>)
           | Some party \<Rightarrow>
               let s = s\<lparr>pm_parties := um_modify partyId (party_without sessionId) (pm_parties s),
                         pm_joinedParties := um_erase sessionId (pm_joinedParties s)\<rparr>
               in if party_members (party_without sessionId party) = []
                  then (True, s\<lparr>pm_parties := um_erase partyId (pm_parties s)\<rparr>)
                  else (True, s)))"

definition GetParty :: "PartyManager \<Rightarrow> PartyId \<Rightarrow> PartyInfo option" where
  "GetParty s partyId = map_of (pm_parties s) partyId"

definition GetJoinedParty :: "PartyManager \<Rightarrow> SessionId \<Rightarrow> PartyId option" where
  "GetJoinedParty s sessionId = map_of (pm_joinedParties s) sessionId"

datatype party_op = OpCreateParty SessionId | OpJoinParty PartyId SessionId | OpLeaveParty SessionId

fun party_step :: "PartyManager \<Rightarrow> party_op \<Rightarrow> PartyManager" where
  "party_step s (OpCreateParty x) = snd (CreateParty x s)"
| "party_step s (OpJoinParty p x) = snd (JoinParty p x s)"
| "party_step s (OpLeaveParty x) = snd (LeaveParty x s)"

definition party_ok :: "PartyId \<Rightarrow> PartyInfo \<Rightarrow> bool" where
  "party_ok i p \<longleftrightarrow>
     party_id p = i \<and> distinct (party_members p) \<and> party_leader p \<in> set (party_members p) \<and>
     length (party_members p) \<le> MAX_PARTY_MEMBERS"

definition pm_inv :: "PartyManager \<Rightarrow> bool" where
  "pm_inv s \<longleftrightarrow>
     um_ok (pm_parties s) \<and> um_ok (pm_joinedParties s) \<and> 0 < pm_nextPartyId s \<and>
     (\<forall>i p. map_of (pm_parties s) i = Some p \<longrightarrow> party_ok i p \<and> 0 < i \<and> i < pm_nextPartyId s) \<and>
     (\<forall>x i. map_of (pm_joinedParties s) x = Some i \<longleftrightarrow>
        (\<exists>p. map_of (pm_parties s) i = Some p \<and> x \<in> set (party_members p)))"

lemma pm_inv_init: "pm_inv pm_init"
  by (simp add: pm_inv_def pm_init_def)

lemma party_ok_nonempty: "party_ok i p \<Longrightarrow> party_members p \<noteq> []"
  by (auto simp: party_ok_def)

lemma party_ok_without:
  "party_ok i p \<Longrightarrow> party_members (party_without x p) \<noteq> [] \<Longrightarrow> party_ok i (party_without x p)"
  using hd_in_set [of "filter (\<lambda>m. m \<noteq> x) (party_members p)"]
  by (auto simp: party_ok_def party_without_def Let_def intro: le_trans [OF length_filter_le])

lemma members_party_without [simp]:
  "party_members (party_without x p) = filter (\<lambda>m. m \<noteq> x) (party_members p)"
  by (simp add: party_without_def Let_def)

lemma pm_inv_index:
  "pm_inv s \<Longrightarrow> map_of (pm_joinedParties s) x = Some i \<longleftrightarrow>
     (\<exists>p. map_of (pm_parties s) i = Some p \<and> x \<in> set (party_members p))"
  by (simp add: pm_inv_def)

lemma pm_inv_party:
  "pm_inv s \<Longrightarrow> map_of (pm_parties s) i = Some p \<Longrightarrow>
     party_ok i p \<and> 0 < i \<and> i < pm_nextPartyId s"
  by (simp add: pm_inv_def)

lemma pm_inv_unindexed:
  "pm_inv s \<Longrightarrow> \<not> um_contains (pm_joinedParties s) x \<Longrightarrow> map_of (pm_parties s) i = Some p \<Longrightarrow>
     x \<notin> set (party_members p)"
  using pm_inv_index [of s x i] by (auto simp: um_contains_def)

lemma pm_inv_CreateParty:
  assumes inv: "pm_inv s" and room: "unat (pm_nextPartyId s) < 2 ^ 64 - 1"
  shows "pm_inv (snd (CreateParty x s))"
proof (cases "um_contains (pm_joinedParties s) x")
  case True
  with inv show ?thesis by (simp add: CreateParty_def)
next
  case False
  define n where "n = pm_nextPartyId s"
  from room have "unat n < 2 ^ LENGTH(64) - 1" by (simp add: n_def)
  note counter = word_counter [OF this]
  have fresh: "\<not> um_contains (pm_parties s) n"
    using pm_inv_party [OF inv, of n] by (cases "map_of (pm_parties s) n") (auto simp: um_contains_def n_def)
  note other = pm_inv_unindexed [OF inv False]
  show ?thesis
    using inv False fresh counter other
    by (auto simp: CreateParty_def pm_inv_def n_def [symmetric] umap_simps party_ok_def
        MAX_PARTY_MEMBERS_def um_contains_def Let_def)
qed

lemma pm_inv_JoinParty:
  assumes inv: "pm_inv s"
  shows "pm_inv (snd (JoinParty i x s))"
proof (cases "fst (JoinParty i x s) = JoinParty_Success")
  case False
  with inv show ?thesis by (auto simp: JoinParty_def split: option.splits if_splits)
next
  case True
  then obtain p where p: "map_of (pm_parties s) i = Some p"
    "\<not> um_contains (pm_joinedParties s) x" "length (party_members p) < MAX_PARTY_MEMBERS"
    by (auto simp: JoinParty_def split: option.splits if_splits)
  note other = pm_inv_unindexed [OF inv p(2)]
  have "party_ok i (p\<lparr>party_members := party_members p @ [x]\<rparr>)"
    using pm_inv_party [OF inv p(1)] other [OF p(1)] p(3) by (simp add: party_ok_def)
  with inv p other show ?thesis
    by (auto simp: JoinParty_def pm_inv_def umap_simps um_contains_def)
qed

lemma LeaveParty_indexed:
  assumes inv: "pm_inv s" and i: "map_of (pm_joinedParties s) x = Some i"
    and p: "map_of (pm_parties s) i = Some p"
  shows "LeaveParty x s =
    (True, s\<lparr>pm_parties := (if filter (\<lambda>m. m \<noteq> x) (party_members p) = [] then um_erase i (pm_parties s)
                           else um_modify i (party_without x) (pm_parties s)),
             pm_joinedParties := um_erase x (pm_joinedParties s)\<rparr>)"
  using assms
  by (simp add: LeaveParty_def Let_def umap_simps)

lemma pm_inv_LeaveParty:
  assumes inv: "pm_inv s"
  shows "pm_inv (snd (LeaveParty x s))"
proof (cases "map_of (pm_joinedParties s) x")
  case None
  with inv show ?thesis by (simp add: LeaveParty_def)
next
  case (Some i)
  with inv obtain p where p: "map_of (pm_parties s) i = Some p" "x \<in> set (party_members p)"
    using pm_inv_index by blast
  define t where "t = snd (LeaveParty x s)"
  have t: "map_of (pm_parties t) j = (if j = i then
        if filter (\<lambda>m. m \<noteq> x) (party_members p) = [] then None else Some (party_without x p)
        else map_of (pm_parties s) j)"
    "map_of (pm_joinedParties t) y = (if y = x then None else map_of (pm_joinedParties s) y)"
    "um_ok (pm_parties t)" "um_ok (pm_joinedParties t)" "pm_nextPartyId t = pm_nextPartyId s" for j y
    using inv p by (auto simp: t_def LeaveParty_indexed [OF inv Some p(1)] umap_simps pm_inv_def)
  have idx: "map_of (pm_joinedParties t) y = Some j \<longleftrightarrow>
      (\<exists>q. map_of (pm_parties t) j = Some q \<and> y \<in> set (party_members q))" for y j
  proof (cases "j = i")
    case True
    with pm_inv_index [OF inv, of y i] p(1) show ?thesis
      by (simp add: t(1,2) filter_empty_conv) blast
  next
    case False
    with pm_inv_index [OF inv, of y j] Some show ?thesis by (auto simp: t(1,2))
  qed
  have ok: "party_ok j q \<and> 0 < j \<and> j < pm_nextPartyId s" if "map_of (pm_parties t) j = Some q" for j q
    using that pm_inv_party [OF inv] p(1) by (auto simp: t(1) intro: party_ok_without split: if_splits)
  from inv idx ok t(3-5) show ?thesis unfolding t_def [symmetric] by (simp add: pm_inv_def)
qed

lemma CreateParty_spent:
  "unat (pm_nextPartyId s) < 2 ^ 64 - 1 \<Longrightarrow>
   unat (pm_nextPartyId (snd (CreateParty x s))) \<le> Suc (unat (pm_nextPartyId s))"
  using unat_Suc_word [of "pm_nextPartyId s"] by (auto simp: CreateParty_def Let_def)

lemma JoinParty_next [simp]: "pm_nextPartyId (snd (JoinParty i x s)) = pm_nextPartyId s"
  by (auto simp: JoinParty_def split: option.splits)

lemma LeaveParty_next [simp]: "pm_nextPartyId (snd (LeaveParty x s)) = pm_nextPartyId s"
  by (auto simp: LeaveParty_def Let_def split: option.splits)

interpretation party_machine:
  budget_machine party_step pm_inv "\<lambda>s. unat (pm_nextPartyId s)" "2 ^ 64 - 1"
proof (unfold_locales, goal_cases)
  case (1 s x)
  then show ?case
    by (cases x) (auto intro: pm_inv_CreateParty pm_inv_JoinParty pm_inv_LeaveParty)
next
  case (2 s x)
  then show ?case by (cases x) (auto intro: CreateParty_spent)
qed

interpretation party_membership:
  membership_join GetJoinedParty LeaveParty pm_inv JoinParty JoinParty_Success
proof (unfold_locales, goal_cases)
  case (1 s x)
  then show ?case
    by (auto simp: GetJoinedParty_def LeaveParty_def umap_simps fun_eq_iff Let_def
        split: option.splits)
next
  case (2 s x)
  then show ?case
    using pm_inv_index [OF "2", of x]
    by (auto simp: GetJoinedParty_def LeaveParty_def Let_def split: option.splits)
next
  case (3 s x)
  then show ?case by (rule pm_inv_LeaveParty)
next
  case (4 s i x)
  then show ?case
    by (auto simp: GetJoinedParty_def JoinParty_def umap_simps um_contains_def fun_eq_iff
        split: option.splits if_splits)
next
  case (5 s i x)
  then show ?case by (auto simp: JoinParty_def split: option.splits if_splits)
next
  case (6 s i x)
  then show ?case by (rule pm_inv_JoinParty)
qed

end
