(* ===== verification/Transport_Properties.thy ===== *)
theory Transport_Properties
  imports Receive_Buffer Channel_Manager Party_Manager
begin

text \<open>
  Properties of the TCP transport and of the two membership managers, each with a concrete
  instance where it has hypotheses.
\<close>

section \<open>Framing\<close>

type_synonym packet_spec = "PacketType \<times> u32 \<times> u8 list"

definition spec_of :: "Packet \<Rightarrow> packet_spec" where
  "spec_of p = (headerType (header p), requestId (header p), payload p)"

text \<open>The bytes a client sends for a sequence of packets.\<close>

fun encode_all :: "packet_spec list \<Rightarrow> packet_error + u8 list" where
  "encode_all [] = Inr []"
| "encode_all ((ty, rid, body) # ps) =
     (case EncodePacket ty rid body of
        Inl e \<Rightarrow> Inl e
      | Inr bs \<Rightarrow> (case encode_all ps of Inl e \<Rightarrow> Inl e | Inr cs \<Rightarrow> Inr (bs @ cs)))"

lemma stream_drain_Nil [simp]: "stream_drain [] = Inr ([], [])"
  by (simp add: stream_drain.simps [of "[]"] stream_pop_def PACKET_HEADER_SIZE_def)

lemma stream_drain_encode_all:
  "encode_all specs = Inr bs \<Longrightarrow> \<exists>ps. stream_drain bs = Inr (ps, []) \<and> map spec_of ps = specs"
proof (induction specs arbitrary: bs rule: encode_all.induct)
  case (2 ty rid body specs)
  then obtain b cs where b: "EncodePacket ty rid body = Inr b" "encode_all specs = Inr cs" "bs = b @ cs"
    by (auto split: sum.splits)
  from stream_pop_EncodePacket [OF b(1), of cs] obtain h where
    h: "stream_pop bs = Inr (Some \<lparr>header = h, payload = body\<rparr>, cs)" "headerType h = ty" "requestId h = rid"
    by (auto simp: b(3))
  from "2.IH" [OF b(1,2)] obtain ps where "stream_drain cs = Inr (ps, [])" "map spec_of ps = specs" by blast
  moreover have "spec_of \<lparr>header = h, payload = body\<rparr> = (ty, rid, body)" using h by (simp add: spec_of_def)
  ultimately show ?case using h(1)
    by (intro exI [of _ "\<lparr>header = h, payload = body\<rparr> # ps"]) (simp add: stream_drain.simps [of bs])
qed simp

text \<open>C7. Framing does not depend on how TCP splits the stream: whatever the sizes of the reads, a
  session that receives the bytes of a sequence of encoded packets dispatches exactly these packets,
  in order, and is left with an empty buffer.\<close>

theorem framing_independent_of_reads:
  assumes "encode_all specs = Inr bytes" and "concat reads = bytes"
  shows "\<exists>packets b. receive_reads rb_init reads = Inr (packets, b) \<and>
    map spec_of packets = specs \<and> rb_stream b = []"
proof -
  obtain ps where "stream_drain bytes = Inr (ps, [])" "map spec_of ps = specs"
    using stream_drain_encode_all [OF assms(1)] by blast
  with receive_reads_stream [of rb_init reads ps "[]"] assms(2) show ?thesis
    by (auto simp: rb_init_def rb_ok_def rb_stream_def)
qed

lemma two_packets:
  "encode_all [(2, 7, []), (6, 8, [42])] =
     Inr [0, 8, 0, 2, 0, 0, 0, 7, 0, 9, 0, 6, 0, 0, 0, 8, 42]"
  by (simp add: EncodePacket_def EncodeHeader_def ValidateHeader_def IsValidPacketType_def
      packetTypes_def PACKET_HEADER_SIZE_def MAX_PACKET_SIZE_def Let_def)

theorem framing_independent_of_reads_witness:
  "\<exists>packets b. receive_reads rb_init [[0, 8, 0], [2, 0, 0, 0, 7, 0], [9, 0, 6, 0, 0, 0, 8, 42]] =
      Inr (packets, b) \<and>
    map spec_of packets = [(2, 7, []), (6, 8, [42])] \<and> rb_stream b = []"
  using framing_independent_of_reads [OF two_packets,
      of "[[0, 8, 0], [2, 0, 0, 0, 7, 0], [9, 0, 6, 0, 0, 0, 8, 42]]"] by simp

text \<open>The header codec is a bijection between valid headers and the byte strings it accepts: an
  encoded header decodes to itself, and the eight bytes of a decoded header are its encoding.\<close>

lemma header_codec_bijective:
  "(EncodeHeader h = Inr bs \<longrightarrow> length bs = PACKET_HEADER_SIZE \<and> DecodeHeader bs = Inr h) \<and>
   (length bs = PACKET_HEADER_SIZE \<and> DecodeHeader bs = Inr h \<longrightarrow> EncodeHeader h = Inr bs)"
  using header_codec.encode_width header_codec.decode_encode header_codec.encode_decode by blast



section \<open>Channels and parties\<close>

text \<open>After any sequence of operations on the channel manager, the counter of every channel is
  the number of sessions that have joined it and does not exceed its capacity.\<close>

lemma channel_occupancy:
  "\<forall>ops i c. map_of (cm_channels (run channel_step cm_init ops)) i = Some c \<longrightarrow>
     ch_currentPlayers c = card {x. GetJoinedChannel (run channel_step cm_init ops) x = Some i} \<and>
     ch_currentPlayers c \<le> ch_maxPlayers c"
proof (intro allI impI)
  fix ops i c
  let ?s = "run channel_step cm_init ops"
  assume c: "map_of (cm_channels ?s) i = Some c"
  have inv: "cm_inv ?s" by (rule channel_machine.run_inv [OF cm_inv_init])
  then have ok: "um_ok (cm_joinedChannels ?s)" by (simp add: cm_inv_def)
  have "occupants ?s i = card {x. map_of (cm_joinedChannels ?s) x = Some i}"
  proof -
    have "distinct (map fst (filter (\<lambda>e. snd e = i) (cm_joinedChannels ?s)))"
      using ok by (simp add: um_ok_def distinct_map_filter)
    from distinct_card [OF this] have "occupants ?s i = card (fst ` {e \<in> set (cm_joinedChannels ?s). snd e = i})"
      by (simp add: occupants_def)
    also have "fst ` {e \<in> set (cm_joinedChannels ?s). snd e = i} =
        {x. map_of (cm_joinedChannels ?s) x = Some i}"
      unfolding um_find_iff_set [OF ok] by force
    finally show ?thesis .
  qed
  moreover have "ch_currentPlayers c = occupants ?s i" "occupants ?s i \<le> ch_maxPlayers c"
    using inv c by (auto simp: cm_inv_def)
  ultimately show "ch_currentPlayers c = card {x. GetJoinedChannel ?s x = Some i} \<and>
      ch_currentPlayers c \<le> ch_maxPlayers c"
    by (simp add: GetJoinedChannel_def)
qed

definition channel_example :: "channel_op list" where
  "channel_example = [OpAddChannel 1 ''Elvengard'' 1, OpJoinChannel 10 1, OpJoinChannel 11 1]"

text \<open>After any sequence of fewer than \<open>2 ^ 64 - 1\<close> operations on the party manager, every party
  has one to four distinct members with the leader among them, and a session is registered under a
  party exactly when it is one of its members.\<close>

lemma party_membership_exact:
  assumes "length ops < 2 ^ 64 - 1"
  defines "s \<equiv> run party_step pm_init ops"
  shows "(\<forall>i p. GetParty s i = Some p \<longrightarrow>
      party_id p = i \<and> distinct (party_members p) \<and> party_leader p \<in> set (party_members p) \<and>
      length (party_members p) \<in> {1..4}) \<and>
    (\<forall>x i. GetJoinedParty s x = Some i \<longleftrightarrow> (\<exists>p. GetParty s i = Some p \<and> x \<in> set (party_members p)))"
proof -
  have "pm_inv s"
    unfolding s_def using assms(1)
    by (intro party_machine.budget_run_inv [OF pm_inv_init]) (simp add: pm_init_def)
  then show ?thesis
    using party_ok_nonempty
    by (fastforce simp: pm_inv_def party_ok_def GetParty_def GetJoinedParty_def MAX_PARTY_MEMBERS_def
        Suc_le_eq)
qed

text \<open>When the leader leaves a party that still has members, the party survives without it and the
  longest-standing remaining member leads it; everyone else keeps their place.\<close>

lemma leader_handover:
  assumes "pm_inv s" "GetJoinedParty s x = Some i" "GetParty s i = Some p" "party_leader p = x"
    and "party_members p \<noteq> [x]"
  shows "\<exists>p'. GetParty (snd (LeaveParty x s)) i = Some p' \<and>
    party_members p' = filter (\<lambda>m. m \<noteq> x) (party_members p) \<and>
    party_leader p' = hd (party_members p') \<and> party_members p' \<noteq> [] \<and>
    GetJoinedParty (snd (LeaveParty x s)) = (GetJoinedParty s)(x := None)"
proof -
  note J = assms(2,3) [unfolded GetJoinedParty_def GetParty_def]
  have po: "distinct (party_members p)" "x \<in> set (party_members p)"
    using pm_inv_party [OF assms(1) J(2)] assms(4) by (auto simp: party_ok_def)
  have ne: "filter (\<lambda>m. m \<noteq> x) (party_members p) \<noteq> []"
  proof
    assume "filter (\<lambda>m. m \<noteq> x) (party_members p) = []"
    then have "set (party_members p) \<subseteq> {x}" by (auto simp: filter_empty_conv)
    with po assms(5) show False by (cases "party_members p") (auto simp: subset_singleton_iff)
  qed
  then show ?thesis
    using LeaveParty_indexed [OF assms(1) J] J assms(4)
    by (auto simp: GetParty_def GetJoinedParty_def umap_simps fun_eq_iff party_without_def Let_def)
qed

definition party_example :: PartyManager where
  "party_example = run party_step pm_init [OpCreateParty 5, OpJoinParty 1 6, OpJoinParty 1 7]"

lemma party_example_inv: "pm_inv party_example"
  unfolding party_example_def
  by (rule party_machine.budget_run_inv [OF pm_inv_init]) (simp add: pm_init_def)

lemma party_example_eval:
  "party_example =
     \<lparr>pm_nextPartyId = 2, pm_parties = [(1, \<lparr>party_id = 1, party_leader = 5, party_members = [5, 6, 7]\<rparr>)],
      pm_joinedParties = [(5, 1), (6, 1), (7, 1)]\<rparr>"
  by (simp add: party_example_def pm_init_def CreateParty_def JoinParty_def um_emplace_def um_contains_def
      um_modify_def MAX_PARTY_MEMBERS_def)

end
