(* ===== verification/Float32.thy ===== *)
theory Float32
  imports Complex_Main Prelude
begin

text \<open>
  The C++ type \<open>float\<close> (IEEE 754 binary32, rounding to nearest, ties to even).

  Every finite binary32 value is an integral multiple of the least subnormal \<open>2^-149\<close>, so
  \<open>Fin k\<close> stands for \<open>k * 2^-149\<close> and every operation computes on integers: the exact
  quotient or root is formed and rounded once to 24 significant bits, with overflow to
  infinity at \<open>2^128 = 2^277 * 2^-149\<close>. Comparisons involving NaN are false.

  The two zeros are one value \<open>Fin 0\<close>. They compare equal, and the only divisors of the sources
  that can be zero are results of \<open>std::sqrt\<close> on sums of squares, whose zero is \<open>+0\<close>: a
  division by \<open>Fin 0\<close> is a division by \<open>+0\<close>.

  The lemmas show that rounding is monotone and exact on representable values, which is what
  the speed bounds of the movement code rest on.
\<close>

datatype float32 = Fin int | PInf | NInf | NaN

section \<open>Rounding a non-negative quotient to 24 significant bits\<close>

fun bits :: "nat \<Rightarrow> nat" where
  "bits n = (if n = 0 then 0 else Suc (bits (n div 2)))"

declare bits.simps [simp del]

definition round_half_even :: "nat \<Rightarrow> nat \<Rightarrow> nat" where
  "round_half_even n d =
     (let q = n div d; r = n mod d in
      if 2 * r < d then q
      else if d < 2 * r then Suc q
      else if even q then q else Suc q)"

definition round_mag :: "nat \<Rightarrow> nat \<Rightarrow> nat" where
  "round_mag n d =
     (let u = 2 ^ (bits (n div d) - 24) in round_half_even n (d * u) * u)"

definition f32_finish :: "bool \<Rightarrow> nat \<Rightarrow> float32" where
  "f32_finish neg m =
     (if 2 ^ 277 \<le> m then (if neg then NInf else PInf)
      else Fin (if neg then - int m else int m))"

section \<open>Operations\<close>

definition f32_of_int :: "int \<Rightarrow> float32" where
  "f32_of_int i = f32_finish (i < 0) (round_mag (nat \<bar>i\<bar> * 2 ^ 149) 1)"

abbreviation f32_0 :: float32 where "f32_0 \<equiv> Fin 0"

abbreviation f32_1 :: float32 where "f32_1 \<equiv> Fin (2 ^ 149)"

fun isfinite :: "float32 \<Rightarrow> bool" where
  "isfinite (Fin k) = True"
| "isfinite x = False"

fun f32_lt :: "float32 \<Rightarrow> float32 \<Rightarrow> bool" where
  "f32_lt NaN y = False"
| "f32_lt x NaN = False"
| "f32_lt (Fin a) (Fin b) = (a < b)"
| "f32_lt NInf y = (y \<noteq> NInf)"
| "f32_lt x NInf = False"
| "f32_lt PInf y = False"
| "f32_lt x PInf = True"

fun f32_le :: "float32 \<Rightarrow> float32 \<Rightarrow> bool" where
  "f32_le NaN y = False"
| "f32_le x NaN = False"
| "f32_le (Fin a) (Fin b) = (a \<le> b)"
| "f32_le NInf y = True"
| "f32_le x NInf = False"
| "f32_le x PInf = True"
| "f32_le PInf y = False"

abbreviation f32_gt :: "float32 \<Rightarrow> float32 \<Rightarrow> bool" where
  "f32_gt x y \<equiv> f32_lt y x"

abbreviation f32_ge :: "float32 \<Rightarrow> float32 \<Rightarrow> bool" where
  "f32_ge x y \<equiv> f32_le y x"

fun f32_neg :: "float32 \<Rightarrow> float32" where
  "f32_neg (Fin k) = Fin (- k)"
| "f32_neg PInf = NInf"
| "f32_neg NInf = PInf"
| "f32_neg NaN = NaN"

fun f32_abs :: "float32 \<Rightarrow> float32" where
  "f32_abs (Fin k) = Fin \<bar>k\<bar>"
| "f32_abs PInf = PInf"
| "f32_abs NInf = PInf"
| "f32_abs NaN = NaN"

fun f32_add :: "float32 \<Rightarrow> float32 \<Rightarrow> float32" where
  "f32_add (Fin a) (Fin b) = f32_finish (a + b < 0) (round_mag (nat \<bar>a + b\<bar>) 1)"
| "f32_add NaN y = NaN"
| "f32_add x NaN = NaN"
| "f32_add PInf NInf = NaN"
| "f32_add NInf PInf = NaN"
| "f32_add PInf y = PInf"
| "f32_add NInf y = NInf"
| "f32_add x PInf = PInf"
| "f32_add x NInf = NInf"

definition f32_sub :: "float32 \<Rightarrow> float32 \<Rightarrow> float32" where
  "f32_sub x y = f32_add x (f32_neg y)"

fun f32_sign :: "float32 \<Rightarrow> int" where
  "f32_sign (Fin k) = sgn k"
| "f32_sign PInf = 1"
| "f32_sign NInf = -1"
| "f32_sign NaN = 0"

definition f32_inf :: "int \<Rightarrow> float32" where
  "f32_inf s = (if s = 0 then NaN else if s < 0 then NInf else PInf)"

fun f32_mul :: "float32 \<Rightarrow> float32 \<Rightarrow> float32" where
  "f32_mul (Fin a) (Fin b) = f32_finish (a * b < 0) (round_mag (nat \<bar>a * b\<bar>) (2 ^ 149))"
| "f32_mul x y = f32_inf (f32_sign x * f32_sign y)"

fun f32_div :: "float32 \<Rightarrow> float32 \<Rightarrow> float32" where
  "f32_div (Fin a) (Fin b) =
     (if b = 0 then f32_inf (sgn a)
      else f32_finish (a * b < 0) (round_mag (nat \<bar>a\<bar> * 2 ^ 149) (nat \<bar>b\<bar>)))"
| "f32_div NaN y = NaN"
| "f32_div x NaN = NaN"
| "f32_div (Fin a) y = f32_0"
| "f32_div x (Fin b) = (if b = 0 then x else f32_inf (f32_sign x * sgn b))"
| "f32_div x y = NaN"

text \<open>Integer square root, one pair of bits per step.\<close>

definition isqrt_digit :: "nat \<Rightarrow> nat \<Rightarrow> nat" where
  "isqrt_digit r n = (if (r + 1) * (r + 1) \<le> n then r + 1 else r)"

fun isqrt :: "nat \<Rightarrow> nat" where
  "isqrt n = (if n = 0 then 0 else isqrt_digit (2 * isqrt (n div 4)) n)"

declare isqrt.simps [simp del]

text \<open>The root of \<open>a * 2^-149\<close> is \<open>sqrt (a * 2^149) * 2^-149\<close>, rounded once.\<close>

definition sqrt_round :: "nat \<Rightarrow> nat \<Rightarrow> nat \<Rightarrow> nat" where
  "sqrt_round n q u =
     (let h = (2 * q + 1) * u in
      if 4 * n < h * h then q
      else if h * h < 4 * n then Suc q
      else if even q then q else Suc q) * u"

definition sqrt_mag :: "nat \<Rightarrow> nat" where
  "sqrt_mag n = sqrt_round n (isqrt n div 2 ^ (bits (isqrt n) - 24)) (2 ^ (bits (isqrt n) - 24))"

fun f32_sqrt :: "float32 \<Rightarrow> float32" where
  "f32_sqrt (Fin a) = (if a < 0 then NaN else f32_finish False (sqrt_mag (nat a * 2 ^ 149)))"
| "f32_sqrt PInf = PInf"
| "f32_sqrt NInf = NaN"
| "f32_sqrt NaN = NaN"

text \<open>\<open>std::min(a, b)\<close> is \<open>(b < a) ? b : a\<close> and \<open>std::max(a, b)\<close> is \<open>(a < b) ? b : a\<close>.\<close>

definition f32_min :: "float32 \<Rightarrow> float32 \<Rightarrow> float32" where
  "f32_min a b = (if f32_lt b a then b else a)"

definition f32_max :: "float32 \<Rightarrow> float32 \<Rightarrow> float32" where
  "f32_max a b = (if f32_lt a b then b else a)"

text \<open>\<open>std::round\<close>: to the nearest integer, halves away from zero.\<close>

fun f32_round :: "float32 \<Rightarrow> float32" where
  "f32_round (Fin k) = Fin (sgn k * ((\<bar>k\<bar> + 2 ^ 148) div 2 ^ 149) * 2 ^ 149)"
| "f32_round x = x"

text \<open>
  \<open>static_cast<std::uint32_t>\<close> truncates; a value outside the range of the target type is
  undefined behaviour, the result \<open>None\<close>.
\<close>

fun f32_to_u32 :: "float32 \<Rightarrow> u32 option" where
  "f32_to_u32 (Fin k) =
     (let t = sgn k * (\<bar>k\<bar> div 2 ^ 149) in
      if 0 \<le> t \<and> t < 2 ^ 32 then Some (word_of_int t) else None)"
| "f32_to_u32 x = None"

section \<open>Rounding is monotone\<close>

lemma bits_bounds: "0 < n \<Longrightarrow> 2 ^ (bits n - 1) \<le> n \<and> n < 2 ^ bits n"
proof (induction n rule: bits.induct)
  case (1 n)
  show ?case
  proof (cases "n div 2 = 0")
    case True
    with "1.prems" have "n = 1" by auto
    then show ?thesis by (simp add: bits.simps)
  next
    case False
    with "1" have IH: "2 ^ (bits (n div 2) - 1) \<le> n div 2" "n div 2 < 2 ^ bits (n div 2)"
      by auto
    from False have pos: "0 < bits (n div 2)" by (simp add: bits.simps [of "n div 2"])
    have "bits n = Suc (bits (n div 2))" using "1.prems" by (simp add: bits.simps [of n])
    moreover have "2 ^ bits (n div 2) \<le> n"
    proof -
      have "(2::nat) ^ bits (n div 2) = 2 * 2 ^ (bits (n div 2) - 1)"
        using pos by (metis Suc_diff_1 power_Suc)
      also have "\<dots> \<le> n" using IH(1) by linarith
      finally show ?thesis .
    qed
    ultimately show ?thesis using IH(2) by auto
  qed
qed

lemma bits_0 [simp]: "bits 0 = 0"
  by (simp add: bits.simps)

lemma less_power_bits: "n < 2 ^ bits n"
  using bits_bounds [of n] by (cases "n = 0") auto

lemma bits_mono: "m \<le> n \<Longrightarrow> bits m \<le> bits n"
proof (cases "m = 0")
  case False
  assume le: "m \<le> n"
  with False have "(2::nat) ^ (bits m - 1) < 2 ^ bits n"
    using bits_bounds [of m] bits_bounds [of n] by linarith
  then have "bits m - 1 < bits n" by simp
  then show ?thesis by simp
qed simp

lemma round_half_even_near:
  assumes "0 < d"
  shows "real (round_half_even n d) - 1/2 \<le> real n / real d"
    and "real n / real d \<le> real (round_half_even n d) + 1/2"
    and "odd (round_half_even n d) \<Longrightarrow> real (round_half_even n d) - 1/2 < real n / real d"
    and "odd (round_half_even n d) \<Longrightarrow> real n / real d < real (round_half_even n d) + 1/2"
proof -
  define q r where "q = n div d" and "r = n mod d"
  have n: "real n = real q * real d + real r"
    unfolding q_def r_def by (metis div_mult_mod_eq of_nat_add of_nat_mult)
  define t where "t = real r / real d"
  have x: "real n / real d = real q + t"
    using assms n by (simp add: t_def field_simps)
  have r: "r < d" using assms by (simp add: r_def)
  have rhe: "round_half_even n d =
      (if 2 * r < d then q else if d < 2 * r then Suc q else if even q then q else Suc q)"
    by (simp add: round_half_even_def q_def r_def Let_def)
  have pos: "0 \<le> t" "t < 1" using r assms by (auto simp: t_def field_simps)
  consider "2 * r < d" | "d < 2 * r" | "2 * r = d" by linarith
  then have "real (round_half_even n d) - 1/2 \<le> real n / real d \<and>
    real n / real d \<le> real (round_half_even n d) + 1/2 \<and>
    (odd (round_half_even n d) \<longrightarrow> real (round_half_even n d) - 1/2 < real n / real d \<and>
      real n / real d < real (round_half_even n d) + 1/2)"
  proof cases
    case 1
    then have "t < 1/2" using assms by (simp add: t_def field_simps)
    with 1 pos show ?thesis unfolding x rhe by auto
  next
    case 2
    then have "1/2 < t" using assms by (simp add: t_def field_simps)
    with 2 pos show ?thesis unfolding x rhe by auto
  next
    case 3
    then have "t = 1/2" using assms by (auto simp: t_def field_simps)
    with 3 show ?thesis unfolding x rhe by auto
  qed
  then show "real (round_half_even n d) - 1/2 \<le> real n / real d"
    and "real n / real d \<le> real (round_half_even n d) + 1/2"
    and "odd (round_half_even n d) \<Longrightarrow> real (round_half_even n d) - 1/2 < real n / real d"
    and "odd (round_half_even n d) \<Longrightarrow> real n / real d < real (round_half_even n d) + 1/2"
    by blast+
qed

lemma round_half_even_mono:
  assumes "0 < d" "0 < d'" and le: "real n / real d \<le> real n' / real d'"
  shows "round_half_even n d \<le> round_half_even n' d'"
proof (rule ccontr)
  assume "\<not> ?thesis"
  then have lt: "Suc (round_half_even n' d') \<le> round_half_even n d" by simp
  note near = round_half_even_near [OF assms(1), of n]
  note near' = round_half_even_near [OF assms(2), of n']
  have "real (round_half_even n d) \<le> real (round_half_even n' d') + 1"
    using near(1) near'(2) le by linarith
  with lt have eq: "round_half_even n d = Suc (round_half_even n' d')" by linarith
  show False
  proof (cases "odd (round_half_even n d)")
    case True
    with near(3) near'(2) le eq show False by simp
  next
    case False
    with eq have "odd (round_half_even n' d')" by simp
    with near(1) near'(4) le eq show False by simp
  qed
qed

lemma round_half_even_exact: "0 < d \<Longrightarrow> round_half_even (k * d) d = k"
  by (simp add: round_half_even_def)

lemma quot_le_div: "0 < d \<Longrightarrow> 0 < d' \<Longrightarrow> real n / real d \<le> real n' / real d' \<Longrightarrow> n div d \<le> n' div d'"
  by (metis floor_divide_of_nat_eq floor_mono of_nat_le_iff zle_int)

lemma round_mag_mono:
  assumes d: "0 < d" "0 < d'" and le: "real n / real d \<le> real n' / real d'"
  shows "round_mag n d \<le> round_mag n' d'"
proof -
  define s s' where "s = bits (n div d) - 24" and "s' = bits (n' div d') - 24"
  have quot: "n div d \<le> n' div d'" using d le by (rule quot_le_div)
  have ss: "s \<le> s'" using bits_mono [OF quot] by (simp add: s_def s'_def)
  have m: "round_mag n d = round_half_even n (d * 2 ^ s) * 2 ^ s"
    and m': "round_mag n' d' = round_half_even n' (d' * 2 ^ s') * 2 ^ s'"
    by (simp_all add: round_mag_def s_def s'_def Let_def)
  show ?thesis
  proof (cases "s = s'")
    case True
    have "(real n / real d) / 2 ^ s \<le> (real n' / real d') / 2 ^ s"
      using le by (rule divide_right_mono) simp
    then have "real n / real (d * 2 ^ s) \<le> real n' / real (d' * 2 ^ s)" by simp
    then have "round_half_even n (d * 2 ^ s) \<le> round_half_even n' (d' * 2 ^ s)"
      using d by (intro round_half_even_mono) auto
    with True m m' show ?thesis by simp
  next
    case False
    with ss have lt: "Suc s \<le> s'" by simp
    have "n div d < 2 ^ (s + 24)"
      by (rule less_le_trans [OF less_power_bits]) (simp add: s_def)
    then have "n < 2 ^ (s + 24) * d" using d by (simp add: div_less_iff_less_mult)
    then have "real n \<le> real (2 ^ (s + 24) * d)" by linarith
    then have "real n / real (d * 2 ^ s) \<le> real (2 ^ 24 * (d * 2 ^ s)) / real (d * 2 ^ s)"
      using d by (intro divide_right_mono) (simp_all add: power_add algebra_simps)
    then have "round_half_even n (d * 2 ^ s) \<le> round_half_even (2 ^ 24 * (d * 2 ^ s)) (d * 2 ^ s)"
      using d by (intro round_half_even_mono) auto
    then have "round_half_even n (d * 2 ^ s) \<le> 2 ^ 24"
      using round_half_even_exact [of "d * 2 ^ s" "2 ^ 24"] d by simp
    then have up: "round_mag n d \<le> 2 ^ (s + 24)"
      unfolding m power_add using mult_le_mono1 by (metis mult.commute)
    have b: "bits (n' div d') = s' + 24" using lt by (simp add: s'_def)
    then have "0 < n' div d'" by (cases "n' div d' = 0") auto
    then have "2 ^ (s' + 23) \<le> n' div d'"
      using bits_bounds [of "n' div d'"] b by (simp add: add.commute)
    then have "2 ^ (s' + 23) * d' \<le> n'"
      by (metis div_times_less_eq_dividend mult_le_mono1 order_trans)
    then have "real (2 ^ (s' + 23) * d') \<le> real n'" by linarith
    then have "real (2 ^ 23 * (d' * 2 ^ s')) / real (d' * 2 ^ s') \<le> real n' / real (d' * 2 ^ s')"
      using d by (intro divide_right_mono) (simp_all add: power_add algebra_simps)
    then have "round_half_even (2 ^ 23 * (d' * 2 ^ s')) (d' * 2 ^ s') \<le> round_half_even n' (d' * 2 ^ s')"
      using d by (intro round_half_even_mono) auto
    then have "2 ^ 23 \<le> round_half_even n' (d' * 2 ^ s')"
      using round_half_even_exact [of "d' * 2 ^ s'" "2 ^ 23"] d by simp
    then have lo: "2 ^ (s' + 23) \<le> round_mag n' d'"
      unfolding m' power_add using mult_le_mono1 by (metis mult.commute)
    have "(2::nat) ^ (s + 24) \<le> 2 ^ (s' + 23)" using lt by (intro power_increasing) auto
    with up lo show ?thesis by linarith
  qed
qed

text \<open>A value with at most 24 significant bits is its own rounding.\<close>

lemma round_mag_exact:
  assumes "0 < d" "m < 2 ^ 24"
  shows "round_mag (m * 2 ^ e * d) d = m * 2 ^ e"
proof -
  define s where "s = bits (m * 2 ^ e) - 24"
  have q: "m * 2 ^ e * d div d = m * 2 ^ e" using assms by simp
  have se: "s \<le> e"
  proof (cases "m = 0")
    case False
    have "(2::nat) ^ (bits (m * 2 ^ e) - 1) \<le> m * 2 ^ e"
      using bits_bounds [of "m * 2 ^ e"] False by simp
    also have "\<dots> < 2 ^ (24 + e)" using assms(2) by (simp add: power_add)
    finally have "bits (m * 2 ^ e) - 1 < 24 + e" by simp
    then show ?thesis by (simp add: s_def)
  qed (simp add: s_def)
  then have "(2::nat) ^ e = 2 ^ (e - s) * 2 ^ s" by (simp add: power_add [symmetric])
  then have split: "m * 2 ^ e * d = m * 2 ^ (e - s) * (d * 2 ^ s)" by simp
  have "round_half_even (m * 2 ^ e * d) (d * 2 ^ s) = m * 2 ^ (e - s)"
    unfolding split using assms(1) by (intro round_half_even_exact) simp
  then have "round_mag (m * 2 ^ e * d) d = m * 2 ^ (e - s) * 2 ^ s"
    unfolding round_mag_def q s_def [symmetric] Let_def by simp
  also have "\<dots> = m * 2 ^ e" using se by (simp add: power_add [symmetric] mult.assoc)
  finally show ?thesis .
qed

section \<open>Order and magnitude of the results\<close>

lemma f32_abs_finish [simp]: "f32_abs (f32_finish neg m) = f32_finish False m"
  by (simp add: f32_finish_def)

lemma f32_finish_mono: "m \<le> m' \<Longrightarrow> f32_le (f32_finish False m) (f32_finish False m')"
  by (auto simp: f32_finish_def)

lemma f32_le_trans: "f32_le x y \<Longrightarrow> f32_le y z \<Longrightarrow> f32_le x z"
  by (cases x; cases y; cases z) auto

lemma f32_le_finite: "f32_le (f32_abs x) (Fin b) \<Longrightarrow> \<exists>a. x = Fin a \<and> \<bar>a\<bar> \<le> b"
  by (cases x) auto

lemma f32_lt_imp_le: "f32_lt x y \<Longrightarrow> f32_le x y"
  by (cases x; cases y) auto

lemma f32_not_le_iff: "x \<noteq> NaN \<Longrightarrow> y \<noteq> NaN \<Longrightarrow> \<not> f32_le x y \<longleftrightarrow> f32_lt y x"
  by (cases x; cases y) auto

text \<open>Multiplying by a fixed factor is monotone in the magnitude of the other operand.\<close>

lemma f32_mul_mono:
  assumes "\<bar>a\<bar> \<le> \<bar>b\<bar>" "\<bar>c\<bar> \<le> \<bar>d\<bar>"
  shows "f32_le (f32_abs (f32_mul (Fin a) (Fin c))) (f32_abs (f32_mul (Fin b) (Fin d)))"
proof -
  have "\<bar>a * c\<bar> \<le> \<bar>b * d\<bar>" using assms by (simp add: abs_mult mult_mono)
  then have "real (nat \<bar>a * c\<bar>) \<le> real (nat \<bar>b * d\<bar>)"
    by (simp only: of_nat_le_iff nat_mono)
  then have "real (nat \<bar>a * c\<bar>) / real (2 ^ 149) \<le> real (nat \<bar>b * d\<bar>) / real (2 ^ 149)"
    by (rule divide_right_mono) simp
  then have "round_mag (nat \<bar>a * c\<bar>) (2 ^ 149) \<le> round_mag (nat \<bar>b * d\<bar>) (2 ^ 149)"
    by (intro round_mag_mono) simp_all
  then show ?thesis by (simp del: of_nat_power power_numeral add: f32_finish_mono)
qed

text \<open>Dividing by a divisor of larger magnitude gives a quotient of magnitude at most one.\<close>

lemma f32_div_le_1:
  assumes "\<bar>a\<bar> \<le> \<bar>b\<bar>" "b \<noteq> 0"
  shows "f32_le (f32_abs (f32_div (Fin a) (Fin b))) f32_1"
proof -
  have pos: "0 < nat \<bar>b\<bar>" using assms by simp
  have "real (nat \<bar>a\<bar>) * 2 ^ 149 \<le> real (nat \<bar>b\<bar>) * 2 ^ 149" using assms by simp
  then have "real (nat \<bar>a\<bar> * 2 ^ 149) / real (nat \<bar>b\<bar>) \<le> real (1 * 2 ^ 149 * 1) / real 1"
    using pos by (simp add: field_simps)
  then have "round_mag (nat \<bar>a\<bar> * 2 ^ 149) (nat \<bar>b\<bar>) \<le> round_mag (1 * 2 ^ 149 * 1) 1"
    using pos by (intro round_mag_mono) simp_all
  also have "\<dots> = 1 * 2 ^ 149" by (rule round_mag_exact) simp_all
  finally have "round_mag (nat \<bar>a\<bar> * 2 ^ 149) (nat \<bar>b\<bar>) \<le> 2 ^ 149" by simp
  then show ?thesis using assms(2) by (simp add: f32_finish_def)
qed

lemma f32_mul_1_le:
  assumes "m < 2 ^ 24" "m * 2 ^ e < 2 ^ 277"
  shows "f32_mul f32_1 (Fin (int (m * 2 ^ e))) = Fin (int (m * 2 ^ e))"
proof -
  have "nat \<bar>2 ^ 149 * int (m * 2 ^ e)\<bar> = m * 2 ^ e * 2 ^ 149"
    by (simp add: nat_mult_distrib nat_power_eq abs_mult)
  moreover have "round_mag (m * 2 ^ e * 2 ^ 149) (2 ^ 149) = m * 2 ^ e"
    using assms(1) by (intro round_mag_exact) simp_all
  moreover have "\<not> 2 ^ 149 * int (m * 2 ^ e) < 0" by (simp add: not_less)
  ultimately show ?thesis using assms(2) by (simp only: f32_mul.simps f32_finish_def) simp
qed

section \<open>Evaluation\<close>

text \<open>The equations that let the simplifier evaluate closed float terms.\<close>

lemmas f32_eval =
  f32_of_int_def round_mag_def round_half_even_def f32_finish_def bits.simps isqrt.simps
  isqrt_digit_def sqrt_round_def sqrt_mag_def f32_min_def f32_max_def f32_sub_def f32_inf_def
  Let_def

end
