(* ===== verification/Dungeon_Data.thy ===== *)
theory Dungeon_Data
  imports Float32
begin

text \<open>
  The static game data: room geometry (\<open>DungeonRoom.h\<close>, \<open>DungeonRoom.cpp\<close>), the enemy, skill and
  dungeon catalogs with their admission checks, and the skill book. The admission loop of
  \<open>AddDungeon\<close> (early returns, duplicate detection through sets) is shown equivalent to the
  declarative predicate \<open>rooms_valid\<close>, from which the run-time components draw the facts they
  need: portals lead to rooms of the dungeon, every spawn names a known enemy, waves start at 1.
\<close>

type_synonym RoomId = u32
type_synonym PortalId = u32
type_synonym ObstacleId = u32
type_synonym EnemySpawnId = u32
type_synonym EnemyTemplateId = u32
type_synonym DungeonTemplateId = u32
type_synonym SkillId = u32

section \<open>Room geometry\<close>

record Position =
  pos_x :: float32
  pos_y :: float32
  pos_z :: float32

record CollisionBox =
  box_minimum :: Position
  box_maximum :: Position

record PortalTemplate =
  portal_id :: PortalId
  portal_triggerArea :: CollisionBox
  portal_targetRoomId :: RoomId
  portal_targetPosition :: Position
  portal_requiresRoomClear :: bool

record ObstacleTemplate =
  obstacle_id :: ObstacleId
  obstacle_collision :: CollisionBox
  obstacle_destructible :: bool
  obstacle_maxHp :: u32

record EnemySpawnTemplate =
  spawn_id :: EnemySpawnId
  spawn_enemyTemplateId :: EnemyTemplateId
  spawn_position :: Position
  spawn_wave :: u32

record RoomTemplate =
  room_id :: RoomId
  room_width :: float32
  room_depth :: float32
  room_playerSpawn :: Position
  room_portals :: "PortalTemplate list"
  room_obstacles :: "ObstacleTemplate list"
  room_enemySpawns :: "EnemySpawnTemplate list"

definition IsInsideRoom :: "RoomTemplate \<Rightarrow> Position \<Rightarrow> bool" where
  "IsInsideRoom room p \<longleftrightarrow>
     f32_ge (pos_x p) f32_0 \<and> f32_le (pos_x p) (room_width room) \<and>
     f32_ge (pos_y p) f32_0 \<and> f32_le (pos_y p) (room_depth room)"

definition IsValidCollisionBox :: "CollisionBox \<Rightarrow> bool" where
  "IsValidCollisionBox b \<longleftrightarrow>
     f32_lt (pos_x (box_minimum b)) (pos_x (box_maximum b)) \<and>
     f32_lt (pos_y (box_minimum b)) (pos_y (box_maximum b)) \<and>
     f32_lt (pos_z (box_minimum b)) (pos_z (box_maximum b))"

definition IsInsideCollisionBox :: "CollisionBox \<Rightarrow> Position \<Rightarrow> bool" where
  "IsInsideCollisionBox b p \<longleftrightarrow>
     f32_ge (pos_x p) (pos_x (box_minimum b)) \<and> f32_le (pos_x p) (pos_x (box_maximum b)) \<and>
     f32_ge (pos_y p) (pos_y (box_minimum b)) \<and> f32_le (pos_y p) (pos_y (box_maximum b)) \<and>
     f32_ge (pos_z p) (pos_z (box_minimum b)) \<and> f32_le (pos_z p) (pos_z (box_maximum b))"

section \<open>Enemy catalog\<close>

datatype EnemyAiType = Melee | Ranged | Boss

record EnemyTemplate =
  enemy_id :: EnemyTemplateId
  enemy_name :: string
  enemy_maxHp :: u32
  enemy_moveSpeed :: float32
  enemy_aiType :: EnemyAiType
  enemy_collision :: CollisionBox

type_synonym EnemyCatalog = "(EnemyTemplateId, EnemyTemplate) umap"

definition AddEnemy :: "EnemyTemplate \<Rightarrow> EnemyCatalog \<Rightarrow> bool \<times> EnemyCatalog" where
  "AddEnemy enemy cat =
     (if enemy_id enemy = 0 \<or> enemy_name enemy = [] \<or> enemy_maxHp enemy = 0 \<or>
         f32_lt (enemy_moveSpeed enemy) f32_0 \<or>
         \<not> IsValidCollisionBox (enemy_collision enemy) \<or>
         f32_lt (pos_z (box_minimum (enemy_collision enemy))) f32_0 \<or>
         um_contains cat (enemy_id enemy)
      then (False, cat)
      else (True, um_emplace (enemy_id enemy) enemy cat))"

definition GetEnemy :: "EnemyCatalog \<Rightarrow> EnemyTemplateId \<Rightarrow> EnemyTemplate option" where
  "GetEnemy cat i = map_of cat i"

section \<open>Skill catalog\<close>

datatype SkillEffectType = Damage | Heal | Buff | Debuff
datatype SkillTargetType = Self | PartyTarget | EnemyTarget
datatype SkillStat = NoStat | Attack | Defense | MoveSpeed

record SkillEffect =
  effect_type :: SkillEffectType
  effect_target :: SkillTargetType
  effect_stat :: SkillStat
  effect_value :: float32
  effect_durationTicks :: u32

record SkillHitBox =
  hit_forwardRange :: float32
  hit_backwardRange :: float32
  hit_halfDepth :: float32
  hit_height :: float32

record SkillTemplate =
  skill_id :: SkillId
  skill_name :: string
  skill_cooldownTicks :: u32
  skill_manaCost :: u32
  skill_startupTicks :: u32
  skill_activeTicks :: u32
  skill_recoveryTicks :: u32
  skill_hitBox :: SkillHitBox
  skill_effects :: "SkillEffect list"

fun IsValidTarget_for :: "SkillEffectType \<Rightarrow> SkillTargetType \<Rightarrow> bool" where
  "IsValidTarget_for Damage t = (t = EnemyTarget)"
| "IsValidTarget_for Debuff t = (t = EnemyTarget)"
| "IsValidTarget_for Heal t = (t = Self \<or> t = PartyTarget)"
| "IsValidTarget_for Buff t = (t = Self \<or> t = PartyTarget)"

definition IsValidTarget :: "SkillEffect \<Rightarrow> bool" where
  "IsValidTarget e = IsValidTarget_for (effect_type e) (effect_target e)"

definition IsValidEffect :: "SkillEffect \<Rightarrow> bool" where
  "IsValidEffect e =
     (if \<not> IsValidTarget e \<or> \<not> isfinite (effect_value e) \<or> f32_le (effect_value e) f32_0 then False
      else if effect_type e = Buff \<or> effect_type e = Debuff
      then effect_stat e \<noteq> NoStat \<and> 0 < effect_durationTicks e
      else effect_stat e = NoStat \<and> effect_durationTicks e = 0)"

definition IsValidHitBox :: "SkillHitBox \<Rightarrow> bool" where
  "IsValidHitBox h \<longleftrightarrow>
     isfinite (hit_forwardRange h) \<and> isfinite (hit_backwardRange h) \<and>
     isfinite (hit_halfDepth h) \<and> isfinite (hit_height h) \<and>
     f32_gt (hit_forwardRange h) f32_0 \<and> f32_ge (hit_backwardRange h) f32_0 \<and>
     f32_gt (hit_halfDepth h) f32_0 \<and> f32_gt (hit_height h) f32_0"

type_synonym SkillCatalog = "(SkillId, SkillTemplate) umap"

definition AddSkill :: "SkillTemplate \<Rightarrow> SkillCatalog \<Rightarrow> bool \<times> SkillCatalog" where
  "AddSkill skill cat =
     (if skill_id skill = 0 \<or> skill_name skill = [] \<or> skill_activeTicks skill = 0 \<or>
         \<not> IsValidHitBox (skill_hitBox skill) \<or> skill_effects skill = [] \<or>
         um_contains cat (skill_id skill)
      then (False, cat)
      else if list_ex (\<lambda>e. \<not> IsValidEffect e) (skill_effects skill) then (False, cat)
      else (True, um_emplace (skill_id skill) skill cat))"

definition GetSkill :: "SkillCatalog \<Rightarrow> SkillId \<Rightarrow> SkillTemplate option" where
  "GetSkill cat i = map_of cat i"

definition SkillCount :: "SkillCatalog \<Rightarrow> nat" where
  "SkillCount cat = length cat"

section \<open>Skill book\<close>

record OwnedSkill =
  owned_skillId :: SkillId
  owned_level :: u32

type_synonym PlayerSkillBook = "(SkillId, u32) umap"

definition LearnSkill :: "SkillCatalog \<Rightarrow> SkillId \<Rightarrow> PlayerSkillBook \<Rightarrow> bool \<times> PlayerSkillBook" where
  "LearnSkill cat i book =
     (if GetSkill cat i = None then (False, book)
      else (\<not> um_contains book i, um_emplace i 1 book))"

definition HasSkill :: "PlayerSkillBook \<Rightarrow> SkillId \<Rightarrow> bool" where
  "HasSkill book i = um_contains book i"

definition SkillLevel :: "PlayerSkillBook \<Rightarrow> SkillId \<Rightarrow> u32" where
  "SkillLevel book i = (case map_of book i of None \<Rightarrow> 0 | Some l \<Rightarrow> l)"

definition SkillBook_Snapshot :: "PlayerSkillBook \<Rightarrow> OwnedSkill list" where
  "SkillBook_Snapshot book =
     sort_key owned_skillId (map (\<lambda>(i, l). \<lparr>owned_skillId = i, owned_level = l\<rparr>) book)"

section \<open>Dungeon catalog\<close>

record DungeonTemplate =
  dt_id :: DungeonTemplateId
  dt_name :: string
  dt_rooms :: "RoomTemplate list"
  dt_recommendedPartySize :: u8
  dt_maxPartySize :: u8

type_synonym DungeonCatalog = "(DungeonTemplateId, DungeonTemplate) umap"

text \<open>
  The loops of \<open>AddDungeon\<close>. The second argument is the set of identifiers inserted so far; a
  duplicate makes \<open>insert(...).second\<close> false. \<open>None\<close> and \<open>False\<close> are \<open>return false\<close>.
\<close>

fun check_rooms :: "RoomTemplate list \<Rightarrow> RoomId list \<Rightarrow> RoomId list option" where
  "check_rooms [] seen = Some seen"
| "check_rooms (room # rooms) seen =
     (if room_id room = 0 \<or> f32_le (room_width room) f32_0 \<or> f32_le (room_depth room) f32_0 \<or>
         f32_lt (pos_z (room_playerSpawn room)) f32_0 \<or>
         \<not> IsInsideRoom room (room_playerSpawn room) \<or>
         List.member seen (room_id room)
      then None
      else check_rooms rooms (room_id room # seen))"

fun check_portals ::
    "RoomTemplate list \<Rightarrow> RoomId list \<Rightarrow> RoomTemplate \<Rightarrow> PortalTemplate list \<Rightarrow> PortalId list \<Rightarrow> bool" where
  "check_portals rooms roomIds room [] seen = True"
| "check_portals rooms roomIds room (portal # portals) seen =
     (if portal_id portal = 0 \<or> List.member seen (portal_id portal) \<or>
         \<not> IsValidCollisionBox (portal_triggerArea portal) \<or>
         f32_lt (pos_z (box_minimum (portal_triggerArea portal))) f32_0 \<or>
         \<not> IsInsideRoom room (box_minimum (portal_triggerArea portal)) \<or>
         \<not> IsInsideRoom room (box_maximum (portal_triggerArea portal)) \<or>
         \<not> List.member roomIds (portal_targetRoomId portal)
      then False
      else case find (\<lambda>t. room_id t = portal_targetRoomId portal) rooms of
             None \<Rightarrow> False
           | Some target \<Rightarrow>
               if f32_lt (pos_z (portal_targetPosition portal)) f32_0 \<or>
                  \<not> IsInsideRoom target (portal_targetPosition portal)
               then False
               else check_portals rooms roomIds room portals (portal_id portal # seen))"

fun check_obstacles :: "RoomTemplate \<Rightarrow> ObstacleTemplate list \<Rightarrow> ObstacleId list \<Rightarrow> bool" where
  "check_obstacles room [] seen = True"
| "check_obstacles room (ob # obs) seen =
     (let invalidHp = (obstacle_destructible ob \<and> obstacle_maxHp ob = 0) \<or>
                      (\<not> obstacle_destructible ob \<and> obstacle_maxHp ob \<noteq> 0) in
      if obstacle_id ob = 0 \<or> List.member seen (obstacle_id ob) \<or>
         \<not> IsValidCollisionBox (obstacle_collision ob) \<or>
         f32_lt (pos_z (box_minimum (obstacle_collision ob))) f32_0 \<or>
         \<not> IsInsideRoom room (box_minimum (obstacle_collision ob)) \<or>
         \<not> IsInsideRoom room (box_maximum (obstacle_collision ob)) \<or> invalidHp
      then False
      else check_obstacles room obs (obstacle_id ob # seen))"

fun check_spawns ::
    "EnemyCatalog \<Rightarrow> RoomTemplate \<Rightarrow> EnemySpawnTemplate list \<Rightarrow> EnemySpawnId list \<Rightarrow> bool" where
  "check_spawns cat room [] seen = True"
| "check_spawns cat room (sp # sps) seen =
     (if spawn_id sp = 0 \<or> List.member seen (spawn_id sp) \<or>
         GetEnemy cat (spawn_enemyTemplateId sp) = None \<or>
         f32_lt (pos_z (spawn_position sp)) f32_0 \<or>
         \<not> IsInsideRoom room (spawn_position sp) \<or> spawn_wave sp = 0
      then False
      else check_spawns cat room sps (spawn_id sp # seen))"

fun check_room_contents ::
    "EnemyCatalog \<Rightarrow> RoomTemplate list \<Rightarrow> RoomId list \<Rightarrow> RoomTemplate list \<Rightarrow> bool" where
  "check_room_contents cat rooms roomIds [] = True"
| "check_room_contents cat rooms roomIds (room # rest) =
     (if \<not> check_portals rooms roomIds room (room_portals room) [] then False
      else if \<not> check_obstacles room (room_obstacles room) [] then False
      else if \<not> check_spawns cat room (room_enemySpawns room) [] then False
      else check_room_contents cat rooms roomIds rest)"

text \<open>\<open>MAX_PARTY_MEMBERS\<close> is 4 (\<open>PartyManager.h\<close>).\<close>

definition AddDungeon ::
    "EnemyCatalog \<Rightarrow> DungeonTemplateId \<Rightarrow> string \<Rightarrow> RoomTemplate list \<Rightarrow> u8 \<Rightarrow> u8 \<Rightarrow> DungeonCatalog \<Rightarrow>
     bool \<times> DungeonCatalog" where
  "AddDungeon cat templateId name rooms recommended maxSize dungeons =
     (if templateId = 0 \<or> name = [] \<or> rooms = [] \<or> recommended = 0 \<or> maxSize = 0 \<or>
         maxSize < recommended \<or> 4 < maxSize \<or> um_contains dungeons templateId
      then (False, dungeons)
      else case check_rooms rooms [] of
             None \<Rightarrow> (False, dungeons)
           | Some roomIds \<Rightarrow>
               if \<not> check_room_contents cat rooms roomIds rooms then (False, dungeons)
               else (True, um_emplace templateId
                  \<lparr>dt_id = templateId, dt_name = name, dt_rooms = rooms,
                    dt_recommendedPartySize = recommended, dt_maxPartySize = maxSize\<rparr> dungeons))"

definition GetDungeon :: "DungeonCatalog \<Rightarrow> DungeonTemplateId \<Rightarrow> DungeonTemplate option" where
  "GetDungeon dungeons templateId = map_of dungeons templateId"

definition GetDungeonList :: "DungeonCatalog \<Rightarrow> DungeonTemplate list" where
  "GetDungeonList dungeons = sort_key dt_id (map snd dungeons)"

section \<open>What the admission checks guarantee\<close>

definition inner_box :: "RoomTemplate \<Rightarrow> CollisionBox \<Rightarrow> bool" where
  "inner_box room b \<longleftrightarrow>
     IsValidCollisionBox b \<and> \<not> f32_lt (pos_z (box_minimum b)) f32_0 \<and>
     IsInsideRoom room (box_minimum b) \<and> IsInsideRoom room (box_maximum b)"

definition inner_point :: "RoomTemplate \<Rightarrow> Position \<Rightarrow> bool" where
  "inner_point room p \<longleftrightarrow> \<not> f32_lt (pos_z p) f32_0 \<and> IsInsideRoom room p"

definition portals_valid :: "RoomTemplate list \<Rightarrow> RoomTemplate \<Rightarrow> bool" where
  "portals_valid rooms room \<longleftrightarrow>
     distinct (map portal_id (room_portals room)) \<and>
     (\<forall>p \<in> set (room_portals room).
        portal_id p \<noteq> 0 \<and> inner_box room (portal_triggerArea p) \<and>
        (\<exists>t \<in> set rooms. room_id t = portal_targetRoomId p \<and> inner_point t (portal_targetPosition p)))"

definition obstacles_valid :: "RoomTemplate \<Rightarrow> bool" where
  "obstacles_valid room \<longleftrightarrow>
     distinct (map obstacle_id (room_obstacles room)) \<and>
     (\<forall>ob \<in> set (room_obstacles room).
        obstacle_id ob \<noteq> 0 \<and> inner_box room (obstacle_collision ob) \<and>
        (obstacle_destructible ob \<longleftrightarrow> obstacle_maxHp ob \<noteq> 0))"

definition spawns_valid :: "EnemyCatalog \<Rightarrow> RoomTemplate \<Rightarrow> bool" where
  "spawns_valid cat room \<longleftrightarrow>
     distinct (map spawn_id (room_enemySpawns room)) \<and>
     (\<forall>sp \<in> set (room_enemySpawns room).
        spawn_id sp \<noteq> 0 \<and> um_contains cat (spawn_enemyTemplateId sp) \<and>
        inner_point room (spawn_position sp) \<and> spawn_wave sp \<noteq> 0)"

definition rooms_valid :: "EnemyCatalog \<Rightarrow> RoomTemplate list \<Rightarrow> bool" where
  "rooms_valid cat rooms \<longleftrightarrow>
     rooms \<noteq> [] \<and> distinct (map room_id rooms) \<and>
     (\<forall>room \<in> set rooms.
        room_id room \<noteq> 0 \<and>
        \<not> f32_le (room_width room) f32_0 \<and> \<not> f32_le (room_depth room) f32_0 \<and>
        inner_point room (room_playerSpawn room) \<and>
        portals_valid rooms room \<and> obstacles_valid room \<and> spawns_valid cat room)"

lemma check_rooms_iff:
  "check_rooms rooms seen = Some ids \<longleftrightarrow>
     ids = rev (map room_id rooms) @ seen \<and> distinct (map room_id rooms) \<and>
     set (map room_id rooms) \<inter> set seen = {} \<and>
     (\<forall>room \<in> set rooms. room_id room \<noteq> 0 \<and>
        \<not> f32_le (room_width room) f32_0 \<and> \<not> f32_le (room_depth room) f32_0 \<and>
        inner_point room (room_playerSpawn room))"
  by (induction rooms arbitrary: seen) (auto simp: inner_point_def)

lemma check_portals_iff:
  assumes "distinct (map room_id rooms)" "set roomIds = set (map room_id rooms)"
  shows "check_portals rooms roomIds room portals seen \<longleftrightarrow>
     distinct (map portal_id portals) \<and> set (map portal_id portals) \<inter> set seen = {} \<and>
     (\<forall>p \<in> set portals.
        portal_id p \<noteq> 0 \<and> inner_box room (portal_triggerArea p) \<and>
        (\<exists>t \<in> set rooms. room_id t = portal_targetRoomId p \<and> inner_point t (portal_targetPosition p)))"
proof (induction portals arbitrary: seen)
  case Nil
  then show ?case by simp
next
  case (Cons p portals)
  have "(case find (\<lambda>t. room_id t = portal_targetRoomId p) rooms of None \<Rightarrow> False
      | Some t \<Rightarrow> inner_point t (portal_targetPosition p)) \<longleftrightarrow>
      (\<exists>t \<in> set rooms. room_id t = portal_targetRoomId p \<and> inner_point t (portal_targetPosition p))"
    using assms(1)
    by (auto simp: distinct_map find_None_iff split: option.splits dest!: find_Some_in)
      (metis inj_onD)
  then have target: "(\<exists>t \<in> set rooms. room_id t = portal_targetRoomId p \<and>
      inner_point t (portal_targetPosition p)) \<longleftrightarrow>
      portal_targetRoomId p \<in> set roomIds \<and>
      (case find (\<lambda>t. room_id t = portal_targetRoomId p) rooms of None \<Rightarrow> False
       | Some t \<Rightarrow> inner_point t (portal_targetPosition p))"
    using assms(2) by (metis (no_types, lifting) image_eqI list.set_map)
  have "check_portals rooms roomIds room (p # portals) seen \<longleftrightarrow>
      portal_id p \<noteq> 0 \<and> portal_id p \<notin> set seen \<and> inner_box room (portal_triggerArea p) \<and>
      (\<exists>t \<in> set rooms. room_id t = portal_targetRoomId p \<and>
         inner_point t (portal_targetPosition p)) \<and>
      check_portals rooms roomIds room portals (portal_id p # seen)"
    unfolding target by (auto simp: inner_box_def inner_point_def split: option.splits)
  then show ?case by (auto simp: Cons.IH simp del: check_portals.simps)
qed

lemma check_obstacles_iff:
  "check_obstacles room obs seen \<longleftrightarrow>
     distinct (map obstacle_id obs) \<and> set (map obstacle_id obs) \<inter> set seen = {} \<and>
     (\<forall>ob \<in> set obs. obstacle_id ob \<noteq> 0 \<and> inner_box room (obstacle_collision ob) \<and>
        (obstacle_destructible ob \<longleftrightarrow> obstacle_maxHp ob \<noteq> 0))"
  by (induction obs arbitrary: seen) (auto simp: inner_box_def Let_def)

lemma check_spawns_iff:
  "check_spawns cat room sps seen \<longleftrightarrow>
     distinct (map spawn_id sps) \<and> set (map spawn_id sps) \<inter> set seen = {} \<and>
     (\<forall>sp \<in> set sps. spawn_id sp \<noteq> 0 \<and> um_contains cat (spawn_enemyTemplateId sp) \<and>
        inner_point room (spawn_position sp) \<and> spawn_wave sp \<noteq> 0)"
  by (induction sps arbitrary: seen) (auto simp: inner_point_def GetEnemy_def um_contains_def)

lemma check_room_contents_iff:
  assumes "distinct (map room_id rooms)" "set roomIds = set (map room_id rooms)"
  shows "check_room_contents cat rooms roomIds rest \<longleftrightarrow>
     (\<forall>room \<in> set rest. portals_valid rooms room \<and> obstacles_valid room \<and> spawns_valid cat room)"
  by (induction rest)
    (auto simp: check_portals_iff [OF assms] check_obstacles_iff check_spawns_iff
      portals_valid_def obstacles_valid_def spawns_valid_def)

lemma AddDungeon_accepts_iff:
  "fst (AddDungeon cat i name rooms rec mx dungeons) \<longleftrightarrow>
     i \<noteq> 0 \<and> name \<noteq> [] \<and> 0 < rec \<and> rec \<le> mx \<and> mx \<le> 4 \<and> \<not> um_contains dungeons i \<and>
     rooms_valid cat rooms"
proof (cases "check_rooms rooms []")
  case None
  then have "\<not> rooms_valid cat rooms"
    using check_rooms_iff [of rooms "[]" "rev (map room_id rooms)"] by (auto simp: rooms_valid_def)
  with None show ?thesis by (simp add: AddDungeon_def)
next
  case (Some ids)
  then have ids: "ids = rev (map room_id rooms)" "distinct (map room_id rooms)"
    "\<forall>room \<in> set rooms. room_id room \<noteq> 0 \<and>
        \<not> f32_le (room_width room) f32_0 \<and> \<not> f32_le (room_depth room) f32_0 \<and>
        inner_point room (room_playerSpawn room)"
    by (auto simp: check_rooms_iff)
  have "check_room_contents cat rooms ids rooms \<longleftrightarrow>
     (\<forall>room \<in> set rooms. portals_valid rooms room \<and> obstacles_valid room \<and> spawns_valid cat room)"
    using ids by (intro check_room_contents_iff) auto
  with Some ids show ?thesis
    by (auto simp: AddDungeon_def rooms_valid_def not_less word_gt_0 dest: order.trans)
qed

text \<open>A catalog filled through \<open>AddDungeon\<close> holds valid dungeons only.\<close>

definition catalog_inv :: "EnemyCatalog \<Rightarrow> DungeonCatalog \<Rightarrow> bool" where
  "catalog_inv cat dungeons \<longleftrightarrow>
     um_ok dungeons \<and>
     (\<forall>i d. map_of dungeons i = Some d \<longrightarrow> dt_id d = i \<and> i \<noteq> 0 \<and> rooms_valid cat (dt_rooms d))"

lemma AddDungeon_result:
  "snd (AddDungeon cat i name rooms rec mx dungeons) =
     (if fst (AddDungeon cat i name rooms rec mx dungeons)
      then um_emplace i \<lparr>dt_id = i, dt_name = name, dt_rooms = rooms,
             dt_recommendedPartySize = rec, dt_maxPartySize = mx\<rparr> dungeons
      else dungeons)"
  by (auto simp: AddDungeon_def split: option.splits)

lemma catalog_inv_AddDungeon:
  "catalog_inv cat dungeons \<Longrightarrow> catalog_inv cat (snd (AddDungeon cat i name rooms rec mx dungeons))"
  unfolding AddDungeon_result
  using AddDungeon_accepts_iff [of cat i name rooms rec mx dungeons]
  by (auto simp: catalog_inv_def umap_simps)

lemma spawns_valid_mono:
  "spawns_valid cat room \<Longrightarrow> (\<And>i. um_contains cat i \<Longrightarrow> um_contains cat' i) \<Longrightarrow> spawns_valid cat' room"
  by (auto simp: spawns_valid_def)

lemma catalog_inv_AddEnemy:
  "catalog_inv cat dungeons \<Longrightarrow> catalog_inv (snd (AddEnemy e cat)) dungeons"
  by (force simp: catalog_inv_def rooms_valid_def AddEnemy_def umap_simps
      intro: spawns_valid_mono split: if_splits)

end
