(* ===== verification/Room_State.thy ===== *)
theory Room_State
  imports Dungeon_Data
begin

text \<open>
  The state of one room (\<open>src/include/RoomState.h\<close>, \<open>src/src/RoomState.cpp\<close>): enemies arrive in
  waves, obstacles can be destroyed, positions are checked against both. The enemy catalog is a
  reference held by the class and is an argument here. \<open>StartNextWave\<close> throws when a spawn names
  an unknown enemy; the lemmas show that this cannot happen for admitted dungeons.

  The invariant \<open>room_inv\<close> says that exactly the spawns of the waves started so far have an enemy
  and that an enemy is alive exactly while it has hit points. From it: a room without living
  enemies is either cleared or its next wave starts (\<open>StartNextWave_progress\<close>), waves strictly
  increase, and a room counts as cleared only when the enemy of every spawn is dead.
\<close>

unbundle bit_operations_syntax

type_synonym DungeonEntityId = u64

record EnemyState =
  en_entityId :: DungeonEntityId
  en_spawnId :: EnemySpawnId
  en_enemyTemplateId :: EnemyTemplateId
  en_position :: Position
  en_currentHp :: u32
  en_alive :: bool

record ObstacleState =
  os_obstacleId :: ObstacleId
  os_currentHp :: u32
  os_destructible :: bool
  os_destroyed :: bool

datatype PositionCheckResult = PositionValid | PositionOutsideRoom | PositionBlockedByObstacle

datatype room_error = EnemyTemplateNotFound

record RoomState =
  rs_template :: RoomTemplate
  rs_currentWave :: u32
  rs_lastWave :: u32
  rs_enemies :: "EnemyState list"
  rs_obstacles :: "ObstacleState list"

definition MakeEnemyEntityId :: "RoomId \<Rightarrow> EnemySpawnId \<Rightarrow> DungeonEntityId" where
  "MakeEnemyEntityId roomId spawnId = push_bit 32 (ucast roomId) OR ucast spawnId"

definition make_RoomState :: "RoomTemplate \<Rightarrow> RoomState" where
  "make_RoomState t =
     \<lparr>rs_template = t, rs_currentWave = 0,
      rs_lastWave = fold (\<lambda>sp w. max w (spawn_wave sp)) (room_enemySpawns t) 0,
      rs_enemies = [],
      rs_obstacles = map (\<lambda>ob. \<lparr>os_obstacleId = obstacle_id ob, os_currentHp = obstacle_maxHp ob,
                            os_destructible = obstacle_destructible ob, os_destroyed = False\<rparr>)
                         (room_obstacles t)\<rparr>"

definition room_Id :: "RoomState \<Rightarrow> RoomId" where
  "room_Id r = room_id (rs_template r)"

definition HasLivingEnemy :: "RoomState \<Rightarrow> bool" where
  "HasLivingEnemy r = list_ex en_alive (rs_enemies r)"

text \<open>The first loop of \<open>StartNextWave\<close>: the least wave above the current one, 0 for none.\<close>

fun next_wave :: "u32 \<Rightarrow> EnemySpawnTemplate list \<Rightarrow> u32 \<Rightarrow> u32" where
  "next_wave cur [] w = w"
| "next_wave cur (sp # sps) w =
     next_wave cur sps
       (if cur < spawn_wave sp \<and> (w = 0 \<or> spawn_wave sp < w) then spawn_wave sp else w)"

text \<open>The second loop: the enemies of that wave.\<close>

fun spawn_enemies ::
    "EnemyCatalog \<Rightarrow> RoomId \<Rightarrow> u32 \<Rightarrow> EnemySpawnTemplate list \<Rightarrow> room_error + EnemyState list" where
  "spawn_enemies cat rid w [] = Inr []"
| "spawn_enemies cat rid w (sp # sps) =
     (if spawn_wave sp \<noteq> w then spawn_enemies cat rid w sps
      else case GetEnemy cat (spawn_enemyTemplateId sp) of
             None \<Rightarrow> Inl EnemyTemplateNotFound
           | Some t \<Rightarrow>
               (case spawn_enemies cat rid w sps of
                  Inl e \<Rightarrow> Inl e
                | Inr es \<Rightarrow> Inr (\<lparr>en_entityId = MakeEnemyEntityId rid (spawn_id sp),
                                  en_spawnId = spawn_id sp,
                                  en_enemyTemplateId = spawn_enemyTemplateId sp,
                                  en_position = spawn_position sp,
                                  en_currentHp = enemy_maxHp t, en_alive = True\<rparr> # es)))"

definition StartNextWave :: "EnemyCatalog \<Rightarrow> RoomState \<Rightarrow> room_error + bool \<times> RoomState" where
  "StartNextWave cat r =
     (if HasLivingEnemy r then Inr (False, r)
      else let nextWave = next_wave (rs_currentWave r) (room_enemySpawns (rs_template r)) 0 in
        if nextWave = 0 then Inr (False, r)
        else case spawn_enemies cat (room_id (rs_template r)) nextWave
                    (room_enemySpawns (rs_template r)) of
               Inl e \<Rightarrow> Inl e
             | Inr es \<Rightarrow> Inr (True, r\<lparr>rs_enemies := rs_enemies r @ es, rs_currentWave := nextWave\<rparr>))"

definition hit_enemy :: "u32 \<Rightarrow> EnemyState \<Rightarrow> EnemyState" where
  "hit_enemy damage e =
     (if en_currentHp e \<le> damage then e\<lparr>en_currentHp := 0, en_alive := False\<rparr>
      else e\<lparr>en_currentHp := en_currentHp e - damage\<rparr>)"

definition ApplyEnemyDamage :: "DungeonEntityId \<Rightarrow> u32 \<Rightarrow> RoomState \<Rightarrow> bool \<times> RoomState" where
  "ApplyEnemyDamage entityId damage r =
     (case find (\<lambda>e. en_entityId e = entityId) (rs_enemies r) of
        None \<Rightarrow> (False, r)
      | Some e \<Rightarrow>
          if \<not> en_alive e \<or> damage = 0 then (False, r)
          else (True, r\<lparr>rs_enemies :=
                  upd_first (\<lambda>e. en_entityId e = entityId) (hit_enemy damage) (rs_enemies r)\<rparr>))"

definition hit_obstacle :: "u32 \<Rightarrow> ObstacleState \<Rightarrow> ObstacleState" where
  "hit_obstacle damage ob =
     (if os_currentHp ob \<le> damage then ob\<lparr>os_currentHp := 0, os_destroyed := True\<rparr>
      else ob\<lparr>os_currentHp := os_currentHp ob - damage\<rparr>)"

definition ApplyObstacleDamage :: "ObstacleId \<Rightarrow> u32 \<Rightarrow> RoomState \<Rightarrow> bool \<times> RoomState" where
  "ApplyObstacleDamage obstacleId damage r =
     (case find (\<lambda>ob. os_obstacleId ob = obstacleId) (rs_obstacles r) of
        None \<Rightarrow> (False, r)
      | Some ob \<Rightarrow>
          if \<not> os_destructible ob \<or> os_destroyed ob \<or> damage = 0 then (False, r)
          else (True, r\<lparr>rs_obstacles :=
                  upd_first (\<lambda>ob. os_obstacleId ob = obstacleId) (hit_obstacle damage) (rs_obstacles r)\<rparr>))"

definition IsCleared :: "RoomState \<Rightarrow> bool" where
  "IsCleared r \<longleftrightarrow> rs_currentWave r = rs_lastWave r \<and> \<not> HasLivingEnemy r"

text \<open>\<open>obstacles_[index]\<close> and \<open>roomTemplate_.obstacles[index]\<close> run in parallel.\<close>

definition CheckPosition :: "RoomState \<Rightarrow> Position \<Rightarrow> PositionCheckResult" where
  "CheckPosition r p =
     (if f32_lt (pos_z p) f32_0 \<or> \<not> IsInsideRoom (rs_template r) p then PositionOutsideRoom
      else if list_ex (\<lambda>(ob, t). \<not> os_destroyed ob \<and> IsInsideCollisionBox (obstacle_collision t) p)
                (zip (rs_obstacles r) (room_obstacles (rs_template r)))
      then PositionBlockedByObstacle
      else PositionValid)"

section \<open>Waves\<close>

lemma next_wave_spec:
  assumes "w = 0 \<or> cur < w"
  shows "next_wave cur sps w = (let ws = {spawn_wave sp |sp. sp \<in> set sps \<and> cur < spawn_wave sp} \<union> (if w = 0 then {} else {w})
    in if ws = {} then 0 else Min ws)"
  using assms
proof (induction sps arbitrary: w)
  case Nil
  then show ?case by (auto simp: Let_def)
next
  case (Cons sp sps)
  define v where "v = (if cur < spawn_wave sp \<and> (w = 0 \<or> spawn_wave sp < w) then spawn_wave sp else w)"
  define A where "A = {spawn_wave sp |sp. sp \<in> set sps \<and> cur < spawn_wave sp}"
  define old where "old = (if w = 0 then {} else {w})"
  define one where "one = (if cur < spawn_wave sp then {spawn_wave sp} else {})"
  have fin: "finite A" "finite old" "finite one" by (auto simp: A_def old_def one_def)
  have v0: "v = 0 \<longleftrightarrow> old \<union> one = {}" and vMin: "v \<noteq> 0 \<Longrightarrow> v = Min (old \<union> one)"
    using Cons.prems by (auto simp: v_def old_def one_def min_def)
  have "v = 0 \<or> cur < v" using Cons.prems by (auto simp: v_def)
  from Cons.IH [OF this] have "next_wave cur (sp # sps) w =
      (let ws = A \<union> (if v = 0 then {} else {v}) in if ws = {} then 0 else Min ws)"
    by (simp add: v_def A_def)
  also have "\<dots> = (let ws = A \<union> (old \<union> one) in if ws = {} then 0 else Min ws)"
  proof (cases "v = 0")
    case True
    with v0 show ?thesis by simp
  next
    case False
    with v0 have ne: "old \<union> one \<noteq> {}" by blast
    have "Min (A \<union> {v}) = Min (A \<union> (old \<union> one))"
      using fin vMin [OF False] ne by (cases "A = {}") (simp_all add: Min_Un min.commute)
    with False ne show ?thesis by (auto simp: Let_def)
  qed
  also have "A \<union> (old \<union> one) = {spawn_wave q |q. q \<in> set (sp # sps) \<and> cur < spawn_wave q} \<union> old"
    by (auto simp: A_def one_def)
  finally show ?case by (simp add: old_def)
qed

lemma next_wave_0_iff: "next_wave cur sps 0 = 0 \<longleftrightarrow> (\<forall>sp \<in> set sps. spawn_wave sp \<le> cur)"
proof -
  have "Min ws = 0 \<Longrightarrow> False" if "ws = {spawn_wave sp |sp. sp \<in> set sps \<and> cur < spawn_wave sp}" "ws \<noteq> {}" for ws
    using Min_in [of ws] that by (auto simp: word_gt_0)
  then show ?thesis by (auto simp: next_wave_spec Let_def not_le)
qed

lemma next_wave_least:
  assumes "next_wave cur sps 0 = w" "w \<noteq> 0"
  shows "cur < w" "\<exists>sp \<in> set sps. spawn_wave sp = w"
    "sp \<in> set sps \<Longrightarrow> cur < spawn_wave sp \<Longrightarrow> w \<le> spawn_wave sp"
proof -
  define ws where "ws = {spawn_wave sp |sp. sp \<in> set sps \<and> cur < spawn_wave sp}"
  have "finite ws" "ws \<noteq> {}" "w = Min ws"
    using assms next_wave_spec [of 0 cur sps] by (auto simp: ws_def Let_def split: if_splits)
  then have "w \<in> ws" "\<And>v. v \<in> ws \<Longrightarrow> w \<le> v" by (auto intro: Min_in)
  then show "cur < w" "\<exists>sp \<in> set sps. spawn_wave sp = w"
    "sp \<in> set sps \<Longrightarrow> cur < spawn_wave sp \<Longrightarrow> w \<le> spawn_wave sp"
    by (auto simp: ws_def)
qed

lemma fold_max_ge:
  fixes f :: "'a \<Rightarrow> 'b::linorder"
  shows "w \<le> fold (\<lambda>x w. max w (f x)) xs w \<and> (\<forall>x \<in> set xs. f x \<le> fold (\<lambda>x w. max w (f x)) xs w) \<and>
   (fold (\<lambda>x w. max w (f x)) xs w = w \<or> fold (\<lambda>x w. max w (f x)) xs w \<in> f ` set xs)"
proof (induction xs arbitrary: w)
  case (Cons x xs)
  from Cons [of "max w (f x)"] show ?case by (auto simp: max_def split: if_splits)
qed simp

lemma MakeEnemyEntityId_inj:
  assumes "MakeEnemyEntityId r s = MakeEnemyEntityId r' s'"
  shows "r = r' \<and> s = s'"
proof -
  have lo: "ucast (MakeEnemyEntityId r s) = s" for r s
    by (rule bit_word_eqI) (auto simp: MakeEnemyEntityId_def bit_simps)
  have hi: "ucast (drop_bit 32 (MakeEnemyEntityId r s)) = r" for r s
    by (rule bit_word_eqI) (auto simp: MakeEnemyEntityId_def bit_simps dest: bit_imp_le_length)
  from assms show ?thesis by (metis lo hi)
qed

section \<open>The room invariant\<close>

definition enemies_ok :: "EnemyCatalog \<Rightarrow> bool" where
  "enemies_ok cat \<longleftrightarrow> (\<forall>i e. map_of cat i = Some e \<longrightarrow> enemy_maxHp e \<noteq> 0)"

lemma enemies_ok_AddEnemy: "enemies_ok cat \<Longrightarrow> enemies_ok (snd (AddEnemy e cat))"
  by (auto simp: enemies_ok_def AddEnemy_def umap_simps)

definition enemy_ok :: "RoomId \<Rightarrow> EnemyState \<Rightarrow> bool" where
  "enemy_ok rid e \<longleftrightarrow>
     (en_alive e \<longleftrightarrow> en_currentHp e \<noteq> 0) \<and> en_entityId e = MakeEnemyEntityId rid (en_spawnId e)"

definition room_inv :: "EnemyCatalog \<Rightarrow> RoomState \<Rightarrow> bool" where
  "room_inv cat r \<longleftrightarrow>
     spawns_valid cat (rs_template r) \<and>
     rs_lastWave r = fold (\<lambda>sp w. max w (spawn_wave sp)) (room_enemySpawns (rs_template r)) 0 \<and>
     rs_currentWave r \<le> rs_lastWave r \<and>
     (\<forall>e \<in> set (rs_enemies r). enemy_ok (room_id (rs_template r)) e) \<and>
     distinct (map en_spawnId (rs_enemies r)) \<and>
     set (map en_spawnId (rs_enemies r)) =
       spawn_id ` {sp \<in> set (room_enemySpawns (rs_template r)). spawn_wave sp \<le> rs_currentWave r} \<and>
     map os_obstacleId (rs_obstacles r) = map obstacle_id (room_obstacles (rs_template r))"

lemma room_invD:
  assumes "room_inv cat r"
  shows "spawns_valid cat (rs_template r)"
    and "rs_lastWave r = fold (\<lambda>sp w. max w (spawn_wave sp)) (room_enemySpawns (rs_template r)) 0"
    and "rs_currentWave r \<le> rs_lastWave r"
    and "\<And>e. e \<in> set (rs_enemies r) \<Longrightarrow> enemy_ok (room_id (rs_template r)) e"
    and "distinct (map en_spawnId (rs_enemies r))"
    and "set (map en_spawnId (rs_enemies r)) =
      spawn_id ` {sp \<in> set (room_enemySpawns (rs_template r)). spawn_wave sp \<le> rs_currentWave r}"
    and "map os_obstacleId (rs_obstacles r) = map obstacle_id (room_obstacles (rs_template r))"
  using assms unfolding room_inv_def by blast+

lemma room_invI:
  assumes "spawns_valid cat (rs_template r)"
    and "rs_lastWave r = fold (\<lambda>sp w. max w (spawn_wave sp)) (room_enemySpawns (rs_template r)) 0"
    and "rs_currentWave r \<le> rs_lastWave r"
    and "\<And>e. e \<in> set (rs_enemies r) \<Longrightarrow> enemy_ok (room_id (rs_template r)) e"
    and "distinct (map en_spawnId (rs_enemies r))"
    and "set (map en_spawnId (rs_enemies r)) =
      spawn_id ` {sp \<in> set (room_enemySpawns (rs_template r)). spawn_wave sp \<le> rs_currentWave r}"
    and "map os_obstacleId (rs_obstacles r) = map obstacle_id (room_obstacles (rs_template r))"
  shows "room_inv cat r"
  unfolding room_inv_def using assms by blast

lemma spawn_enemies_known:
  assumes "enemies_ok cat" "\<forall>sp \<in> set sps. um_contains cat (spawn_enemyTemplateId sp)"
  shows "\<exists>es. spawn_enemies cat rid w sps = Inr es \<and>
     map en_spawnId es = map spawn_id (filter (\<lambda>sp. spawn_wave sp = w) sps) \<and>
     (\<forall>e \<in> set es. enemy_ok rid e \<and> en_alive e)"
  using assms(2)
proof (induction sps)
  case (Cons sp sps)
  then obtain t where t: "map_of cat (spawn_enemyTemplateId sp) = Some t"
    by (auto simp: um_contains_def)
  with assms(1) have "enemy_maxHp t \<noteq> 0" by (auto simp: enemies_ok_def)
  with Cons t show ?case by (auto simp: GetEnemy_def enemy_ok_def)
qed simp

lemma lastWave_ge:
  "room_inv cat r \<Longrightarrow> sp \<in> set (room_enemySpawns (rs_template r)) \<Longrightarrow> spawn_wave sp \<le> rs_lastWave r"
  using fold_max_ge [of 0 spawn_wave "room_enemySpawns (rs_template r)"]
  by (auto simp: room_inv_def)

lemma lastWave_reached:
  assumes "room_inv cat r" "\<forall>sp \<in> set (room_enemySpawns (rs_template r)). spawn_wave sp \<le> rs_currentWave r"
  shows "rs_currentWave r = rs_lastWave r"
  using assms fold_max_ge [of 0 spawn_wave "room_enemySpawns (rs_template r)"]
  by (auto simp: room_inv_def)

lemma room_inv_make:
  "spawns_valid cat t \<Longrightarrow> room_inv cat (make_RoomState t)"
  by (auto simp: room_inv_def make_RoomState_def comp_def spawns_valid_def)

lemma room_inv_spawn:
  assumes inv: "room_inv cat r" and sps: "sps = room_enemySpawns (rs_template r)"
    and w: "next_wave (rs_currentWave r) sps 0 = w" "w \<noteq> 0"
    and es: "map en_spawnId es = map spawn_id (filter (\<lambda>sp. spawn_wave sp = w) sps)"
    and ok: "\<forall>e \<in> set es. enemy_ok (room_id (rs_template r)) e"
  shows "room_inv cat (r\<lparr>rs_enemies := rs_enemies r @ es, rs_currentWave := w\<rparr>)"
proof -
  note least = next_wave_least [OF w]
  have dist: "distinct (map spawn_id sps)"
    using room_invD(1) [OF inv] by (simp only: spawns_valid_def sps)
  then have inj: "inj_on spawn_id (set sps)" by (simp add: distinct_map)
  have new: "set (map en_spawnId es) = spawn_id ` {sp \<in> set sps. spawn_wave sp = w}"
    "distinct (map en_spawnId es)"
    unfolding es using dist by (auto simp: distinct_map_filter)
  have old: "set (map en_spawnId (rs_enemies r)) =
      spawn_id ` {sp \<in> set sps. spawn_wave sp \<le> rs_currentWave r}"
    "distinct (map en_spawnId (rs_enemies r))"
    unfolding sps by (rule room_invD [OF inv])+
  have "{sp \<in> set sps. spawn_wave sp \<le> rs_currentWave r} \<inter> {sp \<in> set sps. spawn_wave sp = w} = {}"
    using least(1) by auto
  then have "spawn_id ` {sp \<in> set sps. spawn_wave sp \<le> rs_currentWave r} \<inter>
      spawn_id ` {sp \<in> set sps. spawn_wave sp = w} = {}"
    by (subst inj_on_image_Int [OF inj, symmetric]) auto
  then have "distinct (map en_spawnId (rs_enemies r @ es))"
    unfolding map_append distinct_append old(1) new(1) using old(2) new(2) by blast
  moreover have upto: "spawn_wave sp \<le> w \<longleftrightarrow> spawn_wave sp \<le> rs_currentWave r \<or> spawn_wave sp = w"
    if "sp \<in> set sps" for sp
    using least(1) least(3) [OF that] by (cases "rs_currentWave r < spawn_wave sp") auto
  then have "{sp \<in> set sps. spawn_wave sp \<le> w} =
      {sp \<in> set sps. spawn_wave sp \<le> rs_currentWave r} \<union> {sp \<in> set sps. spawn_wave sp = w}"
    by auto
  then have "set (map en_spawnId (rs_enemies r @ es)) = spawn_id ` {sp \<in> set sps. spawn_wave sp \<le> w}"
    unfolding map_append set_append old(1) new(1) by (simp only: image_Un)
  moreover have "w \<le> rs_lastWave r" using least(2) lastWave_ge [OF inv] by (auto simp: sps)
  moreover have "e \<in> set (rs_enemies r @ es) \<Longrightarrow> enemy_ok (room_id (rs_template r)) e" for e
    using room_invD(4) [OF inv] ok by auto
  ultimately show ?thesis
    using room_invD(1,2,7) [OF inv] unfolding sps by (intro room_invI) simp_all
qed

text \<open>Starting a wave: it never throws, and it starts exactly when something is left to spawn.\<close>

lemma StartNextWave_cases:
  assumes inv: "room_inv cat r" and cat: "enemies_ok cat"
  shows "\<exists>b r'. StartNextWave cat r = Inr (b, r') \<and> room_inv cat r' \<and>
     rs_template r' = rs_template r \<and> rs_obstacles r' = rs_obstacles r \<and>
     (b \<longleftrightarrow> \<not> HasLivingEnemy r \<and> rs_currentWave r \<noteq> rs_lastWave r) \<and>
     (if b then rs_currentWave r < rs_currentWave r' \<and> HasLivingEnemy r' else r' = r)"
proof -
  define sps where "sps = room_enemySpawns (rs_template r)"
  define w where "w = next_wave (rs_currentWave r) sps 0"
  have done_iff: "w = 0 \<longleftrightarrow> rs_currentWave r = rs_lastWave r"
    using lastWave_ge [OF inv] lastWave_reached [OF inv]
    by (auto simp: w_def sps_def next_wave_0_iff)
  show ?thesis
  proof (cases "HasLivingEnemy r \<or> w = 0")
    case True
    with inv done_iff show ?thesis by (auto simp: StartNextWave_def w_def sps_def)
  next
    case False
    then have w0: "w \<noteq> 0" by simp
    note least = next_wave_least [OF w_def [symmetric] w0]
    have "\<forall>sp \<in> set sps. um_contains cat (spawn_enemyTemplateId sp)"
      using inv by (simp add: room_inv_def spawns_valid_def sps_def)
    from spawn_enemies_known [OF cat this] obtain es where
      es: "spawn_enemies cat (room_id (rs_template r)) w sps = Inr es"
      "map en_spawnId es = map spawn_id (filter (\<lambda>sp. spawn_wave sp = w) sps)"
      "\<forall>e \<in> set es. enemy_ok (room_id (rs_template r)) e \<and> en_alive e"
      by blast
    define r' where "r' = r\<lparr>rs_enemies := rs_enemies r @ es, rs_currentWave := w\<rparr>"
    have start: "StartNextWave cat r = Inr (True, r')"
      using False es(1) by (simp add: StartNextWave_def w_def sps_def r'_def)
    have inv': "room_inv cat r'"
      unfolding r'_def using es(3)
      by (intro room_inv_spawn [OF inv sps_def w_def [symmetric] w0 es(2)]) blast
    have "map en_spawnId es \<noteq> []"
      using least(2) unfolding es(2) by (auto simp: filter_empty_conv)
    with es(3) have "HasLivingEnemy r'"
      by (cases es) (auto simp: HasLivingEnemy_def r'_def)
    with start inv' least(1) False done_iff show ?thesis
      by (intro exI [of _ True] exI [of _ r']) (simp add: r'_def)
  qed
qed

section \<open>Damage\<close>

lemma hit_enemy_ok: "enemy_ok rid e \<Longrightarrow> enemy_ok rid (hit_enemy d e)"
  by (auto simp: enemy_ok_def hit_enemy_def)

lemma hit_enemy_spawn [simp]: "en_spawnId (hit_enemy d e) = en_spawnId e"
  by (simp add: hit_enemy_def)

text \<open>No wrap-around: the remaining hit points are the difference, cut off at zero.\<close>

lemma unat_hit_enemy: "unat (en_currentHp (hit_enemy d e)) = unat (en_currentHp e) - unat d"
  by (auto simp: hit_enemy_def word_le_nat_alt unat_sub not_le)

lemma room_inv_ApplyEnemyDamage:
  assumes "room_inv cat r"
  shows "room_inv cat (snd (ApplyEnemyDamage i d r))"
proof -
  define es where "es = upd_first (\<lambda>e. en_entityId e = i) (hit_enemy d) (rs_enemies r)"
  have same: "map en_spawnId es = map en_spawnId (rs_enemies r)"
    unfolding es_def by (rule map_upd_first) simp
  have ok: "e \<in> set es \<Longrightarrow> enemy_ok (room_id (rs_template r)) e" for e
    using room_invD(4) [OF assms]
    by (auto simp: es_def intro: hit_enemy_ok dest!: subsetD [OF set_upd_first])
  have "room_inv cat (r\<lparr>rs_enemies := es\<rparr>)"
    using room_invD [OF assms] ok same by (intro room_invI) (simp_all del: set_map)
  with assms show ?thesis
    by (auto simp: ApplyEnemyDamage_def es_def split: option.splits)
qed

lemma room_inv_ApplyObstacleDamage:
  assumes "room_inv cat r"
  shows "room_inv cat (snd (ApplyObstacleDamage i d r))"
proof -
  have "map os_obstacleId (upd_first (\<lambda>ob. os_obstacleId ob = i) (hit_obstacle d) (rs_obstacles r))
      = map os_obstacleId (rs_obstacles r)"
    by (rule map_upd_first) (simp add: hit_obstacle_def)
  then have "room_inv cat (r\<lparr>rs_obstacles :=
      upd_first (\<lambda>ob. os_obstacleId ob = i) (hit_obstacle d) (rs_obstacles r)\<rparr>)"
    using room_invD [OF assms] by (intro room_invI) (simp_all del: set_map)
  with assms show ?thesis by (auto simp: ApplyObstacleDamage_def split: option.splits)
qed

text \<open>Destroying an obstacle never blocks a position.\<close>

lemma CheckPosition_ApplyObstacleDamage:
  assumes "CheckPosition r p = PositionValid"
  shows "CheckPosition (snd (ApplyObstacleDamage i d r)) p = PositionValid"
proof -
  let ?P = "\<lambda>(ob, t). \<not> os_destroyed ob \<and> IsInsideCollisionBox (obstacle_collision t) p"
  have mono: "list_ex ?P (zip (upd_first (\<lambda>ob. os_obstacleId ob = i) (hit_obstacle d) obs) ts) \<Longrightarrow>
      list_ex ?P (zip obs ts)" for obs and ts :: "ObstacleTemplate list"
  proof (induction obs arbitrary: ts)
    case (Cons ob obs)
    then show ?case by (cases ts) (auto simp: hit_obstacle_def split: if_splits)
  qed simp
  show ?thesis
    using assms mono [of "rs_obstacles r" "room_obstacles (rs_template r)"]
    by (auto simp: CheckPosition_def ApplyObstacleDamage_def split: option.splits if_splits)
qed

text \<open>A room is cleared exactly when the enemy of every spawn has been killed.\<close>

lemma IsCleared_iff:
  assumes inv: "room_inv cat r"
  shows "IsCleared r \<longleftrightarrow>
    (\<forall>sp \<in> set (room_enemySpawns (rs_template r)).
       \<exists>e \<in> set (rs_enemies r). en_spawnId e = spawn_id sp) \<and>
    (\<forall>e \<in> set (rs_enemies r). en_currentHp e = 0)"
proof -
  define sps where "sps = room_enemySpawns (rs_template r)"
  have alive: "HasLivingEnemy r \<longleftrightarrow> (\<exists>e \<in> set (rs_enemies r). en_currentHp e \<noteq> 0)"
    using room_invD(4) [OF inv] by (auto simp: HasLivingEnemy_def list_ex_iff enemy_ok_def)
  have inj: "inj_on spawn_id (set sps)"
    using room_invD(1) [OF inv] by (simp add: spawns_valid_def sps_def distinct_map)
  have ids: "en_spawnId ` set (rs_enemies r) =
      spawn_id ` {sp \<in> set sps. spawn_wave sp \<le> rs_currentWave r}"
    using room_invD(6) [OF inv] by (simp add: sps_def)
  have spawned: "(\<exists>e \<in> set (rs_enemies r). en_spawnId e = spawn_id sp) \<longleftrightarrow>
      spawn_wave sp \<le> rs_currentWave r" if "sp \<in> set sps" for sp
  proof -
    have "(\<exists>e \<in> set (rs_enemies r). en_spawnId e = spawn_id sp) \<longleftrightarrow>
        spawn_id sp \<in> en_spawnId ` set (rs_enemies r)" by (metis image_iff)
    also have "\<dots> \<longleftrightarrow> spawn_wave sp \<le> rs_currentWave r"
      unfolding ids using that inj by (auto simp: inj_on_def)
    finally show ?thesis .
  qed
  have "rs_currentWave r = rs_lastWave r \<longleftrightarrow> (\<forall>sp \<in> set sps. spawn_wave sp \<le> rs_currentWave r)"
    using lastWave_ge [OF inv] lastWave_reached [OF inv] by (auto simp: sps_def)
  with alive spawned show ?thesis unfolding IsCleared_def sps_def [symmetric] by auto
qed

end
