(* ===== verification/Player_State.thy ===== *)
theory Player_State
  imports Room_State
begin

text \<open>
  The combat and movement state of one player (\<open>src/include/DungeonPlayerState.h\<close>,
  \<open>src/src/DungeonPlayerState.cpp\<close>). Ticks, hit points and mana are 32-bit words; the decrements
  of \<open>AdvanceCombatTick\<close> would wrap around at zero, and \<open>player_inv\<close> is what rules that out.

  The main result is the skill timeline: after a successful \<open>BeginSkill\<close> the action is in
  \<open>Startup\<close>, \<open>Active\<close> and \<open>Recovery\<close> for exactly the numbers of ticks of the skill, then idle
  (\<open>skill_timeline\<close>), and the skill stays on cooldown for exactly its cooldown ticks.
\<close>

datatype MovePlayerResult = MoveSuccess | MoveDead | WrongRoom | MoveOutsideRoom | MoveBlockedByObstacle

datatype BeginSkillResult = BeginSuccess | BeginDead | InvalidSkill | NotEnoughMana | OnCooldown | Busy

datatype SkillActionPhase = Idle | Startup | Active | Recovery

record SkillActionSnapshot =
  sa_skillId :: SkillId
  sa_phase :: SkillActionPhase
  sa_remainingTicks :: u32

record SkillCooldownSnapshot =
  sc_skillId :: SkillId
  sc_remainingTicks :: u32

record DungeonPlayerSnapshot =
  snap_roomId :: RoomId
  snap_position :: Position
  snap_currentHp :: u32
  snap_maxHp :: u32
  snap_alive :: bool
  snap_currentMp :: u32
  snap_maxMp :: u32
  snap_skillAction :: SkillActionSnapshot
  snap_cooldowns :: "SkillCooldownSnapshot list"

record DungeonPlayerState =
  ps_sessionId :: SessionId
  ps_roomId :: RoomId
  ps_position :: Position
  ps_currentHp :: u32
  ps_maxHp :: u32
  ps_currentMp :: u32
  ps_maxMp :: u32
  ps_cooldowns :: "(SkillId, u32) umap"
  ps_actionSkillId :: SkillId
  ps_actionPhase :: SkillActionPhase
  ps_actionRemainingTicks :: u32
  ps_actionActiveTicks :: u32
  ps_actionRecoveryTicks :: u32

fun ToMovePlayerResult :: "PositionCheckResult \<Rightarrow> MovePlayerResult" where
  "ToMovePlayerResult PositionValid = MoveSuccess"
| "ToMovePlayerResult PositionOutsideRoom = MoveOutsideRoom"
| "ToMovePlayerResult PositionBlockedByObstacle = MoveBlockedByObstacle"

text \<open>The constructor; \<open>None\<close> is the thrown \<open>std::invalid_argument\<close>.\<close>

definition make_PlayerState ::
    "SessionId \<Rightarrow> RoomId \<Rightarrow> Position \<Rightarrow> u32 \<Rightarrow> u32 \<Rightarrow> DungeonPlayerState option" where
  "make_PlayerState sessionId roomId p maxMp maxHp =
     (if sessionId = 0 \<or> roomId = 0 \<or> f32_lt (pos_z p) f32_0 \<or> maxMp = 0 \<or> maxHp = 0 then None
      else Some \<lparr>ps_sessionId = sessionId, ps_roomId = roomId, ps_position = p,
             ps_currentHp = maxHp, ps_maxHp = maxHp, ps_currentMp = maxMp, ps_maxMp = maxMp,
             ps_cooldowns = [], ps_actionSkillId = 0, ps_actionPhase = Idle,
             ps_actionRemainingTicks = 0, ps_actionActiveTicks = 0, ps_actionRecoveryTicks = 0\<rparr>)"

definition RebindSession :: "SessionId \<Rightarrow> DungeonPlayerState \<Rightarrow> bool \<times> DungeonPlayerState" where
  "RebindSession sessionId p =
     (if sessionId = 0 then (False, p) else (True, p\<lparr>ps_sessionId := sessionId\<rparr>))"

definition player_Snapshot :: "DungeonPlayerState \<Rightarrow> DungeonPlayerSnapshot" where
  "player_Snapshot p =
     \<lparr>snap_roomId = ps_roomId p, snap_position = ps_position p,
      snap_currentHp = ps_currentHp p, snap_maxHp = ps_maxHp p, snap_alive = (0 < ps_currentHp p),
      snap_currentMp = ps_currentMp p, snap_maxMp = ps_maxMp p,
      snap_skillAction = \<lparr>sa_skillId = ps_actionSkillId p, sa_phase = ps_actionPhase p,
                          sa_remainingTicks = ps_actionRemainingTicks p\<rparr>,
      snap_cooldowns = sort_key sc_skillId
        (map (\<lambda>(i, t). \<lparr>sc_skillId = i, sc_remainingTicks = t\<rparr>) (ps_cooldowns p))\<rparr>"

definition clear_action :: "DungeonPlayerState \<Rightarrow> DungeonPlayerState" where
  "clear_action p =
     p\<lparr>ps_actionSkillId := 0, ps_actionPhase := Idle, ps_actionRemainingTicks := 0,
       ps_actionActiveTicks := 0, ps_actionRecoveryTicks := 0\<rparr>"

definition ApplyDamage :: "u32 \<Rightarrow> DungeonPlayerState \<Rightarrow> bool \<times> DungeonPlayerState" where
  "ApplyDamage damage p =
     (if damage = 0 \<or> ps_currentHp p = 0 then (False, p)
      else let p = p\<lparr>ps_currentHp := if ps_currentHp p \<le> damage then 0 else ps_currentHp p - damage\<rparr>
           in (True, if ps_currentHp p = 0 then clear_action p else p))"

definition RemainingCooldown :: "DungeonPlayerState \<Rightarrow> SkillId \<Rightarrow> u32" where
  "RemainingCooldown p skillId =
     (case map_of (ps_cooldowns p) skillId of None \<Rightarrow> 0 | Some t \<Rightarrow> t)"

definition BeginSkill ::
    "SkillId \<Rightarrow> u32 \<Rightarrow> u32 \<Rightarrow> u32 \<Rightarrow> u32 \<Rightarrow> u32 \<Rightarrow> DungeonPlayerState \<Rightarrow>
     BeginSkillResult \<times> DungeonPlayerState" where
  "BeginSkill skillId manaCost cooldownTicks startupTicks activeTicks recoveryTicks p =
     (if ps_currentHp p = 0 then (BeginDead, p)
      else if skillId = 0 \<or> activeTicks = 0 then (InvalidSkill, p)
      else if um_contains (ps_cooldowns p) skillId then (OnCooldown, p)
      else if ps_actionPhase p \<noteq> Idle then (Busy, p)
      else if ps_currentMp p < manaCost then (NotEnoughMana, p)
      else
        let p = p\<lparr>ps_currentMp := ps_currentMp p - manaCost\<rparr>;
            p = (if 0 < cooldownTicks
                 then p\<lparr>ps_cooldowns := um_emplace skillId cooldownTicks (ps_cooldowns p)\<rparr> else p);
            p = p\<lparr>ps_actionSkillId := skillId, ps_actionActiveTicks := activeTicks,
                  ps_actionRecoveryTicks := recoveryTicks\<rparr>
        in (BeginSuccess,
            if 0 < startupTicks
            then p\<lparr>ps_actionPhase := Startup, ps_actionRemainingTicks := startupTicks\<rparr>
            else p\<lparr>ps_actionPhase := Active, ps_actionRemainingTicks := activeTicks\<rparr>))"

text \<open>The loop over \<open>cooldowns_\<close>: decrement, erase at zero.\<close>

definition tick_cooldowns :: "(SkillId, u32) umap \<Rightarrow> (SkillId, u32) umap" where
  "tick_cooldowns m = filter (\<lambda>e. snd e \<noteq> 0) (map (\<lambda>e. (fst e, snd e - 1)) m)"

definition AdvanceCombatTick :: "DungeonPlayerState \<Rightarrow> DungeonPlayerState" where
  "AdvanceCombatTick p =
     (let p = p\<lparr>ps_cooldowns := tick_cooldowns (ps_cooldowns p)\<rparr> in
      if ps_actionPhase p = Idle then p
      else
        let p = p\<lparr>ps_actionRemainingTicks := ps_actionRemainingTicks p - 1\<rparr> in
        if 0 < ps_actionRemainingTicks p then p
        else if ps_actionPhase p = Startup
        then p\<lparr>ps_actionPhase := Active, ps_actionRemainingTicks := ps_actionActiveTicks p\<rparr>
        else if ps_actionPhase p = Active \<and> 0 < ps_actionRecoveryTicks p
        then p\<lparr>ps_actionPhase := Recovery, ps_actionRemainingTicks := ps_actionRecoveryTicks p\<rparr>
        else clear_action p)"

definition MoveTo :: "RoomState \<Rightarrow> Position \<Rightarrow> DungeonPlayerState \<Rightarrow> MovePlayerResult \<times> DungeonPlayerState" where
  "MoveTo room nextPosition p =
     (if ps_currentHp p = 0 then (MoveDead, p)
      else if ps_roomId p \<noteq> room_Id room then (WrongRoom, p)
      else case CheckPosition room nextPosition of
             PositionValid \<Rightarrow> (MoveSuccess, p\<lparr>ps_position := nextPosition\<rparr>)
           | bad \<Rightarrow> (ToMovePlayerResult bad, p))"

definition EnterRoom :: "RoomState \<Rightarrow> Position \<Rightarrow> DungeonPlayerState \<Rightarrow> MovePlayerResult \<times> DungeonPlayerState" where
  "EnterRoom room spawnPosition p =
     (if ps_currentHp p = 0 then (MoveDead, p)
      else case CheckPosition room spawnPosition of
             PositionValid \<Rightarrow> (MoveSuccess, p\<lparr>ps_roomId := room_Id room, ps_position := spawnPosition\<rparr>)
           | bad \<Rightarrow> (ToMovePlayerResult bad, p))"

section \<open>The player invariant\<close>

definition player_inv :: "DungeonPlayerState \<Rightarrow> bool" where
  "player_inv p \<longleftrightarrow>
     ps_currentHp p \<le> ps_maxHp p \<and> ps_currentMp p \<le> ps_maxMp p \<and>
     um_ok (ps_cooldowns p) \<and> (\<forall>t \<in> snd ` set (ps_cooldowns p). t \<noteq> 0) \<and>
     (ps_actionPhase p = Idle \<longleftrightarrow> ps_actionRemainingTicks p = 0) \<and>
     (ps_actionPhase p = Idle \<longleftrightarrow> ps_actionSkillId p = 0) \<and>
     (ps_actionPhase p = Startup \<longrightarrow> ps_actionActiveTicks p \<noteq> 0) \<and>
     (ps_currentHp p = 0 \<longrightarrow> ps_actionPhase p = Idle)"

lemma player_inv_make: "make_PlayerState x r q mp hp = Some p \<Longrightarrow> player_inv p"
  by (auto simp: make_PlayerState_def player_inv_def split: if_splits)

lemma player_inv_Rebind: "player_inv p \<Longrightarrow> player_inv (snd (RebindSession x p))"
  by (auto simp: RebindSession_def player_inv_def)

lemma word_sub_le: "(b::'a::len word) \<le> a \<Longrightarrow> a - b \<le> a"
  by (simp add: word_le_nat_alt unat_sub)

lemma word_sub_bound: "\<not> (a::'a::len word) \<le> b \<or> b \<le> a \<Longrightarrow> a \<le> c \<Longrightarrow> a - b \<le> c"
  by (meson linear order_trans word_sub_le)

lemma player_inv_ApplyDamage: "player_inv p \<Longrightarrow> player_inv (snd (ApplyDamage d p))"
  using word_sub_bound [of "ps_currentHp p" d "ps_maxHp p"]
  by (auto simp: ApplyDamage_def player_inv_def clear_action_def Let_def)

lemma set_um_emplace: "set (um_emplace k v m) \<subseteq> insert (k, v) (set m)"
  by (auto simp: um_emplace_def)

lemma player_inv_BeginSkill: "player_inv p \<Longrightarrow> player_inv (snd (BeginSkill i m c s a r p))"
  using word_sub_bound [of "ps_currentMp p" m "ps_maxMp p"] set_um_emplace [of i c "ps_cooldowns p"]
  by (auto simp: BeginSkill_def player_inv_def Let_def not_less word_gt_0)

lemma map_fst_tick_cooldowns:
  "um_ok m \<Longrightarrow> um_ok (tick_cooldowns m)"
  by (simp add: um_ok_def tick_cooldowns_def distinct_map_filter comp_def)

lemma tick_cooldowns_keys: "fst ` set (tick_cooldowns m) \<subseteq> fst ` set m"
  by (force simp: tick_cooldowns_def)

lemma tick_cooldowns_nonzero: "\<forall>t \<in> snd ` set (tick_cooldowns m). t \<noteq> 0"
  by (auto simp: tick_cooldowns_def)

lemma map_of_tick_cooldowns:
  "um_ok m \<Longrightarrow> map_of (tick_cooldowns m) k =
    (case map_of m k of None \<Rightarrow> None | Some t \<Rightarrow> if t = 1 then None else Some (t - 1))"
proof (induction m)
  case (Cons e m)
  then have "um_ok m" "fst e \<notin> fst ` set m" by (auto simp: um_ok_def)
  moreover from this have "map_of (tick_cooldowns m) (fst e) = None"
    using tick_cooldowns_keys by (fastforce simp: map_of_eq_None_iff)
  ultimately show ?case using Cons.IH by (auto simp: tick_cooldowns_def)
qed (simp add: tick_cooldowns_def)

lemma player_inv_AdvanceCombatTick:
  assumes "player_inv p"
  shows "player_inv (AdvanceCombatTick p)"
proof -
  let ?q = "p\<lparr>ps_cooldowns := tick_cooldowns (ps_cooldowns p)\<rparr>"
  have q: "player_inv ?q"
    using assms tick_cooldowns_nonzero [of "ps_cooldowns p"]
    by (auto simp: player_inv_def map_fst_tick_cooldowns)
  show ?thesis
  proof (cases "ps_actionPhase p = Idle")
    case True
    with q show ?thesis by (simp add: AdvanceCombatTick_def)
  next
    case False
    show ?thesis
    proof (cases "ps_actionRemainingTicks p = 1")
      case True
      with False q show ?thesis
        by (cases "ps_actionPhase p")
           (auto simp: AdvanceCombatTick_def player_inv_def clear_action_def Let_def word_gt_0)
    next
      case ne: False
      then have "ps_actionRemainingTicks p - 1 \<noteq> 0" by simp
      with False q show ?thesis
        by (auto simp: AdvanceCombatTick_def player_inv_def Let_def word_gt_0)
    qed
  qed
qed

lemma player_inv_MoveTo: "player_inv p \<Longrightarrow> player_inv (snd (MoveTo r q p))"
  by (auto simp: MoveTo_def player_inv_def split: PositionCheckResult.splits)

lemma player_inv_EnterRoom: "player_inv p \<Longrightarrow> player_inv (snd (EnterRoom r q p))"
  by (auto simp: EnterRoom_def player_inv_def split: PositionCheckResult.splits)

section \<open>The skill timeline\<close>

text \<open>The phase and its remaining ticks, \<open>n\<close> ticks after a skill began.\<close>

definition action_at :: "nat \<Rightarrow> nat \<Rightarrow> nat \<Rightarrow> nat \<Rightarrow> SkillActionPhase \<times> nat" where
  "action_at s a r n =
     (if n < s then (Startup, s - n)
      else if n < s + a then (Active, s + a - n)
      else if n < s + a + r then (Recovery, s + a + r - n)
      else (Idle, 0))"

definition in_action :: "SkillId \<Rightarrow> u32 \<Rightarrow> u32 \<Rightarrow> u32 \<Rightarrow> nat \<Rightarrow> DungeonPlayerState \<Rightarrow> bool" where
  "in_action i s a r n p \<longleftrightarrow>
     (ps_actionPhase p, unat (ps_actionRemainingTicks p)) = action_at (unat s) (unat a) (unat r) n \<and>
     (ps_actionPhase p \<noteq> Idle \<longrightarrow>
        ps_actionSkillId p = i \<and> ps_actionActiveTicks p = a \<and> ps_actionRecoveryTicks p = r)"

lemma BeginSkill_in_action:
  assumes "BeginSkill i m c s a r p = (BeginSuccess, p')"
  shows "in_action i s a r 0 p'" "a \<noteq> 0"
  using assms
  by (auto simp: BeginSkill_def in_action_def action_at_def Let_def word_gt_0 unat_gt_0
      split: if_splits)

lemma unat_pred: "(w::'a::len word) \<noteq> 0 \<Longrightarrow> unat (w - 1) = unat w - 1"
  by (simp add: unat_minus_one)

lemma in_action_tick:
  assumes "in_action i s a r n p" "a \<noteq> 0"
  shows "in_action i s a r (Suc n) (AdvanceCombatTick p)"
proof -
  have a: "0 < unat a" using assms(2) by (simp add: unat_gt_0)
  consider "n < unat s" | "unat s \<le> n" "n < unat s + unat a"
    | "unat s + unat a \<le> n" "n < unat s + unat a + unat r" | "unat s + unat a + unat r \<le> n"
    by linarith
  then show ?thesis
  proof cases
    case 1
    with assms(1) have p: "ps_actionPhase p = Startup" "unat (ps_actionRemainingTicks p) = unat s - n"
      "ps_actionSkillId p = i" "ps_actionActiveTicks p = a" "ps_actionRecoveryTicks p = r"
      by (auto simp: in_action_def action_at_def)
    with 1 have ne: "ps_actionRemainingTicks p \<noteq> 0" by auto
    with p 1 a show ?thesis
      by (auto simp: in_action_def action_at_def AdvanceCombatTick_def Let_def word_gt_0
          unat_eq_zero [symmetric] unat_pred)
  next
    case 2
    with assms(1) have p: "ps_actionPhase p = Active"
      "unat (ps_actionRemainingTicks p) = unat s + unat a - n"
      "ps_actionSkillId p = i" "ps_actionActiveTicks p = a" "ps_actionRecoveryTicks p = r"
      by (auto simp: in_action_def action_at_def)
    with 2 have ne: "ps_actionRemainingTicks p \<noteq> 0" by auto
    with p 2 show ?thesis
      by (auto simp: in_action_def action_at_def AdvanceCombatTick_def Let_def word_gt_0
          clear_action_def unat_eq_zero [symmetric] unat_pred)
  next
    case 3
    with assms(1) a have p: "ps_actionPhase p = Recovery"
      "unat (ps_actionRemainingTicks p) = unat s + unat a + unat r - n"
      "ps_actionSkillId p = i" "ps_actionActiveTicks p = a" "ps_actionRecoveryTicks p = r"
      by (auto simp: in_action_def action_at_def)
    with 3 have ne: "ps_actionRemainingTicks p \<noteq> 0" by auto
    with p 3 show ?thesis
      by (auto simp: in_action_def action_at_def AdvanceCombatTick_def Let_def word_gt_0
          clear_action_def unat_eq_zero [symmetric] unat_pred)
  next
    case 4
    with assms(1) have "ps_actionPhase p = Idle" "unat (ps_actionRemainingTicks p) = 0"
      by (auto simp: in_action_def action_at_def)
    with 4 show ?thesis by (auto simp: in_action_def action_at_def AdvanceCombatTick_def Let_def)
  qed
qed

lemma in_action_ticks:
  "in_action i s a r 0 p \<Longrightarrow> a \<noteq> 0 \<Longrightarrow> in_action i s a r n ((AdvanceCombatTick ^^ n) p)"
  by (induction n) (auto intro: in_action_tick)

section \<open>Cooldowns\<close>

lemma cooldowns_AdvanceCombatTick [simp]:
  "ps_cooldowns (AdvanceCombatTick p) = tick_cooldowns (ps_cooldowns p)"
  by (simp add: AdvanceCombatTick_def clear_action_def Let_def)

lemma cooldown_ticks:
  assumes "um_ok (ps_cooldowns p)" "map_of (ps_cooldowns p) k = Some c" "c \<noteq> 0"
  shows "um_ok (ps_cooldowns ((AdvanceCombatTick ^^ n) p)) \<and>
    map_option unat (map_of (ps_cooldowns ((AdvanceCombatTick ^^ n) p)) k) =
      (if n < unat c then Some (unat c - n) else None)"
proof (induction n)
  case 0
  with assms show ?case by (simp add: unat_gt_0)
next
  case (Suc n)
  have one: "unat t = 1 \<longleftrightarrow> t = 1" for t :: u32 by (simp add: word_unat_eq_iff)
  show ?case
  proof (cases "map_of (ps_cooldowns ((AdvanceCombatTick ^^ n) p)) k")
    case None
    with Suc show ?thesis by (auto simp: map_of_tick_cooldowns map_fst_tick_cooldowns split: if_splits)
  next
    case (Some t)
    with Suc have t: "unat t = unat c - n" "n < unat c" by (auto split: if_splits)
    then have "t \<noteq> 0" by auto
    with Some Suc t show ?thesis
      by (auto simp: map_of_tick_cooldowns map_fst_tick_cooldowns unat_pred one [symmetric])
  qed
qed

lemma BeginSkill_cooldown:
  assumes "BeginSkill i m c s a r p = (BeginSuccess, p')" "c \<noteq> 0" "um_ok (ps_cooldowns p)"
  shows "um_ok (ps_cooldowns p')" "map_of (ps_cooldowns p') i = Some c"
  using assms
  by (auto simp: BeginSkill_def Let_def umap_simps word_gt_0 split: if_splits)

end
