(* ===== verification/Dungeon_Instance.thy ===== *)
theory Dungeon_Instance
  imports Player_State Party_Manager
begin

text \<open>
  One running dungeon (\<open>src/include/DungeonInstance.h\<close>, \<open>src/src/DungeonInstance.cpp\<close>): its rooms,
  its players, the roster (participants, bound player identities, disconnect times) and the
  life cycle \<open>Waiting \<rightarrow> Running \<rightarrow> Finished\<close>.

  Time points of \<open>std::chrono::steady_clock\<close> are integers in nanoseconds, given by the caller;
  durations in milliseconds are converted by \<open>ms\<close>. The shared pointers to rooms and players are
  held by the instance's maps, so their contents live in the maps; \<open>modify_player\<close> and
  \<open>modify_room\<close> are the writes through such a pointer. The enemy catalog each room keeps a
  reference to is an argument of the operations that start waves.

  \<open>roster_inv\<close> ties the five roster containers together, \<open>stage_inv\<close> the rooms and the players in
  them; every operation keeps both.
\<close>

type_synonym DungeonId = u64

datatype DungeonState = Waiting | Running | Finished

datatype UsePortalResult = UsePortal_Success | DungeonNotRunning | PlayerNotFound | NotInsidePortal
  | RoomNotCleared | TargetRoomNotFound | TargetPositionBlocked

record DungeonEnemySnapshot =
  des_roomId :: RoomId
  des_enemy :: EnemyState

record DungeonParticipantReconnect =
  rc_replacedSessionId :: SessionId
  rc_disconnectedAt :: int

datatype instance_error = ZeroDungeonIds | InvalidDungeonContents | InvalidDungeonParticipant
  | DuplicateDungeonRoomId | InvalidPlayerState | RoomOutOfRange | WaveError room_error

record DungeonInstance =
  di_dungeonId :: DungeonId
  di_dungeonTemplate :: DungeonTemplate
  di_partyId :: PartyId
  di_participants :: "SessionId list"
  di_rooms :: "(RoomId, RoomState) umap"
  di_players :: "(SessionId, DungeonPlayerState) umap"
  di_participantPlayerIds :: "(SessionId, PlayerId) umap"
  di_playerSessions :: "(PlayerId, SessionId) umap"
  di_disconnectedSince :: "(SessionId, int) umap"
  di_createdAt :: int
  di_state :: DungeonState

section \<open>Construction\<close>

text \<open>The three loops of the constructor.\<close>

fun check_participants :: "SessionId list \<Rightarrow> SessionId list \<Rightarrow> bool" where
  "check_participants [] seen = True"
| "check_participants (x # xs) seen =
     (if x = 0 \<or> List.member seen x then False else check_participants xs (x # seen))"

fun build_rooms :: "RoomTemplate list \<Rightarrow> (RoomId, RoomState) umap \<Rightarrow> (RoomId, RoomState) umap option" where
  "build_rooms [] rooms = Some rooms"
| "build_rooms (t # ts) rooms =
     (if um_contains rooms (room_id t) then None
      else build_rooms ts (um_emplace (room_id t) (make_RoomState t) rooms))"

fun build_players ::
    "RoomTemplate \<Rightarrow> SessionId list \<Rightarrow> (SessionId, DungeonPlayerState) umap \<Rightarrow>
     (SessionId, DungeonPlayerState) umap option" where
  "build_players firstRoom [] players = Some players"
| "build_players firstRoom (x # xs) players =
     (case make_PlayerState x (room_id firstRoom) (room_playerSpawn firstRoom) 100 100 of
        None \<Rightarrow> None
      | Some p \<Rightarrow> build_players firstRoom xs (um_emplace x p players))"

definition make_DungeonInstance ::
    "DungeonId \<Rightarrow> DungeonTemplate \<Rightarrow> PartyId \<Rightarrow> SessionId list \<Rightarrow> int \<Rightarrow> instance_error + DungeonInstance" where
  "make_DungeonInstance dungeonId t partyId participants createdAt =
     (if dungeonId = 0 \<or> dt_id t = 0 \<or> partyId = 0 then Inl ZeroDungeonIds
      else if dt_rooms t = [] \<or> participants = [] \<or> MAX_PARTY_MEMBERS < length participants
      then Inl InvalidDungeonContents
      else if \<not> check_participants participants [] then Inl InvalidDungeonParticipant
      else case build_rooms (dt_rooms t) [] of
             None \<Rightarrow> Inl DuplicateDungeonRoomId
           | Some rooms \<Rightarrow>
               (case build_players (hd (dt_rooms t)) participants [] of
                  None \<Rightarrow> Inl InvalidPlayerState
                | Some players \<Rightarrow>
                    Inr \<lparr>di_dungeonId = dungeonId, di_dungeonTemplate = t, di_partyId = partyId,
                         di_participants = participants, di_rooms = rooms, di_players = players,
                         di_participantPlayerIds = [], di_playerSessions = [],
                         di_disconnectedSince = [], di_createdAt = createdAt, di_state = Waiting\<rparr>))"

section \<open>The roster\<close>

definition HasParticipant :: "DungeonInstance \<Rightarrow> SessionId \<Rightarrow> bool" where
  "HasParticipant d sessionId = um_contains (di_players d) sessionId"

definition BindParticipantPlayer ::
    "SessionId \<Rightarrow> PlayerId \<Rightarrow> DungeonInstance \<Rightarrow> bool \<times> DungeonInstance" where
  "BindParticipantPlayer sessionId playerId d =
     (if sessionId = 0 \<or> playerId = 0 then (False, d)
      else if \<not> um_contains (di_players d) sessionId then (False, d)
      else case map_of (di_participantPlayerIds d) sessionId of
             Some existing \<Rightarrow> (existing = playerId, d)
           | None \<Rightarrow>
               (case map_of (di_playerSessions d) playerId of
                  Some existing \<Rightarrow> (existing = sessionId, d)
                | None \<Rightarrow>
                    (True, d\<lparr>di_participantPlayerIds :=
                                um_emplace sessionId playerId (di_participantPlayerIds d),
                             di_playerSessions := um_emplace playerId sessionId (di_playerSessions d)\<rparr>)))"

definition DisconnectParticipant ::
    "SessionId \<Rightarrow> int \<Rightarrow> DungeonInstance \<Rightarrow> bool \<times> DungeonInstance" where
  "DisconnectParticipant sessionId disconnectedAt d =
     (if \<not> um_contains (di_players d) sessionId then (False, d)
      else (True, d\<lparr>di_disconnectedSince :=
                      um_emplace sessionId disconnectedAt (di_disconnectedSince d)\<rparr>))"

text \<open>
  The common second half of \<open>ReconnectParticipant\<close> and \<open>RollbackParticipantReconnect\<close>: the player's
  node moves from the key \<open>from\<close> to the key \<open>to\<close> in every container but \<open>disconnectedSince_\<close>. The
  flag is false when the node is missing, or when \<open>RebindSession\<close> refuses, which destroys the node.
\<close>

definition move_participant ::
    "PlayerId \<Rightarrow> SessionId \<Rightarrow> SessionId \<Rightarrow> DungeonInstance \<Rightarrow> bool \<times> DungeonInstance" where
  "move_participant playerId from to d =
     (case map_of (di_players d) from of
        None \<Rightarrow> (False, d)
      | Some node \<Rightarrow>
          let d = d\<lparr>di_players := um_erase from (di_players d)\<rparr>;
              (rebound, node) = RebindSession to node in
          if \<not> rebound then (False, d)
          else (True,
            d\<lparr>di_players := um_emplace to node (di_players d),
              di_participantPlayerIds :=
                um_emplace to playerId (um_erase from (di_participantPlayerIds d)),
              di_playerSessions := um_modify playerId (\<lambda>_. to) (di_playerSessions d),
              di_participants := upd_first (\<lambda>x. x = from) (\<lambda>_. to) (di_participants d)\<rparr>))"

definition ReconnectParticipant ::
    "PlayerId \<Rightarrow> SessionId \<Rightarrow> int \<Rightarrow> int \<Rightarrow> DungeonInstance \<Rightarrow>
     DungeonParticipantReconnect option \<times> DungeonInstance" where
  "ReconnectParticipant playerId newSessionId now reconnectGrace d =
     (if playerId = 0 \<or> newSessionId = 0 \<or> reconnectGrace \<le> 0 then (None, d)
      else case map_of (di_playerSessions d) playerId of
             None \<Rightarrow> (None, d)
           | Some oldSessionId \<Rightarrow>
               (case map_of (di_disconnectedSince d) oldSessionId of
                  None \<Rightarrow> (None, d)
                | Some disconnectedAt \<Rightarrow>
                    if um_contains (di_players d) newSessionId \<or> now < disconnectedAt \<or>
                       ms reconnectGrace \<le> now - disconnectedAt
                    then (None, d)
                    else
                      let (moved, d) = move_participant playerId oldSessionId newSessionId d in
                      if \<not> moved then (None, d)
                      else (Some \<lparr>rc_replacedSessionId = oldSessionId, rc_disconnectedAt = disconnectedAt\<rparr>,
                            d\<lparr>di_disconnectedSince := um_erase oldSessionId (di_disconnectedSince d)\<rparr>)))"

definition RollbackParticipantReconnect ::
    "PlayerId \<Rightarrow> SessionId \<Rightarrow> DungeonParticipantReconnect \<Rightarrow> DungeonInstance \<Rightarrow> bool \<times> DungeonInstance" where
  "RollbackParticipantReconnect playerId newSessionId reconnect d =
     (if playerId = 0 \<or> newSessionId = 0 \<or> rc_replacedSessionId reconnect = 0 then (False, d)
      else if map_of (di_playerSessions d) playerId \<noteq> Some newSessionId \<or>
              \<not> um_contains (di_players d) newSessionId \<or>
              um_contains (di_players d) (rc_replacedSessionId reconnect)
      then (False, d)
      else
        let (moved, d) = move_participant playerId newSessionId (rc_replacedSessionId reconnect) d in
        if \<not> moved then (False, d)
        else (True, d\<lparr>di_disconnectedSince :=
                 um_emplace (rc_replacedSessionId reconnect) (rc_disconnectedAt reconnect)
                   (di_disconnectedSince d)\<rparr>))"

text \<open>One removed participant, and the loop over \<open>disconnectedSince_\<close>.\<close>

definition remove_participant :: "SessionId \<Rightarrow> DungeonInstance \<Rightarrow> DungeonInstance" where
  "remove_participant sessionId d =
     (let d = (case map_of (di_participantPlayerIds d) sessionId of
                 None \<Rightarrow> d
               | Some playerId \<Rightarrow>
                   d\<lparr>di_playerSessions := um_erase playerId (di_playerSessions d),
                     di_participantPlayerIds := um_erase sessionId (di_participantPlayerIds d)\<rparr>)
      in d\<lparr>di_players := um_erase sessionId (di_players d),
           di_participants := filter (\<lambda>x. x \<noteq> sessionId) (di_participants d),
           di_disconnectedSince := um_erase sessionId (di_disconnectedSince d)\<rparr>)"

definition grace_expired :: "int \<Rightarrow> int \<Rightarrow> int \<Rightarrow> bool" where
  "grace_expired now reconnectGrace since \<longleftrightarrow> \<not> (now < since \<or> now - since < ms reconnectGrace)"

fun remove_expired ::
    "int \<Rightarrow> int \<Rightarrow> (SessionId \<times> int) list \<Rightarrow> DungeonInstance \<Rightarrow> SessionId list \<times> DungeonInstance" where
  "remove_expired now grace [] d = ([], d)"
| "remove_expired now grace ((x, since) # rest) d =
     (if \<not> grace_expired now grace since then remove_expired now grace rest d
      else let (removed, d') = remove_expired now grace rest (remove_participant x d)
           in (x # removed, d'))"

definition RemoveExpiredDisconnectedParticipants ::
    "int \<Rightarrow> int \<Rightarrow> DungeonInstance \<Rightarrow> SessionId list \<times> DungeonInstance" where
  "RemoveExpiredDisconnectedParticipants now reconnectGrace d =
     (if reconnectGrace \<le> 0 then ([], d)
      else remove_expired now reconnectGrace (di_disconnectedSince d) d)"

definition RemoveAllParticipants :: "DungeonInstance \<Rightarrow> SessionId list \<times> DungeonInstance" where
  "RemoveAllParticipants d =
     (di_participants d,
      d\<lparr>di_participants := [], di_players := [], di_participantPlayerIds := [],
        di_playerSessions := [], di_disconnectedSince := []\<rparr>)"

definition IsParticipantDisconnected :: "DungeonInstance \<Rightarrow> SessionId \<Rightarrow> bool" where
  "IsParticipantDisconnected d sessionId = um_contains (di_disconnectedSince d) sessionId"

definition HasDisconnectedParticipants :: "DungeonInstance \<Rightarrow> bool" where
  "HasDisconnectedParticipants d \<longleftrightarrow> di_disconnectedSince d \<noteq> []"

text \<open>A difference of two \<open>std::size_t\<close>: it would wrap around below zero.\<close>

definition ConnectedParticipantCount :: "DungeonInstance \<Rightarrow> u64" where
  "ConnectedParticipantCount d =
     of_nat (length (di_players d)) - of_nat (length (di_disconnectedSince d))"

section \<open>Rooms, portals and the life cycle\<close>

definition FindRoom :: "DungeonInstance \<Rightarrow> RoomId \<Rightarrow> RoomState option" where
  "FindRoom d roomId = map_of (di_rooms d) roomId"

definition FindPlayer :: "DungeonInstance \<Rightarrow> SessionId \<Rightarrow> DungeonPlayerState option" where
  "FindPlayer d sessionId = map_of (di_players d) sessionId"

definition modify_player ::
    "SessionId \<Rightarrow> (DungeonPlayerState \<Rightarrow> DungeonPlayerState) \<Rightarrow> DungeonInstance \<Rightarrow> DungeonInstance" where
  "modify_player x f d = d\<lparr>di_players := um_modify x f (di_players d)\<rparr>"

definition modify_room :: "RoomId \<Rightarrow> (RoomState \<Rightarrow> RoomState) \<Rightarrow> DungeonInstance \<Rightarrow> DungeonInstance" where
  "modify_room i f d = d\<lparr>di_rooms := um_modify i f (di_rooms d)\<rparr>"

definition EnemySnapshots :: "DungeonInstance \<Rightarrow> DungeonEnemySnapshot list" where
  "EnemySnapshots d =
     concat (map (\<lambda>t. case FindRoom d (room_id t) of
                        None \<Rightarrow> []
                      | Some room \<Rightarrow> map (\<lambda>e. \<lparr>des_roomId = room_id t, des_enemy = e\<rparr>) (rs_enemies room))
        (dt_rooms (di_dungeonTemplate d)))"

fun advance_waves ::
    "EnemyCatalog \<Rightarrow> RoomId list \<Rightarrow> DungeonInstance \<Rightarrow> instance_error + nat \<times> DungeonInstance" where
  "advance_waves cat [] d = Inr (0, d)"
| "advance_waves cat (i # is) d =
     (case FindRoom d i of
        None \<Rightarrow> advance_waves cat is d
      | Some room \<Rightarrow>
          (case StartNextWave cat room of
             Inl e \<Rightarrow> Inl (WaveError e)
           | Inr (started, room') \<Rightarrow>
               (case advance_waves cat is (modify_room i (\<lambda>_. room') d) of
                  Inl e \<Rightarrow> Inl e
                | Inr (n, d') \<Rightarrow> Inr (if started then Suc n else n, d'))))"

definition AdvanceRoomWaves :: "EnemyCatalog \<Rightarrow> DungeonInstance \<Rightarrow> instance_error + nat \<times> DungeonInstance" where
  "AdvanceRoomWaves cat d =
     (if di_state d \<noteq> Running then Inr (0, d)
      else
        let players = filter (\<lambda>e. \<not> um_contains (di_disconnectedSince d) (fst e)) (di_players d);
            occupiedRoomIds = remdups (map (ps_roomId \<circ> snd) players)
        in advance_waves cat occupiedRoomIds d)"

definition TryUsePortal ::
    "EnemyCatalog \<Rightarrow> SessionId \<Rightarrow> DungeonInstance \<Rightarrow> instance_error + UsePortalResult \<times> DungeonInstance" where
  "TryUsePortal cat sessionId d =
     (if di_state d \<noteq> Running then Inr (DungeonNotRunning, d)
      else case FindPlayer d sessionId of
        None \<Rightarrow> Inr (PlayerNotFound, d)
      | Some player \<Rightarrow>
        (case FindRoom d (ps_roomId player) of
          None \<Rightarrow> Inr (TargetRoomNotFound, d)
        | Some room \<Rightarrow>
          (case find (\<lambda>t. room_id t = ps_roomId player) (dt_rooms (di_dungeonTemplate d)) of
            None \<Rightarrow> Inr (TargetRoomNotFound, d)
          | Some roomTemplate \<Rightarrow>
            (case find (\<lambda>portal. IsInsideCollisionBox (portal_triggerArea portal) (ps_position player))
                    (room_portals roomTemplate) of
              None \<Rightarrow> Inr (NotInsidePortal, d)
            | Some portal \<Rightarrow>
              if portal_requiresRoomClear portal \<and> \<not> IsCleared room then Inr (RoomNotCleared, d)
              else case FindRoom d (portal_targetRoomId portal) of
                None \<Rightarrow> Inr (TargetRoomNotFound, d)
              | Some targetRoom \<Rightarrow>
                let (moved, player') = EnterRoom targetRoom (portal_targetPosition portal) player in
                if moved \<noteq> MoveSuccess then Inr (TargetPositionBlocked, d)
                else case StartNextWave cat targetRoom of
                  Inl e \<Rightarrow> Inl (WaveError e)
                | Inr (_, targetRoom') \<Rightarrow>
                    Inr (UsePortal_Success,
                         modify_room (portal_targetRoomId portal) (\<lambda>_. targetRoom')
                           (modify_player sessionId (\<lambda>_. player') d))))))"

definition Finish :: "DungeonInstance \<Rightarrow> bool \<times> DungeonInstance" where
  "Finish d = (if di_state d \<noteq> Running then (False, d) else (True, d\<lparr>di_state := Finished\<rparr>))"

definition TryFinishIfCleared :: "DungeonInstance \<Rightarrow> bool \<times> DungeonInstance" where
  "TryFinishIfCleared d =
     (if di_state d \<noteq> Running then (False, d)
      else
        let finalRoomId = room_id (last (dt_rooms (di_dungeonTemplate d))) in
        if di_players d = [] then (False, d)
        else if list_ex (\<lambda>e. ps_roomId (snd e) \<noteq> finalRoomId) (di_players d) then (False, d)
        else if list_ex (\<lambda>e. \<not> IsCleared (snd e)) (di_rooms d) then (False, d)
        else Finish d)"

definition Start :: "EnemyCatalog \<Rightarrow> DungeonInstance \<Rightarrow> instance_error + bool \<times> DungeonInstance" where
  "Start cat d =
     (if di_state d \<noteq> Waiting then Inr (False, d)
      else
        let d = d\<lparr>di_state := Running\<rparr>;
            firstRoomId = room_id (hd (dt_rooms (di_dungeonTemplate d)))
        in case map_of (di_rooms d) firstRoomId of
             None \<Rightarrow> Inl RoomOutOfRange
           | Some room \<Rightarrow>
               (case StartNextWave cat room of
                  Inl e \<Rightarrow> Inl (WaveError e)
                | Inr (_, room') \<Rightarrow> Inr (True, modify_room firstRoomId (\<lambda>_. room') d)))"

section \<open>The roster invariant\<close>

definition roster_inv :: "DungeonInstance \<Rightarrow> bool" where
  "roster_inv d \<longleftrightarrow>
     distinct (di_participants d) \<and> 0 \<notin> set (di_participants d) \<and>
     length (di_participants d) \<le> MAX_PARTY_MEMBERS \<and>
     um_ok (di_players d) \<and> um_ok (di_participantPlayerIds d) \<and> um_ok (di_playerSessions d) \<and>
     um_ok (di_disconnectedSince d) \<and>
     (\<forall>x. um_contains (di_players d) x \<longleftrightarrow> x \<in> set (di_participants d)) \<and>
     (\<forall>x p. map_of (di_players d) x = Some p \<longrightarrow> ps_sessionId p = x) \<and>
     (\<forall>x i. map_of (di_participantPlayerIds d) x = Some i \<longleftrightarrow> map_of (di_playerSessions d) i = Some x) \<and>
     (\<forall>x i. map_of (di_participantPlayerIds d) x = Some i \<longrightarrow> i \<noteq> 0 \<and> um_contains (di_players d) x) \<and>
     (\<forall>x. um_contains (di_disconnectedSince d) x \<longrightarrow> um_contains (di_players d) x)"

lemma roster_invD:
  assumes "roster_inv d"
  shows "distinct (di_participants d)" "0 \<notin> set (di_participants d)"
    "length (di_participants d) \<le> MAX_PARTY_MEMBERS"
    "um_ok (di_players d)" "um_ok (di_participantPlayerIds d)" "um_ok (di_playerSessions d)"
    "um_ok (di_disconnectedSince d)"
    "um_contains (di_players d) x \<longleftrightarrow> x \<in> set (di_participants d)"
    "map_of (di_players d) x = Some p \<Longrightarrow> ps_sessionId p = x"
    "map_of (di_participantPlayerIds d) x = Some i \<longleftrightarrow> map_of (di_playerSessions d) i = Some x"
    "map_of (di_playerSessions d) i = Some x \<Longrightarrow> i \<noteq> 0"
    "map_of (di_playerSessions d) i = Some x \<Longrightarrow> um_contains (di_players d) x"
    "um_contains (di_disconnectedSince d) x \<Longrightarrow> um_contains (di_players d) x"
  using assms unfolding roster_inv_def by blast+

lemma roster_invI:
  assumes "distinct (di_participants d)" "0 \<notin> set (di_participants d)"
    "length (di_participants d) \<le> MAX_PARTY_MEMBERS"
    "um_ok (di_players d)" "um_ok (di_participantPlayerIds d)" "um_ok (di_playerSessions d)"
    "um_ok (di_disconnectedSince d)"
    "\<And>x. um_contains (di_players d) x \<longleftrightarrow> x \<in> set (di_participants d)"
    "\<And>x p. map_of (di_players d) x = Some p \<Longrightarrow> ps_sessionId p = x"
    "\<And>x i. map_of (di_participantPlayerIds d) x = Some i \<longleftrightarrow> map_of (di_playerSessions d) i = Some x"
    "\<And>i x. map_of (di_playerSessions d) i = Some x \<Longrightarrow> i \<noteq> 0 \<and> um_contains (di_players d) x"
    "\<And>x. um_contains (di_disconnectedSince d) x \<Longrightarrow> um_contains (di_players d) x"
  shows "roster_inv d"
  unfolding roster_inv_def using assms by blast

lemma roster_inv_Bind:
  assumes "roster_inv d"
  shows "roster_inv (snd (BindParticipantPlayer x i d))"
proof (cases "snd (BindParticipantPlayer x i d) = d")
  case False
  then have new: "x \<noteq> 0" "i \<noteq> 0" "um_contains (di_players d) x"
    "map_of (di_participantPlayerIds d) x = None" "map_of (di_playerSessions d) i = None"
    by (auto simp: BindParticipantPlayer_def split: if_splits option.splits)
  note D = roster_invD [OF assms]
  have eq: "snd (BindParticipantPlayer x i d) =
      d\<lparr>di_participantPlayerIds := um_emplace x i (di_participantPlayerIds d),
        di_playerSessions := um_emplace i x (di_playerSessions d)\<rparr>"
    using new by (simp add: BindParticipantPlayer_def)
  have "map_of (um_emplace x i (di_participantPlayerIds d)) y = Some j \<longleftrightarrow>
      map_of (um_emplace i x (di_playerSessions d)) j = Some y" for y j
    using new(4,5) D(10) [of y j] by (auto simp: umap_simps um_contains_def)
  then show ?thesis
    unfolding eq using D new
    by (intro roster_invI) (auto simp: umap_simps split: if_splits)
qed (use assms in simp)

lemma roster_inv_Disconnect:
  "roster_inv d \<Longrightarrow> roster_inv (snd (DisconnectParticipant x t d))"
  by (auto simp: DisconnectParticipant_def roster_inv_def umap_simps)

text \<open>Moving a participant to a session identifier nobody in the dungeon uses.\<close>

lemma move_participant_eq:
  assumes "roster_inv d" "map_of (di_playerSessions d) i = Some x" "y \<noteq> 0"
  obtains p where "map_of (di_players d) x = Some p"
    "move_participant i x y d = (True,
       d\<lparr>di_players := um_emplace y (p\<lparr>ps_sessionId := y\<rparr>) (um_erase x (di_players d)),
         di_participantPlayerIds := um_emplace y i (um_erase x (di_participantPlayerIds d)),
         di_playerSessions := um_modify i (\<lambda>_. y) (di_playerSessions d),
         di_participants := upd_first (\<lambda>z. z = x) (\<lambda>_. y) (di_participants d)\<rparr>)"
proof -
  from roster_invD(12) [OF assms(1,2)] obtain p where "map_of (di_players d) x = Some p"
    by (auto simp: um_contains_def)
  with assms(3) that show ?thesis by (simp add: move_participant_def RebindSession_def)
qed

lemma set_upd_first_eq:
  "distinct xs \<Longrightarrow> x \<in> set xs \<Longrightarrow> set (upd_first (\<lambda>z. z = x) (\<lambda>_. y) xs) = insert y (set xs - {x})"
  by (induction xs) auto

lemma distinct_upd_first:
  "distinct xs \<Longrightarrow> y \<notin> set xs \<Longrightarrow> distinct (upd_first (\<lambda>z. z = x) (\<lambda>_. y) xs)"
proof (induction xs)
  case (Cons z xs)
  then show ?case
    using set_upd_first [of "\<lambda>z. z = x" "\<lambda>_. y" xs] by auto
qed simp

lemma upd_first_back:
  "y \<notin> set xs \<Longrightarrow> x \<in> set xs \<Longrightarrow>
   upd_first (\<lambda>z. z = y) (\<lambda>_. x) (upd_first (\<lambda>z. z = x) (\<lambda>_. y) xs) = xs"
  by (induction xs) auto

lemma roster_inv_move:
  assumes inv: "roster_inv d" and i: "map_of (di_playerSessions d) i = Some x"
    and y: "y \<noteq> 0" "\<not> um_contains (di_players d) y"
  shows "roster_inv ((snd (move_participant i x y d))\<lparr>di_disconnectedSince := m\<rparr>)
     \<longleftrightarrow> um_ok m \<and> (\<forall>z. um_contains m z \<longrightarrow> z = y \<or> z \<noteq> x \<and> um_contains (di_players d) z)"
proof -
  note D = roster_invD [OF inv]
  obtain p where p: "map_of (di_players d) x = Some p"
    "move_participant i x y d = (True,
       d\<lparr>di_players := um_emplace y (p\<lparr>ps_sessionId := y\<rparr>) (um_erase x (di_players d)),
         di_participantPlayerIds := um_emplace y i (um_erase x (di_participantPlayerIds d)),
         di_playerSessions := um_modify i (\<lambda>_. y) (di_playerSessions d),
         di_participants := upd_first (\<lambda>z. z = x) (\<lambda>_. y) (di_participants d)\<rparr>)"
    using move_participant_eq [OF inv i y(1)] by blast
  define t where "t = (snd (move_participant i x y d))\<lparr>di_disconnectedSince := m\<rparr>"
  have x: "x \<in> set (di_participants d)" using D(8) D(12) [OF i] by blast
  have yn: "y \<notin> set (di_participants d)" using y(2) D(8) by blast
  have ps: "set (di_participants t) = insert y (set (di_participants d) - {x})"
    "distinct (di_participants t)" "length (di_participants t) = length (di_participants d)"
    using x yn D(1) by (auto simp: t_def p(2) set_upd_first_eq distinct_upd_first)
  have pl: "map_of (di_players t) z =
      (if z = y then Some (p\<lparr>ps_sessionId := y\<rparr>) else if z = x then None else map_of (di_players d) z)" for z
    using y(2) by (auto simp: t_def p(2) umap_simps)
  have xy: "x \<noteq> y" using x yn by blast
  have noid: "map_of (di_participantPlayerIds d) y = None"
    using D(10,12) y(2) by (metis not_None_eq)
  have ids: "map_of (di_participantPlayerIds t) z =
      (if z = y then Some i else if z = x then None else map_of (di_participantPlayerIds d) z)" for z
    using noid by (auto simp: t_def p(2) umap_simps um_contains_def)
  have ses: "map_of (di_playerSessions t) j = (if j = i then Some y else map_of (di_playerSessions d) j)" for j
    using i by (auto simp: t_def p(2) umap_simps)
  have oks: "um_ok (di_players t)" "um_ok (di_participantPlayerIds t)" "um_ok (di_playerSessions t)"
    "di_disconnectedSince t = m"
    using D(4-6) by (auto simp: t_def p(2))
  have has: "um_contains (di_players t) z \<longleftrightarrow> z = y \<or> z \<noteq> x \<and> um_contains (di_players d) z" for z
    by (auto simp: um_contains_def pl)
  have inverse: "map_of (di_participantPlayerIds t) z = Some j \<longleftrightarrow> map_of (di_playerSessions t) j = Some z" for z j
    using D(10) [of z j] D(10) [of x j] D(10) [of x i] D(10) [of z i] i noid D(10) [of y j]
    by (auto simp: ids ses)
  have bound: "j \<noteq> 0 \<and> um_contains (di_players t) z" if "map_of (di_playerSessions t) j = Some z" for j z
    using that D(11,12) i D(10) [of x j] D(10) [of x i] by (auto simp: ses has split: if_splits)
  have sess: "ps_sessionId q = z" if "map_of (di_players t) z = Some q" for z q
    using that D(9) by (auto simp: pl split: if_splits)
  have "roster_inv t \<longleftrightarrow> um_ok m \<and> (\<forall>z. um_contains m z \<longrightarrow> um_contains (di_players t) z)" (is "_ \<longleftrightarrow> ?R")
  proof
    assume "roster_inv t"
    then show ?R using roster_invD(7,13) [of t] oks(4) by auto
  next
    assume ?R
    then show "roster_inv t"
      using ps oks D(2,3,8) y(1) inverse bound sess
      by (intro roster_invI) (auto simp: has)
  qed
  then show ?thesis by (simp add: t_def [symmetric] has)
qed

text \<open>When a reconnect succeeds, and what it does then.\<close>

lemma Reconnect_cases:
  assumes inv: "roster_inv d"
  obtains (refused) "ReconnectParticipant i y now grace d = (None, d)"
  | (moved) x t where "i \<noteq> 0" "y \<noteq> 0" "0 < grace" "map_of (di_playerSessions d) i = Some x"
      "map_of (di_disconnectedSince d) x = Some t" "\<not> um_contains (di_players d) y"
      "t \<le> now" "now - t < ms grace"
      "ReconnectParticipant i y now grace d =
        (Some \<lparr>rc_replacedSessionId = x, rc_disconnectedAt = t\<rparr>,
         (snd (move_participant i x y d))\<lparr>di_disconnectedSince := um_erase x (di_disconnectedSince d)\<rparr>)"
proof (cases "i = 0 \<or> y = 0 \<or> grace \<le> 0 \<or> map_of (di_playerSessions d) i = None \<or>
    map_of (di_disconnectedSince d) (the (map_of (di_playerSessions d) i)) = None")
  case True
  then show ?thesis by (intro refused) (auto simp: ReconnectParticipant_def split: option.splits)
next
  case False
  then obtain x t where xt: "map_of (di_playerSessions d) i = Some x"
    "map_of (di_disconnectedSince d) x = Some t" and ne: "i \<noteq> 0" "y \<noteq> 0" "0 < grace" by auto
  obtain p where "move_participant i x y d = (True,
       d\<lparr>di_players := um_emplace y (p\<lparr>ps_sessionId := y\<rparr>) (um_erase x (di_players d)),
         di_participantPlayerIds := um_emplace y i (um_erase x (di_participantPlayerIds d)),
         di_playerSessions := um_modify i (\<lambda>_. y) (di_playerSessions d),
         di_participants := upd_first (\<lambda>z. z = x) (\<lambda>_. y) (di_participants d)\<rparr>)"
    using move_participant_eq [OF inv xt(1) ne(2)] by blast
  with xt ne show ?thesis
    by (cases "um_contains (di_players d) y \<or> now < t \<or> ms grace \<le> now - t")
       (auto simp: ReconnectParticipant_def not_le intro: refused moved)
qed

lemma roster_inv_Reconnect:
  assumes inv: "roster_inv d"
  shows "roster_inv (snd (ReconnectParticipant i y now grace d))"
  using inv
proof (cases rule: Reconnect_cases [where i = i and y = y and now = now and grace = grace])
  case (moved x t)
  then show ?thesis
    using inv roster_invD(7,13) [OF inv] by (auto simp: roster_inv_move umap_simps)
qed (use inv in simp)

lemma Rollback_cases:
  assumes inv: "roster_inv d"
  obtains (refused) "RollbackParticipantReconnect i y rc d = (False, d)"
  | (moved) "i \<noteq> 0" "y \<noteq> 0" "rc_replacedSessionId rc \<noteq> 0" "map_of (di_playerSessions d) i = Some y"
      "\<not> um_contains (di_players d) (rc_replacedSessionId rc)"
      "RollbackParticipantReconnect i y rc d =
        (True, (snd (move_participant i y (rc_replacedSessionId rc) d))
           \<lparr>di_disconnectedSince :=
              um_emplace (rc_replacedSessionId rc) (rc_disconnectedAt rc) (di_disconnectedSince d)\<rparr>)"
proof (cases "i = 0 \<or> y = 0 \<or> rc_replacedSessionId rc = 0 \<or>
    map_of (di_playerSessions d) i \<noteq> Some y \<or> um_contains (di_players d) (rc_replacedSessionId rc)")
  case True
  then show ?thesis by (intro refused) (auto simp: RollbackParticipantReconnect_def)
next
  case False
  let ?x = "rc_replacedSessionId rc"
  from False have ne: "map_of (di_playerSessions d) i = Some y" "?x \<noteq> 0" by auto
  obtain p where "move_participant i y ?x d = (True,
       d\<lparr>di_players := um_emplace ?x (p\<lparr>ps_sessionId := ?x\<rparr>) (um_erase y (di_players d)),
         di_participantPlayerIds := um_emplace ?x i (um_erase y (di_participantPlayerIds d)),
         di_playerSessions := um_modify i (\<lambda>_. ?x) (di_playerSessions d),
         di_participants := upd_first (\<lambda>z. z = y) (\<lambda>_. ?x) (di_participants d)\<rparr>)"
    using move_participant_eq [OF inv ne] by blast
  with False roster_invD(12) [OF inv ne(1)] show ?thesis
    by (intro moved) (auto simp: RollbackParticipantReconnect_def)
qed

lemma roster_inv_Rollback:
  assumes inv: "roster_inv d"
    and fresh: "\<not> um_contains (di_disconnectedSince d) y"
  shows "roster_inv (snd (RollbackParticipantReconnect i y rc d))"
  using inv
proof (cases rule: Rollback_cases [where i = i and y = y and rc = rc])
  case moved
  then show ?thesis
    using inv fresh roster_invD(7,13) [OF inv] by (auto simp: roster_inv_move umap_simps)
qed (use inv in simp)

text \<open>Removal: exactly the participants whose grace has expired go.\<close>

lemma remove_participant_view:
  fixes x :: SessionId and d :: DungeonInstance
  assumes inv: "roster_inv d"
  defines "t \<equiv> remove_participant x d"
  shows "di_participants t = filter (\<lambda>z. z \<noteq> x) (di_participants d)"
    "di_players t = um_erase x (di_players d)"
    "di_disconnectedSince t = um_erase x (di_disconnectedSince d)"
    "map_of (di_participantPlayerIds t) z = (if z = x then None else map_of (di_participantPlayerIds d) z)"
    "map_of (di_playerSessions t) j =
       (if map_of (di_playerSessions d) j = Some x then None else map_of (di_playerSessions d) j)"
    "um_ok (di_participantPlayerIds t)" "um_ok (di_playerSessions t)"
    "di_rooms t = di_rooms d" "di_dungeonTemplate t = di_dungeonTemplate d" "di_state t = di_state d"
  using roster_invD(5,6) [OF inv] roster_invD(10) [OF inv, of x] roster_invD(10) [OF inv, of x j]
  by (auto simp: t_def remove_participant_def Let_def umap_simps split: option.splits)
     (metis option.inject)

lemma roster_inv_remove:
  assumes inv: "roster_inv d"
  shows "roster_inv (remove_participant x d)"
proof -
  note D = roster_invD [OF inv]
  note V = remove_participant_view [OF inv, of x]
  have "map_of (di_participantPlayerIds (remove_participant x d)) z = Some j \<longleftrightarrow>
      map_of (di_playerSessions (remove_participant x d)) j = Some z" for z j
    using D(10) [of z j] D(10) [of x j] by (auto simp: V(4,5))
  moreover have "j \<noteq> 0 \<and> um_contains (di_players (remove_participant x d)) z"
    if "map_of (di_playerSessions (remove_participant x d)) j = Some z" for j z
    using that D(11,12) by (auto simp: V(2,5) umap_simps split: if_splits)
  moreover have "length (filter (\<lambda>z. z \<noteq> x) (di_participants d)) \<le> MAX_PARTY_MEMBERS"
    using D(3) length_filter_le [of "\<lambda>z. z \<noteq> x" "di_participants d"] by linarith
  ultimately show ?thesis
    using D(1,2,4,7,8,9,13) V(6,7)
    by (intro roster_invI) (auto simp: V(1-3) umap_simps split: if_splits)
qed

lemma remove_expired_eq:
  "remove_expired now grace m d =
     (map fst (filter (\<lambda>e. grace_expired now grace (snd e)) m),
      fold remove_participant (map fst (filter (\<lambda>e. grace_expired now grace (snd e)) m)) d)"
  by (induction now grace m d rule: remove_expired.induct) (auto split: prod.splits)

lemma fold_remove_participant:
  assumes "roster_inv d"
  shows "roster_inv (fold remove_participant xs d) \<and>
    di_participants (fold remove_participant xs d) = filter (\<lambda>z. z \<notin> set xs) (di_participants d) \<and>
    (\<forall>z. map_of (di_players (fold remove_participant xs d)) z =
       (if z \<in> set xs then None else map_of (di_players d) z)) \<and>
    (\<forall>z. map_of (di_disconnectedSince (fold remove_participant xs d)) z =
       (if z \<in> set xs then None else map_of (di_disconnectedSince d) z)) \<and>
    di_rooms (fold remove_participant xs d) = di_rooms d \<and>
    di_dungeonTemplate (fold remove_participant xs d) = di_dungeonTemplate d \<and>
    di_state (fold remove_participant xs d) = di_state d"
  using assms
proof (induction xs arbitrary: d)
  case Nil
  then show ?case by simp
next
  case (Cons x xs)
  note V = remove_participant_view [OF Cons.prems, of x]
  from Cons.IH [OF roster_inv_remove [OF Cons.prems, of x]] show ?case
    by (auto simp: V(1-3,8-10) umap_simps fun_eq_iff intro: filter_cong)
qed

lemma roster_inv_RemoveExpired:
  "roster_inv d \<Longrightarrow> roster_inv (snd (RemoveExpiredDisconnectedParticipants now grace d))"
  by (auto simp: RemoveExpiredDisconnectedParticipants_def remove_expired_eq
      simp del: fold_map dest: fold_remove_participant)

lemma RemoveExpired_result:
  assumes "roster_inv d" "0 < grace"
  shows "x \<in> set (fst (RemoveExpiredDisconnectedParticipants now grace d)) \<longleftrightarrow>
    (\<exists>t. map_of (di_disconnectedSince d) x = Some t \<and> ms grace \<le> now - t \<and> t \<le> now)"
proof -
  have "um_ok (di_disconnectedSince d)" using roster_invD(7) [OF assms(1)] .
  then show ?thesis
    using assms(2)
    by (auto simp: RemoveExpiredDisconnectedParticipants_def remove_expired_eq um_find_iff_set
        grace_expired_def not_less image_iff simp del: fold_map)
qed

lemma roster_inv_RemoveAll: "roster_inv (snd (RemoveAllParticipants d))"
  by (simp add: RemoveAllParticipants_def roster_inv_def)

text \<open>The counter of connected participants does not wrap around.\<close>

lemma um_length_card: "um_ok m \<Longrightarrow> length m = card {k. um_contains m k}"
  using distinct_card [of "map fst m"] by (simp add: um_ok_def um_contains_iff_dom)

lemma ConnectedParticipantCount_eq:
  assumes inv: "roster_inv d"
  shows "unat (ConnectedParticipantCount d) =
    card {x \<in> set (di_participants d). \<not> IsParticipantDisconnected d x}"
proof -
  note D = roster_invD [OF inv]
  let ?P = "{k. um_contains (di_players d) k}" and ?D = "{k. um_contains (di_disconnectedSince d) k}"
  have P: "?P = set (di_participants d)" using D(8) by blast
  have sub: "?D \<subseteq> ?P" using D(13) by blast
  have fin: "finite ?P" unfolding P by simp
  have le: "card ?D \<le> card ?P" by (rule card_mono [OF fin sub])
  have small: "card ?P \<le> 4" unfolding P using D(1,3) by (simp add: distinct_card MAX_PARTY_MEMBERS_def)
  have of: "unat (of_nat n :: u64) = n" if "n \<le> 4" for n
    using that by (simp add: unat_of_nat take_bit_nat_eq_self)
  have "(of_nat (card ?D) :: u64) \<le> of_nat (card ?P)"
    using le small by (simp add: word_le_nat_alt of)
  then have "unat (ConnectedParticipantCount d) = card ?P - card ?D"
    using le small
    by (simp add: ConnectedParticipantCount_def um_length_card D(4,7) unat_sub of)
  also have "\<dots> = card (?P - ?D)" using sub fin by (simp add: card_Diff_subset finite_subset)
  also have "?P - ?D = {x \<in> set (di_participants d). \<not> IsParticipantDisconnected d x}"
    unfolding P IsParticipantDisconnected_def by blast
  finally show ?thesis .
qed

section \<open>The stage invariant\<close>

definition standing :: "(RoomId, RoomState) umap \<Rightarrow> DungeonPlayerState \<Rightarrow> bool" where
  "standing rooms p \<longleftrightarrow>
     player_inv p \<and>
     (\<exists>r. map_of rooms (ps_roomId p) = Some r \<and> inner_point (rs_template r) (ps_position p))"

definition room_of :: "EnemyCatalog \<Rightarrow> RoomTemplate list \<Rightarrow> RoomId \<Rightarrow> RoomState \<Rightarrow> bool" where
  "room_of cat ts i r \<longleftrightarrow> room_inv cat r \<and> rs_template r \<in> set ts \<and> room_id (rs_template r) = i"

definition stage_inv :: "EnemyCatalog \<Rightarrow> DungeonInstance \<Rightarrow> bool" where
  "stage_inv cat d \<longleftrightarrow>
     rooms_valid cat (dt_rooms (di_dungeonTemplate d)) \<and>
     um_ok (di_rooms d) \<and> um_ok (di_players d) \<and>
     (\<forall>i r. map_of (di_rooms d) i = Some r \<longrightarrow> room_of cat (dt_rooms (di_dungeonTemplate d)) i r) \<and>
     (\<forall>t \<in> set (dt_rooms (di_dungeonTemplate d)). um_contains (di_rooms d) (room_id t)) \<and>
     (\<forall>x p. map_of (di_players d) x = Some p \<longrightarrow> standing (di_rooms d) p)"

lemma stage_invD:
  assumes "stage_inv cat d"
  shows "rooms_valid cat (dt_rooms (di_dungeonTemplate d))" "um_ok (di_rooms d)" "um_ok (di_players d)"
    "map_of (di_rooms d) i = Some r \<Longrightarrow> room_of cat (dt_rooms (di_dungeonTemplate d)) i r"
    "t \<in> set (dt_rooms (di_dungeonTemplate d)) \<Longrightarrow> um_contains (di_rooms d) (room_id t)"
    "map_of (di_players d) x = Some p \<Longrightarrow> standing (di_rooms d) p"
  using assms unfolding stage_inv_def by blast+

text \<open>The invariant looks at the rooms, the players and the template only.\<close>

lemma stage_inv_cong:
  assumes "stage_inv cat d" "di_rooms t = di_rooms d" "di_dungeonTemplate t = di_dungeonTemplate d"
    "um_ok (di_players t)"
    "\<And>x p. map_of (di_players t) x = Some p \<Longrightarrow> standing (di_rooms d) p"
  shows "stage_inv cat t"
  using assms unfolding stage_inv_def by simp

lemma standing_modify_room:
  assumes "standing rooms p" "\<And>r. map_of rooms i = Some r \<Longrightarrow> rs_template (f r) = rs_template r"
  shows "standing (um_modify i f rooms) p"
proof -
  obtain r where "player_inv p" "map_of rooms (ps_roomId p) = Some r"
    "inner_point (rs_template r) (ps_position p)"
    using assms(1) by (auto simp: standing_def)
  with assms(2) show ?thesis by (auto simp: standing_def umap_simps)
qed

lemma stage_inv_modify_room:
  assumes inv: "stage_inv cat d" and i: "map_of (di_rooms d) i = Some r"
    and r': "room_inv cat r'" "rs_template r' = rs_template r"
  shows "stage_inv cat (modify_room i (\<lambda>_. r') d)"
proof -
  note D = stage_invD [OF inv]
  have "room_of cat (dt_rooms (di_dungeonTemplate d)) i r'"
    using D(4) [OF i] r' by (simp add: room_of_def)
  moreover have "standing (um_modify i (\<lambda>_. r') (di_rooms d)) p" if "map_of (di_players d) x = Some p" for x p
    using D(6) [OF that] i r'(2) by (intro standing_modify_room) auto
  ultimately show ?thesis
    using D i unfolding stage_inv_def by (auto simp: modify_room_def umap_simps)
qed

lemma stage_inv_modify_player:
  assumes inv: "stage_inv cat d"
    and f: "\<And>p. map_of (di_players d) x = Some p \<Longrightarrow> standing (di_rooms d) (f p)"
  shows "stage_inv cat (modify_player x f d)"
  using stage_invD(3,6) [OF inv] f
  by (intro stage_inv_cong [OF inv]) (auto simp: modify_player_def umap_simps split: if_splits)

lemma build_rooms_Some:
  "build_rooms ts m = Some rooms \<Longrightarrow> um_ok m \<Longrightarrow>
     um_ok rooms \<and> (\<forall>i. map_of rooms i = (case map_of m i of Some r \<Rightarrow> Some r
       | None \<Rightarrow> map_of (map (\<lambda>t. (room_id t, make_RoomState t)) ts) i))"
proof (induction ts m rule: build_rooms.induct)
  case (2 t ts m)
  then have "\<not> um_contains m (room_id t)" "um_ok (um_emplace (room_id t) (make_RoomState t) m)"
    "build_rooms ts (um_emplace (room_id t) (make_RoomState t) m) = Some rooms"
    by (auto split: if_splits)
  with "2.IH" show ?case
    by (auto simp: umap_simps um_contains_def split: option.splits)
qed (auto split: option.splits)

lemma build_rooms_distinct:
  "distinct (map room_id ts) \<Longrightarrow> \<forall>t \<in> set ts. \<not> um_contains m (room_id t) \<Longrightarrow>
   \<exists>rooms. build_rooms ts m = Some rooms"
proof (induction ts m rule: build_rooms.induct)
  case (2 t ts m)
  then show ?case by (fastforce simp: umap_simps image_iff)
qed simp

lemma check_participants_iff:
  "check_participants xs seen \<longleftrightarrow> distinct xs \<and> 0 \<notin> set xs \<and> set xs \<inter> set seen = {}"
  by (induction xs seen rule: check_participants.induct) auto

lemma build_players_ok:
  "room_id r \<noteq> 0 \<Longrightarrow> \<not> f32_lt (pos_z (room_playerSpawn r)) f32_0 \<Longrightarrow>
    0 \<notin> set xs \<Longrightarrow> um_ok m \<Longrightarrow> distinct xs \<Longrightarrow> \<forall>x \<in> set xs. \<not> um_contains m x \<Longrightarrow>
    \<exists>players. build_players r xs m = Some players \<and> um_ok players \<and>
      (\<forall>x. map_of players x = (if x \<in> set xs
         then make_PlayerState x (room_id r) (room_playerSpawn r) 100 100 else map_of m x))"
proof (induction r xs m rule: build_players.induct)
  case (2 r x xs m)
  from 2(2-4) obtain p where p: "make_PlayerState x (room_id r) (room_playerSpawn r) 100 100 = Some p"
    by (simp add: make_PlayerState_def)
  have "\<forall>y \<in> set xs. \<not> um_contains (um_emplace x p m) y"
    using "2.prems"(5,6) by (auto simp: umap_simps)
  moreover have "um_ok (um_emplace x p m)" "0 \<notin> set xs" "distinct xs" "\<not> um_contains m x" "x \<notin> set xs"
    using "2.prems"(3-6) by auto
  ultimately show ?case
    using "2.IH" [OF p "2.prems"(1,2)] p by (auto simp: umap_simps)
qed simp

text \<open>The constructor accepts a party of one to four sessions and a valid template.\<close>

lemma rooms_validD:
  assumes "rooms_valid cat ts"
  shows "ts \<noteq> []" "distinct (map room_id ts)"
    "t \<in> set ts \<Longrightarrow> room_id t \<noteq> 0" "t \<in> set ts \<Longrightarrow> inner_point t (room_playerSpawn t)"
    "t \<in> set ts \<Longrightarrow> spawns_valid cat t" "t \<in> set ts \<Longrightarrow> portals_valid ts t"
  using assms unfolding rooms_valid_def by blast+

lemma map_of_templates:
  "distinct (map room_id ts) \<Longrightarrow>
   map_of (map (\<lambda>t. (room_id t, make_RoomState t)) ts) i = Some r \<longleftrightarrow>
     (\<exists>t \<in> set ts. room_id t = i \<and> r = make_RoomState t)"
  by (subst map_of_eq_Some_iff) (auto simp: comp_def image_iff)

lemma template_make_RoomState [simp]: "rs_template (make_RoomState t) = t"
  by (simp add: make_RoomState_def)

lemma make_DungeonInstance_ok:
  assumes ids: "i \<noteq> 0" "dt_id t \<noteq> 0" "pid \<noteq> 0"
    and rooms: "rooms_valid cat (dt_rooms t)"
    and ps: "xs \<noteq> []" "length xs \<le> MAX_PARTY_MEMBERS" "distinct xs" "0 \<notin> set xs"
  shows "\<exists>d. make_DungeonInstance i t pid xs now = Inr d \<and> roster_inv d \<and> stage_inv cat d \<and>
    di_dungeonId d = i \<and> di_partyId d = pid \<and> di_participants d = xs \<and> di_dungeonTemplate d = t \<and>
    di_state d = Waiting \<and> di_createdAt d = now \<and> di_disconnectedSince d = []"
proof -
  note R = rooms_validD [OF rooms]
  obtain rms where rms: "build_rooms (dt_rooms t) [] = Some rms"
    using build_rooms_distinct [OF R(2), of "[]"] by auto
  from build_rooms_Some [OF rms] have rms': "um_ok rms"
    "\<And>j. map_of rms j = map_of (map (\<lambda>t. (room_id t, make_RoomState t)) (dt_rooms t)) j" by auto
  define r where "r = hd (dt_rooms t)"
  have r: "r \<in> set (dt_rooms t)" using R(1) by (simp add: r_def)
  obtain pls where pls: "build_players r xs [] = Some pls" "um_ok pls"
    "\<And>x. map_of pls x = (if x \<in> set xs
         then make_PlayerState x (room_id r) (room_playerSpawn r) 100 100 else None)"
    using build_players_ok [of r xs "[]"] R(3,4) [OF r] ps(3,4) by (auto simp: inner_point_def)
  have mk: "make_PlayerState x (room_id r) (room_playerSpawn r) 100 100 \<noteq> None" if "x \<in> set xs" for x
    using that ps(4) R(3,4) [OF r] by (auto simp: make_PlayerState_def inner_point_def)
  define d where "d = \<lparr>di_dungeonId = i, di_dungeonTemplate = t, di_partyId = pid,
                         di_participants = xs, di_rooms = rms, di_players = pls,
                         di_participantPlayerIds = [], di_playerSessions = [],
                         di_disconnectedSince = [], di_createdAt = now, di_state = Waiting\<rparr>"
  have eq: "make_DungeonInstance i t pid xs now = Inr d"
    using ids R(1) ps rms pls(1) by (simp add: make_DungeonInstance_def check_participants_iff r_def d_def)
  have roster: "roster_inv d"
    using ps pls(2,3) mk
    by (intro roster_invI)
       (auto simp: d_def um_contains_def make_PlayerState_def split: if_splits)
  have stand: "standing rms p" if "map_of pls x = Some p" for x p
  proof -
    from that have p: "make_PlayerState x (room_id r) (room_playerSpawn r) 100 100 = Some p"
      by (auto simp: pls(3) split: if_splits)
    have "map_of rms (room_id r) = Some (make_RoomState r)"
      using r by (auto simp: rms'(2) map_of_templates [OF R(2)])
    with p player_inv_make [OF p] R(4) [OF r] show ?thesis
      by (auto simp: standing_def make_PlayerState_def split: if_splits)
  qed
  have dom: "um_contains rms (room_id a)" if "a \<in> set (dt_rooms t)" for a
  proof -
    have "map_of rms (room_id a) = Some (make_RoomState a)"
      unfolding rms'(2) map_of_templates [OF R(2)] using that by blast
    then show ?thesis by (simp add: um_contains_def)
  qed
  have "room_of cat (dt_rooms t) j q" if "map_of rms j = Some q" for j q
    using that R(5) by (auto simp: rms'(2) map_of_templates [OF R(2)] room_of_def intro: room_inv_make)
  then have "stage_inv cat d"
    using rooms rms'(1) pls(2) stand dom unfolding stage_inv_def by (simp add: d_def)
  with eq roster show ?thesis by (auto simp: d_def)
qed

text \<open>The roster operations leave everyone who stays where they stand.\<close>

lemma stage_inv_Bind: "stage_inv cat d \<Longrightarrow> stage_inv cat (snd (BindParticipantPlayer x i d))"
  by (auto simp: BindParticipantPlayer_def stage_inv_def split: option.splits)

lemma stage_inv_Disconnect: "stage_inv cat d \<Longrightarrow> stage_inv cat (snd (DisconnectParticipant x t d))"
  by (auto simp: DisconnectParticipant_def stage_inv_def)

lemma standing_session [simp]: "standing rooms (p\<lparr>ps_sessionId := y\<rparr>) = standing rooms p"
  by (simp add: standing_def player_inv_def)

lemma stage_inv_move:
  assumes inv: "stage_inv cat d" "roster_inv d" and i: "map_of (di_playerSessions d) i = Some x"
    and y: "y \<noteq> 0"
  shows "stage_inv cat ((snd (move_participant i x y d))\<lparr>di_disconnectedSince := m\<rparr>)"
proof -
  obtain p where p: "map_of (di_players d) x = Some p"
    "move_participant i x y d = (True,
       d\<lparr>di_players := um_emplace y (p\<lparr>ps_sessionId := y\<rparr>) (um_erase x (di_players d)),
         di_participantPlayerIds := um_emplace y i (um_erase x (di_participantPlayerIds d)),
         di_playerSessions := um_modify i (\<lambda>_. y) (di_playerSessions d),
         di_participants := upd_first (\<lambda>z. z = x) (\<lambda>_. y) (di_participants d)\<rparr>)"
    using move_participant_eq [OF inv(2) i y] by blast
  note D = stage_invD [OF inv(1)]
  show ?thesis
    unfolding p(2) using D(3,6) D(6) [OF p(1)]
    by (intro stage_inv_cong [OF inv(1)]) (auto simp: umap_simps split: if_splits)
qed

lemma stage_inv_Reconnect:
  assumes "stage_inv cat d" "roster_inv d"
  shows "stage_inv cat (snd (ReconnectParticipant i y now grace d))"
  using assms(2)
proof (cases rule: Reconnect_cases [where i = i and y = y and now = now and grace = grace])
  case (moved x t)
  with assms show ?thesis by (simp add: stage_inv_move)
qed (use assms in simp)

lemma stage_inv_Rollback:
  assumes "stage_inv cat d" "roster_inv d"
  shows "stage_inv cat (snd (RollbackParticipantReconnect i y rc d))"
  using assms(2)
proof (cases rule: Rollback_cases [where i = i and y = y and rc = rc])
  case moved
  with assms show ?thesis by (simp add: stage_inv_move)
qed (use assms in simp)

lemma stage_inv_RemoveExpired:
  assumes inv: "stage_inv cat d" "roster_inv d"
  shows "stage_inv cat (snd (RemoveExpiredDisconnectedParticipants now grace d))"
proof (cases "grace \<le> 0")
  case False
  let ?xs = "map fst (filter (\<lambda>e. grace_expired now grace (snd e)) (di_disconnectedSince d))"
  have eq: "snd (RemoveExpiredDisconnectedParticipants now grace d) = fold remove_participant ?xs d"
    using False by (simp add: RemoveExpiredDisconnectedParticipants_def remove_expired_eq del: fold_map)
  note F = fold_remove_participant [OF inv(2), of ?xs]
  show ?thesis
    unfolding eq using F roster_invD(4) stage_invD(6) [OF inv(1)]
    by (intro stage_inv_cong [OF inv(1)]) (auto simp del: fold_map split: if_splits)
qed (use inv in \<open>simp add: RemoveExpiredDisconnectedParticipants_def\<close>)

lemma stage_inv_RemoveAll: "stage_inv cat d \<Longrightarrow> stage_inv cat (snd (RemoveAllParticipants d))"
  by (simp add: RemoveAllParticipants_def stage_inv_def)

section \<open>Waves, portals and the life cycle keep the stage\<close>

lemma roster_inv_rooms [simp]: "roster_inv (d\<lparr>di_rooms := m\<rparr>) = roster_inv d"
  by (simp add: roster_inv_def)

lemma roster_inv_state [simp]: "roster_inv (d\<lparr>di_state := st\<rparr>) = roster_inv d"
  by (simp add: roster_inv_def)

lemma stage_inv_state [simp]: "stage_inv cat (d\<lparr>di_state := st\<rparr>) = stage_inv cat d"
  by (simp add: stage_inv_def)

lemma roster_inv_modify_room [simp]: "roster_inv (modify_room i f d) = roster_inv d"
  by (simp add: modify_room_def)

lemma roster_inv_modify_player:
  assumes inv: "roster_inv d"
    and f: "\<And>p. map_of (di_players d) x = Some p \<Longrightarrow> ps_sessionId (f p) = ps_sessionId p"
  shows "roster_inv (modify_player x f d)"
  using roster_invD [OF inv] f
  by (intro roster_invI) (auto simp: modify_player_def umap_simps split: if_splits)

lemma StartNextWave_stage:
  assumes inv: "stage_inv cat d" "enemies_ok cat" and i: "map_of (di_rooms d) i = Some r"
  obtains b r' where "StartNextWave cat r = Inr (b, r')" "stage_inv cat (modify_room i (\<lambda>_. r') d)"
proof -
  have "room_inv cat r" using stage_invD(4) [OF inv(1) i] by (simp add: room_of_def)
  from StartNextWave_cases [OF this inv(2)] obtain b r' where
    "StartNextWave cat r = Inr (b, r')" "room_inv cat r'" "rs_template r' = rs_template r" by blast
  then show thesis using stage_inv_modify_room [OF inv(1) i] that by blast
qed

lemma advance_waves_total:
  assumes "stage_inv cat d" "enemies_ok cat"
  shows "\<exists>n d'. advance_waves cat is d = Inr (n, d') \<and> stage_inv cat d' \<and>
    d' = d\<lparr>di_rooms := di_rooms d'\<rparr>"
  using assms(1)
proof (induction "is" arbitrary: d)
  case (Cons i "is")
  show ?case
  proof (cases "map_of (di_rooms d) i")
    case None
    with Cons show ?thesis by (simp add: FindRoom_def)
  next
    case (Some r)
    obtain b r' where b: "StartNextWave cat r = Inr (b, r')" "stage_inv cat (modify_room i (\<lambda>_. r') d)"
      using StartNextWave_stage [OF Cons.prems assms(2) Some] .
    from Cons.IH [OF b(2)] Some b(1) show ?thesis by (auto simp: FindRoom_def modify_room_def)
  qed
qed simp

lemma AdvanceRoomWaves_total:
  assumes "stage_inv cat d" "enemies_ok cat"
  shows "\<exists>n d'. AdvanceRoomWaves cat d = Inr (n, d') \<and> stage_inv cat d' \<and>
    d' = d\<lparr>di_rooms := di_rooms d'\<rparr>"
  using advance_waves_total [OF assms] assms(1) by (auto simp: AdvanceRoomWaves_def Let_def)

lemma find_template:
  assumes "rooms_valid cat ts" "t \<in> set ts"
  shows "find (\<lambda>s. room_id s = room_id t) ts = Some t"
proof -
  have "distinct (map room_id ts)" using assms(1) by (rule rooms_validD)
  then show ?thesis using assms(2) by (induction ts) auto
qed

lemma EnterRoom_standing:
  assumes "EnterRoom r q p = (MoveSuccess, p')" "player_inv p"
    and "map_of rooms (room_id (rs_template r)) = Some r"
  shows "standing rooms p'"
  using assms player_inv_EnterRoom [OF assms(2), of r q]
  by (auto simp: EnterRoom_def standing_def room_Id_def inner_point_def CheckPosition_def
      split: if_splits PositionCheckResult.splits)

lemma EnterRoom_session: "ps_sessionId (snd (EnterRoom r q p)) = ps_sessionId p"
  by (auto simp: EnterRoom_def split: PositionCheckResult.splits)

lemma TryUsePortal_total:
  assumes inv: "stage_inv cat d" "roster_inv d" and cat: "enemies_ok cat"
  shows "\<exists>res d'. TryUsePortal cat x d = Inr (res, d') \<and> stage_inv cat d' \<and> roster_inv d' \<and>
    (res \<noteq> UsePortal_Success \<longrightarrow> d' = d) \<and> res \<noteq> TargetRoomNotFound"
proof (cases "di_state d = Running \<and> FindPlayer d x \<noteq> None")
  case False
  with inv show ?thesis by (auto simp: TryUsePortal_def)
next
  case True
  then obtain p where p: "map_of (di_players d) x = Some p" by (auto simp: FindPlayer_def)
  let ?ts = "dt_rooms (di_dungeonTemplate d)"
  note D = stage_invD [OF inv(1)]
  obtain r where r: "map_of (di_rooms d) (ps_roomId p) = Some r" and pinv: "player_inv p"
    using D(6) [OF p] by (auto simp: standing_def)
  from D(4) [OF r] have t: "rs_template r \<in> set ?ts" "room_id (rs_template r) = ps_roomId p"
    by (auto simp: room_of_def)
  have ft: "find (\<lambda>t. room_id t = ps_roomId p) ?ts = Some (rs_template r)"
    using find_template [OF D(1) t(1)] t(2) by simp
  let ?portal = "find (\<lambda>portal. IsInsideCollisionBox (portal_triggerArea portal) (ps_position p))
      (room_portals (rs_template r))"
  show ?thesis
  proof (cases "?portal = None \<or> portal_requiresRoomClear (the ?portal) \<and> \<not> IsCleared r")
    case 1: True
    with True p r ft inv show ?thesis
      by (cases ?portal) (auto simp: TryUsePortal_def FindPlayer_def FindRoom_def)
  next
    case 2: False
    then obtain g where g: "?portal = Some g" "\<not> (portal_requiresRoomClear g \<and> \<not> IsCleared r)" by auto
    from find_Some_in [OF g(1)] rooms_validD(6) [OF D(1) t(1)]
    obtain u where u: "u \<in> set ?ts" "room_id u = portal_targetRoomId g"
      by (auto simp: portals_valid_def)
    from D(5) [OF u(1)] u(2) obtain tr where tr: "map_of (di_rooms d) (portal_targetRoomId g) = Some tr"
      by (auto simp: um_contains_def)
    have trid: "room_id (rs_template tr) = portal_targetRoomId g"
      using D(4) [OF tr] by (simp add: room_of_def)
    obtain mv p' where e: "EnterRoom tr (portal_targetPosition g) p = (mv, p')" by fastforce
    let ?d = "modify_player x (\<lambda>_. p') d"
    show ?thesis
    proof (cases "mv = MoveSuccess")
      case False
      with True p r ft g tr e inv show ?thesis
        by (auto simp: TryUsePortal_def FindPlayer_def FindRoom_def)
    next
      case mv: True
      have st: "stage_inv cat ?d"
        using EnterRoom_standing [OF e [unfolded mv] pinv] tr trid by (intro stage_inv_modify_player [OF inv(1)]) simp
      have ro: "roster_inv ?d"
        using EnterRoom_session [of tr "portal_targetPosition g" p] e p
        by (intro roster_inv_modify_player [OF inv(2)]) simp
      have "map_of (di_rooms ?d) (portal_targetRoomId g) = Some tr" using tr by (simp add: modify_player_def)
      then obtain b tr' where "StartNextWave cat tr = Inr (b, tr')"
        "stage_inv cat (modify_room (portal_targetRoomId g) (\<lambda>_. tr') ?d)"
        using StartNextWave_stage [OF st cat] by blast
      with ro True p r ft g tr e mv show ?thesis
        by (auto simp: TryUsePortal_def FindPlayer_def FindRoom_def)
    qed
  qed
qed

lemma Start_total:
  assumes inv: "stage_inv cat d" and cat: "enemies_ok cat"
  shows "\<exists>d'. Start cat d = Inr (di_state d = Waiting, d') \<and> stage_inv cat d' \<and>
    (if di_state d = Waiting then d' = d\<lparr>di_state := Running, di_rooms := di_rooms d'\<rparr> else d' = d)"
proof (cases "di_state d = Waiting")
  case True
  let ?d = "d\<lparr>di_state := Running\<rparr>"
  let ?i = "room_id (hd (dt_rooms (di_dungeonTemplate d)))"
  have "hd (dt_rooms (di_dungeonTemplate d)) \<in> set (dt_rooms (di_dungeonTemplate d))"
    using rooms_validD(1) [OF stage_invD(1) [OF inv]] by simp
  with stage_invD(5) [OF inv] obtain r where r: "map_of (di_rooms d) ?i = Some r"
    by (fastforce simp: um_contains_def)
  obtain b r' where "StartNextWave cat r = Inr (b, r')" "stage_inv cat (modify_room ?i (\<lambda>_. r') ?d)"
    using StartNextWave_stage [of cat ?d ?i r] inv cat r by auto
  with True r show ?thesis by (auto simp: Start_def Let_def modify_room_def)
qed (use inv in \<open>simp add: Start_def\<close>)

lemma TryFinish_iff:
  "fst (TryFinishIfCleared d) \<longleftrightarrow>
     di_state d = Running \<and> di_players d \<noteq> [] \<and>
     (\<forall>p \<in> snd ` set (di_players d). ps_roomId p = room_id (last (dt_rooms (di_dungeonTemplate d)))) \<and>
     (\<forall>r \<in> snd ` set (di_rooms d). IsCleared r)"
  by (auto simp: TryFinishIfCleared_def Finish_def list_ex_iff Let_def)

lemma TryFinish_result:
  "snd (TryFinishIfCleared d) = (if fst (TryFinishIfCleared d) then d\<lparr>di_state := Finished\<rparr> else d)"
  by (simp add: TryFinishIfCleared_def Finish_def Let_def)

section \<open>Reconnecting and rolling back\<close>

lemma Reconnect_Rollback:
  assumes inv: "roster_inv d"
    and rec: "ReconnectParticipant i y now grace d = (Some rc, d1)"
  shows "\<exists>d2. RollbackParticipantReconnect i y rc d1 = (True, d2) \<and>
    di_participants d2 = di_participants d \<and> map_of (di_players d2) = map_of (di_players d) \<and>
    map_of (di_participantPlayerIds d2) = map_of (di_participantPlayerIds d) \<and>
    di_playerSessions d2 = di_playerSessions d \<and>
    map_of (di_disconnectedSince d2) = map_of (di_disconnectedSince d) \<and>
    di_rooms d2 = di_rooms d \<and> di_state d2 = di_state d"
  using inv
proof (cases rule: Reconnect_cases [where i = i and y = y and now = now and grace = grace])
  case refused
  with rec show ?thesis by simp
next
  case (moved x t)
  note D = roster_invD [OF inv]
  obtain p where p: "map_of (di_players d) x = Some p"
    "move_participant i x y d = (True,
       d\<lparr>di_players := um_emplace y (p\<lparr>ps_sessionId := y\<rparr>) (um_erase x (di_players d)),
         di_participantPlayerIds := um_emplace y i (um_erase x (di_participantPlayerIds d)),
         di_playerSessions := um_modify i (\<lambda>_. y) (di_playerSessions d),
         di_participants := upd_first (\<lambda>z. z = x) (\<lambda>_. y) (di_participants d)\<rparr>)"
    using move_participant_eq [OF inv moved(4,2)] by blast
  have d1: "d1 = d\<lparr>di_players := um_emplace y (p\<lparr>ps_sessionId := y\<rparr>) (um_erase x (di_players d)),
         di_participantPlayerIds := um_emplace y i (um_erase x (di_participantPlayerIds d)),
         di_playerSessions := um_modify i (\<lambda>_. y) (di_playerSessions d),
         di_participants := upd_first (\<lambda>z. z = x) (\<lambda>_. y) (di_participants d),
         di_disconnectedSince := um_erase x (di_disconnectedSince d)\<rparr>"
    and rc: "rc = \<lparr>rc_replacedSessionId = x, rc_disconnectedAt = t\<rparr>"
    using rec moved(9) p(2) by auto
  have x: "x \<in> set (di_participants d)" "y \<notin> set (di_participants d)" "x \<noteq> 0" "x \<noteq> y"
    using D(8) D(12) [OF moved(4)] moved(6) D(2) by blast+
  have sp: "ps_sessionId p = x" using D(9) [OF p(1)] .
  have ys: "map_of (di_players d) y = None" "map_of (di_participantPlayerIds d) y = None"
    "map_of (di_disconnectedSince d) y = None"
    using moved(6) D(10,12,13) by (auto simp: um_contains_def) (metis not_None_eq)+
  have ix: "map_of (di_participantPlayerIds d) x = Some i" using D(10) moved(4) by blast
  have undo: "um_modify i (\<lambda>_. x) (um_modify i (\<lambda>_. y) (di_playerSessions d)) = di_playerSessions d"
    using moved(4) D(6) by (auto simp: um_modify_def um_ok_def comp_def intro!: map_idI dest: eq_key_imp_eq_value)
  show ?thesis
    using moved(1,2,4,5) x sp ys ix p(1) undo
    by (auto simp: RollbackParticipantReconnect_def d1 rc move_participant_def RebindSession_def
        umap_simps fun_eq_iff upd_first_back um_contains_def)
qed

text \<open>A reconnect hands over the player's state unchanged, under the new session.\<close>

lemma Reconnect_keeps_player:
  assumes inv: "roster_inv d"
    and rec: "ReconnectParticipant i y now grace d = (Some rc, d1)"
  shows "(\<exists>p. map_of (di_players d) (rc_replacedSessionId rc) = Some p \<and>
       map_of (di_players d1) y = Some (p\<lparr>ps_sessionId := y\<rparr>)) \<and>
    \<not> um_contains (di_players d1) (rc_replacedSessionId rc) \<and>
    \<not> IsParticipantDisconnected d1 y \<and>
    length (di_participants d1) = length (di_participants d)"
  using inv
proof (cases rule: Reconnect_cases [where i = i and y = y and now = now and grace = grace])
  case (moved x t)
  obtain p where p: "map_of (di_players d) x = Some p"
    "move_participant i x y d = (True,
       d\<lparr>di_players := um_emplace y (p\<lparr>ps_sessionId := y\<rparr>) (um_erase x (di_players d)),
         di_participantPlayerIds := um_emplace y i (um_erase x (di_participantPlayerIds d)),
         di_playerSessions := um_modify i (\<lambda>_. y) (di_playerSessions d),
         di_participants := upd_first (\<lambda>z. z = x) (\<lambda>_. y) (di_participants d)\<rparr>)"
    using move_participant_eq [OF inv moved(4,2)] by blast
  have "x \<noteq> y" using p(1) moved(6) by (auto simp: um_contains_def)
  moreover have "\<not> um_contains (di_disconnectedSince d) y"
    using moved(6) roster_invD(13) [OF inv] by blast
  ultimately show ?thesis using rec moved(6,9) p
    by (auto simp: umap_simps IsParticipantDisconnected_def)
qed (use rec in simp)

end
