(* ===== verification/Dungeon_Manager.thy ===== *)
theory Dungeon_Manager
  imports Dungeon_Instance
begin

text \<open>
  The registry of running dungeons (\<open>src/include/DungeonManager.h\<close>, \<open>src/src/DungeonManager.cpp\<close>):
  the instances, the index from parties to instances, and the two maps between authenticated
  sessions and players. \<open>dm_inv\<close> says that the party index is exact, that the two session maps are
  inverse to each other and that every hosted instance satisfies its own invariants; so the
  \<open>dungeons_.at\<close> of \<open>FindDungeonByParty\<close> never throws.

  \<open>CreateDungeon\<close> reads \<open>stopping_\<close> twice, before and after it consults the party manager and the
  catalog; in a sequence of whole calls both reads agree, and the model has one.
\<close>

datatype CreateDungeonStatus = CreateDungeon_Success | CreateDungeon_PartyNotFound
  | DungeonTemplateNotFound | PartyAlreadyInDungeon | ServerStopping

datatype RegisterDungeonSessionStatus = Registered | Reconnected | InvalidIdentity

record RegisterDungeonSessionResult =
  rr_status :: RegisterDungeonSessionStatus
  rr_dungeonId :: DungeonId
  rr_replacedSessionId :: SessionId
  rr_disconnectedAt :: "int option"

definition invalid_registration :: RegisterDungeonSessionResult where
  "invalid_registration =
     \<lparr>rr_status = InvalidIdentity, rr_dungeonId = 0, rr_replacedSessionId = 0, rr_disconnectedAt = None\<rparr>"

record DungeonAbandonmentSweep =
  sw_removedParticipants :: "(DungeonId \<times> SessionId) list"
  sw_releasedDungeons :: "DungeonId list"

record DungeonManager =
  dm_nextDungeonId :: DungeonId
  dm_dungeons :: "(DungeonId, DungeonInstance) umap"
  dm_partyDungeons :: "(PartyId, DungeonId) umap"
  dm_authenticatedPlayers :: "(SessionId, PlayerId) umap"
  dm_activePlayerSessions :: "(PlayerId, SessionId) umap"
  dm_stopping :: bool

definition dm_init :: DungeonManager where
  "dm_init = \<lparr>dm_nextDungeonId = 1, dm_dungeons = [], dm_partyDungeons = [],
     dm_authenticatedPlayers = [], dm_activePlayerSessions = [], dm_stopping = False\<rparr>"

text \<open>The loop that binds the party members that are logged in.\<close>

fun bind_members :: "(SessionId, PlayerId) umap \<Rightarrow> SessionId list \<Rightarrow> DungeonInstance \<Rightarrow> DungeonInstance" where
  "bind_members auth [] d = d"
| "bind_members auth (x # xs) d =
     bind_members auth xs (case map_of auth x of
        None \<Rightarrow> d | Some playerId \<Rightarrow> snd (BindParticipantPlayer x playerId d))"

definition CreateDungeon ::
    "PartyManager \<Rightarrow> DungeonCatalog \<Rightarrow> PartyId \<Rightarrow> DungeonTemplateId \<Rightarrow> int \<Rightarrow> DungeonManager \<Rightarrow>
     (instance_error + CreateDungeonStatus \<times> DungeonInstance option) \<times> DungeonManager" where
  "CreateDungeon parties catalog partyId templateId now s =
     (if dm_stopping s then (Inr (ServerStopping, None), s)
      else case GetParty parties partyId of
        None \<Rightarrow> (Inr (CreateDungeon_PartyNotFound, None), s)
      | Some party \<Rightarrow>
          (case GetDungeon catalog templateId of
             None \<Rightarrow> (Inr (DungeonTemplateNotFound, None), s)
           | Some dungeonTemplate \<Rightarrow>
               if um_contains (dm_partyDungeons s) partyId then (Inr (PartyAlreadyInDungeon, None), s)
               else
                 let dungeonId = dm_nextDungeonId s;
                     s = s\<lparr>dm_nextDungeonId := dungeonId + 1\<rparr>
                 in case make_DungeonInstance dungeonId dungeonTemplate partyId (party_members party) now of
                      Inl e \<Rightarrow> (Inl e, s)
                    | Inr dungeon \<Rightarrow>
                        let dungeon = bind_members (dm_authenticatedPlayers s) (party_members party) dungeon
                        in (Inr (CreateDungeon_Success, Some dungeon),
                            s\<lparr>dm_dungeons := um_emplace dungeonId dungeon (dm_dungeons s),
                              dm_partyDungeons := um_emplace partyId dungeonId (dm_partyDungeons s)\<rparr>)))"

text \<open>The second loop of \<open>RegisterPlayerSession\<close>: the first unfinished dungeon that takes the player back.\<close>

fun try_reconnect ::
    "PlayerId \<Rightarrow> SessionId \<Rightarrow> int \<Rightarrow> int \<Rightarrow> (DungeonId \<times> DungeonInstance) list \<Rightarrow>
     (DungeonId \<times> DungeonParticipantReconnect) option \<times> (DungeonId \<times> DungeonInstance) list" where
  "try_reconnect playerId sessionId now grace [] = (None, [])"
| "try_reconnect playerId sessionId now grace ((i, d) # rest) =
     (if di_state d = Finished
      then let (r, rest') = try_reconnect playerId sessionId now grace rest in (r, (i, d) # rest')
      else case ReconnectParticipant playerId sessionId now grace d of
             (Some rc, d') \<Rightarrow> (Some (i, rc), (i, d') # rest)
           | (None, d') \<Rightarrow>
               let (r, rest') = try_reconnect playerId sessionId now grace rest in (r, (i, d') # rest'))"

text \<open>The two loops of \<open>RegisterPlayerSession\<close>, run once the identity is recorded.\<close>

definition register_in_dungeons ::
    "SessionId \<Rightarrow> PlayerId \<Rightarrow> int \<Rightarrow> int \<Rightarrow> DungeonManager \<Rightarrow>
     RegisterDungeonSessionResult \<times> DungeonManager" where
  "register_in_dungeons sessionId playerId now reconnectGrace s =
     (case find (\<lambda>e. HasParticipant (snd e) sessionId) (dm_dungeons s) of
        Some (dungeonId, dungeon) \<Rightarrow>
          (case BindParticipantPlayer sessionId playerId dungeon of
             (False, _) \<Rightarrow>
               (invalid_registration,
                s\<lparr>dm_authenticatedPlayers := um_erase sessionId (dm_authenticatedPlayers s),
                  dm_activePlayerSessions := um_erase playerId (dm_activePlayerSessions s)\<rparr>)
           | (True, dungeon') \<Rightarrow>
               (\<lparr>rr_status = Registered, rr_dungeonId = dungeonId, rr_replacedSessionId = 0,
                 rr_disconnectedAt = None\<rparr>,
                s\<lparr>dm_dungeons := um_modify dungeonId (\<lambda>_. dungeon') (dm_dungeons s)\<rparr>))
      | None \<Rightarrow>
          (case try_reconnect playerId sessionId now reconnectGrace (dm_dungeons s) of
             (Some (dungeonId, reconnect), dungeons') \<Rightarrow>
               (\<lparr>rr_status = Reconnected, rr_dungeonId = dungeonId,
                 rr_replacedSessionId = rc_replacedSessionId reconnect,
                 rr_disconnectedAt = Some (rc_disconnectedAt reconnect)\<rparr>,
                s\<lparr>dm_dungeons := dungeons',
                  dm_authenticatedPlayers :=
                    um_erase (rc_replacedSessionId reconnect) (dm_authenticatedPlayers s)\<rparr>)
           | (None, dungeons') \<Rightarrow>
               (\<lparr>rr_status = Registered, rr_dungeonId = 0, rr_replacedSessionId = 0,
                 rr_disconnectedAt = None\<rparr>, s\<lparr>dm_dungeons := dungeons'\<rparr>)))"

definition RegisterPlayerSession ::
    "SessionId \<Rightarrow> PlayerId \<Rightarrow> int \<Rightarrow> int \<Rightarrow> DungeonManager \<Rightarrow>
     RegisterDungeonSessionResult \<times> DungeonManager" where
  "RegisterPlayerSession sessionId playerId now reconnectGrace s =
     (if sessionId = 0 \<or> playerId = 0 \<or> reconnectGrace \<le> 0 then (invalid_registration, s)
      else if dm_stopping s then (invalid_registration, s)
      else if (case map_of (dm_authenticatedPlayers s) sessionId of None \<Rightarrow> False | Some p \<Rightarrow> p \<noteq> playerId)
      then (invalid_registration, s)
      else if (case map_of (dm_activePlayerSessions s) playerId of None \<Rightarrow> False | Some x \<Rightarrow> x \<noteq> sessionId)
      then (invalid_registration, s)
      else register_in_dungeons sessionId playerId now reconnectGrace
        (s\<lparr>dm_authenticatedPlayers := um_emplace sessionId playerId (dm_authenticatedPlayers s),
           dm_activePlayerSessions := um_emplace playerId sessionId (dm_activePlayerSessions s)\<rparr>))"

definition RollbackPlayerReconnect ::
    "DungeonId \<Rightarrow> PlayerId \<Rightarrow> SessionId \<Rightarrow> SessionId \<Rightarrow> int \<Rightarrow> DungeonManager \<Rightarrow> bool \<times> DungeonManager" where
  "RollbackPlayerReconnect dungeonId playerId newSessionId replacedSessionId disconnectedAt s =
     (case map_of (dm_dungeons s) dungeonId of
        None \<Rightarrow> (False, s)
      | Some dungeon \<Rightarrow>
          let (rolledBack, dungeon') = RollbackParticipantReconnect playerId newSessionId
                \<lparr>rc_replacedSessionId = replacedSessionId, rc_disconnectedAt = disconnectedAt\<rparr> dungeon;
              s = s\<lparr>dm_dungeons := um_modify dungeonId (\<lambda>_. dungeon') (dm_dungeons s)\<rparr> in
          if \<not> rolledBack then (False, s)
          else
            (True,
             s\<lparr>dm_authenticatedPlayers := um_erase newSessionId (dm_authenticatedPlayers s),
               dm_activePlayerSessions :=
                 (if map_of (dm_activePlayerSessions s) playerId = Some newSessionId
                  then um_erase playerId (dm_activePlayerSessions s)
                  else dm_activePlayerSessions s)\<rparr>))"

fun disconnect_first ::
    "SessionId \<Rightarrow> int \<Rightarrow> (DungeonId \<times> DungeonInstance) list \<Rightarrow>
     DungeonId option \<times> (DungeonId \<times> DungeonInstance) list" where
  "disconnect_first x t [] = (None, [])"
| "disconnect_first x t ((i, d) # rest) =
     (case DisconnectParticipant x t d of
        (True, d') \<Rightarrow> (Some i, (i, d') # rest)
      | (False, d') \<Rightarrow> let (r, rest') = disconnect_first x t rest in (r, (i, d') # rest'))"

definition DisconnectPlayerSession ::
    "SessionId \<Rightarrow> int \<Rightarrow> DungeonManager \<Rightarrow> DungeonId option \<times> DungeonManager" where
  "DisconnectPlayerSession sessionId disconnectedAt s =
     (if sessionId = 0 then (None, s)
      else
        let s = (case map_of (dm_authenticatedPlayers s) sessionId of
                   None \<Rightarrow> s
                 | Some playerId \<Rightarrow>
                     s\<lparr>dm_activePlayerSessions :=
                         (if map_of (dm_activePlayerSessions s) playerId = Some sessionId
                          then um_erase playerId (dm_activePlayerSessions s)
                          else dm_activePlayerSessions s),
                       dm_authenticatedPlayers := um_erase sessionId (dm_authenticatedPlayers s)\<rparr>);
            (r, dungeons') = disconnect_first sessionId disconnectedAt (dm_dungeons s)
        in (r, s\<lparr>dm_dungeons := dungeons'\<rparr>))"

text \<open>One step of the sweep, then the loop. The party index is passed along.\<close>

definition lifetime_expired :: "int \<Rightarrow> int \<Rightarrow> DungeonInstance \<Rightarrow> bool" where
  "lifetime_expired now maxDungeonLifetime d \<longleftrightarrow>
     di_createdAt d \<le> now \<and> ms maxDungeonLifetime \<le> now - di_createdAt d"

definition sweep_one :: "int \<Rightarrow> int \<Rightarrow> int \<Rightarrow> DungeonInstance \<Rightarrow> SessionId list \<times> DungeonInstance" where
  "sweep_one now reconnectGrace maxDungeonLifetime d =
     (if lifetime_expired now maxDungeonLifetime d then RemoveAllParticipants d
      else RemoveExpiredDisconnectedParticipants now reconnectGrace d)"

fun sweep_dungeons ::
    "int \<Rightarrow> int \<Rightarrow> int \<Rightarrow> (DungeonId \<times> DungeonInstance) list \<Rightarrow> (PartyId, DungeonId) umap \<Rightarrow>
     DungeonAbandonmentSweep \<times> (DungeonId \<times> DungeonInstance) list \<times> (PartyId, DungeonId) umap" where
  "sweep_dungeons now grace life [] parties =
     (\<lparr>sw_removedParticipants = [], sw_releasedDungeons = []\<rparr>, [], parties)"
| "sweep_dungeons now grace life ((i, d) # rest) parties =
     (let (removed, d') = sweep_one now grace life d in
      if \<not> lifetime_expired now life d \<and> di_participants d' \<noteq> []
      then let (sw, rest', parties') = sweep_dungeons now grace life rest parties in
        (sw\<lparr>sw_removedParticipants := map (\<lambda>x. (i, x)) removed @ sw_removedParticipants sw\<rparr>,
         (i, d') # rest', parties')
      else let (sw, rest', parties') = sweep_dungeons now grace life rest (um_erase (di_partyId d') parties) in
        (sw\<lparr>sw_removedParticipants := map (\<lambda>x. (i, x)) removed @ sw_removedParticipants sw,
            sw_releasedDungeons := i # sw_releasedDungeons sw\<rparr>,
         rest', parties'))"

definition SweepAbandonedParticipants ::
    "int \<Rightarrow> int \<Rightarrow> int \<Rightarrow> DungeonManager \<Rightarrow> DungeonAbandonmentSweep \<times> DungeonManager" where
  "SweepAbandonedParticipants now reconnectGrace maxDungeonLifetime s =
     (if reconnectGrace \<le> 0 \<or> maxDungeonLifetime \<le> 0
      then (\<lparr>sw_removedParticipants = [], sw_releasedDungeons = []\<rparr>, s)
      else
        let (sw, dungeons', parties') =
              sweep_dungeons now reconnectGrace maxDungeonLifetime (dm_dungeons s) (dm_partyDungeons s)
        in (sw, s\<lparr>dm_dungeons := dungeons', dm_partyDungeons := parties'\<rparr>))"

section \<open>Lookups and life cycle\<close>

definition FindDungeon :: "DungeonManager \<Rightarrow> DungeonId \<Rightarrow> DungeonInstance option" where
  "FindDungeon s dungeonId = map_of (dm_dungeons s) dungeonId"

text \<open>\<open>dungeons_.at\<close> throws when the identifier is missing.\<close>

datatype manager_error = DungeonOutOfRange

definition FindDungeonByParty ::
    "DungeonManager \<Rightarrow> PartyId \<Rightarrow> manager_error + DungeonInstance option" where
  "FindDungeonByParty s partyId =
     (case map_of (dm_partyDungeons s) partyId of
        None \<Rightarrow> Inr None
      | Some dungeonId \<Rightarrow>
          (case map_of (dm_dungeons s) dungeonId of
             None \<Rightarrow> Inl DungeonOutOfRange
           | Some d \<Rightarrow> Inr (Some d)))"

definition FindDungeonByParticipant :: "DungeonManager \<Rightarrow> SessionId \<Rightarrow> DungeonInstance option" where
  "FindDungeonByParticipant s sessionId =
     map_option snd (find (\<lambda>e. HasParticipant (snd e) sessionId) (dm_dungeons s))"

definition StartDungeon ::
    "EnemyCatalog \<Rightarrow> DungeonId \<Rightarrow> DungeonManager \<Rightarrow> instance_error + bool \<times> DungeonManager" where
  "StartDungeon cat dungeonId s =
     (case map_of (dm_dungeons s) dungeonId of
        None \<Rightarrow> Inr (False, s)
      | Some d \<Rightarrow>
          (case Start cat d of
             Inl e \<Rightarrow> Inl e
           | Inr (b, d') \<Rightarrow> Inr (b, s\<lparr>dm_dungeons := um_modify dungeonId (\<lambda>_. d') (dm_dungeons s)\<rparr>)))"

definition drop_dungeon :: "DungeonId \<Rightarrow> PartyId \<Rightarrow> DungeonManager \<Rightarrow> DungeonManager" where
  "drop_dungeon dungeonId partyId s =
     s\<lparr>dm_partyDungeons := um_erase partyId (dm_partyDungeons s),
       dm_dungeons := um_erase dungeonId (dm_dungeons s)\<rparr>"

definition CancelDungeon :: "DungeonId \<Rightarrow> DungeonManager \<Rightarrow> bool \<times> DungeonManager" where
  "CancelDungeon dungeonId s =
     (case map_of (dm_dungeons s) dungeonId of
        None \<Rightarrow> (False, s)
      | Some d \<Rightarrow>
          if di_state d \<noteq> Waiting then (False, s)
          else (True, drop_dungeon dungeonId (di_partyId d) s))"

definition FinishDungeon :: "DungeonId \<Rightarrow> DungeonManager \<Rightarrow> bool \<times> DungeonManager" where
  "FinishDungeon dungeonId s =
     (case map_of (dm_dungeons s) dungeonId of
        None \<Rightarrow> (False, s)
      | Some d \<Rightarrow>
          let (finished, d') = (if di_state d = Running then Finish d else (True, d));
              s = s\<lparr>dm_dungeons := um_modify dungeonId (\<lambda>_. d') (dm_dungeons s)\<rparr> in
          if \<not> finished then (False, s)
          else if di_state d' \<noteq> Finished then (False, s)
          else (True, drop_dungeon dungeonId (di_partyId d') s))"

definition dm_Stop :: "DungeonManager \<Rightarrow> DungeonManager" where
  "dm_Stop s =
     (if dm_stopping s then s
      else s\<lparr>dm_stopping := True, dm_partyDungeons := [], dm_authenticatedPlayers := [],
             dm_activePlayerSessions := [], dm_dungeons := []\<rparr>)"

definition dungeon_ids_in :: "DungeonState \<Rightarrow> DungeonManager \<Rightarrow> DungeonId list" where
  "dungeon_ids_in st s = map fst (filter (\<lambda>e. di_state (snd e) = st) (dm_dungeons s))"

definition WaitingDungeonIds :: "DungeonManager \<Rightarrow> DungeonId list" where
  "WaitingDungeonIds = dungeon_ids_in Waiting"

definition RunningDungeonIds :: "DungeonManager \<Rightarrow> DungeonId list" where
  "RunningDungeonIds = dungeon_ids_in Running"

definition FinishedDungeonIds :: "DungeonManager \<Rightarrow> DungeonId list" where
  "FinishedDungeonIds = dungeon_ids_in Finished"

definition ActiveDungeonCount :: "DungeonManager \<Rightarrow> nat" where
  "ActiveDungeonCount s = length (dm_dungeons s)"

section \<open>The manager invariant\<close>

definition hosted :: "EnemyCatalog \<Rightarrow> DungeonId \<Rightarrow> DungeonInstance \<Rightarrow> bool" where
  "hosted cat i d \<longleftrightarrow>
     di_dungeonId d = i \<and> roster_inv d \<and> stage_inv cat d \<and> di_participants d \<noteq> []"

definition index_inv ::
    "DungeonId \<Rightarrow> (DungeonId, DungeonInstance) umap \<Rightarrow> (PartyId, DungeonId) umap \<Rightarrow> bool" where
  "index_inv next dungeons parties \<longleftrightarrow>
     um_ok dungeons \<and> um_ok parties \<and>
     (\<forall>i d. map_of dungeons i = Some d \<longrightarrow> 0 < i \<and> i < next \<and> map_of parties (di_partyId d) = Some i) \<and>
     (\<forall>p i. map_of parties p = Some i \<longrightarrow> (\<exists>d. map_of dungeons i = Some d \<and> di_partyId d = p))"

definition login_inv :: "(SessionId, PlayerId) umap \<Rightarrow> (PlayerId, SessionId) umap \<Rightarrow> bool" where
  "login_inv auth active \<longleftrightarrow>
     um_ok auth \<and> um_ok active \<and> (\<forall>x p. map_of auth x = Some p \<longrightarrow> map_of active p = Some x)"

definition dm_inv :: "EnemyCatalog \<Rightarrow> DungeonManager \<Rightarrow> bool" where
  "dm_inv cat s \<longleftrightarrow>
     0 < dm_nextDungeonId s \<and>
     index_inv (dm_nextDungeonId s) (dm_dungeons s) (dm_partyDungeons s) \<and>
     login_inv (dm_authenticatedPlayers s) (dm_activePlayerSessions s) \<and>
     (\<forall>i d. map_of (dm_dungeons s) i = Some d \<longrightarrow> hosted cat i d)"

lemma dm_inv_init: "dm_inv cat dm_init"
  by (simp add: dm_inv_def dm_init_def index_inv_def login_inv_def)

lemma index_inv_update:
  assumes "index_inv n ds ps" "map_of ds i = Some d" "di_partyId d' = di_partyId d"
  shows "index_inv n (um_modify i (\<lambda>_. d') ds) ps"
proof -
  have "\<exists>e. map_of (um_modify i (\<lambda>_. d') ds) j = Some e \<and> di_partyId e = p"
    if j: "map_of ps p = Some j" for p j
  proof -
    obtain e where "map_of ds j = Some e" "di_partyId e = p"
      using assms(1) j unfolding index_inv_def by blast
    with assms(2,3) show ?thesis by (cases "j = i") (auto simp: umap_simps)
  qed
  with assms show ?thesis by (auto simp: index_inv_def umap_simps split: if_splits)
qed

lemma dm_inv_update:
  assumes "dm_inv cat s" "map_of (dm_dungeons s) i = Some d" "di_partyId d' = di_partyId d" "hosted cat i d'"
  shows "dm_inv cat (s\<lparr>dm_dungeons := um_modify i (\<lambda>_. d') (dm_dungeons s)\<rparr>)"
  using assms index_inv_update [of "dm_nextDungeonId s" "dm_dungeons s" "dm_partyDungeons s" i d d']
  by (auto simp: dm_inv_def umap_simps)

lemma index_inv_drop:
  assumes "index_inv n ds ps" "map_of ds i = Some d"
  shows "index_inv n (um_erase i ds) (um_erase (di_partyId d) ps)"
proof -
  have inj: "j = i" if "map_of ds j = Some e" "di_partyId e = di_partyId d" for j e
    using assms that unfolding index_inv_def by (metis option.inject)
  have "\<exists>e. map_of (um_erase i ds) j = Some e \<and> di_partyId e = p"
    if j: "map_of (um_erase (di_partyId d) ps) p = Some j" for p j
  proof -
    from j have "map_of ps p = Some j" "p \<noteq> di_partyId d" by (auto simp: umap_simps split: if_splits)
    with assms(1) obtain e where "map_of ds j = Some e" "di_partyId e = p"
      unfolding index_inv_def by blast
    with assms(2) \<open>p \<noteq> di_partyId d\<close> show ?thesis by (auto simp: umap_simps)
  qed
  with assms(1) inj show ?thesis by (auto simp: index_inv_def umap_simps)
qed

lemma dm_inv_drop:
  assumes "dm_inv cat s" "map_of (dm_dungeons s) i = Some d"
  shows "dm_inv cat (drop_dungeon i (di_partyId d) s)"
  using assms index_inv_drop [of "dm_nextDungeonId s" "dm_dungeons s" "dm_partyDungeons s" i d]
  by (auto simp: dm_inv_def drop_dungeon_def umap_simps)

lemma dm_invD:
  assumes "dm_inv cat s"
  shows "um_ok (dm_dungeons s)" "um_ok (dm_partyDungeons s)"
    "map_of (dm_dungeons s) i = Some d \<Longrightarrow> hosted cat i d"
    "map_of (dm_dungeons s) i = Some d \<Longrightarrow> map_of (dm_partyDungeons s) (di_partyId d) = Some i"
    "map_of (dm_dungeons s) i = Some d \<Longrightarrow> 0 < i \<and> i < dm_nextDungeonId s"
    "map_of (dm_partyDungeons s) p = Some i \<Longrightarrow> \<exists>d. map_of (dm_dungeons s) i = Some d \<and> di_partyId d = p"
    "map_of (dm_authenticatedPlayers s) x = Some q \<Longrightarrow> map_of (dm_activePlayerSessions s) q = Some x"
    "login_inv (dm_authenticatedPlayers s) (dm_activePlayerSessions s)"
  using assms unfolding dm_inv_def index_inv_def login_inv_def by blast+

lemma Bind_fields [simp]:
  "di_partyId (snd (BindParticipantPlayer x p d)) = di_partyId d"
  "di_dungeonId (snd (BindParticipantPlayer x p d)) = di_dungeonId d"
  "di_participants (snd (BindParticipantPlayer x p d)) = di_participants d"
  by (auto simp: BindParticipantPlayer_def split: option.splits)

lemma hosted_Bind: "hosted cat i d \<Longrightarrow> hosted cat i (snd (BindParticipantPlayer x p d))"
  by (simp add: hosted_def roster_inv_Bind stage_inv_Bind)

lemma bind_members_hosted:
  "hosted cat i d \<Longrightarrow> hosted cat i (bind_members auth xs d) \<and>
     di_partyId (bind_members auth xs d) = di_partyId d"
  by (induction auth xs d rule: bind_members.induct) (auto simp: hosted_Bind split: option.splits)

lemma CreateDungeon_cases:
  assumes inv: "dm_inv cat s" and cinv: "catalog_inv cat catalog" and pinv: "pm_inv parties"
    and members: "\<forall>p m. GetParty parties p = Some m \<longrightarrow> 0 \<notin> set (party_members m)"
    and room: "unat (dm_nextDungeonId s) < 2 ^ 64 - 1"
  obtains (refused) st where "CreateDungeon parties catalog pid tid now s = (Inr (st, None), s)"
      "st \<noteq> CreateDungeon_Success"
  | (created) d party where "CreateDungeon parties catalog pid tid now s =
       (Inr (CreateDungeon_Success, Some d),
        s\<lparr>dm_nextDungeonId := dm_nextDungeonId s + 1,
          dm_dungeons := um_emplace (dm_nextDungeonId s) d (dm_dungeons s),
          dm_partyDungeons := um_emplace pid (dm_nextDungeonId s) (dm_partyDungeons s)\<rparr>)"
      "GetParty parties pid = Some party" "hosted cat (dm_nextDungeonId s) d" "di_partyId d = pid"
      "\<not> um_contains (dm_partyDungeons s) pid" "\<not> dm_stopping s"
proof (cases "\<not> dm_stopping s \<and> GetParty parties pid \<noteq> None \<and> GetDungeon catalog tid \<noteq> None \<and>
    \<not> um_contains (dm_partyDungeons s) pid")
  case False
  then have "\<exists>st. CreateDungeon parties catalog pid tid now s = (Inr (st, None), s) \<and> st \<noteq> CreateDungeon_Success"
    by (auto simp: CreateDungeon_def split: option.splits)
  then show thesis using refused by blast
next
  case True
  then obtain party t where pt: "GetParty parties pid = Some party" "GetDungeon catalog tid = Some t" by auto
  have po: "party_ok pid party" "pid \<noteq> 0"
    using pm_inv_party [OF pinv, of pid party] pt(1) by (auto simp: GetParty_def)
  have ct: "dt_id t \<noteq> 0" "rooms_valid cat (dt_rooms t)"
    using cinv pt(2) unfolding catalog_inv_def GetDungeon_def by auto
  have n: "dm_nextDungeonId s \<noteq> 0" using inv by (auto simp: dm_inv_def)
  obtain d where d: "make_DungeonInstance (dm_nextDungeonId s) t pid (party_members party) now = Inr d"
    "roster_inv d" "stage_inv cat d" "di_dungeonId d = dm_nextDungeonId s" "di_partyId d = pid"
    "di_participants d = party_members party"
    using make_DungeonInstance_ok [OF n ct(1) po(2) ct(2), of "party_members party" now]
      po(1) party_ok_nonempty [OF po(1)] members pt(1) by (auto simp: party_ok_def)
  then have h: "hosted cat (dm_nextDungeonId s) d"
    using party_ok_nonempty [OF po(1)] by (simp add: hosted_def)
  show thesis
    using True pt d(1,5) bind_members_hosted [OF h, of "dm_authenticatedPlayers s" "party_members party"]
    by (intro created [where d = "bind_members (dm_authenticatedPlayers s) (party_members party) d"])
       (auto simp: CreateDungeon_def Let_def)
qed

lemma dm_inv_CreateDungeon:
  assumes inv: "dm_inv cat s" and cinv: "catalog_inv cat catalog" and pinv: "pm_inv parties"
    and members: "\<forall>p m. GetParty parties p = Some m \<longrightarrow> 0 \<notin> set (party_members m)"
    and room: "unat (dm_nextDungeonId s) < 2 ^ 64 - 1"
  shows "dm_inv cat (snd (CreateDungeon parties catalog pid tid now s))"
  using assms
proof (cases rule: CreateDungeon_cases [where pid = pid and tid = tid and now = now])
  case (refused st)
  with inv show ?thesis by simp
next
  case (created d party)
  note D = dm_invD [OF inv]
  let ?n = "dm_nextDungeonId s"
  from room have "unat ?n < 2 ^ LENGTH(64) - 1" by simp
  note counter = word_counter [OF this]
  have fresh: "map_of (dm_dungeons s) ?n = None"
    using D(5) [of ?n] by (cases "map_of (dm_dungeons s) ?n") auto
  define t where "t = snd (CreateDungeon parties catalog pid tid now s)"
  have t: "map_of (dm_dungeons t) i = (if i = ?n then Some d else map_of (dm_dungeons s) i)"
    "map_of (dm_partyDungeons t) p = (if p = pid then Some ?n else map_of (dm_partyDungeons s) p)"
    "um_ok (dm_dungeons t)" "um_ok (dm_partyDungeons t)" "dm_nextDungeonId t = ?n + 1"
    "dm_authenticatedPlayers t = dm_authenticatedPlayers s"
    "dm_activePlayerSessions t = dm_activePlayerSessions s" for i p
    using D(1,2) fresh created(1,5) by (auto simp: t_def umap_simps um_contains_def)
  have npid: "map_of (dm_partyDungeons s) pid = None" using created(5) by (simp add: um_contains_def)
  have "\<exists>e. map_of (dm_dungeons t) i = Some e \<and> di_partyId e = p"
    if pi: "map_of (dm_partyDungeons t) p = Some i" for p i
    using pi D(6) [of p i] fresh created(4) by (auto simp: t(1,2) split: if_splits)
  moreover have "0 < i \<and> i < ?n + 1 \<and> map_of (dm_partyDungeons t) (di_partyId e) = Some i"
    if "map_of (dm_dungeons t) i = Some e" for i e
    using that D(4,5) [of i e] created(4) counter npid dm_inv_def [of cat s] inv
    by (auto simp: t(1,2) split: if_splits)
  ultimately have "index_inv (?n + 1) (dm_dungeons t) (dm_partyDungeons t)"
    using t(3,4) by (simp add: index_inv_def)
  moreover have "hosted cat i e" if "map_of (dm_dungeons t) i = Some e" for i e
    using that D(3) created(3) by (auto simp: t(1) split: if_splits)
  ultimately show ?thesis
    unfolding t_def [symmetric] dm_inv_def using D(8) counter(3) by (simp add: t(5-7))
qed

text \<open>The loops touch one dungeon at most.\<close>

lemma um_modify_Cons:
  "um_modify i f ((j, d) # m) = (if j = i then (j, f d) # um_modify i f m else (j, d) # um_modify i f m)"
  by (simp add: um_modify_def)

lemma um_ok_Cons: "um_ok ((i, d) # m) \<longleftrightarrow> \<not> um_contains m i \<and> um_ok m"
  by (auto simp: um_ok_def um_contains_iff_dom)

lemma try_reconnect_cases:
  assumes "um_ok ds" "\<forall>e \<in> set ds. roster_inv (snd e)"
  shows "(try_reconnect p x now g ds = (None, ds)) \<or>
    (\<exists>i d rc d'. map_of ds i = Some d \<and> di_state d \<noteq> Finished \<and>
       ReconnectParticipant p x now g d = (Some rc, d') \<and>
       try_reconnect p x now g ds = (Some (i, rc), um_modify i (\<lambda>_. d') ds))"
  using assms
proof (induction ds)
  case (Cons e ds)
  obtain i d where e: "e = (i, d)" by fastforce
  have ok: "um_ok ds" "\<not> um_contains ds i" "\<forall>e \<in> set ds. roster_inv (snd e)" "roster_inv d"
    using Cons.prems by (auto simp: e um_ok_Cons)
  have skip: "ReconnectParticipant p x now g d = (None, d) \<or>
      (\<exists>rc d'. ReconnectParticipant p x now g d = (Some rc, d'))"
    using ok(4) by (cases rule: Reconnect_cases [where i = p and y = x and now = now and grace = g]) auto
  have other: "map_of ds j = Some f \<Longrightarrow> j \<noteq> i" for j f using ok(2) by (auto simp: um_contains_def)
  have here: ?case if "di_state d \<noteq> Finished" "ReconnectParticipant p x now g d = (Some rc, d')" for rc d'
    using that ok(2) by (intro disjI2 exI [of _ i] exI [of _ d] exI [of _ rc] exI [of _ d'])
      (simp add: e um_modify_Cons um_modify_absent)
  have later: ?case if "di_state d = Finished \<or> ReconnectParticipant p x now g d = (None, d)"
  proof -
    have step: "try_reconnect p x now g (e # ds) =
        (fst (try_reconnect p x now g ds), (i, d) # snd (try_reconnect p x now g ds))"
      using that by (auto simp: e split: prod.splits)
    from Cons.IH [OF ok(1,3)] show ?thesis
    proof (elim disjE exE conjE)
      fix j f rc d'
      assume "map_of ds j = Some f" "di_state f \<noteq> Finished"
        "ReconnectParticipant p x now g f = (Some rc, d')"
        "try_reconnect p x now g ds = (Some (j, rc), um_modify j (\<lambda>_. d') ds)"
      with other show ?thesis unfolding step
        by (intro disjI2 exI [of _ j] exI [of _ f] exI [of _ rc] exI [of _ d']) (auto simp: e um_modify_Cons)
    qed (unfold step, simp add: e)
  qed
  from skip here later show ?case by blast
qed simp

lemma disconnect_first_cases:
  assumes "um_ok ds"
  shows "(disconnect_first x t ds = (None, ds) \<and> (\<forall>e \<in> set ds. \<not> HasParticipant (snd e) x)) \<or>
    (\<exists>i d. map_of ds i = Some d \<and> HasParticipant d x \<and>
       disconnect_first x t ds = (Some i, um_modify i (\<lambda>_. snd (DisconnectParticipant x t d)) ds))"
  using assms
proof (induction ds)
  case (Cons e ds)
  obtain i d where e: "e = (i, d)" by fastforce
  have ok: "um_ok ds" "\<not> um_contains ds i" using Cons.prems by (auto simp: e um_ok_Cons)
  have other: "map_of ds j = Some f \<Longrightarrow> j \<noteq> i" for j f using ok(2) by (auto simp: um_contains_def)
  show ?case
  proof (cases "HasParticipant d x")
    case True
    then show ?thesis using ok(2)
      by (intro disjI2 exI [of _ i] exI [of _ d])
         (simp add: e um_modify_Cons um_modify_absent DisconnectParticipant_def HasParticipant_def)
  next
    case False
    then have step: "disconnect_first x t (e # ds) =
        (fst (disconnect_first x t ds), (i, d) # snd (disconnect_first x t ds))"
      by (auto simp: e DisconnectParticipant_def HasParticipant_def split: prod.splits)
    from Cons.IH [OF ok(1)] show ?thesis
    proof (elim disjE exE conjE)
      fix j f
      assume "map_of ds j = Some f" "HasParticipant f x"
        "disconnect_first x t ds = (Some j, um_modify j (\<lambda>_. snd (DisconnectParticipant x t f)) ds)"
      with other show ?thesis unfolding step
        by (intro disjI2 exI [of _ j] exI [of _ f]) (auto simp: e um_modify_Cons)
    qed (unfold step, use False in \<open>simp add: e\<close>)
  qed
qed simp

section \<open>Sessions\<close>

lemma login_inv_emplace:
  assumes "login_inv auth active" "map_of auth x \<in> {None, Some p}" "map_of active p \<in> {None, Some x}"
  shows "login_inv (um_emplace x p auth) (um_emplace p x active)"
proof -
  have "map_of (um_emplace p x active) q = Some z" if "map_of (um_emplace x p auth) z = Some q" for z q
  proof (cases "map_of auth z = Some q")
    case True
    with assms(1) have "map_of active q = Some z" by (simp add: login_inv_def)
    with assms(3) show ?thesis by (auto simp: umap_simps um_contains_def)
  next
    case False
    with that have "z = x" "q = p" by (auto simp: umap_simps split: if_splits)
    with assms(3) show ?thesis by (auto simp: umap_simps um_contains_def)
  qed
  with assms(1) show ?thesis by (simp add: login_inv_def)
qed

lemma login_inv_erase_auth: "login_inv auth active \<Longrightarrow> login_inv (um_erase x auth) active"
  by (auto simp: login_inv_def umap_simps)

lemma login_inv_logout:
  assumes "login_inv auth active" "map_of active p = Some x"
  shows "login_inv (um_erase x auth) (um_erase p active)"
proof -
  have "map_of active q = Some z" if "map_of auth z = Some q" for z q
    using assms(1) that by (simp add: login_inv_def)
  with assms show ?thesis by (fastforce simp: login_inv_def umap_simps)
qed

lemma dm_inv_login:
  assumes "dm_inv cat s" "login_inv auth active"
  shows "dm_inv cat (s\<lparr>dm_authenticatedPlayers := auth, dm_activePlayerSessions := active\<rparr>)"
  using assms by (simp add: dm_inv_def)

lemma Reconnect_fields:
  "di_partyId (snd (ReconnectParticipant p x now g d)) = di_partyId d"
  "di_dungeonId (snd (ReconnectParticipant p x now g d)) = di_dungeonId d"
  by (auto simp: ReconnectParticipant_def move_participant_def Let_def split: option.splits prod.splits)

lemma hosted_Reconnect:
  assumes "hosted cat i d" "ReconnectParticipant p x now g d = (Some rc, d')"
  shows "hosted cat i d'"
proof -
  have inv: "roster_inv d" "stage_inv cat d" using assms(1) by (auto simp: hosted_def)
  have "length (di_participants d') = length (di_participants d)"
    using Reconnect_keeps_player [OF inv(1) assms(2)] by simp
  then show ?thesis
    using assms roster_inv_Reconnect [OF inv(1), of p x now g] stage_inv_Reconnect [OF inv(2,1), of p x now g]
      Reconnect_fields [of p x now g d] by (auto simp: hosted_def)
qed

lemma Disconnect_fields [simp]:
  "di_partyId (snd (DisconnectParticipant x t d)) = di_partyId d"
  "di_dungeonId (snd (DisconnectParticipant x t d)) = di_dungeonId d"
  "di_participants (snd (DisconnectParticipant x t d)) = di_participants d"
  by (auto simp: DisconnectParticipant_def)

lemma hosted_Disconnect: "hosted cat i d \<Longrightarrow> hosted cat i (snd (DisconnectParticipant x t d))"
  by (simp add: hosted_def roster_inv_Disconnect stage_inv_Disconnect)

lemma find_dungeon:
  assumes "um_ok ds" "find (\<lambda>e. P (snd e)) ds = Some (i, d)"
  shows "map_of ds i = Some d \<and> P d"
  using find_Some_in [OF assms(2)] assms(1) by (auto simp: um_find_iff_set)

lemma dm_roster: "dm_inv cat s \<Longrightarrow> \<forall>e \<in> set (dm_dungeons s). roster_inv (snd e)"
  using dm_invD(1,3) [of cat s] by (auto simp: um_find_iff_set hosted_def)

definition reconnect_result :: "DungeonId \<Rightarrow> DungeonParticipantReconnect \<Rightarrow> RegisterDungeonSessionResult" where
  "reconnect_result i rc =
     \<lparr>rr_status = Reconnected, rr_dungeonId = i, rr_replacedSessionId = rc_replacedSessionId rc,
      rr_disconnectedAt = Some (rc_disconnectedAt rc)\<rparr>"

lemma register_found:
  assumes inv: "dm_inv cat s" and act: "map_of (dm_activePlayerSessions s) p = Some x"
    and found: "find (\<lambda>e. HasParticipant (snd e) x) (dm_dungeons s) = Some (i, d)"
  shows "dm_inv cat (snd (register_in_dungeons x p now g s)) \<and>
    rr_status (fst (register_in_dungeons x p now g s)) \<noteq> Reconnected"
proof -
  have d: "map_of (dm_dungeons s) i = Some d" using find_dungeon [OF dm_invD(1) [OF inv] found] by simp
  obtain b d' where b: "BindParticipantPlayer x p d = (b, d')" by fastforce
  show ?thesis
  proof (cases b)
    case True
    have "dm_inv cat (s\<lparr>dm_dungeons := um_modify i (\<lambda>_. d') (dm_dungeons s)\<rparr>)"
      using dm_inv_update [OF inv d, of d'] hosted_Bind [OF dm_invD(3) [OF inv d], of x p] b
        Bind_fields(1) [of x p d] by simp
    with True found b show ?thesis by (simp add: register_in_dungeons_def)
  next
    case False
    with inv found b act dm_invD(8) [OF inv] show ?thesis
      by (auto simp: register_in_dungeons_def invalid_registration_def intro!: dm_inv_login login_inv_logout)
  qed
qed

lemma register_not_found:
  assumes inv: "dm_inv cat s"
    and none: "find (\<lambda>e. HasParticipant (snd e) x) (dm_dungeons s) = None"
  shows "dm_inv cat (snd (register_in_dungeons x p now g s)) \<and>
    (rr_status (fst (register_in_dungeons x p now g s)) \<noteq> Reconnected \<or>
     (\<exists>i d rc d'. fst (register_in_dungeons x p now g s) = reconnect_result i rc \<and>
        map_of (dm_dungeons s) i = Some d \<and> di_state d \<noteq> Finished \<and>
        ReconnectParticipant p x now g d = (Some rc, d') \<and>
        dm_dungeons (snd (register_in_dungeons x p now g s)) = um_modify i (\<lambda>_. d') (dm_dungeons s)))"
proof -
  consider (no) "try_reconnect p x now g (dm_dungeons s) = (None, dm_dungeons s)"
    | (yes) i d rc d' where "map_of (dm_dungeons s) i = Some d" "di_state d \<noteq> Finished"
      "ReconnectParticipant p x now g d = (Some rc, d')"
      "try_reconnect p x now g (dm_dungeons s) = (Some (i, rc), um_modify i (\<lambda>_. d') (dm_dungeons s))"
    using try_reconnect_cases [OF dm_invD(1) [OF inv] dm_roster [OF inv], of p x now g] by blast
  then show ?thesis
  proof cases
    case no
    with inv none show ?thesis by (simp add: register_in_dungeons_def)
  next
    case (yes i d rc d')
    let ?t = "s\<lparr>dm_dungeons := um_modify i (\<lambda>_. d') (dm_dungeons s)\<rparr>"
    have "dm_inv cat ?t"
      using dm_inv_update [OF inv yes(1)] hosted_Reconnect [OF dm_invD(3) [OF inv yes(1)] yes(3)]
        Reconnect_fields(1) [of p x now g d] yes(3) by simp
    from dm_inv_login [OF this login_inv_erase_auth [OF dm_invD(8) [OF this]]] yes none
    show ?thesis by (auto simp: register_in_dungeons_def reconnect_result_def)
  qed
qed

lemma RegisterPlayerSession_guard:
  "RegisterPlayerSession x p now g s = (invalid_registration, s) \<or>
   map_of (dm_authenticatedPlayers s) x \<in> {None, Some p} \<and>
   map_of (dm_activePlayerSessions s) p \<in> {None, Some x} \<and>
   RegisterPlayerSession x p now g s = register_in_dungeons x p now g
     (s\<lparr>dm_authenticatedPlayers := um_emplace x p (dm_authenticatedPlayers s),
        dm_activePlayerSessions := um_emplace p x (dm_activePlayerSessions s)\<rparr>)"
  unfolding RegisterPlayerSession_def by (auto split: option.splits)

lemma RegisterPlayerSession_cases:
  assumes inv: "dm_inv cat s"
  shows "dm_inv cat (snd (RegisterPlayerSession x p now g s))"
    and "rr_status (fst (RegisterPlayerSession x p now g s)) = Reconnected \<Longrightarrow>
      \<exists>i d rc d'. fst (RegisterPlayerSession x p now g s) = reconnect_result i rc \<and>
        map_of (dm_dungeons s) i = Some d \<and> di_state d \<noteq> Finished \<and>
        ReconnectParticipant p x now g d = (Some rc, d') \<and>
        dm_dungeons (snd (RegisterPlayerSession x p now g s)) = um_modify i (\<lambda>_. d') (dm_dungeons s)"
proof -
  define t where "t = s\<lparr>dm_authenticatedPlayers := um_emplace x p (dm_authenticatedPlayers s),
                  dm_activePlayerSessions := um_emplace p x (dm_activePlayerSessions s)\<rparr>"
  note guard = RegisterPlayerSession_guard [of x p now g s, folded t_def]
  have t: "dm_inv cat t" "map_of (dm_activePlayerSessions t) p = Some x" "dm_dungeons t = dm_dungeons s"
    if "map_of (dm_authenticatedPlayers s) x \<in> {None, Some p}"
      "map_of (dm_activePlayerSessions s) p \<in> {None, Some x}"
    using dm_inv_login [OF inv login_inv_emplace [OF dm_invD(8) [OF inv] that]] that
    by (auto simp: t_def umap_simps um_contains_def)
  have all: "dm_inv cat (snd (RegisterPlayerSession x p now g s)) \<and>
    (rr_status (fst (RegisterPlayerSession x p now g s)) \<noteq> Reconnected \<or>
     (\<exists>i d rc d'. fst (RegisterPlayerSession x p now g s) = reconnect_result i rc \<and>
        map_of (dm_dungeons s) i = Some d \<and> di_state d \<noteq> Finished \<and>
        ReconnectParticipant p x now g d = (Some rc, d') \<and>
        dm_dungeons (snd (RegisterPlayerSession x p now g s)) = um_modify i (\<lambda>_. d') (dm_dungeons s)))"
    using guard
  proof (elim disjE conjE)
    assume "RegisterPlayerSession x p now g s = (invalid_registration, s)"
    with inv show ?thesis by (simp add: invalid_registration_def)
  next
    assume 2: "map_of (dm_authenticatedPlayers s) x \<in> {None, Some p}"
      "map_of (dm_activePlayerSessions s) p \<in> {None, Some x}"
      "RegisterPlayerSession x p now g s = register_in_dungeons x p now g t"
    note T = t [OF 2(1,2)]
    show ?thesis
      using register_found [OF T(1,2), of _ _ now g] register_not_found [OF T(1), of x p now g] T(3) 2(3)
      by (cases "find (\<lambda>e. HasParticipant (snd e) x) (dm_dungeons t)") auto
  qed
  show "dm_inv cat (snd (RegisterPlayerSession x p now g s))" using all by blast
  show "\<exists>i d rc d'. fst (RegisterPlayerSession x p now g s) = reconnect_result i rc \<and>
        map_of (dm_dungeons s) i = Some d \<and> di_state d \<noteq> Finished \<and>
        ReconnectParticipant p x now g d = (Some rc, d') \<and>
        dm_dungeons (snd (RegisterPlayerSession x p now g s)) = um_modify i (\<lambda>_. d') (dm_dungeons s)"
    if "rr_status (fst (RegisterPlayerSession x p now g s)) = Reconnected"
    using all that by blast
qed

lemma Rollback_fields:
  "di_partyId (snd (RollbackParticipantReconnect p y rc d)) = di_partyId d"
  "di_dungeonId (snd (RollbackParticipantReconnect p y rc d)) = di_dungeonId d"
  "length (di_participants (snd (RollbackParticipantReconnect p y rc d))) = length (di_participants d)"
  by (auto simp: RollbackParticipantReconnect_def move_participant_def Let_def
      split: option.splits prod.splits)

lemma dm_inv_Rollback:
  assumes inv: "dm_inv cat s"
    and fresh: "\<And>d. map_of (dm_dungeons s) i = Some d \<Longrightarrow> \<not> IsParticipantDisconnected d y"
  shows "dm_inv cat (snd (RollbackPlayerReconnect i p y x t s))"
proof (cases "map_of (dm_dungeons s) i")
  case None
  with inv show ?thesis by (simp add: RollbackPlayerReconnect_def)
next
  case (Some d)
  let ?rc = "\<lparr>rc_replacedSessionId = x, rc_disconnectedAt = t\<rparr>"
  obtain b d' where b: "RollbackParticipantReconnect p y ?rc d = (b, d')" by fastforce
  have h: "hosted cat i d" using dm_invD(3) [OF inv Some] .
  have "hosted cat i d'"
    using h b fresh [OF Some] roster_inv_Rollback [of d y p ?rc] stage_inv_Rollback [of cat d p y ?rc]
      Rollback_fields(2,3) [of p y ?rc d]
    by (auto simp: hosted_def IsParticipantDisconnected_def)
  then have u: "dm_inv cat (s\<lparr>dm_dungeons := um_modify i (\<lambda>_. d') (dm_dungeons s)\<rparr>)" (is "dm_inv cat ?u")
    using dm_inv_update [OF inv Some, of d'] b Rollback_fields(1) [of p y ?rc d] by simp
  show ?thesis
    using Some b u dm_inv_login [OF u login_inv_erase_auth [OF dm_invD(8) [OF u]]]
      dm_inv_login [OF u login_inv_logout [OF dm_invD(8) [OF u]]]
    by (auto simp: RollbackPlayerReconnect_def Let_def)
qed

lemma dm_inv_Disconnect:
  assumes inv: "dm_inv cat s"
  shows "dm_inv cat (snd (DisconnectPlayerSession x t s))"
proof (cases "x = 0")
  case False
  define u where "u = (case map_of (dm_authenticatedPlayers s) x of
                   None \<Rightarrow> s
                 | Some p \<Rightarrow>
                     s\<lparr>dm_activePlayerSessions :=
                         (if map_of (dm_activePlayerSessions s) p = Some x
                          then um_erase p (dm_activePlayerSessions s) else dm_activePlayerSessions s),
                       dm_authenticatedPlayers := um_erase x (dm_authenticatedPlayers s)\<rparr>)"
  have u: "dm_inv cat u"
  proof (cases "map_of (dm_authenticatedPlayers s) x")
    case None
    with inv show ?thesis by (simp add: u_def)
  next
    case (Some p)
    then have "map_of (dm_activePlayerSessions s) p = Some x" by (rule dm_invD(7) [OF inv])
    with login_inv_logout [OF dm_invD(8) [OF inv] this] inv Some show ?thesis
      by (simp add: u_def dm_inv_def)
  qed
  have eq: "snd (DisconnectPlayerSession x t s) = u\<lparr>dm_dungeons := snd (disconnect_first x t (dm_dungeons u))\<rparr>"
    using False by (simp add: DisconnectPlayerSession_def u_def Let_def split: prod.splits)
  from disconnect_first_cases [OF dm_invD(1) [OF u], of x t] show ?thesis
  proof (elim disjE exE conjE)
    fix i d
    assume d: "map_of (dm_dungeons u) i = Some d"
      "disconnect_first x t (dm_dungeons u) =
        (Some i, um_modify i (\<lambda>_. snd (DisconnectParticipant x t d)) (dm_dungeons u))"
    with dm_inv_update [OF u d(1), of "snd (DisconnectParticipant x t d)"]
      hosted_Disconnect [OF dm_invD(3) [OF u d(1)]] show ?thesis by (simp add: eq)
  qed (use u in \<open>simp add: eq\<close>)
qed (use inv in \<open>simp add: DisconnectPlayerSession_def\<close>)

section \<open>The sweep\<close>

definition survives :: "int \<Rightarrow> int \<Rightarrow> int \<Rightarrow> DungeonInstance \<Rightarrow> bool" where
  "survives now grace life d \<longleftrightarrow>
     \<not> lifetime_expired now life d \<and> di_participants (snd (sweep_one now grace life d)) \<noteq> []"

lemma remove_participant_party [simp]: "di_partyId (remove_participant x d) = di_partyId d"
  "di_dungeonId (remove_participant x d) = di_dungeonId d"
  by (auto simp: remove_participant_def Let_def split: option.splits)

lemma remove_expired_party [simp]: "di_partyId (snd (remove_expired now g m d)) = di_partyId d"
  "di_dungeonId (snd (remove_expired now g m d)) = di_dungeonId d"
  by (induction now g m d rule: remove_expired.induct) (auto split: prod.splits)

lemma sweep_one_fields [simp]:
  "di_partyId (snd (sweep_one now g l d)) = di_partyId d"
  "di_dungeonId (snd (sweep_one now g l d)) = di_dungeonId d"
  by (auto simp: sweep_one_def RemoveAllParticipants_def RemoveExpiredDisconnectedParticipants_def)

lemma sweep_dungeons_eq:
  "sweep_dungeons now g l ds ps =
     (\<lparr>sw_removedParticipants = concat (map (\<lambda>e. map (Pair (fst e)) (fst (sweep_one now g l (snd e)))) ds),
       sw_releasedDungeons = map fst (filter (\<lambda>e. \<not> survives now g l (snd e)) ds)\<rparr>,
      map (\<lambda>e. (fst e, snd (sweep_one now g l (snd e)))) (filter (\<lambda>e. survives now g l (snd e)) ds),
      fold (\<lambda>e. um_erase (di_partyId (snd e))) (filter (\<lambda>e. \<not> survives now g l (snd e)) ds) ps)"
proof (induction now g l ds ps rule: sweep_dungeons.induct)
  case (2 now g l i d rest ps)
  obtain rm d' where d': "sweep_one now g l d = (rm, d')" by fastforce
  then have "di_partyId d' = di_partyId d" using sweep_one_fields(1) [of now g l d] by simp
  with 2 d' show ?case by (cases "survives now g l d") (auto simp: survives_def)
qed simp

lemma map_of_sweep:
  "um_ok ds \<Longrightarrow> map_of (map (\<lambda>e. (fst e, f (snd e))) (filter (\<lambda>e. P (snd e)) ds)) i =
     (case map_of ds i of None \<Rightarrow> None | Some d \<Rightarrow> if P d then Some (f d) else None)"
proof (induction ds)
  case (Cons e ds)
  obtain j d where e: "e = (j, d)" by fastforce
  with Cons have "um_ok ds" "\<not> um_contains ds j" by (auto simp: um_ok_Cons)
  with Cons e show ?case by (auto simp: um_contains_def split: option.splits)
qed simp

lemma map_of_fold_erase:
  "um_ok ps \<Longrightarrow> um_ok (fold (\<lambda>e. um_erase (h e)) es ps) \<and>
   map_of (fold (\<lambda>e. um_erase (h e)) es ps) p = (if p \<in> h ` set es then None else map_of ps p)"
  by (induction es arbitrary: ps) (auto simp: umap_simps)

lemma index_inv_sweep:
  fixes now g l :: int
  assumes inv: "index_inv n ds ps"
  defines "r \<equiv> sweep_dungeons now g l ds ps"
  shows "index_inv n (fst (snd r)) (snd (snd r))"
proof -
  let ?dead = "filter (\<lambda>e. \<not> survives now g l (snd e)) ds"
  have ok: "um_ok ds" "um_ok ps" using inv by (auto simp: index_inv_def)
  have ds': "map_of (fst (snd r)) i = (case map_of ds i of None \<Rightarrow> None
      | Some d \<Rightarrow> if survives now g l d then Some (snd (sweep_one now g l d)) else None)" for i
    unfolding r_def sweep_dungeons_eq
    using map_of_sweep [OF ok(1), where P = "survives now g l" and f = "\<lambda>d. snd (sweep_one now g l d)"]
    by simp
  have ps': "um_ok (snd (snd r))" "map_of (snd (snd r)) p =
      (if \<exists>i d. map_of ds i = Some d \<and> \<not> survives now g l d \<and> di_partyId d = p then None
       else map_of ps p)" for p
  proof -
    have "p \<in> (\<lambda>e. di_partyId (snd e)) ` set ?dead \<longleftrightarrow>
        (\<exists>i d. map_of ds i = Some d \<and> \<not> survives now g l d \<and> di_partyId d = p)"
      unfolding um_find_iff_set [OF ok(1)] by force
    then show "um_ok (snd (snd r))" "map_of (snd (snd r)) p =
      (if \<exists>i d. map_of ds i = Some d \<and> \<not> survives now g l d \<and> di_partyId d = p then None
       else map_of ps p)"
      using map_of_fold_erase [OF ok(2), of "\<lambda>e. di_partyId (snd e)" ?dead p]
      unfolding r_def sweep_dungeons_eq by simp_all
  qed
  have inj: "i = j" if "map_of ds i = Some d" "map_of ds j = Some e" "di_partyId d = di_partyId e" for i j d e
    using inv that unfolding index_inv_def by (metis option.inject)
  have "0 < i \<and> i < n \<and> map_of (snd (snd r)) (di_partyId d) = Some i"
    if "map_of (fst (snd r)) i = Some d" for i d
  proof -
    from that obtain e where e: "map_of ds i = Some e" "survives now g l e" "d = snd (sweep_one now g l e)"
      by (auto simp: ds' split: option.splits if_splits)
    have "0 < i" "i < n" "map_of ps (di_partyId e) = Some i" using inv e(1) by (auto simp: index_inv_def)
    moreover have "\<nexists>j d. map_of ds j = Some d \<and> \<not> survives now g l d \<and> di_partyId d = di_partyId e"
    proof clarify
      fix j d
      assume "map_of ds j = Some d" "\<not> survives now g l d" "di_partyId d = di_partyId e"
      with inj [OF _ e(1), of j d] e(1,2) show False by simp
    qed
    ultimately show ?thesis unfolding e(3) sweep_one_fields ps'(2) by (simp only: if_False simp_thms)
  qed
  moreover have "\<exists>d. map_of (fst (snd r)) i = Some d \<and> di_partyId d = p"
    if p: "map_of (snd (snd r)) p = Some i" for p i
  proof -
    from p have live: "map_of ps p = Some i"
      "\<nexists>j d. map_of ds j = Some d \<and> \<not> survives now g l d \<and> di_partyId d = p"
      by (auto simp: ps'(2) split: if_splits)
    then obtain d where "map_of ds i = Some d" "di_partyId d = p"
      using inv unfolding index_inv_def by blast
    with live show ?thesis by (auto simp: ds')
  qed
  moreover have "um_ok (fst (snd r))"
    using ok(1) by (simp add: r_def sweep_dungeons_eq um_ok_def comp_def distinct_map_filter)
  ultimately show ?thesis using ps'(1) by (simp add: index_inv_def)
qed

lemma hosted_sweep:
  assumes "hosted cat i d" "survives now g l d"
  shows "hosted cat i (snd (sweep_one now g l d))"
  using assms roster_inv_RemoveExpired [of d now g] stage_inv_RemoveExpired [of cat d now g]
  by (auto simp: hosted_def survives_def sweep_one_def RemoveExpiredDisconnectedParticipants_def)

lemma dm_inv_Sweep:
  assumes inv: "dm_inv cat s"
  shows "dm_inv cat (snd (SweepAbandonedParticipants now g l s))"
proof (cases "g \<le> 0 \<or> l \<le> 0")
  case False
  let ?r = "sweep_dungeons now g l (dm_dungeons s) (dm_partyDungeons s)"
  have eq: "snd (SweepAbandonedParticipants now g l s) =
      s\<lparr>dm_dungeons := fst (snd ?r), dm_partyDungeons := snd (snd ?r)\<rparr>"
    using False by (auto simp: SweepAbandonedParticipants_def split: prod.splits)
  have "index_inv (dm_nextDungeonId s) (fst (snd ?r)) (snd (snd ?r))"
    using inv by (intro index_inv_sweep) (simp add: dm_inv_def)
  moreover have "hosted cat i d" if "map_of (fst (snd ?r)) i = Some d" for i d
    using that hosted_sweep dm_invD(3) [OF inv]
      map_of_sweep [OF dm_invD(1) [OF inv], where P = "survives now g l" and f = "\<lambda>d. snd (sweep_one now g l d)"]
    by (auto simp: sweep_dungeons_eq split: option.splits if_splits)
  ultimately show ?thesis using inv by (simp add: eq dm_inv_def)
qed (use inv in \<open>simp add: SweepAbandonedParticipants_def\<close>)

section \<open>Starting, cancelling, finishing, stopping\<close>

lemma dm_inv_StartDungeon:
  assumes inv: "dm_inv cat s" and cat: "enemies_ok cat"
  shows "\<exists>b s'. StartDungeon cat i s = Inr (b, s') \<and> dm_inv cat s' \<and>
    (b \<longleftrightarrow> (\<exists>d. map_of (dm_dungeons s) i = Some d \<and> di_state d = Waiting))"
proof (cases "map_of (dm_dungeons s) i")
  case None
  with inv show ?thesis by (intro exI [of _ False] exI [of _ s]) (simp add: StartDungeon_def)
next
  case (Some d)
  have h: "hosted cat i d" using dm_invD(3) [OF inv Some] .
  then obtain d' where d': "Start cat d = Inr (di_state d = Waiting, d')" "stage_inv cat d'"
    "if di_state d = Waiting then d' = d\<lparr>di_state := Running, di_rooms := di_rooms d'\<rparr> else d' = d"
    using Start_total [OF _ cat, of d] by (auto simp: hosted_def)
  have "\<exists>st rm. d' = d\<lparr>di_state := st, di_rooms := rm\<rparr>"
  proof (cases "di_state d = Waiting")
    case False
    with d'(3) show ?thesis by (intro exI [of _ "di_state d"] exI [of _ "di_rooms d"]) simp
  qed (use d'(3) in auto)
  then have "roster_inv d' = roster_inv d" "di_participants d' = di_participants d"
    "di_dungeonId d' = di_dungeonId d" "di_partyId d' = di_partyId d" by auto
  with h d' dm_inv_update [OF inv Some, of d'] Some show ?thesis
    by (auto simp: StartDungeon_def hosted_def)
qed

lemma dm_inv_Cancel: "dm_inv cat s \<Longrightarrow> dm_inv cat (snd (CancelDungeon i s))"
  by (auto simp: CancelDungeon_def intro: dm_inv_drop split: option.splits)

lemma dm_inv_Finish:
  assumes inv: "dm_inv cat s"
  shows "dm_inv cat (snd (FinishDungeon i s))"
proof (cases "map_of (dm_dungeons s) i")
  case None
  with inv show ?thesis by (simp add: FinishDungeon_def)
next
  case (Some d)
  obtain b d' where b: "(if di_state d = Running then Finish d else (True, d)) = (b, d')" by fastforce
  then have d': "d' = d \<or> d' = d\<lparr>di_state := Finished\<rparr>" by (auto simp: Finish_def split: if_splits)
  then have pid: "di_partyId d' = di_partyId d" by auto
  have "hosted cat i d'" using dm_invD(3) [OF inv Some] d' by (auto simp: hosted_def)
  from dm_inv_update [OF inv Some pid this]
  have u: "dm_inv cat (s\<lparr>dm_dungeons := um_modify i (\<lambda>_. d') (dm_dungeons s)\<rparr>)" (is "dm_inv cat ?u") .
  have "map_of (dm_dungeons ?u) i = Some d'" using Some by (simp add: umap_simps)
  from dm_inv_drop [OF u this] u Some b show ?thesis by (simp add: FinishDungeon_def Let_def)
qed

lemma dm_inv_Stop: "dm_inv cat s \<Longrightarrow> dm_inv cat (dm_Stop s)"
  by (simp add: dm_Stop_def dm_inv_def index_inv_def login_inv_def)

lemma dm_next [simp]:
  "dm_nextDungeonId (snd (RegisterPlayerSession x p now g s)) = dm_nextDungeonId s"
  "dm_nextDungeonId (snd (RollbackPlayerReconnect i p y x t s)) = dm_nextDungeonId s"
  "dm_nextDungeonId (snd (DisconnectPlayerSession x t s)) = dm_nextDungeonId s"
  "dm_nextDungeonId (snd (SweepAbandonedParticipants now g l s)) = dm_nextDungeonId s"
  "dm_nextDungeonId (snd (CancelDungeon i s)) = dm_nextDungeonId s"
  "dm_nextDungeonId (snd (FinishDungeon i s)) = dm_nextDungeonId s"
  "dm_nextDungeonId (dm_Stop s) = dm_nextDungeonId s"
  by (auto simp: RegisterPlayerSession_def register_in_dungeons_def RollbackPlayerReconnect_def
      DisconnectPlayerSession_def SweepAbandonedParticipants_def CancelDungeon_def FinishDungeon_def
      drop_dungeon_def dm_Stop_def Let_def split: option.splits prod.splits bool.splits)

lemma StartDungeon_next: "StartDungeon cat i s = Inr (b, s') \<Longrightarrow> dm_nextDungeonId s' = dm_nextDungeonId s"
  by (auto simp: StartDungeon_def split: option.splits sum.splits)

end
