(* ===== verification/Sample_Data.thy ===== *)
theory Sample_Data
  imports Dungeon_Manager
begin

text \<open>
  A small game used by the concrete instances of the theorems: one enemy, a dungeon of two rooms
  joined by a portal, admitted through \<open>AddEnemy\<close> and \<open>AddDungeon\<close>, an instance of it with two
  players and a manager that hosts the instance.
\<close>

definition whole :: "int \<Rightarrow> float32" where "whole i = Fin (i * 2 ^ 149)"

lemma whole_simps [simp]:
  "f32_le (whole a) (whole b) \<longleftrightarrow> a \<le> b" "f32_lt (whole a) (whole b) \<longleftrightarrow> a < b" "isfinite (whole a)"
  "f32_le (Fin 0) (whole b) \<longleftrightarrow> 0 \<le> b" "f32_lt (Fin 0) (whole b) \<longleftrightarrow> 0 < b"
  "f32_le (whole b) (Fin 0) \<longleftrightarrow> b \<le> 0" "f32_lt (whole b) (Fin 0) \<longleftrightarrow> b < 0"
  by (auto simp: whole_def zero_le_mult_iff zero_less_mult_iff mult_le_0_iff mult_less_0_iff)

definition point :: "int \<Rightarrow> int \<Rightarrow> Position" where
  "point x y = \<lparr>pos_x = whole x, pos_y = whole y, pos_z = whole 0\<rparr>"

definition box :: "int \<Rightarrow> int \<Rightarrow> CollisionBox" where
  "box lo hi =
     \<lparr>box_minimum = \<lparr>pos_x = whole lo, pos_y = whole lo, pos_z = whole 0\<rparr>,
      box_maximum = \<lparr>pos_x = whole hi, pos_y = whole hi, pos_z = whole 2\<rparr>\<rparr>"

definition goblin :: EnemyTemplate where
  "goblin = \<lparr>enemy_id = 7, enemy_name = ''goblin'', enemy_maxHp = 30, enemy_moveSpeed = whole 2,
     enemy_aiType = Melee, enemy_collision = box 0 1\<rparr>"

definition sample_enemies :: EnemyCatalog where
  "sample_enemies = snd (AddEnemy goblin [])"

definition goblin_at :: "EnemySpawnId \<Rightarrow> u32 \<Rightarrow> EnemySpawnTemplate" where
  "goblin_at i w = \<lparr>spawn_id = i, spawn_enemyTemplateId = 7, spawn_position = point 5 5, spawn_wave = w\<rparr>"

definition gate_out :: PortalTemplate where
  "gate_out = \<lparr>portal_id = 1, portal_triggerArea = box 8 10, portal_targetRoomId = 2,
     portal_targetPosition = point 1 1, portal_requiresRoomClear = True\<rparr>"

definition first_room :: RoomTemplate where
  "first_room = \<lparr>room_id = 1, room_width = whole 10, room_depth = whole 10, room_playerSpawn = point 1 1,
     room_portals = [gate_out], room_obstacles = [], room_enemySpawns = [goblin_at 1 1, goblin_at 2 3]\<rparr>"

definition last_room :: RoomTemplate where
  "last_room = \<lparr>room_id = 2, room_width = whole 6, room_depth = whole 6, room_playerSpawn = point 1 1,
     room_portals = [],
     room_obstacles = [\<lparr>obstacle_id = 1, obstacle_collision = box 3 4, obstacle_destructible = True,
                        obstacle_maxHp = 10\<rparr>],
     room_enemySpawns = []\<rparr>"

lemmas sample_defs = goblin_def goblin_at_def gate_out_def first_room_def last_room_def box_def point_def

definition sample_dungeons :: DungeonCatalog where
  "sample_dungeons = snd (AddDungeon sample_enemies 1 ''forest'' [first_room, last_room] 2 4 [])"

lemma sample_enemies_eq: "sample_enemies = [(7, goblin)]"
  by (simp add: sample_enemies_def AddEnemy_def sample_defs IsValidCollisionBox_def um_emplace_def)

lemma sample_enemies_ok: "enemies_ok sample_enemies"
  by (simp add: sample_enemies_eq enemies_ok_def goblin_def)

definition forest :: DungeonTemplate where
  "forest = \<lparr>dt_id = 1, dt_name = ''forest'', dt_rooms = [first_room, last_room],
     dt_recommendedPartySize = 2, dt_maxPartySize = 4\<rparr>"

lemma sample_dungeon_accepted:
  "AddDungeon sample_enemies 1 ''forest'' [first_room, last_room] 2 4 [] = (True, [(1, forest)])"
  by (simp add: AddDungeon_def sample_enemies_eq sample_defs IsValidCollisionBox_def IsInsideRoom_def
      GetEnemy_def um_emplace_def forest_def)

lemma sample_dungeons_eq: "sample_dungeons = [(1, forest)]"
  by (simp add: sample_dungeons_def sample_dungeon_accepted)

lemma sample_rooms_valid: "rooms_valid sample_enemies [first_room, last_room]"
  using AddDungeon_accepts_iff [of sample_enemies 1 "''forest''" "[first_room, last_room]" 2 4 "[]"]
  by (simp add: sample_dungeon_accepted)

lemma sample_catalog_inv: "catalog_inv sample_enemies sample_dungeons"
  unfolding sample_dungeons_def by (rule catalog_inv_AddDungeon) (simp add: catalog_inv_def)

text \<open>The first room, before and after its first wave.\<close>

definition quiet_room :: RoomState where "quiet_room = make_RoomState first_room"

definition busy_room :: RoomState where
  "busy_room = quiet_room\<lparr>rs_currentWave := 1,
     rs_enemies := [\<lparr>en_entityId = 4294967297, en_spawnId = 1, en_enemyTemplateId = 7,
                     en_position = point 5 5, en_currentHp = 30, en_alive = True\<rparr>]\<rparr>"

lemma quiet_room_inv: "room_inv sample_enemies quiet_room"
  unfolding quiet_room_def using sample_rooms_valid by (intro room_inv_make) (simp add: rooms_valid_def)

lemma StartNextWave_sample: "StartNextWave sample_enemies quiet_room = Inr (True, busy_room)"
  by (simp add: StartNextWave_def quiet_room_def busy_room_def make_RoomState_def HasLivingEnemy_def
      first_room_def goblin_at_def sample_enemies_eq GetEnemy_def MakeEnemyEntityId_def goblin_def)

lemma busy_room_inv: "room_inv sample_enemies busy_room"
  using StartNextWave_cases [OF quiet_room_inv sample_enemies_ok] by (simp add: StartNextWave_sample)

text \<open>A dungeon with the sessions 11 and 12, whose players are 101 and 102.\<close>

definition fresh_player :: "SessionId \<Rightarrow> DungeonPlayerState" where
  "fresh_player x =
     \<lparr>ps_sessionId = x, ps_roomId = 1, ps_position = point 1 1, ps_currentHp = 100, ps_maxHp = 100,
      ps_currentMp = 100, ps_maxMp = 100, ps_cooldowns = [], ps_actionSkillId = 0, ps_actionPhase = Idle,
      ps_actionRemainingTicks = 0, ps_actionActiveTicks = 0, ps_actionRecoveryTicks = 0\<rparr>"

definition waiting_dungeon :: DungeonInstance where
  "waiting_dungeon =
     \<lparr>di_dungeonId = 1, di_dungeonTemplate = forest, di_partyId = 1, di_participants = [11, 12],
      di_rooms = [(1, make_RoomState first_room), (2, make_RoomState last_room)],
      di_players = [(11, fresh_player 11), (12, fresh_player 12)],
      di_participantPlayerIds = [], di_playerSessions = [], di_disconnectedSince = [],
      di_createdAt = 0, di_state = Waiting\<rparr>"

lemma make_waiting_dungeon: "make_DungeonInstance 1 forest 1 [11, 12] 0 = Inr waiting_dungeon"
  by (simp add: make_DungeonInstance_def waiting_dungeon_def forest_def MAX_PARTY_MEMBERS_def
      um_emplace_def um_contains_def first_room_def last_room_def make_PlayerState_def fresh_player_def
      point_def)

lemma waiting_dungeon_inv: "roster_inv waiting_dungeon" "stage_inv sample_enemies waiting_dungeon"
proof -
  have ids: "dt_id forest \<noteq> 0" by (simp add: forest_def)
  have "rooms_valid sample_enemies (dt_rooms forest)" using sample_rooms_valid by (simp add: forest_def)
  from make_DungeonInstance_ok [OF _ ids _ this, of 1 1 "[11, 12]" 0]
  show "roster_inv waiting_dungeon" "stage_inv sample_enemies waiting_dungeon"
    by (simp_all add: make_waiting_dungeon MAX_PARTY_MEMBERS_def)
qed

definition bound_dungeon :: DungeonInstance where
  "bound_dungeon = waiting_dungeon\<lparr>di_participantPlayerIds := [(11, 101), (12, 102)],
     di_playerSessions := [(101, 11), (102, 12)]\<rparr>"

lemma bind_bound_dungeon: "bind_members [(11, 101), (12, 102)] [11, 12] waiting_dungeon = bound_dungeon"
  by (simp add: BindParticipantPlayer_def waiting_dungeon_def bound_dungeon_def um_contains_def um_emplace_def)

lemma bound_dungeon_hosted: "hosted sample_enemies 1 bound_dungeon"
  unfolding bind_bound_dungeon [symmetric]
  using bind_members_hosted [of sample_enemies 1 waiting_dungeon "[(11, 101), (12, 102)]" "[11, 12]"]
  by (simp add: hosted_def waiting_dungeon_inv) (simp add: waiting_dungeon_def)

text \<open>Session 11 has lost its connection at time 5.\<close>

definition half_connected :: DungeonInstance where
  "half_connected = snd (DisconnectParticipant 11 5 bound_dungeon)"

lemma half_connected_inv: "roster_inv half_connected" "stage_inv sample_enemies half_connected"
  using bound_dungeon_hosted
  by (auto simp: half_connected_def hosted_def intro: roster_inv_Disconnect stage_inv_Disconnect)

lemma half_connected_eq: "half_connected = bound_dungeon\<lparr>di_disconnectedSince := [(11, 5)]\<rparr>"
  by (simp add: half_connected_def DisconnectParticipant_def bound_dungeon_def waiting_dungeon_def
      um_contains_def um_emplace_def)

text \<open>A manager that hosts it.\<close>

definition sample_manager :: DungeonManager where
  "sample_manager =
     \<lparr>dm_nextDungeonId = 2, dm_dungeons = [(1, bound_dungeon)], dm_partyDungeons = [(1, 1)],
      dm_authenticatedPlayers = [(11, 101), (12, 102)], dm_activePlayerSessions = [(101, 11), (102, 12)],
      dm_stopping = False\<rparr>"

lemma sample_manager_inv: "dm_inv sample_enemies sample_manager"
  using bound_dungeon_hosted
  by (simp add: sample_manager_def dm_inv_def index_inv_def login_inv_def um_ok_def)
     (simp add: bound_dungeon_def waiting_dungeon_def)

end
