(* ===== verification/Room_Properties.thy ===== *)
theory Room_Properties
  imports Sample_Data
begin

text \<open>
  Properties of the static data, of rooms and of players, each with a concrete instance where it has
  hypotheses.
\<close>

section \<open>Fighting a room to its end\<close>

text \<open>Every enemy present is hit once for the largest damage; then the next wave is asked for.\<close>

definition kill_all :: "RoomState \<Rightarrow> RoomState" where
  "kill_all r = fold (\<lambda>i r. snd (ApplyEnemyDamage i 4294967295 r)) (map en_entityId (rs_enemies r)) r"

definition fight_wave :: "EnemyCatalog \<Rightarrow> RoomState \<Rightarrow> RoomState" where
  "fight_wave cat r = (case StartNextWave cat (kill_all r) of Inl _ \<Rightarrow> r | Inr (_, r') \<Rightarrow> r')"

lemma upd_first_distinct:
  "distinct (map g xs) \<Longrightarrow>
   upd_first (\<lambda>x. g x = k) f xs = map (\<lambda>x. if g x = k then f x else x) xs"
proof (induction xs)
  case (Cons a xs)
  have "map (\<lambda>x. if g x = k then f x else x) xs = xs" if "g a = k"
    using Cons.prems that by (intro map_idI) (metis (no_types) distinct.simps(2) image_eqI list.set_map list.simps(9))
  with Cons show ?case by auto
qed simp

lemma room_entities_distinct:
  assumes "room_inv cat r"
  shows "distinct (map en_entityId (rs_enemies r))"
proof -
  have "map en_entityId (rs_enemies r) =
      map (MakeEnemyEntityId (room_id (rs_template r))) (map en_spawnId (rs_enemies r))"
    using room_invD(4) [OF assms] by (simp add: enemy_ok_def)
  moreover have "inj (MakeEnemyEntityId (room_id (rs_template r)))"
    by (rule injI) (blast dest: MakeEnemyEntityId_inj)
  ultimately show ?thesis
    using room_invD(5) [OF assms] by (simp add: distinct_map inj_on_subset [OF _ subset_UNIV] del: map_map)
qed

lemma hit_max: "\<not> en_alive (hit_enemy 4294967295 e)"
proof -
  have "en_currentHp e \<le> 4294967295" 
    by (simp add: word_le_nat_alt) (use unsigned_less [of "en_currentHp e", where ?'a = nat] in simp)
  then show ?thesis by (simp add: hit_enemy_def)
qed

lemma kill_one:
  fixes i :: DungeonEntityId
  assumes "room_inv cat r"
  defines "r' \<equiv> snd (ApplyEnemyDamage i 4294967295 r)"
  shows "room_inv cat r'" "rs_template r' = rs_template r" "rs_currentWave r' = rs_currentWave r"
    "rs_lastWave r' = rs_lastWave r"
    "e \<in> set (rs_enemies r') \<Longrightarrow> en_alive e \<Longrightarrow> e \<in> set (rs_enemies r) \<and> en_entityId e \<noteq> i"
proof -
  show "room_inv cat r'" using assms by (simp add: room_inv_ApplyEnemyDamage)
  show "rs_template r' = rs_template r" "rs_currentWave r' = rs_currentWave r" "rs_lastWave r' = rs_lastWave r"
    by (auto simp: r'_def ApplyEnemyDamage_def split: option.splits)
  have dist: "distinct (map en_entityId (rs_enemies r))" by (rule room_entities_distinct [OF assms(1)])
  assume e: "e \<in> set (rs_enemies r')" "en_alive e"
  show "e \<in> set (rs_enemies r) \<and> en_entityId e \<noteq> i"
  proof (cases "find (\<lambda>e. en_entityId e = i) (rs_enemies r)")
    case None
    with e show ?thesis by (auto simp: r'_def ApplyEnemyDamage_def find_None_iff)
  next
    case (Some t)
    then have t: "t \<in> set (rs_enemies r)" "en_entityId t = i" by (auto dest: find_Some_in)
    have only: "u = t" if "u \<in> set (rs_enemies r)" "en_entityId u = i" for u
      using dist t that by (auto simp: distinct_map inj_on_def)
    show ?thesis
    proof (cases "en_alive t")
      case True
      with e Some show ?thesis
        by (auto simp: r'_def ApplyEnemyDamage_def upd_first_distinct [OF dist] hit_max split: if_splits)
    next
      case False
      with e Some only show ?thesis by (auto simp: r'_def ApplyEnemyDamage_def)
    qed
  qed
qed

lemma kill_list:
  fixes "is" :: "DungeonEntityId list"
  assumes "room_inv cat r"
  defines "r' \<equiv> fold (\<lambda>i r. snd (ApplyEnemyDamage i 4294967295 r)) is r"
  shows "room_inv cat r' \<and> rs_template r' = rs_template r \<and> rs_currentWave r' = rs_currentWave r \<and>
    rs_lastWave r' = rs_lastWave r \<and>
    (\<forall>e \<in> set (rs_enemies r'). en_alive e \<longrightarrow> e \<in> set (rs_enemies r) \<and> en_entityId e \<notin> set is)"
  unfolding r'_def using assms(1)
proof (induction "is" arbitrary: r)
  case (Cons i "is")
  from Cons.IH [OF kill_one(1) [OF Cons.prems, of i]] kill_one(2-5) [OF Cons.prems, where i = i]
  show ?case by auto
qed auto

lemma kill_all_result:
  assumes "room_inv cat r"
  shows "room_inv cat (kill_all r)" "\<not> HasLivingEnemy (kill_all r)"
    "rs_currentWave (kill_all r) = rs_currentWave r" "rs_lastWave (kill_all r) = rs_lastWave r"
  using kill_list [OF assms, of "map en_entityId (rs_enemies r)"]
  by (auto simp: kill_all_def HasLivingEnemy_def list_ex_iff)

lemma fight_wave_step:
  assumes inv: "room_inv cat r" and cat: "enemies_ok cat"
  shows "room_inv cat (fight_wave cat r) \<and> rs_lastWave (fight_wave cat r) = rs_lastWave r \<and>
    (rs_currentWave r \<noteq> rs_lastWave r \<longrightarrow> rs_currentWave r < rs_currentWave (fight_wave cat r))"
proof -
  note k = kill_all_result [OF inv]
  from StartNextWave_cases [OF k(1) cat] obtain b r' where s: "StartNextWave cat (kill_all r) = Inr (b, r')"
    "room_inv cat r'" "rs_template r' = rs_template (kill_all r)"
    "b \<longleftrightarrow> \<not> HasLivingEnemy (kill_all r) \<and> rs_currentWave (kill_all r) \<noteq> rs_lastWave (kill_all r)"
    "if b then rs_currentWave (kill_all r) < rs_currentWave r' \<and> HasLivingEnemy r' else r' = kill_all r"
    by blast
  have "rs_lastWave r' = rs_lastWave r"
    using room_invD(2) [OF s(2)] room_invD(2) [OF k(1)] s(3) k(4) by simp
  with s k show ?thesis by (auto simp: fight_wave_def split: if_splits)
qed

lemma fight_waves:
  assumes "room_inv cat r" "enemies_ok cat"
  shows "unat (rs_lastWave r) - unat (rs_currentWave r) \<le> k \<Longrightarrow>
    \<exists>n \<le> k. IsCleared (kill_all ((fight_wave cat ^^ n) r))"
  using assms(1)
proof (induction k arbitrary: r)
  case 0
  then have "rs_currentWave r = rs_lastWave r"
    using room_invD(3) [OF 0(2)] by (simp add: word_le_nat_alt word_unat_eq_iff)
  then show ?case using kill_all_result [OF 0(2)] by (simp add: IsCleared_def)
next
  case (Suc k)
  show ?case
  proof (cases "rs_currentWave r = rs_lastWave r")
    case True
    then have "IsCleared (kill_all ((fight_wave cat ^^ 0) r))"
      using kill_all_result [OF Suc.prems(2)] by (simp add: IsCleared_def)
    then show ?thesis by blast
  next
    case False
    from fight_wave_step [OF Suc.prems(2) assms(2)] False Suc.prems(1)
    have "room_inv cat (fight_wave cat r)"
      "unat (rs_lastWave (fight_wave cat r)) - unat (rs_currentWave (fight_wave cat r)) \<le> k"
      by (auto simp: word_less_nat_alt)
    from Suc.IH [OF this(2,1)] obtain n where "n \<le> k"
      "IsCleared (kill_all ((fight_wave cat ^^ n) (fight_wave cat r)))" by blast
    then show ?thesis by (intro exI [of _ "Suc n"]) (simp add: funpow_swap1)
  qed
qed

text \<open>C27. A room can always be fought to its end: killing what is there and asking for the next wave
  clears it after at most as many rounds as wave numbers are left. No round throws, none is stuck.\<close>

theorem room_can_be_cleared:
  assumes "room_inv cat r" "enemies_ok cat"
  shows "\<exists>n \<le> unat (rs_lastWave r) - unat (rs_currentWave r).
    IsCleared (kill_all ((fight_wave cat ^^ n) r))"
  by (rule fight_waves [OF assms order_refl])

theorem room_can_be_cleared_witness:
  "\<exists>n \<le> 3. IsCleared (kill_all ((fight_wave sample_enemies ^^ n) quiet_room))"
  using room_can_be_cleared [OF quiet_room_inv sample_enemies_ok]
  by (simp add: quiet_room_def make_RoomState_def first_room_def goblin_at_def)

text \<open>A room reports itself cleared exactly when every spawn of its template has had its enemy and
  every one of these enemies has no hit points left.\<close>

lemma IsCleared_exact:
  assumes "room_inv cat r"
  shows "IsCleared r \<longleftrightarrow>
    (\<forall>sp \<in> set (room_enemySpawns (rs_template r)). \<exists>e \<in> set (rs_enemies r). en_spawnId e = spawn_id sp) \<and>
    (\<forall>e \<in> set (rs_enemies r). en_currentHp e = 0)"
  using assms by (rule IsCleared_iff)

text \<open>Asking for the next wave never throws on a room of an admitted dungeon. It starts a wave
  exactly when no enemy lives and waves are left; the new wave number is the least one above the
  current one among the spawns, and its enemies are alive. Otherwise nothing changes.\<close>

lemma StartNextWave_exact:
  assumes "room_inv cat r" "enemies_ok cat"
  shows "\<exists>started r'. StartNextWave cat r = Inr (started, r') \<and> room_inv cat r' \<and>
    (started \<longleftrightarrow> \<not> HasLivingEnemy r \<and> rs_currentWave r \<noteq> rs_lastWave r) \<and>
    (if started then rs_currentWave r < rs_currentWave r' \<and> HasLivingEnemy r' \<and>
       (\<forall>sp \<in> set (room_enemySpawns (rs_template r)).
          rs_currentWave r < spawn_wave sp \<longrightarrow> rs_currentWave r' \<le> spawn_wave sp)
     else r' = r)"
proof -
  obtain b r' where s: "StartNextWave cat r = Inr (b, r')" "room_inv cat r'"
    "b \<longleftrightarrow> \<not> HasLivingEnemy r \<and> rs_currentWave r \<noteq> rs_lastWave r"
    "if b then rs_currentWave r < rs_currentWave r' \<and> HasLivingEnemy r' else r' = r"
    using StartNextWave_cases [OF assms] by blast
  moreover have "rs_currentWave r' \<le> spawn_wave sp"
    if "b" "sp \<in> set (room_enemySpawns (rs_template r))" "rs_currentWave r < spawn_wave sp" for sp
  proof -
    have "next_wave (rs_currentWave r) (room_enemySpawns (rs_template r)) 0 = rs_currentWave r'"
      "rs_currentWave r' \<noteq> 0"
      using s(1) that(1) by (auto simp: StartNextWave_def Let_def split: if_splits sum.splits)
    from next_wave_least(3) [OF this that(2,3)] show ?thesis .
  qed
  ultimately show ?thesis by (intro exI [of _ b] exI [of _ r']) auto
qed

text \<open>C28. The admission loops of \<open>AddDungeon\<close> accept exactly the dungeons that satisfy the declarative
  validity predicate: identifiers non-zero and distinct, every portal, obstacle and spawn inside its
  room, portals leading to positions inside existing rooms, spawns naming known enemies.\<close>

theorem AddDungeon_admits_exactly:
  "fst (AddDungeon cat i name rooms recommended mx dungeons) \<longleftrightarrow>
     i \<noteq> 0 \<and> name \<noteq> [] \<and> 0 < recommended \<and> recommended \<le> mx \<and> mx \<le> 4 \<and> \<not> um_contains dungeons i \<and>
     rooms_valid cat rooms"
  by (rule AddDungeon_accepts_iff)

text \<open>Hit points never wrap around: a hit on an enemy subtracts the damage and stops at zero, the
  enemy dies exactly when it reaches zero, and a hit on a dead enemy, a hit of zero and a hit on an
  unknown entity are refused without effect.\<close>

lemma enemy_damage_exact:
  assumes "room_inv cat r" "e \<in> set (rs_enemies r)"
  shows "\<exists>e'. rs_enemies (snd (ApplyEnemyDamage (en_entityId e) d r)) =
      map (\<lambda>x. if x = e then e' else x) (rs_enemies r) \<and>
    unat (en_currentHp e') = unat (en_currentHp e) - unat d \<and> (en_alive e' \<longleftrightarrow> en_currentHp e' \<noteq> 0) \<and>
    (fst (ApplyEnemyDamage (en_entityId e) d r) \<longleftrightarrow> en_alive e \<and> d \<noteq> 0)"
proof -
  have dist: "distinct (map en_entityId (rs_enemies r))" by (rule room_entities_distinct [OF assms(1)])
  have same: "x \<in> set (rs_enemies r) \<Longrightarrow> en_entityId x = en_entityId e \<longleftrightarrow> x = e" for x
    using dist assms(2) by (auto simp: distinct_map inj_on_def)
  obtain t where t: "find (\<lambda>x. en_entityId x = en_entityId e) (rs_enemies r) = Some t"
    using assms(2) by (metis (mono_tags, lifting) find_None_iff not_Some_eq)
  with same have t_eq: "t = e" using find_Some_in by fastforce
  have ok: "en_alive e \<longleftrightarrow> en_currentHp e \<noteq> 0"
    using room_invD(4) [OF assms] by (simp add: enemy_ok_def)
  show ?thesis
  proof (cases "en_alive e \<and> d \<noteq> 0")
    case True
    with t t_eq show ?thesis
      using hit_enemy_ok [OF room_invD(4) [OF assms], of d]
      by (intro exI [of _ "hit_enemy d e"])
        (auto simp: ApplyEnemyDamage_def upd_first_distinct [OF dist] same unat_hit_enemy enemy_ok_def)
  next
    case False
    with t t_eq ok show ?thesis
      by (intro exI [of _ e]) (auto simp: ApplyEnemyDamage_def intro!: map_idI [symmetric])
  qed
qed

end
