(* ===== verification/Player_Properties.thy ===== *)
theory Player_Properties
  imports Sample_Data
begin

text \<open>
  Properties of the player state, each with a concrete instance where it has hypotheses. The
  operations of the class form a machine, so its invariant holds after every sequence of calls.
\<close>

datatype player_op = OpRebind SessionId | OpDamage u32 | OpBegin SkillId u32 u32 u32 u32 u32
  | OpTick | OpMove RoomState Position | OpEnter RoomState Position

fun player_step :: "DungeonPlayerState \<Rightarrow> player_op \<Rightarrow> DungeonPlayerState" where
  "player_step p (OpRebind x) = snd (RebindSession x p)"
| "player_step p (OpDamage d) = snd (ApplyDamage d p)"
| "player_step p (OpBegin i m c s a r) = snd (BeginSkill i m c s a r p)"
| "player_step p OpTick = AdvanceCombatTick p"
| "player_step p (OpMove room q) = snd (MoveTo room q p)"
| "player_step p (OpEnter room q) = snd (EnterRoom room q p)"

lemmas player_inv_ops = player_inv_Rebind player_inv_ApplyDamage player_inv_BeginSkill
  player_inv_AdvanceCombatTick player_inv_MoveTo player_inv_EnterRoom

interpretation player_machine: machine player_step player_inv
proof
  show "player_inv p \<Longrightarrow> player_inv (player_step p x)" for p x
    by (cases x) (simp_all add: player_inv_ops)
qed

lemma player_step_limits:
  "ps_maxHp (player_step p x) = ps_maxHp p" "ps_maxMp (player_step p x) = ps_maxMp p"
  by (cases x; auto simp: RebindSession_def ApplyDamage_def BeginSkill_def AdvanceCombatTick_def
      clear_action_def MoveTo_def EnterRoom_def Let_def split: PositionCheckResult.splits)+

lemma player_run_limits:
  "ps_maxHp (run player_step p xs) = ps_maxHp p \<and> ps_maxMp (run player_step p xs) = ps_maxMp p"
  by (induction xs arbitrary: p) (simp_all add: player_step_limits)

text \<open>After any sequence of operations on a constructed player, hit points and mana are within the
  limits given to the constructor, a dead player performs no action, an action that is running has
  ticks left, and every stored cooldown is positive; so none of the decrements of a tick wraps around.\<close>

lemma player_limits:
  fixes ops :: "player_op list"
  assumes "make_PlayerState x room q mp hp = Some p\<^sub>0"
  defines "p \<equiv> run player_step p\<^sub>0 ops"
  shows "ps_currentHp p \<le> hp \<and> ps_currentMp p \<le> mp \<and>
    (ps_currentHp p = 0 \<longrightarrow> ps_actionPhase p = Idle) \<and>
    (ps_actionPhase p \<noteq> Idle \<longleftrightarrow> ps_actionRemainingTicks p \<noteq> 0) \<and>
    (\<forall>t \<in> snd ` set (ps_cooldowns p). t \<noteq> 0)"
proof -
  have "player_inv p" unfolding p_def
    by (rule player_machine.run_inv [OF player_inv_make [OF assms(1)]])
  moreover have "ps_maxHp p = hp" "ps_maxMp p = mp"
    using player_run_limits [of p\<^sub>0 ops] assms(1)
    by (auto simp: p_def make_PlayerState_def split: if_splits)
  ultimately show ?thesis by (auto simp: player_inv_def)
qed

lemma fresh_player_make: "make_PlayerState x 1 (point 1 1) 100 100 = (if x = 0 then None else Some (fresh_player x))"
  by (simp add: make_PlayerState_def fresh_player_def point_def)

text \<open>C35. The timeline of a skill: \<open>n\<close> ticks after it began, its action is in start-up, active, recovery
  or over exactly as the tick counts of the skill say, with the right number of ticks remaining.\<close>

theorem skill_timeline:
  assumes "BeginSkill i m c s a r p = (BeginSuccess, p')"
  shows "(ps_actionPhase ((AdvanceCombatTick ^^ n) p'), unat (ps_actionRemainingTicks ((AdvanceCombatTick ^^ n) p')))
    = action_at (unat s) (unat a) (unat r) n"
  using in_action_ticks [OF BeginSkill_in_action [OF assms], of n] by (simp add: in_action_def)

lemma fresh_player_begins:
  "fst (BeginSkill 5 40 3 1 2 1 (fresh_player 11)) = BeginSuccess"
  by (simp add: BeginSkill_def fresh_player_def Let_def)

theorem skill_timeline_witness:
  "ps_actionPhase ((AdvanceCombatTick ^^ 2) (snd (BeginSkill 5 40 3 1 2 1 (fresh_player 11)))) = Active"
  using skill_timeline [of 5 40 3 1 2 1 "fresh_player 11" "snd (BeginSkill 5 40 3 1 2 1 (fresh_player 11))" 2]
    fresh_player_begins
  by (simp add: prod_eq_iff action_at_def)

lemma tick_keeps_life [simp]: "ps_currentHp (AdvanceCombatTick p) = ps_currentHp p"
  by (simp add: AdvanceCombatTick_def clear_action_def Let_def)

lemma ticks_keep_life: "ps_currentHp ((AdvanceCombatTick ^^ n) p) = ps_currentHp p"
  by (induction n) simp_all

text \<open>A skill stays on cooldown for exactly its cooldown ticks: the remaining cooldown counts down by
  one per tick, while it is positive every attempt to use the skill again is refused, and afterwards
  it is no longer the cooldown that refuses it.\<close>

lemma cooldown_exact:
  assumes "player_inv p" "BeginSkill i m c s a r p = (BeginSuccess, p')" "c \<noteq> 0" "active \<noteq> 0"
  shows "unat (RemainingCooldown ((AdvanceCombatTick ^^ n) p') i) = unat c - n \<and>
    (fst (BeginSkill i mana c' st active rc ((AdvanceCombatTick ^^ n) p')) = OnCooldown \<longleftrightarrow> n < unat c)"
proof -
  have "um_ok (ps_cooldowns p)" using assms(1) by (simp add: player_inv_def)
  from BeginSkill_cooldown [OF assms(2,3) this]
  have t: "map_option unat (map_of (ps_cooldowns ((AdvanceCombatTick ^^ n) p')) i) =
      (if n < unat c then Some (unat c - n) else None)"
    using cooldown_ticks assms(3) by blast
  have "ps_currentHp p' \<noteq> 0" "i \<noteq> 0"
    using assms(2) by (auto simp: BeginSkill_def Let_def split: if_splits)
  with t assms(4) show ?thesis
    by (auto simp: RemainingCooldown_def BeginSkill_def Let_def um_contains_def ticks_keep_life
        split: option.splits if_splits)
qed

text \<open>A player moves exactly when it is alive, the room is its own and the target position is inside
  the room and in no standing obstacle; it then stands on the target, and on every refusal nothing
  changes and the result names the first condition that failed.\<close>

lemma MoveTo_exact:
  "MoveTo room q p =
     (if ps_currentHp p = 0 then (MoveDead, p)
      else if ps_roomId p \<noteq> room_id (rs_template room) then (WrongRoom, p)
      else if \<not> inner_point (rs_template room) q then (MoveOutsideRoom, p)
      else if \<exists>i < min (length (rs_obstacles room)) (length (room_obstacles (rs_template room))).
              \<not> os_destroyed (rs_obstacles room ! i) \<and>
              IsInsideCollisionBox (obstacle_collision (room_obstacles (rs_template room) ! i)) q
      then (MoveBlockedByObstacle, p)
      else (MoveSuccess, p\<lparr>ps_position := q\<rparr>))"
proof -
  have "list_ex P (zip xs ys) \<longleftrightarrow> (\<exists>i < min (length xs) (length ys). P (xs ! i, ys ! i))"
    for P :: "'a \<times> 'b \<Rightarrow> bool" and xs ys
    by (auto simp: list_ex_length)
  then show ?thesis
    by (auto simp: MoveTo_def CheckPosition_def inner_point_def room_Id_def)
qed

end
