(* ===== verification/Dungeon_Runs.thy ===== *)
theory Dungeon_Runs
  imports Sample_Data
begin

text \<open>
  What can happen to dungeons: the step relation of one instance (every public operation, and the
  writes of the combat and movement code through the shared pointers to its players and rooms) and
  the states a dungeon manager can reach. Both invariants are kept along every run, by rule
  induction.

  A rollback is a step only while the session it undoes is connected. The manager does not check
  this; the run on which it fails is one of the properties.
\<close>

text \<open>The steps of the game itself, which leave the roster alone.\<close>

inductive game_step :: "EnemyCatalog \<Rightarrow> DungeonInstance \<Rightarrow> DungeonInstance \<Rightarrow> bool" for cat where
  waves: "AdvanceRoomWaves cat d = Inr (n, d') \<Longrightarrow> game_step cat d d'"
| portal: "TryUsePortal cat x d = Inr (res, d') \<Longrightarrow> game_step cat d d'"
| start: "Start cat d = Inr (b, d') \<Longrightarrow> game_step cat d d'"
| finish: "game_step cat d (snd (Finish d))"
| try_finish: "game_step cat d (snd (TryFinishIfCleared d))"
| hurt: "game_step cat d (modify_player x (\<lambda>p. snd (ApplyDamage h p)) d)"
| begin_skill: "game_step cat d (modify_player x (\<lambda>p. snd (BeginSkill k m c s a r p)) d)"
| tick: "game_step cat d (modify_player x AdvanceCombatTick d)"
| move: "FindRoom d i = Some room \<Longrightarrow>
    game_step cat d (modify_player x (\<lambda>p. snd (MoveTo room q p)) d)"
| hit: "game_step cat d (modify_room i (\<lambda>r. snd (ApplyEnemyDamage e h r)) d)"
| smash: "game_step cat d (modify_room i (\<lambda>r. snd (ApplyObstacleDamage ob h r)) d)"

inductive instance_step :: "EnemyCatalog \<Rightarrow> DungeonInstance \<Rightarrow> DungeonInstance \<Rightarrow> bool" for cat where
  game: "game_step cat d d' \<Longrightarrow> instance_step cat d d'"
| bind: "instance_step cat d (snd (BindParticipantPlayer x i d))"
| disconnect: "instance_step cat d (snd (DisconnectParticipant x t d))"
| reconnect: "instance_step cat d (snd (ReconnectParticipant i y now grace d))"
| rollback: "\<not> IsParticipantDisconnected d y \<Longrightarrow>
    instance_step cat d (snd (RollbackParticipantReconnect i y rc d))"
| expire: "instance_step cat d (snd (RemoveExpiredDisconnectedParticipants now grace d))"
| remove_all: "instance_step cat d (snd (RemoveAllParticipants d))"

section \<open>The invariants along a step\<close>

lemma standing_same_place:
  assumes "standing rooms p" "player_inv p'" "ps_roomId p' = ps_roomId p" "ps_position p' = ps_position p"
  shows "standing rooms p'"
  using assms by (simp add: standing_def)

lemma stage_inv_modify_in_place:
  assumes "stage_inv cat d" "\<And>p. player_inv p \<Longrightarrow> player_inv (f p)"
    "\<And>p. ps_roomId (f p) = ps_roomId p" "\<And>p. ps_position (f p) = ps_position p"
  shows "stage_inv cat (modify_player x f d)"
proof (rule stage_inv_modify_player [OF assms(1)])
  fix p assume "map_of (di_players d) x = Some p"
  then have "standing (di_rooms d) p" by (rule stage_invD(6) [OF assms(1)])
  then show "standing (di_rooms d) (f p)"
    using assms(2-) by (blast intro: standing_same_place dest: standing_def [THEN iffD1])
qed

lemma combat_in_place:
  "ps_roomId (snd (ApplyDamage h p)) = ps_roomId p" "ps_position (snd (ApplyDamage h p)) = ps_position p"
  "ps_roomId (snd (BeginSkill k m c s a r p)) = ps_roomId p"
  "ps_position (snd (BeginSkill k m c s a r p)) = ps_position p"
  "ps_roomId (AdvanceCombatTick p) = ps_roomId p" "ps_position (AdvanceCombatTick p) = ps_position p"
  "ps_sessionId (snd (ApplyDamage h p)) = ps_sessionId p"
  "ps_sessionId (snd (BeginSkill k m c s a r p)) = ps_sessionId p"
  "ps_sessionId (AdvanceCombatTick p) = ps_sessionId p"
  "ps_sessionId (snd (MoveTo room q p)) = ps_sessionId p"
  by (auto simp: ApplyDamage_def BeginSkill_def AdvanceCombatTick_def MoveTo_def clear_action_def Let_def
      split: PositionCheckResult.splits)

lemma MoveTo_standing:
  assumes "standing rooms p" "map_of rooms (room_id (rs_template room)) = Some room"
  shows "standing rooms (snd (MoveTo room q p))"
  using assms player_inv_MoveTo [of p room q]
  by (auto simp: standing_def MoveTo_def CheckPosition_def inner_point_def room_Id_def
      split: PositionCheckResult.splits if_splits)

lemma stage_inv_MoveTo:
  assumes inv: "stage_inv cat d" and room: "FindRoom d i = Some room"
  shows "stage_inv cat (modify_player x (\<lambda>p. snd (MoveTo room q p)) d)"
proof (rule stage_inv_modify_player [OF inv])
  fix p assume "map_of (di_players d) x = Some p"
  moreover have "map_of (di_rooms d) (room_id (rs_template room)) = Some room"
    using stage_invD(4) [OF inv, of i room] room by (simp add: FindRoom_def room_of_def)
  ultimately show "standing (di_rooms d) (snd (MoveTo room q p))"
    using stage_invD(6) [OF inv] by (blast intro: MoveTo_standing)
qed

lemma um_modify_const:
  "um_ok m \<Longrightarrow> map_of m k = Some v \<Longrightarrow> um_modify k f m = um_modify k (\<lambda>_. f v) m"
  by (auto simp: um_modify_def um_find_iff_set [symmetric] intro!: map_cong)

lemma stage_inv_hit_room:
  assumes inv: "stage_inv cat d" and f: "\<And>r. room_inv cat r \<Longrightarrow> room_inv cat (f r)"
    "\<And>r. rs_template (f r) = rs_template r"
  shows "stage_inv cat (modify_room i f d)"
proof (cases "map_of (di_rooms d) i")
  case None
  then have "modify_room i f d = d" by (simp add: modify_room_def um_modify_absent um_contains_def)
  with inv show ?thesis by simp
next
  case (Some r)
  have "modify_room i f d = modify_room i (\<lambda>_. f r) d"
    using um_modify_const [OF stage_invD(2) [OF inv] Some, of f] by (simp add: modify_room_def)
  moreover have "room_inv cat r" using stage_invD(4) [OF inv Some] by (simp add: room_of_def)
  ultimately show ?thesis using stage_inv_modify_room [OF inv Some] f by simp
qed

lemma damage_template:
  "rs_template (snd (ApplyEnemyDamage e h r)) = rs_template r"
  "rs_template (snd (ApplyObstacleDamage ob h r)) = rs_template r"
  by (auto simp: ApplyEnemyDamage_def ApplyObstacleDamage_def split: option.splits)

lemma AdvanceRoomWaves_result:
  assumes "stage_inv cat d" "enemies_ok cat" "AdvanceRoomWaves cat d = Inr (n, d')"
  obtains m where "stage_inv cat d'" "d' = d\<lparr>di_rooms := m\<rparr>"
proof -
  from AdvanceRoomWaves_total [OF assms(1,2)] assms(3)
  have "stage_inv cat d'" "d' = d\<lparr>di_rooms := di_rooms d'\<rparr>" by auto
  then show ?thesis by (rule that)
qed

lemma game_step_inv:
  assumes "game_step cat d d'" "stage_inv cat d" "roster_inv d" "enemies_ok cat"
  shows "stage_inv cat d' \<and> roster_inv d'"
  using assms(1)
proof cases
  case (waves n)
  then obtain m where "stage_inv cat d'" "d' = d\<lparr>di_rooms := m\<rparr>"
    using AdvanceRoomWaves_result [OF assms(2,4)] by blast
  with assms(3) show ?thesis by simp
next
  case (portal x res)
  with TryUsePortal_total [OF assms(2-4), of x] show ?thesis by auto
next
  case (start b)
  then obtain t m where "stage_inv cat d'" "d' = d \<or> d' = d\<lparr>di_state := t, di_rooms := m\<rparr>"
    using Start_total [OF assms(2,4)] by (auto split: if_splits)
  with assms(3) show ?thesis by auto
next
  case finish
  with assms show ?thesis by (simp add: Finish_def)
next
  case try_finish
  with assms TryFinish_result [of d] show ?thesis by simp
qed (use assms in \<open>simp_all add: stage_inv_MoveTo stage_inv_modify_in_place stage_inv_hit_room
      combat_in_place damage_template roster_inv_modify_player
      player_inv_ApplyDamage player_inv_BeginSkill player_inv_AdvanceCombatTick
      room_inv_ApplyEnemyDamage room_inv_ApplyObstacleDamage\<close>)

lemma instance_step_inv:
  assumes "instance_step cat d d'" "stage_inv cat d" "roster_inv d" "enemies_ok cat"
  shows "stage_inv cat d' \<and> roster_inv d'"
  using assms(1)
proof cases
  case game
  then show ?thesis using assms(2-) by (rule game_step_inv)
qed (use assms in \<open>simp_all add: stage_inv_Bind stage_inv_Disconnect stage_inv_Reconnect
      stage_inv_Rollback stage_inv_RemoveExpired stage_inv_RemoveAll
      roster_inv_Bind roster_inv_Disconnect roster_inv_Reconnect
      roster_inv_Rollback roster_inv_RemoveExpired roster_inv_RemoveAll IsParticipantDisconnected_def\<close>)

text \<open>The life cycle only moves forward.\<close>

definition stage_of :: "DungeonState \<Rightarrow> nat" where
  "stage_of st = (case st of Waiting \<Rightarrow> 0 | Running \<Rightarrow> 1 | Finished \<Rightarrow> 2)"

lemma TryUsePortal_fields:
  assumes "TryUsePortal cat x d = Inr (res, d')"
  obtains "d' = d" | i r x p where "d' = modify_room i (\<lambda>_. r) (modify_player x (\<lambda>_. p) d)"
  using assms
  by (auto simp: TryUsePortal_def Let_def split: if_splits option.splits sum.splits prod.splits)

lemma Start_fields:
  assumes "Start cat d = Inr (b, d')"
  obtains "d' = d" | i r where "di_state d = Waiting" "d' = modify_room i (\<lambda>_. r) (d\<lparr>di_state := Running\<rparr>)"
  using assms by (auto simp: Start_def Let_def split: if_splits option.splits sum.splits prod.splits)

lemma game_step_keeps:
  assumes "game_step cat d d'" "stage_inv cat d" "enemies_ok cat"
  shows "di_dungeonId d' = di_dungeonId d \<and> di_partyId d' = di_partyId d \<and>
    di_participants d' = di_participants d \<and> stage_of (di_state d) \<le> stage_of (di_state d')"
  using assms(1)
proof cases
  case (waves n)
  then obtain m where "d' = d\<lparr>di_rooms := m\<rparr>"
    using AdvanceRoomWaves_result [OF assms(2,3)] by blast
  then show ?thesis by simp
next
  case (portal x res)
  then show ?thesis by (cases rule: TryUsePortal_fields) (simp_all add: modify_room_def modify_player_def)
next
  case (start b)
  then show ?thesis by (cases rule: Start_fields) (simp_all add: modify_room_def stage_of_def)
qed (simp_all add: Finish_def TryFinish_result TryFinish_iff modify_player_def modify_room_def stage_of_def)

section \<open>Reachable managers\<close>

text \<open>
  The party manager and the dungeon catalog that \<open>CreateDungeon\<close> consults are those of the server; what
  is known of them is their own invariant. A dungeon identifier counter that wraps around is excluded.
\<close>

definition parties_ok :: "PartyManager \<Rightarrow> bool" where
  "parties_ok parties \<longleftrightarrow> pm_inv parties \<and>
     (\<forall>p m. GetParty parties p = Some m \<longrightarrow> 0 \<notin> set (party_members m))"

inductive manager_reachable :: "EnemyCatalog \<Rightarrow> DungeonCatalog \<Rightarrow> DungeonManager \<Rightarrow> bool"
  for cat catalog where
  init: "manager_reachable cat catalog dm_init"
| create: "manager_reachable cat catalog s \<Longrightarrow> parties_ok parties \<Longrightarrow>
    unat (dm_nextDungeonId s) < 2 ^ 64 - 1 \<Longrightarrow>
    manager_reachable cat catalog (snd (CreateDungeon parties catalog pid tid now s))"
| register: "manager_reachable cat catalog s \<Longrightarrow>
    manager_reachable cat catalog (snd (RegisterPlayerSession x p now grace s))"
| rollback: "manager_reachable cat catalog s \<Longrightarrow>
    (\<And>d. map_of (dm_dungeons s) i = Some d \<Longrightarrow> \<not> IsParticipantDisconnected d y) \<Longrightarrow>
    manager_reachable cat catalog (snd (RollbackPlayerReconnect i p y x t s))"
| disconnect: "manager_reachable cat catalog s \<Longrightarrow>
    manager_reachable cat catalog (snd (DisconnectPlayerSession x t s))"
| sweep: "manager_reachable cat catalog s \<Longrightarrow>
    manager_reachable cat catalog (snd (SweepAbandonedParticipants now grace life s))"
| start: "manager_reachable cat catalog s \<Longrightarrow> StartDungeon cat i s = Inr (b, s') \<Longrightarrow>
    manager_reachable cat catalog s'"
| cancel: "manager_reachable cat catalog s \<Longrightarrow> manager_reachable cat catalog (snd (CancelDungeon i s))"
| finish: "manager_reachable cat catalog s \<Longrightarrow> manager_reachable cat catalog (snd (FinishDungeon i s))"
| stop: "manager_reachable cat catalog s \<Longrightarrow> manager_reachable cat catalog (dm_Stop s)"
| game: "manager_reachable cat catalog s \<Longrightarrow> map_of (dm_dungeons s) i = Some d \<Longrightarrow> game_step cat d d' \<Longrightarrow>
    manager_reachable cat catalog (s\<lparr>dm_dungeons := um_modify i (\<lambda>_. d') (dm_dungeons s)\<rparr>)"

lemma manager_reachable_inv:
  assumes "manager_reachable cat catalog s" "enemies_ok cat" "catalog_inv cat catalog"
  shows "dm_inv cat s"
  using assms(1)
proof induction
  case (create s parties pid tid now)
  then show ?case using assms(3) by (auto simp: parties_ok_def intro: dm_inv_CreateDungeon)
next
  case (start s i b s')
  then show ?case using dm_inv_StartDungeon [OF start.IH assms(2), of i] by auto
next
  case (game s i d d')
  then have "hosted cat i d" by (blast dest: dm_invD(3))
  then have "hosted cat i d'" "di_partyId d' = di_partyId d"
    using game_step_inv [OF game.hyps(3)] game_step_keeps [OF game.hyps(3)] assms(2)
    by (auto simp: hosted_def)
  then show ?case using dm_inv_update [OF game.IH game.hyps(2)] by blast
qed (auto intro: dm_inv_init RegisterPlayerSession_cases(1) dm_inv_Rollback dm_inv_Disconnect dm_inv_Sweep
      dm_inv_Cancel dm_inv_Finish dm_inv_Stop)

section \<open>What the sweep does\<close>

text \<open>A participant whose grace period has passed.\<close>

definition overdue :: "int \<Rightarrow> int \<Rightarrow> DungeonInstance \<Rightarrow> SessionId \<Rightarrow> bool" where
  "overdue now grace d x \<longleftrightarrow>
     (\<exists>t. map_of (di_disconnectedSince d) x = Some t \<and> t \<le> now \<and> ms grace \<le> now - t)"

lemma sweep_one_exact:
  assumes "roster_inv d" "0 < grace"
  shows "di_participants (snd (sweep_one now grace life d)) =
      (if lifetime_expired now life d then [] else filter (\<lambda>x. \<not> overdue now grace d x) (di_participants d))"
    "set (fst (sweep_one now grace life d)) =
      {x \<in> set (di_participants d). lifetime_expired now life d \<or> overdue now grace d x}"
proof -
  let ?xs = "fst (RemoveExpiredDisconnectedParticipants now grace d)"
  have mem: "x \<in> set ?xs \<longleftrightarrow> overdue now grace d x" for x
    using RemoveExpired_result [OF assms, of x now] by (auto simp: overdue_def)
  have "snd (RemoveExpiredDisconnectedParticipants now grace d) = fold remove_participant ?xs d"
    using assms(2) by (simp add: RemoveExpiredDisconnectedParticipants_def remove_expired_eq)
  then have left: "di_participants (snd (RemoveExpiredDisconnectedParticipants now grace d)) =
      filter (\<lambda>x. \<not> overdue now grace d x) (di_participants d)"
    using fold_remove_participant [OF assms(1), of ?xs] mem by simp
  have here: "overdue now grace d x \<Longrightarrow> x \<in> set (di_participants d)" for x
    using roster_invD(8,13) [OF assms(1), of x] by (auto simp: overdue_def um_contains_def)
  show "di_participants (snd (sweep_one now grace life d)) =
      (if lifetime_expired now life d then [] else filter (\<lambda>x. \<not> overdue now grace d x) (di_participants d))"
    using left by (simp add: sweep_one_def RemoveAllParticipants_def)
  show "set (fst (sweep_one now grace life d)) =
      {x \<in> set (di_participants d). lifetime_expired now life d \<or> overdue now grace d x}"
    using mem here by (auto simp: sweep_one_def RemoveAllParticipants_def)
qed

lemma Sweep_result:
  assumes "dm_inv cat s" "0 < grace" "0 < life" "SweepAbandonedParticipants now grace life s = (sw, s')"
  shows "(\<forall>i. map_option di_participants (FindDungeon s' i) =
      (case FindDungeon s i of None \<Rightarrow> None
       | Some d \<Rightarrow>
           let left = filter (\<lambda>x. \<not> overdue now grace d x) (di_participants d)
           in if lifetime_expired now life d \<or> left = [] then None else Some left)) \<and>
    set (sw_releasedDungeons sw) = {i. FindDungeon s i \<noteq> None \<and> FindDungeon s' i = None} \<and>
    set (sw_removedParticipants sw) = {(i, x). \<exists>d. FindDungeon s i = Some d \<and> x \<in> set (di_participants d) \<and>
      (lifetime_expired now life d \<or> overdue now grace d x)}"
proof -
  have ok: "um_ok (dm_dungeons s)" by (rule dm_invD(1) [OF assms(1)])
  have roster: "roster_inv d" if "map_of (dm_dungeons s) i = Some d" for i d
    using dm_invD(3) [OF assms(1) that] by (simp add: hosted_def)
  have eq: "dm_dungeons s' = map (\<lambda>e. (fst e, snd (sweep_one now grace life (snd e))))
      (filter (\<lambda>e. survives now grace life (snd e)) (dm_dungeons s))"
    "sw_releasedDungeons sw = map fst (filter (\<lambda>e. \<not> survives now grace life (snd e)) (dm_dungeons s))"
    "sw_removedParticipants sw =
      concat (map (\<lambda>e. map (Pair (fst e)) (fst (sweep_one now grace life (snd e)))) (dm_dungeons s))"
    using assms(2-) by (auto simp: SweepAbandonedParticipants_def sweep_dungeons_eq)
  have find: "map_of (dm_dungeons s') i = (case map_of (dm_dungeons s) i of None \<Rightarrow> None
      | Some d \<Rightarrow> if survives now grace life d then Some (snd (sweep_one now grace life d)) else None)" for i
    unfolding eq(1) by (rule map_of_sweep [OF ok])
  have surv: "survives now grace life d \<longleftrightarrow> \<not> lifetime_expired now life d \<and>
      filter (\<lambda>x. \<not> overdue now grace d x) (di_participants d) \<noteq> []"
    if "map_of (dm_dungeons s) i = Some d" for i d
    using sweep_one_exact(1) [OF roster [OF that] assms(2), of now life] by (simp add: survives_def)
  have "map_option di_participants (FindDungeon s' i) =
      (case FindDungeon s i of None \<Rightarrow> None
       | Some d \<Rightarrow>
           let left = filter (\<lambda>x. \<not> overdue now grace d x) (di_participants d)
           in if lifetime_expired now life d \<or> left = [] then None else Some left)" for i
  proof (cases "map_of (dm_dungeons s) i")
    case (Some d)
    with surv [OF Some] sweep_one_exact(1) [OF roster [OF Some] assms(2), of now life] show ?thesis
      by (simp add: FindDungeon_def find Let_def)
  qed (simp add: FindDungeon_def find)
  moreover have "set (sw_releasedDungeons sw) = {i. FindDungeon s i \<noteq> None \<and> FindDungeon s' i = None}"
  proof -
    have "i \<in> set (sw_releasedDungeons sw) \<longleftrightarrow>
        (\<exists>d. map_of (dm_dungeons s) i = Some d \<and> \<not> survives now grace life d)" for i
      unfolding eq(2) um_find_iff_set [OF ok] by force
    then show ?thesis by (auto simp: FindDungeon_def find split: if_splits option.splits)
  qed
  moreover have "set (sw_removedParticipants sw) = {(i, x). \<exists>d. FindDungeon s i = Some d \<and> x \<in> set (di_participants d) \<and>
      (lifetime_expired now life d \<or> overdue now grace d x)}"
  proof -
    have "(i, x) \<in> set (sw_removedParticipants sw) \<longleftrightarrow>
        (\<exists>d. map_of (dm_dungeons s) i = Some d \<and> x \<in> set (fst (sweep_one now grace life d)))" for i x
      unfolding eq(3) um_find_iff_set [OF ok] by force
    then show ?thesis
      using sweep_one_exact(2) [OF roster assms(2), of _ _ now life] by (auto simp: FindDungeon_def)
  qed
  ultimately show ?thesis by blast
qed

section \<open>Rosters\<close>

text \<open>The participants of the hosted dungeons: what the other components need to know of the manager.\<close>

definition roster :: "DungeonManager \<Rightarrow> DungeonId \<Rightarrow> SessionId list option" where
  "roster dm i = map_option di_participants (map_of (dm_dungeons dm) i)"

lemma roster_modify:
  "map_of (dm_dungeons dm) i = Some d \<Longrightarrow>
   roster (dm\<lparr>dm_dungeons := um_modify i (\<lambda>_. d') (dm_dungeons dm)\<rparr>) = (roster dm)(i \<mapsto> di_participants d')"
  by (auto simp: roster_def umap_simps fun_eq_iff)

lemma roster_modify_same:
  assumes "map_of (dm_dungeons dm) i = Some d" "di_participants d' = di_participants d"
  shows "roster (dm\<lparr>dm_dungeons := um_modify i (\<lambda>_. d') (dm_dungeons dm)\<rparr>) = roster dm"
  using assms by (auto simp: roster_def umap_simps fun_eq_iff)

end
