(* ===== verification/Dungeon_Properties.thy ===== *)
theory Dungeon_Properties
  imports Dungeon_Runs
begin

text \<open>
  Properties of dungeon instances and of the dungeon manager, each with a concrete instance where it
  has hypotheses. Two of them exhibit runs on which the manager does not do what it is for.
\<close>

section \<open>Instances\<close>

text \<open>Rolling a reconnect back restores the dungeon: participants in their order, players, player
  bindings and the time of the disconnect are what they were before.\<close>

lemma reconnect_rollback_roundtrip:
  assumes "roster_inv d" "ReconnectParticipant i y now grace d = (Some rc, d\<^sub>1)"
  shows "\<exists>d\<^sub>2. RollbackParticipantReconnect i y rc d\<^sub>1 = (True, d\<^sub>2) \<and>
    di_participants d\<^sub>2 = di_participants d \<and> map_of (di_players d\<^sub>2) = map_of (di_players d) \<and>
    map_of (di_participantPlayerIds d\<^sub>2) = map_of (di_participantPlayerIds d) \<and>
    di_playerSessions d\<^sub>2 = di_playerSessions d \<and>
    map_of (di_disconnectedSince d\<^sub>2) = map_of (di_disconnectedSince d) \<and>
    di_rooms d\<^sub>2 = di_rooms d \<and> di_state d\<^sub>2 = di_state d"
  using assms by (rule Reconnect_Rollback)




text \<open>Who may come back: a reconnect succeeds exactly for a player bound in this dungeon whose session
  is disconnected, under a session identifier nobody in the dungeon uses, and before the grace period
  has passed.\<close>

lemma reconnect_accepts_exactly:
  assumes "roster_inv d"
  shows "fst (ReconnectParticipant i y now grace d) \<noteq> None \<longleftrightarrow>
    i \<noteq> 0 \<and> y \<noteq> 0 \<and> 0 < grace \<and> \<not> HasParticipant d y \<and>
    (\<exists>x t. map_of (di_playerSessions d) i = Some x \<and> map_of (di_disconnectedSince d) x = Some t \<and>
       t \<le> now \<and> now - t < ms grace)"
proof (cases rule: Reconnect_cases [OF assms, of i y now grace])
  case 1
  show ?thesis
  proof (rule ccontr)
    assume "\<not> ?thesis"
    with 1 obtain x t where c: "i \<noteq> 0" "y \<noteq> 0" "0 < grace" "\<not> um_contains (di_players d) y"
      "map_of (di_playerSessions d) i = Some x" "map_of (di_disconnectedSince d) x = Some t"
      "t \<le> now" "now - t < ms grace"
      by (auto simp: HasParticipant_def)
    from move_participant_eq [OF assms c(5,2)] obtain p where
      "fst (move_participant i x y d)" by (metis fst_conv)
    with c have "fst (ReconnectParticipant i y now grace d) \<noteq> None"
      by (auto simp: ReconnectParticipant_def split: prod.splits)
    with 1 show False by simp
  qed
next
  case (2 x t)
  then show ?thesis by (auto simp: HasParticipant_def)
qed

text \<open>The number of connected participants, a difference of two unsigned sizes, does not wrap: it is
  the number of participants that are not disconnected.\<close>

lemma connected_count_exact:
  assumes "roster_inv d"
  shows "unat (ConnectedParticipantCount d) =
    card {x \<in> set (di_participants d). \<not> IsParticipantDisconnected d x}"
  using assms by (rule ConnectedParticipantCount_eq)


text \<open>A dungeon finishes by itself exactly when it is running, somebody is in it, everybody stands in
  the last room and every room is cleared; it then only changes its state.\<close>

lemma TryFinish_exact:
  "TryFinishIfCleared d =
     (if di_state d = Running \<and> di_players d \<noteq> [] \<and>
         (\<forall>p \<in> snd ` set (di_players d). ps_roomId p = room_id (last (dt_rooms (di_dungeonTemplate d)))) \<and>
         (\<forall>r \<in> snd ` set (di_rooms d). IsCleared r)
      then (True, d\<lparr>di_state := Finished\<rparr>) else (False, d))"
  using TryFinish_iff [of d] TryFinish_result [of d] by (auto simp: prod_eq_iff)

text \<open>C30. Portals never throw and keep both invariants. A player that uses one stood in its trigger area,
  the room was cleared if the portal asks for it, and the player now stands at the target position,
  inside the target room; any other outcome changes nothing.\<close>

theorem portal_safe:
  assumes "stage_inv cat d" "roster_inv d" "enemies_ok cat"
  shows "\<exists>res d'. TryUsePortal cat x d = Inr (res, d') \<and> stage_inv cat d' \<and> roster_inv d' \<and>
    (if res = UsePortal_Success
     then \<exists>p room (portal :: PortalTemplate) p'. FindPlayer d x = Some p \<and> FindRoom d (ps_roomId p) = Some room \<and>
       portal \<in> set (room_portals (rs_template room)) \<and>
       IsInsideCollisionBox (portal_triggerArea portal) (ps_position p) \<and>
       (portal_requiresRoomClear portal \<longrightarrow> IsCleared room) \<and>
       FindPlayer d' x = Some p' \<and> ps_roomId p' = portal_targetRoomId portal \<and>
       ps_position p' = portal_targetPosition portal
     else d' = d)"
proof -
  obtain res d' where t: "TryUsePortal cat x d = Inr (res, d')" "stage_inv cat d'" "roster_inv d'"
    "res \<noteq> UsePortal_Success \<longrightarrow> d' = d"
    using TryUsePortal_total [OF assms, of x] by blast
  have "\<exists>p room (portal :: PortalTemplate) p'. FindPlayer d x = Some p \<and> FindRoom d (ps_roomId p) = Some room \<and>
       portal \<in> set (room_portals (rs_template room)) \<and>
       IsInsideCollisionBox (portal_triggerArea portal) (ps_position p) \<and>
       (portal_requiresRoomClear portal \<longrightarrow> IsCleared room) \<and>
       FindPlayer d' x = Some p' \<and> ps_roomId p' = portal_targetRoomId portal \<and>
       ps_position p' = portal_targetPosition portal" if "res = UsePortal_Success"
  proof -
    from t(1) that obtain p room ts target p' and portal :: PortalTemplate where
      u: "FindPlayer d x = Some p" "FindRoom d (ps_roomId p) = Some room"
      "IsInsideCollisionBox (portal_triggerArea portal) (ps_position p)"
      "portal_requiresRoomClear portal \<longrightarrow> IsCleared room"
      "FindRoom d (portal_targetRoomId portal) = Some target"
      "EnterRoom target (portal_targetPosition portal) p = (MoveSuccess, p')"
      "FindPlayer d' x = Some p'" "ts \<in> set (dt_rooms (di_dungeonTemplate d))" "room_id ts = ps_roomId p"
      "portal \<in> set (room_portals ts)"
      by (auto simp: TryUsePortal_def Let_def FindPlayer_def modify_room_def modify_player_def um_find_modify
          split: if_splits option.splits sum.splits prod.splits dest!: find_Some_in)
    have "room_id (rs_template target) = portal_targetRoomId portal"
      using stage_invD(4) [OF assms(1)] u(5) by (simp add: FindRoom_def room_of_def)
    then have "ps_roomId p' = portal_targetRoomId portal" "ps_position p' = portal_targetPosition portal"
      using u(6) by (auto simp: EnterRoom_def room_Id_def split: if_splits PositionCheckResult.splits)
    moreover have "ts = rs_template room"
      using stage_invD(4) [OF assms(1), of "ps_roomId p" room] u(2,8,9)
        rooms_validD(2) [OF stage_invD(1) [OF assms(1)]]
      by (auto simp: FindRoom_def room_of_def distinct_map inj_on_def)
    ultimately show ?thesis using u(1-4,7,10) by blast
  qed
  with t show ?thesis by (intro exI [of _ res] exI [of _ d']) auto
qed

theorem portal_safe_witness:
  "TryUsePortal sample_enemies 11 waiting_dungeon = Inr (DungeonNotRunning, waiting_dungeon)"
  using portal_safe [OF waiting_dungeon_inv(2,1) sample_enemies_ok, of 11]
  by (auto simp: TryUsePortal_def waiting_dungeon_def)

section \<open>The manager\<close>

text \<open>Whatever sequence of manager operations and game steps led here, every hosted dungeon satisfies
  the roster and stage invariants and has participants, the index from parties to dungeons is exact, and
  the lookup by party, which indexes with \<open>at\<close>, never throws.\<close>

lemma manager_always_consistent:
  assumes "manager_reachable cat catalog s" "enemies_ok cat" "catalog_inv cat catalog"
  shows "(\<forall>i d. FindDungeon s i = Some d \<longrightarrow>
      di_dungeonId d = i \<and> roster_inv d \<and> stage_inv cat d \<and> di_participants d \<noteq> []) \<and>
    (\<forall>p. FindDungeonByParty s p = Inr (map_option snd (find (\<lambda>e. di_partyId (snd e) = p) (dm_dungeons s))))"
proof (intro conjI allI impI)
  have inv: "dm_inv cat s" by (rule manager_reachable_inv [OF assms])
  show "di_dungeonId d = i" "roster_inv d" "stage_inv cat d" "di_participants d \<noteq> []"
    if "FindDungeon s i = Some d" for i d
    using dm_invD(3) [OF inv] that by (auto simp: FindDungeon_def hosted_def)
  fix p
  show "FindDungeonByParty s p = Inr (map_option snd (find (\<lambda>e. di_partyId (snd e) = p) (dm_dungeons s)))"
  proof (cases "find (\<lambda>e. di_partyId (snd e) = p) (dm_dungeons s)")
    case None
    have "map_of (dm_partyDungeons s) p = None"
    proof (rule ccontr)
      assume "map_of (dm_partyDungeons s) p \<noteq> None"
      then obtain j d where "map_of (dm_dungeons s) j = Some d" "di_partyId d = p"
        using dm_invD(6) [OF inv] by blast
      with None show False by (auto simp: find_None_iff dest!: map_of_SomeD)
    qed
    with None show ?thesis by (simp add: FindDungeonByParty_def)
  next
    case (Some e)
    obtain j d' where e: "e = (j, d')" by fastforce
    from find_dungeon [OF dm_invD(1) [OF inv] Some [unfolded e]]
    have "map_of (dm_dungeons s) j = Some d'" "di_partyId d' = p" by auto
    with dm_invD(4) [OF inv this(1)] Some e show ?thesis by (simp add: FindDungeonByParty_def)
  qed
qed

definition sample_parties :: PartyManager where
  "sample_parties = \<lparr>pm_nextPartyId = 2,
     pm_parties = [(1, \<lparr>party_id = 1, party_leader = 11, party_members = [11, 12]\<rparr>)],
     pm_joinedParties = [(11, 1), (12, 1)]\<rparr>"

lemma sample_parties_ok: "parties_ok sample_parties"
proof -
  have "sample_parties = run party_step pm_init [OpCreateParty 11, OpJoinParty 1 12]"
    by (simp add: sample_parties_def pm_init_def CreateParty_def JoinParty_def um_emplace_def um_contains_def
        um_modify_def MAX_PARTY_MEMBERS_def)
  then have "pm_inv sample_parties"
    using party_machine.budget_run_inv [OF pm_inv_init, of "[OpCreateParty 11, OpJoinParty 1 12]"]
    by (simp add: pm_init_def)
  then show ?thesis by (simp add: parties_ok_def) (simp add: sample_parties_def GetParty_def)
qed

lemma sample_reachable:
  "manager_reachable sample_enemies sample_dungeons
     (snd (CreateDungeon sample_parties sample_dungeons 1 1 0 dm_init))"
  by (rule manager_reachable.create [OF manager_reachable.init sample_parties_ok]) (simp add: dm_init_def)

lemma sample_created:
  "dm_dungeons (snd (CreateDungeon sample_parties sample_dungeons 1 1 0 dm_init)) = [(1, waiting_dungeon)]"
  by (simp add: CreateDungeon_def dm_init_def sample_parties_def GetParty_def GetDungeon_def sample_dungeons_eq
      make_waiting_dungeon um_emplace_def um_contains_def Let_def)

text \<open>A dungeon never moves backwards through Waiting, Running and Finished, and no game step changes
  its identity or its participants.\<close>

lemma life_cycle_forward:
  assumes "(game_step cat)\<^sup>*\<^sup>* d d'" "stage_inv cat d" "roster_inv d" "enemies_ok cat"
  shows "stage_of (di_state d) \<le> stage_of (di_state d') \<and> di_dungeonId d' = di_dungeonId d \<and>
    di_partyId d' = di_partyId d \<and> di_participants d' = di_participants d \<and> stage_inv cat d' \<and> roster_inv d'"
  using assms(1)
proof induction
  case base
  then show ?case using assms by simp
next
  case (step d' d'')
  then show ?case
    using game_step_keeps [OF step.hyps(2) _ assms(4)] game_step_inv [OF step.hyps(2) _ _ assms(4)] by auto
qed

lemma waiting_starts: "\<exists>d. Start sample_enemies waiting_dungeon = Inr (True, d) \<and> di_state d = Running"
proof -
  obtain d m where "Start sample_enemies waiting_dungeon = Inr (di_state waiting_dungeon = Waiting, d)"
    "if di_state waiting_dungeon = Waiting then d = waiting_dungeon\<lparr>di_state := Running, di_rooms := m\<rparr>
     else d = waiting_dungeon"
    using Start_total [OF waiting_dungeon_inv(2) sample_enemies_ok] by metis
  then show ?thesis by (simp add: waiting_dungeon_def)
qed

text \<open>A player is logged in through one session at a time: a registration under a second session is
  refused without effect while the first is active, and after a successful registration no other
  session is authenticated as the same player.\<close>

lemma one_session_per_player:
  assumes "dm_inv cat s"
  shows "(map_of (dm_activePlayerSessions s) p = Some x \<longrightarrow> x \<noteq> y \<longrightarrow>
      RegisterPlayerSession y p now grace s = (invalid_registration, s)) \<and>
    (map_of (dm_authenticatedPlayers (snd (RegisterPlayerSession y q now grace s))) x = Some p \<longrightarrow>
     map_of (dm_authenticatedPlayers (snd (RegisterPlayerSession y q now grace s))) z = Some p \<longrightarrow> x = z)"
proof (intro conjI impI)
  show "RegisterPlayerSession y p now grace s = (invalid_registration, s)"
    if "map_of (dm_activePlayerSessions s) p = Some x" "x \<noteq> y"
    using that by (simp add: RegisterPlayerSession_def)
  note inv = RegisterPlayerSession_cases(1) [OF assms, of y q now grace]
  show "x = z"
    if "map_of (dm_authenticatedPlayers (snd (RegisterPlayerSession y q now grace s))) x = Some p"
      "map_of (dm_authenticatedPlayers (snd (RegisterPlayerSession y q now grace s))) z = Some p"
    using dm_invD(7) [OF inv that(1)] dm_invD(7) [OF inv that(2)] by simp
qed

text \<open>C29. The sweep is exact: a dungeon is released when its lifetime has passed or every participant is
  overdue, a surviving dungeon keeps exactly the participants that are not overdue, in their order, and
  the report lists exactly what was removed and released.\<close>

theorem sweep_exact:
  assumes "dm_inv cat s" "0 < grace" "0 < life" "SweepAbandonedParticipants now grace life s = (sw, s')"
  shows "(\<forall>i. map_option di_participants (FindDungeon s' i) =
      (case FindDungeon s i of None \<Rightarrow> None
       | Some d \<Rightarrow>
           let left = filter (\<lambda>x. \<not> overdue now grace d x) (di_participants d)
           in if lifetime_expired now life d \<or> left = [] then None else Some left)) \<and>
    set (sw_releasedDungeons sw) = {i. FindDungeon s i \<noteq> None \<and> FindDungeon s' i = None} \<and>
    set (sw_removedParticipants sw) = {(i, x). \<exists>d. FindDungeon s i = Some d \<and> x \<in> set (di_participants d) \<and>
      (lifetime_expired now life d \<or> overdue now grace d x)}"
  using assms by (rule Sweep_result)

theorem sweep_exact_witness:
  "sw_releasedDungeons (fst (SweepAbandonedParticipants 2000000 1 1 sample_manager)) = [1]"
proof -
  have "set (sw_releasedDungeons (fst (SweepAbandonedParticipants 2000000 1 1 sample_manager))) =
    {i. FindDungeon sample_manager i \<noteq> None \<and>
        FindDungeon (snd (SweepAbandonedParticipants 2000000 1 1 sample_manager)) i = None}"
    "map_option di_participants (FindDungeon (snd (SweepAbandonedParticipants 2000000 1 1 sample_manager)) 1) = None"
    using sweep_exact [OF sample_manager_inv, of 1 1 2000000 _
        "snd (SweepAbandonedParticipants 2000000 1 1 sample_manager)"]
    by (auto simp: sample_manager_def FindDungeon_def lifetime_expired_def bound_dungeon_def waiting_dungeon_def ms_def
        prod_eq_iff)
  then show ?thesis
    by (simp add: sample_manager_def SweepAbandonedParticipants_def sweep_one_def lifetime_expired_def
        RemoveAllParticipants_def bound_dungeon_def waiting_dungeon_def ms_def)
qed

definition regrouped_parties :: PartyManager where
  "regrouped_parties = run party_step sample_parties [OpLeaveParty 11, OpCreateParty 11]"

lemma regrouped_parties_eq:
  "regrouped_parties =
     \<lparr>pm_nextPartyId = 3,
      pm_parties = [(1, \<lparr>party_id = 1, party_leader = 12, party_members = [12]\<rparr>),
                    (2, \<lparr>party_id = 2, party_leader = 11, party_members = [11]\<rparr>)],
      pm_joinedParties = [(12, 1), (11, 2)]\<rparr>"
  by (simp add: regrouped_parties_def sample_parties_def CreateParty_def LeaveParty_def party_without_def
      um_emplace_def um_contains_def um_modify_def um_erase_def Let_def)

lemma regrouped_parties_ok: "parties_ok regrouped_parties"
proof -
  have "pm_inv regrouped_parties"
    unfolding regrouped_parties_def using sample_parties_ok
    by (intro party_machine.budget_run_inv) (simp_all add: parties_ok_def sample_parties_def)
  then show ?thesis by (simp add: parties_ok_def) (simp add: regrouped_parties_eq GetParty_def)
qed

definition solo_dungeon :: DungeonInstance where
  "solo_dungeon = waiting_dungeon\<lparr>di_dungeonId := 2, di_partyId := 2, di_participants := [11],
     di_players := [(11, fresh_player 11)]\<rparr>"

lemma make_solo_dungeon: "make_DungeonInstance 2 forest 2 [11] 0 = Inr solo_dungeon"
  by (simp add: make_DungeonInstance_def solo_dungeon_def waiting_dungeon_def forest_def MAX_PARTY_MEMBERS_def
      um_emplace_def um_contains_def first_room_def last_room_def make_PlayerState_def fresh_player_def
      point_def)

text \<open>C40. A session can take part in two dungeons: \<open>CreateDungeon\<close> does not ask whether a member of the
  party is already in another one, and leaving a party does not leave its dungeon. When such a session
  disconnects, only the first dungeon found is told; in the other one it stays connected.\<close>

theorem disconnect_misses_second_dungeon:
  "let s\<^sub>1 = snd (CreateDungeon sample_parties sample_dungeons 1 1 0 dm_init);
       s\<^sub>2 = snd (CreateDungeon (run party_step sample_parties [OpLeaveParty 11, OpCreateParty 11])
                  sample_dungeons 2 1 0 s\<^sub>1);
       (told, s\<^sub>3) = DisconnectPlayerSession 11 9 s\<^sub>2
   in manager_reachable sample_enemies sample_dungeons s\<^sub>3 \<and> told = Some 1 \<and>
      (\<exists>d. FindDungeon s\<^sub>3 2 = Some d \<and> HasParticipant d 11 \<and> \<not> IsParticipantDisconnected d 11)"
proof -
  define s\<^sub>1 where "s\<^sub>1 = snd (CreateDungeon sample_parties sample_dungeons 1 1 0 dm_init)"
  define s\<^sub>2 where "s\<^sub>2 = snd (CreateDungeon regrouped_parties sample_dungeons 2 1 0 s\<^sub>1)"
  have s1: "s\<^sub>1 = dm_init\<lparr>dm_nextDungeonId := 2, dm_dungeons := [(1, waiting_dungeon)], dm_partyDungeons := [(1, 1)]\<rparr>"
    by (simp add: s\<^sub>1_def CreateDungeon_def dm_init_def sample_parties_def GetParty_def GetDungeon_def
        sample_dungeons_eq make_waiting_dungeon um_emplace_def um_contains_def Let_def)
  have s2: "dm_dungeons s\<^sub>2 = [(1, waiting_dungeon), (2, solo_dungeon)]" "dm_authenticatedPlayers s\<^sub>2 = []"
    by (simp_all add: s\<^sub>2_def s1 CreateDungeon_def dm_init_def regrouped_parties_eq GetParty_def GetDungeon_def
        sample_dungeons_eq make_solo_dungeon um_emplace_def um_contains_def Let_def)
  have reach: "manager_reachable sample_enemies sample_dungeons s\<^sub>2"
    unfolding s\<^sub>2_def
    by (rule manager_reachable.create [OF sample_reachable [folded s\<^sub>1_def] regrouped_parties_ok])
       (simp add: s1 dm_init_def)
  have "fst (DisconnectPlayerSession 11 9 s\<^sub>2) = Some 1"
    "map_of (dm_dungeons (snd (DisconnectPlayerSession 11 9 s\<^sub>2))) 2 = Some solo_dungeon"
    by (simp_all add: DisconnectPlayerSession_def s2 DisconnectParticipant_def waiting_dungeon_def um_contains_def)
  moreover have "HasParticipant solo_dungeon 11" "\<not> IsParticipantDisconnected solo_dungeon 11"
    by (simp_all add: solo_dungeon_def waiting_dungeon_def HasParticipant_def IsParticipantDisconnected_def
        um_contains_def)
  ultimately show ?thesis
    using manager_reachable.disconnect [OF reach, of 11 9]
    unfolding Let_def case_prod_beta regrouped_parties_def [symmetric] s\<^sub>1_def [symmetric] s\<^sub>2_def [symmetric]
      FindDungeon_def
    by blast
qed

end
