(* ===== verification/Dungeon_Protocol.thy ===== *)
theory Dungeon_Protocol
  imports Dungeon_Instance
begin

text \<open>
  The UDP messages of a dungeon (\<open>src/include/DungeonProtocol.h\<close>, \<open>src/src/DungeonProtocol.cpp\<close>).

  The byte format is FlatBuffers with generated accessors, which is not part of the repository's
  sources. It is a parameter of the model: \<open>parse\<close> stands for the verifier together with the
  accessors (\<open>None\<close> when verification fails), \<open>serialize\<close> for the builder, both over the tables of
  the schema (\<open>DungeonMessage\<close> below). What is modelled is everything the sources do with it: the
  validation of the fields, the checks of version and payload type, the construction of snapshots.
  The accessor of a union member may return a null pointer, hence the options in \<open>DungeonPayload\<close>.
\<close>

type_synonym DungeonUdpToken = u64

definition DUNGEON_PROTOCOL_VERSION :: u16 where "DUNGEON_PROTOCOL_VERSION = 2"

record PlayerMovementMessage =
  mv_dungeonId :: DungeonId
  mv_sequence :: u32
  mv_moveX :: float32
  mv_moveY :: float32
  mv_jump :: bool

record PlayerAttackMessage =
  at_dungeonId :: DungeonId
  at_sequence :: u32
  at_skillId :: SkillId
  at_directionX :: float32
  at_directionY :: float32

record UdpHelloMessage =
  he_dungeonId :: DungeonId
  he_sessionId :: SessionId
  he_token :: DungeonUdpToken

datatype UdpHelloResult = HelloSuccess | InvalidDungeon | AuthenticationFailed

record UdpHelloAckMessage =
  ack_dungeonId :: DungeonId
  ack_result :: UdpHelloResult
  ack_serverTick :: u32

record UdpHeartbeatMessage =
  hb_dungeonId :: DungeonId
  hb_sessionId :: SessionId

section \<open>The tables of the schema\<close>

record PlayerSnapshotTable =
  pst_sessionId :: SessionId
  pst_roomId :: RoomId
  pst_position :: Position
  pst_currentMp :: u32
  pst_maxMp :: u32
  pst_currentHp :: u32
  pst_maxHp :: u32
  pst_alive :: bool
  pst_skillId :: SkillId
  pst_phase :: SkillActionPhase
  pst_remainingTicks :: u32
  pst_cooldowns :: "(SkillId \<times> u32) list"

record EnemySnapshotTable =
  est_entityId :: DungeonEntityId
  est_enemyTemplateId :: EnemyTemplateId
  est_roomId :: RoomId
  est_position :: Position
  est_currentHp :: u32
  est_alive :: bool

record SnapshotTable =
  st_serverTick :: u32
  st_players :: "PlayerSnapshotTable list"
  st_enemies :: "EnemySnapshotTable list"
  st_state :: DungeonState

datatype DungeonPayload =
  Payload_NONE
| Payload_PlayerMovement "(u32 \<times> float32 \<times> float32 \<times> bool) option"
| Payload_PlayerAttack "(u32 \<times> SkillId \<times> float32 \<times> float32) option"
| Payload_UdpHello "(SessionId \<times> DungeonUdpToken) option"
| Payload_UdpHelloAck "(UdpHelloResult \<times> u32) option"
| Payload_UdpHeartbeat "SessionId option"
| Payload_DungeonSnapshot "SnapshotTable option"

record DungeonMessage =
  msg_protocol_version :: u16
  msg_dungeon_id :: DungeonId
  msg_payload :: DungeonPayload

type_synonym parser = "u8 list \<Rightarrow> DungeonMessage option"
type_synonym serializer = "DungeonMessage \<Rightarrow> u8 list"

section \<open>Validation\<close>

definition IsValid_movement :: "PlayerMovementMessage \<Rightarrow> bool" where
  "IsValid_movement m \<longleftrightarrow>
     mv_dungeonId m \<noteq> 0 \<and> isfinite (mv_moveX m) \<and> isfinite (mv_moveY m) \<and>
     f32_ge (mv_moveX m) (f32_neg f32_1) \<and> f32_le (mv_moveX m) f32_1 \<and>
     f32_ge (mv_moveY m) (f32_neg f32_1) \<and> f32_le (mv_moveY m) f32_1"

definition IsValid_attack :: "PlayerAttackMessage \<Rightarrow> bool" where
  "IsValid_attack a \<longleftrightarrow>
     (let directionLengthSquared =
        f32_add (f32_mul (at_directionX a) (at_directionX a)) (f32_mul (at_directionY a) (at_directionY a))
      in at_dungeonId a \<noteq> 0 \<and> at_skillId a \<noteq> 0 \<and>
         isfinite (at_directionX a) \<and> isfinite (at_directionY a) \<and>
         f32_ge (at_directionX a) (f32_neg f32_1) \<and> f32_le (at_directionX a) f32_1 \<and>
         f32_ge (at_directionY a) (f32_neg f32_1) \<and> f32_le (at_directionY a) f32_1 \<and>
         f32_gt directionLengthSquared f32_0)"

definition IsValid_hello :: "UdpHelloMessage \<Rightarrow> bool" where
  "IsValid_hello h \<longleftrightarrow> he_dungeonId h \<noteq> 0 \<and> he_sessionId h \<noteq> 0 \<and> he_token h \<noteq> 0"

definition IsValid_ack :: "UdpHelloAckMessage \<Rightarrow> bool" where
  "IsValid_ack a \<longleftrightarrow>
     ack_dungeonId a \<noteq> 0 \<and> (ack_result a = HelloSuccess \<or> ack_serverTick a = 0)"

definition IsValid_heartbeat :: "UdpHeartbeatMessage \<Rightarrow> bool" where
  "IsValid_heartbeat h \<longleftrightarrow> hb_dungeonId h \<noteq> 0 \<and> hb_sessionId h \<noteq> 0"

section \<open>Encoding; \<open>None\<close> is the thrown \<open>std::invalid_argument\<close>\<close>

definition make_message :: "serializer \<Rightarrow> DungeonId \<Rightarrow> DungeonPayload \<Rightarrow> u8 list" where
  "make_message serialize dungeonId payload =
     serialize \<lparr>msg_protocol_version = DUNGEON_PROTOCOL_VERSION, msg_dungeon_id = dungeonId,
                msg_payload = payload\<rparr>"

definition EncodePlayerMovement :: "serializer \<Rightarrow> PlayerMovementMessage \<Rightarrow> u8 list option" where
  "EncodePlayerMovement serialize m =
     (if \<not> IsValid_movement m then None
      else Some (make_message serialize (mv_dungeonId m)
        (Payload_PlayerMovement (Some (mv_sequence m, mv_moveX m, mv_moveY m, mv_jump m)))))"

definition EncodePlayerAttack :: "serializer \<Rightarrow> PlayerAttackMessage \<Rightarrow> u8 list option" where
  "EncodePlayerAttack serialize a =
     (if \<not> IsValid_attack a then None
      else Some (make_message serialize (at_dungeonId a)
        (Payload_PlayerAttack (Some (at_sequence a, at_skillId a, at_directionX a, at_directionY a)))))"

definition EncodeUdpHello :: "serializer \<Rightarrow> UdpHelloMessage \<Rightarrow> u8 list option" where
  "EncodeUdpHello serialize h =
     (if \<not> IsValid_hello h then None
      else Some (make_message serialize (he_dungeonId h)
        (Payload_UdpHello (Some (he_sessionId h, he_token h)))))"

definition EncodeUdpHelloAck :: "serializer \<Rightarrow> UdpHelloAckMessage \<Rightarrow> u8 list option" where
  "EncodeUdpHelloAck serialize a =
     (if \<not> IsValid_ack a then None
      else Some (make_message serialize (ack_dungeonId a)
        (Payload_UdpHelloAck (Some (ack_result a, ack_serverTick a)))))"

definition EncodeUdpHeartbeat :: "serializer \<Rightarrow> UdpHeartbeatMessage \<Rightarrow> u8 list option" where
  "EncodeUdpHeartbeat serialize h =
     (if \<not> IsValid_heartbeat h then None
      else Some (make_message serialize (hb_dungeonId h) (Payload_UdpHeartbeat (Some (hb_sessionId h)))))"

section \<open>Decoding\<close>

text \<open>The common prefix of the decoders: verification and the version.\<close>

definition verified :: "parser \<Rightarrow> u8 list \<Rightarrow> DungeonMessage option" where
  "verified parse bytes =
     (if bytes = [] then None
      else case parse bytes of
             None \<Rightarrow> None
           | Some message \<Rightarrow>
               if msg_protocol_version message \<noteq> DUNGEON_PROTOCOL_VERSION then None else Some message)"

definition DecodePlayerMovement :: "parser \<Rightarrow> u8 list \<Rightarrow> PlayerMovementMessage option" where
  "DecodePlayerMovement parse bytes =
     (case verified parse bytes of
        None \<Rightarrow> None
      | Some message \<Rightarrow>
          (case msg_payload message of
             Payload_PlayerMovement (Some (sequence, moveX, moveY, jump)) \<Rightarrow>
               let decoded = \<lparr>mv_dungeonId = msg_dungeon_id message, mv_sequence = sequence,
                              mv_moveX = moveX, mv_moveY = moveY, mv_jump = jump\<rparr>
               in if \<not> IsValid_movement decoded then None else Some decoded
           | _ \<Rightarrow> None))"

definition DecodePlayerAttack :: "parser \<Rightarrow> u8 list \<Rightarrow> PlayerAttackMessage option" where
  "DecodePlayerAttack parse bytes =
     (case verified parse bytes of
        None \<Rightarrow> None
      | Some message \<Rightarrow>
          (case msg_payload message of
             Payload_PlayerAttack (Some (sequence, skillId, directionX, directionY)) \<Rightarrow>
               let decoded = \<lparr>at_dungeonId = msg_dungeon_id message, at_sequence = sequence,
                              at_skillId = skillId, at_directionX = directionX, at_directionY = directionY\<rparr>
               in if \<not> IsValid_attack decoded then None else Some decoded
           | _ \<Rightarrow> None))"

definition DecodeUdpHello :: "parser \<Rightarrow> u8 list \<Rightarrow> UdpHelloMessage option" where
  "DecodeUdpHello parse bytes =
     (case verified parse bytes of
        None \<Rightarrow> None
      | Some message \<Rightarrow>
          (case msg_payload message of
             Payload_UdpHello (Some (sessionId, token)) \<Rightarrow>
               let decoded = \<lparr>he_dungeonId = msg_dungeon_id message, he_sessionId = sessionId, he_token = token\<rparr>
               in if \<not> IsValid_hello decoded then None else Some decoded
           | _ \<Rightarrow> None))"

definition DecodeUdpHeartbeat :: "parser \<Rightarrow> u8 list \<Rightarrow> UdpHeartbeatMessage option" where
  "DecodeUdpHeartbeat parse bytes =
     (case verified parse bytes of
        None \<Rightarrow> None
      | Some message \<Rightarrow>
          (case msg_payload message of
             Payload_UdpHeartbeat (Some sessionId) \<Rightarrow>
               let decoded = \<lparr>hb_dungeonId = msg_dungeon_id message, hb_sessionId = sessionId\<rparr>
               in if \<not> IsValid_heartbeat decoded then None else Some decoded
           | _ \<Rightarrow> None))"

section \<open>Snapshots; \<open>None\<close> is the thrown \<open>std::runtime_error\<close>\<close>

definition player_table :: "SessionId \<Rightarrow> DungeonPlayerSnapshot \<Rightarrow> PlayerSnapshotTable" where
  "player_table sessionId s =
     \<lparr>pst_sessionId = sessionId, pst_roomId = snap_roomId s, pst_position = snap_position s,
      pst_currentMp = snap_currentMp s, pst_maxMp = snap_maxMp s,
      pst_currentHp = snap_currentHp s, pst_maxHp = snap_maxHp s, pst_alive = snap_alive s,
      pst_skillId = sa_skillId (snap_skillAction s), pst_phase = sa_phase (snap_skillAction s),
      pst_remainingTicks = sa_remainingTicks (snap_skillAction s),
      pst_cooldowns = map (\<lambda>c. (sc_skillId c, sc_remainingTicks c)) (snap_cooldowns s)\<rparr>"

fun player_tables :: "DungeonInstance \<Rightarrow> SessionId list \<Rightarrow> PlayerSnapshotTable list option" where
  "player_tables d [] = Some []"
| "player_tables d (x # xs) =
     (case FindPlayer d x of
        None \<Rightarrow> None
      | Some player \<Rightarrow>
          (case player_tables d xs of
             None \<Rightarrow> None
           | Some ts \<Rightarrow> Some (player_table x (player_Snapshot player) # ts)))"

definition enemy_table :: "DungeonEnemySnapshot \<Rightarrow> EnemySnapshotTable" where
  "enemy_table s =
     \<lparr>est_entityId = en_entityId (des_enemy s), est_enemyTemplateId = en_enemyTemplateId (des_enemy s),
      est_roomId = des_roomId s, est_position = en_position (des_enemy s),
      est_currentHp = en_currentHp (des_enemy s), est_alive = en_alive (des_enemy s)\<rparr>"

definition EncodeDungeonSnapshot :: "serializer \<Rightarrow> DungeonInstance \<Rightarrow> u32 \<Rightarrow> u8 list option" where
  "EncodeDungeonSnapshot serialize d serverTick =
     (case player_tables d (di_participants d) of
        None \<Rightarrow> None
      | Some players \<Rightarrow>
          Some (make_message serialize (di_dungeonId d)
            (Payload_DungeonSnapshot (Some
              \<lparr>st_serverTick = serverTick, st_players = players,
               st_enemies = map enemy_table (EnemySnapshots d), st_state = di_state d\<rparr>))))"

section \<open>Lemmas\<close>

text \<open>What the code relies on: the builder's output verifies and reads back as it was built.\<close>

definition faithful :: "parser \<Rightarrow> serializer \<Rightarrow> bool" where
  "faithful parse serialize \<longleftrightarrow> (\<forall>m. serialize m \<noteq> [] \<and> parse (serialize m) = Some m)"

lemma verified_make_message:
  "faithful parse serialize \<Longrightarrow>
   verified parse (make_message serialize i p) =
     Some \<lparr>msg_protocol_version = DUNGEON_PROTOCOL_VERSION, msg_dungeon_id = i, msg_payload = p\<rparr>"
  by (simp add: faithful_def verified_def make_message_def)

lemma Decode_Encode:
  assumes "faithful parse serialize"
  shows "EncodePlayerMovement serialize m = Some bs \<Longrightarrow> DecodePlayerMovement parse bs = Some m"
    "EncodePlayerAttack serialize a = Some bs \<Longrightarrow> DecodePlayerAttack parse bs = Some a"
    "EncodeUdpHello serialize h = Some bs \<Longrightarrow> DecodeUdpHello parse bs = Some h"
    "EncodeUdpHeartbeat serialize b = Some bs \<Longrightarrow> DecodeUdpHeartbeat parse bs = Some b"
  using verified_make_message [OF assms]
  by (auto simp: EncodePlayerMovement_def DecodePlayerMovement_def EncodePlayerAttack_def
      DecodePlayerAttack_def EncodeUdpHello_def DecodeUdpHello_def EncodeUdpHeartbeat_def
      DecodeUdpHeartbeat_def Let_def IsValid_movement_def IsValid_attack_def IsValid_hello_def
      IsValid_heartbeat_def split: if_splits)

lemma Decode_payload:
  "DecodePlayerMovement parse bs = Some m \<Longrightarrow>
     (\<exists>msg t. verified parse bs = Some msg \<and> msg_payload msg = Payload_PlayerMovement t) \<and> IsValid_movement m"
  "DecodePlayerAttack parse bs = Some a \<Longrightarrow>
     (\<exists>msg t. verified parse bs = Some msg \<and> msg_payload msg = Payload_PlayerAttack t) \<and> IsValid_attack a"
  "DecodeUdpHello parse bs = Some h \<Longrightarrow>
     (\<exists>msg t. verified parse bs = Some msg \<and> msg_payload msg = Payload_UdpHello t) \<and> IsValid_hello h"
  "DecodeUdpHeartbeat parse bs = Some b \<Longrightarrow>
     (\<exists>msg t. verified parse bs = Some msg \<and> msg_payload msg = Payload_UdpHeartbeat t) \<and> IsValid_heartbeat b"
  by (auto simp: DecodePlayerMovement_def DecodePlayerAttack_def DecodeUdpHello_def DecodeUdpHeartbeat_def
      Let_def split: option.splits DungeonPayload.splits if_splits)

lemma player_tables_total:
  "\<forall>x \<in> set xs. um_contains (di_players d) x \<Longrightarrow>
   \<exists>ts. player_tables d xs = Some ts \<and> map pst_sessionId ts = xs"
  by (induction xs) (auto simp: FindPlayer_def um_contains_def player_table_def)

lemma EncodeDungeonSnapshot_total:
  "roster_inv d \<Longrightarrow> \<exists>bs. EncodeDungeonSnapshot serialize d tick = Some bs"
  using player_tables_total [of "di_participants d" d] roster_invD(8) [of d]
  by (auto simp: EncodeDungeonSnapshot_def)

end
