(* ===== verification/Udp_Session.thy ===== *)
theory Udp_Session
  imports Dungeon_Protocol
begin

text \<open>
  The UDP endpoint of one dungeon (\<open>src/include/DungeonUdpSession.h\<close>,
  \<open>src/src/DungeonUdpSession.cpp\<close>): per-participant tokens, the endpoints that authenticated with
  them, activity times, the sequence windows and bounded input queues, and the snapshot pump.

  A UDP endpoint is an IPv4 address with a port (the sockets are opened for \<open>udp::v4()\<close>). The clock
  and the shared server tick are arguments. A handler of the strand that sends a datagram returns it.
  The asynchronous sends of the snapshot pump are the steps of a machine: the send to
  \<open>snapshotDestinations_[nextSnapshotDestination_]\<close> is in flight until \<open>CompleteSnapshotSend\<close>, the
  completion handler.
\<close>

type_synonym endpoint = "u32 \<times> u16"

definition SEQUENCE_HALF_RANGE :: u32 where "SEQUENCE_HALF_RANGE = push_bit 31 1"

definition IsNewerSequence :: "u32 \<Rightarrow> u32 \<Rightarrow> bool" where
  "IsNewerSequence candidate previous =
     (let distance = candidate - previous in distance \<noteq> 0 \<and> distance < SEQUENCE_HALF_RANGE)"

definition MAX_DUNGEON_DATAGRAM_SIZE :: nat where "MAX_DUNGEON_DATAGRAM_SIZE = 1200"
definition MAX_PENDING_DUNGEON_MOVEMENTS :: nat where "MAX_PENDING_DUNGEON_MOVEMENTS = 256"
definition MAX_PENDING_DUNGEON_ATTACKS :: nat where "MAX_PENDING_DUNGEON_ATTACKS = 256"

record AuthenticatedPlayerMovement =
  apm_sessionId :: SessionId
  apm_movement :: PlayerMovementMessage

record AuthenticatedPlayerAttack =
  apa_sessionId :: SessionId
  apa_attack :: PlayerAttackMessage

record DungeonUdpSessionStats =
  acceptedSnapshotCount :: u64
  replacedSnapshotCount :: u64
  sentSnapshotDatagramCount :: u64
  snapshotSendErrorCount :: u64
  oversizedSnapshotCount :: u64
  snapshotPending :: bool
  snapshotSendInProgress :: bool

record DungeonUdpSession =
  us_dungeonId :: DungeonId
  us_port :: u16
  us_stopped :: bool
  us_tokens :: "(SessionId, DungeonUdpToken) umap"
  us_endpoints :: "(SessionId, endpoint) umap"
  us_lastActivity :: "(SessionId, int) umap"
  us_lastMovementSequences :: "(SessionId, u32) umap"
  us_lastAttackSequences :: "(SessionId, u32) umap"
  us_pendingMovements :: "AuthenticatedPlayerMovement list"
  us_pendingAttacks :: "AuthenticatedPlayerAttack list"
  us_snapshotStats :: DungeonUdpSessionStats
  us_pendingSnapshot :: "u8 list option"
  us_snapshotPumpScheduled :: bool
  us_activeSnapshot :: "u8 list option"
  us_snapshotDestinations :: "endpoint list"
  us_nextSnapshotDestination :: nat

definition make_UdpSession :: "DungeonId \<Rightarrow> u16 \<Rightarrow> (SessionId, DungeonUdpToken) umap \<Rightarrow> DungeonUdpSession" where
  "make_UdpSession dungeonId port tokens =
     \<lparr>us_dungeonId = dungeonId, us_port = port, us_stopped = False, us_tokens = tokens,
      us_endpoints = [], us_lastActivity = [], us_lastMovementSequences = [],
      us_lastAttackSequences = [], us_pendingMovements = [], us_pendingAttacks = [],
      us_snapshotStats = \<lparr>acceptedSnapshotCount = 0, replacedSnapshotCount = 0,
        sentSnapshotDatagramCount = 0, snapshotSendErrorCount = 0, oversizedSnapshotCount = 0,
        snapshotPending = False, snapshotSendInProgress = False\<rparr>,
      us_pendingSnapshot = None, us_snapshotPumpScheduled = False, us_activeSnapshot = None,
      us_snapshotDestinations = [], us_nextSnapshotDestination = 0\<rparr>"

section \<open>Participants\<close>

definition us_FindToken :: "DungeonUdpSession \<Rightarrow> SessionId \<Rightarrow> DungeonUdpToken option" where
  "us_FindToken s sessionId = map_of (us_tokens s) sessionId"

definition us_FindEndpoint :: "DungeonUdpSession \<Rightarrow> SessionId \<Rightarrow> endpoint option" where
  "us_FindEndpoint s sessionId = map_of (us_endpoints s) sessionId"

definition RemoveParticipantRuntimeStateLocked :: "SessionId \<Rightarrow> DungeonUdpSession \<Rightarrow> DungeonUdpSession" where
  "RemoveParticipantRuntimeStateLocked sessionId s =
     s\<lparr>us_endpoints := um_erase sessionId (us_endpoints s),
       us_lastActivity := um_erase sessionId (us_lastActivity s),
       us_lastMovementSequences := um_erase sessionId (us_lastMovementSequences s),
       us_lastAttackSequences := um_erase sessionId (us_lastAttackSequences s),
       us_pendingMovements := filter (\<lambda>m. apm_sessionId m \<noteq> sessionId) (us_pendingMovements s),
       us_pendingAttacks := filter (\<lambda>a. apa_sessionId a \<noteq> sessionId) (us_pendingAttacks s)\<rparr>"

definition us_DisconnectParticipant :: "SessionId \<Rightarrow> DungeonUdpSession \<Rightarrow> bool \<times> DungeonUdpSession" where
  "us_DisconnectParticipant sessionId s =
     (if \<not> um_contains (us_tokens s) sessionId then (False, s)
      else (True, RemoveParticipantRuntimeStateLocked sessionId s))"

definition us_ReplaceParticipant ::
    "SessionId \<Rightarrow> SessionId \<Rightarrow> DungeonUdpToken \<Rightarrow> DungeonUdpSession \<Rightarrow> bool \<times> DungeonUdpSession" where
  "us_ReplaceParticipant oldSessionId newSessionId newToken s =
     (if oldSessionId = 0 \<or> newSessionId = 0 \<or> newToken = 0 \<or> oldSessionId = newSessionId then (False, s)
      else if \<not> um_contains (us_tokens s) oldSessionId \<or> um_contains (us_tokens s) newSessionId then (False, s)
      else if list_ex (\<lambda>e. snd e = newToken) (us_tokens s) then (False, s)
      else
        let s = RemoveParticipantRuntimeStateLocked oldSessionId s in
        (True, s\<lparr>us_tokens := um_emplace newSessionId newToken (um_erase oldSessionId (us_tokens s))\<rparr>))"

definition us_RemoveParticipant :: "SessionId \<Rightarrow> DungeonUdpSession \<Rightarrow> bool \<times> DungeonUdpSession" where
  "us_RemoveParticipant sessionId s =
     (if \<not> um_contains (us_tokens s) sessionId then (False, s)
      else let s = RemoveParticipantRuntimeStateLocked sessionId s in
        (True, s\<lparr>us_tokens := um_erase sessionId (us_tokens s)\<rparr>))"

definition us_AllParticipantsAuthenticated :: "DungeonUdpSession \<Rightarrow> bool" where
  "us_AllParticipantsAuthenticated s \<longleftrightarrow> length (us_endpoints s) = length (us_tokens s)"

definition us_RefreshAllActivity :: "int \<Rightarrow> DungeonUdpSession \<Rightarrow> DungeonUdpSession" where
  "us_RefreshAllActivity now s =
     s\<lparr>us_lastActivity := fold (\<lambda>e. um_set (fst e) now) (us_endpoints s) (us_lastActivity s)\<rparr>"

fun remove_inactive ::
    "int \<Rightarrow> int \<Rightarrow> (SessionId \<times> int) list \<Rightarrow> DungeonUdpSession \<Rightarrow> SessionId list \<times> DungeonUdpSession" where
  "remove_inactive now idle [] s = ([], s)"
| "remove_inactive now idle ((x, t) # rest) s =
     (if now - t < ms idle then remove_inactive now idle rest s
      else let (removed, s') = remove_inactive now idle rest (RemoveParticipantRuntimeStateLocked x s)
           in (x # removed, s'))"

definition us_RemoveInactiveEndpoints ::
    "int \<Rightarrow> int \<Rightarrow> DungeonUdpSession \<Rightarrow> SessionId list \<times> DungeonUdpSession" where
  "us_RemoveInactiveEndpoints now idleTimeout s =
     (if idleTimeout \<le> 0 then ([], s) else remove_inactive now idleTimeout (us_lastActivity s) s)"

section \<open>Input queues\<close>

definition us_TryPopMovement ::
    "DungeonUdpSession \<Rightarrow> AuthenticatedPlayerMovement option \<times> DungeonUdpSession" where
  "us_TryPopMovement s =
     (case us_pendingMovements s of
        [] \<Rightarrow> (None, s)
      | m # rest \<Rightarrow> (Some m, s\<lparr>us_pendingMovements := rest\<rparr>))"

definition us_TryPopAttack ::
    "DungeonUdpSession \<Rightarrow> AuthenticatedPlayerAttack option \<times> DungeonUdpSession" where
  "us_TryPopAttack s =
     (case us_pendingAttacks s of
        [] \<Rightarrow> (None, s)
      | a # rest \<Rightarrow> (Some a, s\<lparr>us_pendingAttacks := rest\<rparr>))"

text \<open>The session that authenticated from an endpoint, 0 for none.\<close>

definition session_of_endpoint :: "endpoint \<Rightarrow> DungeonUdpSession \<Rightarrow> SessionId" where
  "session_of_endpoint sender s =
     (case find (\<lambda>e. snd e = sender) (us_endpoints s) of None \<Rightarrow> 0 | Some e \<Rightarrow> fst e)"

definition HandlePlayerMovement ::
    "endpoint \<Rightarrow> int \<Rightarrow> PlayerMovementMessage \<Rightarrow> DungeonUdpSession \<Rightarrow> DungeonUdpSession" where
  "HandlePlayerMovement sender now movement s =
     (let sessionId = session_of_endpoint sender s in
      if sessionId = 0 then s
      else
        let s = s\<lparr>us_lastActivity := um_set sessionId now (us_lastActivity s)\<rparr> in
        if MAX_PENDING_DUNGEON_MOVEMENTS \<le> length (us_pendingMovements s) then s
        else if (case map_of (us_lastMovementSequences s) sessionId of
                   None \<Rightarrow> False
                 | Some previous \<Rightarrow> \<not> IsNewerSequence (mv_sequence movement) previous) then s
        else s\<lparr>us_lastMovementSequences := um_set sessionId (mv_sequence movement) (us_lastMovementSequences s),
               us_pendingMovements :=
                 us_pendingMovements s @ [\<lparr>apm_sessionId = sessionId, apm_movement = movement\<rparr>]\<rparr>)"

definition HandlePlayerAttack ::
    "endpoint \<Rightarrow> int \<Rightarrow> PlayerAttackMessage \<Rightarrow> DungeonUdpSession \<Rightarrow> DungeonUdpSession" where
  "HandlePlayerAttack sender now attack s =
     (let sessionId = session_of_endpoint sender s in
      if sessionId = 0 then s
      else
        let s = s\<lparr>us_lastActivity := um_set sessionId now (us_lastActivity s)\<rparr> in
        if MAX_PENDING_DUNGEON_ATTACKS \<le> length (us_pendingAttacks s) then s
        else if (case map_of (us_lastAttackSequences s) sessionId of
                   None \<Rightarrow> False
                 | Some previous \<Rightarrow> \<not> IsNewerSequence (at_sequence attack) previous) then s
        else s\<lparr>us_lastAttackSequences := um_set sessionId (at_sequence attack) (us_lastAttackSequences s),
               us_pendingAttacks :=
                 us_pendingAttacks s @ [\<lparr>apa_sessionId = sessionId, apa_attack = attack\<rparr>]\<rparr>)"

section \<open>Receiving\<close>

datatype udp_error = InvalidHelloAck

text \<open>The acknowledgement, if one is sent.\<close>

definition SendHelloAck ::
    "serializer \<Rightarrow> u32 \<Rightarrow> DungeonId \<Rightarrow> UdpHelloResult \<Rightarrow> DungeonUdpSession \<Rightarrow> udp_error + u8 list option" where
  "SendHelloAck serialize serverTick requestedDungeonId res s =
     (if us_stopped s then Inr None
      else case EncodeUdpHelloAck serialize
                  \<lparr>ack_dungeonId = requestedDungeonId, ack_result = res,
                   ack_serverTick = if res = HelloSuccess then serverTick else 0\<rparr> of
             None \<Rightarrow> Inl InvalidHelloAck
           | Some bytes \<Rightarrow> Inr (Some bytes))"

definition accept_hello ::
    "endpoint \<Rightarrow> int \<Rightarrow> UdpHelloMessage \<Rightarrow> DungeonUdpSession \<Rightarrow> UdpHelloResult \<times> DungeonUdpSession" where
  "accept_hello sender now hello s =
     (if map_of (us_tokens s) (he_sessionId hello) = Some (he_token hello)
      then case map_of (us_endpoints s) (he_sessionId hello) of
             None \<Rightarrow>
               (HelloSuccess,
                s\<lparr>us_endpoints := um_emplace (he_sessionId hello) sender (us_endpoints s),
                  us_lastActivity := um_set (he_sessionId hello) now (us_lastActivity s)\<rparr>)
           | Some known \<Rightarrow>
               if known = sender
               then (HelloSuccess, s\<lparr>us_lastActivity := um_set (he_sessionId hello) now (us_lastActivity s)\<rparr>)
               else (AuthenticationFailed, s)
      else (AuthenticationFailed, s))"

definition HandleHello ::
    "serializer \<Rightarrow> u32 \<Rightarrow> endpoint \<Rightarrow> int \<Rightarrow> UdpHelloMessage \<Rightarrow> DungeonUdpSession \<Rightarrow>
     udp_error + u8 list option \<times> DungeonUdpSession" where
  "HandleHello serialize serverTick sender now hello s =
     (let (res, s) = accept_hello sender now hello s in
      case SendHelloAck serialize serverTick (he_dungeonId hello) res s of
        Inl e \<Rightarrow> Inl e | Inr reply \<Rightarrow> Inr (reply, s))"

definition HandleHeartbeat ::
    "endpoint \<Rightarrow> int \<Rightarrow> UdpHeartbeatMessage \<Rightarrow> DungeonUdpSession \<Rightarrow> DungeonUdpSession" where
  "HandleHeartbeat sender now heartbeat s =
     (if map_of (us_endpoints s) (hb_sessionId heartbeat) \<noteq> Some sender then s
      else s\<lparr>us_lastActivity := um_set (hb_sessionId heartbeat) now (us_lastActivity s)\<rparr>)"

datatype receive_outcome = Received "u8 list" | OperationAborted | ReceiveError

text \<open>The cascade of decoders; a message for another dungeon falls through to the next decoder.\<close>

definition receive_heartbeat :: "parser \<Rightarrow> endpoint \<Rightarrow> int \<Rightarrow> u8 list \<Rightarrow> DungeonUdpSession \<Rightarrow> DungeonUdpSession" where
  "receive_heartbeat parse sender now bytes s =
     (case DecodeUdpHeartbeat parse bytes of
        None \<Rightarrow> s
      | Some heartbeat \<Rightarrow>
          if hb_dungeonId heartbeat = us_dungeonId s then HandleHeartbeat sender now heartbeat s else s)"

definition receive_attack :: "parser \<Rightarrow> endpoint \<Rightarrow> int \<Rightarrow> u8 list \<Rightarrow> DungeonUdpSession \<Rightarrow> DungeonUdpSession" where
  "receive_attack parse sender now bytes s =
     (case DecodePlayerAttack parse bytes of
        None \<Rightarrow> receive_heartbeat parse sender now bytes s
      | Some attack \<Rightarrow>
          if at_dungeonId attack = us_dungeonId s then HandlePlayerAttack sender now attack s
          else receive_heartbeat parse sender now bytes s)"

definition receive_input :: "parser \<Rightarrow> endpoint \<Rightarrow> int \<Rightarrow> u8 list \<Rightarrow> DungeonUdpSession \<Rightarrow> DungeonUdpSession" where
  "receive_input parse sender now bytes s =
     (case DecodePlayerMovement parse bytes of
        None \<Rightarrow> receive_attack parse sender now bytes s
      | Some movement \<Rightarrow>
          if mv_dungeonId movement = us_dungeonId s then HandlePlayerMovement sender now movement s
          else receive_attack parse sender now bytes s)"

definition HandleReceive ::
    "parser \<Rightarrow> serializer \<Rightarrow> u32 \<Rightarrow> endpoint \<Rightarrow> int \<Rightarrow> receive_outcome \<Rightarrow> DungeonUdpSession \<Rightarrow>
     udp_error + u8 list option \<times> DungeonUdpSession" where
  "HandleReceive parse serialize serverTick sender now received s =
     (if us_stopped s then Inr (None, s)
      else case received of
        OperationAborted \<Rightarrow> Inr (None, s)
      | ReceiveError \<Rightarrow> Inr (None, s)
      | Received bytes \<Rightarrow>
          (case DecodeUdpHello parse bytes of
             Some hello \<Rightarrow>
               if he_dungeonId hello = us_dungeonId s
               then HandleHello serialize serverTick sender now hello s
               else (case SendHelloAck serialize serverTick (he_dungeonId hello) InvalidDungeon s of
                       Inl e \<Rightarrow> Inl e | Inr reply \<Rightarrow> Inr (reply, s))
           | None \<Rightarrow> Inr (None, receive_input parse sender now bytes s)))"

section \<open>The snapshot pump\<close>

definition upd_stats ::
    "(DungeonUdpSessionStats \<Rightarrow> DungeonUdpSessionStats) \<Rightarrow> DungeonUdpSession \<Rightarrow> DungeonUdpSession" where
  "upd_stats f s = s\<lparr>us_snapshotStats := f (us_snapshotStats s)\<rparr>"

text \<open>The second component tells whether the pump is dispatched on the strand.\<close>

definition SendSnapshot :: "u8 list \<Rightarrow> DungeonUdpSession \<Rightarrow> (bool \<times> bool) \<times> DungeonUdpSession" where
  "SendSnapshot bytes s =
     (if bytes = [] then ((False, False), s)
      else if MAX_DUNGEON_DATAGRAM_SIZE < length bytes
      then ((False, False), upd_stats (\<lambda>t. t\<lparr>oversizedSnapshotCount := oversizedSnapshotCount t + 1\<rparr>) s)
      else if us_stopped s then ((False, False), s)
      else
        let s = upd_stats (\<lambda>t. t\<lparr>acceptedSnapshotCount := acceptedSnapshotCount t + 1\<rparr>) s;
            s = (if us_pendingSnapshot s \<noteq> None
                 then upd_stats (\<lambda>t. t\<lparr>replacedSnapshotCount := replacedSnapshotCount t + 1\<rparr>) s else s);
            s = upd_stats (\<lambda>t. t\<lparr>snapshotPending := True\<rparr>) (s\<lparr>us_pendingSnapshot := Some bytes\<rparr>)
        in if \<not> us_snapshotPumpScheduled s
           then ((True, True), s\<lparr>us_snapshotPumpScheduled := True\<rparr>)
           else ((True, False), s))"

definition us_Stop :: "DungeonUdpSession \<Rightarrow> DungeonUdpSession" where
  "us_Stop s =
     (if us_stopped s then s
      else upd_stats (\<lambda>t. t\<lparr>snapshotPending := False\<rparr>)
        (s\<lparr>us_stopped := True, us_pendingSnapshot := None, us_snapshotPumpScheduled := False\<rparr>))"

function PumpSnapshotOnStrand :: "DungeonUdpSession \<Rightarrow> DungeonUdpSession"
  and SendSnapshotToNextEndpoint :: "DungeonUdpSession \<Rightarrow> DungeonUdpSession"
  and FinishSnapshotOnStrand :: "DungeonUdpSession \<Rightarrow> DungeonUdpSession" where
  "PumpSnapshotOnStrand s =
     (if us_stopped s
      then upd_stats (\<lambda>t. t\<lparr>snapshotPending := False, snapshotSendInProgress := False\<rparr>)
             (s\<lparr>us_pendingSnapshot := None, us_snapshotPumpScheduled := False\<rparr>)
      else case us_pendingSnapshot s of
        None \<Rightarrow>
          upd_stats (\<lambda>t. t\<lparr>snapshotPending := False, snapshotSendInProgress := False\<rparr>)
            (s\<lparr>us_activeSnapshot := None, us_snapshotPumpScheduled := False\<rparr>)
      | Some bytes \<Rightarrow>
          SendSnapshotToNextEndpoint
            (upd_stats (\<lambda>t. t\<lparr>snapshotPending := False, snapshotSendInProgress := True\<rparr>)
               (s\<lparr>us_activeSnapshot := Some bytes, us_pendingSnapshot := None,
                  us_snapshotDestinations := map snd (us_endpoints s),
                  us_nextSnapshotDestination := 0\<rparr>)))"
| "SendSnapshotToNextEndpoint s =
     (if us_stopped s \<or> length (us_snapshotDestinations s) \<le> us_nextSnapshotDestination s
      then FinishSnapshotOnStrand s
      else s)"
| "FinishSnapshotOnStrand s =
     PumpSnapshotOnStrand
       (upd_stats (\<lambda>t. t\<lparr>snapshotSendInProgress := False\<rparr>)
          (s\<lparr>us_activeSnapshot := None, us_snapshotDestinations := [], us_nextSnapshotDestination := 0\<rparr>))"
  by pat_completeness auto
termination
  by (relation "measure (\<lambda>x. case x of
        Inl s \<Rightarrow> if us_pendingSnapshot s = None then 1 else 5
      | Inr (Inl s) \<Rightarrow> if us_pendingSnapshot s = None then 3 else 7
      | Inr (Inr s) \<Rightarrow> if us_pendingSnapshot s = None then 2 else 6)")
     (auto simp: upd_stats_def)

declare PumpSnapshotOnStrand.simps [simp del] SendSnapshotToNextEndpoint.simps [simp del]
  FinishSnapshotOnStrand.simps [simp del]

text \<open>The completion handler of the send to one endpoint.\<close>

definition CompleteSnapshotSend :: "bool \<Rightarrow> DungeonUdpSession \<Rightarrow> DungeonUdpSession" where
  "CompleteSnapshotSend failed s =
     (let s = upd_stats (\<lambda>t. if failed then t\<lparr>snapshotSendErrorCount := snapshotSendErrorCount t + 1\<rparr>
                             else t\<lparr>sentSnapshotDatagramCount := sentSnapshotDatagramCount t + 1\<rparr>) s
      in SendSnapshotToNextEndpoint (s\<lparr>us_nextSnapshotDestination := us_nextSnapshotDestination s + 1\<rparr>))"


section \<open>Sequence windows\<close>

text \<open>The comparison is the serial-number order: a step of less than half the range forward.\<close>

lemma IsNewerSequence_iff:
  "IsNewerSequence b a \<longleftrightarrow> (\<exists>k. 0 < k \<and> k < 2 ^ 31 \<and> b = a + of_nat k)"
proof
  assume "IsNewerSequence b a"
  then have "b - a \<noteq> 0" "unat (b - a) < 2 ^ 31"
    by (auto simp: IsNewerSequence_def SEQUENCE_HALF_RANGE_def Let_def word_less_nat_alt)
  then show "\<exists>k. 0 < k \<and> k < 2 ^ 31 \<and> b = a + of_nat k"
    by (intro exI [of _ "unat (b - a)"]) (auto simp: unat_gt_0)
next
  assume "\<exists>k. 0 < k \<and> k < 2 ^ 31 \<and> b = a + of_nat k"
  then obtain k where k: "0 < k" "k < 2 ^ 31" "b = a + of_nat k" by blast
  then have "unat (of_nat k :: u32) = k" by (simp add: unat_of_nat take_bit_nat_eq_self)
  with k show "IsNewerSequence b a"
    by (auto simp: IsNewerSequence_def SEQUENCE_HALF_RANGE_def Let_def word_less_nat_alt simp flip: unat_0_iff)
qed

lemma IsNewerSequence_asym: "IsNewerSequence b a \<Longrightarrow> \<not> IsNewerSequence a b"
proof
  assume "IsNewerSequence b a" "IsNewerSequence a b"
  then have d: "b - a \<noteq> 0" "unat (b - a) < 2 ^ 31" "unat (a - b) < 2 ^ 31"
    by (auto simp: IsNewerSequence_def SEQUENCE_HALF_RANGE_def Let_def word_less_nat_alt)
  have "(unat (b - a) + unat (a - b)) mod 2 ^ LENGTH(32) = unat ((b - a) + (a - b))"
    by (rule unat_word_ariths(1) [symmetric])
  also have "\<dots> = 0" by simp
  finally have "unat (b - a) = 0" using d(2,3) by simp
  with d(1) show False by (simp add: unat_eq_zero)
qed

text \<open>
  An inbox of (session, sequence) pairs with its window of last accepted numbers: bounded, and for
  each session the queued numbers advance one after the other up to the window's number.
\<close>

definition session_seqs :: "SessionId \<Rightarrow> (SessionId \<times> u32) list \<Rightarrow> u32 list" where
  "session_seqs x q = map snd (filter (\<lambda>e. fst e = x) q)"

definition ordered_inbox :: "nat \<Rightarrow> (SessionId \<times> u32) list \<Rightarrow> (SessionId \<Rightarrow> u32 option) \<Rightarrow> bool" where
  "ordered_inbox cap q w \<longleftrightarrow>
     length q \<le> cap \<and>
     (\<forall>x. successively (\<lambda>a b. IsNewerSequence b a) (session_seqs x q) \<and>
          (session_seqs x q \<noteq> [] \<longrightarrow> w x = Some (last (session_seqs x q))))"

locale sequenced_inbox =
  fixes inbox :: "'s \<Rightarrow> (SessionId \<times> u32) list"
    and window :: "'s \<Rightarrow> SessionId \<Rightarrow> u32 option"
    and cap :: nat
    and offer :: "SessionId \<Rightarrow> 'm \<Rightarrow> 's \<Rightarrow> 's"
    and sequence_of :: "'m \<Rightarrow> u32"
    and pop :: "'s \<Rightarrow> 'o option \<times> 's"
    and drop_session :: "SessionId \<Rightarrow> 's \<Rightarrow> 's"
  assumes offer_inbox: "inbox (offer x m s) =
      (if length (inbox s) < cap \<and> (\<forall>p. window s x = Some p \<longrightarrow> IsNewerSequence (sequence_of m) p)
       then inbox s @ [(x, sequence_of m)] else inbox s)"
    and offer_window: "window (offer x m s) =
      (if length (inbox s) < cap \<and> (\<forall>p. window s x = Some p \<longrightarrow> IsNewerSequence (sequence_of m) p)
       then (window s)(x := Some (sequence_of m)) else window s)"
    and pop_inbox: "inbox (snd (pop s)) = tl (inbox s)"
    and pop_window: "window (snd (pop s)) = window s"
    and drop_inbox: "inbox (drop_session x s) = filter (\<lambda>e. fst e \<noteq> x) (inbox s)"
    and drop_window: "window (drop_session x s) = (window s)(x := None)"
begin

lemma offer_ordered:
  assumes "ordered_inbox cap (inbox s) (window s)"
  shows "ordered_inbox cap (inbox (offer x m s)) (window (offer x m s))"
proof (cases "length (inbox s) < cap \<and> (\<forall>p. window s x = Some p \<longrightarrow> IsNewerSequence (sequence_of m) p)")
  case False
  then have "inbox (offer x m s) = inbox s" "window (offer x m s) = window s"
    unfolding offer_inbox offer_window by (auto simp only: if_False)
  with assms show ?thesis by simp
next
  case True
  have "successively (\<lambda>a b. IsNewerSequence b a) (session_seqs x (inbox s) @ [sequence_of m])"
    using assms True by (auto simp: ordered_inbox_def successively_append_iff)
  with assms True show ?thesis
    by (auto simp: ordered_inbox_def offer_inbox offer_window session_seqs_def)
qed

lemma pop_ordered:
  assumes "ordered_inbox cap (inbox s) (window s)"
  shows "ordered_inbox cap (inbox (snd (pop s))) (window (snd (pop s)))"
proof (cases "inbox s")
  case Nil
  with assms show ?thesis by (simp add: pop_inbox pop_window)
next
  case (Cons e q)
  have "successively (\<lambda>a b. IsNewerSequence b a) (session_seqs y q) \<and>
      (session_seqs y q \<noteq> [] \<longrightarrow> window s y = Some (last (session_seqs y q)))" for y
    using assms Cons unfolding ordered_inbox_def
    by (cases "fst e = y"; cases "session_seqs y q") (auto simp: session_seqs_def dest: spec [of _ y])
  with assms Cons show ?thesis by (simp add: ordered_inbox_def pop_inbox pop_window)
qed

lemma drop_ordered:
  assumes "ordered_inbox cap (inbox s) (window s)"
  shows "ordered_inbox cap (inbox (drop_session x s)) (window (drop_session x s))"
proof -
  have "session_seqs y (filter (\<lambda>e. fst e \<noteq> x) (inbox s)) = (if y = x then [] else session_seqs y (inbox s))" for y
    by (auto simp: session_seqs_def filter_empty_conv intro: arg_cong [where f = "map snd"] filter_cong)
  moreover have "length (filter (\<lambda>e. fst e \<noteq> x) (inbox s)) \<le> cap"
    using assms by (auto simp: ordered_inbox_def intro: le_trans [OF length_filter_le])
  ultimately show ?thesis using assms by (simp add: ordered_inbox_def drop_inbox drop_window)
qed

text \<open>What is accepted is strictly newer than everything still queued for the session.\<close>

lemma accepted_is_newer:
  "inbox (offer x m s) \<noteq> inbox s \<Longrightarrow> window s x = Some p \<Longrightarrow> IsNewerSequence (sequence_of m) p"
  by (auto simp: offer_inbox split: if_splits)

end

definition movement_inbox :: "DungeonUdpSession \<Rightarrow> (SessionId \<times> u32) list" where
  "movement_inbox s = map (\<lambda>m. (apm_sessionId m, mv_sequence (apm_movement m))) (us_pendingMovements s)"

definition attack_inbox :: "DungeonUdpSession \<Rightarrow> (SessionId \<times> u32) list" where
  "attack_inbox s = map (\<lambda>a. (apa_sessionId a, at_sequence (apa_attack a))) (us_pendingAttacks s)"

text \<open>The handlers, given the session that the sender's endpoint belongs to.\<close>

definition offer_movement :: "SessionId \<Rightarrow> PlayerMovementMessage \<Rightarrow> DungeonUdpSession \<Rightarrow> DungeonUdpSession" where
  "offer_movement x m s =
     (if MAX_PENDING_DUNGEON_MOVEMENTS \<le> length (us_pendingMovements s) \<or>
         (\<exists>p. map_of (us_lastMovementSequences s) x = Some p \<and> \<not> IsNewerSequence (mv_sequence m) p) then s
      else s\<lparr>us_lastMovementSequences := um_set x (mv_sequence m) (us_lastMovementSequences s),
             us_pendingMovements := us_pendingMovements s @ [\<lparr>apm_sessionId = x, apm_movement = m\<rparr>]\<rparr>)"

definition offer_attack :: "SessionId \<Rightarrow> PlayerAttackMessage \<Rightarrow> DungeonUdpSession \<Rightarrow> DungeonUdpSession" where
  "offer_attack x a s =
     (if MAX_PENDING_DUNGEON_ATTACKS \<le> length (us_pendingAttacks s) \<or>
         (\<exists>p. map_of (us_lastAttackSequences s) x = Some p \<and> \<not> IsNewerSequence (at_sequence a) p) then s
      else s\<lparr>us_lastAttackSequences := um_set x (at_sequence a) (us_lastAttackSequences s),
             us_pendingAttacks := us_pendingAttacks s @ [\<lparr>apa_sessionId = x, apa_attack = a\<rparr>]\<rparr>)"

lemma HandlePlayerMovement_offer:
  "HandlePlayerMovement e t m s =
     (let x = session_of_endpoint e s in
      if x = 0 then s else offer_movement x m (s\<lparr>us_lastActivity := um_set x t (us_lastActivity s)\<rparr>))"
  by (auto simp: HandlePlayerMovement_def offer_movement_def Let_def split: option.splits)

lemma HandlePlayerAttack_offer:
  "HandlePlayerAttack e t a s =
     (let x = session_of_endpoint e s in
      if x = 0 then s else offer_attack x a (s\<lparr>us_lastActivity := um_set x t (us_lastActivity s)\<rparr>))"
  by (auto simp: HandlePlayerAttack_def offer_attack_def Let_def split: option.splits)

interpretation movements:
  sequenced_inbox movement_inbox "\<lambda>s. map_of (us_lastMovementSequences s)" MAX_PENDING_DUNGEON_MOVEMENTS
    offer_movement mv_sequence us_TryPopMovement RemoveParticipantRuntimeStateLocked
  by unfold_locales
     (auto simp: movement_inbox_def offer_movement_def us_TryPopMovement_def umap_simps fun_eq_iff map_tl
       RemoveParticipantRuntimeStateLocked_def filter_map comp_def split: list.splits)

interpretation attacks:
  sequenced_inbox attack_inbox "\<lambda>s. map_of (us_lastAttackSequences s)" MAX_PENDING_DUNGEON_ATTACKS
    offer_attack at_sequence us_TryPopAttack RemoveParticipantRuntimeStateLocked
  by unfold_locales
     (auto simp: attack_inbox_def offer_attack_def us_TryPopAttack_def umap_simps fun_eq_iff map_tl
       RemoveParticipantRuntimeStateLocked_def filter_map comp_def split: list.splits)

section \<open>The session invariant\<close>

definition tokens_ok :: "(SessionId, DungeonUdpToken) umap \<Rightarrow> bool" where
  "tokens_ok tokens \<longleftrightarrow>
     um_ok tokens \<and> distinct (map snd tokens) \<and> (\<forall>e \<in> set tokens. fst e \<noteq> 0 \<and> snd e \<noteq> 0)"

definition us_inv :: "DungeonUdpSession \<Rightarrow> bool" where
  "us_inv s \<longleftrightarrow>
     tokens_ok (us_tokens s) \<and> um_ok (us_endpoints s) \<and> um_ok (us_lastActivity s) \<and>
     um_ok (us_lastMovementSequences s) \<and> um_ok (us_lastAttackSequences s) \<and>
     (\<forall>x. um_contains (us_endpoints s) x \<longrightarrow> um_contains (us_tokens s) x) \<and>
     (\<forall>x. um_contains (us_lastActivity s) x \<longleftrightarrow> um_contains (us_endpoints s) x) \<and>
     (\<forall>x. um_contains (us_lastMovementSequences s) x \<longrightarrow> um_contains (us_endpoints s) x) \<and>
     (\<forall>x. um_contains (us_lastAttackSequences s) x \<longrightarrow> um_contains (us_endpoints s) x) \<and>
     ordered_inbox MAX_PENDING_DUNGEON_MOVEMENTS (movement_inbox s) (map_of (us_lastMovementSequences s)) \<and>
     ordered_inbox MAX_PENDING_DUNGEON_ATTACKS (attack_inbox s) (map_of (us_lastAttackSequences s))"

lemma us_invD:
  assumes "us_inv s"
  shows "tokens_ok (us_tokens s)" "um_ok (us_endpoints s)" "um_ok (us_lastActivity s)"
    "um_ok (us_lastMovementSequences s)" "um_ok (us_lastAttackSequences s)"
    "um_contains (us_endpoints s) x \<Longrightarrow> um_contains (us_tokens s) x"
    "um_contains (us_lastActivity s) x \<longleftrightarrow> um_contains (us_endpoints s) x"
    "um_contains (us_lastMovementSequences s) x \<Longrightarrow> um_contains (us_endpoints s) x"
    "um_contains (us_lastAttackSequences s) x \<Longrightarrow> um_contains (us_endpoints s) x"
    "ordered_inbox MAX_PENDING_DUNGEON_MOVEMENTS (movement_inbox s) (map_of (us_lastMovementSequences s))"
    "ordered_inbox MAX_PENDING_DUNGEON_ATTACKS (attack_inbox s) (map_of (us_lastAttackSequences s))"
  using assms unfolding us_inv_def by blast+

lemma us_invI:
  assumes "tokens_ok (us_tokens s)" "um_ok (us_endpoints s)" "um_ok (us_lastActivity s)"
    "um_ok (us_lastMovementSequences s)" "um_ok (us_lastAttackSequences s)"
    "\<And>x. um_contains (us_endpoints s) x \<Longrightarrow> um_contains (us_tokens s) x"
    "\<And>x. um_contains (us_lastActivity s) x \<longleftrightarrow> um_contains (us_endpoints s) x"
    "\<And>x. um_contains (us_lastMovementSequences s) x \<Longrightarrow> um_contains (us_endpoints s) x"
    "\<And>x. um_contains (us_lastAttackSequences s) x \<Longrightarrow> um_contains (us_endpoints s) x"
    "ordered_inbox MAX_PENDING_DUNGEON_MOVEMENTS (movement_inbox s) (map_of (us_lastMovementSequences s))"
    "ordered_inbox MAX_PENDING_DUNGEON_ATTACKS (attack_inbox s) (map_of (us_lastAttackSequences s))"
  shows "us_inv s"
  using assms unfolding us_inv_def by blast

lemma us_inv_make: "tokens_ok tokens \<Longrightarrow> us_inv (make_UdpSession i port tokens)"
  by (simp add: us_inv_def make_UdpSession_def ordered_inbox_def movement_inbox_def attack_inbox_def
      session_seqs_def)

text \<open>The fields the invariant looks at.\<close>

lemma us_inv_cong:
  assumes "us_inv s" "us_tokens t = us_tokens s" "us_endpoints t = us_endpoints s"
    "us_lastActivity t = us_lastActivity s" "us_lastMovementSequences t = us_lastMovementSequences s"
    "us_lastAttackSequences t = us_lastAttackSequences s"
    "us_pendingMovements t = us_pendingMovements s" "us_pendingAttacks t = us_pendingAttacks s"
  shows "us_inv t"
  using assms unfolding us_inv_def movement_inbox_def attack_inbox_def by simp

lemma Remove_fields:
  "us_tokens (RemoveParticipantRuntimeStateLocked x s) = us_tokens s"
  "us_endpoints (RemoveParticipantRuntimeStateLocked x s) = um_erase x (us_endpoints s)"
  "us_lastActivity (RemoveParticipantRuntimeStateLocked x s) = um_erase x (us_lastActivity s)"
  "us_lastMovementSequences (RemoveParticipantRuntimeStateLocked x s) = um_erase x (us_lastMovementSequences s)"
  "us_lastAttackSequences (RemoveParticipantRuntimeStateLocked x s) = um_erase x (us_lastAttackSequences s)"
  "us_dungeonId (RemoveParticipantRuntimeStateLocked x s) = us_dungeonId s"
  by (simp_all add: RemoveParticipantRuntimeStateLocked_def)

lemma us_inv_Remove:
  assumes "us_inv s"
  shows "us_inv (RemoveParticipantRuntimeStateLocked x s)"
  using us_invD(1-9) [OF assms] movements.drop_ordered [OF us_invD(10) [OF assms], of x]
    attacks.drop_ordered [OF us_invD(11) [OF assms], of x]
  by (intro us_invI) (auto simp: Remove_fields umap_simps)

lemma us_inv_tokens:
  assumes "us_inv s" "tokens_ok m" "\<And>x. um_contains (us_endpoints s) x \<Longrightarrow> um_contains m x"
  shows "us_inv (s\<lparr>us_tokens := m\<rparr>)"
  using assms us_invD [OF assms(1)]
  by (intro us_invI) (auto simp: movement_inbox_def attack_inbox_def)

lemma us_inv_Disconnect: "us_inv s \<Longrightarrow> us_inv (snd (us_DisconnectParticipant x s))"
  by (simp add: us_DisconnectParticipant_def us_inv_Remove)

lemma tokens_ok_erase: "tokens_ok m \<Longrightarrow> tokens_ok (um_erase x m)"
  by (auto simp: tokens_ok_def um_erase_def distinct_map_filter)

lemma us_inv_RemoveParticipant: "us_inv s \<Longrightarrow> us_inv (snd (us_RemoveParticipant x s))"
  using us_invD(1,6) [of s]
  by (auto simp: us_RemoveParticipant_def Let_def Remove_fields umap_simps tokens_ok_erase
      intro!: us_inv_tokens us_inv_Remove)

lemma us_inv_Replace: "us_inv s \<Longrightarrow> us_inv (snd (us_ReplaceParticipant x y t s))"
proof (cases "fst (us_ReplaceParticipant x y t s)")
  case False
  then show "us_inv s \<Longrightarrow> ?thesis" by (auto simp: us_ReplaceParticipant_def Let_def split: if_splits)
next
  case True
  assume inv: "us_inv s"
  from True have g: "y \<noteq> 0" "t \<noteq> 0" "\<not> um_contains (us_tokens s) y" "\<forall>e \<in> set (us_tokens s). snd e \<noteq> t"
    by (auto simp: us_ReplaceParticipant_def Let_def list_ex_iff split: if_splits)
  have "\<not> um_contains (um_erase x (us_tokens s)) y" using g(3) by (simp add: umap_simps)
  then have "tokens_ok (um_emplace y t (um_erase x (us_tokens s)))"
    using tokens_ok_erase [OF us_invD(1) [OF inv], of x] g(1,2,4)
    by (auto simp: tokens_ok_def um_emplace_def um_contains_iff_dom um_ok_def um_erase_def)
  then have "us_inv ((RemoveParticipantRuntimeStateLocked x s)
      \<lparr>us_tokens := um_emplace y t (um_erase x (us_tokens s))\<rparr>)"
    using us_invD(6) [OF inv] by (intro us_inv_tokens us_inv_Remove [OF inv]) (auto simp: Remove_fields umap_simps)
  with True show ?thesis
    by (auto simp: us_ReplaceParticipant_def Let_def Remove_fields split: if_splits)
qed

lemma us_inv_activity:
  assumes "us_inv s" "um_contains (us_endpoints s) x"
  shows "us_inv (s\<lparr>us_lastActivity := um_set x t (us_lastActivity s)\<rparr>)"
  using assms us_invD [OF assms(1)]
  by (intro us_invI) (auto simp: movement_inbox_def attack_inbox_def umap_simps)

lemma us_inv_Refresh:
  assumes inv: "us_inv s"
  shows "us_inv (us_RefreshAllActivity now s)"
proof -
  have "us_inv (s\<lparr>us_lastActivity := fold (\<lambda>e. um_set (fst e) now) es (us_lastActivity s)\<rparr>)"
    if "\<forall>e \<in> set es. um_contains (us_endpoints s) (fst e)" "us_inv s" for es s
    using that
  proof (induction es arbitrary: s)
    case (Cons e es)
    then show ?case using Cons.IH [of "s\<lparr>us_lastActivity := um_set (fst e) now (us_lastActivity s)\<rparr>"]
      by (simp add: us_inv_activity)
  qed simp
  then show ?thesis using inv by (auto simp: us_RefreshAllActivity_def um_contains_iff_dom)
qed

lemma us_inv_remove_inactive: "us_inv s \<Longrightarrow> us_inv (snd (remove_inactive now idle m s))"
  by (induction now idle m s rule: remove_inactive.induct) (auto simp: us_inv_Remove split: prod.splits)

lemma us_inv_RemoveInactive: "us_inv s \<Longrightarrow> us_inv (snd (us_RemoveInactiveEndpoints now idle s))"
  by (simp add: us_RemoveInactiveEndpoints_def us_inv_remove_inactive)

lemma us_inv_pops:
  assumes "us_inv s"
  shows "us_inv (snd (us_TryPopMovement s))" "us_inv (snd (us_TryPopAttack s))"
proof -
  have m: "us_tokens (snd (us_TryPopMovement s)) = us_tokens s"
    "us_endpoints (snd (us_TryPopMovement s)) = us_endpoints s"
    "us_lastActivity (snd (us_TryPopMovement s)) = us_lastActivity s"
    "us_lastMovementSequences (snd (us_TryPopMovement s)) = us_lastMovementSequences s"
    "us_lastAttackSequences (snd (us_TryPopMovement s)) = us_lastAttackSequences s"
    "attack_inbox (snd (us_TryPopMovement s)) = attack_inbox s"
    by (auto simp: us_TryPopMovement_def attack_inbox_def split: list.splits)
  have a: "us_tokens (snd (us_TryPopAttack s)) = us_tokens s"
    "us_endpoints (snd (us_TryPopAttack s)) = us_endpoints s"
    "us_lastActivity (snd (us_TryPopAttack s)) = us_lastActivity s"
    "us_lastMovementSequences (snd (us_TryPopAttack s)) = us_lastMovementSequences s"
    "us_lastAttackSequences (snd (us_TryPopAttack s)) = us_lastAttackSequences s"
    "movement_inbox (snd (us_TryPopAttack s)) = movement_inbox s"
    by (auto simp: us_TryPopAttack_def movement_inbox_def split: list.splits)
  show "us_inv (snd (us_TryPopMovement s))"
    using us_invD [OF assms] movements.pop_ordered [OF us_invD(10) [OF assms]]
    by (intro us_invI) (simp_all add: m)
  show "us_inv (snd (us_TryPopAttack s))"
    using us_invD [OF assms] attacks.pop_ordered [OF us_invD(11) [OF assms]]
    by (intro us_invI) (simp_all add: a)
qed

lemma offer_movement_fields [simp]:
  "us_tokens (offer_movement x m s) = us_tokens s" "us_endpoints (offer_movement x m s) = us_endpoints s"
  "us_lastActivity (offer_movement x m s) = us_lastActivity s"
  "us_lastAttackSequences (offer_movement x m s) = us_lastAttackSequences s"
  "attack_inbox (offer_movement x m s) = attack_inbox s"
  "us_dungeonId (offer_movement x m s) = us_dungeonId s" "us_stopped (offer_movement x m s) = us_stopped s"
  "um_ok (us_lastMovementSequences s) \<Longrightarrow> um_ok (us_lastMovementSequences (offer_movement x m s))"
  by (simp_all add: offer_movement_def attack_inbox_def)

lemma offer_attack_fields [simp]:
  "us_tokens (offer_attack x a s) = us_tokens s" "us_endpoints (offer_attack x a s) = us_endpoints s"
  "us_lastActivity (offer_attack x a s) = us_lastActivity s"
  "us_lastMovementSequences (offer_attack x a s) = us_lastMovementSequences s"
  "movement_inbox (offer_attack x a s) = movement_inbox s"
  "us_dungeonId (offer_attack x a s) = us_dungeonId s" "us_stopped (offer_attack x a s) = us_stopped s"
  "um_ok (us_lastAttackSequences s) \<Longrightarrow> um_ok (us_lastAttackSequences (offer_attack x a s))"
  by (simp_all add: offer_attack_def movement_inbox_def)

lemma offer_windows:
  "um_contains (us_lastMovementSequences (offer_movement x m s)) y \<Longrightarrow>
     y = x \<or> um_contains (us_lastMovementSequences s) y"
  "um_contains (us_lastAttackSequences (offer_attack x a s)) y \<Longrightarrow>
     y = x \<or> um_contains (us_lastAttackSequences s) y"
  by (auto simp: offer_movement_def offer_attack_def umap_simps split: if_splits)

lemma us_inv_offers:
  assumes "us_inv s" "um_contains (us_endpoints s) x"
  shows "us_inv (offer_movement x m s)" "us_inv (offer_attack x a s)"
proof -
  note D = us_invD [OF assms(1)]
  show "us_inv (offer_movement x m s)"
    using D assms(2) movements.offer_ordered [OF D(10), of x m]
    by (intro us_invI) (auto dest: offer_windows(1))
  show "us_inv (offer_attack x a s)"
    using D assms(2) attacks.offer_ordered [OF D(11), of x a]
    by (intro us_invI) (auto dest: offer_windows(2))
qed

lemma session_of_endpoint_known:
  assumes "session_of_endpoint e s = x" "x \<noteq> 0" "um_ok (us_endpoints s)"
  shows "map_of (us_endpoints s) x = Some e"
  using assms by (auto simp: session_of_endpoint_def um_find_iff_set split: option.splits dest!: find_Some_in)

lemma us_inv_inputs:
  assumes inv: "us_inv s"
  shows "us_inv (HandlePlayerMovement e t m s)" "us_inv (HandlePlayerAttack e t a s)"
    "us_inv (HandleHeartbeat e t h s)"
proof -
  have known: "um_contains (us_endpoints s) (session_of_endpoint e s)" if "session_of_endpoint e s \<noteq> 0"
    using session_of_endpoint_known [OF refl that us_invD(2) [OF inv]] by (simp add: um_contains_def)
  show "us_inv (HandlePlayerMovement e t m s)"
    unfolding HandlePlayerMovement_offer Let_def
    using inv known by (auto intro!: us_inv_offers us_inv_activity)
  show "us_inv (HandlePlayerAttack e t a s)"
    unfolding HandlePlayerAttack_offer Let_def
    using inv known by (auto intro!: us_inv_offers us_inv_activity)
  show "us_inv (HandleHeartbeat e t h s)"
    using inv by (auto simp: HandleHeartbeat_def um_contains_def intro!: us_inv_activity)
qed

lemma us_inv_hello:
  assumes inv: "us_inv s"
  shows "us_inv (snd (accept_hello e t h s))"
proof (cases "map_of (us_tokens s) (he_sessionId h) = Some (he_token h) \<and>
    map_of (us_endpoints s) (he_sessionId h) = None")
  case False
  then show ?thesis using inv
    by (auto simp: accept_hello_def um_contains_def intro!: us_inv_activity split: option.splits)
next
  case True
  let ?x = "he_sessionId h"
  have eq: "snd (accept_hello e t h s) = s\<lparr>us_endpoints := um_emplace ?x e (us_endpoints s),
      us_lastActivity := um_set ?x t (us_lastActivity s)\<rparr>"
    using True by (simp add: accept_hello_def)
  show ?thesis
    unfolding eq using us_invD [OF inv] True
    by (intro us_invI) (auto simp: umap_simps um_contains_Some movement_inbox_def attack_inbox_def)
qed

lemma SendHelloAck_total: "i \<noteq> 0 \<Longrightarrow> \<exists>r. SendHelloAck serialize tick i res s = Inr r"
  by (auto simp: SendHelloAck_def EncodeUdpHelloAck_def IsValid_ack_def)

text \<open>Receiving any datagram: nothing is thrown, the invariant is kept.\<close>

lemma us_inv_receive_input:
  assumes "us_inv s"
  shows "us_inv (receive_input parse e t bs s)"
  using assms
  by (auto simp: receive_input_def receive_attack_def receive_heartbeat_def us_inv_inputs split: option.splits)

lemma HandleReceive_total:
  assumes inv: "us_inv s"
  shows "\<exists>r s'. HandleReceive parse serialize tick e t rcv s = Inr (r, s') \<and> us_inv s'"
proof (cases "\<not> us_stopped s \<and> (\<exists>bs h. rcv = Received bs \<and> DecodeUdpHello parse bs = Some h)")
  case False
  with inv show ?thesis
    by (auto simp: HandleReceive_def us_inv_receive_input split: receive_outcome.splits option.splits)
next
  case True
  then obtain bs h where h: "rcv = Received bs" "DecodeUdpHello parse bs = Some h" "\<not> us_stopped s" by blast
  have i: "he_dungeonId h \<noteq> 0" using Decode_payload(3) [OF h(2)] by (simp add: IsValid_hello_def)
  obtain res s1 where a: "accept_hello e t h s = (res, s1)" by fastforce
  then have "us_inv s1" using us_inv_hello [OF inv, of e t h] by simp
  moreover obtain r where "SendHelloAck serialize tick (he_dungeonId h) res s1 = Inr r"
    using SendHelloAck_total [OF i] by blast
  moreover obtain r' where "SendHelloAck serialize tick (he_dungeonId h) InvalidDungeon s = Inr r'"
    using SendHelloAck_total [OF i] by blast
  ultimately show ?thesis using h a inv by (auto simp: HandleReceive_def HandleHello_def)
qed

section \<open>Authentication of endpoints\<close>

lemma accept_hello_endpoints:
  "us_endpoints (snd (accept_hello e t h s)) =
     (if map_of (us_tokens s) (he_sessionId h) = Some (he_token h) \<and>
         map_of (us_endpoints s) (he_sessionId h) = None
      then um_emplace (he_sessionId h) e (us_endpoints s) else us_endpoints s)"
  "us_tokens (snd (accept_hello e t h s)) = us_tokens s"
  by (auto simp: accept_hello_def split: option.splits)

lemma input_endpoints [simp]:
  "us_endpoints (receive_input parse e t bs s) = us_endpoints s"
  "us_tokens (receive_input parse e t bs s) = us_tokens s"
  by (auto simp: receive_input_def receive_attack_def receive_heartbeat_def HandlePlayerMovement_offer
      HandlePlayerAttack_offer HandleHeartbeat_def Let_def split: option.splits)

lemma HandleReceive_endpoints:
  assumes "HandleReceive parse serialize tick e t rcv s = Inr (r, s')"
  shows "us_tokens s' = us_tokens s \<and>
    (us_endpoints s' = us_endpoints s \<or>
     (\<exists>bs h. rcv = Received bs \<and> DecodeUdpHello parse bs = Some h \<and> he_dungeonId h = us_dungeonId s \<and>
        map_of (us_tokens s) (he_sessionId h) = Some (he_token h) \<and>
        map_of (us_endpoints s) (he_sessionId h) = None \<and>
        us_endpoints s' = um_emplace (he_sessionId h) e (us_endpoints s)))"
proof (cases "\<exists>bs h. rcv = Received bs \<and> DecodeUdpHello parse bs = Some h \<and> he_dungeonId h = us_dungeonId s \<and>
    \<not> us_stopped s")
  case False
  with assms show ?thesis
    by (auto simp: HandleReceive_def split: if_splits receive_outcome.splits option.splits sum.splits)
next
  case True
  then obtain bs h where h: "rcv = Received bs" "DecodeUdpHello parse bs = Some h"
    "he_dungeonId h = us_dungeonId s" "\<not> us_stopped s" by blast
  with assms have "s' = snd (accept_hello e t h s)"
    by (auto simp: HandleReceive_def HandleHello_def split: prod.splits sum.splits)
  then show ?thesis using h accept_hello_endpoints [of e t h s] by auto
qed

text \<open>Everyone is authenticated exactly when every token has its endpoint.\<close>

lemma AllParticipantsAuthenticated_iff:
  assumes inv: "us_inv s"
  shows "us_AllParticipantsAuthenticated s \<longleftrightarrow>
    (\<forall>x. um_contains (us_tokens s) x \<longrightarrow> um_contains (us_endpoints s) x)"
proof -
  let ?E = "{x. um_contains (us_endpoints s) x}" and ?T = "{x. um_contains (us_tokens s) x}"
  note D = us_invD [OF inv]
  have len: "length (us_endpoints s) = card ?E" "length (us_tokens s) = card ?T"
    using D(1,2) um_length_card by (auto simp: tokens_ok_def)
  have sub: "?E \<subseteq> ?T" using D(6) by blast
  have fin: "finite ?T" by (simp add: um_contains_iff_dom)
  have "card ?E = card ?T \<longleftrightarrow> ?E = ?T"
    using card_subset_eq [OF fin sub] by metis
  with sub show ?thesis unfolding us_AllParticipantsAuthenticated_def len by blast
qed

section \<open>The snapshot pump\<close>

lemma upd_stats_fields [simp]:
  "us_stopped (upd_stats f s) = us_stopped s" "us_tokens (upd_stats f s) = us_tokens s"
  "us_endpoints (upd_stats f s) = us_endpoints s" "us_lastActivity (upd_stats f s) = us_lastActivity s"
  "us_lastMovementSequences (upd_stats f s) = us_lastMovementSequences s"
  "us_lastAttackSequences (upd_stats f s) = us_lastAttackSequences s"
  "us_pendingMovements (upd_stats f s) = us_pendingMovements s"
  "us_pendingAttacks (upd_stats f s) = us_pendingAttacks s"
  "us_pendingSnapshot (upd_stats f s) = us_pendingSnapshot s"
  "us_snapshotPumpScheduled (upd_stats f s) = us_snapshotPumpScheduled s"
  "us_activeSnapshot (upd_stats f s) = us_activeSnapshot s"
  "us_snapshotDestinations (upd_stats f s) = us_snapshotDestinations s"
  "us_nextSnapshotDestination (upd_stats f s) = us_nextSnapshotDestination s"
  "us_snapshotStats (upd_stats f s) = f (us_snapshotStats s)"
  "us_dungeonId (upd_stats f s) = us_dungeonId s"
  by (simp_all add: upd_stats_def)

lemma us_inv_pump:
  "us_inv s \<Longrightarrow> us_inv (PumpSnapshotOnStrand s)"
  "us_inv s \<Longrightarrow> us_inv (SendSnapshotToNextEndpoint s)"
  "us_inv s \<Longrightarrow> us_inv (FinishSnapshotOnStrand s)"
proof (induction s and s and s rule: PumpSnapshotOnStrand_SendSnapshotToNextEndpoint_FinishSnapshotOnStrand.induct)
  case (1 s)
  show ?case
    by (subst PumpSnapshotOnStrand.simps)
       (auto split: option.splits intro!: "1.IH" us_inv_cong [OF "1.prems"])
next
  case (2 s)
  then show ?case by (subst SendSnapshotToNextEndpoint.simps) auto
next
  case (3 s)
  show ?case
    by (subst FinishSnapshotOnStrand.simps) (rule "3.IH", rule us_inv_cong [OF "3.prems"], simp_all)
qed

lemma us_inv_SendSnapshot: "us_inv s \<Longrightarrow> us_inv (snd (SendSnapshot bs s))"
  by (rule us_inv_cong [of s]) (simp_all add: SendSnapshot_def Let_def)

lemma us_inv_Complete: "us_inv s \<Longrightarrow> us_inv (CompleteSnapshotSend err s)"
  unfolding CompleteSnapshotSend_def Let_def
  by (rule us_inv_pump(2), rule us_inv_cong [of s]) simp_all

lemma us_inv_Stop: "us_inv s \<Longrightarrow> us_inv (us_Stop s)"
  by (rule us_inv_cong [of s]) (simp_all add: us_Stop_def)

datatype udp_op =
  UReceive u32 endpoint int receive_outcome
| UDisconnect SessionId
| UReplace SessionId SessionId DungeonUdpToken
| URemove SessionId
| URefresh int
| URemoveInactive int int
| UPopMovement
| UPopAttack
| USendSnapshot "u8 list"
| UPump
| UCompleteSend bool
| UStop

fun us_step :: "parser \<Rightarrow> serializer \<Rightarrow> DungeonUdpSession \<Rightarrow> udp_op \<Rightarrow> DungeonUdpSession" where
  "us_step parse serialize s (UReceive tick e t rcv) =
     (case HandleReceive parse serialize tick e t rcv s of Inl _ \<Rightarrow> s | Inr (_, s') \<Rightarrow> s')"
| "us_step parse serialize s (UDisconnect x) = snd (us_DisconnectParticipant x s)"
| "us_step parse serialize s (UReplace x y t) = snd (us_ReplaceParticipant x y t s)"
| "us_step parse serialize s (URemove x) = snd (us_RemoveParticipant x s)"
| "us_step parse serialize s (URefresh t) = us_RefreshAllActivity t s"
| "us_step parse serialize s (URemoveInactive t idle) = snd (us_RemoveInactiveEndpoints t idle s)"
| "us_step parse serialize s UPopMovement = snd (us_TryPopMovement s)"
| "us_step parse serialize s UPopAttack = snd (us_TryPopAttack s)"
| "us_step parse serialize s (USendSnapshot bs) = snd (SendSnapshot bs s)"
| "us_step parse serialize s UPump = PumpSnapshotOnStrand s"
| "us_step parse serialize s (UCompleteSend err) = CompleteSnapshotSend err s"
| "us_step parse serialize s UStop = us_Stop s"

interpretation udp_machine: machine "us_step parse serialize" us_inv for parse serialize
proof
  fix s x assume inv: "us_inv s"
  show "us_inv (us_step parse serialize s x)"
  proof (cases x)
    case (UReceive tick e t rcv)
    with HandleReceive_total [OF inv, of parse serialize tick e t rcv] show ?thesis by auto
  qed (use inv in \<open>auto simp: us_inv_Disconnect us_inv_Replace us_inv_RemoveParticipant us_inv_Refresh
      us_inv_RemoveInactive us_inv_pops us_inv_SendSnapshot us_inv_pump us_inv_Complete us_inv_Stop\<close>)
qed

end
