(* ===== verification/Udp_Manager.thy ===== *)
theory Udp_Manager
  imports Udp_Session
begin

text \<open>
  The registry of UDP sessions (\<open>src/include/DungeonUdpManager.h\<close>, \<open>src/src/DungeonUdpManager.cpp\<close>).

  The bytes of \<open>std::random_device\<close> are an argument, a list that the operations consume. The token loop
  of \<open>Allocate\<close> draws until it finds a fresh token and need not end; \<open>None\<close> says that the given bytes
  did not suffice, so every statement that it returns is an existence claim over the bytes. The port
  chosen by the operating system is an argument too, \<open>None\<close> when opening or binding the socket fails.
\<close>

record DungeonUdpManager =
  udm_sessions :: "(DungeonId, DungeonUdpSession) umap"
  udm_stopping :: bool
  udm_serverTick :: u32

definition udm_init :: DungeonUdpManager where
  "udm_init = \<lparr>udm_sessions = [], udm_stopping = False, udm_serverTick = 0\<rparr>"

text \<open>Eight bytes, the first one the most significant.\<close>

definition GenerateToken :: "u8 list \<Rightarrow> (DungeonUdpToken \<times> u8 list) option" where
  "GenerateToken rnd =
     (if length rnd < 8 then None
      else Some (fold (\<lambda>b token. push_bit 8 token OR ucast b) (take 8 rnd) 0, drop 8 rnd))"

text \<open>The \<open>do ... while\<close> loop.\<close>

function fresh_token :: "DungeonUdpToken list \<Rightarrow> u8 list \<Rightarrow> (DungeonUdpToken \<times> u8 list) option" where
  "fresh_token used rnd =
     (case GenerateToken rnd of
        None \<Rightarrow> None
      | Some (token, rnd') \<Rightarrow>
          if token = 0 \<or> List.member used token then fresh_token used rnd' else Some (token, rnd'))"
  by pat_completeness auto
termination
  by (relation "measure (\<lambda>(used, rnd). length rnd)") (auto simp: GenerateToken_def split: if_splits)

declare fresh_token.simps [simp del]

fun draw_tokens ::
    "SessionId list \<Rightarrow> DungeonUdpToken list \<Rightarrow> (SessionId, DungeonUdpToken) umap \<Rightarrow> u8 list \<Rightarrow>
     (SessionId, DungeonUdpToken) umap option" where
  "draw_tokens [] used tokens rnd = Some tokens"
| "draw_tokens (x # xs) used tokens rnd =
     (case fresh_token used rnd of
        None \<Rightarrow> None
      | Some (token, rnd') \<Rightarrow> draw_tokens xs (token # used) (um_emplace x token tokens) rnd')"

definition Allocate ::
    "u8 list \<Rightarrow> u16 option \<Rightarrow> DungeonId \<Rightarrow> SessionId list \<Rightarrow> DungeonUdpManager \<Rightarrow>
     (u16 option \<times> DungeonUdpManager) option" where
  "Allocate rnd bound dungeonId participants s =
     (if udm_stopping s \<or> dungeonId = 0 \<or> participants = [] \<or> um_contains (udm_sessions s) dungeonId
      then Some (None, s)
      else if \<not> check_participants participants [] then Some (None, s)
      else case bound of
             None \<Rightarrow> Some (None, s)
           | Some port \<Rightarrow>
               (case draw_tokens participants [] [] rnd of
                  None \<Rightarrow> None
                | Some tokens \<Rightarrow>
                    Some (Some port,
                      s\<lparr>udm_sessions := um_emplace dungeonId (make_UdpSession dungeonId port tokens)
                                          (udm_sessions s)\<rparr>)))"

definition FindPort :: "DungeonUdpManager \<Rightarrow> DungeonId \<Rightarrow> u16 option" where
  "FindPort s dungeonId = map_option us_port (map_of (udm_sessions s) dungeonId)"

definition FindToken :: "DungeonUdpManager \<Rightarrow> DungeonId \<Rightarrow> SessionId \<Rightarrow> DungeonUdpToken option" where
  "FindToken s dungeonId sessionId =
     (case map_of (udm_sessions s) dungeonId of None \<Rightarrow> None | Some u \<Rightarrow> us_FindToken u sessionId)"

definition FindEndpoint :: "DungeonUdpManager \<Rightarrow> DungeonId \<Rightarrow> SessionId \<Rightarrow> endpoint option" where
  "FindEndpoint s dungeonId sessionId =
     (case map_of (udm_sessions s) dungeonId of None \<Rightarrow> None | Some u \<Rightarrow> us_FindEndpoint u sessionId)"

definition put_session :: "DungeonId \<Rightarrow> DungeonUdpSession \<Rightarrow> DungeonUdpManager \<Rightarrow> DungeonUdpManager" where
  "put_session dungeonId u s = s\<lparr>udm_sessions := um_modify dungeonId (\<lambda>_. u) (udm_sessions s)\<rparr>"

definition udm_DisconnectParticipant ::
    "DungeonId \<Rightarrow> SessionId \<Rightarrow> DungeonUdpManager \<Rightarrow> bool \<times> DungeonUdpManager" where
  "udm_DisconnectParticipant dungeonId sessionId s =
     (case map_of (udm_sessions s) dungeonId of
        None \<Rightarrow> (False, s)
      | Some u \<Rightarrow> let (b, u') = us_DisconnectParticipant sessionId u in (b, put_session dungeonId u' s))"

definition MAX_TOKEN_ATTEMPTS :: nat where "MAX_TOKEN_ATTEMPTS = 16"

text \<open>The attempts of \<open>ReplaceParticipant\<close>; each draws a token of its own.\<close>

fun try_replace ::
    "nat \<Rightarrow> SessionId \<Rightarrow> SessionId \<Rightarrow> u8 list \<Rightarrow> DungeonUdpSession \<Rightarrow>
     (DungeonUdpToken option \<times> DungeonUdpSession) option" where
  "try_replace 0 old new rnd u = Some (None, u)"
| "try_replace (Suc n) old new rnd u =
     (case GenerateToken rnd of
        None \<Rightarrow> None
      | Some (token, rnd') \<Rightarrow>
          if token \<noteq> 0 \<and> fst (us_ReplaceParticipant old new token u)
          then Some (Some token, snd (us_ReplaceParticipant old new token u))
          else try_replace n old new rnd' u)"

definition udm_ReplaceParticipant ::
    "u8 list \<Rightarrow> DungeonId \<Rightarrow> SessionId \<Rightarrow> SessionId \<Rightarrow> DungeonUdpManager \<Rightarrow>
     (DungeonUdpToken option \<times> DungeonUdpManager) option" where
  "udm_ReplaceParticipant rnd dungeonId oldSessionId newSessionId s =
     (case map_of (udm_sessions s) dungeonId of
        None \<Rightarrow> Some (None, s)
      | Some u \<Rightarrow>
          if us_FindToken u oldSessionId = None \<or> us_FindToken u newSessionId \<noteq> None then Some (None, s)
          else case try_replace MAX_TOKEN_ATTEMPTS oldSessionId newSessionId rnd u of
                 None \<Rightarrow> None
               | Some (token, u') \<Rightarrow> Some (token, put_session dungeonId u' s))"

definition udm_RemoveParticipant ::
    "DungeonId \<Rightarrow> SessionId \<Rightarrow> DungeonUdpManager \<Rightarrow> bool \<times> DungeonUdpManager" where
  "udm_RemoveParticipant dungeonId sessionId s =
     (case map_of (udm_sessions s) dungeonId of
        None \<Rightarrow> (False, s)
      | Some u \<Rightarrow> let (b, u') = us_RemoveParticipant sessionId u in (b, put_session dungeonId u' s))"

definition AllParticipantsAuthenticated :: "DungeonUdpManager \<Rightarrow> DungeonId \<Rightarrow> bool" where
  "AllParticipantsAuthenticated s dungeonId =
     (case map_of (udm_sessions s) dungeonId of
        None \<Rightarrow> False | Some u \<Rightarrow> us_AllParticipantsAuthenticated u)"

definition SetServerTick :: "u32 \<Rightarrow> DungeonUdpManager \<Rightarrow> DungeonUdpManager" where
  "SetServerTick tick s = s\<lparr>udm_serverTick := tick\<rparr>"

definition RefreshAllActivity :: "int \<Rightarrow> DungeonId \<Rightarrow> DungeonUdpManager \<Rightarrow> DungeonUdpManager" where
  "RefreshAllActivity now dungeonId s =
     (case map_of (udm_sessions s) dungeonId of
        None \<Rightarrow> s | Some u \<Rightarrow> put_session dungeonId (us_RefreshAllActivity now u) s)"

definition RemoveInactiveEndpoints ::
    "int \<Rightarrow> int \<Rightarrow> DungeonId \<Rightarrow> DungeonUdpManager \<Rightarrow> SessionId list \<times> DungeonUdpManager" where
  "RemoveInactiveEndpoints now idleTimeout dungeonId s =
     (case map_of (udm_sessions s) dungeonId of
        None \<Rightarrow> ([], s)
      | Some u \<Rightarrow> let (xs, u') = us_RemoveInactiveEndpoints now idleTimeout u in (xs, put_session dungeonId u' s))"

text \<open>The second result tells whether the pump is dispatched on the session's strand.\<close>

definition BroadcastSnapshot ::
    "DungeonId \<Rightarrow> u8 list \<Rightarrow> DungeonUdpManager \<Rightarrow> (bool \<times> bool) \<times> DungeonUdpManager" where
  "BroadcastSnapshot dungeonId bytes s =
     (case map_of (udm_sessions s) dungeonId of
        None \<Rightarrow> ((False, False), s)
      | Some u \<Rightarrow> let (r, u') = SendSnapshot bytes u in (r, put_session dungeonId u' s))"

definition udm_TryPopMovement ::
    "DungeonId \<Rightarrow> DungeonUdpManager \<Rightarrow> AuthenticatedPlayerMovement option \<times> DungeonUdpManager" where
  "udm_TryPopMovement dungeonId s =
     (case map_of (udm_sessions s) dungeonId of
        None \<Rightarrow> (None, s)
      | Some u \<Rightarrow> let (m, u') = us_TryPopMovement u in (m, put_session dungeonId u' s))"

definition PendingMovementCount :: "DungeonUdpManager \<Rightarrow> DungeonId \<Rightarrow> nat" where
  "PendingMovementCount s dungeonId =
     (case map_of (udm_sessions s) dungeonId of None \<Rightarrow> 0 | Some u \<Rightarrow> length (us_pendingMovements u))"

definition udm_TryPopAttack ::
    "DungeonId \<Rightarrow> DungeonUdpManager \<Rightarrow> AuthenticatedPlayerAttack option \<times> DungeonUdpManager" where
  "udm_TryPopAttack dungeonId s =
     (case map_of (udm_sessions s) dungeonId of
        None \<Rightarrow> (None, s)
      | Some u \<Rightarrow> let (a, u') = us_TryPopAttack u in (a, put_session dungeonId u' s))"

definition PendingAttackCount :: "DungeonUdpManager \<Rightarrow> DungeonId \<Rightarrow> nat" where
  "PendingAttackCount s dungeonId =
     (case map_of (udm_sessions s) dungeonId of None \<Rightarrow> 0 | Some u \<Rightarrow> length (us_pendingAttacks u))"

definition FindStats :: "DungeonUdpManager \<Rightarrow> DungeonId \<Rightarrow> DungeonUdpSessionStats option" where
  "FindStats s dungeonId = map_option us_snapshotStats (map_of (udm_sessions s) dungeonId)"

text \<open>The session leaves the registry and is stopped; it may outlive it while a handler holds it.\<close>

definition Release :: "DungeonId \<Rightarrow> DungeonUdpManager \<Rightarrow> bool \<times> DungeonUdpManager" where
  "Release dungeonId s =
     (case map_of (udm_sessions s) dungeonId of
        None \<Rightarrow> (False, s)
      | Some u \<Rightarrow> (True, s\<lparr>udm_sessions := um_erase dungeonId (udm_sessions s)\<rparr>))"

definition udm_Stop :: "DungeonUdpManager \<Rightarrow> DungeonUdpManager" where
  "udm_Stop s = (if udm_stopping s then s else s\<lparr>udm_stopping := True, udm_sessions := []\<rparr>)"

definition AllocationCount :: "DungeonUdpManager \<Rightarrow> nat" where
  "AllocationCount s = length (udm_sessions s)"

section \<open>Tokens\<close>

lemma fresh_token_fresh:
  "fresh_token used rnd = Some (token, rnd') \<Longrightarrow> token \<noteq> 0 \<and> token \<notin> set used \<and> length rnd' + 8 \<le> length rnd"
proof (induction used rnd rule: fresh_token.induct)
  case (1 used rnd)
  show ?case
  proof (cases "GenerateToken rnd")
    case None
    with "1.prems" show ?thesis by (simp add: fresh_token.simps [of used rnd])
  next
    case (Some p)
    obtain t r where p: "p = (t, r)" by fastforce
    have len: "length r + 8 \<le> length rnd" using Some p by (auto simp: GenerateToken_def split: if_splits)
    show ?thesis
    proof (cases "t = 0 \<or> List.member used t")
      case True
      with "1.prems" Some p have "fresh_token used r = Some (token, rnd')"
        by (auto simp: fresh_token.simps [of used rnd])
      with "1.IH" [OF Some p [symmetric] True] len show ?thesis by auto
    next
      case False
      with "1.prems" Some p len show ?thesis by (auto simp: fresh_token.simps [of used rnd])
    qed
  qed
qed

lemma draw_tokens_ok:
  "draw_tokens xs used m rnd = Some tokens \<Longrightarrow> tokens_ok m \<Longrightarrow> set used = snd ` set m \<Longrightarrow>
   distinct xs \<Longrightarrow> 0 \<notin> set xs \<Longrightarrow> \<forall>x \<in> set xs. \<not> um_contains m x \<Longrightarrow>
   tokens_ok tokens \<and> (\<forall>x. um_contains tokens x \<longleftrightarrow> x \<in> set xs \<or> um_contains m x)"
proof (induction xs used m rnd rule: draw_tokens.induct)
  case (2 x xs used m rnd)
  then obtain token rnd' where f: "fresh_token used rnd = Some (token, rnd')"
    "draw_tokens xs (token # used) (um_emplace x token m) rnd' = Some tokens"
    by (auto split: option.splits)
  have fr: "token \<noteq> 0" "token \<notin> set used" using fresh_token_fresh [OF f(1)] by auto
  have em: "um_emplace x token m = m @ [(x, token)]" using "2.prems"(6) by (simp add: um_emplace_def)
  have "tokens_ok (um_emplace x token m)"
    using "2.prems"(2,3,5,6) fr by (auto simp: em tokens_ok_def um_ok_def um_contains_iff_dom)
  moreover have "set (token # used) = snd ` set (um_emplace x token m)" using "2.prems"(3) by (auto simp: em)
  moreover have "\<forall>y \<in> set xs. \<not> um_contains (um_emplace x token m) y"
    using "2.prems"(4,6) by (auto simp: umap_simps)
  ultimately show ?case
    using "2.IH" [OF f(1) refl f(2)] "2.prems"(4,5) by (auto simp: umap_simps)
qed simp

text \<open>The bytes from which a given token is drawn; a source that delivers fresh tokens suffices.\<close>

definition token_bytes :: "DungeonUdpToken \<Rightarrow> u8 list" where
  "token_bytes t = map (\<lambda>k. ucast (drop_bit k t)) [56, 48, 40, 32, 24, 16, 8, 0]"

lemma append_byte: "push_bit 8 (drop_bit (k + 8) t) OR ucast (ucast (drop_bit k t) :: u8) = drop_bit k (t :: u64)"
  by (rule bit_word_eqI) (auto simp: bit_simps not_less dest: bit_imp_le_length)

lemma fold_token_bytes:
  "fold (\<lambda>b token. push_bit 8 token OR ucast b) (token_bytes t) 0 = t"
proof -
  have top: "(0 :: u64) = drop_bit 64 t" by (rule bit_word_eqI) (auto simp: bit_simps dest: bit_imp_le_length)
  have "push_bit 8 (0 :: u64) OR ucast (ucast (drop_bit 56 t) :: u8) = drop_bit 56 t"
    unfolding top using append_byte [of 56 t] by simp
  then show ?thesis
    using append_byte [of 48 t] append_byte [of 40 t] append_byte [of 32 t] append_byte [of 24 t]
      append_byte [of 16 t] append_byte [of 8 t] append_byte [of 0 t]
    by (simp add: token_bytes_def)
qed

lemma GenerateToken_bytes: "GenerateToken (token_bytes t @ rnd) = Some (t, rnd)"
proof -
  have "length (token_bytes t) = 8" by (simp add: token_bytes_def)
  then show ?thesis using fold_token_bytes [of t] by (simp add: GenerateToken_def)
qed

lemma draw_tokens_returns:
  "length ts = length xs \<Longrightarrow> distinct ts \<Longrightarrow> 0 \<notin> set ts \<Longrightarrow> set ts \<inter> set used = {} \<Longrightarrow>
   \<exists>tokens. draw_tokens xs used m (concat (map token_bytes ts) @ rnd) = Some tokens"
proof (induction xs arbitrary: ts used m)
  case (Cons x xs)
  then obtain t ts' where ts: "ts = t # ts'" by (cases ts) auto
  have "fresh_token used (token_bytes t @ concat (map token_bytes ts') @ rnd) =
      Some (t, concat (map token_bytes ts') @ rnd)"
    using Cons.prems ts by (simp add: fresh_token.simps GenerateToken_bytes)
  moreover have "\<exists>tokens. draw_tokens xs (t # used) (um_emplace x t m) (concat (map token_bytes ts') @ rnd) = Some tokens"
    using Cons.prems ts by (intro Cons.IH) auto
  ultimately show ?case by (simp add: ts)
qed simp

section \<open>The manager invariant\<close>

definition udm_inv :: "DungeonUdpManager \<Rightarrow> bool" where
  "udm_inv s \<longleftrightarrow>
     um_ok (udm_sessions s) \<and> (udm_stopping s \<longrightarrow> udm_sessions s = []) \<and>
     (\<forall>i u. map_of (udm_sessions s) i = Some u \<longrightarrow> us_inv u \<and> us_dungeonId u = i)"

lemma udm_inv_init: "udm_inv udm_init"
  by (simp add: udm_inv_def udm_init_def)

lemma udm_invD:
  assumes "udm_inv s"
  shows "um_ok (udm_sessions s)" "map_of (udm_sessions s) i = Some u \<Longrightarrow> us_inv u"
    "map_of (udm_sessions s) i = Some u \<Longrightarrow> us_dungeonId u = i"
  using assms unfolding udm_inv_def by blast+

lemma udm_inv_put:
  assumes "udm_inv s" "us_inv u" "us_dungeonId u = i"
  shows "udm_inv (put_session i u s)"
  using assms by (auto simp: udm_inv_def put_session_def umap_simps split: if_splits)

lemma us_dungeonId_fields [simp]:
  "us_dungeonId (snd (us_DisconnectParticipant x u)) = us_dungeonId u"
  "us_dungeonId (snd (us_ReplaceParticipant x y t u)) = us_dungeonId u"
  "us_dungeonId (snd (us_RemoveParticipant x u)) = us_dungeonId u"
  "us_dungeonId (us_RefreshAllActivity now u) = us_dungeonId u"
  "us_dungeonId (snd (us_TryPopMovement u)) = us_dungeonId u"
  "us_dungeonId (snd (us_TryPopAttack u)) = us_dungeonId u"
  "us_dungeonId (snd (SendSnapshot bs u)) = us_dungeonId u"
  by (auto simp: us_DisconnectParticipant_def us_ReplaceParticipant_def us_RemoveParticipant_def
      us_RefreshAllActivity_def us_TryPopMovement_def us_TryPopAttack_def SendSnapshot_def
      RemoveParticipantRuntimeStateLocked_def Let_def split: list.splits)

lemma us_dungeonId_remove_inactive [simp]: "us_dungeonId (snd (remove_inactive now idle m u)) = us_dungeonId u"
  by (induction now idle m u rule: remove_inactive.induct) (auto simp: Remove_fields split: prod.splits)

lemma us_dungeonId_RemoveInactive [simp]:
  "us_dungeonId (snd (us_RemoveInactiveEndpoints now idle u)) = us_dungeonId u"
  by (simp add: us_RemoveInactiveEndpoints_def)

text \<open>The tokens of a session, which only \<open>Replace\<close> and \<open>Remove\<close> change.\<close>

lemma us_tokens_fields [simp]:
  "us_tokens (snd (us_DisconnectParticipant x u)) = us_tokens u"
  "us_tokens (us_RefreshAllActivity now u) = us_tokens u"
  "us_tokens (snd (us_TryPopMovement u)) = us_tokens u"
  "us_tokens (snd (us_TryPopAttack u)) = us_tokens u"
  "us_tokens (snd (SendSnapshot bs u)) = us_tokens u"
  by (auto simp: us_DisconnectParticipant_def us_RefreshAllActivity_def us_TryPopMovement_def
      us_TryPopAttack_def SendSnapshot_def RemoveParticipantRuntimeStateLocked_def Let_def split: list.splits)

lemma us_tokens_remove_inactive [simp]: "us_tokens (snd (remove_inactive now idle m u)) = us_tokens u"
  by (induction now idle m u rule: remove_inactive.induct) (auto simp: Remove_fields split: prod.splits)

lemma us_tokens_RemoveInactive [simp]:
  "us_tokens (snd (us_RemoveInactiveEndpoints now idle u)) = us_tokens u"
  by (simp add: us_RemoveInactiveEndpoints_def)

lemma udm_inv_update:
  assumes "udm_inv s" "map_of (udm_sessions s) i = Some u" "us_inv u'" "us_dungeonId u' = us_dungeonId u"
  shows "udm_inv (put_session i u' s)"
  using udm_inv_put [OF assms(1,3), of i] udm_invD(3) [OF assms(1,2)] assms(4) by simp

lemma udm_inv_Allocate:
  assumes inv: "udm_inv s" and al: "Allocate rnd bound i xs s = Some (r, s')"
  shows "udm_inv s'"
    and "r \<noteq> None \<Longrightarrow> \<exists>u. map_of (udm_sessions s') i = Some u \<and> (\<forall>x. um_contains (us_tokens u) x \<longleftrightarrow> x \<in> set xs)"
    and "j \<noteq> i \<Longrightarrow> map_of (udm_sessions s') j = map_of (udm_sessions s) j"
    and "r = None \<Longrightarrow> s' = s"
proof -
  have "udm_inv s' \<and> (r \<noteq> None \<longrightarrow> (\<exists>u. map_of (udm_sessions s') i = Some u \<and>
      (\<forall>x. um_contains (us_tokens u) x \<longleftrightarrow> x \<in> set xs))) \<and>
    (j \<noteq> i \<longrightarrow> map_of (udm_sessions s') j = map_of (udm_sessions s) j) \<and> (r = None \<longrightarrow> s' = s)"
  proof (cases "r = None")
    case True
    with inv al show ?thesis by (auto simp: Allocate_def split: if_splits option.splits)
  next
    case False
    with al obtain port tokens where g: "\<not> udm_stopping s" "\<not> um_contains (udm_sessions s) i"
      "check_participants xs []" "draw_tokens xs [] [] rnd = Some tokens"
      "s' = s\<lparr>udm_sessions := um_emplace i (make_UdpSession i port tokens) (udm_sessions s)\<rparr>"
      by (auto simp: Allocate_def split: if_splits option.splits)
    have "tokens_ok tokens \<and> (\<forall>x. um_contains tokens x \<longleftrightarrow> x \<in> set xs)"
      using draw_tokens_ok [OF g(4)] g(3) by (auto simp: tokens_ok_def check_participants_iff)
    moreover from this have "us_inv (make_UdpSession i port tokens)" by (simp add: us_inv_make)
    ultimately show ?thesis using inv g False
      by (auto simp: udm_inv_def umap_simps make_UdpSession_def)
  qed
  then show "udm_inv s'" "r \<noteq> None \<Longrightarrow> \<exists>u. map_of (udm_sessions s') i = Some u \<and>
      (\<forall>x. um_contains (us_tokens u) x \<longleftrightarrow> x \<in> set xs)"
    "j \<noteq> i \<Longrightarrow> map_of (udm_sessions s') j = map_of (udm_sessions s) j" "r = None \<Longrightarrow> s' = s"
    by blast+
qed

lemma udm_inv_Disconnect: "udm_inv s \<Longrightarrow> udm_inv (snd (udm_DisconnectParticipant i x s))"
  by (simp add: udm_DisconnectParticipant_def case_prod_beta udm_inv_put us_inv_Disconnect udm_invD split: option.split)

lemma try_replace_cases:
  "try_replace n x y rnd u = Some (r, u') \<Longrightarrow>
   (r = None \<and> u' = u) \<or>
   (\<exists>t. r = Some t \<and> t \<noteq> 0 \<and> us_ReplaceParticipant x y t u = (True, u'))"
  by (induction n x y rnd u rule: try_replace.induct) (auto simp: prod_eq_iff split: option.splits if_splits)

lemma udm_Replace_cases:
  assumes "udm_ReplaceParticipant rnd i x y s = Some (r, s')"
  obtains "r = None" "s' = s"
  | u where "r = None" "map_of (udm_sessions s) i = Some u" "s' = put_session i u s"
  | u u' t where "map_of (udm_sessions s) i = Some u" "r = Some t" "t \<noteq> 0"
      "us_ReplaceParticipant x y t u = (True, u')" "s' = put_session i u' s"
  using assms that
  by (auto simp: udm_ReplaceParticipant_def split: option.splits if_splits prod.splits dest!: try_replace_cases)

lemma udm_inv_ops:
  assumes "udm_inv s"
  shows "udm_inv (snd (udm_RemoveParticipant i x s))" "udm_inv (SetServerTick t s)"
    "udm_inv (RefreshAllActivity now i s)" "udm_inv (snd (RemoveInactiveEndpoints now idle i s))"
    "udm_inv (snd (BroadcastSnapshot i bs s))" "udm_inv (snd (udm_TryPopMovement i s))"
    "udm_inv (snd (udm_TryPopAttack i s))" "udm_inv (udm_Stop s)"
proof -
  note d = udm_inv_put [OF assms] udm_invD [OF assms]
  show "udm_inv (snd (udm_RemoveParticipant i x s))"
    using assms by (simp add: udm_RemoveParticipant_def case_prod_beta d us_inv_RemoveParticipant split: option.split)
  show "udm_inv (SetServerTick t s)" using assms by (simp add: SetServerTick_def udm_inv_def)
  show "udm_inv (RefreshAllActivity now i s)"
    using assms by (simp add: RefreshAllActivity_def d us_inv_Refresh split: option.split)
  show "udm_inv (snd (RemoveInactiveEndpoints now idle i s))"
    using assms by (simp add: RemoveInactiveEndpoints_def case_prod_beta d us_inv_RemoveInactive split: option.split)
  show "udm_inv (snd (BroadcastSnapshot i bs s))"
    using assms by (simp add: BroadcastSnapshot_def case_prod_beta d us_inv_SendSnapshot split: option.split)
  show "udm_inv (snd (udm_TryPopMovement i s))"
    using assms by (simp add: udm_TryPopMovement_def case_prod_beta d us_inv_pops split: option.split)
  show "udm_inv (snd (udm_TryPopAttack i s))"
    using assms by (simp add: udm_TryPopAttack_def case_prod_beta d us_inv_pops split: option.split)
  show "udm_inv (udm_Stop s)" using assms by (simp add: udm_Stop_def udm_inv_def)
qed

lemma udm_inv_Release: "udm_inv s \<Longrightarrow> udm_inv (snd (Release i s))"
  by (auto simp: Release_def udm_inv_def umap_simps split: option.splits if_splits)

lemma udm_inv_Replace:
  assumes "udm_inv s" "udm_ReplaceParticipant rnd i x y s = Some (r, s')"
  shows "udm_inv s'"
  using assms(2)
proof (cases rule: udm_Replace_cases)
  case (2 u)
  then show ?thesis using assms(1) udm_inv_update udm_invD by metis
next
  case (3 u u' t)
  then have "us_inv u'" "us_dungeonId u' = us_dungeonId u"
    using us_inv_Replace [of u x y t] us_dungeonId_fields(2) [of x y t u] udm_invD(2) [OF assms(1)] by auto
  with 3 assms(1) show ?thesis using udm_inv_update by metis
qed (use assms in simp)

section \<open>Who holds a token\<close>

text \<open>The sessions that have a token for a dungeon: what the other components need to know of the manager.\<close>

definition holders :: "DungeonUdpManager \<Rightarrow> DungeonId \<Rightarrow> SessionId set option" where
  "holders s i = map_option (\<lambda>u. {x. um_contains (us_tokens u) x}) (map_of (udm_sessions s) i)"

lemma holders_put:
  assumes "map_of (udm_sessions s) i = Some u"
  shows "holders (put_session i u' s) = (holders s)(i \<mapsto> {x. um_contains (us_tokens u') x})"
  using assms by (auto simp: holders_def put_session_def umap_simps fun_eq_iff)

lemma holders_put_same:
  assumes "map_of (udm_sessions s) i = Some u" "us_tokens u' = us_tokens u"
  shows "holders (put_session i u' s) = holders s"
  using assms by (auto simp: holders_def put_session_def umap_simps fun_eq_iff)

lemma holders_ops [simp]:
  "holders (snd (udm_DisconnectParticipant i x s)) = holders s"
  "holders (SetServerTick t s) = holders s"
  "holders (RefreshAllActivity now i s) = holders s"
  "holders (snd (RemoveInactiveEndpoints now idle i s)) = holders s"
  "holders (snd (BroadcastSnapshot i bs s)) = holders s"
  "holders (snd (udm_TryPopMovement i s)) = holders s"
  "holders (snd (udm_TryPopAttack i s)) = holders s"
  by (simp_all add: udm_DisconnectParticipant_def RefreshAllActivity_def RemoveInactiveEndpoints_def
      BroadcastSnapshot_def udm_TryPopMovement_def udm_TryPopAttack_def case_prod_beta holders_put_same
      split: option.split)
     (simp add: SetServerTick_def holders_def fun_eq_iff)

lemma holders_Remove:
  "holders (snd (udm_RemoveParticipant i x s)) = (holders s)(i := map_option (\<lambda>h. h - {x}) (holders s i))"
proof (cases "map_of (udm_sessions s) i")
  case None
  then show ?thesis by (simp add: udm_RemoveParticipant_def holders_def fun_eq_iff)
next
  case (Some u)
  have "{y. um_contains (us_tokens (snd (us_RemoveParticipant x u))) y} = {y. um_contains (us_tokens u) y} - {x}"
    by (auto simp: us_RemoveParticipant_def Let_def Remove_fields umap_simps)
  with Some show ?thesis
    by (simp add: udm_RemoveParticipant_def case_prod_beta holders_put) (simp add: holders_def)
qed

lemma holders_Release: "holders (snd (Release i s)) = (holders s)(i := None)"
  by (auto simp: Release_def holders_def umap_simps fun_eq_iff split: option.split)

lemma holders_Replace:
  assumes "udm_ReplaceParticipant rnd i x y s = Some (r, s')"
  shows "holders s' = (if r = None then holders s
    else (holders s)(i := map_option (\<lambda>h. insert y (h - {x})) (holders s i)))"
  using assms
proof (cases rule: udm_Replace_cases)
  case (3 u u' t)
  have "{z. um_contains (us_tokens u') z} = insert y ({z. um_contains (us_tokens u) z} - {x})"
    using 3(4) by (auto simp: us_ReplaceParticipant_def Let_def umap_simps Remove_fields split: if_splits)
  with 3 show ?thesis by (simp add: holders_put) (simp add: holders_def)
qed (simp_all add: holders_put_same)

lemma holders_Allocate:
  assumes "udm_inv s" "Allocate rnd bound i xs s = Some (r, s')"
  shows "holders s' = (if r = None then holders s else (holders s)(i \<mapsto> set xs))"
proof (cases "r = None")
  case True
  then show ?thesis using udm_inv_Allocate(4) [OF assms] by simp
next
  case False
  then obtain u where u: "map_of (udm_sessions s') i = Some u" "\<forall>x. um_contains (us_tokens u) x \<longleftrightarrow> x \<in> set xs"
    using udm_inv_Allocate(2) [OF assms] by blast
  moreover have "holders s' j = holders s j" if "j \<noteq> i" for j
    using udm_inv_Allocate(3) [OF assms that] by (simp add: holders_def)
  moreover have "holders s' i = Some (set xs)" using u by (auto simp: holders_def)
  ultimately show ?thesis using False by (auto simp: fun_eq_iff)
qed

end
