(* ===== verification/Snapshot_Pump.thy ===== *)
theory Snapshot_Pump
  imports Udp_Session
begin

text \<open>
  The snapshot pump of \<open>DungeonUdpSession\<close> as a step relation. A state is a pair: whether a call of
  \<open>PumpSnapshotOnStrand\<close> is queued on the strand, and the session. The tick thread calls
  \<open>SendSnapshot\<close> at any time; the strand runs the queued pump and the completions of sends; another
  thread may stop the session or change the endpoints in between.

  \<open>pump_inv\<close>: until the session is stopped, the pump is scheduled exactly when one pump call is queued
  or one send is in flight, never both; so two sends never overlap and no accepted snapshot is lost.
\<close>

definition in_flight :: "DungeonUdpSession \<Rightarrow> bool" where
  "in_flight s \<longleftrightarrow> us_activeSnapshot s \<noteq> None"

inductive pump_step :: "bool \<times> DungeonUdpSession \<Rightarrow> bool \<times> DungeonUdpSession \<Rightarrow> bool" where
  step_send: "SendSnapshot bytes s = ((accepted, dispatched), s') \<Longrightarrow> pump_step (q, s) (q \<or> dispatched, s')"
| step_pump: "pump_step (True, s) (False, PumpSnapshotOnStrand s)"
| step_complete: "in_flight s \<Longrightarrow> pump_step (q, s) (q, CompleteSnapshotSend failed s)"
| step_stop: "pump_step (q, s) (q, us_Stop s)"
| step_endpoints: "pump_step (q, s) (q, s\<lparr>us_endpoints := m\<rparr>)"

inductive_cases pump_stepE: "pump_step (q, s) (q', s')"

inductive pump_reachable :: "bool \<times> DungeonUdpSession \<Rightarrow> bool" where
  reach_init: "pump_reachable (False, make_UdpSession i port tokens)"
| reach_step: "pump_reachable c \<Longrightarrow> pump_step c c' \<Longrightarrow> pump_reachable c'"

definition pump_inv :: "bool \<times> DungeonUdpSession \<Rightarrow> bool" where
  "pump_inv c \<longleftrightarrow>
     (case c of (q, s) \<Rightarrow>
        (in_flight s \<longrightarrow> us_nextSnapshotDestination s < length (us_snapshotDestinations s)) \<and>
        (if us_stopped s then us_pendingSnapshot s = None
         else (us_snapshotPumpScheduled s \<longleftrightarrow> q \<or> in_flight s) \<and> \<not> (q \<and> in_flight s) \<and>
              (us_pendingSnapshot s \<noteq> None \<longrightarrow> us_snapshotPumpScheduled s) \<and>
              (snapshotPending (us_snapshotStats s) \<longleftrightarrow> us_pendingSnapshot s \<noteq> None) \<and>
              (snapshotSendInProgress (us_snapshotStats s) \<longleftrightarrow> in_flight s)))"

section \<open>What the mutually recursive functions compute\<close>

definition idle_session :: "DungeonUdpSession \<Rightarrow> DungeonUdpSession" where
  "idle_session s =
     upd_stats (\<lambda>t. t\<lparr>snapshotPending := False, snapshotSendInProgress := False\<rparr>)
       (s\<lparr>us_activeSnapshot := None, us_snapshotPumpScheduled := False, us_snapshotDestinations := [],
          us_nextSnapshotDestination := 0\<rparr>)"

definition started_session :: "u8 list \<Rightarrow> DungeonUdpSession \<Rightarrow> DungeonUdpSession" where
  "started_session bytes s =
     upd_stats (\<lambda>t. t\<lparr>snapshotPending := False, snapshotSendInProgress := True\<rparr>)
       (s\<lparr>us_activeSnapshot := Some bytes, us_pendingSnapshot := None,
          us_snapshotDestinations := map snd (us_endpoints s), us_nextSnapshotDestination := 0\<rparr>)"

lemma Pump_None:
  "\<not> us_stopped s \<Longrightarrow> us_pendingSnapshot s = None \<Longrightarrow>
   PumpSnapshotOnStrand s = upd_stats (\<lambda>t. t\<lparr>snapshotPending := False, snapshotSendInProgress := False\<rparr>)
     (s\<lparr>us_activeSnapshot := None, us_snapshotPumpScheduled := False\<rparr>)"
  by (subst PumpSnapshotOnStrand.simps) simp

lemma Finish_None:
  "\<not> us_stopped s \<Longrightarrow> us_pendingSnapshot s = None \<Longrightarrow> FinishSnapshotOnStrand s = idle_session s"
  by (subst FinishSnapshotOnStrand.simps) (simp add: Pump_None idle_session_def upd_stats_def)

lemma Send_in_flight:
  "\<not> us_stopped s \<Longrightarrow> us_nextSnapshotDestination s < length (us_snapshotDestinations s) \<Longrightarrow>
   SendSnapshotToNextEndpoint s = s"
  by (subst SendSnapshotToNextEndpoint.simps) simp

lemma Send_done:
  "\<not> us_stopped s \<Longrightarrow> length (us_snapshotDestinations s) \<le> us_nextSnapshotDestination s \<Longrightarrow>
   SendSnapshotToNextEndpoint s = FinishSnapshotOnStrand s"
  by (subst SendSnapshotToNextEndpoint.simps) simp

lemma Pump_Some:
  assumes "\<not> us_stopped s" "us_pendingSnapshot s = Some bytes"
  shows "PumpSnapshotOnStrand s =
    (if us_endpoints s = [] then idle_session (started_session bytes s) else started_session bytes s)"
proof -
  have "PumpSnapshotOnStrand s = SendSnapshotToNextEndpoint (started_session bytes s)"
    using assms by (subst PumpSnapshotOnStrand.simps) (simp add: started_session_def)
  then show ?thesis
    using assms by (auto simp: Send_done Send_in_flight Finish_None started_session_def)
qed

lemma Finish_Some:
  assumes "\<not> us_stopped s" "us_pendingSnapshot s = Some bytes"
  shows "\<exists>t. FinishSnapshotOnStrand s =
    (if us_endpoints s = [] then idle_session (started_session bytes t) else started_session bytes t) \<and>
    us_endpoints t = us_endpoints s \<and> \<not> us_stopped t \<and> us_pendingSnapshot t = Some bytes \<and>
    us_snapshotPumpScheduled t = us_snapshotPumpScheduled s"
  using assms by (subst FinishSnapshotOnStrand.simps) (auto simp: Pump_Some)

lemma Pump_stopped:
  "us_stopped s \<Longrightarrow> us_stopped (PumpSnapshotOnStrand s) \<and>
     us_activeSnapshot (PumpSnapshotOnStrand s) = us_activeSnapshot s \<and>
     us_pendingSnapshot (PumpSnapshotOnStrand s) = None \<and>
     us_nextSnapshotDestination (PumpSnapshotOnStrand s) = us_nextSnapshotDestination s \<and>
     us_snapshotDestinations (PumpSnapshotOnStrand s) = us_snapshotDestinations s"
  by (subst (1 2 3 4 5) PumpSnapshotOnStrand.simps) simp

lemma Send_stopped:
  assumes "us_stopped s"
  shows "us_stopped (SendSnapshotToNextEndpoint s) \<and> us_activeSnapshot (SendSnapshotToNextEndpoint s) = None \<and>
     us_pendingSnapshot (SendSnapshotToNextEndpoint s) = None"
proof -
  have "SendSnapshotToNextEndpoint s = FinishSnapshotOnStrand s"
    using assms by (subst SendSnapshotToNextEndpoint.simps) simp
  with assms show ?thesis by (simp add: FinishSnapshotOnStrand.simps Pump_stopped)
qed

lemma pump_inv_init: "pump_inv (False, make_UdpSession i port tokens)"
  by (simp add: pump_inv_def make_UdpSession_def in_flight_def)

lemma pump_inv_send:
  assumes inv: "pump_inv (q, s)" and send: "SendSnapshot bytes s = ((ok, disp), s')"
  shows "pump_inv (q \<or> disp, s')"
proof (cases "bytes = [] \<or> MAX_DUNGEON_DATAGRAM_SIZE < length bytes \<or> us_stopped s")
  case True
  with inv send show ?thesis
    by (auto simp: SendSnapshot_def pump_inv_def in_flight_def split: if_splits)
next
  case False
  with inv send show ?thesis
    by (auto simp: SendSnapshot_def pump_inv_def in_flight_def Let_def split: if_splits)
qed

lemma pump_inv_pump:
  assumes inv: "pump_inv (True, s)"
  shows "pump_inv (False, PumpSnapshotOnStrand s)"
proof (cases "us_stopped s")
  case True
  with inv show ?thesis by (auto simp: pump_inv_def in_flight_def Pump_stopped)
next
  case False
  show ?thesis
  proof (cases "us_pendingSnapshot s")
    case None
    with False inv show ?thesis by (auto simp: Pump_None pump_inv_def in_flight_def)
  next
    case (Some bytes)
    with False inv show ?thesis
      by (auto simp: Pump_Some pump_inv_def in_flight_def started_session_def idle_session_def)
  qed
qed

lemma pump_inv_complete:
  assumes inv: "pump_inv (q, s)" and fl: "in_flight s"
  shows "pump_inv (q, CompleteSnapshotSend failed s)"
proof -
  define t where "t = (upd_stats (\<lambda>t. if failed then t\<lparr>snapshotSendErrorCount := snapshotSendErrorCount t + 1\<rparr>
      else t\<lparr>sentSnapshotDatagramCount := sentSnapshotDatagramCount t + 1\<rparr>) s)
    \<lparr>us_nextSnapshotDestination := us_nextSnapshotDestination s + 1\<rparr>"
  have eq: "CompleteSnapshotSend failed s = SendSnapshotToNextEndpoint t"
    by (simp add: CompleteSnapshotSend_def t_def)
  have t: "us_stopped t = us_stopped s" "us_pendingSnapshot t = us_pendingSnapshot s"
    "us_snapshotPumpScheduled t = us_snapshotPumpScheduled s" "us_activeSnapshot t = us_activeSnapshot s"
    "us_snapshotDestinations t = us_snapshotDestinations s" "us_endpoints t = us_endpoints s"
    "us_nextSnapshotDestination t = us_nextSnapshotDestination s + 1"
    "snapshotPending (us_snapshotStats t) = snapshotPending (us_snapshotStats s)"
    "snapshotSendInProgress (us_snapshotStats t) = snapshotSendInProgress (us_snapshotStats s)"
    by (simp_all add: t_def)
  show ?thesis
  proof (cases "us_stopped s")
    case True
    with inv t(1) show ?thesis unfolding eq using Send_stopped [of t] by (auto simp: pump_inv_def in_flight_def)
  next
    case False
    show ?thesis
    proof (cases "us_nextSnapshotDestination t < length (us_snapshotDestinations t)")
      case True
      with False t inv fl show ?thesis by (auto simp: eq Send_in_flight pump_inv_def in_flight_def)
    next
      case ready: False
      show ?thesis
      proof (cases "us_pendingSnapshot s")
        case None
        with False ready t inv fl show ?thesis
          by (auto simp: eq Send_done Finish_None idle_session_def pump_inv_def in_flight_def)
      next
        case (Some bytes)
        with Finish_Some [of t bytes] False t obtain u where u:
          "FinishSnapshotOnStrand t =
            (if us_endpoints t = [] then idle_session (started_session bytes u) else started_session bytes u)"
          "us_endpoints u = us_endpoints t" "\<not> us_stopped u" "us_pendingSnapshot u = Some bytes"
          "us_snapshotPumpScheduled u = us_snapshotPumpScheduled t" by auto
        with False ready t inv fl show ?thesis
          by (auto simp: eq Send_done idle_session_def started_session_def pump_inv_def in_flight_def)
      qed
    qed
  qed
qed

lemma pump_inv_reachable: "pump_reachable c \<Longrightarrow> pump_inv c"
proof (induction rule: pump_reachable.induct)
  case (reach_step c c')
  from reach_step(2,3) show ?case
  proof (cases rule: pump_step.cases)
    case (step_stop q s)
    with reach_step(3) show ?thesis by (auto simp: pump_inv_def us_Stop_def in_flight_def)
  next
    case (step_endpoints q s m)
    with reach_step(3) show ?thesis by (auto simp: pump_inv_def in_flight_def)
  qed (use reach_step(3) in \<open>auto intro: pump_inv_send pump_inv_pump pump_inv_complete\<close>)
qed (rule pump_inv_init)

section \<open>Delivery\<close>

text \<open>\<open>n\<close> completed sends after the pump took a snapshot.\<close>

definition sending :: "u8 list \<Rightarrow> endpoint list \<Rightarrow> nat \<Rightarrow> DungeonUdpSession \<Rightarrow> bool" where
  "sending bytes es n s \<longleftrightarrow>
     \<not> us_stopped s \<and> us_activeSnapshot s = Some bytes \<and> us_pendingSnapshot s = None \<and>
     us_snapshotDestinations s = es \<and> us_nextSnapshotDestination s = n \<and> n < length es"

lemma sending_step:
  assumes "sending bytes es n s" "Suc n < length es"
  shows "sending bytes es (Suc n) (CompleteSnapshotSend failed s)"
  using assms by (simp add: sending_def CompleteSnapshotSend_def Let_def Send_in_flight)

lemma sending_last:
  assumes "sending bytes es n s" "Suc n = length es"
  shows "\<not> in_flight (CompleteSnapshotSend failed s) \<and>
    \<not> us_snapshotPumpScheduled (CompleteSnapshotSend failed s) \<and>
    us_pendingSnapshot (CompleteSnapshotSend failed s) = None"
  using assms
  by (simp add: sending_def CompleteSnapshotSend_def Let_def Send_done Finish_None idle_session_def in_flight_def)

lemma sending_iterate:
  "sending bytes es 0 s \<Longrightarrow> n < length es \<Longrightarrow> sending bytes es n ((CompleteSnapshotSend False ^^ n) s)"
proof (induction n)
  case (Suc n)
  then show ?case using sending_step [of bytes es n] by simp
qed simp

end
