(* ===== verification/Sample_Codec.thy ===== *)
theory Sample_Codec
  imports Dungeon_Protocol "HOL-Library.Countable"
begin

text \<open>
  Concrete serializers that read back what they wrote, for the instances of the theorems about the
  datagram protocol: the messages are countable, and a message is written as a run of zero bytes whose
  length is its number.
\<close>

instance word :: (len) countable
  by (rule countable_classI [of unat]) (simp add: word_unat_eq_iff)

instance float32 :: countable
  by countable_datatype

instance SkillActionPhase :: countable
  by countable_datatype

instance DungeonState :: countable
  by countable_datatype

instance UdpHelloResult :: countable
  by countable_datatype

instance Position_ext :: (countable) countable
  by (rule countable_classI [of "\<lambda>p. to_nat (pos_x p, pos_y p, pos_z p, Position.more p)"]) simp

instance PlayerSnapshotTable_ext :: (countable) countable
  by (rule countable_classI [of "\<lambda>t. to_nat (pst_sessionId t, pst_roomId t, pst_position t, pst_currentMp t,
        pst_maxMp t, pst_currentHp t, pst_maxHp t, pst_alive t, pst_skillId t, pst_phase t,
        pst_remainingTicks t, pst_cooldowns t, PlayerSnapshotTable.more t)"]) simp

instance EnemySnapshotTable_ext :: (countable) countable
  by (rule countable_classI [of "\<lambda>t. to_nat (est_entityId t, est_enemyTemplateId t, est_roomId t,
        est_position t, est_currentHp t, est_alive t, EnemySnapshotTable.more t)"]) simp

instance SnapshotTable_ext :: (countable) countable
  by (rule countable_classI [of "\<lambda>t. to_nat (st_serverTick t, st_players t, st_enemies t, st_state t,
        SnapshotTable.more t)"]) simp

instance DungeonPayload :: countable
  by countable_datatype

instance DungeonMessage_ext :: (countable) countable
  by (rule countable_classI [of "\<lambda>m. to_nat (msg_protocol_version m, msg_dungeon_id m, msg_payload m,
        DungeonMessage.more m)"]) simp

definition sample_serialize :: serializer where
  "sample_serialize m = replicate (Suc (to_nat m)) 0"

definition sample_parse :: parser where
  "sample_parse bytes = Some (from_nat (length bytes - 1))"

lemma sample_faithful: "faithful sample_parse sample_serialize"
  by (simp add: faithful_def sample_serialize_def sample_parse_def)

end
