(* ===== verification/Udp_Properties.thy ===== *)
theory Udp_Properties
  imports Udp_Manager Snapshot_Pump Sample_Codec Sample_Data
begin

text \<open>
  Properties of the datagram protocol, of the UDP sessions and of their manager, each with a concrete
  instance where it has hypotheses. The FlatBuffers runtime is the pair \<open>parse\<close>, \<open>serialize\<close>;
  \<open>faithful\<close> is what the code relies on, and \<open>sample_faithful\<close> shows that it can hold.
\<close>

definition sample_tokens :: "(SessionId, DungeonUdpToken) umap" where
  "sample_tokens = [(11, 501), (12, 502)]"

definition sample_session :: DungeonUdpSession where
  "sample_session = make_UdpSession 1 4000 sample_tokens"

lemma sample_session_inv: "us_inv sample_session"
  unfolding sample_session_def by (rule us_inv_make) (simp add: sample_tokens_def tokens_ok_def um_ok_def)

definition sample_hello :: UdpHelloMessage where
  "sample_hello = \<lparr>he_dungeonId = 1, he_sessionId = 11, he_token = 501\<rparr>"

section \<open>The protocol\<close>

text \<open>What the server or a client encodes, the other side decodes: every movement, attack, hello and
  heartbeat that passes validation on encoding is read back unchanged.\<close>

lemma datagram_roundtrip:
  assumes "faithful parse serialize"
  shows "(EncodePlayerMovement serialize m = Some bs \<longrightarrow> DecodePlayerMovement parse bs = Some m) \<and>
    (EncodePlayerAttack serialize a = Some bs \<longrightarrow> DecodePlayerAttack parse bs = Some a) \<and>
    (EncodeUdpHello serialize h = Some bs \<longrightarrow> DecodeUdpHello parse bs = Some h) \<and>
    (EncodeUdpHeartbeat serialize b = Some bs \<longrightarrow> DecodeUdpHeartbeat parse bs = Some b)"
  using Decode_Encode [OF assms] by blast

lemma sample_hello_encoded:
  "\<exists>bs. EncodeUdpHello sample_serialize sample_hello = Some bs"
  by (simp add: EncodeUdpHello_def IsValid_hello_def sample_hello_def)

text \<open>A datagram is taken as one kind of message at most, and only if it passes the validation of that
  kind: identifiers non-zero, directions finite and within the unit square.\<close>

lemma datagram_kinds_exclusive:
  "length (filter id [DecodePlayerMovement parse bs \<noteq> None, DecodePlayerAttack parse bs \<noteq> None,
      DecodeUdpHello parse bs \<noteq> None, DecodeUdpHeartbeat parse bs \<noteq> None]) \<le> 1 \<and>
   pred_option IsValid_movement (DecodePlayerMovement parse bs) \<and>
   pred_option IsValid_attack (DecodePlayerAttack parse bs) \<and>
   pred_option IsValid_hello (DecodeUdpHello parse bs) \<and>
   pred_option IsValid_heartbeat (DecodeUdpHeartbeat parse bs)"
proof (intro conjI)
  show "pred_option IsValid_movement (DecodePlayerMovement parse bs)"
    "pred_option IsValid_attack (DecodePlayerAttack parse bs)"
    "pred_option IsValid_hello (DecodeUdpHello parse bs)"
    "pred_option IsValid_heartbeat (DecodeUdpHeartbeat parse bs)"
    by (auto simp: option.pred_set dest: Decode_payload)
  show "length (filter id [DecodePlayerMovement parse bs \<noteq> None, DecodePlayerAttack parse bs \<noteq> None,
      DecodeUdpHello parse bs \<noteq> None, DecodeUdpHeartbeat parse bs \<noteq> None]) \<le> 1"
  proof (cases "verified parse bs")
    case None
    then show ?thesis
      by (simp add: DecodePlayerMovement_def DecodePlayerAttack_def DecodeUdpHello_def DecodeUdpHeartbeat_def)
  next
    case (Some msg)
    then show ?thesis
      by (cases "msg_payload msg")
        (simp_all add: DecodePlayerMovement_def DecodePlayerAttack_def DecodeUdpHello_def DecodeUdpHeartbeat_def)
  qed
qed

text \<open>Encoding the snapshot of a hosted dungeon never throws, and the snapshot lists every participant
  once, in the order of the roster.\<close>

lemma snapshot_always_encodes:
  assumes "roster_inv d" "faithful parse serialize"
  shows "\<exists>bs table. EncodeDungeonSnapshot serialize d tick = Some bs \<and>
    map_option msg_payload (verified parse bs) = Some (Payload_DungeonSnapshot (Some table)) \<and>
    map pst_sessionId (st_players table) = di_participants d \<and> st_state table = di_state d \<and>
    st_serverTick table = tick"
proof -
  obtain ts where "player_tables d (di_participants d) = Some ts" "map pst_sessionId ts = di_participants d"
    using player_tables_total [of "di_participants d" d] roster_invD(8) [OF assms(1)] by blast
  then show ?thesis by (auto simp: EncodeDungeonSnapshot_def verified_make_message [OF assms(2)])
qed

section \<open>Sessions\<close>

text \<open>Sequence numbers are compared as serial numbers: one is newer than another exactly when it lies
  less than half the range ahead of it, wrapping around; two numbers are never newer than each other.\<close>

lemma sequence_order:
  "(IsNewerSequence b a \<longleftrightarrow> (\<exists>k. 0 < k \<and> k < 2 ^ 31 \<and> b = a + of_nat k)) \<and>
   \<not> (IsNewerSequence b a \<and> IsNewerSequence a b)"
  using IsNewerSequence_iff IsNewerSequence_asym by blast

text \<open>C20. Whatever arrives, in whatever order, mixed with any of the other operations: at most 256
  movements and 256 attacks are queued, and for each session the queued sequence numbers are strictly
  newer one after the other, so replayed and reordered datagrams never reach the game.\<close>

theorem input_queues_bounded_and_ordered:
  fixes parse :: parser and serialize :: serializer and i :: DungeonId and port :: u16 and ops :: "udp_op list"
  assumes "tokens_ok tokens"
  defines "s \<equiv> run (us_step parse serialize) (make_UdpSession i port tokens) ops"
  shows "length (us_pendingMovements s) \<le> 256 \<and> length (us_pendingAttacks s) \<le> 256 \<and>
    successively (\<lambda>a b. IsNewerSequence b a)
      (map (\<lambda>m. mv_sequence (apm_movement m)) (filter (\<lambda>m. apm_sessionId m = x) (us_pendingMovements s))) \<and>
    successively (\<lambda>a b. IsNewerSequence b a)
      (map (\<lambda>a. at_sequence (apa_attack a)) (filter (\<lambda>a. apa_sessionId a = x) (us_pendingAttacks s)))"
proof -
  have inv: "us_inv s" unfolding s_def by (rule udp_machine.run_inv [OF us_inv_make [OF assms(1)]])
  have "session_seqs x (movement_inbox s) =
      map (\<lambda>m. mv_sequence (apm_movement m)) (filter (\<lambda>m. apm_sessionId m = x) (us_pendingMovements s))"
    "session_seqs x (attack_inbox s) =
      map (\<lambda>a. at_sequence (apa_attack a)) (filter (\<lambda>a. apa_sessionId a = x) (us_pendingAttacks s))"
    by (simp_all add: session_seqs_def movement_inbox_def attack_inbox_def filter_map comp_def)
  then show ?thesis
    using us_invD(10,11) [OF inv]
    by (auto simp: ordered_inbox_def movement_inbox_def attack_inbox_def MAX_PENDING_DUNGEON_MOVEMENTS_def
        MAX_PENDING_DUNGEON_ATTACKS_def dest: spec [of _ x])
qed

definition sample_movement :: "u32 \<Rightarrow> PlayerMovementMessage" where
  "sample_movement n = \<lparr>mv_dungeonId = 1, mv_sequence = n, mv_moveX = f32_1, mv_moveY = f32_0, mv_jump = False\<rparr>"

theorem input_queues_bounded_and_ordered_witness:
  "length (us_pendingMovements (run (us_step sample_parse sample_serialize) (make_UdpSession 1 4000 sample_tokens)
     [UReceive 0 (1, 2) 0 (Received (the (EncodeUdpHello sample_serialize sample_hello))),
      UReceive 0 (1, 2) 1 (Received (the (EncodePlayerMovement sample_serialize (sample_movement 3)))),
      UPopMovement])) \<le> 256"
  using input_queues_bounded_and_ordered [of sample_tokens sample_parse sample_serialize 1 4000
      "[UReceive 0 (1, 2) 0 (Received (the (EncodeUdpHello sample_serialize sample_hello))),
        UReceive 0 (1, 2) 1 (Received (the (EncodePlayerMovement sample_serialize (sample_movement 3)))),
        UPopMovement]" 11]
  by (simp add: sample_tokens_def tokens_ok_def um_ok_def del: run.simps)

text \<open>No datagram makes the receive handler throw, whatever its bytes, its sender and the state of the
  session; and no datagram changes a token.\<close>

lemma receive_never_throws:
  assumes "us_inv s"
  shows "\<exists>reply s'. HandleReceive parse serialize tick sender now received s = Inr (reply, s') \<and> us_inv s' \<and>
    us_tokens s' = us_tokens s"
  using HandleReceive_total [OF assms] HandleReceive_endpoints by blast

text \<open>C5. Only the secret token authenticates an endpoint, and an authenticated endpoint is not hijacked: a
  received datagram leaves every known endpoint as it is, and if a session gains an endpoint, the
  datagram was a hello for this dungeon and this session with its token, sent from that endpoint.\<close>

theorem endpoints_authenticated:
  assumes "HandleReceive parse serialize tick sender now received s = Inr (reply, s')"
  shows "(\<forall>x e. us_FindEndpoint s x = Some e \<longrightarrow> us_FindEndpoint s' x = Some e) \<and>
    (\<forall>x e. us_FindEndpoint s x = None \<longrightarrow> us_FindEndpoint s' x = Some e \<longrightarrow>
       e = sender \<and> (\<exists>bs h. received = Received bs \<and> DecodeUdpHello parse bs = Some h \<and>
         he_dungeonId h = us_dungeonId s \<and> he_sessionId h = x \<and> us_FindToken s x = Some (he_token h)))"
  using HandleReceive_endpoints [OF assms]
  by (auto simp: us_FindEndpoint_def us_FindToken_def umap_simps um_contains_def split: if_splits)

lemma sample_hello_received:
  "\<exists>reply. HandleReceive sample_parse sample_serialize 0 (1, 2) 0
     (Received (the (EncodeUdpHello sample_serialize sample_hello))) sample_session =
     Inr (reply, snd (accept_hello (1, 2) 0 sample_hello sample_session))"
proof -
  obtain bs where bs: "EncodeUdpHello sample_serialize sample_hello = Some bs"
    using sample_hello_encoded by blast
  have "DecodeUdpHello sample_parse bs = Some sample_hello" by (rule Decode_Encode(3) [OF sample_faithful bs])
  moreover obtain r where "SendHelloAck sample_serialize 0 1 (fst (accept_hello (1, 2) 0 sample_hello sample_session))
      (snd (accept_hello (1, 2) 0 sample_hello sample_session)) = Inr r"
    using SendHelloAck_total by fastforce
  moreover have "he_dungeonId sample_hello = 1" "us_dungeonId sample_session = 1" "\<not> us_stopped sample_session"
    by (simp_all add: sample_hello_def sample_session_def make_UdpSession_def)
  ultimately show ?thesis by (simp add: HandleReceive_def HandleHello_def bs case_prod_beta)
qed

theorem endpoints_authenticated_witness:
  "\<exists>reply s'. HandleReceive sample_parse sample_serialize 0 (1, 2) 0
     (Received (the (EncodeUdpHello sample_serialize sample_hello))) sample_session = Inr (reply, s') \<and>
     us_FindEndpoint s' 11 = Some (1, 2) \<and> us_FindToken sample_session 11 \<noteq> None"
proof -
  obtain reply where r: "HandleReceive sample_parse sample_serialize 0 (1, 2) 0
     (Received (the (EncodeUdpHello sample_serialize sample_hello))) sample_session =
     Inr (reply, snd (accept_hello (1, 2) 0 sample_hello sample_session))"
    using sample_hello_received by blast
  have "us_FindEndpoint (snd (accept_hello (1, 2) 0 sample_hello sample_session)) 11 = Some (1, 2)"
    "us_FindEndpoint sample_session 11 = None"
    by (simp_all add: accept_hello_def sample_hello_def sample_session_def make_UdpSession_def sample_tokens_def
        us_FindEndpoint_def um_emplace_def um_contains_def)
  with endpoints_authenticated [OF r] r show ?thesis by blast
qed

text \<open>\<open>AllParticipantsAuthenticated\<close>, which only compares two sizes, says what its name says: every
  participant with a token has an authenticated endpoint.\<close>

lemma all_authenticated_exact:
  assumes "us_inv s"
  shows "us_AllParticipantsAuthenticated s \<longleftrightarrow>
    (\<forall>x. us_FindToken s x \<noteq> None \<longrightarrow> us_FindEndpoint s x \<noteq> None)"
  using AllParticipantsAuthenticated_iff [OF assms]
  by (simp add: um_contains_def us_FindToken_def us_FindEndpoint_def)

section \<open>The snapshot pump\<close>




text \<open>A snapshot the pump takes reaches everybody: after as many completed sends as there were
  endpoints, each endpoint has been the destination of this snapshot once, in order, and the pump is
  idle again.\<close>

lemma pump_delivers:
  assumes "\<not> us_stopped s" "us_pendingSnapshot s = Some bytes" "us_endpoints s \<noteq> []"
  shows "(\<forall>n < length (us_endpoints s).
      let t = (CompleteSnapshotSend False ^^ n) (PumpSnapshotOnStrand s) in
      us_activeSnapshot t = Some bytes \<and>
      us_snapshotDestinations t ! us_nextSnapshotDestination t = snd (us_endpoints s ! n)) \<and>
    (let t = (CompleteSnapshotSend False ^^ length (us_endpoints s)) (PumpSnapshotOnStrand s) in
      us_activeSnapshot t = None \<and> \<not> us_snapshotPumpScheduled t)"
proof -
  let ?es = "map snd (us_endpoints s)"
  have go: "sending bytes ?es 0 (PumpSnapshotOnStrand s)"
    using assms by (simp add: Pump_Some sending_def started_session_def)
  note it = sending_iterate [OF go]
  have each: "us_activeSnapshot ((CompleteSnapshotSend False ^^ n) (PumpSnapshotOnStrand s)) = Some bytes \<and>
      us_snapshotDestinations ((CompleteSnapshotSend False ^^ n) (PumpSnapshotOnStrand s)) !
        us_nextSnapshotDestination ((CompleteSnapshotSend False ^^ n) (PumpSnapshotOnStrand s)) =
      snd (us_endpoints s ! n)" if "n < length (us_endpoints s)" for n
    using it [of n] that by (simp add: sending_def)
  obtain k where k: "length (us_endpoints s) = Suc k" using assms(3) by (cases "us_endpoints s") auto
  have idle: "us_activeSnapshot ((CompleteSnapshotSend False ^^ Suc k) (PumpSnapshotOnStrand s)) = None \<and>
      \<not> us_snapshotPumpScheduled ((CompleteSnapshotSend False ^^ Suc k) (PumpSnapshotOnStrand s))"
  proof -
    have "sending bytes ?es k ((CompleteSnapshotSend False ^^ k) (PumpSnapshotOnStrand s))" "Suc k = length ?es"
      using it [of k] k by simp_all
    from sending_last [OF this, of False] show ?thesis
      unfolding funpow.simps(2) o_apply in_flight_def by blast
  qed
  show ?thesis unfolding Let_def using each [unfolded k] idle unfolding k by blast
qed

definition loaded_session :: DungeonUdpSession where
  "loaded_session =
     sample_session\<lparr>us_pendingSnapshot := Some [1], us_endpoints := [(11, (1, 2)), (12, (3, 4))]\<rparr>"

lemma loaded_session_fields:
  "\<not> us_stopped loaded_session" "us_pendingSnapshot loaded_session = Some [1]"
  "us_endpoints loaded_session = [(11, (1, 2)), (12, (3, 4))]"
  by (simp_all add: loaded_session_def sample_session_def make_UdpSession_def)

section \<open>The manager\<close>

text \<open>A successful allocation gives every participant its own secret: exactly the participants have
  tokens, all tokens are non-zero and different, and nothing else changes. The loop that draws them
  ends as soon as the random source has delivered enough fresh numbers.\<close>

lemma allocation_tokens:
  assumes "udm_inv s" "\<not> udm_stopping s" "i \<noteq> 0" "xs \<noteq> []" "distinct xs" "0 \<notin> set xs"
    "\<not> um_contains (udm_sessions s) i" "length ts = length xs" "distinct ts" "0 \<notin> set ts"
  shows "\<exists>s' u. Allocate (concat (map token_bytes ts)) (Some port) i xs s = Some (Some port, s') \<and>
    map_of (udm_sessions s') i = Some u \<and> udm_inv s' \<and>
    (\<forall>x. FindToken s' i x \<noteq> None \<longleftrightarrow> x \<in> set xs) \<and>
    (\<forall>x y t. FindToken s' i x = Some t \<longrightarrow> FindToken s' i y = Some t \<longrightarrow> x = y) \<and>
    (\<forall>x. FindToken s' i x \<noteq> Some 0) \<and>
    (\<forall>j. j \<noteq> i \<longrightarrow> map_of (udm_sessions s') j = map_of (udm_sessions s) j)"
proof -
  obtain tokens where "draw_tokens xs [] [] (concat (map token_bytes ts) @ []) = Some tokens"
    using draw_tokens_returns [OF assms(8,9,10), of "[]" "[]" "[]"] by auto
  then obtain s' where al: "Allocate (concat (map token_bytes ts)) (Some port) i xs s = Some (Some port, s')"
    using assms(2-7) by (auto simp: Allocate_def check_participants_iff)
  note A = udm_inv_Allocate [OF assms(1) al]
  obtain u where u: "map_of (udm_sessions s') i = Some u" "\<forall>x. um_contains (us_tokens u) x \<longleftrightarrow> x \<in> set xs"
    using A(2) by auto
  have "us_inv u" using udm_invD(2) [OF A(1) u(1)] .
  then have ok: "um_ok (us_tokens u)" "distinct (map snd (us_tokens u))" "\<forall>e \<in> set (us_tokens u). snd e \<noteq> 0"
    by (auto simp: us_inv_def tokens_ok_def)
  have "x = y" if "map_of (us_tokens u) x = Some t" "map_of (us_tokens u) y = Some t" for x y t
  proof -
    have "inj_on snd (set (us_tokens u))" using ok(2) by (simp add: distinct_map)
    from inj_onD [OF this, of "(x, t)" "(y, t)"] that show ?thesis by (auto dest: map_of_SomeD)
  qed
  moreover have "map_of (us_tokens u) x \<noteq> Some 0" for x
    using ok(3) by (auto dest!: map_of_SomeD)
  ultimately show ?thesis
    using al u A(1,3) by (auto simp: FindToken_def us_FindToken_def um_contains_def)
qed

end
