(* ===== verification/Movement_Processor.thy ===== *)
theory Movement_Processor
  imports Dungeon_Runs Udp_Manager
begin

text \<open>
  The movement step of a tick (\<open>src/include/DungeonMovementProcessor.h\<close>,
  \<open>src/src/DungeonMovementProcessor.cpp\<close>). The queue of a dungeon is drained, the latest movement of each
  session is applied, with the direction normalised and the step scaled by speed and time in \<open>float\<close>
  arithmetic, and a player that moved may walk through a portal. The call runs on the tick thread; the
  model takes it as one step, so datagrams that arrive while it drains the queue count as later.
\<close>

definition DUNGEON_PLAYER_MOVE_SPEED :: float32 where
  "DUNGEON_PLAYER_MOVE_SPEED = f32_of_int 300"

definition MAX_DUNGEON_DELTA_SECONDS :: float32 where
  "MAX_DUNGEON_DELTA_SECONDS = f32_div (f32_of_int 1) (f32_of_int 10)"

record MovementProcessResult =
  mp_receivedCount :: nat
  mp_appliedCount :: nat
  mp_rejectedCount :: nat

text \<open>The \<open>while\<close> loop over \<open>TryPopMovement\<close>.\<close>

function drain_movements ::
    "DungeonId \<Rightarrow> (SessionId, PlayerMovementMessage) umap \<Rightarrow> nat \<Rightarrow> DungeonUdpManager \<Rightarrow>
     (SessionId, PlayerMovementMessage) umap \<times> nat \<times> DungeonUdpManager" where
  "drain_movements i latest n udm =
     (case udm_TryPopMovement i udm of
        (None, udm') \<Rightarrow> (latest, n, udm')
      | (Some q, udm') \<Rightarrow>
          drain_movements i (um_set (apm_sessionId q) (apm_movement q) latest) (Suc n) udm')"
  by pat_completeness auto
termination
  by (relation "measure (\<lambda>(i, latest, n, udm). PendingMovementCount udm i)")
     (auto simp: udm_TryPopMovement_def us_TryPopMovement_def PendingMovementCount_def put_session_def
        um_find_modify split: option.splits list.splits)

declare drain_movements.simps [simp del]

text \<open>The direction, normalised when it is longer than one, and the step in x and y.\<close>

definition movement_direction :: "PlayerMovementMessage \<Rightarrow> float32 \<times> float32" where
  "movement_direction movement =
     (let moveX = mv_moveX movement; moveY = mv_moveY movement;
          moveLength = f32_sqrt (f32_add (f32_mul moveX moveX) (f32_mul moveY moveY))
      in if f32_gt moveLength f32_1 then (f32_div moveX moveLength, f32_div moveY moveLength)
         else (moveX, moveY))"

definition movement_offset :: "float32 \<Rightarrow> float32 \<Rightarrow> float32" where
  "movement_offset move safeDeltaSeconds = f32_mul (f32_mul move DUNGEON_PLAYER_MOVE_SPEED) safeDeltaSeconds"

text \<open>One iteration of the second loop; the flag tells whether the movement was applied.\<close>

definition apply_movement ::
    "EnemyCatalog \<Rightarrow> float32 \<Rightarrow> SessionId \<Rightarrow> PlayerMovementMessage \<Rightarrow> DungeonInstance \<Rightarrow>
     instance_error + bool \<times> DungeonInstance" where
  "apply_movement cat safeDeltaSeconds sessionId movement d =
     (case FindPlayer d sessionId of
        None \<Rightarrow> Inr (False, d)
      | Some player \<Rightarrow>
          let current = player_Snapshot player in
          (case FindRoom d (snap_roomId current) of
             None \<Rightarrow> Inr (False, d)
           | Some room \<Rightarrow>
               let (moveX, moveY) = movement_direction movement;
                   nextPosition = (snap_position current)
                     \<lparr>pos_x := f32_add (pos_x (snap_position current)) (movement_offset moveX safeDeltaSeconds),
                      pos_y := f32_add (pos_y (snap_position current)) (movement_offset moveY safeDeltaSeconds)\<rparr>;
                   (res, player') = MoveTo room nextPosition player;
                   d = modify_player sessionId (\<lambda>_. player') d
               in if res = MoveSuccess
                  then (case TryUsePortal cat sessionId d of
                          Inl e \<Rightarrow> Inl e
                        | Inr (_, d') \<Rightarrow> Inr (True, d'))
                  else Inr (False, d)))"

fun apply_movements ::
    "EnemyCatalog \<Rightarrow> float32 \<Rightarrow> (SessionId \<times> PlayerMovementMessage) list \<Rightarrow> DungeonInstance \<Rightarrow>
     MovementProcessResult \<Rightarrow> instance_error + MovementProcessResult \<times> DungeonInstance" where
  "apply_movements cat dt [] d r = Inr (r, d)"
| "apply_movements cat dt ((x, m) # rest) d r =
     (case apply_movement cat dt x m d of
        Inl e \<Rightarrow> Inl e
      | Inr (applied, d') \<Rightarrow>
          apply_movements cat dt rest d'
            (if applied then r\<lparr>mp_appliedCount := mp_appliedCount r + 1\<rparr>
             else r\<lparr>mp_rejectedCount := mp_rejectedCount r + 1\<rparr>))"

definition mp_Process ::
    "EnemyCatalog \<Rightarrow> DungeonId \<Rightarrow> float32 \<Rightarrow> DungeonManager \<Rightarrow> DungeonUdpManager \<Rightarrow>
     instance_error + MovementProcessResult \<times> DungeonManager \<times> DungeonUdpManager" where
  "mp_Process cat dungeonId deltaSeconds dm udm =
     (let result = \<lparr>mp_receivedCount = 0, mp_appliedCount = 0, mp_rejectedCount = 0\<rparr> in
      case FindDungeon dm dungeonId of
        None \<Rightarrow> Inr (result, dm, udm)
      | Some dungeon \<Rightarrow>
          if di_state dungeon \<noteq> Running \<or> \<not> isfinite deltaSeconds \<or> f32_le deltaSeconds f32_0
          then Inr (result, dm, udm)
          else
            let (latestMovements, received, udm) = drain_movements dungeonId [] 0 udm;
                safeDeltaSeconds = f32_min deltaSeconds MAX_DUNGEON_DELTA_SECONDS
            in case apply_movements cat safeDeltaSeconds latestMovements dungeon
                      (result\<lparr>mp_receivedCount := received\<rparr>) of
                 Inl e \<Rightarrow> Inl e
               | Inr (result, dungeon') \<Rightarrow>
                   Inr (result,
                        dm\<lparr>dm_dungeons := um_modify dungeonId (\<lambda>_. dungeon') (dm_dungeons dm)\<rparr>, udm))"

section \<open>Draining the queue\<close>

text \<open>The movements queued for a dungeon.\<close>

definition queued_movements :: "DungeonUdpManager \<Rightarrow> DungeonId \<Rightarrow> AuthenticatedPlayerMovement list" where
  "queued_movements udm i =
     (case map_of (udm_sessions udm) i of None \<Rightarrow> [] | Some u \<Rightarrow> us_pendingMovements u)"

lemma TryPopMovement_queue:
  "fst (udm_TryPopMovement i udm) = (case queued_movements udm i of [] \<Rightarrow> None | q # _ \<Rightarrow> Some q)"
  "queued_movements (snd (udm_TryPopMovement i udm)) i = tl (queued_movements udm i)"
  by (auto simp: udm_TryPopMovement_def us_TryPopMovement_def queued_movements_def put_session_def um_find_modify
      split: option.splits list.splits)

lemma drain_movements_result:
  "queued_movements udm i = qs \<Longrightarrow>
   \<exists>udm'. drain_movements i latest n udm =
     (fold (\<lambda>q. um_set (apm_sessionId q) (apm_movement q)) qs latest, n + length qs, udm') \<and>
     queued_movements udm' i = [] \<and> holders udm' = holders udm \<and> (udm_inv udm \<longrightarrow> udm_inv udm')"
proof (induction qs arbitrary: latest n udm)
  case Nil
  then show ?case
    using TryPopMovement_queue [of i udm] udm_inv_ops(6) [of udm i] holders_ops(6) [of i udm]
    by (subst drain_movements.simps) (auto simp del: holders_ops split: prod.splits option.splits)
next
  case (Cons q qs)
  then have "queued_movements (snd (udm_TryPopMovement i udm)) i = qs"
    "fst (udm_TryPopMovement i udm) = Some q"
    using TryPopMovement_queue [of i udm] by simp_all
  with Cons.IH [of "snd (udm_TryPopMovement i udm)" "um_set (apm_sessionId q) (apm_movement q) latest" "Suc n"]
  show ?case
    using udm_inv_ops(6) [of udm i] holders_ops(6) [of i udm]
    by (subst drain_movements.simps) (auto simp del: holders_ops split: prod.splits)
qed

lemma latest_fold:
  "map_of (fold (\<lambda>q. um_set (apm_sessionId q) (apm_movement q)) qs m) x =
     (case filter (\<lambda>q. apm_sessionId q = x) qs of
        [] \<Rightarrow> map_of m x | ys \<Rightarrow> Some (apm_movement (last ys)))"
  by (induction qs arbitrary: m) (auto simp: umap_simps split: list.splits)

section \<open>Length of a step\<close>

lemma direction_at_most_1:
  assumes "IsValid_movement m"
  shows "f32_le (f32_abs (fst (movement_direction m))) f32_1"
    "f32_le (f32_abs (snd (movement_direction m))) f32_1"
proof -
  obtain a b where ab: "mv_moveX m = Fin a" "mv_moveY m = Fin b" "\<bar>a\<bar> \<le> 2 ^ 149" "\<bar>b\<bar> \<le> 2 ^ 149"
    using assms by (cases "mv_moveX m"; cases "mv_moveY m") (auto simp: IsValid_movement_def)
  define len where "len = f32_sqrt (f32_add (f32_mul (Fin a) (Fin a)) (f32_mul (Fin b) (Fin b)))"
  have dir: "movement_direction m = (if f32_gt len f32_1 then (f32_div (Fin a) len, f32_div (Fin b) len) else (Fin a, Fin b))"
    by (simp add: movement_direction_def ab len_def Let_def)
  have "f32_le (f32_abs (f32_div (Fin c) len)) f32_1" if "f32_gt len f32_1" "\<bar>c\<bar> \<le> 2 ^ 149" for c
  proof (cases len)
    case (Fin l)
    with that have "\<bar>c\<bar> \<le> \<bar>l\<bar>" "l \<noteq> 0" by auto
    then show ?thesis using f32_div_le_1 [of c l] Fin by simp
  qed (use that in auto)
  then show "f32_le (f32_abs (fst (movement_direction m))) f32_1"
    "f32_le (f32_abs (snd (movement_direction m))) f32_1"
    using ab by (auto simp: dir)
qed

lemma move_speed_value: "DUNGEON_PLAYER_MOVE_SPEED = Fin (300 * 2 ^ 149)"
  by (simp add: DUNGEON_PLAYER_MOVE_SPEED_def f32_eval)

lemma max_delta_value: "MAX_DUNGEON_DELTA_SECONDS = Fin 71362385698680390680846996795520405043412992"
  by (simp add: MAX_DUNGEON_DELTA_SECONDS_def f32_eval)

text \<open>The longest step: a tenth of a second at full speed, which \<open>float\<close> arithmetic rounds to 30.\<close>

lemma longest_step: "f32_mul DUNGEON_PLAYER_MOVE_SPEED MAX_DUNGEON_DELTA_SECONDS = Fin (30 * 2 ^ 149)"
  by (simp add: move_speed_value max_delta_value f32_eval)

lemma full_speed: "f32_mul f32_1 DUNGEON_PLAYER_MOVE_SPEED = Fin (300 * 2 ^ 149)"
  unfolding move_speed_value using f32_mul_1_le [of 300 149] by simp

lemma offset_at_most_30:
  assumes "f32_le (f32_abs move) f32_1" "isfinite deltaSeconds" "f32_gt deltaSeconds f32_0"
  shows "f32_le (f32_abs (movement_offset move (f32_min deltaSeconds MAX_DUNGEON_DELTA_SECONDS))) (Fin (30 * 2 ^ 149))"
proof -
  obtain a where a: "move = Fin a" "\<bar>a\<bar> \<le> 2 ^ 149" using f32_le_finite [OF assms(1)] by blast
  obtain b where b: "deltaSeconds = Fin b" "0 < b" using assms(2,3) by (cases deltaSeconds) auto
  obtain M where M: "MAX_DUNGEON_DELTA_SECONDS = Fin M" "0 < M" by (simp add: max_delta_value)
  define c where "c = min b M"
  have c: "f32_min deltaSeconds MAX_DUNGEON_DELTA_SECONDS = Fin c" "\<bar>c\<bar> \<le> \<bar>M\<bar>"
    using b(2) M(2) by (auto simp: b(1) M(1) f32_min_def c_def)
  have "f32_le (f32_abs (f32_mul move DUNGEON_PLAYER_MOVE_SPEED)) (Fin (300 * 2 ^ 149))"
    using f32_mul_mono [of a "2 ^ 149" "300 * 2 ^ 149" "300 * 2 ^ 149"] a full_speed
    by (simp add: move_speed_value)
  then obtain e where e: "f32_mul move DUNGEON_PLAYER_MOVE_SPEED = Fin e" "\<bar>e\<bar> \<le> \<bar>300 * 2 ^ 149\<bar>"
    by (fastforce dest: f32_le_finite)
  have "f32_le (f32_abs (f32_mul (Fin e) (Fin c))) (f32_abs (f32_mul (Fin (300 * 2 ^ 149)) (Fin M)))"
    by (rule f32_mul_mono [OF e(2) c(2)])
  also have "f32_abs (f32_mul (Fin (300 * 2 ^ 149)) (Fin M)) = Fin (30 * 2 ^ 149)"
    using longest_step unfolding move_speed_value M by simp
  finally show ?thesis by (simp only: movement_offset_def e c)
qed

section \<open>The call as a sequence of game steps\<close>

lemma apply_movement_steps:
  assumes inv: "stage_inv cat d" "roster_inv d" "enemies_ok cat"
  shows "\<exists>b d'. apply_movement cat dt x m d = Inr (b, d') \<and> (game_step cat)\<^sup>*\<^sup>* d d'"
proof (cases "FindPlayer d x")
  case None
  then have "apply_movement cat dt x m d = Inr (False, d)" by (simp add: apply_movement_def)
  then show ?thesis by blast
next
  case (Some p)
  show ?thesis
  proof (cases "FindRoom d (ps_roomId p)")
    case None
    with Some have "apply_movement cat dt x m d = Inr (False, d)"
      by (simp add: apply_movement_def player_Snapshot_def)
    then show ?thesis by blast
  next
    case room: (Some room)
    obtain q where q: "apply_movement cat dt x m d =
       (let d = modify_player x (\<lambda>_. snd (MoveTo room q p)) d in
        if fst (MoveTo room q p) = MoveSuccess
        then (case TryUsePortal cat x d of Inl e \<Rightarrow> Inl e | Inr (_, d') \<Rightarrow> Inr (True, d'))
        else Inr (False, d))"
      using Some room by (simp add: apply_movement_def player_Snapshot_def Let_def case_prod_beta)
    define d\<^sub>1 where "d\<^sub>1 = modify_player x (\<lambda>_. snd (MoveTo room q p)) d"
    have "d\<^sub>1 = modify_player x (\<lambda>p. snd (MoveTo room q p)) d"
      using um_modify_const [of "di_players d" x p "\<lambda>p. snd (MoveTo room q p)"] Some stage_invD(3) [OF inv(1)]
      by (simp add: d\<^sub>1_def modify_player_def FindPlayer_def)
    then have s1: "game_step cat d d\<^sub>1" using game_step.move [OF room] by simp
    note i1 = game_step_inv [OF s1 inv]
    obtain res d\<^sub>2 where s2: "TryUsePortal cat x d\<^sub>1 = Inr (res, d\<^sub>2)"
      using TryUsePortal_total [of cat d\<^sub>1 x] i1 inv(3) by blast
    then have "game_step cat d\<^sub>1 d\<^sub>2" by (rule game_step.portal)
    with s1 s2 show ?thesis
      by (cases "fst (MoveTo room q p) = MoveSuccess") (auto simp: q Let_def d\<^sub>1_def [symmetric])
  qed
qed

lemma game_steps_inv:
  "(game_step cat)\<^sup>*\<^sup>* d d' \<Longrightarrow> stage_inv cat d \<Longrightarrow> roster_inv d \<Longrightarrow> enemies_ok cat \<Longrightarrow>
   stage_inv cat d' \<and> roster_inv d'"
  by (induction rule: rtranclp_induct) (auto dest: game_step_inv)

lemma apply_movements_steps:
  "stage_inv cat d \<Longrightarrow> roster_inv d \<Longrightarrow> enemies_ok cat \<Longrightarrow>
   \<exists>r' d'. apply_movements cat dt qs d r = Inr (r', d') \<and> (game_step cat)\<^sup>*\<^sup>* d d' \<and>
     mp_receivedCount r' = mp_receivedCount r \<and>
     mp_appliedCount r' + mp_rejectedCount r' = mp_appliedCount r + mp_rejectedCount r + length qs"
proof (induction cat dt qs d r rule: apply_movements.induct)
  case (2 cat dt x m qs d r)
  obtain b d\<^sub>1 where b: "apply_movement cat dt x m d = Inr (b, d\<^sub>1)" "(game_step cat)\<^sup>*\<^sup>* d d\<^sub>1"
    using apply_movement_steps [OF "2.prems"] by blast
  note inv = game_steps_inv [OF b(2) "2.prems"]
  from "2.IH" [OF b(1) refl] inv "2.prems"(3) b show ?case by (fastforce split: if_splits)
qed auto

lemma game_steps_keep:
  "(game_step cat)\<^sup>*\<^sup>* d d' \<Longrightarrow> stage_inv cat d \<Longrightarrow> roster_inv d \<Longrightarrow> enemies_ok cat \<Longrightarrow>
   di_dungeonId d' = di_dungeonId d \<and> di_partyId d' = di_partyId d \<and> di_participants d' = di_participants d"
proof (induction rule: rtranclp_induct)
  case (step d' d'')
  then show ?case
    using game_steps_inv [OF step.hyps(1)] game_step_keeps [OF step.hyps(2)] by simp
qed simp

lemma dm_inv_game_steps:
  assumes inv: "dm_inv cat s" "enemies_ok cat" and i: "map_of (dm_dungeons s) i = Some d"
    and steps: "(game_step cat)\<^sup>*\<^sup>* d d'"
  shows "dm_inv cat (s\<lparr>dm_dungeons := um_modify i (\<lambda>_. d') (dm_dungeons s)\<rparr>)"
proof -
  have h: "hosted cat i d" by (rule dm_invD(3) [OF inv(1) i])
  then have d: "stage_inv cat d" "roster_inv d" by (auto simp: hosted_def)
  have "hosted cat i d'" "di_partyId d' = di_partyId d"
    using h game_steps_inv [OF steps d inv(2)] game_steps_keep [OF steps d inv(2)] by (auto simp: hosted_def)
  then show ?thesis using dm_inv_update [OF inv(1) i] by blast
qed

lemma mp_Process_total:
  assumes inv: "dm_inv cat dm" "udm_inv udm" "enemies_ok cat"
  shows "\<exists>r dm' udm'. mp_Process cat i dt dm udm = Inr (r, dm', udm') \<and> dm_inv cat dm' \<and> udm_inv udm' \<and>
    roster dm' = roster dm \<and> holders udm' = holders udm"
proof (cases "\<exists>d. FindDungeon dm i = Some d \<and> di_state d = Running \<and> isfinite dt \<and> \<not> f32_le dt f32_0")
  case False
  then have "\<exists>r. mp_Process cat i dt dm udm = Inr (r, dm, udm)"
    by (auto simp: mp_Process_def Let_def split: option.splits)
  with inv show ?thesis by blast
next
  case True
  then obtain d where d: "map_of (dm_dungeons dm) i = Some d" "di_state d = Running" "isfinite dt"
    "\<not> f32_le dt f32_0" by (auto simp: FindDungeon_def)
  obtain udm' where dr: "drain_movements i [] 0 udm =
      (fold (\<lambda>q. um_set (apm_sessionId q) (apm_movement q)) (queued_movements udm i) [],
       length (queued_movements udm i), udm')" "udm_inv udm'" "holders udm' = holders udm"
    using drain_movements_result [of udm i "queued_movements udm i" "[]" 0] inv(2) by auto
  have h: "stage_inv cat d" "roster_inv d" using dm_invD(3) [OF inv(1) d(1)] by (auto simp: hosted_def)
  obtain r d' where ap: "apply_movements cat (f32_min dt MAX_DUNGEON_DELTA_SECONDS)
      (fold (\<lambda>q. um_set (apm_sessionId q) (apm_movement q)) (queued_movements udm i) []) d
      \<lparr>mp_receivedCount = length (queued_movements udm i), mp_appliedCount = 0, mp_rejectedCount = 0\<rparr> = Inr (r, d')"
    "(game_step cat)\<^sup>*\<^sup>* d d'"
    using apply_movements_steps [OF h inv(3)] by blast
  have "roster (dm\<lparr>dm_dungeons := um_modify i (\<lambda>_. d') (dm_dungeons dm)\<rparr>) = roster dm"
    using roster_modify_same [OF d(1)] game_steps_keep [OF ap(2) h inv(3)] by simp
  with dm_inv_game_steps [OF inv(1,3) d(1) ap(2)] d dr ap(1) show ?thesis
    by (simp add: mp_Process_def FindDungeon_def Let_def)
qed

end
