(* ===== verification/Combat_Processor.thy ===== *)
theory Combat_Processor
  imports Movement_Processor
begin

text \<open>
  The combat step of a tick (\<open>src/include/DungeonCombatProcessor.h\<close>,
  \<open>src/src/DungeonCombatProcessor.cpp\<close>): the players' actions advance, hits of skills that have become
  active are resolved against the enemies of the room, queued attacks begin new skills.

  The conversion of the computed damage to \<open>std::uint32_t\<close> is undefined behaviour when the value does not
  fit; \<open>None\<close> stands for it, and every operation that computes damage can yield it. The processor keeps
  the hits of skills that have not become active in \<open>pendingHits_\<close>, one per dungeon and session.
\<close>

definition DUNGEON_PLAYER_BASE_ATTACK :: float32 where
  "DUNGEON_PLAYER_BASE_ATTACK = f32_of_int 40"

definition IsInsideSkillHitBox :: "Position \<Rightarrow> Position \<Rightarrow> float32 \<Rightarrow> float32 \<Rightarrow> SkillHitBox \<Rightarrow> bool" where
  "IsInsideSkillHitBox playerPosition enemyPosition directionX directionY hitBox =
     (let directionLength = f32_sqrt (f32_add (f32_mul directionX directionX) (f32_mul directionY directionY));
          directionX = f32_div directionX directionLength;
          directionY = f32_div directionY directionLength;
          offsetX = f32_sub (pos_x enemyPosition) (pos_x playerPosition);
          offsetY = f32_sub (pos_y enemyPosition) (pos_y playerPosition);
          forwardDistance = f32_add (f32_mul offsetX directionX) (f32_mul offsetY directionY);
          sideDistance = f32_abs (f32_add (f32_mul offsetX (f32_neg directionY)) (f32_mul offsetY directionX));
          heightDistance = f32_abs (f32_sub (pos_z enemyPosition) (pos_z playerPosition))
      in f32_ge forwardDistance (f32_neg (hit_backwardRange hitBox)) \<and>
         f32_le forwardDistance (hit_forwardRange hitBox) \<and>
         f32_le sideDistance (hit_halfDepth hitBox) \<and>
         f32_le heightDistance (hit_height hitBox))"

definition CalculateDamage :: "SkillTemplate \<Rightarrow> u32 option" where
  "CalculateDamage skill =
     (let damageMultiplier =
            fold (\<lambda>e m. if effect_type e = Damage \<and> effect_target e = EnemyTarget
                        then f32_add m (effect_value e) else m) (skill_effects skill) f32_0
      in if f32_le damageMultiplier f32_0 then Some 0
         else f32_to_u32 (f32_max f32_1 (f32_round (f32_mul DUNGEON_PLAYER_BASE_ATTACK damageMultiplier))))"

record PendingSkillHit =
  ph_skill :: SkillTemplate
  ph_directionX :: float32
  ph_directionY :: float32

record CombatProcessResult =
  cp_receivedCount :: nat
  cp_acceptedCount :: nat
  cp_rejectedCount :: nat
  cp_hitCount :: nat

text \<open>The processor's own state.\<close>

type_synonym pending_hits = "(DungeonId, (SessionId, PendingSkillHit) umap) umap"

text \<open>The loop over a copy of the enemies; each hit is applied to the room itself.\<close>

fun hit_enemies ::
    "u32 \<Rightarrow> Position \<Rightarrow> PendingSkillHit \<Rightarrow> EnemyState list \<Rightarrow> RoomState \<Rightarrow> nat \<Rightarrow> nat \<times> RoomState" where
  "hit_enemies damage pos hit [] room n = (n, room)"
| "hit_enemies damage pos hit (enemy # rest) room n =
     (if 0 < damage \<and> en_alive enemy \<and>
         IsInsideSkillHitBox pos (en_position enemy) (ph_directionX hit) (ph_directionY hit)
           (skill_hitBox (ph_skill hit))
      then let (applied, room') = ApplyEnemyDamage (en_entityId enemy) damage room in
           hit_enemies damage pos hit rest room' (if applied then Suc n else n)
      else hit_enemies damage pos hit rest room n)"

text \<open>One pending hit: whether it stays pending, the hits counted and the dungeon.\<close>

definition resolve_hit ::
    "SessionId \<Rightarrow> PendingSkillHit \<Rightarrow> DungeonInstance \<Rightarrow> nat \<Rightarrow> (bool \<times> nat \<times> DungeonInstance) option" where
  "resolve_hit sessionId hit d n =
     (case FindPlayer d sessionId of
        None \<Rightarrow> Some (False, n, d)
      | Some player \<Rightarrow>
          let snapshot = player_Snapshot player in
          if \<not> snap_alive snapshot \<or> sa_skillId (snap_skillAction snapshot) \<noteq> skill_id (ph_skill hit)
          then Some (False, n, d)
          else if sa_phase (snap_skillAction snapshot) \<noteq> Active then Some (True, n, d)
          else case FindRoom d (snap_roomId snapshot) of
                 None \<Rightarrow> Some (False, n, d)
               | Some room \<Rightarrow>
                   (case CalculateDamage (ph_skill hit) of
                      None \<Rightarrow> None
                    | Some damage \<Rightarrow>
                        let (n', room') = hit_enemies damage (snap_position snapshot) hit (rs_enemies room) room n
                        in Some (False, n', modify_room (snap_roomId snapshot) (\<lambda>_. room') d)))"

fun resolve_hits ::
    "(SessionId \<times> PendingSkillHit) list \<Rightarrow> DungeonInstance \<Rightarrow> nat \<Rightarrow>
     ((SessionId \<times> PendingSkillHit) list \<times> nat \<times> DungeonInstance) option" where
  "resolve_hits [] d n = Some ([], n, d)"
| "resolve_hits ((x, hit) # rest) d n =
     (case resolve_hit x hit d n of
        None \<Rightarrow> None
      | Some (stays, n', d') \<Rightarrow>
          (case resolve_hits rest d' n' of
             None \<Rightarrow> None
           | Some (left, n'', d'') \<Rightarrow> Some (if stays then (x, hit) # left else left, n'', d'')))"

definition ResolvePendingHits ::
    "DungeonId \<Rightarrow> DungeonInstance \<Rightarrow> CombatProcessResult \<Rightarrow> pending_hits \<Rightarrow>
     (DungeonInstance \<times> CombatProcessResult \<times> pending_hits) option" where
  "ResolvePendingHits dungeonId dungeon result pendingHits =
     (case map_of pendingHits dungeonId of
        None \<Rightarrow> Some (dungeon, result, pendingHits)
      | Some hits \<Rightarrow>
          (case resolve_hits hits dungeon (cp_hitCount result) of
             None \<Rightarrow> None
           | Some (left, n, dungeon') \<Rightarrow>
               Some (dungeon', result\<lparr>cp_hitCount := n\<rparr>,
                     if left = [] then um_erase dungeonId pendingHits
                     else um_modify dungeonId (\<lambda>_. left) pendingHits)))"

text \<open>The loop over the participants, then the loop over the queued attacks.\<close>

definition advance_players :: "DungeonInstance \<Rightarrow> DungeonInstance" where
  "advance_players d = fold (\<lambda>x. modify_player x AdvanceCombatTick) (di_participants d) d"

definition begin_attack ::
    "SkillCatalog \<Rightarrow> DungeonId \<Rightarrow> AuthenticatedPlayerAttack \<Rightarrow> DungeonInstance \<Rightarrow> CombatProcessResult \<Rightarrow>
     pending_hits \<Rightarrow> DungeonInstance \<times> CombatProcessResult \<times> pending_hits" where
  "begin_attack skills dungeonId queued d result pendingHits =
     (let result = result\<lparr>cp_receivedCount := cp_receivedCount result + 1\<rparr>;
          reject = result\<lparr>cp_rejectedCount := cp_rejectedCount result + 1\<rparr> in
      case (FindPlayer d (apa_sessionId queued), GetSkill skills (at_skillId (apa_attack queued))) of
        (Some player, Some skill) \<Rightarrow>
          let (beginResult, player') = BeginSkill (skill_id skill) (skill_manaCost skill) (skill_cooldownTicks skill)
                (skill_startupTicks skill) (skill_activeTicks skill) (skill_recoveryTicks skill) player;
              d = modify_player (apa_sessionId queued) (\<lambda>_. player') d
          in if beginResult \<noteq> BeginSuccess then (d, reject, pendingHits)
             else
               let hit = \<lparr>ph_skill = skill, ph_directionX = at_directionX (apa_attack queued),
                          ph_directionY = at_directionY (apa_attack queued)\<rparr>;
                   hits = (case map_of pendingHits dungeonId of None \<Rightarrow> [] | Some h \<Rightarrow> h)
               in (d, result\<lparr>cp_acceptedCount := cp_acceptedCount result + 1\<rparr>,
                   um_set dungeonId (um_set (apa_sessionId queued) hit hits) pendingHits)
      | _ \<Rightarrow> (d, reject, pendingHits))"

function drain_attacks ::
    "SkillCatalog \<Rightarrow> DungeonId \<Rightarrow> DungeonInstance \<Rightarrow> CombatProcessResult \<Rightarrow> pending_hits \<Rightarrow> DungeonUdpManager \<Rightarrow>
     DungeonInstance \<times> CombatProcessResult \<times> pending_hits \<times> DungeonUdpManager" where
  "drain_attacks skills i d r hits udm =
     (case udm_TryPopAttack i udm of
        (None, udm') \<Rightarrow> (d, r, hits, udm')
      | (Some q, udm') \<Rightarrow>
          let (d', r', hits') = begin_attack skills i q d r hits in drain_attacks skills i d' r' hits' udm')"
  by pat_completeness auto
termination
  by (relation "measure (\<lambda>(skills, i, d, r, hits, udm). PendingAttackCount udm i)")
     (auto simp: udm_TryPopAttack_def us_TryPopAttack_def PendingAttackCount_def put_session_def
        um_find_modify split: option.splits list.splits)

declare drain_attacks.simps [simp del]

definition cp_Process ::
    "SkillCatalog \<Rightarrow> DungeonId \<Rightarrow> DungeonManager \<Rightarrow> DungeonUdpManager \<Rightarrow> pending_hits \<Rightarrow>
     (CombatProcessResult \<times> DungeonManager \<times> DungeonUdpManager \<times> pending_hits) option" where
  "cp_Process skills dungeonId dm udm pendingHits =
     (let result = \<lparr>cp_receivedCount = 0, cp_acceptedCount = 0, cp_rejectedCount = 0, cp_hitCount = 0\<rparr> in
      case FindDungeon dm dungeonId of
        None \<Rightarrow> Some (result, dm, udm, um_erase dungeonId pendingHits)
      | Some dungeon \<Rightarrow>
          if di_state dungeon \<noteq> Running then Some (result, dm, udm, um_erase dungeonId pendingHits)
          else
            case ResolvePendingHits dungeonId (advance_players dungeon) result pendingHits of
              None \<Rightarrow> None
            | Some (dungeon, result, pendingHits) \<Rightarrow>
                let (dungeon, result, pendingHits, udm) =
                      drain_attacks skills dungeonId dungeon result pendingHits udm
                in case ResolvePendingHits dungeonId dungeon result pendingHits of
                     None \<Rightarrow> None
                   | Some (dungeon, result, pendingHits) \<Rightarrow>
                       Some (result, dm\<lparr>dm_dungeons := um_modify dungeonId (\<lambda>_. dungeon) (dm_dungeons dm)\<rparr>,
                             udm, pendingHits))"

section \<open>A hit strikes every living enemy in the box once\<close>

definition struck :: "u32 \<Rightarrow> Position \<Rightarrow> PendingSkillHit \<Rightarrow> EnemyState \<Rightarrow> bool" where
  "struck damage pos hit e \<longleftrightarrow>
     0 < damage \<and> en_alive e \<and>
     IsInsideSkillHitBox pos (en_position e) (ph_directionX hit) (ph_directionY hit) (skill_hitBox (ph_skill hit))"

lemma hit_enemy_entity [simp]: "en_entityId (hit_enemy d e) = en_entityId e"
  by (simp add: hit_enemy_def)

lemma ApplyEnemyDamage_at:
  assumes "rs_enemies r = pre @ e # es" "distinct (map en_entityId (rs_enemies r))" "en_alive e" "d \<noteq> 0"
  shows "ApplyEnemyDamage (en_entityId e) d r = (True, r\<lparr>rs_enemies := pre @ hit_enemy d e # es\<rparr>)"
proof -
  have "en_entityId e \<notin> en_entityId ` set pre" using assms(1,2) by auto
  then have "\<forall>x \<in> set pre. en_entityId x \<noteq> en_entityId e" by (metis image_eqI)
  then have "find (\<lambda>x. en_entityId x = en_entityId e) (pre @ e # es) = Some e"
    "upd_first (\<lambda>x. en_entityId x = en_entityId e) (hit_enemy d) (pre @ e # es) = pre @ hit_enemy d e # es"
    by (induction pre) auto
  with assms show ?thesis by (simp add: ApplyEnemyDamage_def)
qed

lemma hit_enemies_map:
  assumes "distinct (map en_entityId (rs_enemies r))" "rs_enemies r = pre @ es"
  shows "hit_enemies damage pos hit es r n =
    (n + length (filter (struck damage pos hit) es),
     r\<lparr>rs_enemies := pre @ map (\<lambda>e. if struck damage pos hit e then hit_enemy damage e else e) es\<rparr>)"
  using assms
proof (induction es arbitrary: pre r n)
  case Nil
  then show ?case by simp
next
  case (Cons e es)
  show ?case
  proof (cases "struck damage pos hit e")
    case True
    then have e: "en_alive e" "damage \<noteq> 0" by (auto simp: struck_def)
    let ?r = "r\<lparr>rs_enemies := pre @ hit_enemy damage e # es\<rparr>"
    have "distinct (map en_entityId (rs_enemies ?r))" using Cons.prems by simp
    from Cons.IH [OF this, of "pre @ [hit_enemy damage e]" "Suc n"] True
      ApplyEnemyDamage_at [OF Cons.prems(2,1) e]
    show ?thesis by (simp add: struck_def)
  next
    case False
    with Cons.IH [OF Cons.prems(1), of "pre @ [e]" n] Cons.prems(2) show ?thesis
      by (auto simp: struck_def)
  qed
qed

section \<open>The call as a sequence of game steps\<close>

lemma modify_room_same:
  "um_ok (di_rooms d) \<Longrightarrow> map_of (di_rooms d) i = Some r \<Longrightarrow> modify_room i (\<lambda>_. r) d = d"
  by (auto simp: modify_room_def um_modify_def um_find_iff_set [symmetric] intro!: map_idI DungeonInstance.equality)

lemma modify_room_twice: "modify_room i (\<lambda>_. r') (modify_room i (\<lambda>_. r) d) = modify_room i (\<lambda>_. r') d"
  by (simp add: modify_room_def um_modify_def comp_def if_distrib cong: if_cong)

lemma modify_player_const:
  "um_ok (di_players d) \<Longrightarrow> map_of (di_players d) x = Some p \<Longrightarrow>
   modify_player x f d = modify_player x (\<lambda>_. f p) d"
  unfolding modify_player_def using um_modify_const [of "di_players d" x p f] by simp

lemma hit_enemies_steps:
  assumes "um_ok (di_rooms d)" "map_of (di_rooms d) i = Some r"
  shows "(game_step cat)\<^sup>*\<^sup>* d (modify_room i (\<lambda>_. snd (hit_enemies damage pos hit es r n)) d)"
  using assms
proof (induction damage pos hit es r n arbitrary: d rule: hit_enemies.induct)
  case (1 damage pos hit r n)
  then show ?case by (simp add: modify_room_same)
next
  case (2 damage pos hit e es r n)
  show ?case
  proof (cases "struck damage pos hit e")
    case False
    with "2.IH"(2) "2.prems" show ?thesis by (auto simp: struck_def)
  next
    case True
    define r' where "r' = snd (ApplyEnemyDamage (en_entityId e) damage r)"
    define d' where "d' = modify_room i (\<lambda>_. r') d"
    have "modify_room i (\<lambda>r. snd (ApplyEnemyDamage (en_entityId e) damage r)) d = d'"
      using um_modify_const [OF "2.prems", of "\<lambda>r. snd (ApplyEnemyDamage (en_entityId e) damage r)"]
      by (simp add: d'_def r'_def modify_room_def)
    then have step: "game_step cat d d'" using game_step.hit by metis
    have d': "um_ok (di_rooms d')" "map_of (di_rooms d') i = Some r'"
      using "2.prems" by (simp_all add: d'_def modify_room_def umap_simps)
    obtain b where b: "ApplyEnemyDamage (en_entityId e) damage r = (b, r')" by (metis prod.collapse r'_def)
    from "2.IH"(1) [OF _ b [symmetric] refl d'] True
    have "(game_step cat)\<^sup>*\<^sup>* d' (modify_room i (\<lambda>_. snd (hit_enemies damage pos hit (e # es) r n)) d')"
      by (simp add: struck_def b)
    then show ?thesis using step by (simp add: d'_def modify_room_twice del: hit_enemies.simps)
  qed
qed

text \<open>A hit that has to wait: its skill is still in start-up or already in recovery.\<close>

definition waiting_hit :: "DungeonInstance \<Rightarrow> SessionId \<times> PendingSkillHit \<Rightarrow> bool" where
  "waiting_hit d e \<longleftrightarrow>
     (case FindPlayer d (fst e) of
        None \<Rightarrow> False
      | Some p \<Rightarrow> ps_currentHp p \<noteq> 0 \<and> ps_actionSkillId p = skill_id (ph_skill (snd e)) \<and> ps_actionPhase p \<noteq> Active)"

lemma resolve_hit_result:
  assumes "resolve_hit x hit d n = Some (stays, n', d')" "um_ok (di_rooms d)"
  shows "stays \<longleftrightarrow> waiting_hit d (x, hit)" "di_players d' = di_players d" "um_ok (di_rooms d')"
    "(game_step cat)\<^sup>*\<^sup>* d d'"
proof -
  have "(stays \<longleftrightarrow> waiting_hit d (x, hit)) \<and> (d' = d \<and> n' = n \<or>
     (\<exists>i room damage pos. map_of (di_rooms d) i = Some room \<and>
        n' = fst (hit_enemies damage pos hit (rs_enemies room) room n) \<and>
        d' = modify_room i (\<lambda>_. snd (hit_enemies damage pos hit (rs_enemies room) room n)) d))"
  proof (cases "FindPlayer d x")
    case None
    with assms(1) show ?thesis by (simp add: resolve_hit_def waiting_hit_def)
  next
    case (Some p)
    show ?thesis
    proof (cases "ps_currentHp p \<noteq> 0 \<and> ps_actionSkillId p = skill_id (ph_skill hit) \<and> ps_actionPhase p = Active")
      case False
      with Some have "resolve_hit x hit d n = Some (waiting_hit d (x, hit), n, d)"
        by (auto simp: resolve_hit_def waiting_hit_def player_Snapshot_def word_gt_0 Let_def)
      with assms(1) have "stays = waiting_hit d (x, hit)" "n' = n" "d' = d" by auto
      then show ?thesis by blast
    next
      case True
      with Some assms(1) show ?thesis
        by (auto simp: resolve_hit_def waiting_hit_def player_Snapshot_def word_gt_0 FindRoom_def case_prod_beta
            Let_def split: option.splits)
    qed
  qed
  then consider "stays \<longleftrightarrow> waiting_hit d (x, hit)" "d' = d" "n' = n"
    | i room damage pos where "stays \<longleftrightarrow> waiting_hit d (x, hit)" "map_of (di_rooms d) i = Some room"
        "n' = fst (hit_enemies damage pos hit (rs_enemies room) room n)"
        "d' = modify_room i (\<lambda>_. snd (hit_enemies damage pos hit (rs_enemies room) room n)) d"
    by blast
  then have "(stays \<longleftrightarrow> waiting_hit d (x, hit)) \<and> di_players d' = di_players d \<and> um_ok (di_rooms d') \<and>
    (game_step cat)\<^sup>*\<^sup>* d d'"
  proof cases
    case 1
    then show ?thesis using assms(2) by simp
  next
    case (2 i room damage pos)
    then show ?thesis
      using hit_enemies_steps [OF assms(2) 2(2), of cat damage pos hit "rs_enemies room" n] assms(2)
      by (simp add: modify_room_def)
  qed
  then show "stays \<longleftrightarrow> waiting_hit d (x, hit)" "di_players d' = di_players d" "um_ok (di_rooms d')"
    "(game_step cat)\<^sup>*\<^sup>* d d'" by blast+
qed

lemma waiting_hit_cong: "di_players d' = di_players d \<Longrightarrow> waiting_hit d' = waiting_hit d"
  by (simp add: waiting_hit_def FindPlayer_def fun_eq_iff)

lemma resolve_hits_result:
  assumes "resolve_hits hits d n = Some (left, n', d')" "um_ok (di_rooms d)"
  shows "left = filter (waiting_hit d) hits \<and> di_players d' = di_players d \<and> um_ok (di_rooms d') \<and>
    (game_step cat)\<^sup>*\<^sup>* d d'"
  using assms
proof (induction hits d n arbitrary: left n' d' rule: resolve_hits.induct)
  case (2 x hit rest d n)
  from "2.prems"(1) obtain stays n\<^sub>1 d\<^sub>1 left\<^sub>1 where
    r: "resolve_hit x hit d n = Some (stays, n\<^sub>1, d\<^sub>1)" "resolve_hits rest d\<^sub>1 n\<^sub>1 = Some (left\<^sub>1, n', d')"
    "left = (if stays then (x, hit) # left\<^sub>1 else left\<^sub>1)"
    by (auto split: option.splits)
  note one = resolve_hit_result [OF r(1) "2.prems"(2)]
  from "2.IH" [OF r(1) refl refl r(2) one(3)] one r(3) show ?case
    using waiting_hit_cong [OF one(2)] rtranclp_trans [OF one(4) [of cat], of d'] by auto
qed simp

lemma ResolvePendingHits_result:
  assumes "ResolvePendingHits i d r hits = Some (d', r', hits')" "um_ok (di_rooms d)"
  shows "(game_step cat)\<^sup>*\<^sup>* d d'" "di_players d' = di_players d" "um_ok (di_rooms d')"
    "map_of hits' j = (if j = i
       then (case map_of hits i of None \<Rightarrow> None
             | Some hs \<Rightarrow> if filter (waiting_hit d) hs = [] then None else Some (filter (waiting_hit d) hs))
       else map_of hits j)"
proof -
  have "(game_step cat)\<^sup>*\<^sup>* d d' \<and> di_players d' = di_players d \<and> um_ok (di_rooms d') \<and>
    map_of hits' j = (if j = i
       then (case map_of hits i of None \<Rightarrow> None
             | Some hs \<Rightarrow> if filter (waiting_hit d) hs = [] then None else Some (filter (waiting_hit d) hs))
       else map_of hits j)"
  proof (cases "map_of hits i")
    case None
    with assms show ?thesis by (auto simp: ResolvePendingHits_def)
  next
    case (Some hs)
    with assms(1) obtain left n where l: "resolve_hits hs d (cp_hitCount r) = Some (left, n, d')"
      "hits' = (if left = [] then um_erase i hits else um_modify i (\<lambda>_. left) hits)"
      by (auto simp: ResolvePendingHits_def split: option.splits)
    with resolve_hits_result [OF l(1) assms(2), of cat] Some show ?thesis by (auto simp: umap_simps)
  qed
  then show "(game_step cat)\<^sup>*\<^sup>* d d'" "di_players d' = di_players d" "um_ok (di_rooms d')"
    "map_of hits' j = (if j = i
       then (case map_of hits i of None \<Rightarrow> None
             | Some hs \<Rightarrow> if filter (waiting_hit d) hs = [] then None else Some (filter (waiting_hit d) hs))
       else map_of hits j)" by blast+
qed

lemma advance_players_steps: "(game_step cat)\<^sup>*\<^sup>* d (advance_players d)"
proof -
  have "(game_step cat)\<^sup>*\<^sup>* d (fold (\<lambda>x. modify_player x AdvanceCombatTick) xs d)" for xs
    by (induction xs arbitrary: d)
       (simp_all, meson converse_rtranclp_into_rtranclp game_step.tick)
  then show ?thesis by (simp add: advance_players_def)
qed

lemma begin_attack_steps:
  assumes "um_ok (di_players d)" "begin_attack skills i q d r hits = (d', r', hits')"
  shows "(game_step cat)\<^sup>*\<^sup>* d d'"
proof -
  have step: "game_step cat d (modify_player x (\<lambda>_. snd (BeginSkill s m c st a rc p)) d)"
    if "map_of (di_players d) x = Some p" for x p s m c st a rc
    using game_step.begin_skill [of cat d x s m c st a rc] 
      modify_player_const [OF assms(1) that, of "\<lambda>p. snd (BeginSkill s m c st a rc p)"] by simp
  show ?thesis
  proof (cases "FindPlayer d (apa_sessionId q) = None \<or> GetSkill skills (at_skillId (apa_attack q)) = None")
    case True
    with assms(2) show ?thesis by (auto simp: begin_attack_def Let_def split: option.splits)
  next
    case False
    then obtain p sk where p: "map_of (di_players d) (apa_sessionId q) = Some p"
      "GetSkill skills (at_skillId (apa_attack q)) = Some sk" by (auto simp: FindPlayer_def)
    with assms(2) have "d' = modify_player (apa_sessionId q) (\<lambda>_. snd (BeginSkill (skill_id sk) (skill_manaCost sk)
        (skill_cooldownTicks sk) (skill_startupTicks sk) (skill_activeTicks sk) (skill_recoveryTicks sk) p)) d"
      by (auto simp: begin_attack_def FindPlayer_def Let_def split: prod.splits if_splits)
    with step [OF p(1)] show ?thesis by blast
  qed
qed

definition queued_attacks :: "DungeonUdpManager \<Rightarrow> DungeonId \<Rightarrow> AuthenticatedPlayerAttack list" where
  "queued_attacks udm i =
     (case map_of (udm_sessions udm) i of None \<Rightarrow> [] | Some u \<Rightarrow> us_pendingAttacks u)"

lemma TryPopAttack_queue:
  "fst (udm_TryPopAttack i udm) = (case queued_attacks udm i of [] \<Rightarrow> None | q # _ \<Rightarrow> Some q)"
  "queued_attacks (snd (udm_TryPopAttack i udm)) i = tl (queued_attacks udm i)"
  by (auto simp: udm_TryPopAttack_def us_TryPopAttack_def queued_attacks_def put_session_def um_find_modify
      split: option.splits list.splits)

lemma drain_attacks_result:
  assumes "queued_attacks udm i = qs" "stage_inv cat d" "roster_inv d" "enemies_ok cat"
  shows "\<exists>d' r' hits' udm'. drain_attacks skills i d r hits udm = (d', r', hits', udm') \<and>
     (game_step cat)\<^sup>*\<^sup>* d d' \<and> queued_attacks udm' i = [] \<and>
     holders udm' = holders udm \<and> (udm_inv udm \<longrightarrow> udm_inv udm')"
  using assms
proof (induction qs arbitrary: d r hits udm)
  case Nil
  then show ?case
    using TryPopAttack_queue [of i udm] udm_inv_ops(7) [of udm i] holders_ops(7) [of i udm]
    by (subst drain_attacks.simps) (auto simp del: holders_ops split: prod.splits option.splits)
next
  case (Cons q qs)
  define udm\<^sub>1 where "udm\<^sub>1 = snd (udm_TryPopAttack i udm)"
  have pop: "udm_TryPopAttack i udm = (Some q, udm\<^sub>1)" "queued_attacks udm\<^sub>1 i = qs"
    using TryPopAttack_queue [of i udm] Cons.prems(1) by (auto simp: udm\<^sub>1_def prod_eq_iff)
  obtain d\<^sub>1 r\<^sub>1 hits\<^sub>1 where b: "begin_attack skills i q d r hits = (d\<^sub>1, r\<^sub>1, hits\<^sub>1)" by (metis prod.exhaust)
  have st: "(game_step cat)\<^sup>*\<^sup>* d d\<^sub>1" by (rule begin_attack_steps [OF stage_invD(3) [OF Cons.prems(2)] b])
  note inv = game_steps_inv [OF st Cons.prems(2-4)]
  from Cons.IH [OF pop(2) _ _ Cons.prems(4), of d\<^sub>1 r\<^sub>1 hits\<^sub>1] inv obtain d' r' hits' udm' where
    "drain_attacks skills i d\<^sub>1 r\<^sub>1 hits\<^sub>1 udm\<^sub>1 = (d', r', hits', udm')" "(game_step cat)\<^sup>*\<^sup>* d\<^sub>1 d'"
    "queued_attacks udm' i = []" "holders udm' = holders udm\<^sub>1" "udm_inv udm\<^sub>1 \<longrightarrow> udm_inv udm'" by blast
  moreover from this have "drain_attacks skills i d r hits udm = (d', r', hits', udm')"
    by (subst drain_attacks.simps) (simp add: pop b)
  moreover have "udm_inv udm \<longrightarrow> udm_inv udm\<^sub>1" "holders udm\<^sub>1 = holders udm"
    using udm_inv_ops(7) [of udm i] by (simp_all add: udm\<^sub>1_def)
  ultimately show ?case using rtranclp_trans [OF st, of d'] by auto
qed

lemma cp_Process_inv:
  assumes inv: "dm_inv cat dm" "udm_inv udm" "enemies_ok cat"
    and p: "cp_Process skills i dm udm hits = Some (r, dm', udm', hits')"
  shows "dm_inv cat dm' \<and> udm_inv udm' \<and> roster dm' = roster dm \<and> holders udm' = holders udm"
proof (cases "\<exists>d. map_of (dm_dungeons dm) i = Some d \<and> di_state d = Running")
  case False
  with p inv show ?thesis by (auto simp: cp_Process_def FindDungeon_def Let_def split: option.splits if_splits)
next
  case True
  then obtain d where d: "map_of (dm_dungeons dm) i = Some d" "di_state d = Running" by blast
  from p d obtain d\<^sub>1 r\<^sub>1 h\<^sub>1 d\<^sub>2 r\<^sub>2 h\<^sub>2 d\<^sub>3 where s:
    "ResolvePendingHits i (advance_players d) \<lparr>cp_receivedCount = 0, cp_acceptedCount = 0, cp_rejectedCount = 0,
       cp_hitCount = 0\<rparr> hits = Some (d\<^sub>1, r\<^sub>1, h\<^sub>1)"
    "drain_attacks skills i d\<^sub>1 r\<^sub>1 h\<^sub>1 udm = (d\<^sub>2, r\<^sub>2, h\<^sub>2, udm')"
    "ResolvePendingHits i d\<^sub>2 r\<^sub>2 h\<^sub>2 = Some (d\<^sub>3, r, hits')"
    "dm' = dm\<lparr>dm_dungeons := um_modify i (\<lambda>_. d\<^sub>3) (dm_dungeons dm)\<rparr>"
    by (auto simp: cp_Process_def FindDungeon_def Let_def split: option.splits prod.splits)
  have h: "stage_inv cat d" "roster_inv d" using dm_invD(3) [OF inv(1) d(1)] by (auto simp: hosted_def)
  have s0: "(game_step cat)\<^sup>*\<^sup>* d (advance_players d)" by (rule advance_players_steps)
  note h0 = game_steps_inv [OF s0 h inv(3)]
  have s1: "(game_step cat)\<^sup>*\<^sup>* (advance_players d) d\<^sub>1"
    using ResolvePendingHits_result(1) [OF s(1)] stage_invD(2) h0 by blast
  note h1 = game_steps_inv [OF s1 conjunct1 [OF h0] conjunct2 [OF h0] inv(3)]
  from drain_attacks_result [OF refl conjunct1 [OF h1] conjunct2 [OF h1] inv(3), where udm = udm and i = i and skills = skills
      and r = r\<^sub>1 and hits = h\<^sub>1] s(2) inv(2)
  have s2: "(game_step cat)\<^sup>*\<^sup>* d\<^sub>1 d\<^sub>2" "udm_inv udm'" "holders udm' = holders udm" by auto
  note h2 = game_steps_inv [OF s2(1) conjunct1 [OF h1] conjunct2 [OF h1] inv(3)]
  have s3: "(game_step cat)\<^sup>*\<^sup>* d\<^sub>2 d\<^sub>3"
    using ResolvePendingHits_result(1) [OF s(3)] stage_invD(2) h2 by blast
  have st: "(game_step cat)\<^sup>*\<^sup>* d d\<^sub>3" using s0 s1 s2(1) s3 by (meson rtranclp_trans)
  have "roster dm' = roster dm"
    unfolding s(4) using roster_modify_same [OF d(1)] game_steps_keep [OF st h inv(3)] by simp
  with dm_inv_game_steps [OF inv(1,3) d(1) st] s(4) s2(2,3) show ?thesis by simp
qed

section \<open>When the damage is defined, the call returns\<close>

definition hits_defined :: "pending_hits \<Rightarrow> bool" where
  "hits_defined hits \<longleftrightarrow>
     (\<forall>i hs. map_of hits i = Some hs \<longrightarrow> (\<forall>e \<in> set hs. CalculateDamage (ph_skill (snd e)) \<noteq> None))"

definition skills_defined :: "SkillCatalog \<Rightarrow> bool" where
  "skills_defined skills \<longleftrightarrow> (\<forall>i s. map_of skills i = Some s \<longrightarrow> CalculateDamage s \<noteq> None)"

lemma hits_definedD: "hits_defined hits \<Longrightarrow> map_of hits i = Some hs \<Longrightarrow> e \<in> set hs \<Longrightarrow> CalculateDamage (ph_skill (snd e)) \<noteq> None"
  by (auto simp: hits_defined_def)

lemma resolve_hit_total: "CalculateDamage (ph_skill hit) \<noteq> None \<Longrightarrow> \<exists>res. resolve_hit x hit d n = Some res"
  by (auto simp: resolve_hit_def Let_def case_prod_beta split: option.splits)

lemma resolve_hits_total:
  "\<forall>e \<in> set hs. CalculateDamage (ph_skill (snd e)) \<noteq> None \<Longrightarrow> \<exists>res. resolve_hits hs d n = Some res"
proof (induction hs d n rule: resolve_hits.induct)
  case (2 x hit rest d n)
  then obtain b n' d' where r: "resolve_hit x hit d n = Some (b, n', d')"
    using resolve_hit_total [of hit x d n] by (metis list.set_intros(1) prod.exhaust snd_conv)
  from "2.IH" [OF r refl refl] "2.prems" obtain left n'' d'' where "resolve_hits rest d' n' = Some (left, n'', d'')"
    by (metis list.set_intros(2) prod.exhaust)
  with r show ?case by simp
qed simp

lemma ResolvePendingHits_total:
  assumes "hits_defined hits" "um_ok (di_rooms d)"
  shows "\<exists>d' r' hits'. ResolvePendingHits i d r hits = Some (d', r', hits') \<and> hits_defined hits'"
proof -
  have "\<exists>res. ResolvePendingHits i d r hits = Some res"
  proof (cases "map_of hits i")
    case (Some hs)
    then obtain res where "resolve_hits hs d (cp_hitCount r) = Some res"
      using resolve_hits_total hits_definedD [OF assms(1)] by metis
    with Some show ?thesis by (cases res) (simp add: ResolvePendingHits_def)
  qed (simp add: ResolvePendingHits_def)
  then obtain d' r' hits' where r: "ResolvePendingHits i d r hits = Some (d', r', hits')" by (metis prod.exhaust)
  have "hits_defined hits'"
    unfolding hits_defined_def ResolvePendingHits_result(4) [OF r assms(2)]
    using hits_definedD [OF assms(1)] by (auto split: option.splits if_splits)
  with r show ?thesis by blast
qed

lemma begin_attack_defined:
  assumes "hits_defined hits" "skills_defined skills"
  shows "hits_defined (snd (snd (begin_attack skills i q d r hits)))"
proof (cases "snd (snd (begin_attack skills i q d r hits)) = hits")
  case False
  then obtain sk dx dy where sk: "GetSkill skills (at_skillId (apa_attack q)) = Some sk"
    "snd (snd (begin_attack skills i q d r hits)) =
       um_set i (um_set (apa_sessionId q) \<lparr>ph_skill = sk, ph_directionX = dx, ph_directionY = dy\<rparr>
         (case map_of hits i of None \<Rightarrow> [] | Some h \<Rightarrow> h)) hits"
    by (auto simp: begin_attack_def Let_def case_prod_beta split: option.splits if_splits)
  have set: "set (um_set k v m) \<subseteq> insert (k, v) (set m)" for k and v :: PendingSkillHit and m
    unfolding um_set_def by (induction m) auto
  have "CalculateDamage sk \<noteq> None" using assms(2) sk(1) by (auto simp: skills_defined_def GetSkill_def)
  with sk(2) show ?thesis
    using hits_definedD [OF assms(1)]
    by (auto simp: hits_defined_def um_find_set split: if_splits option.splits dest!: subsetD [OF set])
qed (use assms in simp)

lemma drain_attacks_defined:
  "hits_defined hits \<Longrightarrow> skills_defined skills \<Longrightarrow>
   hits_defined (fst (snd (snd (drain_attacks skills i d r hits udm))))"
proof (induction skills i d r hits udm rule: drain_attacks.induct)
  case (1 skills i d r hits udm)
  show ?case
  proof (cases "udm_TryPopAttack i udm")
    case (Pair q udm')
    show ?thesis
    proof (cases q)
      case None
      with Pair "1.prems" show ?thesis by (subst drain_attacks.simps) simp
    next
      case (Some a)
      obtain d' r' h' where b: "begin_attack skills i a d r hits = (d', r', h')" by (metis prod.exhaust)
      have "hits_defined h'" using begin_attack_defined [OF "1.prems", of i a d r] b by simp
      with "1.IH" [OF Pair [symmetric] Some b [symmetric] refl] "1.prems"(2) Pair Some b show ?thesis
        by (subst drain_attacks.simps) simp
    qed
  qed
qed

lemma cp_Process_total:
  assumes inv: "dm_inv cat dm" "udm_inv udm" "enemies_ok cat" and hits: "hits_defined hits" "skills_defined skills"
  shows "\<exists>r dm' udm' hits'. cp_Process skills i dm udm hits = Some (r, dm', udm', hits') \<and>
    dm_inv cat dm' \<and> udm_inv udm' \<and> hits_defined hits' \<and> roster dm' = roster dm \<and> holders udm' = holders udm"
proof -
  have "\<exists>r dm' udm' hits'. cp_Process skills i dm udm hits = Some (r, dm', udm', hits') \<and> hits_defined hits'"
  proof (cases "\<exists>d. map_of (dm_dungeons dm) i = Some d \<and> di_state d = Running")
    case False
    moreover have "hits_defined (um_erase i hits)"
      using hits_definedD [OF hits(1)] by (auto simp: hits_defined_def umap_simps split: if_splits)
    ultimately show ?thesis by (auto simp: cp_Process_def FindDungeon_def Let_def split: option.splits)
  next
    case True
    then obtain d where d: "map_of (dm_dungeons dm) i = Some d" "di_state d = Running" by blast
    have h: "stage_inv cat d" "roster_inv d" using dm_invD(3) [OF inv(1) d(1)] by (auto simp: hosted_def)
    note h0 = game_steps_inv [OF advance_players_steps h inv(3)]
    let ?r = "\<lparr>cp_receivedCount = 0, cp_acceptedCount = 0, cp_rejectedCount = 0, cp_hitCount = 0\<rparr>"
    obtain d\<^sub>1 r\<^sub>1 h\<^sub>1 where s1: "ResolvePendingHits i (advance_players d) ?r hits = Some (d\<^sub>1, r\<^sub>1, h\<^sub>1)" "hits_defined h\<^sub>1"
      using ResolvePendingHits_total [OF hits(1)] stage_invD(2) h0 by blast
    have "(game_step cat)\<^sup>*\<^sup>* (advance_players d) d\<^sub>1"
      using ResolvePendingHits_result(1) [OF s1(1)] stage_invD(2) h0 by blast
    note h1 = game_steps_inv [OF this conjunct1 [OF h0] conjunct2 [OF h0] inv(3)]
    obtain d\<^sub>2 r\<^sub>2 h\<^sub>2 udm' where s2: "drain_attacks skills i d\<^sub>1 r\<^sub>1 h\<^sub>1 udm = (d\<^sub>2, r\<^sub>2, h\<^sub>2, udm')"
      "(game_step cat)\<^sup>*\<^sup>* d\<^sub>1 d\<^sub>2"
      using drain_attacks_result [OF refl conjunct1 [OF h1] conjunct2 [OF h1] inv(3), where udm = udm and i = i
          and skills = skills and r = r\<^sub>1 and hits = h\<^sub>1] by blast
    note h2 = game_steps_inv [OF s2(2) conjunct1 [OF h1] conjunct2 [OF h1] inv(3)]
    have "hits_defined h\<^sub>2" using drain_attacks_defined [OF s1(2) hits(2), of i d\<^sub>1 r\<^sub>1 udm] s2(1) by simp
    then obtain d\<^sub>3 r\<^sub>3 h\<^sub>3 where "ResolvePendingHits i d\<^sub>2 r\<^sub>2 h\<^sub>2 = Some (d\<^sub>3, r\<^sub>3, h\<^sub>3)" "hits_defined h\<^sub>3"
      using ResolvePendingHits_total stage_invD(2) h2 by blast
    with d s1 s2 show ?thesis by (simp add: cp_Process_def FindDungeon_def)
  qed
  then show ?thesis using cp_Process_inv [OF inv] by blast
qed

end
