(* ===== verification/Lifecycle_Service.thy ===== *)
theory Lifecycle_Service
  imports Dungeon_Runs Udp_Manager
begin

text \<open>
  The service that keeps the dungeon manager and the UDP manager in step
  (\<open>src/include/DungeonLifecycleService.h\<close>, \<open>src/src/DungeonLifecycleService.cpp\<close>). It has no lock of its
  own; the model takes each call as one step.

  \<open>synced\<close> is what the two managers owe each other: every UDP session belongs to a hosted dungeon, and
  exactly the participants of that dungeon have a token. Every operation keeps it.
\<close>

record DungeonSessionRegistration =
  sr_status :: RegisterDungeonSessionStatus
  sr_dungeonId :: DungeonId
  sr_replacedSessionId :: SessionId
  sr_freshUdpToken :: "DungeonUdpToken option"

text \<open>\<open>now\<close> and \<open>later\<close> are the two readings of the clock; \<open>None\<close> means the random bytes did not suffice.\<close>

definition ls_RegisterPlayerSession ::
    "u8 list \<Rightarrow> int \<Rightarrow> int \<Rightarrow> int \<Rightarrow> SessionId \<Rightarrow> PlayerId \<Rightarrow> DungeonManager \<Rightarrow> DungeonUdpManager \<Rightarrow>
     (DungeonSessionRegistration \<times> DungeonManager \<times> DungeonUdpManager) option" where
  "ls_RegisterPlayerSession rnd now later reconnectGrace sessionId playerId dm udm =
     (let (registration, dm) = RegisterPlayerSession sessionId playerId now reconnectGrace dm;
          res = \<lparr>sr_status = rr_status registration, sr_dungeonId = rr_dungeonId registration,
                 sr_replacedSessionId = rr_replacedSessionId registration, sr_freshUdpToken = None\<rparr> in
      if rr_status registration \<noteq> Reconnected then Some (res, dm, udm)
      else case udm_ReplaceParticipant rnd (rr_dungeonId registration) (rr_replacedSessionId registration)
                  sessionId udm of
             None \<Rightarrow> None
           | Some (token, udm) \<Rightarrow>
               let res = res\<lparr>sr_freshUdpToken := token\<rparr> in
               if token = None
               then
                 let (rolledBack, dm) =
                       (case rr_disconnectedAt registration of
                          None \<Rightarrow> (False, dm)
                        | Some t \<Rightarrow> RollbackPlayerReconnect (rr_dungeonId registration) playerId sessionId
                                     (rr_replacedSessionId registration) t dm)
                 in Some (res, if rolledBack then dm else snd (DisconnectPlayerSession sessionId later dm), udm)
               else Some (res, dm, udm))"

definition ls_DisconnectPlayerSession ::
    "int \<Rightarrow> SessionId \<Rightarrow> DungeonManager \<Rightarrow> DungeonUdpManager \<Rightarrow> bool \<times> DungeonManager \<times> DungeonUdpManager" where
  "ls_DisconnectPlayerSession now sessionId dm udm =
     (let (dungeonId, dm) = DisconnectPlayerSession sessionId now dm in
      case dungeonId of
        None \<Rightarrow> (False, dm, udm)
      | Some i \<Rightarrow> (True, dm, snd (udm_DisconnectParticipant i sessionId udm)))"

definition ls_SweepAbandonedParticipants ::
    "int \<Rightarrow> int \<Rightarrow> int \<Rightarrow> DungeonManager \<Rightarrow> DungeonUdpManager \<Rightarrow>
     DungeonAbandonmentSweep \<times> DungeonManager \<times> DungeonUdpManager" where
  "ls_SweepAbandonedParticipants now reconnectGrace maxDungeonLifetime dm udm =
     (let (sweep, dm) = SweepAbandonedParticipants now reconnectGrace maxDungeonLifetime dm;
          udm = fold (\<lambda>(i, x) udm. snd (udm_RemoveParticipant i x udm)) (sw_removedParticipants sweep) udm;
          udm = fold (\<lambda>i udm. snd (Release i udm)) (sw_releasedDungeons sweep) udm
      in (sweep, dm, udm))"

definition CancelWaitingDungeon ::
    "DungeonId \<Rightarrow> DungeonManager \<Rightarrow> DungeonUdpManager \<Rightarrow> bool \<times> DungeonManager \<times> DungeonUdpManager" where
  "CancelWaitingDungeon dungeonId dm udm =
     (let (cancelled, dm) = CancelDungeon dungeonId dm in
      if \<not> cancelled then (False, dm, udm) else (True, dm, snd (Release dungeonId udm)))"

definition ls_FinishDungeon ::
    "DungeonId \<Rightarrow> DungeonManager \<Rightarrow> DungeonUdpManager \<Rightarrow> bool \<times> DungeonManager \<times> DungeonUdpManager" where
  "ls_FinishDungeon dungeonId dm udm =
     (let (finished, dm) = FinishDungeon dungeonId dm in
      if \<not> finished then (False, dm, udm) else (True, dm, snd (Release dungeonId udm)))"

section \<open>Rosters and tokens\<close>

definition synced :: "DungeonManager \<Rightarrow> DungeonUdpManager \<Rightarrow> bool" where
  "synced dm udm \<longleftrightarrow> (\<forall>i h. holders udm i = Some h \<longrightarrow> (\<exists>xs. roster dm i = Some xs \<and> set xs = h))"

lemma synced_cong:
  "synced dm udm \<Longrightarrow> roster dm' = roster dm \<Longrightarrow> holders udm' = holders udm \<Longrightarrow> synced dm' udm'"
  by (simp add: synced_def)

lemma roster_Disconnect:
  assumes "dm_inv cat dm"
  shows "roster (snd (DisconnectPlayerSession x t dm)) = roster dm"
proof -
  from disconnect_first_cases [OF dm_invD(1) [OF assms], of x t]
  have "map_option di_participants (map_of (snd (disconnect_first x t (dm_dungeons dm))) i) = roster dm i" for i
    by (auto simp: roster_def umap_simps)
  then show ?thesis
    by (auto simp: roster_def fun_eq_iff DisconnectPlayerSession_def Let_def case_prod_beta split: option.splits)
qed

lemma roster_Register:
  assumes inv: "dm_inv cat dm" and st: "rr_status (fst (RegisterPlayerSession x p now g dm)) \<noteq> Reconnected"
  shows "roster (snd (RegisterPlayerSession x p now g dm)) = roster dm"
proof -
  let ?s = "dm\<lparr>dm_authenticatedPlayers := um_emplace x p (dm_authenticatedPlayers dm),
        dm_activePlayerSessions := um_emplace p x (dm_activePlayerSessions dm)\<rparr>"
  have "roster (snd (register_in_dungeons x p now g ?s)) = roster dm"
    if "rr_status (fst (register_in_dungeons x p now g ?s)) \<noteq> Reconnected"
  proof (cases "find (\<lambda>e. HasParticipant (snd e) x) (dm_dungeons dm)")
    case None
    with that try_reconnect_cases [OF dm_invD(1) [OF inv] dm_roster [OF inv], of p x now g] show ?thesis
      by (auto simp: register_in_dungeons_def roster_def fun_eq_iff)
  next
    case (Some e)
    obtain i d where e: "e = (i, d)" by fastforce
    have "map_of (dm_dungeons dm) i = Some d" using find_dungeon [OF dm_invD(1) [OF inv] Some [unfolded e]] by simp
    moreover obtain b d' where b: "BindParticipantPlayer x p d = (b, d')" by fastforce
    moreover have "di_participants d' = di_participants d" using Bind_fields(3) [of x p d] b by simp
    ultimately show ?thesis
      using Some e by (cases b) (auto simp: register_in_dungeons_def roster_def fun_eq_iff umap_simps)
  qed
  with RegisterPlayerSession_guard [of x p now g dm] st show ?thesis by auto
qed

lemma Reconnect_participants:
  assumes inv: "roster_inv d" and rec: "ReconnectParticipant p y now g d = (Some rc, d')"
  shows "set (di_participants d') = insert y (set (di_participants d) - {rc_replacedSessionId rc})"
    "rc_replacedSessionId rc \<in> set (di_participants d)" "y \<notin> set (di_participants d)" "y \<noteq> 0"
proof -
  obtain x t where m: "y \<noteq> 0" "map_of (di_playerSessions d) p = Some x" "\<not> um_contains (di_players d) y"
    "rc = \<lparr>rc_replacedSessionId = x, rc_disconnectedAt = t\<rparr>"
    "d' = (snd (move_participant p x y d))\<lparr>di_disconnectedSince := um_erase x (di_disconnectedSince d)\<rparr>"
  proof (cases rule: Reconnect_cases [OF inv, of p y now g])
    case (2 x t)
    with rec that [of x t] show ?thesis by simp
  qed (use rec in simp)
  obtain q where "move_participant p x y d = (True,
       d\<lparr>di_players := um_emplace y (q\<lparr>ps_sessionId := y\<rparr>) (um_erase x (di_players d)),
         di_participantPlayerIds := um_emplace y p (um_erase x (di_participantPlayerIds d)),
         di_playerSessions := um_modify p (\<lambda>_. y) (di_playerSessions d),
         di_participants := upd_first (\<lambda>z. z = x) (\<lambda>_. y) (di_participants d)\<rparr>)"
    using move_participant_eq [OF inv m(2,1)] by blast
  then have "di_participants d' = upd_first (\<lambda>z. z = x) (\<lambda>_. y) (di_participants d)"
    using m(5) by simp
  moreover have x: "x \<in> set (di_participants d)" using roster_invD(8,12) [OF inv] m(2) by blast
  ultimately show "set (di_participants d') = insert y (set (di_participants d) - {rc_replacedSessionId rc})"
    "rc_replacedSessionId rc \<in> set (di_participants d)" "y \<notin> set (di_participants d)" "y \<noteq> 0"
    using set_upd_first_eq [OF roster_invD(1) [OF inv] x, of y] m roster_invD(8) [OF inv] by auto
qed

section \<open>Every operation keeps the two managers in step\<close>

lemma synced_Replace:
  assumes sync: "synced dm udm"
    and old: "roster dm i = Some xs" and new: "roster dm' = (roster dm)(i \<mapsto> ys)"
    and ys: "set ys = insert y (set xs - {x})"
    and rep: "udm_ReplaceParticipant rnd i x y udm = Some (Some t, udm')"
  shows "synced dm' udm'"
proof -
  have "h = set xs" if "holders udm i = Some h" for h using sync that old unfolding synced_def by fastforce
  with sync ys show ?thesis by (auto simp: synced_def new holders_Replace [OF rep] split: if_splits)
qed

lemma dm_dungeons_Rollback:
  assumes "map_of (dm_dungeons dm) i = Some d"
  shows "dm_dungeons (snd (RollbackPlayerReconnect i p y x t dm)) = um_modify i (\<lambda>_. snd
      (RollbackParticipantReconnect p y \<lparr>rc_replacedSessionId = x, rc_disconnectedAt = t\<rparr> d)) (dm_dungeons dm)"
    "fst (RollbackPlayerReconnect i p y x t dm) =
      fst (RollbackParticipantReconnect p y \<lparr>rc_replacedSessionId = x, rc_disconnectedAt = t\<rparr> d)"
  using assms by (simp_all add: RollbackPlayerReconnect_def Let_def case_prod_beta)

lemma ls_Register_keeps:
  assumes inv: "dm_inv cat dm" "udm_inv udm" and sync: "synced dm udm"
    and reg: "ls_RegisterPlayerSession rnd now later g y p dm udm = Some (r, dm', udm')"
  shows "dm_inv cat dm' \<and> udm_inv udm' \<and> synced dm' udm'"
proof -
  obtain rg dm\<^sub>1 where rg: "RegisterPlayerSession y p now g dm = (rg, dm\<^sub>1)" by fastforce
  have inv1: "dm_inv cat dm\<^sub>1" using RegisterPlayerSession_cases(1) [OF inv(1), of y p now g] rg by simp
  show ?thesis
  proof (cases "rr_status rg = Reconnected")
    case False
    then have "dm' = dm\<^sub>1" "udm' = udm" using reg rg by (auto simp: ls_RegisterPlayerSession_def)
    moreover have "roster dm\<^sub>1 = roster dm" using roster_Register [OF inv(1), of y p now g] False rg by simp
    ultimately show ?thesis using inv inv1 sync synced_cong by blast
  next
    case True
    then obtain i d rc d\<^sub>1 where c: "rg = reconnect_result i rc" "map_of (dm_dungeons dm) i = Some d"
      "ReconnectParticipant p y now g d = (Some rc, d\<^sub>1)" "dm_dungeons dm\<^sub>1 = um_modify i (\<lambda>_. d\<^sub>1) (dm_dungeons dm)"
      using RegisterPlayerSession_cases(2) [OF inv(1), of y p now g] rg by auto
    have ri: "roster_inv d" using dm_invD(3) [OF inv(1) c(2)] by (simp add: hosted_def)
    note part = Reconnect_participants [OF ri c(3)]
    have d1: "map_of (dm_dungeons dm\<^sub>1) i = Some d\<^sub>1" using c(2,4) by (simp add: umap_simps)
    have r1: "roster dm\<^sub>1 = (roster dm)(i \<mapsto> di_participants d\<^sub>1)" "roster dm i = Some (di_participants d)"
      using c(2,4) by (auto simp: roster_def fun_eq_iff umap_simps)
    obtain tk udm\<^sub>1 where tk: "udm_ReplaceParticipant rnd i (rc_replacedSessionId rc) y udm = Some (tk, udm\<^sub>1)"
      "udm' = udm\<^sub>1" "tk \<noteq> None \<Longrightarrow> dm' = dm\<^sub>1"
      "tk = None \<Longrightarrow> dm' = (if fst (RollbackPlayerReconnect i p y (rc_replacedSessionId rc) (rc_disconnectedAt rc) dm\<^sub>1)
         then snd (RollbackPlayerReconnect i p y (rc_replacedSessionId rc) (rc_disconnectedAt rc) dm\<^sub>1)
         else snd (DisconnectPlayerSession y later
           (snd (RollbackPlayerReconnect i p y (rc_replacedSessionId rc) (rc_disconnectedAt rc) dm\<^sub>1))))"
      using reg rg c(1)
      by (auto simp: ls_RegisterPlayerSession_def reconnect_result_def Let_def case_prod_beta
          split: option.splits if_splits)
    have uinv: "udm_inv udm\<^sub>1" by (rule udm_inv_Replace [OF inv(2) tk(1)])
    show ?thesis
    proof (cases tk)
      case (Some t)
      have "synced dm\<^sub>1 udm\<^sub>1"
        by (rule synced_Replace [OF sync r1(2,1) part(1) tk(1) [unfolded Some]])
      with Some tk inv1 uinv show ?thesis by auto
    next
      case None
      have sy: "holders udm\<^sub>1 = holders udm" using holders_Replace [OF tk(1)] None by simp
      from Reconnect_Rollback [OF ri c(3)] obtain d\<^sub>2 where
        d2: "RollbackParticipantReconnect p y rc d\<^sub>1 = (True, d\<^sub>2)" "di_participants d\<^sub>2 = di_participants d" by blast
      have rc: "\<lparr>rc_replacedSessionId = rc_replacedSessionId rc, rc_disconnectedAt = rc_disconnectedAt rc\<rparr> = rc" by simp
      have dm': "dm' = snd (RollbackPlayerReconnect i p y (rc_replacedSessionId rc) (rc_disconnectedAt rc) dm\<^sub>1)"
        using tk(4) [OF None] dm_dungeons_Rollback(2) [OF d1] d2(1) by (simp add: rc)
      have "roster dm' = roster dm"
        using dm_dungeons_Rollback(1) [OF d1, of p y "rc_replacedSessionId rc" "rc_disconnectedAt rc"] d2 d1 r1 c(4)
        by (auto simp: dm' rc roster_def fun_eq_iff umap_simps)
      moreover have "\<not> IsParticipantDisconnected d\<^sub>1 y"
        using Reconnect_keeps_player [OF ri c(3)] by blast
      then have "dm_inv cat dm'" unfolding dm' using d1 by (intro dm_inv_Rollback [OF inv1]) simp
      ultimately show ?thesis using sy uinv tk(2) synced_cong [OF sync] by blast
    qed
  qed
qed

lemma ls_Disconnect_keeps:
  assumes "dm_inv cat dm" "udm_inv udm" "synced dm udm"
    and "ls_DisconnectPlayerSession now x dm udm = (b, dm', udm')"
  shows "dm_inv cat dm' \<and> udm_inv udm' \<and> synced dm' udm'"
proof -
  have "dm' = snd (DisconnectPlayerSession x now dm)" "udm' = udm \<or> (\<exists>i. udm' = snd (udm_DisconnectParticipant i x udm))"
    using assms(4) by (auto simp: ls_DisconnectPlayerSession_def split: prod.splits option.splits)
  with assms(1-3) show ?thesis
    by (auto intro: dm_inv_Disconnect udm_inv_Disconnect synced_cong roster_Disconnect)
qed

lemma fold_Remove:
  "udm_inv udm \<Longrightarrow> udm_inv (fold (\<lambda>(i, x) udm. snd (udm_RemoveParticipant i x udm)) es udm) \<and>
   holders (fold (\<lambda>(i, x) udm. snd (udm_RemoveParticipant i x udm)) es udm) i =
     map_option (\<lambda>h. h - {x. (i, x) \<in> set es}) (holders udm i)"
proof (induction es arbitrary: udm)
  case (Cons e es)
  then show ?case
    by (cases e) (auto simp: udm_inv_ops(1) holders_Remove option.map_comp comp_def intro!: map_option_cong)
qed (simp add: option.map_ident)

lemma fold_Release:
  "udm_inv udm \<Longrightarrow> udm_inv (fold (\<lambda>i udm. snd (Release i udm)) is udm) \<and>
   holders (fold (\<lambda>i udm. snd (Release i udm)) is udm) i = (if i \<in> set is then None else holders udm i)"
  by (induction "is" arbitrary: udm) (auto simp: udm_inv_Release holders_Release)

text \<open>The sweep: whoever leaves a dungeon loses the token, and a dungeon that goes takes its session along.\<close>

lemma ls_Sweep_keeps:
  assumes inv: "dm_inv cat dm" "udm_inv udm" and sync: "synced dm udm" and pos: "0 < grace" "0 < life"
    and sw: "ls_SweepAbandonedParticipants now grace life dm udm = (sw, dm', udm')"
  shows "dm_inv cat dm' \<and> udm_inv udm' \<and> synced dm' udm'"
proof -
  define udm\<^sub>1 where "udm\<^sub>1 = fold (\<lambda>(i, x) udm. snd (udm_RemoveParticipant i x udm)) (sw_removedParticipants sw) udm"
  have s: "SweepAbandonedParticipants now grace life dm = (sw, dm')"
    "udm' = fold (\<lambda>i udm. snd (Release i udm)) (sw_releasedDungeons sw) udm\<^sub>1"
    using sw by (auto simp: ls_SweepAbandonedParticipants_def udm\<^sub>1_def Let_def split: prod.splits)
  have u1: "udm_inv udm\<^sub>1" "holders udm\<^sub>1 i = map_option (\<lambda>h. h - {x. (i, x) \<in> set (sw_removedParticipants sw)}) (holders udm i)" for i
    using fold_Remove [OF inv(2)] by (simp_all add: udm\<^sub>1_def)
  have u2: "udm_inv udm'" "holders udm' i = (if i \<in> set (sw_releasedDungeons sw) then None else holders udm\<^sub>1 i)" for i
    using fold_Release [OF u1(1)] by (simp_all add: s(2))
  note res = Sweep_result [OF inv(1) pos s(1)]
  have "\<exists>ys. roster dm' i = Some ys \<and> set ys = h'" if h: "holders udm' i = Some h'" for i h'
  proof -
    obtain h where hh: "i \<notin> set (sw_releasedDungeons sw)" "holders udm i = Some h"
      "h' = h - {x. (i, x) \<in> set (sw_removedParticipants sw)}"
      using h by (auto simp: u1(2) u2(2) split: if_splits)
    with sync obtain d where d: "map_of (dm_dungeons dm) i = Some d" "set (di_participants d) = h"
      by (auto simp: synced_def roster_def)
    have keep: "FindDungeon dm' i \<noteq> None" using res hh(1) d(1) by (auto simp: FindDungeon_def)
    have p: "map_option di_participants (FindDungeon dm' i) =
        (let left = filter (\<lambda>x. \<not> overdue now grace d x) (di_participants d)
         in if lifetime_expired now life d \<or> left = [] then None else Some left)"
      using conjunct1 [OF res, rule_format, of i] d(1) by (simp add: FindDungeon_def)
    then have "\<not> lifetime_expired now life d" "roster dm' i = Some (filter (\<lambda>x. \<not> overdue now grace d x) (di_participants d))"
      using keep by (auto simp: roster_def FindDungeon_def Let_def split: if_splits)
    moreover have "(i, x) \<in> set (sw_removedParticipants sw) \<longleftrightarrow> x \<in> h \<and> (lifetime_expired now life d \<or> overdue now grace d x)" for x
      using res d by (auto simp: FindDungeon_def)
    ultimately show ?thesis using d(2) hh(3) by auto
  qed
  moreover have "dm_inv cat dm'" using dm_inv_Sweep [OF inv(1), of now grace life] s(1) by simp
  ultimately show ?thesis using u2(1) by (auto simp: synced_def)
qed

lemma synced_drop:
  assumes "synced dm udm" "\<And>j. j \<noteq> i \<Longrightarrow> roster dm' j = roster dm j"
  shows "synced dm' (snd (Release i udm))"
  using assms by (auto simp: synced_def holders_Release split: if_splits)

lemma ls_Cancel_keeps:
  assumes "dm_inv cat dm" "udm_inv udm" "synced dm udm" "CancelWaitingDungeon i dm udm = (b, dm', udm')"
  shows "dm_inv cat dm' \<and> udm_inv udm' \<and> synced dm' udm'"
proof (cases b)
  case True
  with assms(4) have e: "dm' = snd (CancelDungeon i dm)" "udm' = snd (Release i udm)"
    by (auto simp: CancelWaitingDungeon_def split: prod.splits if_splits)
  have "roster dm' j = roster dm j" if "j \<noteq> i" for j
    using that by (auto simp: e CancelDungeon_def drop_dungeon_def roster_def umap_simps split: option.splits)
  with e assms(1-3) show ?thesis using dm_inv_Cancel udm_inv_Release synced_drop by blast
next
  case False
  then have "dm' = dm" "udm' = udm"
    using assms(4) by (auto simp: CancelWaitingDungeon_def CancelDungeon_def split: prod.splits if_splits option.splits)
  with assms show ?thesis by simp
qed

lemma ls_Finish_keeps:
  assumes "dm_inv cat dm" "udm_inv udm" "synced dm udm" "ls_FinishDungeon i dm udm = (b, dm', udm')"
  shows "dm_inv cat dm' \<and> udm_inv udm' \<and> synced dm' udm'"
proof -
  have e: "dm' = snd (FinishDungeon i dm)" "b \<longleftrightarrow> fst (FinishDungeon i dm)" "udm' = (if b then snd (Release i udm) else udm)"
    using assms(4) by (auto simp: ls_FinishDungeon_def split: prod.splits if_splits)
  have other: "roster dm' j = roster dm j" if "j \<noteq> i" for j
    using that by (auto simp: e FinishDungeon_def drop_dungeon_def roster_def umap_simps Let_def case_prod_beta
        split: option.splits)
  moreover have "roster dm' i = roster dm i" if "\<not> b"
    using that e(2) by (auto simp: e(1) FinishDungeon_def Finish_def roster_def umap_simps Let_def
        split: option.splits if_splits)
  ultimately have "\<not> b \<Longrightarrow> roster dm' = roster dm" by (metis ext)
  with e assms(1-3) other show ?thesis
    using dm_inv_Finish [OF assms(1)] udm_inv_Release [OF assms(2)] synced_drop [OF assms(3) other] synced_cong [OF assms(3)]
    by (cases b) simp_all
qed

text \<open>A dungeon that has been created gets its UDP session with \<open>Allocate\<close>, for its participants.\<close>

lemma synced_Create:
  assumes "dm_inv cat dm" "synced dm udm" "CreateDungeon parties catalog pid tid now dm = (r, dm')"
  shows "synced dm' udm"
proof -
  have "dm_dungeons dm' = dm_dungeons dm \<or> (\<exists>d. dm_dungeons dm' = um_emplace (dm_nextDungeonId dm) d (dm_dungeons dm))"
    using assms(3) by (auto simp: CreateDungeon_def Let_def split: if_splits option.splits sum.splits)
  moreover have "\<not> um_contains (dm_dungeons dm) (dm_nextDungeonId dm)"
    using dm_invD(5) [OF assms(1)] by (fastforce simp: um_contains_def)
  ultimately have "roster dm i = Some xs \<Longrightarrow> roster dm' i = Some xs" for i xs
    by (auto simp: roster_def umap_simps um_contains_def)
  with assms(2) show ?thesis by (fastforce simp: synced_def)
qed

lemma synced_Allocate:
  assumes "udm_inv udm" "synced dm udm" "roster dm i = Some xs" "Allocate rnd bound i xs udm = Some (r, udm')"
  shows "synced dm udm'"
  using assms(2,3) by (auto simp: synced_def holders_Allocate [OF assms(1,4)] split: if_splits)

end
