(* ===== verification/Tick_Service.thy ===== *)
theory Tick_Service
  imports Combat_Processor Lifecycle_Service Dungeon_Protocol
begin

text \<open>
  The server tick (\<open>src/include/DungeonTickService.h\<close>, \<open>src/src/DungeonTickService.cpp\<close>): thirty times a
  second it sweeps abandoned participants, starts or cancels waiting dungeons, advances the running ones
  and retires the finished ones.

  Time points are nanoseconds of the steady clock, unbounded integers; every reading of the clock in a
  tick is a field of \<open>TickClock\<close>. The timer is \<open>ts_timer\<close>, the expiry of the wait that is pending; setting a
  new expiry cancels a pending wait, so there is at most one. The lambdas that \<open>Start\<close> and \<open>Stop\<close> dispatch
  on the strand run later, as steps of their own. A tick is one step: calls of other threads that come in
  between its loops count as coming before or after it.

  The pumps that a broadcast dispatches on a UDP session's strand are collected in \<open>tw_pumps\<close>; what they do
  is the subject of \<open>Snapshot_Pump\<close>.
\<close>

definition DUNGEON_TICKS_PER_SECOND :: int where "DUNGEON_TICKS_PER_SECOND = 30"

definition MAX_DUNGEON_CATCH_UP_TICKS :: int where "MAX_DUNGEON_CATCH_UP_TICKS = 2"

text \<open>Whole microseconds, here in nanoseconds.\<close>

definition TICK_INTERVAL :: int where
  "TICK_INTERVAL = (1000000 div DUNGEON_TICKS_PER_SECOND) * 1000"

definition TICK_SECONDS :: float32 where
  "TICK_SECONDS = f32_div (f32_of_int 1) (f32_of_int DUNGEON_TICKS_PER_SECOND)"

definition FINISHED_BROADCAST_DURATION :: int where "FINISHED_BROADCAST_DURATION = 1000000000"

record DungeonTickStats =
  tks_processedTickCount :: u64
  tks_missedTickCount :: u64
  tks_lastLateness :: int
  tks_maxLateness :: int
  tks_lastProcessingTime :: int
  tks_maxProcessingTime :: int

record TickConfig =
  tc_readyTimeout :: int
  tc_udpIdleTimeout :: int
  tc_reconnectGrace :: int
  tc_maxDungeonLifetime :: int

record DungeonTickService =
  ts_pendingHits :: pending_hits
  ts_waitingSince :: "(DungeonId, int) umap"
  ts_finishedSince :: "(DungeonId, int) umap"
  ts_nextTick :: int
  ts_timer :: "int option"
  ts_running :: bool
  ts_stats :: DungeonTickStats

record TickClock =
  ck_processingStartedAt :: int
  ck_now :: int
  ck_refresh :: "DungeonId \<Rightarrow> int"
  ck_idle :: "DungeonId \<Rightarrow> int"
  ck_processed :: int
  ck_deadline :: int

record TickWorld =
  tw_service :: DungeonTickService
  tw_dm :: DungeonManager
  tw_udm :: DungeonUdpManager
  tw_pumps :: "DungeonId list"

text \<open>The exceptions, and the undefined conversion of the combat step.\<close>

datatype tick_error = TickInstanceError instance_error | TickDamageUndefined | TickSnapshotOutOfRange
  | DungeonTimeoutsMustBePositive

text \<open>The error code of the timer's completion handler.\<close>

datatype wait_result = Expired | WaitAborted | WaitFailed

section \<open>Construction, starting and stopping\<close>

definition make_TickService :: "TickConfig \<Rightarrow> tick_error + DungeonTickService" where
  "make_TickService cfg =
     (if tc_readyTimeout cfg \<le> 0 \<or> tc_udpIdleTimeout cfg \<le> 0 \<or> tc_reconnectGrace cfg \<le> 0 \<or>
         tc_maxDungeonLifetime cfg \<le> 0
      then Inl DungeonTimeoutsMustBePositive
      else Inr \<lparr>ts_pendingHits = [], ts_waitingSince = [], ts_finishedSince = [], ts_nextTick = 0,
                ts_timer = None, ts_running = False,
                ts_stats = \<lparr>tks_processedTickCount = 0, tks_missedTickCount = 0, tks_lastLateness = 0,
                  tks_maxLateness = 0, tks_lastProcessingTime = 0, tks_maxProcessingTime = 0\<rparr>\<rparr>)"

definition ScheduleNextTick :: "DungeonTickService \<Rightarrow> DungeonTickService" where
  "ScheduleNextTick s = (if \<not> ts_running s then s else s\<lparr>ts_timer := Some (ts_nextTick s)\<rparr>)"

text \<open>The flag tells whether the lambda is dispatched.\<close>

definition tick_Start :: "DungeonTickService \<Rightarrow> bool \<times> DungeonTickService" where
  "tick_Start s = (if ts_running s then (False, s) else (True, s\<lparr>ts_running := True\<rparr>))"

definition tick_Start_dispatched :: "int \<Rightarrow> DungeonTickService \<Rightarrow> DungeonTickService" where
  "tick_Start_dispatched now s =
     (if \<not> ts_running s then s else ScheduleNextTick (s\<lparr>ts_nextTick := now + TICK_INTERVAL\<rparr>))"

definition tick_Stop :: "DungeonTickService \<Rightarrow> bool \<times> DungeonTickService" where
  "tick_Stop s = (if \<not> ts_running s then (False, s) else (True, s\<lparr>ts_running := False\<rparr>))"

definition tick_Stop_dispatched :: "DungeonTickService \<Rightarrow> DungeonTickService" where
  "tick_Stop_dispatched s = s\<lparr>ts_timer := None, ts_waitingSince := [], ts_finishedSince := []\<rparr>"

definition TickCount :: "DungeonTickService \<Rightarrow> u64" where
  "TickCount s = tks_processedTickCount (ts_stats s)"

definition AdvanceDeadline :: "int \<Rightarrow> DungeonTickService \<Rightarrow> DungeonTickService" where
  "AdvanceDeadline now s =
     (let nextTick = ts_nextTick s + TICK_INTERVAL;
          s = s\<lparr>ts_nextTick := nextTick\<rparr>
      in if now < nextTick then s
         else
           let overdueTickCount = (now - nextTick) div TICK_INTERVAL + 1 in
           if overdueTickCount \<le> MAX_DUNGEON_CATCH_UP_TICKS then s
           else
             let skippedTickCount = overdueTickCount - MAX_DUNGEON_CATCH_UP_TICKS in
             s\<lparr>ts_nextTick := nextTick + TICK_INTERVAL * skippedTickCount,
               ts_stats := (ts_stats s)\<lparr>tks_missedTickCount :=
                 tks_missedTickCount (ts_stats s) + of_int skippedTickCount\<rparr>\<rparr>)"

section \<open>The loops of a tick\<close>

text \<open>A \<open>for\<close> loop whose body may throw.\<close>

fun for_each :: "('a \<Rightarrow> 's \<Rightarrow> 'e + 's) \<Rightarrow> 'a list \<Rightarrow> 's \<Rightarrow> 'e + 's" where
  "for_each f [] s = Inr s"
| "for_each f (x # xs) s = (case f x s of Inl e \<Rightarrow> Inl e | Inr s' \<Rightarrow> for_each f xs s')"

definition sweep_abandoned :: "TickConfig \<Rightarrow> TickClock \<Rightarrow> TickWorld \<Rightarrow> TickWorld" where
  "sweep_abandoned cfg clk w =
     (let (abandonmentSweep, dm, udm) = ls_SweepAbandonedParticipants (ck_now clk) (tc_reconnectGrace cfg)
            (tc_maxDungeonLifetime cfg) (tw_dm w) (tw_udm w);
          s = fold (\<lambda>i s. s\<lparr>ts_waitingSince := um_erase i (ts_waitingSince s),
                             ts_finishedSince := um_erase i (ts_finishedSince s)\<rparr>)
                (sw_releasedDungeons abandonmentSweep) (tw_service w)
      in w\<lparr>tw_service := s, tw_dm := dm, tw_udm := udm\<rparr>)"

definition forget_waiting :: "DungeonId \<Rightarrow> TickWorld \<Rightarrow> TickWorld" where
  "forget_waiting i w =
     w\<lparr>tw_service := (tw_service w)\<lparr>ts_waitingSince := um_erase i (ts_waitingSince (tw_service w))\<rparr>\<rparr>"

definition tick_waiting ::
    "EnemyCatalog \<Rightarrow> TickConfig \<Rightarrow> TickClock \<Rightarrow> DungeonId \<Rightarrow> TickWorld \<Rightarrow> tick_error + TickWorld" where
  "tick_waiting cat cfg clk dungeonId w =
     (if (case FindDungeon (tw_dm w) dungeonId of None \<Rightarrow> False | Some d \<Rightarrow> HasDisconnectedParticipants d)
      then Inr (forget_waiting dungeonId w)
      else if AllParticipantsAuthenticated (tw_udm w) dungeonId
      then (case StartDungeon cat dungeonId (tw_dm w) of
              Inl e \<Rightarrow> Inl (TickInstanceError e)
            | Inr (started, dm) \<Rightarrow>
                Inr (forget_waiting dungeonId (w\<lparr>tw_dm := dm,
                  tw_udm := (if started then RefreshAllActivity (ck_refresh clk dungeonId) dungeonId (tw_udm w)
                             else tw_udm w)\<rparr>)))
      else
        let s = tw_service w in
        case map_of (ts_waitingSince s) dungeonId of
          None \<Rightarrow>
            Inr (w\<lparr>tw_service := s\<lparr>ts_waitingSince :=
              um_emplace dungeonId (ck_now clk) (ts_waitingSince s)\<rparr>\<rparr>)
        | Some since \<Rightarrow>
            if ms (tc_readyTimeout cfg) \<le> ck_now clk - since
            then
              let (_, dm, udm) = CancelWaitingDungeon dungeonId (tw_dm w) (tw_udm w)
              in Inr (forget_waiting dungeonId (w\<lparr>tw_dm := dm, tw_udm := udm\<rparr>))
            else Inr w)"

definition forget_stale_waiting :: "DungeonId list \<Rightarrow> TickWorld \<Rightarrow> TickWorld" where
  "forget_stale_waiting waitingDungeonSet w =
     w\<lparr>tw_service := (tw_service w)\<lparr>ts_waitingSince :=
         filter (\<lambda>e. List.member waitingDungeonSet (fst e)) (ts_waitingSince (tw_service w))\<rparr>\<rparr>"

definition broadcast ::
    "serializer \<Rightarrow> u64 \<Rightarrow> DungeonId \<Rightarrow> DungeonInstance \<Rightarrow> TickWorld \<Rightarrow> tick_error + TickWorld" where
  "broadcast serialize tickCount dungeonId dungeon w =
     (case EncodeDungeonSnapshot serialize dungeon (ucast tickCount) of
        None \<Rightarrow> Inl TickSnapshotOutOfRange
      | Some bytes \<Rightarrow>
          let ((_, dispatched), udm) = BroadcastSnapshot dungeonId bytes (tw_udm w)
          in Inr (w\<lparr>tw_udm := udm, tw_pumps := (if dispatched then tw_pumps w @ [dungeonId] else tw_pumps w)\<rparr>))"

definition finished_at :: "DungeonId \<Rightarrow> int \<Rightarrow> TickWorld \<Rightarrow> TickWorld" where
  "finished_at i now w =
     w\<lparr>tw_service := (tw_service w)\<lparr>ts_finishedSince := um_emplace i now (ts_finishedSince (tw_service w))\<rparr>\<rparr>"

definition forget_finished :: "DungeonId \<Rightarrow> TickWorld \<Rightarrow> TickWorld" where
  "forget_finished i w =
     w\<lparr>tw_service := (tw_service w)\<lparr>ts_finishedSince := um_erase i (ts_finishedSince (tw_service w))\<rparr>\<rparr>"

text \<open>The end of the loop body for a running dungeon, after movement and combat.\<close>

definition settle_running ::
    "EnemyCatalog \<Rightarrow> serializer \<Rightarrow> TickClock \<Rightarrow> u64 \<Rightarrow> DungeonId \<Rightarrow> TickWorld \<Rightarrow> tick_error + TickWorld" where
  "settle_running cat serialize clk tickCount dungeonId w =
     (case FindDungeon (tw_dm w) dungeonId of
        None \<Rightarrow> Inr w
      | Some dungeon \<Rightarrow>
          (case AdvanceRoomWaves cat dungeon of
             Inl e \<Rightarrow> Inl (TickInstanceError e)
           | Inr (_, dungeon) \<Rightarrow>
               let (_, dungeon) = TryFinishIfCleared dungeon;
                   w = w\<lparr>tw_dm := (tw_dm w)\<lparr>dm_dungeons :=
                         um_modify dungeonId (\<lambda>_. dungeon) (dm_dungeons (tw_dm w))\<rparr>\<rparr>
               in if di_state dungeon = Finished then Inr (finished_at dungeonId (ck_now clk) w)
                  else broadcast serialize tickCount dungeonId dungeon w))"

definition tick_running ::
    "EnemyCatalog \<Rightarrow> SkillCatalog \<Rightarrow> serializer \<Rightarrow> TickConfig \<Rightarrow> TickClock \<Rightarrow> u64 \<Rightarrow> DungeonId \<Rightarrow> TickWorld \<Rightarrow>
     tick_error + TickWorld" where
  "tick_running cat skills serialize cfg clk tickCount dungeonId w =
     (let udm = snd (RemoveInactiveEndpoints (ck_idle clk dungeonId) (tc_udpIdleTimeout cfg) dungeonId (tw_udm w))
      in case mp_Process cat dungeonId TICK_SECONDS (tw_dm w) udm of
           Inl e \<Rightarrow> Inl (TickInstanceError e)
         | Inr (_, dm, udm) \<Rightarrow>
             (case cp_Process skills dungeonId dm udm (ts_pendingHits (tw_service w)) of
                None \<Rightarrow> Inl TickDamageUndefined
              | Some (_, dm, udm, hits) \<Rightarrow>
                  settle_running cat serialize clk tickCount dungeonId
                    (w\<lparr>tw_service := (tw_service w)\<lparr>ts_pendingHits := hits\<rparr>, tw_dm := dm, tw_udm := udm\<rparr>)))"

definition tick_finished ::
    "serializer \<Rightarrow> TickClock \<Rightarrow> u64 \<Rightarrow> DungeonId \<Rightarrow> TickWorld \<Rightarrow> tick_error + TickWorld" where
  "tick_finished serialize clk tickCount dungeonId w =
     (case FindDungeon (tw_dm w) dungeonId of
        None \<Rightarrow> Inr (forget_finished dungeonId w)
      | Some dungeon \<Rightarrow>
          (case broadcast serialize tickCount dungeonId dungeon (finished_at dungeonId (ck_now clk) w) of
             Inl e \<Rightarrow> Inl e
           | Inr w \<Rightarrow>
               if FINISHED_BROADCAST_DURATION \<le>
                    ck_now clk - the (map_of (ts_finishedSince (tw_service w)) dungeonId)
               then
                 let (_, dm, udm) = ls_FinishDungeon dungeonId (tw_dm w) (tw_udm w)
                 in Inr (forget_finished dungeonId (w\<lparr>tw_dm := dm, tw_udm := udm\<rparr>))
               else Inr w))"

text \<open>The handler: statistics, the loops, the next deadline.\<close>

definition begin_tick :: "TickClock \<Rightarrow> DungeonTickService \<Rightarrow> DungeonTickService" where
  "begin_tick clk s =
     (let lateness = (if ts_nextTick s < ck_processingStartedAt clk
                      then ck_processingStartedAt clk - ts_nextTick s else 0);
          st = ts_stats s
      in s\<lparr>ts_stats := st\<lparr>tks_processedTickCount := tks_processedTickCount st + 1,
             tks_lastLateness := lateness, tks_maxLateness := max (tks_maxLateness st) lateness\<rparr>\<rparr>)"

definition end_tick :: "TickClock \<Rightarrow> DungeonTickService \<Rightarrow> DungeonTickService" where
  "end_tick clk s =
     (let processingTime = ck_processed clk - ck_processingStartedAt clk;
          st = ts_stats s
      in ScheduleNextTick (AdvanceDeadline (ck_deadline clk)
           (s\<lparr>ts_stats := st\<lparr>tks_lastProcessingTime := processingTime,
                tks_maxProcessingTime := max (tks_maxProcessingTime st) processingTime\<rparr>\<rparr>)))"

definition run_tick ::
    "EnemyCatalog \<Rightarrow> SkillCatalog \<Rightarrow> serializer \<Rightarrow> TickConfig \<Rightarrow> TickClock \<Rightarrow> TickWorld \<Rightarrow> tick_error + TickWorld" where
  "run_tick cat skills serialize cfg clk w =
     (let s = begin_tick clk (tw_service w);
          tickCount = tks_processedTickCount (ts_stats s);
          w = sweep_abandoned cfg clk
                (w\<lparr>tw_service := s, tw_udm := SetServerTick (ucast tickCount) (tw_udm w)\<rparr>);
          waitingDungeonIds = WaitingDungeonIds (tw_dm w)
      in case for_each (tick_waiting cat cfg clk) waitingDungeonIds w of
           Inl e \<Rightarrow> Inl e
         | Inr w \<Rightarrow>
             let w = forget_stale_waiting waitingDungeonIds w in
             case for_each (tick_running cat skills serialize cfg clk tickCount)
                    (RunningDungeonIds (tw_dm w)) w of
               Inl e \<Rightarrow> Inl e
             | Inr w \<Rightarrow>
                 (case for_each (tick_finished serialize clk tickCount) (FinishedDungeonIds (tw_dm w)) w of
                    Inl e \<Rightarrow> Inl e
                  | Inr w \<Rightarrow> Inr (w\<lparr>tw_service := end_tick clk (tw_service w)\<rparr>)))"

text \<open>The handler is called when the pending wait completes. The flag tells whether \<open>Stop\<close> dispatched its lambda.\<close>

definition HandleTick ::
    "EnemyCatalog \<Rightarrow> SkillCatalog \<Rightarrow> serializer \<Rightarrow> TickConfig \<Rightarrow> TickClock \<Rightarrow> wait_result \<Rightarrow> TickWorld \<Rightarrow>
     tick_error + bool \<times> TickWorld" where
  "HandleTick cat skills serialize cfg clk error w =
     (if \<not> ts_running (tw_service w) \<or> error = WaitAborted then Inr (False, w)
      else if error = WaitFailed
      then let (dispatched, s) = tick_Stop (tw_service w) in Inr (dispatched, w\<lparr>tw_service := s\<rparr>)
      else map_sum id (Pair False) (run_tick cat skills serialize cfg clk w))"

section \<open>The next deadline\<close>

lemma TICK_INTERVAL_value: "TICK_INTERVAL = 33333000"
  by (simp add: TICK_INTERVAL_def DUNGEON_TICKS_PER_SECOND_def)

lemma AdvanceDeadline_cases:
  obtains "now - ts_nextTick s < 3 * TICK_INTERVAL"
      "AdvanceDeadline now s = s\<lparr>ts_nextTick := ts_nextTick s + TICK_INTERVAL\<rparr>"
  | k where "0 < k" "k = (now - ts_nextTick s) div TICK_INTERVAL - 2"
      "AdvanceDeadline now s = s\<lparr>ts_nextTick := ts_nextTick s + (1 + k) * TICK_INTERVAL,
         ts_stats := (ts_stats s)\<lparr>tks_missedTickCount := tks_missedTickCount (ts_stats s) + of_int k\<rparr>\<rparr>"
proof -
  define t where "t = now - ts_nextTick s"
  have d: "(now - (ts_nextTick s + TICK_INTERVAL)) div TICK_INTERVAL = t div TICK_INTERVAL - 1"
    using div_add_self2 [of TICK_INTERVAL "t - TICK_INTERVAL"]
    by (simp add: t_def TICK_INTERVAL_value algebra_simps)
  show ?thesis
  proof (cases "t div TICK_INTERVAL \<le> 2")
    case True
    then have "t < 3 * TICK_INTERVAL" by (simp add: TICK_INTERVAL_value)
    moreover have "AdvanceDeadline now s = s\<lparr>ts_nextTick := ts_nextTick s + TICK_INTERVAL\<rparr>"
      using True d by (simp add: AdvanceDeadline_def Let_def MAX_DUNGEON_CATCH_UP_TICKS_def)
    ultimately show ?thesis using that(1) by (simp add: t_def)
  next
    case False
    then have "ts_nextTick s + TICK_INTERVAL \<le> now" by (simp add: t_def TICK_INTERVAL_value)
    then have "AdvanceDeadline now s = s\<lparr>ts_nextTick := ts_nextTick s + (1 + (t div TICK_INTERVAL - 2)) * TICK_INTERVAL,
         ts_stats := (ts_stats s)\<lparr>tks_missedTickCount := tks_missedTickCount (ts_stats s) + of_int (t div TICK_INTERVAL - 2)\<rparr>\<rparr>"
      using False d by (simp add: AdvanceDeadline_def Let_def MAX_DUNGEON_CATCH_UP_TICKS_def algebra_simps)
    then show ?thesis using that(2) [of "t div TICK_INTERVAL - 2"] False by (simp add: t_def)
  qed
qed

section \<open>Loops\<close>

text \<open>A loop does not throw when its body keeps a condition on the elements that are left.\<close>

lemma for_each_total:
  assumes "P xs s" "\<And>x xs s. P (x # xs) s \<Longrightarrow> \<exists>s'. f x s = Inr s' \<and> P xs s'"
  shows "\<exists>s'. for_each f xs s = Inr s' \<and> P [] s'"
  using assms(1)
proof (induction xs arbitrary: s)
  case (Cons x xs)
  from assms(2) [OF Cons.prems] obtain s' where "f x s = Inr s'" "P xs s'" by blast
  with Cons.IH [of s'] show ?case by simp
qed simp

section \<open>The state of the dungeons\<close>

definition dungeon_state :: "DungeonManager \<Rightarrow> DungeonId \<Rightarrow> DungeonState option" where
  "dungeon_state dm i = map_option di_state (map_of (dm_dungeons dm) i)"

lemma dungeon_ids:
  assumes "um_ok (dm_dungeons dm)"
  shows "distinct (dungeon_ids_in st dm)" "i \<in> set (dungeon_ids_in st dm) \<longleftrightarrow> dungeon_state dm i = Some st"
proof -
  show "distinct (dungeon_ids_in st dm)"
    using assms by (simp add: dungeon_ids_in_def um_ok_def distinct_map_filter)
  have "i \<in> set (dungeon_ids_in st dm) \<longleftrightarrow> (\<exists>d. (i, d) \<in> set (dm_dungeons dm) \<and> di_state d = st)"
    by (force simp: dungeon_ids_in_def)
  also have "\<dots> \<longleftrightarrow> dungeon_state dm i = Some st"
    by (auto simp: dungeon_state_def um_find_iff_set [OF assms, symmetric])
  finally show "i \<in> set (dungeon_ids_in st dm) \<longleftrightarrow> dungeon_state dm i = Some st" .
qed

lemma remove_participant_state [simp]: "di_state (remove_participant x d) = di_state d"
  by (auto simp: remove_participant_def Let_def split: option.splits)

lemma remove_expired_state [simp]: "di_state (snd (remove_expired now g m d)) = di_state d"
  by (induction now g m d rule: remove_expired.induct) (auto split: prod.splits)

lemma sweep_one_state [simp]: "di_state (snd (sweep_one now g l d)) = di_state d"
  by (auto simp: sweep_one_def RemoveAllParticipants_def RemoveExpiredDisconnectedParticipants_def)

lemma dungeon_state_Sweep:
  assumes "um_ok (dm_dungeons dm)" "0 < g" "0 < l" "SweepAbandonedParticipants now g l dm = (sw, dm')"
  shows "dungeon_state dm' i = (if i \<in> set (sw_releasedDungeons sw) then None else dungeon_state dm i)"
proof -
  have eq: "dm_dungeons dm' = map (\<lambda>e. (fst e, snd (sweep_one now g l (snd e))))
      (filter (\<lambda>e. survives now g l (snd e)) (dm_dungeons dm))"
    "sw_releasedDungeons sw = map fst (filter (\<lambda>e. \<not> survives now g l (snd e)) (dm_dungeons dm))"
    using assms(2-) by (auto simp: SweepAbandonedParticipants_def sweep_dungeons_eq)
  have "i \<in> set (sw_releasedDungeons sw) \<longleftrightarrow> (\<exists>d. map_of (dm_dungeons dm) i = Some d \<and> \<not> survives now g l d)"
    unfolding eq(2) um_find_iff_set [OF assms(1)] by force
  then show ?thesis
    by (auto simp: dungeon_state_def eq(1) map_of_sweep [OF assms(1), of "\<lambda>d. snd (sweep_one now g l d)"]
        split: option.splits)
qed

lemma dungeon_state_Start:
  assumes "StartDungeon cat i dm = Inr (b, dm')" "j \<noteq> i"
  shows "dungeon_state dm' j = dungeon_state dm j"
  using assms by (auto simp: StartDungeon_def dungeon_state_def umap_simps split: option.splits sum.splits)

lemma dungeon_state_Cancel:
  assumes "CancelWaitingDungeon i dm udm = (b, dm', udm')" "j \<noteq> i"
  shows "dungeon_state dm' j = dungeon_state dm j"
  using assms by (auto simp: CancelWaitingDungeon_def CancelDungeon_def drop_dungeon_def dungeon_state_def umap_simps
      split: option.splits if_splits prod.splits)

lemma dungeon_state_Finish:
  assumes "ls_FinishDungeon i dm udm = (b, dm', udm')" "j \<noteq> i"
  shows "dungeon_state dm' j = dungeon_state dm j"
proof -
  have "dm' = snd (FinishDungeon i dm)" using assms(1) by (auto simp: ls_FinishDungeon_def split: prod.splits if_splits)
  with assms(2) show ?thesis
    by (auto simp: FinishDungeon_def drop_dungeon_def dungeon_state_def umap_simps Let_def case_prod_beta
        split: option.splits)
qed

lemma dungeon_state_mp:
  assumes "mp_Process cat i dt dm udm = Inr (r, dm', udm')" "j \<noteq> i"
  shows "dungeon_state dm' j = dungeon_state dm j"
  using assms by (auto simp: mp_Process_def dungeon_state_def umap_simps Let_def
      split: option.splits if_splits prod.splits sum.splits)

lemma dungeon_state_cp:
  assumes "cp_Process skills i dm udm hits = Some (r, dm', udm', hits')" "j \<noteq> i"
  shows "dungeon_state dm' j = dungeon_state dm j"
  using assms by (auto simp: cp_Process_def dungeon_state_def umap_simps Let_def
      split: option.splits if_splits prod.splits)

section \<open>What a tick keeps\<close>

definition config_ok :: "TickConfig \<Rightarrow> bool" where
  "config_ok cfg \<longleftrightarrow> 0 < tc_readyTimeout cfg \<and> 0 < tc_udpIdleTimeout cfg \<and> 0 < tc_reconnectGrace cfg \<and>
     0 < tc_maxDungeonLifetime cfg"

text \<open>Both managers are consistent and in step, and the damage of every hit that is pending is defined.\<close>

definition world_ok :: "EnemyCatalog \<Rightarrow> TickWorld \<Rightarrow> bool" where
  "world_ok cat w \<longleftrightarrow> dm_inv cat (tw_dm w) \<and> udm_inv (tw_udm w) \<and> synced (tw_dm w) (tw_udm w) \<and>
     hits_defined (ts_pendingHits (tw_service w))"

text \<open>The service remembers times for dungeons that wait or have finished, and for no others.\<close>

definition times_ok :: "TickWorld \<Rightarrow> bool" where
  "times_ok w \<longleftrightarrow>
     (\<forall>i. um_contains (ts_waitingSince (tw_service w)) i \<longrightarrow> dungeon_state (tw_dm w) i = Some Waiting) \<and>
     (\<forall>i. um_contains (ts_finishedSince (tw_service w)) i \<longrightarrow> dungeon_state (tw_dm w) i = Some Finished)"

definition tick_ok :: "EnemyCatalog \<Rightarrow> DungeonState \<Rightarrow> DungeonId list \<Rightarrow> TickWorld \<Rightarrow> bool" where
  "tick_ok cat st xs w \<longleftrightarrow> world_ok cat w \<and> times_ok w \<and> distinct xs \<and>
     (\<forall>i \<in> set xs. dungeon_state (tw_dm w) i = Some st)"

text \<open>One iteration over dungeon \<open>i\<close>: the others are left alone.\<close>

lemma tick_okI:
  assumes w: "tick_ok cat st (i # xs) w"
    and ok: "world_ok cat w'"
    and frame: "\<And>j. j \<noteq> i \<Longrightarrow> dungeon_state (tw_dm w') j = dungeon_state (tw_dm w) j"
    and others: "\<And>j. j \<noteq> i \<Longrightarrow> um_contains (ts_waitingSince (tw_service w')) j \<Longrightarrow> um_contains (ts_waitingSince (tw_service w)) j"
      "\<And>j. j \<noteq> i \<Longrightarrow> um_contains (ts_finishedSince (tw_service w')) j \<Longrightarrow> um_contains (ts_finishedSince (tw_service w)) j"
    and own: "um_contains (ts_waitingSince (tw_service w')) i \<Longrightarrow> dungeon_state (tw_dm w') i = Some Waiting"
      "um_contains (ts_finishedSince (tw_service w')) i \<Longrightarrow> dungeon_state (tw_dm w') i = Some Finished"
  shows "tick_ok cat st xs w'"
proof -
  have t: "times_ok w" and xs: "i \<notin> set xs" "distinct xs" "\<forall>j \<in> set xs. dungeon_state (tw_dm w) j = Some st"
    using w by (auto simp: tick_ok_def)
  have "times_ok w'"
    unfolding times_ok_def
  proof (intro conjI allI impI)
    show "dungeon_state (tw_dm w') j = Some Waiting" if "um_contains (ts_waitingSince (tw_service w')) j" for j
      using that t frame [of j] others(1) [of j] own(1) by (cases "j = i") (auto simp: times_ok_def)
    show "dungeon_state (tw_dm w') j = Some Finished" if "um_contains (ts_finishedSince (tw_service w')) j" for j
      using that t frame [of j] others(2) [of j] own(2) by (cases "j = i") (auto simp: times_ok_def)
  qed
  moreover have "\<forall>j \<in> set xs. dungeon_state (tw_dm w') j = Some st" using xs frame by metis
  ultimately show ?thesis using ok xs by (simp add: tick_ok_def)
qed

lemma tick_okD:
  assumes "tick_ok cat st (i # xs) w"
  shows "dm_inv cat (tw_dm w)" "udm_inv (tw_udm w)" "synced (tw_dm w) (tw_udm w)"
    "hits_defined (ts_pendingHits (tw_service w))" "dungeon_state (tw_dm w) i = Some st" "times_ok w"
    "st \<noteq> Waiting \<Longrightarrow> \<not> um_contains (ts_waitingSince (tw_service w)) i"
    "st \<noteq> Finished \<Longrightarrow> \<not> um_contains (ts_finishedSince (tw_service w)) i"
  using assms by (auto simp: tick_ok_def world_ok_def times_ok_def)

lemma sweep_abandoned_ok:
  assumes cfg: "config_ok cfg" and w: "world_ok cat w" "times_ok w"
  shows "world_ok cat (sweep_abandoned cfg clk w) \<and> times_ok (sweep_abandoned cfg clk w)"
proof -
  obtain sw dm udm where s: "ls_SweepAbandonedParticipants (ck_now clk) (tc_reconnectGrace cfg)
      (tc_maxDungeonLifetime cfg) (tw_dm w) (tw_udm w) = (sw, dm, udm)" by (metis prod.exhaust)
  have erase: "fold (\<lambda>i s. s\<lparr>ts_waitingSince := um_erase i (ts_waitingSince s),
        ts_finishedSince := um_erase i (ts_finishedSince s)\<rparr>) xs t =
      t\<lparr>ts_waitingSince := fold um_erase xs (ts_waitingSince t),
        ts_finishedSince := fold um_erase xs (ts_finishedSince t)\<rparr>" for xs and t :: DungeonTickService
    by (induction xs arbitrary: t) auto
  have left: "um_contains (fold um_erase xs m) i \<longleftrightarrow> i \<notin> set xs \<and> um_contains m i"
    for xs i and m :: "(DungeonId, int) umap" by (induction xs arbitrary: m) (auto simp: umap_simps)
  have pos: "0 < tc_reconnectGrace cfg" "0 < tc_maxDungeonLifetime cfg" using cfg by (auto simp: config_ok_def)
  have "dm_inv cat dm \<and> udm_inv udm \<and> synced dm udm"
    using ls_Sweep_keeps [OF _ _ _ pos s] w(1) by (auto simp: world_ok_def)
  moreover have "SweepAbandonedParticipants (ck_now clk) (tc_reconnectGrace cfg) (tc_maxDungeonLifetime cfg) (tw_dm w) = (sw, dm)"
    using s by (auto simp: ls_SweepAbandonedParticipants_def Let_def split: prod.splits)
  then have "dungeon_state dm i = (if i \<in> set (sw_releasedDungeons sw) then None else dungeon_state (tw_dm w) i)" for i
    using dungeon_state_Sweep [OF _ pos] w(1) dm_invD(1) by (fastforce simp: world_ok_def)
  ultimately show ?thesis
    using w by (auto simp: sweep_abandoned_def s world_ok_def times_ok_def erase left)
qed

lemma forget_waiting_ok:
  assumes w: "tick_ok cat Waiting (i # xs) w" and inv: "dm_inv cat dm" "udm_inv udm" "synced dm udm"
    and frame: "\<And>j. j \<noteq> i \<Longrightarrow> dungeon_state dm j = dungeon_state (tw_dm w) j"
  shows "tick_ok cat Waiting xs (forget_waiting i (w\<lparr>tw_dm := dm, tw_udm := udm\<rparr>))"
  using tick_okD(8) [OF w]
  by (intro tick_okI [OF w])
     (use inv frame tick_okD(4) [OF w] in \<open>auto simp: forget_waiting_def world_ok_def umap_simps\<close>)

lemma roster_Start:
  assumes "dm_inv cat dm" "enemies_ok cat" "StartDungeon cat i dm = Inr (b, dm')"
  shows "roster dm' = roster dm"
proof (cases "map_of (dm_dungeons dm) i")
  case (Some d)
  with assms(3) obtain d' where d: "Start cat d = Inr (b, d')"
    "dm' = dm\<lparr>dm_dungeons := um_modify i (\<lambda>_. d') (dm_dungeons dm)\<rparr>"
    by (auto simp: StartDungeon_def split: sum.splits)
  have "stage_inv cat d" using dm_invD(3) [OF assms(1) Some] by (simp add: hosted_def)
  then have "di_participants d' = di_participants d"
    using game_step_keeps [OF game_step.start [OF d(1)]] assms(2) by blast
  with roster_modify_same [OF Some] d(2) show ?thesis by blast
qed (use assms(3) in \<open>simp add: StartDungeon_def\<close>)

lemma tick_waiting_ok:
  assumes cat: "enemies_ok cat" and w: "tick_ok cat Waiting (i # xs) w"
  shows "\<exists>w'. tick_waiting cat cfg clk i w = Inr w' \<and> tick_ok cat Waiting xs w'"
proof -
  note wi = tick_okD(1-3) [OF w]
  let ?gone = "case FindDungeon (tw_dm w) i of None \<Rightarrow> False | Some d \<Rightarrow> HasDisconnectedParticipants d"
  consider (disconnected) ?gone
    | (start) "\<not> ?gone" "AllParticipantsAuthenticated (tw_udm w) i"
    | (wait) "\<not> ?gone" "\<not> AllParticipantsAuthenticated (tw_udm w) i" by blast
  then show ?thesis
  proof cases
    case disconnected
    then show ?thesis using forget_waiting_ok [OF w wi] by (simp add: tick_waiting_def)
  next
    case start
    obtain b dm where s: "StartDungeon cat i (tw_dm w) = Inr (b, dm)" "dm_inv cat dm"
      using dm_inv_StartDungeon [OF wi(1) cat, of i] by blast
    define udm where "udm = (if b then RefreshAllActivity (ck_refresh clk i) i (tw_udm w) else tw_udm w)"
    have u: "udm_inv udm" "holders udm = holders (tw_udm w)" using wi(2) udm_inv_ops(3) by (auto simp: udm_def)
    have "synced dm udm" by (rule synced_cong [OF wi(3) roster_Start [OF wi(1) cat s(1)] u(2)])
    from forget_waiting_ok [OF w s(2) u(1) this dungeon_state_Start [OF s(1)]] show ?thesis
      using start s(1) by (simp add: tick_waiting_def udm_def del: not_None_eq)
  next
    case wait
    obtain b dm udm where ca: "CancelWaitingDungeon i (tw_dm w) (tw_udm w) = (b, dm, udm)" by (metis prod.exhaust)
    have c: "dm_inv cat dm" "udm_inv udm" "synced dm udm" using ls_Cancel_keeps [OF wi ca] by auto
    have "tick_ok cat Waiting xs (w\<lparr>tw_service := (tw_service w)\<lparr>ts_waitingSince :=
        um_emplace i (ck_now clk) (ts_waitingSince (tw_service w))\<rparr>\<rparr>)"
      using tick_okD(5,8) [OF w] by (intro tick_okI [OF w]) (use w in \<open>auto simp: tick_ok_def world_ok_def umap_simps\<close>)
    moreover have "tick_ok cat Waiting xs w" using w by (auto simp: tick_ok_def)
    ultimately show ?thesis
      using wait forget_waiting_ok [OF w c dungeon_state_Cancel [OF ca]]
      by (auto simp: tick_waiting_def ca Let_def split: option.splits)
  qed
qed

lemma broadcast_ok:
  assumes "world_ok cat w" "roster_inv d"
  shows "\<exists>udm ps. broadcast serialize n i d w = Inr (w\<lparr>tw_udm := udm, tw_pumps := ps\<rparr>) \<and>
    udm_inv udm \<and> holders udm = holders (tw_udm w) \<and> world_ok cat (w\<lparr>tw_udm := udm, tw_pumps := ps\<rparr>)"
proof -
  obtain bs where bs: "EncodeDungeonSnapshot serialize d (ucast n) = Some bs"
    using EncodeDungeonSnapshot_total [OF assms(2)] by blast
  obtain b c udm where u: "BroadcastSnapshot i bs (tw_udm w) = ((b, c), udm)" by (metis prod.exhaust)
  have "udm_inv udm" "holders udm = holders (tw_udm w)"
    using udm_inv_ops(5) [of "tw_udm w" i bs] holders_ops(5) [of i bs "tw_udm w"] assms(1) u
    by (auto simp: world_ok_def simp del: holders_ops)
  moreover have "world_ok cat (w\<lparr>tw_udm := udm, tw_pumps := ps\<rparr>)" for ps
    using assms(1) calculation by (auto simp: world_ok_def intro: synced_cong)
  ultimately show ?thesis
    by (intro exI [of _ udm] exI [of _ "if c then tw_pumps w @ [i] else tw_pumps w"]) (simp add: broadcast_def bs u)
qed

lemma settle_running_ok:
  assumes cat: "enemies_ok cat" and w: "tick_ok cat Running (i # xs) w"
    and w': "world_ok cat w'" "\<And>j. j \<noteq> i \<Longrightarrow> dungeon_state (tw_dm w') j = dungeon_state (tw_dm w) j"
    and s: "ts_waitingSince (tw_service w') = ts_waitingSince (tw_service w)"
      "ts_finishedSince (tw_service w') = ts_finishedSince (tw_service w)"
  shows "\<exists>w''. settle_running cat serialize clk n i w' = Inr w'' \<and> tick_ok cat Running xs w''"
proof (cases "map_of (dm_dungeons (tw_dm w')) i")
  case None
  have "tick_ok cat Running xs w'"
    using tick_okD(7,8) [OF w] by (intro tick_okI [OF w]) (use w' s in auto)
  with None show ?thesis by (auto simp: settle_running_def FindDungeon_def)
next
  case (Some d)
  have inv: "dm_inv cat (tw_dm w')" using w' by (simp add: world_ok_def)
  have h: "stage_inv cat d" "roster_inv d" using dm_invD(3) [OF inv Some] by (auto simp: hosted_def)
  obtain k d\<^sub>1 where d1: "AdvanceRoomWaves cat d = Inr (k, d\<^sub>1)" using AdvanceRoomWaves_total [OF h(1) cat] by blast
  define d\<^sub>2 where "d\<^sub>2 = snd (TryFinishIfCleared d\<^sub>1)"
  have steps: "(game_step cat)\<^sup>*\<^sup>* d d\<^sub>2"
    using game_step.waves [OF d1] game_step.try_finish [of cat d\<^sub>1] unfolding d\<^sub>2_def by (meson r_into_rtranclp rtranclp.rtrancl_into_rtrancl)
  define dm where "dm = (tw_dm w')\<lparr>dm_dungeons := um_modify i (\<lambda>_. d\<^sub>2) (dm_dungeons (tw_dm w'))\<rparr>"
  have dm: "dm_inv cat dm" unfolding dm_def by (rule dm_inv_game_steps [OF inv cat Some steps])
  have roster: "roster dm = roster (tw_dm w')"
    unfolding dm_def using roster_modify_same [OF Some] game_steps_keep [OF steps h cat] by simp
  have ok: "world_ok cat (w'\<lparr>tw_dm := dm\<rparr>)"
    using w'(1) dm roster by (auto simp: world_ok_def intro: synced_cong)
  have st: "dungeon_state dm j = (if j = i then Some (di_state d\<^sub>2) else dungeon_state (tw_dm w) j)" for j
    using Some w'(2) [of j] by (auto simp: dm_def dungeon_state_def umap_simps)
  have eq: "settle_running cat serialize clk n i w' =
      (if di_state d\<^sub>2 = Finished then Inr (finished_at i (ck_now clk) (w'\<lparr>tw_dm := dm\<rparr>))
       else broadcast serialize n i d\<^sub>2 (w'\<lparr>tw_dm := dm\<rparr>))"
    by (simp add: settle_running_def FindDungeon_def Some d1 d\<^sub>2_def dm_def case_prod_beta Let_def)
  show ?thesis
  proof (cases "di_state d\<^sub>2 = Finished")
    case True
    have "tick_ok cat Running xs (finished_at i (ck_now clk) (w'\<lparr>tw_dm := dm\<rparr>))"
      using tick_okD(7) [OF w] ok True
      by (intro tick_okI [OF w]) (auto simp: finished_at_def world_ok_def umap_simps st s)
    with eq True show ?thesis by simp
  next
    case False
    have "roster_inv d\<^sub>2" using game_steps_inv [OF steps h cat] by blast
    from broadcast_ok [OF ok this, of serialize n i] obtain udm ps where
      b: "broadcast serialize n i d\<^sub>2 (w'\<lparr>tw_dm := dm\<rparr>) = Inr (w'\<lparr>tw_dm := dm, tw_udm := udm, tw_pumps := ps\<rparr>)"
      "world_ok cat (w'\<lparr>tw_dm := dm, tw_udm := udm, tw_pumps := ps\<rparr>)" by auto
    have "tick_ok cat Running xs (w'\<lparr>tw_dm := dm, tw_udm := udm, tw_pumps := ps\<rparr>)"
      using tick_okD(7,8) [OF w] b(2) by (intro tick_okI [OF w]) (auto simp: st s)
    with eq False b(1) show ?thesis by simp
  qed
qed

lemma tick_running_ok:
  assumes cat: "enemies_ok cat" "skills_defined skills" and w: "tick_ok cat Running (i # xs) w"
  shows "\<exists>w'. tick_running cat skills serialize cfg clk n i w = Inr w' \<and> tick_ok cat Running xs w'"
proof -
  note wi = tick_okD(1-4) [OF w]
  define udm where "udm = snd (RemoveInactiveEndpoints (ck_idle clk i) (tc_udpIdleTimeout cfg) i (tw_udm w))"
  have u: "udm_inv udm" "holders udm = holders (tw_udm w)" using wi(2) udm_inv_ops(4) by (auto simp: udm_def)
  obtain r dm\<^sub>1 udm\<^sub>1 where m: "mp_Process cat i TICK_SECONDS (tw_dm w) udm = Inr (r, dm\<^sub>1, udm\<^sub>1)"
    "dm_inv cat dm\<^sub>1" "udm_inv udm\<^sub>1" "roster dm\<^sub>1 = roster (tw_dm w)" "holders udm\<^sub>1 = holders udm"
    using mp_Process_total [OF wi(1) u(1) cat(1), of i TICK_SECONDS] by blast
  obtain r' dm\<^sub>2 udm\<^sub>2 hits where c: "cp_Process skills i dm\<^sub>1 udm\<^sub>1 (ts_pendingHits (tw_service w)) = Some (r', dm\<^sub>2, udm\<^sub>2, hits)"
    "dm_inv cat dm\<^sub>2" "udm_inv udm\<^sub>2" "hits_defined hits" "roster dm\<^sub>2 = roster dm\<^sub>1" "holders udm\<^sub>2 = holders udm\<^sub>1"
    using cp_Process_total [OF m(2,3) cat(1) wi(4) cat(2), of i] by blast
  let ?w = "w\<lparr>tw_service := (tw_service w)\<lparr>ts_pendingHits := hits\<rparr>, tw_dm := dm\<^sub>2, tw_udm := udm\<^sub>2\<rparr>"
  have "synced dm\<^sub>2 udm\<^sub>2" using synced_cong [OF wi(3)] m(4,5) c(5,6) u(2) by simp
  then have "world_ok cat ?w" using c by (simp add: world_ok_def)
  moreover have "dungeon_state dm\<^sub>2 j = dungeon_state (tw_dm w) j" if "j \<noteq> i" for j
    using dungeon_state_mp [OF m(1) that] dungeon_state_cp [OF c(1) that] by simp
  ultimately show ?thesis
    using settle_running_ok [OF cat(1) w, of ?w serialize clk n]
    by (simp add: tick_running_def Let_def udm_def [symmetric] m(1) c(1))
qed

lemma Finish_drops:
  assumes "dungeon_state dm i = Some Finished" "ls_FinishDungeon i dm udm = (b, dm', udm')"
  shows "b \<and> dungeon_state dm' i = None"
  using assms by (auto simp: ls_FinishDungeon_def FinishDungeon_def dungeon_state_def drop_dungeon_def umap_simps
      split: if_splits)

lemma tick_finished_ok:
  assumes w: "tick_ok cat Finished (i # xs) w"
  shows "\<exists>w'. tick_finished serialize clk n i w = Inr w' \<and> tick_ok cat Finished xs w'"
proof -
  note wi = tick_okD [OF w]
  obtain d where d: "map_of (dm_dungeons (tw_dm w)) i = Some d" using wi(5) by (auto simp: dungeon_state_def)
  have "roster_inv d" using dm_invD(3) [OF wi(1) d] by (simp add: hosted_def)
  moreover have "world_ok cat (finished_at i (ck_now clk) w)" using wi(1-4) by (simp add: world_ok_def finished_at_def)
  ultimately obtain udm ps where
    b: "broadcast serialize n i d (finished_at i (ck_now clk) w) = Inr ((finished_at i (ck_now clk) w)\<lparr>tw_udm := udm, tw_pumps := ps\<rparr>)"
    "udm_inv udm" "holders udm = holders (tw_udm w)"
    using broadcast_ok by (fastforce simp: finished_at_def)
  let ?w = "(finished_at i (ck_now clk) w)\<lparr>tw_udm := udm, tw_pumps := ps\<rparr>"
  have sync: "synced (tw_dm w) udm" using synced_cong [OF wi(3)] b(3) by simp
  obtain f dm udm' where f: "ls_FinishDungeon i (tw_dm w) udm = (f, dm, udm')" by (metis prod.exhaust)
  have f': "dm_inv cat dm" "udm_inv udm'" "synced dm udm'" using ls_Finish_keeps [OF wi(1) b(2) sync f] by auto
  have "tick_ok cat Finished xs ?w"
    using wi(4,5,7) by (intro tick_okI [OF w]) (use wi(1-4) b(2) sync in \<open>auto simp: finished_at_def world_ok_def umap_simps\<close>)
  moreover have "tick_ok cat Finished xs (forget_finished i (?w\<lparr>tw_dm := dm, tw_udm := udm'\<rparr>))"
    using wi(7) dungeon_state_Finish [OF f] f' wi(4)
    by (intro tick_okI [OF w]) (auto simp: forget_finished_def finished_at_def world_ok_def umap_simps)
  moreover have "tw_dm ?w = tw_dm w" "tw_udm ?w = udm" by (simp_all add: finished_at_def)
  ultimately show ?thesis by (simp add: tick_finished_def FindDungeon_def d b(1) f Let_def)
qed

text \<open>A tick neither throws nor leaves the managers inconsistent.\<close>

lemma run_tick_ok:
  assumes cat: "enemies_ok cat" "skills_defined skills" and cfg: "config_ok cfg"
    and w: "world_ok cat w" "times_ok w"
  shows "\<exists>w'. run_tick cat skills serialize cfg clk w = Inr w' \<and> world_ok cat w' \<and> times_ok w'"
proof -
  define n where "n = tks_processedTickCount (ts_stats (begin_tick clk (tw_service w)))"
  define w\<^sub>0 where "w\<^sub>0 = w\<lparr>tw_service := begin_tick clk (tw_service w), tw_udm := SetServerTick (ucast n) (tw_udm w)\<rparr>"
  have "world_ok cat w\<^sub>0" "times_ok w\<^sub>0"
    using w udm_inv_ops(2) holders_ops(2)
    by (auto simp: w\<^sub>0_def world_ok_def times_ok_def begin_tick_def Let_def intro: synced_cong)
  then have w1: "world_ok cat (sweep_abandoned cfg clk w\<^sub>0)" "times_ok (sweep_abandoned cfg clk w\<^sub>0)"
    using sweep_abandoned_ok [OF cfg] by blast+
  have ids: "tick_ok cat st (dungeon_ids_in st (tw_dm v)) v" if "world_ok cat v" "times_ok v" for v st
    using that dungeon_ids [OF dm_invD(1)] by (fastforce simp: tick_ok_def world_ok_def)
  let ?ids = "WaitingDungeonIds (tw_dm (sweep_abandoned cfg clk w\<^sub>0))"
  obtain w\<^sub>2 where w2: "for_each (tick_waiting cat cfg clk) ?ids (sweep_abandoned cfg clk w\<^sub>0) = Inr w\<^sub>2"
    "tick_ok cat Waiting [] w\<^sub>2"
    using for_each_total [where P = "tick_ok cat Waiting" and f = "tick_waiting cat cfg clk", OF ids [OF w1]]
      tick_waiting_ok [OF cat(1)]
    unfolding WaitingDungeonIds_def by blast
  define w\<^sub>3 where "w\<^sub>3 = forget_stale_waiting ?ids w\<^sub>2"
  have w3: "world_ok cat w\<^sub>3" "times_ok w\<^sub>3"
    using w2(2) by (auto simp: w\<^sub>3_def forget_stale_waiting_def tick_ok_def world_ok_def times_ok_def um_contains_iff_dom)
  obtain w\<^sub>4 where w4: "for_each (tick_running cat skills serialize cfg clk n) (RunningDungeonIds (tw_dm w\<^sub>3)) w\<^sub>3 = Inr w\<^sub>4"
    "tick_ok cat Running [] w\<^sub>4"
    using for_each_total [where P = "tick_ok cat Running" and f = "tick_running cat skills serialize cfg clk n",
        OF ids [OF w3]] tick_running_ok [OF cat]
    unfolding RunningDungeonIds_def by blast
  then have "world_ok cat w\<^sub>4" "times_ok w\<^sub>4" by (auto simp: tick_ok_def)
  then obtain w\<^sub>5 where w5: "for_each (tick_finished serialize clk n) (FinishedDungeonIds (tw_dm w\<^sub>4)) w\<^sub>4 = Inr w\<^sub>5"
    "tick_ok cat Finished [] w\<^sub>5"
    using for_each_total [where P = "tick_ok cat Finished" and f = "tick_finished serialize clk n", OF ids] tick_finished_ok
    unfolding FinishedDungeonIds_def by blast
  have e: "ts_pendingHits (end_tick clk s) = ts_pendingHits s" "ts_waitingSince (end_tick clk s) = ts_waitingSince s"
    "ts_finishedSince (end_tick clk s) = ts_finishedSince s" for s :: DungeonTickService
    by (simp_all add: end_tick_def ScheduleNextTick_def AdvanceDeadline_def Let_def)
  have "run_tick cat skills serialize cfg clk w = Inr (w\<^sub>5\<lparr>tw_service := end_tick clk (tw_service w\<^sub>5)\<rparr>)"
    unfolding run_tick_def Let_def n_def [symmetric] w\<^sub>0_def [symmetric]
    by (simp add: w2(1) w\<^sub>3_def [symmetric] w4(1) w5(1))
  with w5(2) e show ?thesis by (auto simp: tick_ok_def world_ok_def times_ok_def)
qed

end
