(* ===== verification/Simulation_Properties.thy ===== *)
theory Simulation_Properties
  imports Tick_Service Room_Properties Sample_Codec
begin

text \<open>
  Properties of the simulation: the movement and combat steps and the server tick, each with a concrete
  instance where it has hypotheses.
\<close>

section \<open>Sample skills\<close>

definition skill_of :: "SkillId \<Rightarrow> float32 \<Rightarrow> SkillTemplate" where
  "skill_of i v =
     \<lparr>skill_id = i, skill_name = ''slash'', skill_cooldownTicks = 10, skill_manaCost = 5, skill_startupTicks = 0,
      skill_activeTicks = 2, skill_recoveryTicks = 1,
      skill_hitBox = \<lparr>hit_forwardRange = whole 6, hit_backwardRange = whole 1, hit_halfDepth = whole 3, hit_height = whole 2\<rparr>,
      skill_effects = [\<lparr>effect_type = Damage, effect_target = EnemyTarget, effect_stat = NoStat, effect_value = v,
        effect_durationTicks = 0\<rparr>]\<rparr>"

definition sample_skills :: SkillCatalog where "sample_skills = snd (AddSkill (skill_of 5 (whole 1)) [])"

lemma sample_skills_eq: "sample_skills = [(5, skill_of 5 (whole 1))]"
  by (simp add: sample_skills_def AddSkill_def skill_of_def IsValidHitBox_def IsValidEffect_def IsValidTarget_def um_emplace_def)

lemma slash_damage: "CalculateDamage (skill_of 5 (whole 1)) = Some 40"
  by (simp add: CalculateDamage_def skill_of_def whole_def DUNGEON_PLAYER_BASE_ATTACK_def f32_eval)

lemma sample_skills_defined: "skills_defined sample_skills"
  by (simp add: sample_skills_eq skills_defined_def slash_damage)

section \<open>Movement\<close>




text \<open>Draining the movement queue of a dungeon ends, counts every queued movement, empties the queue
  and keeps exactly the last movement of each session.\<close>

lemma latest_movement_wins:
  "\<exists>latest udm'. drain_movements i [] 0 udm = (latest, length (queued_movements udm i), udm') \<and>
     queued_movements udm' i = [] \<and>
     (\<forall>x. map_of latest x = (case filter (\<lambda>q. apm_sessionId q = x) (queued_movements udm i) of
        [] \<Rightarrow> None | q # qs \<Rightarrow> Some (apm_movement (last (q # qs)))))"
proof -
  obtain udm' where "drain_movements i [] 0 udm = (fold (\<lambda>q. um_set (apm_sessionId q) (apm_movement q)) (queued_movements udm i) [],
      0 + length (queued_movements udm i), udm')" "queued_movements udm' i = []"
    using drain_movements_result [OF refl, where i = i and udm = udm and latest = "[]" and n = 0] by blast
  then show ?thesis
    using latest_fold [where m = "[]" and qs = "queued_movements udm i"] by (auto split: list.splits)
qed

section \<open>Combat\<close>

text \<open>C33. When a hit resolves, it strikes every living enemy of the room inside the hit box exactly once,
  for the full damage, no other enemy is touched, and the hit count grows by the number of enemies
  struck.\<close>

theorem hit_strikes_exactly:
  assumes "room_inv cat r"
  shows "hit_enemies damage pos hit (rs_enemies r) r n =
    (n + length (filter (struck damage pos hit) (rs_enemies r)),
     r\<lparr>rs_enemies := map (\<lambda>e. if struck damage pos hit e then hit_enemy damage e else e) (rs_enemies r)\<rparr>)"
proof -
  have "distinct (map en_entityId (rs_enemies r))" by (rule room_entities_distinct [OF assms])
  from hit_enemies_map [OF this, of "[]"] show ?thesis by simp
qed

lemma east:
  "f32_sqrt (f32_add (f32_mul (whole 1) (whole 1)) (f32_mul (whole 0) (whole 0))) = whole 1"
  "f32_div (whole 1) (whole 1) = whole 1" "f32_div (whole 0) (whole 1) = whole 0"
  by (simp_all add: whole_def f32_eval)

lemma goblin_in_box:
  "IsInsideSkillHitBox (point 1 5) (point 5 5) (whole 1) (whole 0) (skill_hitBox (skill_of 5 (whole 1)))"
  by (simp add: IsInsideSkillHitBox_def east Let_def point_def skill_of_def) (simp add: whole_def f32_eval)

theorem hit_strikes_exactly_witness:
  "fst (hit_enemies 40 (point 1 5) \<lparr>ph_skill = skill_of 5 (whole 1), ph_directionX = whole 1, ph_directionY = whole 0\<rparr>
     (rs_enemies busy_room) busy_room 0) = 1"
  by (subst hit_strikes_exactly [OF busy_room_inv])
     (simp add: busy_room_def quiet_room_def make_RoomState_def struck_def goblin_in_box)

text \<open>The skill catalog admits skills whose damage cannot be computed: the conversion of the rounded
  value to a 32-bit number is undefined when the effect value is large.\<close>

lemma damage_can_be_undefined:
  "AddSkill (skill_of 6 (whole (2 ^ 30))) [] = (True, [(6, skill_of 6 (whole (2 ^ 30)))]) \<and>
   CalculateDamage (skill_of 6 (whole (2 ^ 30))) = None"
proof
  show "AddSkill (skill_of 6 (whole (2 ^ 30))) [] = (True, [(6, skill_of 6 (whole (2 ^ 30)))])"
    by (simp add: AddSkill_def skill_of_def IsValidHitBox_def IsValidEffect_def IsValidTarget_def um_emplace_def)
  show "CalculateDamage (skill_of 6 (whole (2 ^ 30))) = None"
    by (simp add: CalculateDamage_def skill_of_def whole_def DUNGEON_PLAYER_BASE_ATTACK_def f32_eval)
qed

section \<open>The tick\<close>

text \<open>The next deadline lies on the grid of tick times after the last one, is less than two intervals
  behind the clock however long the tick took, skips no more than it has to, and the ticks that are
  skipped are counted.\<close>

lemma deadline_catches_up:
  "\<exists>k. 0 \<le> k \<and> ts_nextTick (AdvanceDeadline now s) = ts_nextTick s + (1 + k) * TICK_INTERVAL \<and>
     now - ts_nextTick (AdvanceDeadline now s) < 2 * TICK_INTERVAL \<and>
     (k = 0 \<or> TICK_INTERVAL \<le> now - ts_nextTick (AdvanceDeadline now s)) \<and>
     tks_missedTickCount (ts_stats (AdvanceDeadline now s)) = tks_missedTickCount (ts_stats s) + of_int k"
proof (cases rule: AdvanceDeadline_cases [of now s])
  case 1
  then show ?thesis by (intro exI [of _ 0]) simp
next
  case (2 k)
  have "now - ts_nextTick s = TICK_INTERVAL * (k + 2) + (now - ts_nextTick s) mod TICK_INTERVAL"
    by (simp add: 2(2))
  then have "TICK_INTERVAL * (k + 2) \<le> now - ts_nextTick s" "now - ts_nextTick s < TICK_INTERVAL * (k + 3)"
    by (simp_all add: TICK_INTERVAL_value)
  then show ?thesis
    using 2(1) by (intro exI [of _ k]) (simp add: 2(3) algebra_simps)
qed

text \<open>C32. What a tick does with a waiting dungeon: while a participant is disconnected it waits, when all
  have announced themselves over UDP it starts, and when they have not done so for the ready timeout it
  is cancelled. The first tick that finds it waiting starts the clock.\<close>

theorem waiting_dungeon_fate:
  assumes "enemies_ok cat" "world_ok cat w" "map_of (dm_dungeons (tw_dm w)) i = Some d" "di_state d = Waiting"
  shows "\<exists>w'. tick_waiting cat cfg clk i w = Inr w' \<and>
    dungeon_state (tw_dm w') i =
      (if HasDisconnectedParticipants d then Some Waiting
       else if AllParticipantsAuthenticated (tw_udm w) i then Some Running
       else case map_of (ts_waitingSince (tw_service w)) i of
              None \<Rightarrow> Some Waiting
            | Some since \<Rightarrow> if ms (tc_readyTimeout cfg) \<le> ck_now clk - since then None else Some Waiting) \<and>
    map_of (ts_waitingSince (tw_service w')) i =
      (if HasDisconnectedParticipants d \<or> AllParticipantsAuthenticated (tw_udm w) i then None
       else case map_of (ts_waitingSince (tw_service w)) i of
              None \<Rightarrow> Some (ck_now clk)
            | Some since \<Rightarrow> if ms (tc_readyTimeout cfg) \<le> ck_now clk - since then None else Some since)"
proof -
  have inv: "dm_inv cat (tw_dm w)" using assms(2) by (simp add: world_ok_def)
  have st: "stage_inv cat d" using dm_invD(3) [OF inv assms(3)] by (simp add: hosted_def)
  obtain d' where s: "Start cat d = Inr (True, d')" and d': "d' = d\<lparr>di_state := Running, di_rooms := di_rooms d'\<rparr>"
    using Start_total [OF st assms(1)] assms(4) by auto
  have "di_state d' = Running" by (subst d') simp
  with s assms(3,4) show ?thesis
    by (auto simp: tick_waiting_def FindDungeon_def StartDungeon_def CancelWaitingDungeon_def CancelDungeon_def drop_dungeon_def
        forget_waiting_def dungeon_state_def umap_simps um_contains_def Let_def case_prod_beta split: option.splits)
qed

definition sample_service :: "(DungeonId \<times> int) list \<Rightarrow> (DungeonId \<times> int) list \<Rightarrow> DungeonTickService" where
  "sample_service waiting finished =
     \<lparr>ts_pendingHits = [], ts_waitingSince = waiting, ts_finishedSince = finished, ts_nextTick = 0, ts_timer = None,
      ts_running = True,
      ts_stats = \<lparr>tks_processedTickCount = 0, tks_missedTickCount = 0, tks_lastLateness = 0, tks_maxLateness = 0,
        tks_lastProcessingTime = 0, tks_maxProcessingTime = 0\<rparr>\<rparr>"

definition sample_world :: "(DungeonId \<times> int) list \<Rightarrow> TickWorld" where
  "sample_world waiting =
     \<lparr>tw_service = sample_service waiting [], tw_dm = sample_manager, tw_udm = udm_init, tw_pumps = []\<rparr>"

definition clock_at :: "int \<Rightarrow> TickClock" where
  "clock_at now = \<lparr>ck_processingStartedAt = now, ck_now = now, ck_refresh = (\<lambda>_. now), ck_idle = (\<lambda>_. now),
     ck_processed = now, ck_deadline = now\<rparr>"

definition sample_config :: TickConfig where
  "sample_config = \<lparr>tc_readyTimeout = 1000, tc_udpIdleTimeout = 1000, tc_reconnectGrace = 1000, tc_maxDungeonLifetime = 100000\<rparr>"

lemma sample_world_ok: "world_ok sample_enemies (sample_world waiting)"
  using sample_manager_inv udm_inv_init
  by (simp add: world_ok_def sample_world_def sample_service_def hits_defined_def synced_def holders_def udm_init_def)

theorem waiting_dungeon_fate_witness:
  "\<exists>w'. tick_waiting sample_enemies sample_config (clock_at (10 ^ 9)) 1 (sample_world [(1, 0)]) = Inr w' \<and>
     dungeon_state (tw_dm w') 1 = None"
proof -
  let ?w = "sample_world [(1, 0)]"
  have d: "map_of (dm_dungeons (tw_dm ?w)) 1 = Some bound_dungeon" by (simp add: sample_world_def sample_manager_def)
  have c: "di_state bound_dungeon = Waiting" "\<not> HasDisconnectedParticipants bound_dungeon"
    "\<not> AllParticipantsAuthenticated (tw_udm ?w) 1" "map_of (ts_waitingSince (tw_service ?w)) 1 = Some 0"
    "ms (tc_readyTimeout sample_config) \<le> ck_now (clock_at (10 ^ 9))"
    by (simp_all add: bound_dungeon_def waiting_dungeon_def HasDisconnectedParticipants_def sample_world_def udm_init_def
        AllParticipantsAuthenticated_def sample_service_def sample_config_def clock_at_def ms_def)
  show ?thesis
    using waiting_dungeon_fate [OF sample_enemies_ok sample_world_ok d c(1), of sample_config "clock_at (10 ^ 9)"] c(2-) by auto
qed

section \<open>Hits that outlive their dungeon\<close>

lemma ResolvePendingHits_others:
  "ResolvePendingHits i d r hits = Some (d', r', hits') \<Longrightarrow> j \<noteq> i \<Longrightarrow> map_of hits' j = map_of hits j"
  by (auto simp: ResolvePendingHits_def umap_simps split: option.splits)

lemma begin_attack_others:
  "j \<noteq> i \<Longrightarrow> map_of (snd (snd (begin_attack skills i q d r hits))) j = map_of hits j"
  by (auto simp: begin_attack_def Let_def umap_simps split: option.splits prod.splits)

lemma drain_attacks_others:
  "j \<noteq> i \<Longrightarrow> map_of (fst (snd (snd (drain_attacks skills i d r hits udm)))) j = map_of hits j"
proof (induction skills i d r hits udm rule: drain_attacks.induct)
  case (1 skills i d r hits udm)
  obtain q udm' where p: "udm_TryPopAttack i udm = (q, udm')" by fastforce
  show ?case
  proof (cases q)
    case None
    with p show ?thesis by (subst drain_attacks.simps) simp
  next
    case (Some a)
    obtain d' r' h' where b: "begin_attack skills i a d r hits = (d', r', h')" by (metis prod.exhaust)
    from "1.IH" [OF p [symmetric] Some b [symmetric] refl refl "1.prems"] begin_attack_others [OF "1.prems", of skills a d r hits] p Some b
    show ?thesis by (subst drain_attacks.simps) simp
  qed
qed

lemma cp_Process_others:
  assumes "cp_Process skills i dm udm hits = Some (r, dm', udm', hits')" "j \<noteq> i"
  shows "map_of hits' j = map_of hits j"
  using assms drain_attacks_others [OF assms(2), of skills]
  by (auto simp: cp_Process_def umap_simps Let_def split: option.splits prod.splits if_splits
      dest!: ResolvePendingHits_others) (metis fst_conv snd_conv)+

lemma broadcast_service: "broadcast serialize n i d w = Inr w' \<Longrightarrow> tw_service w' = tw_service w"
  by (auto simp: broadcast_def Let_def case_prod_beta split: option.splits)

lemma tick_running_others:
  assumes "tick_running cat skills serialize cfg clk n j w = Inr w'" "i \<noteq> j"
  shows "map_of (ts_pendingHits (tw_service w')) i = map_of (ts_pendingHits (tw_service w)) i"
  using assms cp_Process_others [OF _ assms(2)]
  by (auto simp: tick_running_def settle_running_def finished_at_def Let_def case_prod_beta dest!: broadcast_service
      split: sum.splits option.splits if_splits)

text \<open>A skill that is still winding up when its dungeon ends leaves its entry in the combat processor
  for good: the tick that retires the dungeon keeps it, and so does every later step of another
  dungeon, while identifiers of dungeons are never used again.\<close>

lemma finished_dungeon_leaves_hits:
  assumes "map_of (dm_dungeons (tw_dm w)) i = Some d" "di_state d = Finished" "roster_inv d"
    "map_of (ts_finishedSince (tw_service w)) i = Some since" "FINISHED_BROADCAST_DURATION \<le> ck_now clk - since"
  shows "\<exists>w'. tick_finished serialize clk n i w = Inr w' \<and> dungeon_state (tw_dm w') i = None \<and>
    map_of (ts_pendingHits (tw_service w')) i = map_of (ts_pendingHits (tw_service w)) i \<and>
    (\<forall>cat skills cfg clk' n' j w''. j \<noteq> i \<longrightarrow> tick_running cat skills serialize cfg clk' n' j w' = Inr w'' \<longrightarrow>
       map_of (ts_pendingHits (tw_service w'')) i = map_of (ts_pendingHits (tw_service w)) i)"
proof -
  obtain bs where "EncodeDungeonSnapshot serialize d (ucast n) = Some bs"
    using EncodeDungeonSnapshot_total [OF assms(3)] by blast
  then obtain w\<^sub>1 where w1: "broadcast serialize n i d (finished_at i (ck_now clk) w) = Inr w\<^sub>1" "tw_dm w\<^sub>1 = tw_dm w"
    by (auto simp: broadcast_def finished_at_def Let_def case_prod_beta)
  have s: "tw_service w\<^sub>1 = tw_service w"
    using broadcast_service [OF w1(1)] assms(4) by (simp add: finished_at_def um_emplace_def um_contains_def)
  obtain b dm udm where f: "ls_FinishDungeon i (tw_dm w) (tw_udm w\<^sub>1) = (b, dm, udm)" by (metis prod.exhaust)
  have "dungeon_state dm i = None" using Finish_drops [OF _ f] assms(1,2) by (simp add: dungeon_state_def)
  moreover have "tick_finished serialize clk n i w = Inr (forget_finished i (w\<^sub>1\<lparr>tw_dm := dm, tw_udm := udm\<rparr>))"
    using assms w1 s f by (simp add: tick_finished_def FindDungeon_def)
  ultimately show ?thesis using tick_running_others s by (fastforce simp: forget_finished_def)
qed

definition ended_world :: TickWorld where
  "ended_world =
     \<lparr>tw_service = (sample_service [] [(1, 0)])\<lparr>ts_pendingHits := [(1, [(11, \<lparr>ph_skill = skill_of 5 (whole 1),
        ph_directionX = whole 1, ph_directionY = whole 0\<rparr>)])]\<rparr>,
      tw_dm = sample_manager\<lparr>dm_dungeons := [(1, bound_dungeon\<lparr>di_state := Finished\<rparr>)]\<rparr>, tw_udm = udm_init, tw_pumps = []\<rparr>"

end
