(* ===== verification/Tcp_Protocol.thy ===== *)
theory Tcp_Protocol
  imports Channel_Manager Dungeon_Protocol
begin

text \<open>
  The payloads of the TCP packets (\<open>src/src/TcpFlatBufferCodec.cpp\<close>, \<open>LoginProtocol\<close>, \<open>ChannelProtocol\<close>,
  \<open>PartyProtocol\<close>, \<open>DungeonAdmissionProtocol\<close>, \<open>DungeonConnectionProtocol\<close> and \<open>DungeonCatalogProtocol\<close> under
  \<open>src/include\<close> and \<open>src/src\<close>).

  As for the datagrams, the FlatBuffers runtime and the accessors generated from the schema are
  parameters: \<open>parse\<close> is the verifier with the accessors, \<open>serialize\<close> the builder. A constructor of
  \<open>TcpPayload\<close> is a member of the union; its option is \<open>None\<close> for a null pointer. Result codes are bytes
  on the wire, so a peer can send any of 256 values; the decoders turn them into the enumerations.
\<close>

definition TCP_PAYLOAD_PROTOCOL_VERSION :: u16 where "TCP_PAYLOAD_PROTOCOL_VERSION = 2"

section \<open>Result codes\<close>

datatype LoginResult = LoginSuccess | InvalidAuthTicket | LoginPlayerNotFound | LoginStorageError | LoginServiceBusy

datatype EnterDungeonResult = EnterSuccess | EnterNotInParty | NotPartyLeader | EnterTemplateNotFound
  | EnterPartyAlreadyInDungeon | UdpAllocationFailed

datatype DungeonConnectionInfoResult = InfoSuccess | InfoNotInParty | InfoDungeonNotFound
  | InfoNotDungeonParticipant | UdpNotReady

datatype CreatePartyResult = CreateParty_Success | AlreadyInParty

datatype LeavePartyResult = LeaveParty_Success | LeaveParty_NotInParty

datatype PartySnapshotResult = PartySnapshot_Success | PartySnapshot_NotInParty

datatype CatalogResult = Catalog_Success | Catalog_Unavailable

text \<open>The enumerators in the order of their values, the cast to the wire and the checked cast back.\<close>

definition loginResults :: "LoginResult list" where
  "loginResults = [LoginSuccess, InvalidAuthTicket, LoginPlayerNotFound, LoginStorageError, LoginServiceBusy]"

definition joinChannelResults :: "JoinChannelResult list" where
  "joinChannelResults = [JoinChannel_Success, ChannelNotFound, ChannelFull, AlreadyJoinedChannel]"

definition enterDungeonResults :: "EnterDungeonResult list" where
  "enterDungeonResults = [EnterSuccess, EnterNotInParty, NotPartyLeader, EnterTemplateNotFound,
     EnterPartyAlreadyInDungeon, UdpAllocationFailed]"

definition connectionInfoResults :: "DungeonConnectionInfoResult list" where
  "connectionInfoResults = [InfoSuccess, InfoNotInParty, InfoDungeonNotFound, InfoNotDungeonParticipant, UdpNotReady]"

definition createPartyResults :: "CreatePartyResult list" where
  "createPartyResults = [CreateParty_Success, AlreadyInParty]"

definition joinPartyResults :: "JoinPartyResult list" where
  "joinPartyResults = [JoinParty_Success, PartyNotFound, PartyFull, AlreadyJoinedParty]"

definition leavePartyResults :: "LeavePartyResult list" where
  "leavePartyResults = [LeaveParty_Success, LeaveParty_NotInParty]"

definition partySnapshotResults :: "PartySnapshotResult list" where
  "partySnapshotResults = [PartySnapshot_Success, PartySnapshot_NotInParty]"

definition catalogResults :: "CatalogResult list" where
  "catalogResults = [Catalog_Success, Catalog_Unavailable]"

definition to_code :: "'a list \<Rightarrow> 'a \<Rightarrow> u8" where
  "to_code enumerators r = of_nat (length (takeWhile (\<lambda>x. x \<noteq> r) enumerators))"

definition of_code :: "'a list \<Rightarrow> u8 \<Rightarrow> 'a option" where
  "of_code enumerators c = (if unat c < length enumerators then Some (enumerators ! unat c) else None)"

lemmas enumerators = loginResults_def joinChannelResults_def enterDungeonResults_def connectionInfoResults_def
  createPartyResults_def joinPartyResults_def leavePartyResults_def partySnapshotResults_def catalogResults_def

lemma of_code_to_code:
  assumes "r \<in> set xs" "length xs \<le> 256"
  shows "of_code xs (to_code xs r) = Some r"
proof -
  let ?n = "length (takeWhile (\<lambda>x. x \<noteq> r) xs)"
  have n: "?n < length xs"
    using assms(1) by (induction xs) auto
  then have "unat (of_nat ?n :: u8) = ?n"
    using assms(2) by (simp add: unat_of_nat)
  with n nth_length_takeWhile [OF n] show ?thesis by (simp add: to_code_def of_code_def)
qed

text \<open>Every enumerator is listed, so its code reads back.\<close>

lemma codes [simp]:
  "of_code loginResults (to_code loginResults a) = Some a"
  "of_code joinChannelResults (to_code joinChannelResults b) = Some b"
  "of_code enterDungeonResults (to_code enterDungeonResults c) = Some c"
  "of_code connectionInfoResults (to_code connectionInfoResults d) = Some d"
  "of_code createPartyResults (to_code createPartyResults e) = Some e"
  "of_code joinPartyResults (to_code joinPartyResults f) = Some f"
  "of_code leavePartyResults (to_code leavePartyResults g) = Some g"
  "of_code partySnapshotResults (to_code partySnapshotResults h) = Some h"
  "of_code catalogResults (to_code catalogResults i) = Some i"
proof -
  show "of_code loginResults (to_code loginResults a) = Some a"
    by (rule of_code_to_code) (cases a; simp add: loginResults_def)+
  show "of_code joinChannelResults (to_code joinChannelResults b) = Some b"
    by (rule of_code_to_code) (cases b; simp add: joinChannelResults_def)+
  show "of_code enterDungeonResults (to_code enterDungeonResults c) = Some c"
    by (rule of_code_to_code) (cases c; simp add: enterDungeonResults_def)+
  show "of_code connectionInfoResults (to_code connectionInfoResults d) = Some d"
    by (rule of_code_to_code) (cases d; simp add: connectionInfoResults_def)+
  show "of_code createPartyResults (to_code createPartyResults e) = Some e"
    by (rule of_code_to_code) (cases e; simp add: createPartyResults_def)+
  show "of_code joinPartyResults (to_code joinPartyResults f) = Some f"
    by (rule of_code_to_code) (cases f; simp add: joinPartyResults_def)+
  show "of_code leavePartyResults (to_code leavePartyResults g) = Some g"
    by (rule of_code_to_code) (cases g; simp add: leavePartyResults_def)+
  show "of_code partySnapshotResults (to_code partySnapshotResults h) = Some h"
    by (rule of_code_to_code) (cases h; simp add: partySnapshotResults_def)+
  show "of_code catalogResults (to_code catalogResults i) = Some i"
    by (rule of_code_to_code) (cases i; simp add: catalogResults_def)+
qed

section \<open>The schema\<close>

record ChannelInfoTable =
  cit_channel_id :: ChannelId
  cit_display_name :: string
  cit_current_players :: u32
  cit_max_players :: u32

record DungeonCatalogEntryTable =
  dce_dungeon_template_id :: DungeonTemplateId
  dce_display_name :: string
  dce_recommended_party_size :: u8
  dce_max_party_size :: u8
  dce_available :: bool

text \<open>
  The tables of the static data. A structure is an optional member of its table; the vectors and the name
  are required, so that a verified message has them.
\<close>

record PortalStaticData =
  psd_portal_id :: PortalId
  psd_trigger_area :: "CollisionBox option"
  psd_target_room_id :: RoomId
  psd_target_position :: "Position option"
  psd_requires_room_clear :: bool

record ObstacleStaticData =
  osd_obstacle_id :: ObstacleId
  osd_collision :: "CollisionBox option"
  osd_destructible :: bool
  osd_max_hp :: u32

record EnemySpawnStaticData =
  ssd_enemy_spawn_id :: EnemySpawnId
  ssd_enemy_template_id :: EnemyTemplateId
  ssd_position :: "Position option"
  ssd_wave :: u32

record RoomStaticData =
  rsd_room_id :: RoomId
  rsd_width :: float32
  rsd_depth :: float32
  rsd_player_spawn :: "Position option"
  rsd_portals :: "PortalStaticData list"
  rsd_obstacles :: "ObstacleStaticData list"
  rsd_enemy_spawns :: "EnemySpawnStaticData list"

record EnemyTemplateStaticData =
  esd_enemy_template_id :: EnemyTemplateId
  esd_display_name :: string
  esd_max_hp :: u32
  esd_move_speed :: float32
  esd_ai_type :: u8
  esd_collision :: "CollisionBox option"

record StaticDataResponseTable =
  sdt_result :: u8
  sdt_dungeon_id :: DungeonId
  sdt_dungeon_template_id :: DungeonTemplateId
  sdt_rooms :: "RoomStaticData list"
  sdt_enemy_templates :: "EnemyTemplateStaticData list"

datatype TcpPayload =
  Tcp_NONE
| Tcp_LoginRequest "string option"
| Tcp_LoginResponse "(u8 \<times> SessionId) option"
| Tcp_ChannelListRequest "unit option"
| Tcp_ChannelListResponse "ChannelInfoTable list option"
| Tcp_JoinChannelRequest "ChannelId option"
| Tcp_JoinChannelResponse "(u8 \<times> ChannelId) option"
| Tcp_EnterDungeonRequest "DungeonTemplateId option"
| Tcp_EnterDungeonResponse "(u8 \<times> DungeonId \<times> u16 \<times> DungeonUdpToken) option"
| Tcp_DungeonConnectionInfoRequest "unit option"
| Tcp_DungeonConnectionInfoResponse "(u8 \<times> DungeonId \<times> u16 \<times> DungeonUdpToken) option"
| Tcp_CreatePartyRequest "unit option"
| Tcp_CreatePartyResponse "(u8 \<times> PartyId \<times> SessionId) option"
| Tcp_JoinPartyRequest "PartyId option"
| Tcp_JoinPartyResponse "(u8 \<times> PartyId \<times> SessionId) option"
| Tcp_LeavePartyRequest "unit option"
| Tcp_LeavePartyResponse "u8 option"
| Tcp_PartySnapshotRequest "unit option"
| Tcp_PartySnapshotResponse "(u8 \<times> PartyId \<times> SessionId \<times> SessionId list) option"
| Tcp_DungeonCatalogRequest "unit option"
| Tcp_DungeonCatalogResponse "(u8 \<times> DungeonCatalogEntryTable list) option"
| Tcp_DungeonStaticDataRequest "DungeonId option"
| Tcp_DungeonStaticDataResponse "StaticDataResponseTable option"
| Tcp_Other

record TcpMessage =
  tcp_protocol_version :: u16
  tcp_payload :: TcpPayload

type_synonym tcp_parser = "u8 list \<Rightarrow> TcpMessage option"
type_synonym tcp_serializer = "TcpMessage \<Rightarrow> u8 list"

datatype tcp_error = TcpPayloadMustNotBeEmpty | TcpPayloadIsEmpty | InvalidTcpFlatBuffer
  | UnsupportedTcpVersion | UnexpectedTcpPayloadType | InvalidTcpArgument | InvalidTcpData

definition FinishTcpPayload :: "tcp_serializer \<Rightarrow> TcpPayload \<Rightarrow> tcp_error + u8 list" where
  "FinishTcpPayload serialize payload =
     (if payload = Tcp_NONE then Inl TcpPayloadMustNotBeEmpty
      else Inr (serialize \<lparr>tcp_protocol_version = TCP_PAYLOAD_PROTOCOL_VERSION, tcp_payload = payload\<rparr>))"

text \<open>
  The expected type is given by the accessor \<open>payload_as_X\<close> of that member, which yields \<open>None\<close> for any
  other member and for a null pointer.
\<close>

definition DecodeTcpPayload ::
    "tcp_parser \<Rightarrow> (TcpPayload \<Rightarrow> 'a option) \<Rightarrow> u8 list \<Rightarrow> tcp_error + 'a" where
  "DecodeTcpPayload parse payload_as bytes =
     (if bytes = [] then Inl TcpPayloadIsEmpty
      else case parse bytes of
             None \<Rightarrow> Inl InvalidTcpFlatBuffer
           | Some message \<Rightarrow>
               if tcp_protocol_version message \<noteq> TCP_PAYLOAD_PROTOCOL_VERSION then Inl UnsupportedTcpVersion
               else case payload_as (tcp_payload message) of
                      None \<Rightarrow> Inl UnexpectedTcpPayloadType
                    | Some table \<Rightarrow> Inr table)"

text \<open>The generated accessors.\<close>

fun as_LoginRequest where "as_LoginRequest (Tcp_LoginRequest t) = t" | "as_LoginRequest _ = None"
fun as_LoginResponse where "as_LoginResponse (Tcp_LoginResponse t) = t" | "as_LoginResponse _ = None"
fun as_ChannelListRequest where "as_ChannelListRequest (Tcp_ChannelListRequest t) = t" | "as_ChannelListRequest _ = None"
fun as_ChannelListResponse where "as_ChannelListResponse (Tcp_ChannelListResponse t) = t" | "as_ChannelListResponse _ = None"
fun as_JoinChannelRequest where "as_JoinChannelRequest (Tcp_JoinChannelRequest t) = t" | "as_JoinChannelRequest _ = None"
fun as_JoinChannelResponse where "as_JoinChannelResponse (Tcp_JoinChannelResponse t) = t" | "as_JoinChannelResponse _ = None"
fun as_EnterDungeonRequest where "as_EnterDungeonRequest (Tcp_EnterDungeonRequest t) = t" | "as_EnterDungeonRequest _ = None"
fun as_EnterDungeonResponse where "as_EnterDungeonResponse (Tcp_EnterDungeonResponse t) = t" | "as_EnterDungeonResponse _ = None"
fun as_ConnectionInfoRequest where
  "as_ConnectionInfoRequest (Tcp_DungeonConnectionInfoRequest t) = t" | "as_ConnectionInfoRequest _ = None"
fun as_ConnectionInfoResponse where
  "as_ConnectionInfoResponse (Tcp_DungeonConnectionInfoResponse t) = t" | "as_ConnectionInfoResponse _ = None"
fun as_CreatePartyRequest where "as_CreatePartyRequest (Tcp_CreatePartyRequest t) = t" | "as_CreatePartyRequest _ = None"
fun as_CreatePartyResponse where "as_CreatePartyResponse (Tcp_CreatePartyResponse t) = t" | "as_CreatePartyResponse _ = None"
fun as_JoinPartyRequest where "as_JoinPartyRequest (Tcp_JoinPartyRequest t) = t" | "as_JoinPartyRequest _ = None"
fun as_JoinPartyResponse where "as_JoinPartyResponse (Tcp_JoinPartyResponse t) = t" | "as_JoinPartyResponse _ = None"
fun as_LeavePartyRequest where "as_LeavePartyRequest (Tcp_LeavePartyRequest t) = t" | "as_LeavePartyRequest _ = None"
fun as_LeavePartyResponse where "as_LeavePartyResponse (Tcp_LeavePartyResponse t) = t" | "as_LeavePartyResponse _ = None"
fun as_PartySnapshotRequest where "as_PartySnapshotRequest (Tcp_PartySnapshotRequest t) = t" | "as_PartySnapshotRequest _ = None"
fun as_PartySnapshotResponse where
  "as_PartySnapshotResponse (Tcp_PartySnapshotResponse t) = t" | "as_PartySnapshotResponse _ = None"
fun as_DungeonCatalogRequest where
  "as_DungeonCatalogRequest (Tcp_DungeonCatalogRequest t) = t" | "as_DungeonCatalogRequest _ = None"
fun as_DungeonCatalogResponse where
  "as_DungeonCatalogResponse (Tcp_DungeonCatalogResponse t) = t" | "as_DungeonCatalogResponse _ = None"
fun as_StaticDataRequest where
  "as_StaticDataRequest (Tcp_DungeonStaticDataRequest t) = t" | "as_StaticDataRequest _ = None"
fun as_StaticDataResponse where
  "as_StaticDataResponse (Tcp_DungeonStaticDataResponse t) = t" | "as_StaticDataResponse _ = None"

section \<open>Login\<close>

definition MAX_AUTH_TICKET_LENGTH :: nat where "MAX_AUTH_TICKET_LENGTH = 256"

definition IsValidAuthTicket :: "string \<Rightarrow> bool" where
  "IsValidAuthTicket ticket \<longleftrightarrow> ticket \<noteq> [] \<and> length ticket \<le> MAX_AUTH_TICKET_LENGTH"

definition IsValidLoginResponse :: "LoginResult \<Rightarrow> SessionId \<Rightarrow> bool" where
  "IsValidLoginResponse result sessionId \<longleftrightarrow> (result = LoginSuccess) = (sessionId \<noteq> 0)"

definition EncodeLoginRequestPayload :: "tcp_serializer \<Rightarrow> string \<Rightarrow> tcp_error + u8 list" where
  "EncodeLoginRequestPayload serialize authTicket =
     (if \<not> IsValidAuthTicket authTicket then Inl InvalidTcpArgument
      else FinishTcpPayload serialize (Tcp_LoginRequest (Some authTicket)))"

definition DecodeLoginRequestPayload :: "tcp_parser \<Rightarrow> u8 list \<Rightarrow> tcp_error + string" where
  "DecodeLoginRequestPayload parse payload =
     (case DecodeTcpPayload parse as_LoginRequest payload of
        Inl e \<Rightarrow> Inl e
      | Inr authTicket \<Rightarrow> if \<not> IsValidAuthTicket authTicket then Inl InvalidTcpData else Inr authTicket)"

definition EncodeLoginResponsePayload ::
    "tcp_serializer \<Rightarrow> LoginResult \<times> SessionId \<Rightarrow> tcp_error + u8 list" where
  "EncodeLoginResponsePayload serialize = (\<lambda>(result, sessionId).
     if \<not> IsValidLoginResponse result sessionId then Inl InvalidTcpArgument
     else FinishTcpPayload serialize (Tcp_LoginResponse (Some (to_code loginResults result, sessionId))))"

definition DecodeLoginResponsePayload :: "tcp_parser \<Rightarrow> u8 list \<Rightarrow> tcp_error + LoginResult \<times> SessionId" where
  "DecodeLoginResponsePayload parse payload =
     (case DecodeTcpPayload parse as_LoginResponse payload of
        Inl e \<Rightarrow> Inl e
      | Inr (code, sessionId) \<Rightarrow>
          (case of_code loginResults code of
             None \<Rightarrow> Inl InvalidTcpData
           | Some result \<Rightarrow>
               if \<not> IsValidLoginResponse result sessionId then Inl InvalidTcpData else Inr (result, sessionId)))"

section \<open>Channels\<close>

definition IsValidJoinChannelResponse :: "JoinChannelResult \<Rightarrow> ChannelId \<Rightarrow> bool" where
  "IsValidJoinChannelResponse result channelId \<longleftrightarrow> (result = JoinChannel_Success) = (channelId \<noteq> 0)"

definition ValidateChannelListRequestPayload :: "tcp_parser \<Rightarrow> u8 list \<Rightarrow> tcp_error + unit" where
  "ValidateChannelListRequestPayload parse = DecodeTcpPayload parse as_ChannelListRequest"

definition EncodeChannelListRequestPayload :: "tcp_serializer \<Rightarrow> unit \<Rightarrow> tcp_error + u8 list" where
  "EncodeChannelListRequestPayload serialize _ = FinishTcpPayload serialize (Tcp_ChannelListRequest (Some ()))"

fun channel_tables :: "ChannelInfo list \<Rightarrow> tcp_error + ChannelInfoTable list" where
  "channel_tables [] = Inr []"
| "channel_tables (c # cs) =
     (if ch_id c = 0 \<or> ch_name c = [] \<or> ch_maxPlayers c = 0 \<or> ch_maxPlayers c < ch_currentPlayers c \<or>
         2 ^ 32 \<le> ch_currentPlayers c \<or> 2 ^ 32 \<le> ch_maxPlayers c
      then Inl InvalidTcpArgument
      else case channel_tables cs of
             Inl e \<Rightarrow> Inl e
           | Inr ts \<Rightarrow>
               Inr (\<lparr>cit_channel_id = ch_id c, cit_display_name = ch_name c,
                     cit_current_players = of_nat (ch_currentPlayers c),
                     cit_max_players = of_nat (ch_maxPlayers c)\<rparr> # ts))"

definition EncodeChannelListResponsePayload :: "tcp_serializer \<Rightarrow> ChannelInfo list \<Rightarrow> tcp_error + u8 list" where
  "EncodeChannelListResponsePayload serialize channels =
     (case channel_tables channels of
        Inl e \<Rightarrow> Inl e
      | Inr entries \<Rightarrow> FinishTcpPayload serialize (Tcp_ChannelListResponse (Some entries)))"

definition valid_channel_table :: "ChannelInfoTable \<Rightarrow> bool" where
  "valid_channel_table t \<longleftrightarrow>
     \<not> (cit_channel_id t = 0 \<or> cit_display_name t = [] \<or> cit_max_players t = 0 \<or>
        cit_max_players t < cit_current_players t)"

text \<open>\<open>ChannelListEntry\<close> has the fields of the table.\<close>

definition DecodeChannelListResponsePayload :: "tcp_parser \<Rightarrow> u8 list \<Rightarrow> tcp_error + ChannelInfoTable list" where
  "DecodeChannelListResponsePayload parse payload =
     (case DecodeTcpPayload parse as_ChannelListResponse payload of
        Inl e \<Rightarrow> Inl e
      | Inr entries \<Rightarrow> if list_all valid_channel_table entries then Inr entries else Inl InvalidTcpData)"

definition EncodeJoinChannelRequestPayload :: "tcp_serializer \<Rightarrow> ChannelId \<Rightarrow> tcp_error + u8 list" where
  "EncodeJoinChannelRequestPayload serialize channelId =
     (if channelId = 0 then Inl InvalidTcpArgument
      else FinishTcpPayload serialize (Tcp_JoinChannelRequest (Some channelId)))"

definition DecodeJoinChannelRequestPayload :: "tcp_parser \<Rightarrow> u8 list \<Rightarrow> tcp_error + ChannelId" where
  "DecodeJoinChannelRequestPayload parse payload =
     (case DecodeTcpPayload parse as_JoinChannelRequest payload of
        Inl e \<Rightarrow> Inl e
      | Inr channelId \<Rightarrow> if channelId = 0 then Inl InvalidTcpData else Inr channelId)"

definition EncodeJoinChannelResponsePayload ::
    "tcp_serializer \<Rightarrow> JoinChannelResult \<times> ChannelId \<Rightarrow> tcp_error + u8 list" where
  "EncodeJoinChannelResponsePayload serialize = (\<lambda>(result, channelId).
     if \<not> IsValidJoinChannelResponse result channelId then Inl InvalidTcpArgument
     else FinishTcpPayload serialize (Tcp_JoinChannelResponse (Some (to_code joinChannelResults result, channelId))))"

definition DecodeJoinChannelResponsePayload ::
    "tcp_parser \<Rightarrow> u8 list \<Rightarrow> tcp_error + JoinChannelResult \<times> ChannelId" where
  "DecodeJoinChannelResponsePayload parse payload =
     (case DecodeTcpPayload parse as_JoinChannelResponse payload of
        Inl e \<Rightarrow> Inl e
      | Inr (code, channelId) \<Rightarrow>
          (case of_code joinChannelResults code of
             None \<Rightarrow> Inl InvalidTcpData
           | Some result \<Rightarrow>
               if \<not> IsValidJoinChannelResponse result channelId then Inl InvalidTcpData else Inr (result, channelId)))"

section \<open>Dungeon admission and connection\<close>

definition IsValidEnterDungeonResponse :: "EnterDungeonResult \<Rightarrow> DungeonId \<Rightarrow> u16 \<Rightarrow> DungeonUdpToken \<Rightarrow> bool" where
  "IsValidEnterDungeonResponse result dungeonId udpPort udpToken \<longleftrightarrow>
     (let succeeded = (result = EnterSuccess) in succeeded = (dungeonId \<noteq> 0) \<and> succeeded = (udpPort \<noteq> 0) \<and> succeeded = (udpToken \<noteq> 0))"

definition EncodeEnterDungeonRequestPayload :: "tcp_serializer \<Rightarrow> DungeonTemplateId \<Rightarrow> tcp_error + u8 list" where
  "EncodeEnterDungeonRequestPayload serialize templateId =
     (if templateId = 0 then Inl InvalidTcpArgument
      else FinishTcpPayload serialize (Tcp_EnterDungeonRequest (Some templateId)))"

definition DecodeEnterDungeonRequestPayload :: "tcp_parser \<Rightarrow> u8 list \<Rightarrow> tcp_error + DungeonTemplateId" where
  "DecodeEnterDungeonRequestPayload parse payload =
     (case DecodeTcpPayload parse as_EnterDungeonRequest payload of
        Inl e \<Rightarrow> Inl e
      | Inr templateId \<Rightarrow> if templateId = 0 then Inl InvalidTcpData else Inr templateId)"

definition EncodeEnterDungeonResponsePayload ::
    "tcp_serializer \<Rightarrow> EnterDungeonResult \<times> DungeonId \<times> u16 \<times> DungeonUdpToken \<Rightarrow> tcp_error + u8 list" where
  "EncodeEnterDungeonResponsePayload serialize = (\<lambda>(result, dungeonId, udpPort, udpToken).
     if \<not> IsValidEnterDungeonResponse result dungeonId udpPort udpToken then Inl InvalidTcpArgument
     else FinishTcpPayload serialize (Tcp_EnterDungeonResponse (Some (to_code enterDungeonResults result, dungeonId, udpPort, udpToken))))"

definition DecodeEnterDungeonResponsePayload ::
    "tcp_parser \<Rightarrow> u8 list \<Rightarrow> tcp_error + EnterDungeonResult \<times> DungeonId \<times> u16 \<times> DungeonUdpToken" where
  "DecodeEnterDungeonResponsePayload parse payload =
     (case DecodeTcpPayload parse as_EnterDungeonResponse payload of
        Inl e \<Rightarrow> Inl e
      | Inr (code, dungeonId, udpPort, udpToken) \<Rightarrow>
          (case of_code enterDungeonResults code of
             None \<Rightarrow> Inl InvalidTcpData
           | Some result \<Rightarrow>
               if \<not> IsValidEnterDungeonResponse result dungeonId udpPort udpToken then Inl InvalidTcpData else Inr (result, dungeonId, udpPort, udpToken)))"

definition IsValidConnectionInfoResponse :: "DungeonConnectionInfoResult \<Rightarrow> DungeonId \<Rightarrow> u16 \<Rightarrow> DungeonUdpToken \<Rightarrow> bool" where
  "IsValidConnectionInfoResponse result dungeonId udpPort udpToken \<longleftrightarrow>
     (let succeeded = (result = InfoSuccess) in succeeded = (dungeonId \<noteq> 0) \<and> succeeded = (udpPort \<noteq> 0) \<and> succeeded = (udpToken \<noteq> 0))"

definition ValidateDungeonConnectionInfoRequestPayload :: "tcp_parser \<Rightarrow> u8 list \<Rightarrow> tcp_error + unit" where
  "ValidateDungeonConnectionInfoRequestPayload parse = DecodeTcpPayload parse as_ConnectionInfoRequest"

definition EncodeDungeonConnectionInfoRequestPayload :: "tcp_serializer \<Rightarrow> unit \<Rightarrow> tcp_error + u8 list" where
  "EncodeDungeonConnectionInfoRequestPayload serialize _ = FinishTcpPayload serialize (Tcp_DungeonConnectionInfoRequest (Some ()))"

definition EncodeDungeonConnectionInfoResponsePayload ::
    "tcp_serializer \<Rightarrow> DungeonConnectionInfoResult \<times> DungeonId \<times> u16 \<times> DungeonUdpToken \<Rightarrow> tcp_error + u8 list" where
  "EncodeDungeonConnectionInfoResponsePayload serialize = (\<lambda>(result, dungeonId, udpPort, udpToken).
     if \<not> IsValidConnectionInfoResponse result dungeonId udpPort udpToken then Inl InvalidTcpArgument
     else FinishTcpPayload serialize (Tcp_DungeonConnectionInfoResponse (Some (to_code connectionInfoResults result, dungeonId, udpPort, udpToken))))"

definition DecodeDungeonConnectionInfoResponsePayload ::
    "tcp_parser \<Rightarrow> u8 list \<Rightarrow> tcp_error + DungeonConnectionInfoResult \<times> DungeonId \<times> u16 \<times> DungeonUdpToken" where
  "DecodeDungeonConnectionInfoResponsePayload parse payload =
     (case DecodeTcpPayload parse as_ConnectionInfoResponse payload of
        Inl e \<Rightarrow> Inl e
      | Inr (code, dungeonId, udpPort, udpToken) \<Rightarrow>
          (case of_code connectionInfoResults code of
             None \<Rightarrow> Inl InvalidTcpData
           | Some result \<Rightarrow>
               if \<not> IsValidConnectionInfoResponse result dungeonId udpPort udpToken then Inl InvalidTcpData else Inr (result, dungeonId, udpPort, udpToken)))"

section \<open>Parties\<close>

definition IsValidCreatePartyResponse :: "CreatePartyResult \<Rightarrow> PartyId \<Rightarrow> SessionId \<Rightarrow> bool" where
  "IsValidCreatePartyResponse result partyId leaderSessionId \<longleftrightarrow>
     (let succeeded = (result = CreateParty_Success) in succeeded = (partyId \<noteq> 0) \<and> succeeded = (leaderSessionId \<noteq> 0))"

definition IsValidJoinPartyResponse :: "JoinPartyResult \<Rightarrow> PartyId \<Rightarrow> SessionId \<Rightarrow> bool" where
  "IsValidJoinPartyResponse result partyId leaderSessionId \<longleftrightarrow>
     (let succeeded = (result = JoinParty_Success) in succeeded = (partyId \<noteq> 0) \<and> succeeded = (leaderSessionId \<noteq> 0))"

text \<open>The two nested loops over the members: a zero or a repeated member is refused, the leader must occur.\<close>

fun check_members :: "SessionId \<Rightarrow> SessionId list \<Rightarrow> SessionId list \<Rightarrow> bool \<Rightarrow> bool" where
  "check_members leader previous [] leaderFound = leaderFound"
| "check_members leader previous (m # rest) leaderFound =
     (if m = 0 then False
      else
        let leaderFound = (if m = leader then True else leaderFound) in
        if list_ex (\<lambda>p. p = m) previous then False else check_members leader (previous @ [m]) rest leaderFound)"

definition IsValidPartySnapshot ::
    "PartySnapshotResult \<Rightarrow> PartyId \<Rightarrow> SessionId \<Rightarrow> SessionId list \<Rightarrow> bool" where
  "IsValidPartySnapshot result partyId leaderSessionId members =
     (if result = PartySnapshot_NotInParty then partyId = 0 \<and> leaderSessionId = 0 \<and> members = []
      else if partyId = 0 \<or> leaderSessionId = 0 \<or> members = [] \<or> MAX_PARTY_MEMBERS < length members then False
      else check_members leaderSessionId [] members False)"

definition ValidateCreatePartyRequestPayload :: "tcp_parser \<Rightarrow> u8 list \<Rightarrow> tcp_error + unit" where
  "ValidateCreatePartyRequestPayload parse = DecodeTcpPayload parse as_CreatePartyRequest"

definition EncodeCreatePartyRequestPayload :: "tcp_serializer \<Rightarrow> unit \<Rightarrow> tcp_error + u8 list" where
  "EncodeCreatePartyRequestPayload serialize _ = FinishTcpPayload serialize (Tcp_CreatePartyRequest (Some ()))"

definition EncodeCreatePartyResponsePayload ::
    "tcp_serializer \<Rightarrow> CreatePartyResult \<times> PartyId \<times> SessionId \<Rightarrow> tcp_error + u8 list" where
  "EncodeCreatePartyResponsePayload serialize = (\<lambda>(result, partyId, leaderSessionId).
     if \<not> IsValidCreatePartyResponse result partyId leaderSessionId then Inl InvalidTcpArgument
     else FinishTcpPayload serialize (Tcp_CreatePartyResponse (Some (to_code createPartyResults result, partyId, leaderSessionId))))"

definition DecodeCreatePartyResponsePayload ::
    "tcp_parser \<Rightarrow> u8 list \<Rightarrow> tcp_error + CreatePartyResult \<times> PartyId \<times> SessionId" where
  "DecodeCreatePartyResponsePayload parse payload =
     (case DecodeTcpPayload parse as_CreatePartyResponse payload of
        Inl e \<Rightarrow> Inl e
      | Inr (code, partyId, leaderSessionId) \<Rightarrow>
          (case of_code createPartyResults code of
             None \<Rightarrow> Inl InvalidTcpData
           | Some result \<Rightarrow>
               if \<not> IsValidCreatePartyResponse result partyId leaderSessionId then Inl InvalidTcpData else Inr (result, partyId, leaderSessionId)))"

definition EncodeJoinPartyRequestPayload :: "tcp_serializer \<Rightarrow> PartyId \<Rightarrow> tcp_error + u8 list" where
  "EncodeJoinPartyRequestPayload serialize partyId =
     (if partyId = 0 then Inl InvalidTcpArgument
      else FinishTcpPayload serialize (Tcp_JoinPartyRequest (Some partyId)))"

definition DecodeJoinPartyRequestPayload :: "tcp_parser \<Rightarrow> u8 list \<Rightarrow> tcp_error + PartyId" where
  "DecodeJoinPartyRequestPayload parse payload =
     (case DecodeTcpPayload parse as_JoinPartyRequest payload of
        Inl e \<Rightarrow> Inl e
      | Inr partyId \<Rightarrow> if partyId = 0 then Inl InvalidTcpData else Inr partyId)"

definition EncodeJoinPartyResponsePayload ::
    "tcp_serializer \<Rightarrow> JoinPartyResult \<times> PartyId \<times> SessionId \<Rightarrow> tcp_error + u8 list" where
  "EncodeJoinPartyResponsePayload serialize = (\<lambda>(result, partyId, leaderSessionId).
     if \<not> IsValidJoinPartyResponse result partyId leaderSessionId then Inl InvalidTcpArgument
     else FinishTcpPayload serialize (Tcp_JoinPartyResponse (Some (to_code joinPartyResults result, partyId, leaderSessionId))))"

definition DecodeJoinPartyResponsePayload ::
    "tcp_parser \<Rightarrow> u8 list \<Rightarrow> tcp_error + JoinPartyResult \<times> PartyId \<times> SessionId" where
  "DecodeJoinPartyResponsePayload parse payload =
     (case DecodeTcpPayload parse as_JoinPartyResponse payload of
        Inl e \<Rightarrow> Inl e
      | Inr (code, partyId, leaderSessionId) \<Rightarrow>
          (case of_code joinPartyResults code of
             None \<Rightarrow> Inl InvalidTcpData
           | Some result \<Rightarrow>
               if \<not> IsValidJoinPartyResponse result partyId leaderSessionId then Inl InvalidTcpData else Inr (result, partyId, leaderSessionId)))"

definition ValidateLeavePartyRequestPayload :: "tcp_parser \<Rightarrow> u8 list \<Rightarrow> tcp_error + unit" where
  "ValidateLeavePartyRequestPayload parse = DecodeTcpPayload parse as_LeavePartyRequest"

definition EncodeLeavePartyRequestPayload :: "tcp_serializer \<Rightarrow> unit \<Rightarrow> tcp_error + u8 list" where
  "EncodeLeavePartyRequestPayload serialize _ = FinishTcpPayload serialize (Tcp_LeavePartyRequest (Some ()))"

definition EncodeLeavePartyResponsePayload :: "tcp_serializer \<Rightarrow> LeavePartyResult \<Rightarrow> tcp_error + u8 list" where
  "EncodeLeavePartyResponsePayload serialize result =
     FinishTcpPayload serialize (Tcp_LeavePartyResponse (Some (to_code leavePartyResults result)))"

definition DecodeLeavePartyResponsePayload :: "tcp_parser \<Rightarrow> u8 list \<Rightarrow> tcp_error + LeavePartyResult" where
  "DecodeLeavePartyResponsePayload parse payload =
     (case DecodeTcpPayload parse as_LeavePartyResponse payload of
        Inl e \<Rightarrow> Inl e
      | Inr code \<Rightarrow>
          (case of_code leavePartyResults code of None \<Rightarrow> Inl InvalidTcpData | Some result \<Rightarrow> Inr result))"

definition ValidatePartySnapshotRequestPayload :: "tcp_parser \<Rightarrow> u8 list \<Rightarrow> tcp_error + unit" where
  "ValidatePartySnapshotRequestPayload parse = DecodeTcpPayload parse as_PartySnapshotRequest"

definition EncodePartySnapshotRequestPayload :: "tcp_serializer \<Rightarrow> unit \<Rightarrow> tcp_error + u8 list" where
  "EncodePartySnapshotRequestPayload serialize _ = FinishTcpPayload serialize (Tcp_PartySnapshotRequest (Some ()))"

definition EncodePartySnapshotResponsePayload ::
    "tcp_serializer \<Rightarrow> PartySnapshotResult \<times> PartyId \<times> SessionId \<times> SessionId list \<Rightarrow> tcp_error + u8 list" where
  "EncodePartySnapshotResponsePayload serialize = (\<lambda>(result, partyId, leaderSessionId, members).
     if \<not> IsValidPartySnapshot result partyId leaderSessionId members then Inl InvalidTcpArgument
     else FinishTcpPayload serialize (Tcp_PartySnapshotResponse (Some (to_code partySnapshotResults result, partyId, leaderSessionId, members))))"

definition DecodePartySnapshotResponsePayload ::
    "tcp_parser \<Rightarrow> u8 list \<Rightarrow> tcp_error + PartySnapshotResult \<times> PartyId \<times> SessionId \<times> SessionId list" where
  "DecodePartySnapshotResponsePayload parse payload =
     (case DecodeTcpPayload parse as_PartySnapshotResponse payload of
        Inl e \<Rightarrow> Inl e
      | Inr (code, partyId, leaderSessionId, members) \<Rightarrow>
          (case of_code partySnapshotResults code of
             None \<Rightarrow> Inl InvalidTcpData
           | Some result \<Rightarrow>
               if \<not> IsValidPartySnapshot result partyId leaderSessionId members then Inl InvalidTcpData else Inr (result, partyId, leaderSessionId, members)))"

section \<open>The dungeon catalog\<close>

definition IsValidDungeonEntry :: "DungeonTemplateId \<Rightarrow> string \<Rightarrow> u8 \<Rightarrow> u8 \<Rightarrow> bool" where
  "IsValidDungeonEntry templateId displayName recommendedPartySize maxPartySize \<longleftrightarrow>
     templateId \<noteq> 0 \<and> displayName \<noteq> [] \<and> recommendedPartySize \<noteq> 0 \<and> maxPartySize \<noteq> 0 \<and>
     recommendedPartySize \<le> maxPartySize \<and> unat maxPartySize \<le> MAX_PARTY_MEMBERS"

definition ValidateDungeonCatalogRequestPayload :: "tcp_parser \<Rightarrow> u8 list \<Rightarrow> tcp_error + unit" where
  "ValidateDungeonCatalogRequestPayload parse = DecodeTcpPayload parse as_DungeonCatalogRequest"

definition EncodeDungeonCatalogRequestPayload :: "tcp_serializer \<Rightarrow> unit \<Rightarrow> tcp_error + u8 list" where
  "EncodeDungeonCatalogRequestPayload serialize _ = FinishTcpPayload serialize (Tcp_DungeonCatalogRequest (Some ()))"

fun catalog_tables :: "DungeonTemplate list \<Rightarrow> tcp_error + DungeonCatalogEntryTable list" where
  "catalog_tables [] = Inr []"
| "catalog_tables (d # ds) =
     (if \<not> IsValidDungeonEntry (dt_id d) (dt_name d) (dt_recommendedPartySize d) (dt_maxPartySize d)
      then Inl InvalidTcpArgument
      else case catalog_tables ds of
             Inl e \<Rightarrow> Inl e
           | Inr ts \<Rightarrow>
               Inr (\<lparr>dce_dungeon_template_id = dt_id d, dce_display_name = dt_name d,
                     dce_recommended_party_size = dt_recommendedPartySize d,
                     dce_max_party_size = dt_maxPartySize d, dce_available = True\<rparr> # ts))"

definition EncodeDungeonCatalogResponsePayload ::
    "tcp_serializer \<Rightarrow> CatalogResult \<times> DungeonTemplate list \<Rightarrow> tcp_error + u8 list" where
  "EncodeDungeonCatalogResponsePayload serialize = (\<lambda>(result, dungeons).
     if result = Catalog_Unavailable \<and> dungeons \<noteq> [] then Inl InvalidTcpArgument
     else case catalog_tables dungeons of
            Inl e \<Rightarrow> Inl e
          | Inr entries \<Rightarrow>
              FinishTcpPayload serialize (Tcp_DungeonCatalogResponse (Some (to_code catalogResults result, entries))))"

text \<open>The loop over the entries, with the set of the identifiers met so far.\<close>

fun check_entries :: "DungeonTemplateId list \<Rightarrow> DungeonCatalogEntryTable list \<Rightarrow> bool" where
  "check_entries templateIds [] = True"
| "check_entries templateIds (t # ts) =
     (if \<not> IsValidDungeonEntry (dce_dungeon_template_id t) (dce_display_name t) (dce_recommended_party_size t)
             (dce_max_party_size t) \<or>
         List.member templateIds (dce_dungeon_template_id t)
      then False else check_entries (dce_dungeon_template_id t # templateIds) ts)"

definition DecodeDungeonCatalogResponsePayload ::
    "tcp_parser \<Rightarrow> u8 list \<Rightarrow> tcp_error + CatalogResult \<times> DungeonCatalogEntryTable list" where
  "DecodeDungeonCatalogResponsePayload parse payload =
     (case DecodeTcpPayload parse as_DungeonCatalogResponse payload of
        Inl e \<Rightarrow> Inl e
      | Inr (code, entries) \<Rightarrow>
          (case of_code catalogResults code of
             None \<Rightarrow> Inl InvalidTcpData
           | Some result \<Rightarrow>
               if result = Catalog_Unavailable \<and> entries \<noteq> [] \<or> \<not> check_entries [] entries
               then Inl InvalidTcpData else Inr (result, entries)))"

section \<open>Payload codecs\<close>

text \<open>What the code relies on: the builder's output is not empty, verifies and reads back as it was built.\<close>

definition tcp_faithful :: "tcp_parser \<Rightarrow> tcp_serializer \<Rightarrow> bool" where
  "tcp_faithful parse serialize \<longleftrightarrow> (\<forall>m. serialize m \<noteq> [] \<and> parse (serialize m) = Some m)"

lemma Decode_Finish:
  assumes "tcp_faithful parse serialize" "FinishTcpPayload serialize p = Inr bs"
  shows "DecodeTcpPayload parse payload_as bs =
    (case payload_as p of None \<Rightarrow> Inl UnexpectedTcpPayloadType | Some t \<Rightarrow> Inr t)"
  using assms by (auto simp: tcp_faithful_def FinishTcpPayload_def DecodeTcpPayload_def split: if_splits)

lemma Finish_Inr: "p \<noteq> Tcp_NONE \<Longrightarrow> \<exists>bs. FinishTcpPayload serialize p = Inr bs"
  by (simp add: FinishTcpPayload_def)

text \<open>An encoder and a decoder that carry the valid values, as the receiver sees them, and refuse the others.\<close>

definition carries ::
    "tcp_parser \<Rightarrow> tcp_serializer \<Rightarrow> (tcp_serializer \<Rightarrow> 'a \<Rightarrow> tcp_error + u8 list) \<Rightarrow>
     (tcp_parser \<Rightarrow> u8 list \<Rightarrow> tcp_error + 'b) \<Rightarrow> ('a \<Rightarrow> bool) \<Rightarrow> ('a \<Rightarrow> 'b) \<Rightarrow> bool" where
  "carries parse serialize encode decode valid view \<longleftrightarrow>
     (\<forall>x. if valid x then \<exists>bs. encode serialize x = Inr bs \<and> decode parse bs = Inr (view x)
          else encode serialize x = Inl InvalidTcpArgument)"

text \<open>
  The interface between the request handlers and the wire: an encoder refuses exactly the values that are
  not valid, a decoder reads what the encoder wrote and hands out valid values only. \<open>view\<close> is what the
  receiver sees of the value.
\<close>

locale payload_codec =
  fixes encode :: "tcp_serializer \<Rightarrow> 'a \<Rightarrow> tcp_error + u8 list"
    and decode :: "tcp_parser \<Rightarrow> u8 list \<Rightarrow> tcp_error + 'b"
    and valid :: "'a \<Rightarrow> bool"
    and view :: "'a \<Rightarrow> 'b"
    and acceptable :: "'b \<Rightarrow> bool"
  assumes encode_accepts: "valid x \<Longrightarrow> \<exists>bs. encode serialize x = Inr bs"
    and encode_refuses: "\<not> valid x \<Longrightarrow> encode serialize x = Inl InvalidTcpArgument"
    and decode_encode: "tcp_faithful parse serialize \<Longrightarrow> encode serialize x = Inr bs \<Longrightarrow> decode parse bs = Inr (view x)"
    and decode_acceptable: "decode parse bs = Inr y \<Longrightarrow> acceptable y"
begin

lemma roundtrip:
  assumes "tcp_faithful parse serialize" "valid x"
  shows "\<exists>bs. encode serialize x = Inr bs \<and> decode parse bs = Inr (view x)"
  using encode_accepts [OF assms(2)] decode_encode [OF assms(1)] by blast

lemma carries:
  assumes "tcp_faithful parse serialize"
  shows "carries parse serialize encode decode valid view"
  using roundtrip [OF assms] encode_refuses by (simp add: carries_def)

lemma view_acceptable: "tcp_faithful parse serialize \<Longrightarrow> valid x \<Longrightarrow> acceptable (view x)"
  using roundtrip decode_acceptable by blast

lemma no_confusion:
  assumes "tcp_faithful parse serialize" "encode serialize x = Inr bs" "encode serialize y = Inr bs"
  shows "view x = view y"
  using decode_encode [OF assms(1,2)] decode_encode [OF assms(1,3)] by simp

end

lemma FinishTcpPayload_Inr [simp]:
  "p \<noteq> Tcp_NONE \<Longrightarrow> FinishTcpPayload serialize p =
     Inr (serialize \<lparr>tcp_protocol_version = TCP_PAYLOAD_PROTOCOL_VERSION, tcp_payload = p\<rparr>)"
  by (simp add: FinishTcpPayload_def)

lemma DecodeTcpPayload_serialize:
  "tcp_faithful parse serialize \<Longrightarrow>
   DecodeTcpPayload parse payload_as (serialize \<lparr>tcp_protocol_version = TCP_PAYLOAD_PROTOCOL_VERSION, tcp_payload = p\<rparr>) =
     (case payload_as p of None \<Rightarrow> Inl UnexpectedTcpPayloadType | Some t \<Rightarrow> Inr t)"
  by (simp add: tcp_faithful_def DecodeTcpPayload_def)

interpretation login_request: payload_codec EncodeLoginRequestPayload DecodeLoginRequestPayload "IsValidAuthTicket" id "IsValidAuthTicket"
  by unfold_locales
     (auto simp: EncodeLoginRequestPayload_def DecodeLoginRequestPayload_def  DecodeTcpPayload_serialize
      split: if_splits sum.splits option.splits)

interpretation login_response: payload_codec EncodeLoginResponsePayload DecodeLoginResponsePayload "\<lambda>(r, x). IsValidLoginResponse r x" id "\<lambda>(r, x). IsValidLoginResponse r x"
  by unfold_locales
     (auto simp: EncodeLoginResponsePayload_def DecodeLoginResponsePayload_def  DecodeTcpPayload_serialize
      split: if_splits sum.splits option.splits)

interpretation channel_list_request: payload_codec EncodeChannelListRequestPayload ValidateChannelListRequestPayload "\<lambda>_ :: unit. True" id "\<lambda>_ :: unit. True"
  by unfold_locales
     (auto simp: EncodeChannelListRequestPayload_def ValidateChannelListRequestPayload_def  DecodeTcpPayload_serialize
      split: if_splits sum.splits option.splits)

interpretation join_channel_request: payload_codec EncodeJoinChannelRequestPayload DecodeJoinChannelRequestPayload "\<lambda>c. c \<noteq> 0" id "\<lambda>c. c \<noteq> 0"
  by unfold_locales
     (auto simp: EncodeJoinChannelRequestPayload_def DecodeJoinChannelRequestPayload_def  DecodeTcpPayload_serialize
      split: if_splits sum.splits option.splits)

interpretation join_channel_response: payload_codec EncodeJoinChannelResponsePayload DecodeJoinChannelResponsePayload "\<lambda>(r, c). IsValidJoinChannelResponse r c" id "\<lambda>(r, c). IsValidJoinChannelResponse r c"
  by unfold_locales
     (auto simp: EncodeJoinChannelResponsePayload_def DecodeJoinChannelResponsePayload_def  DecodeTcpPayload_serialize
      split: if_splits sum.splits option.splits)

interpretation enter_request: payload_codec EncodeEnterDungeonRequestPayload DecodeEnterDungeonRequestPayload "\<lambda>t. t \<noteq> 0" id "\<lambda>t. t \<noteq> 0"
  by unfold_locales
     (auto simp: EncodeEnterDungeonRequestPayload_def DecodeEnterDungeonRequestPayload_def  DecodeTcpPayload_serialize
      split: if_splits sum.splits option.splits)

interpretation enter_response: payload_codec EncodeEnterDungeonResponsePayload DecodeEnterDungeonResponsePayload "\<lambda>(r, i, p, t). IsValidEnterDungeonResponse r i p t" id "\<lambda>(r, i, p, t). IsValidEnterDungeonResponse r i p t"
  by unfold_locales
     (auto simp: EncodeEnterDungeonResponsePayload_def DecodeEnterDungeonResponsePayload_def  DecodeTcpPayload_serialize
      split: if_splits sum.splits option.splits)

interpretation info_request: payload_codec EncodeDungeonConnectionInfoRequestPayload ValidateDungeonConnectionInfoRequestPayload "\<lambda>_ :: unit. True" id "\<lambda>_ :: unit. True"
  by unfold_locales
     (auto simp: EncodeDungeonConnectionInfoRequestPayload_def ValidateDungeonConnectionInfoRequestPayload_def  DecodeTcpPayload_serialize
      split: if_splits sum.splits option.splits)

interpretation info_response: payload_codec EncodeDungeonConnectionInfoResponsePayload DecodeDungeonConnectionInfoResponsePayload "\<lambda>(r, i, p, t). IsValidConnectionInfoResponse r i p t" id "\<lambda>(r, i, p, t). IsValidConnectionInfoResponse r i p t"
  by unfold_locales
     (auto simp: EncodeDungeonConnectionInfoResponsePayload_def DecodeDungeonConnectionInfoResponsePayload_def  DecodeTcpPayload_serialize
      split: if_splits sum.splits option.splits)

interpretation create_party_request: payload_codec EncodeCreatePartyRequestPayload ValidateCreatePartyRequestPayload "\<lambda>_ :: unit. True" id "\<lambda>_ :: unit. True"
  by unfold_locales
     (auto simp: EncodeCreatePartyRequestPayload_def ValidateCreatePartyRequestPayload_def  DecodeTcpPayload_serialize
      split: if_splits sum.splits option.splits)

interpretation create_party_response: payload_codec EncodeCreatePartyResponsePayload DecodeCreatePartyResponsePayload "\<lambda>(r, p, x). IsValidCreatePartyResponse r p x" id "\<lambda>(r, p, x). IsValidCreatePartyResponse r p x"
  by unfold_locales
     (auto simp: EncodeCreatePartyResponsePayload_def DecodeCreatePartyResponsePayload_def  DecodeTcpPayload_serialize
      split: if_splits sum.splits option.splits)

interpretation join_party_request: payload_codec EncodeJoinPartyRequestPayload DecodeJoinPartyRequestPayload "\<lambda>p. p \<noteq> 0" id "\<lambda>p. p \<noteq> 0"
  by unfold_locales
     (auto simp: EncodeJoinPartyRequestPayload_def DecodeJoinPartyRequestPayload_def  DecodeTcpPayload_serialize
      split: if_splits sum.splits option.splits)

interpretation join_party_response: payload_codec EncodeJoinPartyResponsePayload DecodeJoinPartyResponsePayload "\<lambda>(r, p, x). IsValidJoinPartyResponse r p x" id "\<lambda>(r, p, x). IsValidJoinPartyResponse r p x"
  by unfold_locales
     (auto simp: EncodeJoinPartyResponsePayload_def DecodeJoinPartyResponsePayload_def  DecodeTcpPayload_serialize
      split: if_splits sum.splits option.splits)

interpretation leave_party_request: payload_codec EncodeLeavePartyRequestPayload ValidateLeavePartyRequestPayload "\<lambda>_ :: unit. True" id "\<lambda>_ :: unit. True"
  by unfold_locales
     (auto simp: EncodeLeavePartyRequestPayload_def ValidateLeavePartyRequestPayload_def  DecodeTcpPayload_serialize
      split: if_splits sum.splits option.splits)

interpretation leave_party_response: payload_codec EncodeLeavePartyResponsePayload DecodeLeavePartyResponsePayload "\<lambda>_. True" id "\<lambda>_. True"
  by unfold_locales
     (auto simp: EncodeLeavePartyResponsePayload_def DecodeLeavePartyResponsePayload_def  DecodeTcpPayload_serialize
      split: if_splits sum.splits option.splits)

interpretation party_snapshot_request: payload_codec EncodePartySnapshotRequestPayload ValidatePartySnapshotRequestPayload "\<lambda>_ :: unit. True" id "\<lambda>_ :: unit. True"
  by unfold_locales
     (auto simp: EncodePartySnapshotRequestPayload_def ValidatePartySnapshotRequestPayload_def  DecodeTcpPayload_serialize
      split: if_splits sum.splits option.splits)

interpretation party_snapshot_response: payload_codec EncodePartySnapshotResponsePayload DecodePartySnapshotResponsePayload "\<lambda>(r, p, x, xs). IsValidPartySnapshot r p x xs" id "\<lambda>(r, p, x, xs). IsValidPartySnapshot r p x xs"
  by unfold_locales
     (auto simp: EncodePartySnapshotResponsePayload_def DecodePartySnapshotResponsePayload_def  DecodeTcpPayload_serialize
      split: if_splits sum.splits option.splits)

interpretation catalog_request: payload_codec EncodeDungeonCatalogRequestPayload ValidateDungeonCatalogRequestPayload "\<lambda>_ :: unit. True" id "\<lambda>_ :: unit. True"
  by unfold_locales
     (auto simp: EncodeDungeonCatalogRequestPayload_def ValidateDungeonCatalogRequestPayload_def  DecodeTcpPayload_serialize
      split: if_splits sum.splits option.splits)

text \<open>The list of channels: what the client sees of an entry has the same fields, the counts as 32-bit numbers.\<close>

definition valid_channel :: "ChannelInfo \<Rightarrow> bool" where
  "valid_channel c \<longleftrightarrow> ch_id c \<noteq> 0 \<and> ch_name c \<noteq> [] \<and> 0 < ch_maxPlayers c \<and>
     ch_currentPlayers c \<le> ch_maxPlayers c \<and> ch_maxPlayers c < 2 ^ 32"

definition channel_view :: "ChannelInfo \<Rightarrow> ChannelInfoTable" where
  "channel_view c = \<lparr>cit_channel_id = ch_id c, cit_display_name = ch_name c,
     cit_current_players = of_nat (ch_currentPlayers c), cit_max_players = of_nat (ch_maxPlayers c)\<rparr>"

lemma channel_tables_eq:
  "channel_tables cs = (if list_all valid_channel cs then Inr (map channel_view cs) else Inl InvalidTcpArgument)"
  by (induction cs) (auto simp: valid_channel_def channel_view_def)

lemma channel_view_valid: "valid_channel c \<Longrightarrow> valid_channel_table (channel_view c)"
  by (auto simp: valid_channel_def valid_channel_table_def channel_view_def word_less_nat_alt unat_of_nat
      dest!: arg_cong [where f = unat])

interpretation channel_list_response: payload_codec EncodeChannelListResponsePayload DecodeChannelListResponsePayload
    "list_all valid_channel" "map channel_view" "list_all valid_channel_table"
  by unfold_locales
     (auto simp: EncodeChannelListResponsePayload_def DecodeChannelListResponsePayload_def channel_tables_eq
       DecodeTcpPayload_serialize list_all_iff channel_view_valid split: if_splits sum.splits)

text \<open>The check of a party snapshot in closed form.\<close>

lemma check_members_iff:
  "check_members leader previous xs found \<longleftrightarrow>
     0 \<notin> set xs \<and> distinct xs \<and> set previous \<inter> set xs = {} \<and> (found \<or> leader \<in> set xs)"
  by (induction leader previous xs found rule: check_members.induct) (auto simp: list_ex_iff Let_def)

lemma IsValidPartySnapshot_iff:
  "IsValidPartySnapshot r p x xs \<longleftrightarrow>
     (case r of PartySnapshot_NotInParty \<Rightarrow> p = 0 \<and> x = 0 \<and> xs = []
      | PartySnapshot_Success \<Rightarrow> p \<noteq> 0 \<and> x \<in> set xs \<and> 0 \<notin> set xs \<and> distinct xs \<and> length xs \<le> MAX_PARTY_MEMBERS)"
  by (auto simp: IsValidPartySnapshot_def check_members_iff split: PartySnapshotResult.splits)

text \<open>The catalog: the encoder checks the entries, the decoder also that no identifier occurs twice.\<close>

definition catalog_view :: "DungeonTemplate \<Rightarrow> DungeonCatalogEntryTable" where
  "catalog_view d = \<lparr>dce_dungeon_template_id = dt_id d, dce_display_name = dt_name d,
     dce_recommended_party_size = dt_recommendedPartySize d, dce_max_party_size = dt_maxPartySize d,
     dce_available = True\<rparr>"

definition valid_listing :: "DungeonTemplate \<Rightarrow> bool" where
  "valid_listing d \<longleftrightarrow> IsValidDungeonEntry (dt_id d) (dt_name d) (dt_recommendedPartySize d) (dt_maxPartySize d)"

lemma catalog_tables_eq:
  "catalog_tables ds = (if list_all valid_listing ds then Inr (map catalog_view ds) else Inl InvalidTcpArgument)"
  by (induction ds) (auto simp: valid_listing_def catalog_view_def)

lemma check_entries_view:
  "check_entries ids (map catalog_view ds) \<longleftrightarrow>
     list_all valid_listing ds \<and> distinct (map dt_id ds) \<and> set ids \<inter> dt_id ` set ds = {}"
  by (induction ds arbitrary: ids) (auto simp: valid_listing_def catalog_view_def)

lemma catalog_roundtrip:
  assumes "tcp_faithful parse serialize" "list_all valid_listing ds" "distinct (map dt_id ds)"
  shows "\<exists>bs. EncodeDungeonCatalogResponsePayload serialize (Catalog_Success, ds) = Inr bs \<and>
    DecodeDungeonCatalogResponsePayload parse bs = Inr (Catalog_Success, map catalog_view ds)"
  using assms check_entries_view [of "[]" ds]
  by (auto simp: EncodeDungeonCatalogResponsePayload_def DecodeDungeonCatalogResponsePayload_def catalog_tables_eq
      DecodeTcpPayload_serialize)

end
