(* ===== verification/Static_Data.thy ===== *)
theory Static_Data
  imports Tcp_Protocol
begin

text \<open>
  The static data of a dungeon on its way to a client (\<open>src/include/DungeonStaticDataProtocol.h\<close>,
  \<open>src/src/DungeonStaticDataProtocol.cpp\<close>): rooms with their portals, obstacles and spawns, and the enemies
  that spawn there.

  The loops of the validation are functions of their own, with the identifiers met so far as an argument.
  A result code and an AI type are bytes on the wire; the casts and the range checks that follow them are
  the lookup \<open>of_code\<close>.
\<close>

datatype DungeonStaticDataResult = StaticSuccess | StaticDungeonNotFound | StaticNotDungeonParticipant

definition staticDataResults :: "DungeonStaticDataResult list" where
  "staticDataResults = [StaticSuccess, StaticDungeonNotFound, StaticNotDungeonParticipant]"

definition enemyAiTypes :: "EnemyAiType list" where "enemyAiTypes = [Melee, Ranged, Boss]"

record DungeonStaticDataResponseData =
  sd_result :: DungeonStaticDataResult
  sd_dungeonId :: DungeonId
  sd_dungeonTemplateId :: DungeonTemplateId
  sd_rooms :: "RoomTemplate list"
  sd_enemyTemplates :: "EnemyTemplate list"

section \<open>Validation\<close>

definition IsFinitePosition :: "Position \<Rightarrow> bool" where
  "IsFinitePosition position \<longleftrightarrow>
     isfinite (pos_x position) \<and> isfinite (pos_y position) \<and> isfinite (pos_z position)"

definition IsValidBox :: "CollisionBox \<Rightarrow> bool" where
  "IsValidBox box \<longleftrightarrow> IsFinitePosition (box_minimum box) \<and> IsFinitePosition (box_maximum box) \<and> IsValidCollisionBox box"

fun static_enemies :: "EnemyTemplate list \<Rightarrow> EnemyTemplateId list \<Rightarrow> EnemyTemplateId list option" where
  "static_enemies [] seen = Some seen"
| "static_enemies (enemy # enemies) seen =
     (if enemy_id enemy = 0 \<or> enemy_name enemy = [] \<or> enemy_maxHp enemy = 0 \<or>
         \<not> isfinite (enemy_moveSpeed enemy) \<or> f32_lt (enemy_moveSpeed enemy) f32_0 \<or>
         \<not> IsValidBox (enemy_collision enemy) \<or>
         f32_lt (pos_z (box_minimum (enemy_collision enemy))) f32_0 \<or>
         List.member seen (enemy_id enemy)
      then None
      else static_enemies enemies (enemy_id enemy # seen))"

fun static_rooms :: "RoomTemplate list \<Rightarrow> RoomId list \<Rightarrow> bool" where
  "static_rooms [] seen = True"
| "static_rooms (room # rooms) seen =
     (if room_id room = 0 \<or> \<not> isfinite (room_width room) \<or> \<not> isfinite (room_depth room) \<or>
         f32_le (room_width room) f32_0 \<or> f32_le (room_depth room) f32_0 \<or>
         \<not> IsFinitePosition (room_playerSpawn room) \<or> f32_lt (pos_z (room_playerSpawn room)) f32_0 \<or>
         \<not> IsInsideRoom room (room_playerSpawn room) \<or> List.member seen (room_id room)
      then False
      else static_rooms rooms (room_id room # seen))"

text \<open>\<open>roomById.find\<close> is a search through the rooms, whose identifiers are distinct by then.\<close>

fun static_portals :: "RoomTemplate list \<Rightarrow> RoomTemplate \<Rightarrow> PortalTemplate list \<Rightarrow> PortalId list \<Rightarrow> bool" where
  "static_portals rooms room [] seen = True"
| "static_portals rooms room (portal # portals) seen =
     (if portal_id portal = 0 \<or> List.member seen (portal_id portal) \<or> \<not> IsValidBox (portal_triggerArea portal) \<or>
         f32_lt (pos_z (box_minimum (portal_triggerArea portal))) f32_0 \<or>
         \<not> IsInsideRoom room (box_minimum (portal_triggerArea portal)) \<or>
         \<not> IsInsideRoom room (box_maximum (portal_triggerArea portal)) \<or>
         (case find (\<lambda>t. room_id t = portal_targetRoomId portal) rooms of
            None \<Rightarrow> True
          | Some targetRoom \<Rightarrow>
              \<not> IsFinitePosition (portal_targetPosition portal) \<or>
              f32_lt (pos_z (portal_targetPosition portal)) f32_0 \<or>
              \<not> IsInsideRoom targetRoom (portal_targetPosition portal))
      then False
      else static_portals rooms room portals (portal_id portal # seen))"

fun static_obstacles :: "RoomTemplate \<Rightarrow> ObstacleTemplate list \<Rightarrow> ObstacleId list \<Rightarrow> bool" where
  "static_obstacles room [] seen = True"
| "static_obstacles room (ob # obs) seen =
     (let invalidHp = (obstacle_destructible ob \<and> obstacle_maxHp ob = 0) \<or>
                      (\<not> obstacle_destructible ob \<and> obstacle_maxHp ob \<noteq> 0) in
      if obstacle_id ob = 0 \<or> List.member seen (obstacle_id ob) \<or> \<not> IsValidBox (obstacle_collision ob) \<or>
         f32_lt (pos_z (box_minimum (obstacle_collision ob))) f32_0 \<or>
         \<not> IsInsideRoom room (box_minimum (obstacle_collision ob)) \<or>
         \<not> IsInsideRoom room (box_maximum (obstacle_collision ob)) \<or> invalidHp
      then False
      else static_obstacles room obs (obstacle_id ob # seen))"

fun static_spawns :: "EnemyTemplateId list \<Rightarrow> RoomTemplate \<Rightarrow> EnemySpawnTemplate list \<Rightarrow> EnemySpawnId list \<Rightarrow> bool" where
  "static_spawns enemyIds room [] seen = True"
| "static_spawns enemyIds room (sp # sps) seen =
     (if spawn_id sp = 0 \<or> List.member seen (spawn_id sp) \<or> \<not> List.member enemyIds (spawn_enemyTemplateId sp) \<or>
         \<not> IsFinitePosition (spawn_position sp) \<or> f32_lt (pos_z (spawn_position sp)) f32_0 \<or>
         \<not> IsInsideRoom room (spawn_position sp) \<or> spawn_wave sp = 0
      then False
      else static_spawns enemyIds room sps (spawn_id sp # seen))"

fun static_contents :: "RoomTemplate list \<Rightarrow> EnemyTemplateId list \<Rightarrow> RoomTemplate list \<Rightarrow> bool" where
  "static_contents rooms enemyIds [] = True"
| "static_contents rooms enemyIds (room # rest) =
     (if \<not> static_portals rooms room (room_portals room) [] then False
      else if \<not> static_obstacles room (room_obstacles room) [] then False
      else if \<not> static_spawns enemyIds room (room_enemySpawns room) [] then False
      else static_contents rooms enemyIds rest)"

definition IsValidStaticData :: "DungeonStaticDataResponseData \<Rightarrow> bool" where
  "IsValidStaticData d =
     (if sd_result d \<noteq> StaticSuccess
      then sd_dungeonId d = 0 \<and> sd_dungeonTemplateId d = 0 \<and> sd_rooms d = [] \<and> sd_enemyTemplates d = []
      else if sd_dungeonId d = 0 \<or> sd_dungeonTemplateId d = 0 \<or> sd_rooms d = [] then False
      else case static_enemies (sd_enemyTemplates d) [] of
        None \<Rightarrow> False
      | Some enemyTemplateIds \<Rightarrow>
          static_rooms (sd_rooms d) [] \<and> static_contents (sd_rooms d) enemyTemplateIds (sd_rooms d))"

section \<open>Encoding\<close>

definition EncodeDungeonStaticDataRequestPayload :: "tcp_serializer \<Rightarrow> DungeonId \<Rightarrow> tcp_error + u8 list" where
  "EncodeDungeonStaticDataRequestPayload serialize dungeonId =
     (if dungeonId = 0 then Inl InvalidTcpArgument
      else FinishTcpPayload serialize (Tcp_DungeonStaticDataRequest (Some dungeonId)))"

definition DecodeDungeonStaticDataRequestPayload :: "tcp_parser \<Rightarrow> u8 list \<Rightarrow> tcp_error + DungeonId" where
  "DecodeDungeonStaticDataRequestPayload parse bytes =
     (case DecodeTcpPayload parse as_StaticDataRequest bytes of
        Inl e \<Rightarrow> Inl e
      | Inr dungeonId \<Rightarrow> if dungeonId = 0 then Inl InvalidTcpData else Inr dungeonId)"

definition ToPortalTable :: "PortalTemplate \<Rightarrow> PortalStaticData" where
  "ToPortalTable portal = \<lparr>psd_portal_id = portal_id portal, psd_trigger_area = Some (portal_triggerArea portal),
     psd_target_room_id = portal_targetRoomId portal, psd_target_position = Some (portal_targetPosition portal),
     psd_requires_room_clear = portal_requiresRoomClear portal\<rparr>"

definition ToObstacleTable :: "ObstacleTemplate \<Rightarrow> ObstacleStaticData" where
  "ToObstacleTable ob = \<lparr>osd_obstacle_id = obstacle_id ob, osd_collision = Some (obstacle_collision ob),
     osd_destructible = obstacle_destructible ob, osd_max_hp = obstacle_maxHp ob\<rparr>"

definition ToSpawnTable :: "EnemySpawnTemplate \<Rightarrow> EnemySpawnStaticData" where
  "ToSpawnTable sp = \<lparr>ssd_enemy_spawn_id = spawn_id sp, ssd_enemy_template_id = spawn_enemyTemplateId sp,
     ssd_position = Some (spawn_position sp), ssd_wave = spawn_wave sp\<rparr>"

definition ToRoomTable :: "RoomTemplate \<Rightarrow> RoomStaticData" where
  "ToRoomTable room = \<lparr>rsd_room_id = room_id room, rsd_width = room_width room, rsd_depth = room_depth room,
     rsd_player_spawn = Some (room_playerSpawn room), rsd_portals = map ToPortalTable (room_portals room),
     rsd_obstacles = map ToObstacleTable (room_obstacles room), rsd_enemy_spawns = map ToSpawnTable (room_enemySpawns room)\<rparr>"

definition ToEnemyTable :: "EnemyTemplate \<Rightarrow> EnemyTemplateStaticData" where
  "ToEnemyTable enemy = \<lparr>esd_enemy_template_id = enemy_id enemy, esd_display_name = enemy_name enemy,
     esd_max_hp = enemy_maxHp enemy, esd_move_speed = enemy_moveSpeed enemy,
     esd_ai_type = to_code enemyAiTypes (enemy_aiType enemy), esd_collision = Some (enemy_collision enemy)\<rparr>"

definition EncodeDungeonStaticDataResponsePayload ::
    "tcp_serializer \<Rightarrow> DungeonStaticDataResponseData \<Rightarrow> tcp_error + u8 list" where
  "EncodeDungeonStaticDataResponsePayload serialize d =
     (if \<not> IsValidStaticData d then Inl InvalidTcpArgument
      else FinishTcpPayload serialize (Tcp_DungeonStaticDataResponse (Some
        \<lparr>sdt_result = to_code staticDataResults (sd_result d), sdt_dungeon_id = sd_dungeonId d,
         sdt_dungeon_template_id = sd_dungeonTemplateId d, sdt_rooms = map ToRoomTable (sd_rooms d),
         sdt_enemy_templates = map ToEnemyTable (sd_enemyTemplates d)\<rparr>)))"

section \<open>Decoding\<close>

text \<open>\<open>None\<close> is an exception: a position or a box is missing, or a byte names no AI type.\<close>

definition FromPortalTable :: "PortalStaticData \<Rightarrow> PortalTemplate option" where
  "FromPortalTable t =
     (case (psd_trigger_area t, psd_target_position t) of
        (Some area, Some target) \<Rightarrow> Some \<lparr>portal_id = psd_portal_id t, portal_triggerArea = area,
          portal_targetRoomId = psd_target_room_id t, portal_targetPosition = target,
          portal_requiresRoomClear = psd_requires_room_clear t\<rparr>
      | _ \<Rightarrow> None)"

definition FromObstacleTable :: "ObstacleStaticData \<Rightarrow> ObstacleTemplate option" where
  "FromObstacleTable t =
     map_option (\<lambda>collision. \<lparr>obstacle_id = osd_obstacle_id t, obstacle_collision = collision,
       obstacle_destructible = osd_destructible t, obstacle_maxHp = osd_max_hp t\<rparr>) (osd_collision t)"

definition FromSpawnTable :: "EnemySpawnStaticData \<Rightarrow> EnemySpawnTemplate option" where
  "FromSpawnTable t =
     map_option (\<lambda>position. \<lparr>spawn_id = ssd_enemy_spawn_id t, spawn_enemyTemplateId = ssd_enemy_template_id t,
       spawn_position = position, spawn_wave = ssd_wave t\<rparr>) (ssd_position t)"

fun from_tables :: "('a \<Rightarrow> 'b option) \<Rightarrow> 'a list \<Rightarrow> 'b list option" where
  "from_tables f [] = Some []"
| "from_tables f (t # ts) =
     (case f t of None \<Rightarrow> None | Some x \<Rightarrow> map_option (\<lambda>xs. x # xs) (from_tables f ts))"

definition FromRoomTable :: "RoomStaticData \<Rightarrow> RoomTemplate option" where
  "FromRoomTable t =
     (case rsd_player_spawn t of
        None \<Rightarrow> None
      | Some playerSpawn \<Rightarrow>
          (case from_tables FromPortalTable (rsd_portals t) of
             None \<Rightarrow> None
           | Some portals \<Rightarrow>
               (case from_tables FromObstacleTable (rsd_obstacles t) of
                  None \<Rightarrow> None
                | Some obstacles \<Rightarrow>
                    (case from_tables FromSpawnTable (rsd_enemy_spawns t) of
                       None \<Rightarrow> None
                     | Some spawns \<Rightarrow> Some \<lparr>room_id = rsd_room_id t, room_width = rsd_width t, room_depth = rsd_depth t,
                         room_playerSpawn = playerSpawn, room_portals = portals, room_obstacles = obstacles,
                         room_enemySpawns = spawns\<rparr>))))"

definition FromEnemyTable :: "EnemyTemplateStaticData \<Rightarrow> EnemyTemplate option" where
  "FromEnemyTable t =
     (case (of_code enemyAiTypes (esd_ai_type t), esd_collision t) of
        (Some aiType, Some collision) \<Rightarrow> Some \<lparr>enemy_id = esd_enemy_template_id t, enemy_name = esd_display_name t,
          enemy_maxHp = esd_max_hp t, enemy_moveSpeed = esd_move_speed t, enemy_aiType = aiType, enemy_collision = collision\<rparr>
      | _ \<Rightarrow> None)"

definition DecodeDungeonStaticDataResponsePayload ::
    "tcp_parser \<Rightarrow> u8 list \<Rightarrow> tcp_error + DungeonStaticDataResponseData" where
  "DecodeDungeonStaticDataResponsePayload parse bytes =
     (case DecodeTcpPayload parse as_StaticDataResponse bytes of
        Inl e \<Rightarrow> Inl e
      | Inr response \<Rightarrow>
          (case (of_code staticDataResults (sdt_result response), from_tables FromRoomTable (sdt_rooms response),
                 from_tables FromEnemyTable (sdt_enemy_templates response)) of
             (Some result, Some rooms, Some enemyTemplates) \<Rightarrow>
               let decoded = \<lparr>sd_result = result, sd_dungeonId = sdt_dungeon_id response,
                     sd_dungeonTemplateId = sdt_dungeon_template_id response, sd_rooms = rooms,
                     sd_enemyTemplates = enemyTemplates\<rparr>
               in if \<not> IsValidStaticData decoded then Inl InvalidTcpData else Inr decoded
           | _ \<Rightarrow> Inl InvalidTcpData))"

section \<open>What the validation says\<close>

text \<open>The declarative form: every number is finite, and the rest is what the catalogs require.\<close>

definition finite_room :: "RoomTemplate \<Rightarrow> bool" where
  "finite_room room \<longleftrightarrow>
     isfinite (room_width room) \<and> isfinite (room_depth room) \<and> IsFinitePosition (room_playerSpawn room) \<and>
     (\<forall>p \<in> set (room_portals room). IsFinitePosition (box_minimum (portal_triggerArea p)) \<and>
        IsFinitePosition (box_maximum (portal_triggerArea p)) \<and> IsFinitePosition (portal_targetPosition p)) \<and>
     (\<forall>ob \<in> set (room_obstacles room). IsFinitePosition (box_minimum (obstacle_collision ob)) \<and>
        IsFinitePosition (box_maximum (obstacle_collision ob))) \<and>
     (\<forall>sp \<in> set (room_enemySpawns room). IsFinitePosition (spawn_position sp))"

definition finite_enemy :: "EnemyTemplate \<Rightarrow> bool" where
  "finite_enemy enemy \<longleftrightarrow>
     isfinite (enemy_moveSpeed enemy) \<and> IsFinitePosition (box_minimum (enemy_collision enemy)) \<and>
     IsFinitePosition (box_maximum (enemy_collision enemy))"

definition static_enemy_ok :: "EnemyTemplate \<Rightarrow> bool" where
  "static_enemy_ok enemy \<longleftrightarrow>
     enemy_id enemy \<noteq> 0 \<and> enemy_name enemy \<noteq> [] \<and> enemy_maxHp enemy \<noteq> 0 \<and> finite_enemy enemy \<and>
     \<not> f32_lt (enemy_moveSpeed enemy) f32_0 \<and> IsValidCollisionBox (enemy_collision enemy) \<and>
     \<not> f32_lt (pos_z (box_minimum (enemy_collision enemy))) f32_0"

lemma static_enemies_iff:
  "static_enemies enemies seen = Some ids \<longleftrightarrow>
     ids = rev (map enemy_id enemies) @ seen \<and> distinct (map enemy_id enemies) \<and>
     set (map enemy_id enemies) \<inter> set seen = {} \<and> (\<forall>e \<in> set enemies. static_enemy_ok e)"
  by (induction enemies arbitrary: seen) (auto simp: static_enemy_ok_def finite_enemy_def IsValidBox_def)

lemma static_rooms_iff:
  "static_rooms rooms seen \<longleftrightarrow>
     distinct (map room_id rooms) \<and> set (map room_id rooms) \<inter> set seen = {} \<and>
     (\<forall>room \<in> set rooms. room_id room \<noteq> 0 \<and> isfinite (room_width room) \<and> isfinite (room_depth room) \<and>
        IsFinitePosition (room_playerSpawn room) \<and> \<not> f32_le (room_width room) f32_0 \<and>
        \<not> f32_le (room_depth room) f32_0 \<and> inner_point room (room_playerSpawn room))"
  by (induction rooms arbitrary: seen) (auto simp: inner_point_def)

text \<open>The loops over a room are those of the catalog with finiteness in addition.\<close>

lemma static_portals_check:
  assumes "set roomIds = set (map room_id rooms)"
  shows "static_portals rooms room portals seen \<longleftrightarrow>
    check_portals rooms roomIds room portals seen \<and>
    (\<forall>p \<in> set portals. IsFinitePosition (box_minimum (portal_triggerArea p)) \<and>
        IsFinitePosition (box_maximum (portal_triggerArea p)) \<and> IsFinitePosition (portal_targetPosition p))"
proof (induction portals arbitrary: seen)
  case (Cons p portals)
  have "portal_targetRoomId p \<in> set roomIds" if "find (\<lambda>t. room_id t = portal_targetRoomId p) rooms = Some t" for t
    using that assms by (auto simp: find_Some_iff) (metis image_eqI nth_mem)
  then show ?case using Cons.IH [of "portal_id p # seen"] by (auto simp: IsValidBox_def split: option.splits)
qed simp

lemma static_obstacles_check:
  "static_obstacles room obs seen \<longleftrightarrow>
     check_obstacles room obs seen \<and>
     (\<forall>ob \<in> set obs. IsFinitePosition (box_minimum (obstacle_collision ob)) \<and>
        IsFinitePosition (box_maximum (obstacle_collision ob)))"
  by (induction obs arbitrary: seen) (auto simp: IsValidBox_def Let_def)

lemma static_spawns_check:
  assumes "\<And>i. um_contains cat i \<longleftrightarrow> i \<in> set enemyIds"
  shows "static_spawns enemyIds room sps seen \<longleftrightarrow>
    check_spawns cat room sps seen \<and> (\<forall>sp \<in> set sps. IsFinitePosition (spawn_position sp))"
proof -
  have "GetEnemy cat i = None \<longleftrightarrow> i \<notin> set enemyIds" for i
    using assms [of i] by (auto simp: GetEnemy_def um_contains_def)
  then show ?thesis by (induction sps arbitrary: seen) auto
qed

lemma static_contents_check:
  assumes "set roomIds = set (map room_id rooms)" "\<And>i. um_contains cat i \<longleftrightarrow> i \<in> set enemyIds"
  shows "static_contents rooms enemyIds rest \<longleftrightarrow>
    check_room_contents cat rooms roomIds rest \<and>
    (\<forall>room \<in> set rest.
       (\<forall>p \<in> set (room_portals room). IsFinitePosition (box_minimum (portal_triggerArea p)) \<and>
          IsFinitePosition (box_maximum (portal_triggerArea p)) \<and> IsFinitePosition (portal_targetPosition p)) \<and>
       (\<forall>ob \<in> set (room_obstacles room). IsFinitePosition (box_minimum (obstacle_collision ob)) \<and>
          IsFinitePosition (box_maximum (obstacle_collision ob))) \<and>
       (\<forall>sp \<in> set (room_enemySpawns room). IsFinitePosition (spawn_position sp)))"
  by (induction rest)
    (auto simp: static_portals_check [OF assms(1)] static_obstacles_check static_spawns_check [OF assms(2)])

definition enemy_map :: "EnemyTemplate list \<Rightarrow> EnemyCatalog" where
  "enemy_map enemies = map (\<lambda>e. (enemy_id e, e)) enemies"

lemma enemy_map_contains: "um_contains (enemy_map enemies) i \<longleftrightarrow> i \<in> set (map enemy_id enemies)"
  by (auto simp: um_contains_iff_dom enemy_map_def image_image)

lemma IsValidStaticData_iff:
  "IsValidStaticData d \<longleftrightarrow>
     (if sd_result d \<noteq> StaticSuccess
      then sd_dungeonId d = 0 \<and> sd_dungeonTemplateId d = 0 \<and> sd_rooms d = [] \<and> sd_enemyTemplates d = []
      else sd_dungeonId d \<noteq> 0 \<and> sd_dungeonTemplateId d \<noteq> 0 \<and>
        distinct (map enemy_id (sd_enemyTemplates d)) \<and> (\<forall>e \<in> set (sd_enemyTemplates d). static_enemy_ok e) \<and>
        (\<forall>room \<in> set (sd_rooms d). finite_room room) \<and> rooms_valid (enemy_map (sd_enemyTemplates d)) (sd_rooms d))"
proof (cases "distinct (map enemy_id (sd_enemyTemplates d)) \<and> (\<forall>e \<in> set (sd_enemyTemplates d). static_enemy_ok e) \<and>
    distinct (map room_id (sd_rooms d))")
  case True
  let ?ids = "rev (map enemy_id (sd_enemyTemplates d))" and ?rooms = "sd_rooms d"
  have en: "static_enemies (sd_enemyTemplates d) [] = Some ?ids" using True by (simp add: static_enemies_iff)
  have contents: "static_contents ?rooms ?ids ?rooms \<longleftrightarrow>
      (\<forall>room \<in> set ?rooms. portals_valid ?rooms room \<and> obstacles_valid room \<and> spawns_valid (enemy_map (sd_enemyTemplates d)) room) \<and>
      (\<forall>room \<in> set ?rooms. (\<forall>p \<in> set (room_portals room). IsFinitePosition (box_minimum (portal_triggerArea p)) \<and>
          IsFinitePosition (box_maximum (portal_triggerArea p)) \<and> IsFinitePosition (portal_targetPosition p)) \<and>
       (\<forall>ob \<in> set (room_obstacles room). IsFinitePosition (box_minimum (obstacle_collision ob)) \<and>
          IsFinitePosition (box_maximum (obstacle_collision ob))) \<and>
       (\<forall>sp \<in> set (room_enemySpawns room). IsFinitePosition (spawn_position sp)))"
    using True static_contents_check [of "map room_id ?rooms" ?rooms "enemy_map (sd_enemyTemplates d)" ?ids ?rooms]
      check_room_contents_iff [of ?rooms "map room_id ?rooms"] by (simp add: enemy_map_contains)
  show ?thesis using True
    by (auto simp: IsValidStaticData_def en contents static_rooms_iff rooms_valid_def finite_room_def)
next
  case False
  then show ?thesis
    by (auto simp: IsValidStaticData_def static_enemies_iff static_rooms_iff rooms_valid_def split: option.splits)
qed

section \<open>The round trip\<close>

lemma static_codes [simp]:
  "of_code staticDataResults (to_code staticDataResults r) = Some r"
  "of_code enemyAiTypes (to_code enemyAiTypes a) = Some a"
proof -
  show "of_code staticDataResults (to_code staticDataResults r) = Some r"
    by (rule of_code_to_code) (cases r; simp add: staticDataResults_def)+
  show "of_code enemyAiTypes (to_code enemyAiTypes a) = Some a"
    by (rule of_code_to_code) (cases a; simp add: enemyAiTypes_def)+
qed

lemma from_tables_map: "(\<And>x. x \<in> set xs \<Longrightarrow> f (g x) = Some x) \<Longrightarrow> from_tables f (map g xs) = Some xs"
  by (induction xs) auto

lemma FromRoomTable_To: "FromRoomTable (ToRoomTable room) = Some room"
proof -
  have "FromPortalTable (ToPortalTable p) = Some p" "FromObstacleTable (ToObstacleTable ob) = Some ob"
    "FromSpawnTable (ToSpawnTable sp) = Some sp" for p ob sp
    by (simp_all add: FromPortalTable_def ToPortalTable_def FromObstacleTable_def ToObstacleTable_def
        FromSpawnTable_def ToSpawnTable_def)
  then show ?thesis by (simp add: FromRoomTable_def ToRoomTable_def from_tables_map)
qed

lemma FromEnemyTable_To: "FromEnemyTable (ToEnemyTable enemy) = Some enemy"
  by (simp add: FromEnemyTable_def ToEnemyTable_def)

lemma static_data_eta [simp]:
  "\<lparr>sd_result = sd_result x, sd_dungeonId = sd_dungeonId x, sd_dungeonTemplateId = sd_dungeonTemplateId x,
    sd_rooms = sd_rooms x, sd_enemyTemplates = sd_enemyTemplates x\<rparr> = x"
  by simp

interpretation static_data_request: payload_codec EncodeDungeonStaticDataRequestPayload
    DecodeDungeonStaticDataRequestPayload "\<lambda>d. d \<noteq> 0" id "\<lambda>d. d \<noteq> 0"
  by unfold_locales
    (auto simp: EncodeDungeonStaticDataRequestPayload_def DecodeDungeonStaticDataRequestPayload_def
      DecodeTcpPayload_serialize split: if_splits sum.splits)

interpretation static_data_response: payload_codec EncodeDungeonStaticDataResponsePayload
    DecodeDungeonStaticDataResponsePayload IsValidStaticData id IsValidStaticData
  by unfold_locales
    (auto simp: EncodeDungeonStaticDataResponsePayload_def DecodeDungeonStaticDataResponsePayload_def
      DecodeTcpPayload_serialize from_tables_map FromRoomTable_To FromEnemyTable_To Let_def
      split: if_splits sum.splits option.splits)

end
