(* ===== verification/Session_Auth.thy ===== *)
theory Session_Auth
  imports Dungeon_Data
begin

text \<open>
  Who a connection speaks for: the validation of names, accounts and profiles
  (\<open>src/src/LoginValidator.cpp\<close>, \<open>src/src/Account.cpp\<close>, \<open>src/src/PlayerProfile.cpp\<close>), the identity a game
  session acquires once (\<open>src/src/SessionAuthState.cpp\<close>) and the one of a session of the authentication
  server (\<open>src/src/AuthServerSessionState.cpp\<close>), with their headers under \<open>src/include\<close>. The mutexes make
  each call one step.
\<close>

section \<open>Names, accounts, profiles\<close>

definition MAX_PLAYER_NAME_LENGTH :: nat where "MAX_PLAYER_NAME_LENGTH = 16"

datatype PlayerNameValidationResult = ValidPlayerName | EmptyPlayerName | PlayerNameTooLong
  | InvalidPlayerNameCharacter

text \<open>The comparisons with character literals, on the codes of the characters.\<close>

definition IsAllowedCharacter :: "char \<Rightarrow> bool" where
  "IsAllowedCharacter character =
     (let c = (of_char character :: nat);
          isUppercase = (of_char CHR ''A'' \<le> c \<and> c \<le> of_char CHR ''Z'');
          isLowercase = (of_char CHR ''a'' \<le> c \<and> c \<le> of_char CHR ''z'');
          isNumber = (of_char CHR ''0'' \<le> c \<and> c \<le> of_char CHR ''9'')
      in isUppercase \<or> isLowercase \<or> isNumber \<or> character = CHR ''_'')"

definition ValidateName :: "string \<Rightarrow> PlayerNameValidationResult \<times> string" where
  "ValidateName playerName =
     (if playerName = [] then (EmptyPlayerName, [])
      else if MAX_PLAYER_NAME_LENGTH < length playerName then (PlayerNameTooLong, [])
      else if list_ex (\<lambda>c. \<not> IsAllowedCharacter c) playerName then (InvalidPlayerNameCharacter, [])
      else (ValidPlayerName, playerName))"

definition MIN_ACCOUNT_LOGIN_ID_LENGTH :: nat where "MIN_ACCOUNT_LOGIN_ID_LENGTH = 4"
definition MAX_ACCOUNT_LOGIN_ID_LENGTH :: nat where "MAX_ACCOUNT_LOGIN_ID_LENGTH = 32"
definition MAX_ENCODED_PASSWORD_HASH_LENGTH :: nat where "MAX_ENCODED_PASSWORD_HASH_LENGTH = 256"

record Account =
  acc_accountId :: AccountId
  acc_loginId :: string
  acc_encodedPasswordHash :: string

text \<open>The lambda allows the same characters as \<open>IsAllowedCharacter\<close>, tested in another order.\<close>

definition IsValidAccountLoginId :: "string \<Rightarrow> bool" where
  "IsValidAccountLoginId loginId =
     (if length loginId < MIN_ACCOUNT_LOGIN_ID_LENGTH \<or> MAX_ACCOUNT_LOGIN_ID_LENGTH < length loginId then False
      else list_all (\<lambda>character.
             let c = (of_char character :: nat) in
             of_char CHR ''a'' \<le> c \<and> c \<le> of_char CHR ''z'' \<or>
             of_char CHR ''A'' \<le> c \<and> c \<le> of_char CHR ''Z'' \<or>
             of_char CHR ''0'' \<le> c \<and> c \<le> of_char CHR ''9'' \<or> character = CHR ''_'') loginId)"

definition IsValidEncodedPasswordHash :: "string \<Rightarrow> bool" where
  "IsValidEncodedPasswordHash h \<longleftrightarrow> h \<noteq> [] \<and> length h \<le> MAX_ENCODED_PASSWORD_HASH_LENGTH"

definition IsValidAccount :: "Account \<Rightarrow> bool" where
  "IsValidAccount account \<longleftrightarrow>
     acc_accountId account \<noteq> 0 \<and> IsValidAccountLoginId (acc_loginId account) \<and>
     IsValidEncodedPasswordHash (acc_encodedPasswordHash account)"

record PlayerProfile =
  pp_playerId :: PlayerId
  pp_name :: string
  pp_level :: u32
  pp_skillPoints :: u32
  pp_skills :: "OwnedSkill list"

text \<open>The loop over the skills, with the set of the identifiers met so far.\<close>

fun check_skills :: "SkillId list \<Rightarrow> OwnedSkill list \<Rightarrow> bool" where
  "check_skills skillIds [] = True"
| "check_skills skillIds (s # ss) =
     (if owned_skillId s = 0 \<or> owned_level s = 0 \<or> List.member skillIds (owned_skillId s) then False
      else check_skills (owned_skillId s # skillIds) ss)"

definition IsValidPlayerProfile :: "PlayerProfile \<Rightarrow> bool" where
  "IsValidPlayerProfile profile =
     (if pp_playerId profile = 0 \<or> pp_level profile = 0 \<or> fst (ValidateName (pp_name profile)) \<noteq> ValidPlayerName
      then False else check_skills [] (pp_skills profile))"

section \<open>The identity of a session\<close>

record AuthContext =
  ac_accountId :: AccountId
  ac_playerId :: PlayerId

definition IsValidAuthContext :: "AuthContext \<Rightarrow> bool" where
  "IsValidAuthContext c \<longleftrightarrow> ac_accountId c \<noteq> 0 \<and> ac_playerId c \<noteq> 0"

text \<open>The state is \<open>snapshot_\<close>.\<close>

type_synonym SessionAuthState = "(AuthContext \<times> PlayerProfile) option"

definition Authenticate :: "AuthContext \<Rightarrow> PlayerProfile \<Rightarrow> SessionAuthState \<Rightarrow> bool \<times> SessionAuthState" where
  "Authenticate authContext profile snapshot =
     (if \<not> IsValidAuthContext authContext \<or> \<not> IsValidPlayerProfile profile \<or>
         ac_playerId authContext \<noteq> pp_playerId profile
      then (False, snapshot)
      else if snapshot \<noteq> None then (False, snapshot)
      else (True, Some (authContext, profile)))"

definition IsAuthenticated :: "SessionAuthState \<Rightarrow> bool" where
  "IsAuthenticated snapshot \<longleftrightarrow> snapshot \<noteq> None"

text \<open>The state is \<open>accountId_\<close>.\<close>

type_synonym AuthServerSessionState = "AccountId option"

definition MarkAuthenticated :: "AccountId \<Rightarrow> AuthServerSessionState \<Rightarrow> bool \<times> AuthServerSessionState" where
  "MarkAuthenticated accountId s =
     (if accountId = 0 then (False, s) else if s \<noteq> None then (False, s) else (True, Some accountId))"

section \<open>What the checks say\<close>

lemma check_skills_iff:
  "check_skills ids ss \<longleftrightarrow> (\<forall>s \<in> set ss. owned_skillId s \<noteq> 0 \<and> owned_level s \<noteq> 0) \<and>
     distinct (map owned_skillId ss) \<and> set ids \<inter> owned_skillId ` set ss = {}"
  by (induction ids ss rule: check_skills.induct) auto

lemma ValidateName_iff:
  "fst (ValidateName n) = ValidPlayerName \<longleftrightarrow>
     n \<noteq> [] \<and> length n \<le> MAX_PLAYER_NAME_LENGTH \<and> (\<forall>c \<in> set n. IsAllowedCharacter c)"
  by (auto simp: ValidateName_def list_ex_iff)

lemma IsValidAccountLoginId_iff:
  "IsValidAccountLoginId l \<longleftrightarrow> 4 \<le> length l \<and> length l \<le> 32 \<and> (\<forall>c \<in> set l. IsAllowedCharacter c)"
  by (auto simp: IsValidAccountLoginId_def MIN_ACCOUNT_LOGIN_ID_LENGTH_def MAX_ACCOUNT_LOGIN_ID_LENGTH_def
      IsAllowedCharacter_def list_all_iff Let_def)

text \<open>An identity, once acquired, is valid and never changes.\<close>

definition auth_inv :: "SessionAuthState \<Rightarrow> bool" where
  "auth_inv s \<longleftrightarrow> (case s of None \<Rightarrow> True
     | Some (c, p) \<Rightarrow> IsValidAuthContext c \<and> IsValidPlayerProfile p \<and> ac_playerId c = pp_playerId p)"

lemma auth_inv_Authenticate: "auth_inv s \<Longrightarrow> auth_inv (snd (Authenticate c p s))"
  by (auto simp: auth_inv_def Authenticate_def)

lemma Authenticate_once: "s \<noteq> None \<Longrightarrow> snd (Authenticate c p s) = s"
  by (simp add: Authenticate_def)

end
