(* ===== verification/Request_Handlers.thy ===== *)
theory Request_Handlers
  imports Packet Static_Data Session_Auth Lifecycle_Service
begin

text \<open>
  The requests of a TCP session (\<open>src/src/ChannelPartyRequestHandler.cpp\<close>, \<open>src/src/PacketDispatcher.cpp\<close>,
  \<open>src/src/DungeonDataRequestHandler.cpp\<close>, \<open>src/src/PlayerLoginService.cpp\<close>, with
  their headers under \<open>src/include\<close>).

  A handler decodes the payload, acts on the managers and encodes a response. Its result pairs the
  response bytes, or the exception, with the managers: what was done before a throw stays done. Each call
  on a manager is atomic by itself; the model runs a handler as one step.

  The ticket verifier and the player repository are interfaces: arguments, \<open>None\<close> for an exception.
\<close>

datatype handler_error = HTcp tcp_error | HPacket packet_error | NoHandler | JoinedPartyNotFound
  | CancelFailed | HInstance instance_error | HManager manager_error | AlreadyAuthenticated | AuthenticationRequired
  | StaticTemplateNotFound | StaticEnemyNotFound

definition respond :: "PacketType \<Rightarrow> Packet \<Rightarrow> tcp_error + u8 list \<Rightarrow> handler_error + u8 list" where
  "respond ty request body =
     (case body of
        Inl e \<Rightarrow> Inl (HTcp e)
      | Inr bytes \<Rightarrow> map_sum HPacket id (EncodePacket ty (requestId (header request)) bytes))"

section \<open>Channels and parties\<close>

definition HandleChannelListRequest ::
    "tcp_parser \<Rightarrow> tcp_serializer \<Rightarrow> Packet \<Rightarrow> ChannelManager \<Rightarrow> handler_error + u8 list" where
  "HandleChannelListRequest parse serialize request cm =
     (case ValidateChannelListRequestPayload parse (payload request) of
        Inl e \<Rightarrow> Inl (HTcp e)
      | Inr _ \<Rightarrow> respond 102 request (EncodeChannelListResponsePayload serialize (GetChannelList cm)))"

definition HandleJoinChannelRequest ::
    "tcp_parser \<Rightarrow> tcp_serializer \<Rightarrow> SessionId \<Rightarrow> Packet \<Rightarrow> ChannelManager \<Rightarrow>
     (handler_error + u8 list) \<times> ChannelManager" where
  "HandleJoinChannelRequest parse serialize sessionId request cm =
     (case DecodeJoinChannelRequestPayload parse (payload request) of
        Inl e \<Rightarrow> (Inl (HTcp e), cm)
      | Inr channelId \<Rightarrow>
          let (result, cm) = JoinChannel sessionId channelId cm;
              joinedChannelId = (if result = JoinChannel_Success then channelId else 0)
          in (respond 103 request (EncodeJoinChannelResponsePayload serialize (result, joinedChannelId)), cm))"

definition HandleCreatePartyRequest ::
    "tcp_parser \<Rightarrow> tcp_serializer \<Rightarrow> SessionId \<Rightarrow> Packet \<Rightarrow> PartyManager \<Rightarrow>
     (handler_error + u8 list) \<times> PartyManager" where
  "HandleCreatePartyRequest parse serialize sessionId request pm =
     (case ValidateCreatePartyRequestPayload parse (payload request) of
        Inl e \<Rightarrow> (Inl (HTcp e), pm)
      | Inr _ \<Rightarrow>
          let (createdPartyId, pm) = CreateParty sessionId pm;
              response = (case createdPartyId of
                            None \<Rightarrow> (AlreadyInParty, 0, 0)
                          | Some partyId \<Rightarrow> (CreateParty_Success, partyId, sessionId))
          in (respond 106 request (EncodeCreatePartyResponsePayload serialize response), pm))"

definition HandleJoinPartyRequest ::
    "tcp_parser \<Rightarrow> tcp_serializer \<Rightarrow> SessionId \<Rightarrow> Packet \<Rightarrow> PartyManager \<Rightarrow>
     (handler_error + u8 list) \<times> PartyManager" where
  "HandleJoinPartyRequest parse serialize sessionId request pm =
     (case DecodeJoinPartyRequestPayload parse (payload request) of
        Inl e \<Rightarrow> (Inl (HTcp e), pm)
      | Inr requestedPartyId \<Rightarrow>
          let (result, pm) = JoinParty requestedPartyId sessionId pm in
          if result = JoinParty_Success
          then (case GetParty pm requestedPartyId of
                  None \<Rightarrow> (Inl JoinedPartyNotFound, pm)
                | Some party \<Rightarrow>
                    (respond 107 request
                       (EncodeJoinPartyResponsePayload serialize (result, party_id party, party_leader party)), pm))
          else (respond 107 request (EncodeJoinPartyResponsePayload serialize (result, 0, 0)), pm))"

definition HandleLeavePartyRequest ::
    "tcp_parser \<Rightarrow> tcp_serializer \<Rightarrow> SessionId \<Rightarrow> Packet \<Rightarrow> PartyManager \<Rightarrow>
     (handler_error + u8 list) \<times> PartyManager" where
  "HandleLeavePartyRequest parse serialize sessionId request pm =
     (case ValidateLeavePartyRequestPayload parse (payload request) of
        Inl e \<Rightarrow> (Inl (HTcp e), pm)
      | Inr _ \<Rightarrow>
          let (leftParty, pm) = LeaveParty sessionId pm;
              result = (if leftParty then LeaveParty_Success else LeaveParty_NotInParty)
          in (respond 108 request (EncodeLeavePartyResponsePayload serialize result), pm))"

definition HandlePartySnapshotRequest ::
    "tcp_parser \<Rightarrow> tcp_serializer \<Rightarrow> SessionId \<Rightarrow> Packet \<Rightarrow> PartyManager \<Rightarrow> handler_error + u8 list" where
  "HandlePartySnapshotRequest parse serialize sessionId request pm =
     (case ValidatePartySnapshotRequestPayload parse (payload request) of
        Inl e \<Rightarrow> Inl (HTcp e)
      | Inr _ \<Rightarrow>
          let party = (case GetJoinedParty pm sessionId of None \<Rightarrow> None | Some i \<Rightarrow> GetParty pm i);
              response = (case party of
                            None \<Rightarrow> (PartySnapshot_NotInParty, 0, 0, [])
                          | Some p \<Rightarrow> (PartySnapshot_Success, party_id p, party_leader p, party_members p))
          in respond 109 request (EncodePartySnapshotResponsePayload serialize response))"

section \<open>Dungeons\<close>

definition HandleDungeonCatalogRequest ::
    "tcp_parser \<Rightarrow> tcp_serializer \<Rightarrow> Packet \<Rightarrow> DungeonCatalog \<Rightarrow> handler_error + u8 list" where
  "HandleDungeonCatalogRequest parse serialize request catalog =
     (case ValidateDungeonCatalogRequestPayload parse (payload request) of
        Inl e \<Rightarrow> Inl (HTcp e)
      | Inr _ \<Rightarrow>
          respond 110 request (EncodeDungeonCatalogResponsePayload serialize (Catalog_Success, GetDungeonList catalog)))"

text \<open>The loops that collect the enemies of a dungeon; \<open>None\<close> when one of them is not in the catalog.\<close>

fun collect_enemies :: "EnemyCatalog \<Rightarrow> EnemySpawnTemplate list \<Rightarrow> EnemyTemplateId list \<Rightarrow> EnemyTemplate list option" where
  "collect_enemies enemies [] added = Some []"
| "collect_enemies enemies (sp # sps) added =
     (if List.member added (spawn_enemyTemplateId sp) then collect_enemies enemies sps added
      else case GetEnemy enemies (spawn_enemyTemplateId sp) of
        None \<Rightarrow> None
      | Some enemy \<Rightarrow>
          map_option (\<lambda>es. enemy # es) (collect_enemies enemies sps (spawn_enemyTemplateId sp # added)))"

definition no_static_data :: "DungeonStaticDataResult \<Rightarrow> DungeonStaticDataResponseData" where
  "no_static_data result = \<lparr>sd_result = result, sd_dungeonId = 0, sd_dungeonTemplateId = 0, sd_rooms = [], sd_enemyTemplates = []\<rparr>"

definition HandleDungeonStaticDataRequest ::
    "tcp_parser \<Rightarrow> tcp_serializer \<Rightarrow> EnemyCatalog \<Rightarrow> DungeonCatalog \<Rightarrow> SessionId \<Rightarrow> Packet \<Rightarrow> DungeonManager \<Rightarrow>
     handler_error + u8 list" where
  "HandleDungeonStaticDataRequest parse serialize enemies catalog sessionId request dm =
     (case DecodeDungeonStaticDataRequestPayload parse (payload request) of
        Inl e \<Rightarrow> Inl (HTcp e)
      | Inr dungeonId \<Rightarrow>
          (case FindDungeon dm dungeonId of
             None \<Rightarrow> respond 111 request
               (EncodeDungeonStaticDataResponsePayload serialize (no_static_data StaticDungeonNotFound))
           | Some dungeon \<Rightarrow>
               if \<not> HasParticipant dungeon sessionId
               then respond 111 request
                 (EncodeDungeonStaticDataResponsePayload serialize (no_static_data StaticNotDungeonParticipant))
               else case GetDungeon catalog (dt_id (di_dungeonTemplate dungeon)) of
                 None \<Rightarrow> Inl StaticTemplateNotFound
               | Some dungeonTemplate \<Rightarrow>
                   (case collect_enemies enemies (concat (map room_enemySpawns (dt_rooms dungeonTemplate))) [] of
                      None \<Rightarrow> Inl StaticEnemyNotFound
                    | Some enemyTemplates \<Rightarrow>
                        respond 111 request (EncodeDungeonStaticDataResponsePayload serialize
                          \<lparr>sd_result = StaticSuccess, sd_dungeonId = dungeonId, sd_dungeonTemplateId = dt_id dungeonTemplate,
                           sd_rooms = dt_rooms dungeonTemplate, sd_enemyTemplates = sort_key enemy_id enemyTemplates\<rparr>))))"

type_synonym enter_response = "EnterDungeonResult \<times> DungeonId \<times> u16 \<times> DungeonUdpToken"

definition refused :: "EnterDungeonResult \<Rightarrow> enter_response" where
  "refused result = (result, 0, 0, 0)"

text \<open>
  Entering a dungeon, between decoding and encoding. \<open>now\<close> is the creation time, \<open>rnd\<close> the random bytes,
  \<open>bound\<close> the port of the socket that is opened; the outer \<open>None\<close> means the random bytes did not suffice.
\<close>

definition open_dungeon ::
    "u8 list \<Rightarrow> u16 option \<Rightarrow> SessionId \<Rightarrow> DungeonInstance \<Rightarrow> DungeonManager \<Rightarrow> DungeonUdpManager \<Rightarrow>
     ((handler_error + enter_response) \<times> DungeonManager \<times> DungeonUdpManager) option" where
  "open_dungeon rnd bound sessionId dungeon dm udm =
     (let dungeonId = di_dungeonId dungeon in
      case Allocate rnd bound dungeonId (di_participants dungeon) udm of
        None \<Rightarrow> None
      | Some (allocatedPort, udm) \<Rightarrow>
          (case (allocatedPort, FindToken udm dungeonId sessionId) of
             (Some udpPort, Some udpToken) \<Rightarrow> Some (Inr (EnterSuccess, dungeonId, udpPort, udpToken), dm, udm)
           | _ \<Rightarrow>
               let (cancelled, dm, udm) = CancelWaitingDungeon dungeonId dm udm in
               if \<not> cancelled then Some (Inl CancelFailed, dm, udm)
               else Some (Inr (refused UdpAllocationFailed), dm, udm)))"

definition enter_dungeon ::
    "DungeonCatalog \<Rightarrow> int \<Rightarrow> u8 list \<Rightarrow> u16 option \<Rightarrow> SessionId \<Rightarrow> DungeonTemplateId \<Rightarrow> PartyManager \<Rightarrow>
     DungeonManager \<Rightarrow> DungeonUdpManager \<Rightarrow>
     ((handler_error + enter_response) \<times> DungeonManager \<times> DungeonUdpManager) option" where
  "enter_dungeon catalog now rnd bound sessionId templateId pm dm udm =
     (case GetJoinedParty pm sessionId of
        None \<Rightarrow> Some (Inr (refused EnterNotInParty), dm, udm)
      | Some partyId \<Rightarrow>
          (case GetParty pm partyId of
             None \<Rightarrow> Some (Inr (refused EnterNotInParty), dm, udm)
           | Some party \<Rightarrow>
               if party_leader party \<noteq> sessionId then Some (Inr (refused NotPartyLeader), dm, udm)
               else
                 (case CreateDungeon pm catalog partyId templateId now dm of
                    (Inl e, dm) \<Rightarrow> Some (Inl (HInstance e), dm, udm)
                  | (Inr (CreateDungeon_Success, Some dungeon), dm) \<Rightarrow>
                      open_dungeon rnd bound sessionId dungeon dm udm
                  | (Inr (status, _), dm) \<Rightarrow>
                      Some (Inr (refused (case status of
                          CreateDungeon_PartyNotFound \<Rightarrow> EnterNotInParty
                        | DungeonTemplateNotFound \<Rightarrow> EnterTemplateNotFound
                        | PartyAlreadyInDungeon \<Rightarrow> EnterPartyAlreadyInDungeon
                        | _ \<Rightarrow> UdpAllocationFailed)), dm, udm))))"

definition HandleEnterDungeonRequest ::
    "tcp_parser \<Rightarrow> tcp_serializer \<Rightarrow> DungeonCatalog \<Rightarrow> int \<Rightarrow> u8 list \<Rightarrow> u16 option \<Rightarrow> SessionId \<Rightarrow> Packet \<Rightarrow>
     PartyManager \<Rightarrow> DungeonManager \<Rightarrow> DungeonUdpManager \<Rightarrow>
     ((handler_error + u8 list) \<times> DungeonManager \<times> DungeonUdpManager) option" where
  "HandleEnterDungeonRequest parse serialize catalog now rnd bound sessionId request pm dm udm =
     (case DecodeEnterDungeonRequestPayload parse (payload request) of
        Inl e \<Rightarrow> Some (Inl (HTcp e), dm, udm)
      | Inr templateId \<Rightarrow>
          (case enter_dungeon catalog now rnd bound sessionId templateId pm dm udm of
             None \<Rightarrow> None
           | Some (Inl e, dm, udm) \<Rightarrow> Some (Inl e, dm, udm)
           | Some (Inr response, dm, udm) \<Rightarrow>
               Some (respond 104 request (EncodeEnterDungeonResponsePayload serialize response), dm, udm)))"

type_synonym info_response = "DungeonConnectionInfoResult \<times> DungeonId \<times> u16 \<times> DungeonUdpToken"

definition connection_info ::
    "SessionId \<Rightarrow> PartyManager \<Rightarrow> DungeonManager \<Rightarrow> DungeonUdpManager \<Rightarrow> handler_error + info_response" where
  "connection_info sessionId pm dm udm =
     (let partyId = GetJoinedParty pm sessionId in
      case (case partyId of None \<Rightarrow> Inr None | Some i \<Rightarrow> FindDungeonByParty dm i) of
        Inl e \<Rightarrow> Inl (HManager e)
      | Inr byParty \<Rightarrow>
          (case (case byParty of None \<Rightarrow> FindDungeonByParticipant dm sessionId | Some d \<Rightarrow> Some d) of
             None \<Rightarrow> Inr (if partyId \<noteq> None then InfoDungeonNotFound else InfoNotInParty, 0, 0, 0)
           | Some dungeon \<Rightarrow>
               if \<not> HasParticipant dungeon sessionId then Inr (InfoNotDungeonParticipant, 0, 0, 0)
               else
                 (case (FindPort udm (di_dungeonId dungeon), FindToken udm (di_dungeonId dungeon) sessionId) of
                    (Some port, Some token) \<Rightarrow> Inr (InfoSuccess, di_dungeonId dungeon, port, token)
                  | _ \<Rightarrow> Inr (UdpNotReady, 0, 0, 0))))"

definition HandleDungeonConnectionInfoRequest ::
    "tcp_parser \<Rightarrow> tcp_serializer \<Rightarrow> SessionId \<Rightarrow> Packet \<Rightarrow> PartyManager \<Rightarrow> DungeonManager \<Rightarrow>
     DungeonUdpManager \<Rightarrow> handler_error + u8 list" where
  "HandleDungeonConnectionInfoRequest parse serialize sessionId request pm dm udm =
     (case ValidateDungeonConnectionInfoRequestPayload parse (payload request) of
        Inl e \<Rightarrow> Inl (HTcp e)
      | Inr _ \<Rightarrow>
          (case connection_info sessionId pm dm udm of
             Inl e \<Rightarrow> Inl e
           | Inr response \<Rightarrow> respond 105 request (EncodeDungeonConnectionInfoResponsePayload serialize response)))"

section \<open>Login\<close>

datatype PlayerLoginStatus = PL_Success | PL_InvalidTicket | PL_PlayerNotFound | PL_ServiceBusy | PL_StorageError

record PlayerLoginResult =
  pl_status :: PlayerLoginStatus
  pl_authContext :: "AuthContext option"
  pl_profile :: "PlayerProfile option"

text \<open>The task that \<open>Login\<close> posts to the database executor, and the result when the executor refuses it.\<close>

definition login_task ::
    "(string \<Rightarrow> AuthContext option option) \<Rightarrow> (PlayerId \<Rightarrow> PlayerProfile option option) \<Rightarrow> string \<Rightarrow>
     PlayerLoginResult" where
  "login_task Verify find_player ticket =
     (case Verify ticket of
        None \<Rightarrow> \<lparr>pl_status = PL_StorageError, pl_authContext = None, pl_profile = None\<rparr>
      | Some None \<Rightarrow> \<lparr>pl_status = PL_InvalidTicket, pl_authContext = None, pl_profile = None\<rparr>
      | Some (Some authContext) \<Rightarrow>
          (case find_player (ac_playerId authContext) of
             None \<Rightarrow> \<lparr>pl_status = PL_StorageError, pl_authContext = Some authContext, pl_profile = None\<rparr>
           | Some profile \<Rightarrow>
               \<lparr>pl_status = (if profile \<noteq> None then PL_Success else PL_PlayerNotFound),
                pl_authContext = Some authContext, pl_profile = profile\<rparr>))"

definition busy_login :: PlayerLoginResult where
  "busy_login = \<lparr>pl_status = PL_ServiceBusy, pl_authContext = None, pl_profile = None\<rparr>"

definition ToLoginResult :: "PlayerLoginStatus \<Rightarrow> LoginResult" where
  "ToLoginResult status =
     (case status of PL_Success \<Rightarrow> LoginSuccess | PL_InvalidTicket \<Rightarrow> InvalidAuthTicket
        | PL_PlayerNotFound \<Rightarrow> LoginPlayerNotFound | PL_ServiceBusy \<Rightarrow> LoginServiceBusy
        | PL_StorageError \<Rightarrow> LoginStorageError)"

text \<open>The completion handler of a login.\<close>

definition complete_login ::
    "tcp_serializer \<Rightarrow> SessionId \<Rightarrow> Packet \<Rightarrow> PlayerLoginResult \<Rightarrow> SessionAuthState \<Rightarrow>
     (handler_error + u8 list) \<times> SessionAuthState" where
  "complete_login serialize sessionId request loginResult authState =
     (let result = ToLoginResult (pl_status loginResult);
          (result, authState) =
            (if result = LoginSuccess
             then (case (pl_authContext loginResult, pl_profile loginResult) of
                     (Some context, Some profile) \<Rightarrow>
                       let (authenticated, authState) = Authenticate context profile authState
                       in (if authenticated then LoginSuccess else LoginStorageError, authState)
                   | _ \<Rightarrow> (LoginStorageError, authState))
             else (result, authState));
          responseSessionId = (if result = LoginSuccess then sessionId else 0)
      in (respond 101 request (EncodeLoginResponsePayload serialize (result, responseSessionId)), authState))"

section \<open>Dispatch\<close>

record ServerState =
  sv_channels :: ChannelManager
  sv_parties :: PartyManager
  sv_dm :: DungeonManager
  sv_udm :: DungeonUdpManager

text \<open>
  The synchronous requests by packet type.
\<close>

definition Dispatch ::
    "tcp_parser \<Rightarrow> tcp_serializer \<Rightarrow> DungeonCatalog \<Rightarrow> EnemyCatalog \<Rightarrow>
     int \<Rightarrow> u8 list \<Rightarrow> u16 option \<Rightarrow> SessionId \<Rightarrow> Packet \<Rightarrow> ServerState \<Rightarrow>
     ((handler_error + u8 list) \<times> ServerState) option" where
  "Dispatch parse serialize catalog enemies now rnd bound sessionId request s =
     (let ty = headerType (header request) in
      if ty = ChannelListRequest
      then Some (HandleChannelListRequest parse serialize request (sv_channels s), s)
      else if ty = JoinChannelRequest
      then let (r, cm) = HandleJoinChannelRequest parse serialize sessionId request (sv_channels s)
           in Some (r, s\<lparr>sv_channels := cm\<rparr>)
      else if ty = CreatePartyRequest
      then let (r, pm) = HandleCreatePartyRequest parse serialize sessionId request (sv_parties s)
           in Some (r, s\<lparr>sv_parties := pm\<rparr>)
      else if ty = JoinPartyRequest
      then let (r, pm) = HandleJoinPartyRequest parse serialize sessionId request (sv_parties s)
           in Some (r, s\<lparr>sv_parties := pm\<rparr>)
      else if ty = LeavePartyRequest
      then let (r, pm) = HandleLeavePartyRequest parse serialize sessionId request (sv_parties s)
           in Some (r, s\<lparr>sv_parties := pm\<rparr>)
      else if ty = PartySnapshotRequest
      then Some (HandlePartySnapshotRequest parse serialize sessionId request (sv_parties s), s)
      else if ty = EnterDungeonRequest
      then (case HandleEnterDungeonRequest parse serialize catalog now rnd bound sessionId request
                   (sv_parties s) (sv_dm s) (sv_udm s) of
              None \<Rightarrow> None
            | Some (r, dm, udm) \<Rightarrow> Some (r, s\<lparr>sv_dm := dm, sv_udm := udm\<rparr>))
      else if ty = DungeonConnectionInfoRequest
      then Some (HandleDungeonConnectionInfoRequest parse serialize sessionId request
                   (sv_parties s) (sv_dm s) (sv_udm s), s)
      else if ty = DungeonCatalogRequest
      then Some (HandleDungeonCatalogRequest parse serialize request catalog, s)
      else if ty = DungeonStaticDataRequest
      then Some (HandleDungeonStaticDataRequest parse serialize enemies catalog sessionId request (sv_dm s), s)
      else Some (Inl NoHandler, s))"

text \<open>
  What \<open>DispatchAsync\<close> does with a packet: a login is handed to the login service with the decoded
  ticket, anything else needs an authenticated session.
\<close>

datatype dispatch_result = StartLogin string | Respond "handler_error + u8 list"

definition DispatchAsync ::
    "tcp_parser \<Rightarrow> tcp_serializer \<Rightarrow> DungeonCatalog \<Rightarrow> EnemyCatalog \<Rightarrow>
     int \<Rightarrow> u8 list \<Rightarrow> u16 option \<Rightarrow> SessionId \<Rightarrow> SessionAuthState \<Rightarrow> Packet \<Rightarrow> ServerState \<Rightarrow>
     (dispatch_result \<times> ServerState) option" where
  "DispatchAsync parse serialize catalog enemies now rnd bound sessionId authState request s =
     (if headerType (header request) = LoginRequest
      then if IsAuthenticated authState then Some (Respond (Inl AlreadyAuthenticated), s)
           else (case DecodeLoginRequestPayload parse (payload request) of
                   Inl e \<Rightarrow> Some (Respond (Inl (HTcp e)), s)
                 | Inr ticket \<Rightarrow> Some (StartLogin ticket, s))
      else if \<not> IsAuthenticated authState then Some (Respond (Inl AuthenticationRequired), s)
      else map_option (\<lambda>(r, s). (Respond r, s))
             (Dispatch parse serialize catalog enemies now rnd bound sessionId request s))"

section \<open>Entering a dungeon\<close>

lemma Bind_state [simp]: "di_state (snd (BindParticipantPlayer x p d)) = di_state d"
  by (auto simp: BindParticipantPlayer_def split: option.splits)

lemma bind_members_fields:
  "di_participants (bind_members auth xs d) = di_participants d \<and> di_state (bind_members auth xs d) = di_state d"
  by (induction auth xs d rule: bind_members.induct) (auto split: option.splits)

lemma CreateDungeon_created:
  assumes "CreateDungeon pm catalog pid tid now dm = (Inr (CreateDungeon_Success, Some d), dm')"
    "GetParty pm pid = Some party"
  shows "di_participants d = party_members party" "di_state d = Waiting"
proof -
  from assms obtain i t d\<^sub>0 where d: "make_DungeonInstance i t pid (party_members party) now = Inr d\<^sub>0"
    "d = bind_members (dm_authenticatedPlayers dm) (party_members party) d\<^sub>0"
    by (auto simp: CreateDungeon_def Let_def split: if_splits option.splits sum.splits)
  have "di_participants d\<^sub>0 = party_members party" "di_state d\<^sub>0 = Waiting"
    using d(1) by (auto simp: make_DungeonInstance_def Let_def split: if_splits option.splits)
  then show "di_participants d = party_members party" "di_state d = Waiting"
    using bind_members_fields d(2) by auto
qed

lemma token_nonzero:
  assumes "udm_inv udm" "FindToken udm i x = Some t"
  shows "t \<noteq> 0"
proof -
  from assms(2) obtain u where u: "map_of (udm_sessions udm) i = Some u" "map_of (us_tokens u) x = Some t"
    by (auto simp: FindToken_def us_FindToken_def split: option.splits)
  have "tokens_ok (us_tokens u)" using udm_invD(2) [OF assms(1) u(1)] by (simp add: us_inv_def)
  then have "\<forall>e \<in> set (us_tokens u). snd e \<noteq> 0" by (simp add: tokens_ok_def)
  from bspec [OF this map_of_SomeD [OF u(2)]] show ?thesis by simp
qed

lemma open_dungeon_result:
  assumes dm: "dm_inv cat dm" "map_of (dm_dungeons dm) i = Some d" "di_state d = Waiting" "di_dungeonId d = i"
    and udm: "udm_inv udm" "synced dm udm" "holders udm i = None"
    and bound: "bound \<noteq> Some 0" and x: "x \<in> set (di_participants d)"
    and res: "open_dungeon rnd bound x d dm udm = Some (r, dm', udm')"
  obtains port token where "r = Inr (EnterSuccess, i, port, token)" "port \<noteq> 0" "token \<noteq> 0" "dm' = dm" "udm_inv udm'"
      "holders udm' = (holders udm)(i \<mapsto> set (di_participants d))" "FindToken udm' i x = Some token" "FindPort udm' i = Some port"
  | "r = Inr (refused UdpAllocationFailed)" "dm' = drop_dungeon i (di_partyId d) dm" "udm_inv udm'"
      "holders udm' = holders udm"
proof -
  obtain port udm\<^sub>1 where al: "Allocate rnd bound i (di_participants d) udm = Some (port, udm\<^sub>1)"
    using res dm(4) by (auto simp: open_dungeon_def Let_def split: option.splits)
  note u1 = udm_inv_Allocate [OF udm(1) al]
  show thesis
  proof (cases port)
    case (Some p)
    obtain u where u: "map_of (udm_sessions udm\<^sub>1) i = Some u" "\<forall>x. um_contains (us_tokens u) x \<longleftrightarrow> x \<in> set (di_participants d)"
      using u1(2) Some by auto
    then obtain t where t: "map_of (us_tokens u) x = Some t" using x by (auto simp: um_contains_def)
    have "p \<noteq> 0" "us_port u = p"
      using al Some bound u(1)
      by (auto simp: Allocate_def umap_simps make_UdpSession_def split: if_splits option.splits)
    moreover from this have "FindToken udm\<^sub>1 i x = Some t" "FindPort udm\<^sub>1 i = Some p"
      using u(1) t by (simp_all add: FindToken_def us_FindToken_def FindPort_def)
    moreover from this have "t \<noteq> 0" using token_nonzero [OF u1(1)] by blast
    moreover have "r = Inr (EnterSuccess, i, p, t)" "dm' = dm" "udm' = udm\<^sub>1"
      using res al Some dm(4) \<open>FindToken udm\<^sub>1 i x = Some t\<close> by (auto simp: open_dungeon_def)
    ultimately show thesis
      using that(1) u1(1) holders_Allocate [OF udm(1) al] Some by auto
  next
    case None
    have "udm\<^sub>1 = udm" using u1(4) None by simp
    moreover have "CancelWaitingDungeon i dm udm = (True, drop_dungeon i (di_partyId d) dm, snd (Release i udm))"
      using dm by (simp add: CancelWaitingDungeon_def CancelDungeon_def)
    ultimately have "r = Inr (refused UdpAllocationFailed)" "dm' = drop_dungeon i (di_partyId d) dm" "udm' = snd (Release i udm)"
      using res al None dm(4) by (auto simp: open_dungeon_def)
    moreover have "(holders udm)(i := None) = holders udm" using udm(3) by (simp add: fun_upd_idem)
    ultimately show thesis using that(2) udm_inv_Release [OF udm(1)] holders_Release [of i udm] by metis
  qed
qed

text \<open>
  Entering never throws, answers with a well-formed response and keeps the managers in step. On success
  the party's members, and nobody else, have a token for the new dungeon; a refusal leaves no trace.
\<close>

lemma enter_dungeon_result:
  assumes inv: "dm_inv cat dm" "udm_inv udm" "synced dm udm" and cat: "catalog_inv cat catalog" and pm: "parties_ok pm"
    and room: "unat (dm_nextDungeonId dm) < 2 ^ 64 - 1" and bound: "bound \<noteq> Some 0"
    and enter: "enter_dungeon catalog now rnd bound x tid pm dm udm = Some (r, dm', udm')"
  shows "\<exists>res i port token. r = Inr (res, i, port, token) \<and> IsValidEnterDungeonResponse res i port token \<and>
    dm_inv cat dm' \<and> udm_inv udm' \<and> synced dm' udm' \<and>
    (if res = EnterSuccess
     then \<exists>p party. GetJoinedParty pm x = Some p \<and> GetParty pm p = Some party \<and> party_leader party = x \<and>
        roster dm i = None \<and> roster dm' = (roster dm)(i \<mapsto> party_members party) \<and>
        holders udm' = (holders udm)(i \<mapsto> set (party_members party)) \<and>
        FindToken udm' i x = Some token \<and> FindPort udm' i = Some port
     else roster dm' = roster dm \<and> holders udm' = holders udm)"
proof (cases "\<exists>res. enter_dungeon catalog now rnd bound x tid pm dm udm = Some (Inr (refused res), dm, udm) \<and> res \<noteq> EnterSuccess")
  case True
  with enter inv show ?thesis by (auto simp: refused_def IsValidEnterDungeonResponse_def)
next
  case False
  have pinv: "pm_inv pm" "\<forall>p m. GetParty pm p = Some m \<longrightarrow> 0 \<notin> set (party_members m)"
    using pm by (auto simp: parties_ok_def)
  obtain p party where p: "GetJoinedParty pm x = Some p" "GetParty pm p = Some party" "party_leader party = x"
    using False by (auto simp: enter_dungeon_def split: option.splits if_splits)
  define n where "n = dm_nextDungeonId dm"
  obtain d where c: "CreateDungeon pm catalog p tid now dm =
       (Inr (CreateDungeon_Success, Some d),
        dm\<lparr>dm_nextDungeonId := n + 1, dm_dungeons := um_emplace n d (dm_dungeons dm),
          dm_partyDungeons := um_emplace p n (dm_partyDungeons dm)\<rparr>)" "hosted cat n d" "di_partyId d = p"
  proof (cases rule: CreateDungeon_cases [OF inv(1) cat pinv room, where pid = p and tid = tid and now = now])
    case (1 st)
    then have "enter_dungeon catalog now rnd bound x tid pm dm udm = Some (Inr (Request_Handlers.refused (case st of
           CreateDungeon_PartyNotFound \<Rightarrow> EnterNotInParty | DungeonTemplateNotFound \<Rightarrow> EnterTemplateNotFound
         | PartyAlreadyInDungeon \<Rightarrow> EnterPartyAlreadyInDungeon | _ \<Rightarrow> UdpAllocationFailed)), dm, udm)"
      using p by (cases st) (auto simp: enter_dungeon_def)
    with False show ?thesis by (cases st) auto
  next
    case (2 d party)
    then show ?thesis using that by (simp add: n_def)
  qed
  define dm\<^sub>1 where "dm\<^sub>1 = dm\<lparr>dm_nextDungeonId := n + 1, dm_dungeons := um_emplace n d (dm_dungeons dm),
          dm_partyDungeons := um_emplace p n (dm_partyDungeons dm)\<rparr>"
  have new: "map_of (dm_dungeons dm) n = None"
    using dm_invD(5) [OF inv(1), of n] by (fastforce simp: n_def)
  then have d: "map_of (dm_dungeons dm\<^sub>1) n = Some d" by (simp add: dm\<^sub>1_def umap_simps um_contains_def)
  note cr = CreateDungeon_created [OF c(1) p(2)]
  have inv1: "dm_inv cat dm\<^sub>1" using dm_inv_CreateDungeon [OF inv(1) cat pinv room, of p tid now] c(1) by (simp add: dm\<^sub>1_def)
  have sync1: "synced dm\<^sub>1 udm" using synced_Create [OF inv(1,3) c(1)] by (simp add: dm\<^sub>1_def)
  have ros: "roster dm n = None" "roster dm\<^sub>1 = (roster dm)(n \<mapsto> party_members party)"
    using new cr(1) by (auto simp: roster_def dm\<^sub>1_def umap_simps um_contains_def fun_eq_iff)
  have hol: "holders udm n = None" using inv(3) ros(1) unfolding synced_def by (metis not_None_eq)
  have "0 < n" using inv(1) unfolding dm_inv_def n_def by blast
  then have id: "di_dungeonId d = n" "n \<noteq> 0" using c(2) unfolding hosted_def by auto
  have "party_ok p party" using pm_inv_party [OF pinv(1), of p party] p(2) by (simp add: GetParty_def)
  then have "x \<in> set (di_participants d)" using p(3) cr(1) by (auto simp: party_ok_def)
  moreover have "open_dungeon rnd bound x d dm\<^sub>1 udm = Some (r, dm', udm')"
    using enter p c(1) by (simp add: enter_dungeon_def dm\<^sub>1_def)
  ultimately show ?thesis
  proof (cases rule: open_dungeon_result [OF inv1 d cr(2) id(1) inv(2) sync1 hol bound, consumes 2, case_names ok failed])
    case (ok port token)
    have "synced dm' udm'" using inv(3) cr(1) ros(2) by (simp add: ok synced_def)
    with ok inv1 id(2) p cr(1) ros show ?thesis by (auto simp: IsValidEnterDungeonResponse_def)
  next
    case failed
    have "roster dm' = roster dm"
      using new by (auto simp: failed drop_dungeon_def roster_def dm\<^sub>1_def umap_simps um_contains_def fun_eq_iff)
    moreover have "dm_inv cat dm'" using dm_inv_drop [OF inv1 d] failed(2) by simp
    ultimately show ?thesis
      using failed synced_cong [OF inv(3)] by (auto simp: refused_def IsValidEnterDungeonResponse_def)
  qed
qed

section \<open>Connection information\<close>

lemma connection_info_result:
  assumes inv: "dm_inv cat dm" "udm_inv udm" "synced dm udm"
    and ports: "\<And>i port. FindPort udm i = Some port \<Longrightarrow> port \<noteq> 0"
  shows "\<exists>res i port token. connection_info x pm dm udm = Inr (res, i, port, token) \<and>
    IsValidConnectionInfoResponse res i port token \<and>
    (res = InfoSuccess \<longrightarrow> (\<exists>xs. roster dm i = Some xs \<and> x \<in> set xs) \<and> FindPort udm i = Some port \<and>
      FindToken udm i x = Some token)"
proof -
  define by_party where "by_party = (case GetJoinedParty pm x of None \<Rightarrow> Inr None | Some i \<Rightarrow> FindDungeonByParty dm i)"
  have bp: "\<exists>o'. by_party = Inr o' \<and> (\<forall>d. o' = Some d \<longrightarrow> (\<exists>i. map_of (dm_dungeons dm) i = Some d))"
    using dm_invD(6) [OF inv(1)] by (fastforce simp: by_party_def FindDungeonByParty_def split: option.splits)
  then obtain o' where o': "by_party = Inr o'" "\<And>d. o' = Some d \<Longrightarrow> \<exists>i. map_of (dm_dungeons dm) i = Some d" by blast
  define found where "found = (case o' of None \<Rightarrow> FindDungeonByParticipant dm x | Some d \<Rightarrow> Some d)"
  have hosted: "\<exists>i. map_of (dm_dungeons dm) i = Some d" if "found = Some d" for d
    using that o'(2) find_dungeon [OF dm_invD(1) [OF inv(1)], of "\<lambda>d. HasParticipant d x"]
    by (fastforce simp: found_def FindDungeonByParticipant_def split: option.splits)
  show ?thesis
  proof (cases found)
    case None
    then show ?thesis
      using o'(1) by (auto simp: connection_info_def Let_def by_party_def [symmetric] found_def IsValidConnectionInfoResponse_def)
  next
    case (Some d)
    obtain i where i: "map_of (dm_dungeons dm) i = Some d" using hosted [OF Some] by blast
    have id: "di_dungeonId d = i" "i \<noteq> 0" "roster_inv d"
      using dm_invD(3,5) [OF inv(1) i] by (auto simp: hosted_def)
    have eq: "connection_info x pm dm udm =
        (if \<not> HasParticipant d x then Inr (InfoNotDungeonParticipant, 0, 0, 0)
         else (case (FindPort udm i, FindToken udm i x) of
                 (Some port, Some token) \<Rightarrow> Inr (InfoSuccess, i, port, token) | _ \<Rightarrow> Inr (UdpNotReady, 0, 0, 0)))"
      using Some o'(1) id(1) by (simp add: connection_info_def Let_def by_party_def [symmetric] found_def split: option.splits)
    have "\<exists>xs. roster dm i = Some xs \<and> x \<in> set xs" if "HasParticipant d x"
      using that i roster_invD(8) [OF id(3), of x] by (simp add: roster_def HasParticipant_def)
    then show ?thesis
      using eq id(2) token_nonzero [OF inv(2)] ports by (auto simp: IsValidConnectionInfoResponse_def split: option.splits)
  qed
qed

end
