(* ===== verification/Login_Limiter.thy ===== *)
theory Login_Limiter
  imports Prelude
begin

text \<open>
  The rate limiter of the authentication server (\<open>src/include/LoginAttemptLimiter.h\<close>,
  \<open>src/src/LoginAttemptLimiter.cpp\<close>): per client address and per account it keeps the times of the
  accepted attempts within a sliding window, and it bounds the number of password checks that run at
  once. A permit holds one of the slots; its destructor gives it back.

  \<open>window_inv\<close> relates a history map to the log of every attempt ever accepted: the map holds a suffix of
  the log, and what it has dropped is older than the window.
\<close>

record LoginAttemptLimiterOptions =
  lo_maxAttemptsPerIp :: nat
  lo_maxAttemptsPerAccount :: nat
  lo_maxConcurrentPasswordJobs :: nat
  lo_maxTrackedIps :: nat
  lo_maxTrackedAccounts :: nat
  lo_attemptWindow :: int

definition limiter_options_IsValid :: "LoginAttemptLimiterOptions \<Rightarrow> bool" where
  "limiter_options_IsValid opts \<longleftrightarrow>
     0 < lo_maxAttemptsPerIp opts \<and> 0 < lo_maxAttemptsPerAccount opts \<and> 0 < lo_maxConcurrentPasswordJobs opts \<and>
     0 < lo_maxTrackedIps opts \<and> 0 < lo_maxTrackedAccounts opts \<and> 0 < lo_attemptWindow opts"

record LoginAttemptLimiterStats =
  ll_concurrentPasswordJobs :: nat
  ll_acceptedAttempts :: u64
  ll_rejectedByIp :: u64
  ll_rejectedByAccount :: u64
  ll_rejectedByConcurrency :: u64
  ll_rejectedByTrackingCapacity :: u64

type_synonym attempts = "(string, int list) umap"

record LoginAttemptLimiter =
  ll_ipAttempts :: attempts
  ll_accountAttempts :: attempts
  ll_stats :: LoginAttemptLimiterStats

datatype LoginAdmissionStatus = Accepted | RateLimited | ServiceBusy

definition make_LoginAttemptLimiter :: "LoginAttemptLimiterOptions \<Rightarrow> LoginAttemptLimiter option" where
  "make_LoginAttemptLimiter opts =
     (if \<not> limiter_options_IsValid opts then None
      else Some \<lparr>ll_ipAttempts = [], ll_accountAttempts = [],
                 ll_stats = \<lparr>ll_concurrentPasswordJobs = 0, ll_acceptedAttempts = 0, ll_rejectedByIp = 0,
                   ll_rejectedByAccount = 0, ll_rejectedByConcurrency = 0, ll_rejectedByTrackingCapacity = 0\<rparr>\<rparr>)"

text \<open>\<open>std::tolower\<close> in the C locale.\<close>

definition to_lower :: "char \<Rightarrow> char" where
  "to_lower c = (let n = (of_char c :: nat) in if 65 \<le> n \<and> n \<le> 90 then char_of (n + 32) else c)"

definition NormalizeAccountLoginId :: "string \<Rightarrow> string" where
  "NormalizeAccountLoginId loginId = map to_lower loginId"

definition drop_expired :: "int \<Rightarrow> int list \<Rightarrow> int list" where
  "drop_expired cutoff history = dropWhile (\<lambda>t. t \<le> cutoff) history"

definition PruneExpired :: "int \<Rightarrow> attempts \<Rightarrow> attempts" where
  "PruneExpired cutoff m =
     filter (\<lambda>e. snd e \<noteq> []) (map (\<lambda>e. (fst e, drop_expired cutoff (snd e))) m)"

text \<open>The iterator that is returned: \<open>None\<close> for \<open>end()\<close>, else the history it points to.\<close>

definition FindAndPrune :: "string \<Rightarrow> int \<Rightarrow> attempts \<Rightarrow> int list option \<times> attempts" where
  "FindAndPrune key cutoff m =
     (case map_of m key of
        None \<Rightarrow> (None, m)
      | Some history \<Rightarrow>
          let history = drop_expired cutoff history in
          if history = [] then (None, um_erase key m) else (Some history, um_modify key (\<lambda>_. history) m))"

definition hist :: "attempts \<Rightarrow> string \<Rightarrow> int list" where
  "hist m key = (case map_of m key of None \<Rightarrow> [] | Some history \<Rightarrow> history)"

text \<open>\<open>attempts[key].push_back(now)\<close>\<close>

definition record_attempt :: "string \<Rightarrow> int \<Rightarrow> attempts \<Rightarrow> attempts" where
  "record_attempt key now m = um_set key (hist m key @ [now]) m"

definition ip_key :: "string \<Rightarrow> string" where
  "ip_key clientAddress = (if clientAddress = [] then ''unknown'' else clientAddress)"

definition TryAcquire ::
    "LoginAttemptLimiterOptions \<Rightarrow> int \<Rightarrow> string \<Rightarrow> string \<Rightarrow> LoginAttemptLimiter \<Rightarrow>
     LoginAdmissionStatus \<times> LoginAttemptLimiter" where
  "TryAcquire opts now clientAddress accountLoginId s =
     (let ipKey = ip_key clientAddress;
          accountKey = NormalizeAccountLoginId accountLoginId;
          cutoff = now - ms (lo_attemptWindow opts);
          (ip, ips) = FindAndPrune ipKey cutoff (ll_ipAttempts s);
          s = s\<lparr>ll_ipAttempts := ips\<rparr>;
          stats = ll_stats s
      in if (case ip of None \<Rightarrow> False | Some h \<Rightarrow> lo_maxAttemptsPerIp opts \<le> length h)
         then (RateLimited, s\<lparr>ll_stats := stats\<lparr>ll_rejectedByIp := ll_rejectedByIp stats + 1\<rparr>\<rparr>)
         else
           let (account, accounts) = FindAndPrune accountKey cutoff (ll_accountAttempts s);
               s = s\<lparr>ll_accountAttempts := accounts\<rparr>
           in if (case account of None \<Rightarrow> False | Some h \<Rightarrow> lo_maxAttemptsPerAccount opts \<le> length h)
              then (RateLimited, s\<lparr>ll_stats := stats\<lparr>ll_rejectedByAccount := ll_rejectedByAccount stats + 1\<rparr>\<rparr>)
              else
                let (needsIpEntry, ips) =
                      (if ip = None \<and> lo_maxTrackedIps opts \<le> length ips
                       then (\<not> um_contains (PruneExpired cutoff ips) ipKey, PruneExpired cutoff ips)
                       else (ip = None, ips));
                    (needsAccountEntry, accounts) =
                      (if account = None \<and> lo_maxTrackedAccounts opts \<le> length accounts
                       then (\<not> um_contains (PruneExpired cutoff accounts) accountKey, PruneExpired cutoff accounts)
                       else (account = None, accounts));
                    s = s\<lparr>ll_ipAttempts := ips, ll_accountAttempts := accounts\<rparr>
                in if needsIpEntry \<and> lo_maxTrackedIps opts \<le> length ips \<or>
                      needsAccountEntry \<and> lo_maxTrackedAccounts opts \<le> length accounts
                   then (ServiceBusy, s\<lparr>ll_stats :=
                          stats\<lparr>ll_rejectedByTrackingCapacity := ll_rejectedByTrackingCapacity stats + 1\<rparr>\<rparr>)
                   else if lo_maxConcurrentPasswordJobs opts \<le> ll_concurrentPasswordJobs stats
                   then (ServiceBusy, s\<lparr>ll_stats :=
                          stats\<lparr>ll_rejectedByConcurrency := ll_rejectedByConcurrency stats + 1\<rparr>\<rparr>)
                   else (Accepted,
                         s\<lparr>ll_ipAttempts := record_attempt ipKey now ips,
                           ll_accountAttempts := record_attempt accountKey now accounts,
                           ll_stats := stats\<lparr>ll_concurrentPasswordJobs := ll_concurrentPasswordJobs stats + 1,
                                             ll_acceptedAttempts := ll_acceptedAttempts stats + 1\<rparr>\<rparr>))"

text \<open>The destructor of a permit.\<close>

definition release_permit :: "LoginAttemptLimiter \<Rightarrow> LoginAttemptLimiter" where
  "release_permit s =
     (let stats = ll_stats s in
      if 0 < ll_concurrentPasswordJobs stats
      then s\<lparr>ll_stats := stats\<lparr>ll_concurrentPasswordJobs := ll_concurrentPasswordJobs stats - 1\<rparr>\<rparr> else s)"

section \<open>A sliding window\<close>

text \<open>\<open>logged\<close> is the log of accepted attempts per key, oldest first; \<open>w\<close> the length of the window.\<close>

definition window_inv :: "int \<Rightarrow> nat \<Rightarrow> int \<Rightarrow> attempts \<Rightarrow> (string \<Rightarrow> int list) \<Rightarrow> bool" where
  "window_inv w limit clock m logged \<longleftrightarrow>
     um_ok m \<and>
     (\<forall>k. sorted (logged k) \<and> (\<forall>t \<in> set (logged k). t \<le> clock) \<and>
        (\<exists>old. logged k = old @ hist m k \<and> (\<forall>t \<in> set old. t \<le> clock - w)) \<and>
        (\<forall>t. length (filter (\<lambda>x. t - w < x \<and> x \<le> t) (logged k)) \<le> limit))"

lemma drop_expired_split:
  assumes "sorted xs"
  obtains old where "xs = old @ drop_expired c xs" "\<forall>t \<in> set old. t \<le> c" "\<forall>t \<in> set (drop_expired c xs). c < t"
proof
  show "xs = takeWhile (\<lambda>t. t \<le> c) xs @ drop_expired c xs" by (simp add: drop_expired_def)
  show "\<forall>t \<in> set (takeWhile (\<lambda>t. t \<le> c) xs). t \<le> c" by (auto dest: set_takeWhileD)
  show "\<forall>t \<in> set (drop_expired c xs). c < t"
    using assms unfolding drop_expired_def by (induction xs) auto
qed

text \<open>Histories may lose what has expired by now.\<close>

lemma window_inv_prune:
  assumes inv: "window_inv w limit clock m logged" and now: "clock \<le> now" and ok: "um_ok m'"
    and h: "\<And>k. hist m' k = hist m k \<or> hist m' k = drop_expired (now - w) (hist m k)"
  shows "window_inv w limit now m' logged"
proof -
  have "\<exists>old. logged k = old @ hist m' k \<and> (\<forall>t \<in> set old. t \<le> now - w)" for k
  proof -
    obtain old where old: "logged k = old @ hist m k" "\<forall>t \<in> set old. t \<le> clock - w" and so: "sorted (logged k)"
      using inv unfolding window_inv_def by blast
    have le: "\<forall>t \<in> set old. t \<le> now - w" using old(2) now by fastforce
    have "sorted (hist m k)" using old(1) so by (simp add: sorted_append)
    then obtain old' where o: "hist m k = old' @ drop_expired (now - w) (hist m k)" "\<forall>t \<in> set old'. t \<le> now - w"
      by (rule drop_expired_split)
    show ?thesis
    proof (cases "hist m' k = hist m k")
      case True
      with old(1) le show ?thesis by auto
    next
      case False
      with h have "hist m' k = drop_expired (now - w) (hist m k)" by blast
      then have "logged k = (old @ old') @ hist m' k" using o(1) old(1) by simp
      moreover have "\<forall>t \<in> set (old @ old'). t \<le> now - w" using le o(2) by auto
      ultimately show ?thesis by blast
    qed
  qed
  moreover have "\<forall>t \<in> set (logged k). t \<le> now" for k using inv now unfolding window_inv_def by fastforce
  ultimately show ?thesis using inv ok by (simp add: window_inv_def)
qed

text \<open>A new attempt may be recorded when the history has room.\<close>

lemma window_inv_record:
  assumes inv: "window_inv w limit now m logged" and room: "length (hist m k) < limit" and w: "0 < w"
  shows "window_inv w limit now (record_attempt k now m) (logged(k := logged k @ [now]))"
proof -
  have h: "hist (record_attempt k now m) j = (if j = k then hist m k @ [now] else hist m j)" for j
    by (simp add: hist_def record_attempt_def umap_simps)
  have parts: "sorted (logged j)" "\<forall>t \<in> set (logged j). t \<le> now" "\<exists>old. logged j = old @ hist m j \<and> (\<forall>t \<in> set old. t \<le> now - w)"
    "length (filter (\<lambda>x. t - w < x \<and> x \<le> t) (logged j)) \<le> limit" for j t
    using inv unfolding window_inv_def by blast+
  have "length (filter (\<lambda>x. t - w < x \<and> x \<le> t) (logged k @ [now])) \<le> limit" for t
  proof (cases "now \<le> t")
    case True
    obtain old where old: "logged k = old @ hist m k" "\<forall>t \<in> set old. t \<le> now - w" using parts(3) by blast
    have "filter (\<lambda>x. t - w < x \<and> x \<le> t) old = []" using old(2) True by (fastforce simp: filter_empty_conv)
    then have "length (filter (\<lambda>x. t - w < x \<and> x \<le> t) (logged k @ [now])) \<le> Suc (length (hist m k))"
      using length_filter_le [of "\<lambda>x. t - w < x \<and> x \<le> t" "hist m k"] by (simp add: old(1) le_SucI)
    with room show ?thesis by simp
  next
    case False
    then show ?thesis using parts(4) by simp
  qed
  moreover have "sorted (logged k @ [now])" using parts(1,2) by (simp add: sorted_append)
  moreover have "\<exists>old. logged k @ [now] = old @ hist m k @ [now] \<and> (\<forall>t \<in> set old. t \<le> now - w)"
    using parts(3) [of k] by auto
  moreover have "um_ok (record_attempt k now m)" using inv by (simp add: record_attempt_def window_inv_def)
  ultimately show ?thesis
    using parts by (auto simp: window_inv_def h)
qed

section \<open>The limiter\<close>

lemma FindAndPrune_result:
  assumes "FindAndPrune k c m = (found, m')" "um_ok m"
  shows "um_ok m'" "hist m' j = (if j = k then drop_expired c (hist m k) else hist m j)"
    "found = None \<longleftrightarrow> \<not> um_contains m' k" "length (hist m' k) = (case found of None \<Rightarrow> 0 | Some h \<Rightarrow> length h)"
    "length m' \<le> length m"
proof -
  have "um_ok m' \<and> hist m' j = (if j = k then drop_expired c (hist m k) else hist m j) \<and>
      (found = None \<longleftrightarrow> \<not> um_contains m' k) \<and>
      length (hist m' k) = (case found of None \<Rightarrow> 0 | Some h \<Rightarrow> length h) \<and> length m' \<le> length m"
  proof (cases "map_of m k")
    case None
    with assms show ?thesis by (auto simp: FindAndPrune_def hist_def drop_expired_def um_contains_def)
  next
    case (Some h)
    moreover have "length (um_erase k m) \<le> length m" "length (um_modify k f m) = length m" for f
      by (simp_all add: um_erase_def um_modify_def)
    ultimately show ?thesis
      using assms by (cases "drop_expired c h = []") (auto simp: FindAndPrune_def hist_def umap_simps Let_def)
  qed
  then show "um_ok m'" "hist m' j = (if j = k then drop_expired c (hist m k) else hist m j)"
    "found = None \<longleftrightarrow> \<not> um_contains m' k" "length (hist m' k) = (case found of None \<Rightarrow> 0 | Some h \<Rightarrow> length h)"
    "length m' \<le> length m" by blast+
qed

lemma PruneExpired_result:
  assumes "um_ok m"
  shows "um_ok (PruneExpired c m)" "hist (PruneExpired c m) j = drop_expired c (hist m j)"
    "length (PruneExpired c m) \<le> length m" "um_contains (PruneExpired c m) k \<Longrightarrow> um_contains m k"
proof -
  let ?m = "map (\<lambda>e. (fst e, drop_expired c (snd e))) m"
  have "um_ok ?m" using assms by (simp add: um_ok_def comp_def)
  then show ok: "um_ok (PruneExpired c m)" by (simp add: PruneExpired_def)
  have "map_of (filter (\<lambda>e. snd e \<noteq> []) xs) j = (case map_of xs j of None \<Rightarrow> None | Some h \<Rightarrow> if h = [] then None else Some h)"
    if "um_ok xs" for xs :: attempts
    using that by (induction xs) (auto simp: um_ok_def image_iff map_of_eq_None_iff split: option.splits)
  moreover have "map_of ?m j = map_option (drop_expired c) (map_of m j)" by (induction m) auto
  ultimately show "hist (PruneExpired c m) j = drop_expired c (hist m j)"
    using \<open>um_ok ?m\<close> by (simp add: hist_def PruneExpired_def split: option.splits) (simp add: drop_expired_def)
  show "length (PruneExpired c m) \<le> length m"
    using length_filter_le [of "\<lambda>e. snd e \<noteq> []" ?m] by (simp add: PruneExpired_def del: length_filter_le)
  show "um_contains (PruneExpired c m) k \<Longrightarrow> um_contains m k"
    by (auto simp: um_contains_iff_dom PruneExpired_def image_iff)
qed

lemma length_record_attempt:
  "length (record_attempt k now m) = (if um_contains m k then length m else Suc (length m))"
proof -
  have "length (AList.update k v m) = (if um_contains m k then length m else Suc (length m))" for v :: "int list"
    by (induction m) (auto simp: um_contains_def)
  then show ?thesis by (simp add: record_attempt_def um_set_def)
qed

text \<open>
  One of the two maps through a call: pruned for the key, pruned for everybody if it is full, and either
  refused or extended.
\<close>

lemma admit:
  assumes inv: "window_inv w limit clock m logged" "clock \<le> now" "0 < w" "0 < limit" "length m \<le> cap"
    and fp: "FindAndPrune k (now - w) m = (found, m\<^sub>1)"
    and m2: "(needs, m\<^sub>2) = (if found = None \<and> cap \<le> length m\<^sub>1
        then (\<not> um_contains (PruneExpired (now - w) m\<^sub>1) k, PruneExpired (now - w) m\<^sub>1) else (found = None, m\<^sub>1))"
  shows "window_inv w limit now m\<^sub>1 logged" "length m\<^sub>1 \<le> cap" "window_inv w limit now m\<^sub>2 logged" "length m\<^sub>2 \<le> cap"
    "\<not> (case found of None \<Rightarrow> False | Some h \<Rightarrow> limit \<le> length h) \<Longrightarrow> \<not> (needs \<and> cap \<le> length m\<^sub>2) \<Longrightarrow>
      window_inv w limit now (record_attempt k now m\<^sub>2) (logged(k := logged k @ [now])) \<and>
      length (record_attempt k now m\<^sub>2) \<le> cap"
proof -
  have ok: "um_ok m" using inv(1) by (simp add: window_inv_def)
  note f = FindAndPrune_result [OF fp ok]
  show w1: "window_inv w limit now m\<^sub>1 logged"
    using f(2) by (intro window_inv_prune [OF inv(1,2) f(1)]) auto
  show l1: "length m\<^sub>1 \<le> cap" using f(5) inv(5) by simp
  note p = PruneExpired_result [OF f(1)]
  have m2': "m\<^sub>2 = m\<^sub>1 \<or> m\<^sub>2 = PruneExpired (now - w) m\<^sub>1" using m2 by (auto split: if_splits)
  have "um_ok m\<^sub>2" using m2' f(1) p(1) by auto
  moreover have h2: "hist m\<^sub>2 j = hist m\<^sub>1 j \<or> hist m\<^sub>2 j = drop_expired (now - w) (hist m\<^sub>1 j)" for j
    using m2' p(2) by auto
  ultimately show w2: "window_inv w limit now m\<^sub>2 logged" by (intro window_inv_prune [OF w1 order_refl]) auto
  show l2: "length m\<^sub>2 \<le> cap" using m2' l1 p(3) [of "now - w"] by auto
  have needs: "needs \<longleftrightarrow> \<not> um_contains m\<^sub>2 k"
    using m2 f(3) p(4) [of "now - w" k] by (auto split: if_splits)
  assume room: "\<not> (case found of None \<Rightarrow> False | Some h \<Rightarrow> limit \<le> length h)" "\<not> (needs \<and> cap \<le> length m\<^sub>2)"
  have "length (hist m\<^sub>2 k) \<le> length (hist m\<^sub>1 k)"
    using h2 [of k] length_dropWhile_le [of "\<lambda>t. t \<le> now - w" "hist m\<^sub>1 k"] by (auto simp: drop_expired_def)
  also have "\<dots> < limit" using f(4) room(1) inv(4) by (cases found) auto
  finally have "window_inv w limit now (record_attempt k now m\<^sub>2) (logged(k := logged k @ [now]))"
    by (intro window_inv_record [OF w2 _ inv(3)])
  then show "window_inv w limit now (record_attempt k now m\<^sub>2) (logged(k := logged k @ [now])) \<and>
      length (record_attempt k now m\<^sub>2) \<le> cap"
    using room(2) needs l2 by (auto simp: length_record_attempt)
qed

definition limiter_inv ::
    "LoginAttemptLimiterOptions \<Rightarrow> int \<Rightarrow> (string \<Rightarrow> int list) \<Rightarrow> (string \<Rightarrow> int list) \<Rightarrow> LoginAttemptLimiter \<Rightarrow> bool" where
  "limiter_inv opts clock ips accounts s \<longleftrightarrow>
     window_inv (ms (lo_attemptWindow opts)) (lo_maxAttemptsPerIp opts) clock (ll_ipAttempts s) ips \<and>
     window_inv (ms (lo_attemptWindow opts)) (lo_maxAttemptsPerAccount opts) clock (ll_accountAttempts s) accounts \<and>
     length (ll_ipAttempts s) \<le> lo_maxTrackedIps opts \<and> length (ll_accountAttempts s) \<le> lo_maxTrackedAccounts opts \<and>
     ll_concurrentPasswordJobs (ll_stats s) \<le> lo_maxConcurrentPasswordJobs opts"

lemma limiter_inv_init: "make_LoginAttemptLimiter opts = Some s \<Longrightarrow> limiter_inv opts clock (\<lambda>_. []) (\<lambda>_. []) s"
  by (auto simp: make_LoginAttemptLimiter_def limiter_inv_def window_inv_def hist_def split: if_splits)

lemma limiter_inv_release: "limiter_inv opts clock ips accounts s \<Longrightarrow> limiter_inv opts clock ips accounts (release_permit s)"
  by (auto simp: limiter_inv_def release_permit_def Let_def)

lemma limiter_inv_TryAcquire:
  assumes valid: "limiter_options_IsValid opts" and inv: "limiter_inv opts clock ips accounts s" and now: "clock \<le> now"
    and acq: "TryAcquire opts now address login s = (st, s')"
  shows "limiter_inv opts now
     (if st = Accepted then ips(ip_key address := ips (ip_key address) @ [now]) else ips)
     (if st = Accepted then accounts(NormalizeAccountLoginId login := accounts (NormalizeAccountLoginId login) @ [now])
      else accounts) s'"
proof -
  define w where "w = ms (lo_attemptWindow opts)"
  have w: "0 < w" using valid by (simp add: w_def ms_def limiter_options_IsValid_def)
  have pos: "0 < lo_maxAttemptsPerIp opts" "0 < lo_maxAttemptsPerAccount opts"
    using valid by (auto simp: limiter_options_IsValid_def)
  have i: "window_inv w (lo_maxAttemptsPerIp opts) clock (ll_ipAttempts s) ips"
    "length (ll_ipAttempts s) \<le> lo_maxTrackedIps opts"
    "window_inv w (lo_maxAttemptsPerAccount opts) clock (ll_accountAttempts s) accounts"
    "length (ll_accountAttempts s) \<le> lo_maxTrackedAccounts opts"
    "ll_concurrentPasswordJobs (ll_stats s) \<le> lo_maxConcurrentPasswordJobs opts"
    using inv by (auto simp: limiter_inv_def w_def)
  obtain ip m\<^sub>1 where f1: "FindAndPrune (ip_key address) (now - w) (ll_ipAttempts s) = (ip, m\<^sub>1)" by fastforce
  obtain ac a\<^sub>1 where f2: "FindAndPrune (NormalizeAccountLoginId login) (now - w) (ll_accountAttempts s) = (ac, a\<^sub>1)" by fastforce
  obtain n\<^sub>2 m\<^sub>2 where g1: "(n\<^sub>2, m\<^sub>2) = (if ip = None \<and> lo_maxTrackedIps opts \<le> length m\<^sub>1
      then (\<not> um_contains (PruneExpired (now - w) m\<^sub>1) (ip_key address), PruneExpired (now - w) m\<^sub>1) else (ip = None, m\<^sub>1))"
    by (metis prod.exhaust)
  obtain b\<^sub>2 a\<^sub>2 where g2: "(b\<^sub>2, a\<^sub>2) = (if ac = None \<and> lo_maxTrackedAccounts opts \<le> length a\<^sub>1
      then (\<not> um_contains (PruneExpired (now - w) a\<^sub>1) (NormalizeAccountLoginId login), PruneExpired (now - w) a\<^sub>1)
      else (ac = None, a\<^sub>1))"
    by (metis prod.exhaust)
  note A = admit [OF i(1) now w pos(1) i(2) f1 g1]
  note B = admit [OF i(3) now w pos(2) i(4) f2 g2]
  have keep: "window_inv w (lo_maxAttemptsPerAccount opts) now (ll_accountAttempts s) accounts"
    using i(3) by (intro window_inv_prune [OF i(3) now]) (auto simp: window_inv_def)
  let ?full1 = "case ip of None \<Rightarrow> False | Some h \<Rightarrow> lo_maxAttemptsPerIp opts \<le> length h"
  let ?full2 = "case ac of None \<Rightarrow> False | Some h \<Rightarrow> lo_maxAttemptsPerAccount opts \<le> length h"
  let ?tracked = "n\<^sub>2 \<and> lo_maxTrackedIps opts \<le> length m\<^sub>2 \<or> b\<^sub>2 \<and> lo_maxTrackedAccounts opts \<le> length a\<^sub>2"
  note unfold = TryAcquire_def f1 f2 Let_def w_def [symmetric] prod.case g1 [symmetric] g2 [symmetric] 
  show ?thesis
  proof (cases ?full1)
    case True
    then have "st = RateLimited" "ll_ipAttempts s' = m\<^sub>1" "ll_accountAttempts s' = ll_accountAttempts s"
      "ll_concurrentPasswordJobs (ll_stats s') = ll_concurrentPasswordJobs (ll_stats s)"
      using acq by (auto simp: unfold)
    with A(1,2) keep i(4,5) show ?thesis by (simp add: limiter_inv_def w_def)
  next
    case f1: False
    show ?thesis
    proof (cases ?full2)
      case True
      with f1 have "st = RateLimited" "ll_ipAttempts s' = m\<^sub>1" "ll_accountAttempts s' = a\<^sub>1"
        "ll_concurrentPasswordJobs (ll_stats s') = ll_concurrentPasswordJobs (ll_stats s)"
        using acq by (auto simp: unfold)
      with A(1,2) B(1,2) i(5) show ?thesis by (simp add: limiter_inv_def w_def)
    next
      case f2: False
      consider "?tracked \<or> lo_maxConcurrentPasswordJobs opts \<le> ll_concurrentPasswordJobs (ll_stats s)"
        | "\<not> ?tracked" "ll_concurrentPasswordJobs (ll_stats s) < lo_maxConcurrentPasswordJobs opts" by linarith
      then show ?thesis
      proof cases
        case 1
        with f1 f2 have "st = ServiceBusy" "ll_ipAttempts s' = m\<^sub>2" "ll_accountAttempts s' = a\<^sub>2"
          "ll_concurrentPasswordJobs (ll_stats s') = ll_concurrentPasswordJobs (ll_stats s)"
          using acq by (auto simp: unfold split: if_splits)
        with A(3,4) B(3,4) i(5) show ?thesis by (simp add: limiter_inv_def w_def)
      next
        case 2
        with f1 f2 have "st = Accepted" "ll_ipAttempts s' = record_attempt (ip_key address) now m\<^sub>2"
          "ll_accountAttempts s' = record_attempt (NormalizeAccountLoginId login) now a\<^sub>2"
          "ll_concurrentPasswordJobs (ll_stats s') = ll_concurrentPasswordJobs (ll_stats s) + 1"
          using acq by (auto simp: unfold)
        with A(5) [OF f1] B(5) [OF f2] 2 show ?thesis by (auto simp: limiter_inv_def w_def)
      qed
    qed
  qed
qed

section \<open>Runs\<close>

text \<open>
  Calls in the order in which they take the mutex, with the log of the accepted attempts: time, address
  and account. The clock is read before the mutex is taken; a run in which the readings are out of order
  is excluded by \<open>clock_ordered\<close>.
\<close>

datatype limiter_op = LAcquire int string string | LRelease

fun limiter_step ::
    "LoginAttemptLimiterOptions \<Rightarrow> LoginAttemptLimiter \<times> (int \<times> string \<times> string) list \<Rightarrow> limiter_op \<Rightarrow>
     LoginAttemptLimiter \<times> (int \<times> string \<times> string) list" where
  "limiter_step opts (s, log) (LAcquire now address login) =
     (let (st, s') = TryAcquire opts now address login s
      in (s', if st = Accepted then log @ [(now, ip_key address, NormalizeAccountLoginId login)] else log))"
| "limiter_step opts (s, log) LRelease = (release_permit s, log)"

fun clock_ordered :: "int \<Rightarrow> limiter_op list \<Rightarrow> bool" where
  "clock_ordered clock [] = True"
| "clock_ordered clock (LAcquire now a l # ops) = (clock \<le> now \<and> clock_ordered now ops)"
| "clock_ordered clock (LRelease # ops) = clock_ordered clock ops"

definition ip_log :: "(int \<times> string \<times> string) list \<Rightarrow> string \<Rightarrow> int list" where
  "ip_log log k = map fst (filter (\<lambda>e. fst (snd e) = k) log)"

definition account_log :: "(int \<times> string \<times> string) list \<Rightarrow> string \<Rightarrow> int list" where
  "account_log log k = map fst (filter (\<lambda>e. snd (snd e) = k) log)"

lemma logs_append:
  "ip_log (log @ [(t, i, a)]) = (ip_log log)(i := ip_log log i @ [t])"
  "account_log (log @ [(t, i, a)]) = (account_log log)(a := account_log log a @ [t])"
  by (auto simp: ip_log_def account_log_def fun_eq_iff)

lemma limiter_run_inv:
  assumes "limiter_options_IsValid opts"
  shows "limiter_inv opts clock (ip_log log) (account_log log) s \<Longrightarrow> clock_ordered clock ops \<Longrightarrow>
    run (limiter_step opts) (s, log) ops = (s', log') \<Longrightarrow>
    \<exists>clock'. limiter_inv opts clock' (ip_log log') (account_log log') s'"
proof (induction clock ops arbitrary: s log rule: clock_ordered.induct)
  case (2 clock now a l ops)
  obtain st s\<^sub>1 where acq: "TryAcquire opts now a l s = (st, s\<^sub>1)" by fastforce
  define log\<^sub>1 where "log\<^sub>1 = (if st = Accepted then log @ [(now, ip_key a, NormalizeAccountLoginId l)] else log)"
  have "limiter_inv opts now (ip_log log\<^sub>1) (account_log log\<^sub>1) s\<^sub>1"
    using limiter_inv_TryAcquire [OF assms "2.prems"(1) _ acq] "2.prems"(2)
    by (auto simp: log\<^sub>1_def logs_append split: if_splits)
  with "2.IH" "2.prems"(2,3) acq show ?case by (simp add: log\<^sub>1_def)
next
  case (3 clock ops)
  then show ?case using limiter_inv_release [OF "3.prems"(1)] "3.IH" by simp
qed auto

end
