(* ===== verification/Database_Executor.thy ===== *)
theory Database_Executor
  imports Prelude
begin

text \<open>
  The bounded queue in front of the database threads (\<open>src/include/DatabaseExecutor.h\<close>,
  \<open>src/src/DatabaseExecutor.cpp\<close>).

  A task is a value of any type. The thread pool is not part of the sources: \<open>de_queued\<close> are the lambdas
  posted to it that no thread has begun, \<open>de_active\<close> those whose task is running, and a thread may begin
  any queued lambda. \<open>boost::asio::post\<close> may throw, hence the flag \<open>posted\<close>. \<open>thread_pool::join\<close> returns
  when nothing is queued or running. Times are nanoseconds.
\<close>

record DatabaseExecutorStats =
  des_acceptingTasks :: bool
  des_queueDepth :: nat
  des_activeTasks :: nat
  des_peakQueueDepth :: nat
  des_acceptedTasks :: u64
  des_rejectedTasks :: u64
  des_completedTasks :: u64
  des_failedTasks :: u64
  des_totalQueueWait :: int
  des_totalExecutionTime :: int

record 't DatabaseExecutor =
  de_maxQueuedTasks :: nat
  de_queued :: "(int \<times> 't) list"
  de_active :: "(int \<times> 't) list"
  de_stats :: DatabaseExecutorStats
  de_acceptingTasks :: bool
  de_stopping :: bool
  de_joined :: bool

datatype executor_error = WorkerCountMustBePositive | QueueLimitMustBePositive | TaskMustNotBeEmpty
  | PostFailed | TaskQueueIsFull

definition make_DatabaseExecutor :: "nat \<Rightarrow> nat \<Rightarrow> executor_error + 't DatabaseExecutor" where
  "make_DatabaseExecutor workerCount maxQueuedTasks =
     (if maxQueuedTasks = 0 then Inl QueueLimitMustBePositive
      else if workerCount = 0 then Inl WorkerCountMustBePositive
      else Inr \<lparr>de_maxQueuedTasks = maxQueuedTasks, de_queued = [], de_active = [],
                de_stats = \<lparr>des_acceptingTasks = True, des_queueDepth = 0, des_activeTasks = 0,
                  des_peakQueueDepth = 0, des_acceptedTasks = 0, des_rejectedTasks = 0, des_completedTasks = 0,
                  des_failedTasks = 0, des_totalQueueWait = 0, des_totalExecutionTime = 0\<rparr>,
                de_acceptingTasks = True, de_stopping = False, de_joined = False\<rparr>)"

definition upd_de :: "(DatabaseExecutorStats \<Rightarrow> DatabaseExecutorStats) \<Rightarrow> 't DatabaseExecutor \<Rightarrow> 't DatabaseExecutor" where
  "upd_de f s = s\<lparr>de_stats := f (de_stats s)\<rparr>"

text \<open>An empty \<open>std::function\<close> is \<open>None\<close>. An exception leaves the state that is returned with it.\<close>

definition TryPost ::
    "int \<Rightarrow> bool \<Rightarrow> 't option \<Rightarrow> 't DatabaseExecutor \<Rightarrow> (executor_error + bool) \<times> 't DatabaseExecutor" where
  "TryPost queuedAt posted task s =
     (case task of
        None \<Rightarrow> (Inl TaskMustNotBeEmpty, s)
      | Some t \<Rightarrow>
          if \<not> de_acceptingTasks s
          then (Inr False, upd_de (\<lambda>st. st\<lparr>des_rejectedTasks := des_rejectedTasks st + 1\<rparr>) s)
          else if de_maxQueuedTasks s \<le> des_queueDepth (de_stats s)
          then (Inr False, upd_de (\<lambda>st. st\<lparr>des_rejectedTasks := des_rejectedTasks st + 1\<rparr>) s)
          else
            let s = upd_de (\<lambda>st. let depth = des_queueDepth st + 1 in
                      st\<lparr>des_queueDepth := depth, des_acceptedTasks := des_acceptedTasks st + 1,
                         des_peakQueueDepth := (if des_peakQueueDepth st < depth then depth
                                                else des_peakQueueDepth st)\<rparr>) s
            in if posted then (Inr True, s\<lparr>de_queued := de_queued s @ [(queuedAt, t)]\<rparr>)
               else (Inl PostFailed,
                     upd_de (\<lambda>st. st\<lparr>des_queueDepth := des_queueDepth st - 1,
                                     des_acceptedTasks := des_acceptedTasks st - 1,
                                     des_rejectedTasks := des_rejectedTasks st + 1\<rparr>) s))"

definition de_Post ::
    "int \<Rightarrow> bool \<Rightarrow> 't option \<Rightarrow> 't DatabaseExecutor \<Rightarrow> (executor_error + unit) \<times> 't DatabaseExecutor" where
  "de_Post queuedAt posted task s =
     (case TryPost queuedAt posted task s of
        (Inl e, s') \<Rightarrow> (Inl e, s')
      | (Inr b, s') \<Rightarrow> if \<not> b then (Inl TaskQueueIsFull, s') else (Inr (), s'))"

text \<open>The two halves of the lambda: before the task runs and after it.\<close>

definition begin_task :: "int \<Rightarrow> nat \<Rightarrow> 't DatabaseExecutor \<Rightarrow> 't DatabaseExecutor" where
  "begin_task startedAt n s =
     (let (queuedAt, t) = de_queued s ! n in
      upd_de (\<lambda>st. st\<lparr>des_queueDepth := des_queueDepth st - 1, des_activeTasks := des_activeTasks st + 1,
                      des_totalQueueWait := des_totalQueueWait st + (startedAt - queuedAt)\<rparr>)
        (s\<lparr>de_queued := take n (de_queued s) @ drop (Suc n) (de_queued s),
           de_active := de_active s @ [(startedAt, t)]\<rparr>))"

definition end_task :: "int \<Rightarrow> bool \<Rightarrow> nat \<Rightarrow> 't DatabaseExecutor \<Rightarrow> 't DatabaseExecutor" where
  "end_task completedAt failed n s =
     (let (startedAt, t) = de_active s ! n in
      upd_de (\<lambda>st. st\<lparr>des_activeTasks := des_activeTasks st - 1, des_completedTasks := des_completedTasks st + 1,
                      des_failedTasks := (if failed then des_failedTasks st + 1 else des_failedTasks st),
                      des_totalExecutionTime := des_totalExecutionTime st + (completedAt - startedAt)\<rparr>)
        (s\<lparr>de_active := take n (de_active s) @ drop (Suc n) (de_active s)\<rparr>))"

text \<open>
  \<open>DrainAndStop\<close> up to the call of \<open>join\<close>, and after it. The first result is whether this call does the
  join; a second caller waits for it on the condition variable, or returns at once when it is done.
\<close>

definition begin_drain :: "'t DatabaseExecutor \<Rightarrow> bool \<times> 't DatabaseExecutor" where
  "begin_drain s =
     (if de_joined s then (False, s)
      else if de_stopping s then (False, s)
      else (True, upd_de (\<lambda>st. st\<lparr>des_acceptingTasks := False\<rparr>)
                    (s\<lparr>de_acceptingTasks := False, de_stopping := True\<rparr>)))"

definition end_drain :: "'t DatabaseExecutor \<Rightarrow> 't DatabaseExecutor" where
  "end_drain s = s\<lparr>de_joined := True\<rparr>"

section \<open>Runs\<close>

inductive executor_step :: "'t DatabaseExecutor \<Rightarrow> 't DatabaseExecutor \<Rightarrow> bool" where
  post: "executor_step s (snd (TryPost queuedAt posted task s))"
| pick: "n < length (de_queued s) \<Longrightarrow> executor_step s (begin_task startedAt n s)"
| complete: "n < length (de_active s) \<Longrightarrow> executor_step s (end_task completedAt failed n s)"
| drain: "executor_step s (snd (begin_drain s))"
| join: "de_stopping s \<Longrightarrow> de_queued s = [] \<Longrightarrow> de_active s = [] \<Longrightarrow> executor_step s (end_drain s)"

inductive_cases executor_stepE: "executor_step s s'"

definition executor_inv :: "'t DatabaseExecutor \<Rightarrow> bool" where
  "executor_inv s \<longleftrightarrow>
     des_queueDepth (de_stats s) = length (de_queued s) \<and>
     des_activeTasks (de_stats s) = length (de_active s) \<and>
     des_queueDepth (de_stats s) \<le> des_peakQueueDepth (de_stats s) \<and>
     des_peakQueueDepth (de_stats s) \<le> de_maxQueuedTasks s \<and>
     des_acceptedTasks (de_stats s) =
       des_completedTasks (de_stats s) + of_nat (length (de_active s) + length (de_queued s)) \<and>
     (de_acceptingTasks s \<longleftrightarrow> \<not> de_stopping s) \<and>
     (de_joined s \<longrightarrow> de_stopping s \<and> de_queued s = [] \<and> de_active s = [])"

lemma executor_inv_init: "make_DatabaseExecutor n q = Inr s \<Longrightarrow> executor_inv s"
  by (auto simp: make_DatabaseExecutor_def executor_inv_def split: if_splits)

lemma executor_inv_TryPost: "executor_inv s \<Longrightarrow> executor_inv (snd (TryPost q p t s))"
  by (cases t) (auto simp: TryPost_def executor_inv_def upd_de_def Let_def)

lemma executor_inv_step:
  assumes "executor_step s s'" "executor_inv s"
  shows "executor_inv s'"
  using assms(1)
proof cases
  case post
  with assms(2) show ?thesis by (simp add: executor_inv_TryPost)
next
  case (pick n)
  with assms(2) show ?thesis
    by (cases "de_queued s ! n") (auto simp: begin_task_def executor_inv_def upd_de_def algebra_simps)
next
  case (complete n)
  with assms(2) show ?thesis
    by (cases "de_active s ! n") (auto simp: end_task_def executor_inv_def upd_de_def algebra_simps)
next
  case drain
  with assms(2) show ?thesis by (auto simp: begin_drain_def executor_inv_def upd_de_def)
next
  case join
  with assms(2) show ?thesis by (auto simp: end_drain_def executor_inv_def)
qed

inductive executor_reachable :: "nat \<Rightarrow> nat \<Rightarrow> 't DatabaseExecutor \<Rightarrow> bool" for workers limit where
  init: "make_DatabaseExecutor workers limit = Inr s \<Longrightarrow> executor_reachable workers limit s"
| step: "executor_reachable workers limit s \<Longrightarrow> executor_step s s' \<Longrightarrow> executor_reachable workers limit s'"

lemma executor_reachable_inv: "executor_reachable workers limit s \<Longrightarrow> executor_inv s"
  by (induction rule: executor_reachable.induct) (auto intro: executor_inv_init executor_inv_step)

lemma executor_limit: "executor_reachable workers limit s \<Longrightarrow> de_maxQueuedTasks s = limit"
proof (induction rule: executor_reachable.induct)
  case (step s s')
  have "de_maxQueuedTasks s' = de_maxQueuedTasks s"
    using step.hyps(2)
    by cases (auto simp: TryPost_def begin_task_def end_task_def begin_drain_def end_drain_def upd_de_def Let_def
        split: option.splits prod.splits)
  with step.IH show ?case by simp
qed (auto simp: make_DatabaseExecutor_def split: if_splits)

end
