(* ===== verification/Sample_Tcp.thy ===== *)
theory Sample_Tcp
  imports Tcp_Protocol Sample_Codec
begin

text \<open>
  A concrete serializer for the TCP protocol, made like the one for the datagrams.
\<close>

instance ChannelInfoTable_ext :: (countable) countable
  by (rule countable_classI [of "\<lambda>t. to_nat (cit_channel_id t, cit_display_name t, cit_current_players t,
        cit_max_players t, ChannelInfoTable.more t)"]) simp

instance DungeonCatalogEntryTable_ext :: (countable) countable
  by (rule countable_classI [of "\<lambda>t. to_nat (dce_dungeon_template_id t, dce_display_name t,
        dce_recommended_party_size t, dce_max_party_size t, dce_available t, DungeonCatalogEntryTable.more t)"]) simp

instance CollisionBox_ext :: (countable) countable
  by (rule countable_classI [of "\<lambda>b. to_nat (box_minimum b, box_maximum b, CollisionBox.more b)"]) simp

instance PortalStaticData_ext :: (countable) countable
  by (rule countable_classI [of "\<lambda>t. to_nat (psd_portal_id t, psd_trigger_area t, psd_target_room_id t,
        psd_target_position t, psd_requires_room_clear t, PortalStaticData.more t)"]) simp

instance ObstacleStaticData_ext :: (countable) countable
  by (rule countable_classI [of "\<lambda>t. to_nat (osd_obstacle_id t, osd_collision t, osd_destructible t, osd_max_hp t,
        ObstacleStaticData.more t)"]) simp

instance EnemySpawnStaticData_ext :: (countable) countable
  by (rule countable_classI [of "\<lambda>t. to_nat (ssd_enemy_spawn_id t, ssd_enemy_template_id t, ssd_position t, ssd_wave t,
        EnemySpawnStaticData.more t)"]) simp

instance RoomStaticData_ext :: (countable) countable
  by (rule countable_classI [of "\<lambda>t. to_nat (rsd_room_id t, rsd_width t, rsd_depth t, rsd_player_spawn t, rsd_portals t,
        rsd_obstacles t, rsd_enemy_spawns t, RoomStaticData.more t)"]) simp

instance EnemyTemplateStaticData_ext :: (countable) countable
  by (rule countable_classI [of "\<lambda>t. to_nat (esd_enemy_template_id t, esd_display_name t, esd_max_hp t, esd_move_speed t,
        esd_ai_type t, esd_collision t, EnemyTemplateStaticData.more t)"]) simp

instance StaticDataResponseTable_ext :: (countable) countable
  by (rule countable_classI [of "\<lambda>t. to_nat (sdt_result t, sdt_dungeon_id t, sdt_dungeon_template_id t, sdt_rooms t,
        sdt_enemy_templates t, StaticDataResponseTable.more t)"]) simp

instance TcpPayload :: countable
  by countable_datatype

instance TcpMessage_ext :: (countable) countable
  by (rule countable_classI [of "\<lambda>m. to_nat (tcp_protocol_version m, tcp_payload m, TcpMessage.more m)"]) simp

definition sample_tcp_serialize :: tcp_serializer where
  "sample_tcp_serialize m = replicate (Suc (to_nat m)) 0"

definition sample_tcp_parse :: tcp_parser where
  "sample_tcp_parse bytes = Some (from_nat (length bytes - 1))"

lemma sample_tcp_faithful: "tcp_faithful sample_tcp_parse sample_tcp_serialize"
  by (simp add: tcp_faithful_def sample_tcp_serialize_def sample_tcp_parse_def)

end
