(* ===== verification/Service_Properties.thy ===== *)
theory Service_Properties
  imports Request_Handlers Login_Limiter Database_Executor Sample_Tcp
begin

text \<open>
  Properties of the services around the game: the payloads of the TCP protocol, the identity of a session,
  the login limiter and the database executor, each with a concrete instance where it has hypotheses.
\<close>

section \<open>Payloads\<close>

text \<open>C36. Every request and response of the lobby: the encoder accepts exactly the valid values, and the
  decoder reads back what was written.\<close>

theorem lobby_payloads_carried:
  assumes "tcp_faithful parse serialize"
  shows "carries parse serialize EncodeLoginRequestPayload DecodeLoginRequestPayload IsValidAuthTicket id \<and>
    carries parse serialize EncodeLoginResponsePayload DecodeLoginResponsePayload (\<lambda>(r, x). IsValidLoginResponse r x) id \<and>
    carries parse serialize EncodeJoinChannelRequestPayload DecodeJoinChannelRequestPayload (\<lambda>c. c \<noteq> 0) id \<and>
    carries parse serialize EncodeJoinChannelResponsePayload DecodeJoinChannelResponsePayload
      (\<lambda>(r, c). IsValidJoinChannelResponse r c) id \<and>
    carries parse serialize EncodeChannelListResponsePayload DecodeChannelListResponsePayload
      (list_all valid_channel) (map channel_view) \<and>
    carries parse serialize EncodeEnterDungeonRequestPayload DecodeEnterDungeonRequestPayload (\<lambda>t. t \<noteq> 0) id \<and>
    carries parse serialize EncodeEnterDungeonResponsePayload DecodeEnterDungeonResponsePayload
      (\<lambda>(r, i, p, t). IsValidEnterDungeonResponse r i p t) id \<and>
    carries parse serialize EncodeDungeonConnectionInfoResponsePayload DecodeDungeonConnectionInfoResponsePayload
      (\<lambda>(r, i, p, t). IsValidConnectionInfoResponse r i p t) id \<and>
    carries parse serialize EncodeCreatePartyResponsePayload DecodeCreatePartyResponsePayload
      (\<lambda>(r, p, x). IsValidCreatePartyResponse r p x) id \<and>
    carries parse serialize EncodeJoinPartyRequestPayload DecodeJoinPartyRequestPayload (\<lambda>p. p \<noteq> 0) id \<and>
    carries parse serialize EncodeJoinPartyResponsePayload DecodeJoinPartyResponsePayload
      (\<lambda>(r, p, x). IsValidJoinPartyResponse r p x) id \<and>
    carries parse serialize EncodeLeavePartyResponsePayload DecodeLeavePartyResponsePayload (\<lambda>_. True) id \<and>
    carries parse serialize EncodePartySnapshotResponsePayload DecodePartySnapshotResponsePayload
      (\<lambda>(r, p, x, xs). IsValidPartySnapshot r p x xs) id"
  by (intro conjI login_request.carries login_response.carries join_channel_request.carries join_channel_response.carries
      channel_list_response.carries enter_request.carries enter_response.carries info_response.carries
      create_party_response.carries join_party_request.carries join_party_response.carries leave_party_response.carries
      party_snapshot_response.carries assms)

theorem lobby_payloads_carried_witness:
  "carries sample_tcp_parse sample_tcp_serialize EncodeLoginRequestPayload DecodeLoginRequestPayload IsValidAuthTicket id"
  using lobby_payloads_carried [OF sample_tcp_faithful] by blast

section \<open>The identity of a session\<close>

text \<open>C37. Until a session has logged in, no packet of it reaches a manager: a login request is handed to
  the login service, and anything else is refused without an effect.\<close>

theorem unauthenticated_sessions_locked_out:
  assumes "\<not> IsAuthenticated authState"
  shows "\<exists>r. DispatchAsync parse serialize catalog enemies now rnd bound x authState request s = Some (r, s) \<and>
    (case r of
       StartLogin ticket \<Rightarrow> headerType (header request) = LoginRequest \<and> IsValidAuthTicket ticket
     | Respond response \<Rightarrow> \<exists>e. response = Inl e)"
  using assms login_request.decode_acceptable [of parse "payload request"]
  by (auto simp: DispatchAsync_def split: sum.splits)

definition create_request :: Packet where
  "create_request = \<lparr>header = \<lparr>packetSize = 8, headerType = CreatePartyRequest, requestId = 1\<rparr>, payload = []\<rparr>"

definition empty_server :: ServerState where
  "empty_server = \<lparr>sv_channels = cm_init, sv_parties = pm_init, sv_dm = dm_init, sv_udm = udm_init\<rparr>"

theorem unauthenticated_sessions_locked_out_witness:
  "\<exists>r. DispatchAsync sample_tcp_parse sample_tcp_serialize [] [] 0 [] None 11 None create_request empty_server =
     Some (Respond (Inl r), empty_server)"
proof -
  have "\<not> IsAuthenticated None" "headerType (header create_request) \<noteq> LoginRequest"
    by (simp_all add: IsAuthenticated_def create_request_def)
  then show ?thesis
    using unauthenticated_sessions_locked_out [of None sample_tcp_parse sample_tcp_serialize "[]" "[]" 0 "[]" None 11
        create_request empty_server]
    by (fastforce split: dispatch_result.splits)
qed

text \<open>A login gives a session its identity once: the completion handler reports success exactly when
  it has authenticated the session, the identity is valid and belongs to the profile that was loaded,
  and a session that has an identity keeps it.\<close>

lemma identity_acquired_once:
  assumes "auth_inv s"
  shows "\<exists>result s'. complete_login serialize x request login s =
      (respond 101 request (EncodeLoginResponsePayload serialize (result, if result = LoginSuccess then x else 0)), s') \<and>
    auth_inv s' \<and> (s \<noteq> None \<longrightarrow> s' = s \<and> result \<noteq> LoginSuccess) \<and>
    (s = None \<longrightarrow> (result = LoginSuccess \<longleftrightarrow> s' \<noteq> None)) \<and>
    (result = LoginSuccess \<longrightarrow> pl_status login = PL_Success \<and>
       (\<exists>c p. s' = Some (c, p) \<and> pl_authContext login = Some c \<and> pl_profile login = Some p))"
proof (cases "pl_status login = PL_Success \<and> pl_authContext login \<noteq> None \<and> pl_profile login \<noteq> None")
  case False
  then show ?thesis
    using assms by (auto simp: complete_login_def ToLoginResult_def split: option.splits PlayerLoginStatus.splits)
next
  case True
  then obtain c p where l: "pl_status login = PL_Success" "pl_authContext login = Some c" "pl_profile login = Some p" by blast
  obtain b s' where a: "Authenticate c p s = (b, s')" by fastforce
  have "auth_inv s'" using auth_inv_Authenticate [OF assms, of c p] a by simp
  moreover have "if b then s = None \<and> s' = Some (c, p) else s' = s"
    using a by (cases s) (auto simp: Authenticate_def split: if_splits)
  ultimately show ?thesis
    using l a by (cases b) (auto simp: complete_login_def ToLoginResult_def)
qed

definition sample_login :: PlayerLoginResult where
  "sample_login = \<lparr>pl_status = PL_Success, pl_authContext = Some \<lparr>ac_accountId = 1, ac_playerId = 7\<rparr>,
     pl_profile = Some \<lparr>pp_playerId = 7, pp_name = ''kim'', pp_level = 1, pp_skillPoints = 0, pp_skills = []\<rparr>\<rparr>"

section \<open>Logging in\<close>




section \<open>The database executor\<close>

text \<open>C38. However callers and worker threads interleave: no more tasks are queued than the limit allows,
  the statistics agree with what is queued and running, every task that was accepted has completed, is
  running or is queued, and after a shutdown nothing is left.\<close>

theorem executor_accounts:
  assumes "executor_reachable workers limit s"
  shows "length (de_queued s) \<le> limit \<and> des_queueDepth (de_stats s) = length (de_queued s) \<and>
    des_activeTasks (de_stats s) = length (de_active s) \<and>
    des_acceptedTasks (de_stats s) =
      des_completedTasks (de_stats s) + of_nat (length (de_active s) + length (de_queued s)) \<and>
    (de_joined s \<longrightarrow> \<not> de_acceptingTasks s \<and> de_queued s = [] \<and> de_active s = [] \<and>
       des_acceptedTasks (de_stats s) = des_completedTasks (de_stats s))"
  using executor_reachable_inv [OF assms] executor_limit [OF assms] by (auto simp: executor_inv_def)

theorem executor_accounts_witness:
  "\<exists>s :: nat DatabaseExecutor. executor_reachable 1 1 s \<and> length (de_queued s) = 1 \<and> des_queueDepth (de_stats s) = 1"
proof -
  obtain s :: "nat DatabaseExecutor" where m: "make_DatabaseExecutor 1 1 = Inr s" by (simp add: make_DatabaseExecutor_def)
  let ?s = "snd (TryPost 0 True (Some 42) s)"
  have "executor_reachable 1 1 ?s"
    by (rule executor_reachable.step [OF executor_reachable.init [OF m] executor_step.post])
  moreover have "length (de_queued ?s) = 1"
    using m by (auto simp: make_DatabaseExecutor_def TryPost_def upd_de_def Let_def)
  ultimately show ?thesis using executor_accounts [of 1 1 ?s] by auto
qed

end
