(* ===== verification/Net_Session.thy ===== *)
theory Net_Session
  imports Receive_Buffer
begin

text \<open>
  The connection of one client (\<open>src/src/TcpSession.cpp\<close>, \<open>src/src/AuthTlsSession.cpp\<close>,
  \<open>src/include/SessionDeadline.h\<close>, \<open>src/include/NetworkSessionOptions.h\<close>).

  The two session classes share their members and most of their code; they differ in what closing does,
  in what happens to a response and in the TLS handshake. \<open>NetSession\<close> holds the shared members, the
  shared operations take the closing as an argument, and the two classes extend the record.

  Everything runs on the strand of the session, one completion handler after another. Asynchronous
  operations that have been started and not completed are counted (\<open>ns_reads\<close>, \<open>ns_writes\<close>), and so is what
  has gone through the session: the bytes received, the packets handed to the dispatcher, the responses
  taken over and the responses written. The dispatcher is an argument: it either throws, or a response is
  posted to the strand later. A timer's wait handlers are kept with the generation they captured; any of
  them may be called, also one whose timer was cancelled or set anew. Logging is left out.
\<close>

record NetworkSessionOptions =
  no_handshakeTimeout :: int
  no_authenticationTimeout :: int
  no_readTimeout :: int
  no_writeTimeout :: int
  no_maxPendingWriteMessages :: nat
  no_maxPendingWriteBytes :: nat

definition session_options_IsValid :: "NetworkSessionOptions \<Rightarrow> bool" where
  "session_options_IsValid opts \<longleftrightarrow>
     0 < no_handshakeTimeout opts \<and> 0 < no_authenticationTimeout opts \<and> 0 < no_readTimeout opts \<and>
     0 < no_writeTimeout opts \<and> 0 < no_maxPendingWriteMessages opts \<and> 0 < no_maxPendingWriteBytes opts"

section \<open>Deadlines\<close>

record SessionDeadline =
  dl_generation :: u64
  dl_waits :: "u64 list"

definition dl_init :: SessionDeadline where "dl_init = \<lparr>dl_generation = 0, dl_waits = []\<rparr>"

definition dl_Start :: "SessionDeadline \<Rightarrow> SessionDeadline" where
  "dl_Start t = (let generation = dl_generation t + 1 in \<lparr>dl_generation = generation, dl_waits = dl_waits t @ [generation]\<rparr>)"

definition dl_Cancel :: "SessionDeadline \<Rightarrow> SessionDeadline" where
  "dl_Cancel t = t\<lparr>dl_generation := dl_generation t + 1\<rparr>"

text \<open>The \<open>n\<close>-th wait completes: whether the timeout handler is called, and the timer without this wait.\<close>

definition dl_complete :: "nat \<Rightarrow> bool \<Rightarrow> SessionDeadline \<Rightarrow> bool \<times> SessionDeadline" where
  "dl_complete n error t =
     (\<not> error \<and> dl_waits t ! n = dl_generation t,
      t\<lparr>dl_waits := take n (dl_waits t) @ drop (Suc n) (dl_waits t)\<rparr>)"

text \<open>The timer is running: a wait of the current generation is pending.\<close>

definition dl_armed :: "SessionDeadline \<Rightarrow> bool" where
  "dl_armed t \<longleftrightarrow> dl_generation t \<in> set (dl_waits t)"

lemma dl_armed_Start [simp]: "dl_armed (dl_Start t)"
  by (simp add: dl_armed_def dl_Start_def Let_def)

lemma dl_armed_complete:
  assumes "dl_armed t" "n < length (dl_waits t)" "\<not> fst (dl_complete n error t)" "dl_waits t ! n = dl_generation t \<longrightarrow> \<not> error"
  shows "dl_armed (snd (dl_complete n error t))"
proof -
  have other: "dl_waits t ! n \<noteq> dl_generation t" using assms(3,4) by (auto simp: dl_complete_def)
  have "dl_waits t = take n (dl_waits t) @ dl_waits t ! n # drop (Suc n) (dl_waits t)"
    using assms(2) by (simp add: id_take_nth_drop)
  then have "set (dl_waits t) = insert (dl_waits t ! n) (set (take n (dl_waits t) @ drop (Suc n) (dl_waits t)))"
    by (metis Un_insert_right list.simps(15) set_append)
  with assms(1) other show ?thesis by (auto simp: dl_armed_def dl_complete_def)
qed

section \<open>The shared part of a session\<close>

record NetSession =
  ns_options :: NetworkSessionOptions
  ns_authenticationDeadline :: SessionDeadline
  ns_readDeadline :: SessionDeadline
  ns_writeDeadline :: SessionDeadline
  ns_receiveBuffer :: ReceiveBuffer
  ns_writeQueue :: "u8 list list"
  ns_pendingWriteBytes :: nat
  ns_requestInProgress :: bool
  ns_closed :: bool
  ns_started :: bool
  ns_reads :: nat
  ns_writes :: nat
  ns_received :: "u8 list"
  ns_dispatched :: "Packet list"
  ns_responses :: "u8 list list"
  ns_sent :: "u8 list list"

definition RECEIVE_SIZE :: nat where "RECEIVE_SIZE = 4096"

definition StartAuthenticationTimeout :: "'a NetSession_scheme \<Rightarrow> 'a NetSession_scheme" where
  "StartAuthenticationTimeout s = s\<lparr>ns_authenticationDeadline := dl_Start (ns_authenticationDeadline s)\<rparr>"

definition StartReadTimeout :: "'a NetSession_scheme \<Rightarrow> 'a NetSession_scheme" where
  "StartReadTimeout s = s\<lparr>ns_readDeadline := dl_Start (ns_readDeadline s)\<rparr>"

definition StartWriteTimeout :: "'a NetSession_scheme \<Rightarrow> 'a NetSession_scheme" where
  "StartWriteTimeout s = s\<lparr>ns_writeDeadline := dl_Start (ns_writeDeadline s)\<rparr>"

definition StartRead :: "'a NetSession_scheme \<Rightarrow> 'a NetSession_scheme" where
  "StartRead s = (if ns_closed s then s else let s = StartReadTimeout s in s\<lparr>ns_reads := ns_reads s + 1\<rparr>)"

definition StartWrite :: "'a NetSession_scheme \<Rightarrow> 'a NetSession_scheme" where
  "StartWrite s = (let s = StartWriteTimeout s in s\<lparr>ns_writes := ns_writes s + 1\<rparr>)"

definition QueueWrite ::
    "('a NetSession_scheme \<Rightarrow> 'a NetSession_scheme) \<Rightarrow> u8 list \<Rightarrow> 'a NetSession_scheme \<Rightarrow> bool \<times> 'a NetSession_scheme" where
  "QueueWrite close data s =
     (let opts = ns_options s;
          messageLimitReached = no_maxPendingWriteMessages opts \<le> length (ns_writeQueue s);
          byteLimitReached = no_maxPendingWriteBytes opts < length data \<or>
            no_maxPendingWriteBytes opts - length data < ns_pendingWriteBytes s
      in if messageLimitReached \<or> byteLimitReached then (False, close s)
         else
           let writeInProgress = ns_writeQueue s \<noteq> [];
               s = s\<lparr>ns_pendingWriteBytes := ns_pendingWriteBytes s + length data,
                     ns_writeQueue := ns_writeQueue s @ [data], ns_responses := ns_responses s @ [data]\<rparr>
           in (True, if \<not> writeInProgress then StartWrite s else s))"

text \<open>\<open>throws\<close> tells for which packets the dispatcher throws.\<close>

definition DispatchNextPacket ::
    "('a NetSession_scheme \<Rightarrow> 'a NetSession_scheme) \<Rightarrow> (Packet \<Rightarrow> bool) \<Rightarrow> 'a NetSession_scheme \<Rightarrow> 'a NetSession_scheme" where
  "DispatchNextPacket close throws s =
     (if ns_closed s \<or> ns_requestInProgress s then s
      else case rb_TryPop (ns_receiveBuffer s) of
             Inl e \<Rightarrow> close (s\<lparr>ns_requestInProgress := False\<rparr>)
           | Inr (None, b) \<Rightarrow> StartRead (s\<lparr>ns_receiveBuffer := b\<rparr>)
           | Inr (Some packet, b) \<Rightarrow>
               let s = s\<lparr>ns_receiveBuffer := b, ns_requestInProgress := True, ns_dispatched := ns_dispatched s @ [packet]\<rparr>
               in if throws packet then close (s\<lparr>ns_requestInProgress := False\<rparr>) else s)"

definition HandleRead ::
    "('a NetSession_scheme \<Rightarrow> 'a NetSession_scheme) \<Rightarrow> (Packet \<Rightarrow> bool) \<Rightarrow> u8 list \<Rightarrow> 'a NetSession_scheme \<Rightarrow>
     'a NetSession_scheme" where
  "HandleRead close throws bytes s =
     DispatchNextPacket close throws
       (s\<lparr>ns_receiveBuffer := rb_Append bytes (ns_receiveBuffer s), ns_received := ns_received s @ bytes\<rparr>)"

text \<open>The completion handlers of a read (\<open>None\<close> for an error) and of a write.\<close>

definition read_done ::
    "('a NetSession_scheme \<Rightarrow> 'a NetSession_scheme) \<Rightarrow> (Packet \<Rightarrow> bool) \<Rightarrow> u8 list option \<Rightarrow> 'a NetSession_scheme \<Rightarrow>
     'a NetSession_scheme" where
  "read_done close throws result s =
     (let s = s\<lparr>ns_reads := ns_reads s - 1, ns_readDeadline := dl_Cancel (ns_readDeadline s)\<rparr>
      in case result of None \<Rightarrow> close s | Some bytes \<Rightarrow> HandleRead close throws bytes s)"

definition write_done ::
    "('a NetSession_scheme \<Rightarrow> 'a NetSession_scheme) \<Rightarrow> bool \<Rightarrow> 'a NetSession_scheme \<Rightarrow> 'a NetSession_scheme" where
  "write_done close error s =
     (let s = s\<lparr>ns_writes := ns_writes s - 1, ns_writeDeadline := dl_Cancel (ns_writeDeadline s)\<rparr>
      in if error then close s
         else
           let front = hd (ns_writeQueue s);
               s = s\<lparr>ns_pendingWriteBytes := ns_pendingWriteBytes s - length front,
                     ns_writeQueue := tl (ns_writeQueue s), ns_sent := ns_sent s @ [front]\<rparr>
           in if ns_writeQueue s \<noteq> [] then StartWrite s else s)"

section \<open>The session of the game server\<close>

datatype session_call = RegisterCall | RemoveCall

record TcpSession = NetSession +
  tcs_authenticationRegistered :: bool
  tcs_calls :: "session_call list"

definition make_TcpSession :: "NetworkSessionOptions \<Rightarrow> TcpSession option" where
  "make_TcpSession opts =
     (if \<not> session_options_IsValid opts then None
      else Some \<lparr>ns_options = opts, ns_authenticationDeadline = dl_init, ns_readDeadline = dl_init,
        ns_writeDeadline = dl_init, ns_receiveBuffer = rb_init, ns_writeQueue = [], ns_pendingWriteBytes = 0,
        ns_requestInProgress = False, ns_closed = False, ns_started = False, ns_reads = 0, ns_writes = 0,
        ns_received = [], ns_dispatched = [], ns_responses = [], ns_sent = [],
        tcs_authenticationRegistered = False, tcs_calls = []\<rparr>)"

definition CloseOnStrand :: "TcpSession \<Rightarrow> TcpSession" where
  "CloseOnStrand s =
     (if ns_closed s then s
      else s\<lparr>ns_closed := True, ns_authenticationDeadline := dl_Cancel (ns_authenticationDeadline s),
             ns_readDeadline := dl_Cancel (ns_readDeadline s), ns_writeDeadline := dl_Cancel (ns_writeDeadline s),
             tcs_calls := tcs_calls s @ [RemoveCall]\<rparr>)"

text \<open>The lambda of \<open>Start\<close>; the lambda of \<open>Stop\<close> is \<open>CloseOnStrand\<close>.\<close>

definition tcp_Start :: "TcpSession \<Rightarrow> TcpSession" where
  "tcp_Start s =
     (let s = s\<lparr>ns_started := True\<rparr> in
      if ns_closed s then s else StartRead (StartAuthenticationTimeout s))"

text \<open>\<open>authenticated\<close>: the dispatcher has an identity; \<open>registered\<close>: what \<open>RegisterAuthenticatedPlayer\<close> returns if it is called.\<close>

definition tcp_HandleResponse ::
    "(Packet \<Rightarrow> bool) \<Rightarrow> bool \<Rightarrow> bool \<Rightarrow> u8 list \<Rightarrow> TcpSession \<Rightarrow> TcpSession" where
  "tcp_HandleResponse throws authenticated registered response s =
     (if ns_closed s then s
      else
        let s = s\<lparr>ns_requestInProgress := False\<rparr>;
            s = (if authenticated then s\<lparr>ns_authenticationDeadline := dl_Cancel (ns_authenticationDeadline s)\<rparr> else s);
            register = authenticated \<and> \<not> tcs_authenticationRegistered s;
            s = (if register then s\<lparr>tcs_calls := tcs_calls s @ [RegisterCall]\<rparr> else s)
        in if register \<and> \<not> registered then CloseOnStrand s
           else
             let s = (if register then s\<lparr>tcs_authenticationRegistered := True\<rparr> else s);
                 (queued, s) = QueueWrite CloseOnStrand response s
             in if \<not> queued then s else DispatchNextPacket CloseOnStrand throws s)"

section \<open>The session of the authentication server\<close>

record AuthTlsSession = NetSession +
  ats_handshakeDeadline :: SessionDeadline
  ats_handshakes :: nat
  ats_authenticated :: bool

definition make_AuthTlsSession :: "NetworkSessionOptions \<Rightarrow> AuthTlsSession option" where
  "make_AuthTlsSession opts =
     (if \<not> session_options_IsValid opts then None
      else Some \<lparr>ns_options = opts, ns_authenticationDeadline = dl_init, ns_readDeadline = dl_init,
        ns_writeDeadline = dl_init, ns_receiveBuffer = rb_init, ns_writeQueue = [], ns_pendingWriteBytes = 0,
        ns_requestInProgress = False, ns_closed = False, ns_started = False, ns_reads = 0, ns_writes = 0,
        ns_received = [], ns_dispatched = [], ns_responses = [], ns_sent = [],
        ats_handshakeDeadline = dl_init, ats_handshakes = 0, ats_authenticated = False\<rparr>)"

definition auth_Close :: "AuthTlsSession \<Rightarrow> AuthTlsSession" where
  "auth_Close s =
     (if ns_closed s then s
      else s\<lparr>ns_closed := True, ats_handshakeDeadline := dl_Cancel (ats_handshakeDeadline s),
             ns_authenticationDeadline := dl_Cancel (ns_authenticationDeadline s),
             ns_readDeadline := dl_Cancel (ns_readDeadline s), ns_writeDeadline := dl_Cancel (ns_writeDeadline s)\<rparr>)"

text \<open>The members that this class has in common with the other one, under the names of this class.\<close>

abbreviation auth_StartRead :: "AuthTlsSession \<Rightarrow> AuthTlsSession" where "auth_StartRead \<equiv> StartRead"
abbreviation auth_StartWrite :: "AuthTlsSession \<Rightarrow> AuthTlsSession" where "auth_StartWrite \<equiv> StartWrite"
abbreviation auth_QueueWrite :: "u8 list \<Rightarrow> AuthTlsSession \<Rightarrow> bool \<times> AuthTlsSession" where
  "auth_QueueWrite \<equiv> QueueWrite auth_Close"
abbreviation auth_DispatchNextPacket :: "(Packet \<Rightarrow> bool) \<Rightarrow> AuthTlsSession \<Rightarrow> AuthTlsSession" where
  "auth_DispatchNextPacket \<equiv> DispatchNextPacket auth_Close"
abbreviation auth_HandleRead :: "(Packet \<Rightarrow> bool) \<Rightarrow> u8 list \<Rightarrow> AuthTlsSession \<Rightarrow> AuthTlsSession" where
  "auth_HandleRead \<equiv> HandleRead auth_Close"
abbreviation auth_read_done :: "(Packet \<Rightarrow> bool) \<Rightarrow> u8 list option \<Rightarrow> AuthTlsSession \<Rightarrow> AuthTlsSession" where
  "auth_read_done \<equiv> read_done auth_Close"
abbreviation auth_write_done :: "bool \<Rightarrow> AuthTlsSession \<Rightarrow> AuthTlsSession" where
  "auth_write_done \<equiv> write_done auth_Close"
abbreviation auth_StartAuthenticationTimeout :: "AuthTlsSession \<Rightarrow> AuthTlsSession" where
  "auth_StartAuthenticationTimeout \<equiv> StartAuthenticationTimeout"
abbreviation auth_StartReadTimeout :: "AuthTlsSession \<Rightarrow> AuthTlsSession" where "auth_StartReadTimeout \<equiv> StartReadTimeout"
abbreviation auth_StartWriteTimeout :: "AuthTlsSession \<Rightarrow> AuthTlsSession" where "auth_StartWriteTimeout \<equiv> StartWriteTimeout"

definition StartHandshakeTimeout :: "AuthTlsSession \<Rightarrow> AuthTlsSession" where
  "StartHandshakeTimeout s = s\<lparr>ats_handshakeDeadline := dl_Start (ats_handshakeDeadline s)\<rparr>"

definition StartHandshake :: "AuthTlsSession \<Rightarrow> AuthTlsSession" where
  "StartHandshake s = (let s = StartHandshakeTimeout s in s\<lparr>ats_handshakes := ats_handshakes s + 1\<rparr>)"

text \<open>The completion handler of the handshake. From here on the session reads, which is what \<open>ns_started\<close> records.\<close>

definition handshake_done :: "bool \<Rightarrow> AuthTlsSession \<Rightarrow> AuthTlsSession" where
  "handshake_done error s =
     (let s = s\<lparr>ats_handshakes := ats_handshakes s - 1, ats_handshakeDeadline := dl_Cancel (ats_handshakeDeadline s)\<rparr>
      in if error then auth_Close s
         else auth_StartRead (auth_StartAuthenticationTimeout (s\<lparr>ns_started := True\<rparr>)))"

text \<open>\<open>authenticated\<close>: the dispatcher has an authenticated account.\<close>

definition auth_HandleResponse :: "(Packet \<Rightarrow> bool) \<Rightarrow> bool \<Rightarrow> u8 list \<Rightarrow> AuthTlsSession \<Rightarrow> AuthTlsSession" where
  "auth_HandleResponse throws authenticated response s =
     (if ns_closed s then s
      else
        let s = s\<lparr>ns_requestInProgress := False\<rparr>;
            s = (if authenticated
                 then s\<lparr>ns_authenticationDeadline := dl_Cancel (ns_authenticationDeadline s), ats_authenticated := True\<rparr>
                 else s);
            (queued, s) = auth_QueueWrite response s
        in if \<not> queued then s else auth_DispatchNextPacket throws s)"

section \<open>Timer completions\<close>

text \<open>The \<open>n\<close>-th pending wait of a timer of the session completes; a timeout closes the session.\<close>

definition authentication_wait_done ::
    "('a NetSession_scheme \<Rightarrow> 'a NetSession_scheme) \<Rightarrow> nat \<Rightarrow> bool \<Rightarrow> 'a NetSession_scheme \<Rightarrow> 'a NetSession_scheme" where
  "authentication_wait_done close n error s =
     (let (timeout, t) = dl_complete n error (ns_authenticationDeadline s);
          s = s\<lparr>ns_authenticationDeadline := t\<rparr>
      in if timeout then close s else s)"

definition read_wait_done ::
    "('a NetSession_scheme \<Rightarrow> 'a NetSession_scheme) \<Rightarrow> nat \<Rightarrow> bool \<Rightarrow> 'a NetSession_scheme \<Rightarrow> 'a NetSession_scheme" where
  "read_wait_done close n error s =
     (let (timeout, t) = dl_complete n error (ns_readDeadline s);
          s = s\<lparr>ns_readDeadline := t\<rparr>
      in if timeout then close s else s)"

definition write_wait_done ::
    "('a NetSession_scheme \<Rightarrow> 'a NetSession_scheme) \<Rightarrow> nat \<Rightarrow> bool \<Rightarrow> 'a NetSession_scheme \<Rightarrow> 'a NetSession_scheme" where
  "write_wait_done close n error s =
     (let (timeout, t) = dl_complete n error (ns_writeDeadline s);
          s = s\<lparr>ns_writeDeadline := t\<rparr>
      in if timeout then close s else s)"

text \<open>
  Which completions a timer can have: a pending wait; the wait of the current generation is not aborted,
  because a timer aborts its waits only when it is cancelled or set anew, which changes the generation.
\<close>

definition wait_completes :: "nat \<Rightarrow> bool \<Rightarrow> SessionDeadline \<Rightarrow> bool" where
  "wait_completes n error t \<longleftrightarrow>
     n < length (dl_waits t) \<and> (dl_waits t ! n = dl_generation t \<longrightarrow> \<not> error)"

lemma dl_armed_wait:
  "dl_armed t \<Longrightarrow> wait_completes n error t \<Longrightarrow> \<not> fst (dl_complete n error t) \<Longrightarrow> dl_armed (snd (dl_complete n error t))"
  by (rule dl_armed_complete) (auto simp: wait_completes_def)

text \<open>An armed timer can expire.\<close>

lemma dl_armed_expires:
  assumes "dl_armed t"
  shows "\<exists>n. wait_completes n False t \<and> fst (dl_complete n False t)"
  using assms by (auto simp: dl_armed_def in_set_conv_nth wait_completes_def dl_complete_def)

section \<open>What every session keeps\<close>

text \<open>\<open>ps\<close> are the first packets of the stream \<open>bs\<close>, and \<open>cs\<close> is what follows them.\<close>

fun pops :: "Packet list \<Rightarrow> u8 list \<Rightarrow> u8 list \<Rightarrow> bool" where
  "pops [] bs cs \<longleftrightarrow> bs = cs"
| "pops (p # ps) bs cs \<longleftrightarrow>
     (case stream_pop bs of Inr (Some q, ds) \<Rightarrow> q = p \<and> pops ps ds cs | _ \<Rightarrow> False)"

lemma pops_Cons: "pops (p # ps) bs cs \<longleftrightarrow> (\<exists>ds. stream_pop bs = Inr (Some p, ds) \<and> pops ps ds cs)"
  by (auto split: sum.splits prod.splits option.splits)

declare pops.simps(2) [simp del] pops_Cons [simp]

lemma pops_append_bytes: "pops ps bs cs \<Longrightarrow> pops ps (bs @ ds) (cs @ ds)"
  by (induction ps arbitrary: bs) (auto dest: stream_pop_append)

lemma pops_snoc: "pops ps bs cs \<Longrightarrow> stream_pop cs = Inr (Some p, ds) \<Longrightarrow> pops (ps @ [p]) bs ds"
  by (induction ps arbitrary: bs) auto

text \<open>The stream determines the packets: one of two sequences popped from it continues the other.\<close>

lemma pops_drain: "pops ps bs cs \<Longrightarrow> stream_drain cs = Inr (qs, ds) \<Longrightarrow> stream_drain bs = Inr (ps @ qs, ds)"
proof (induction ps arbitrary: bs)
  case (Cons p ps)
  then obtain es where "stream_pop bs = Inr (Some p, es)" "pops ps es cs"
    by auto
  with Cons show ?case by (simp add: stream_drain.simps [of bs])
qed simp

text \<open>An incomplete packet is shorter than the largest packet.\<close>

lemma stream_pop_None_short:
  assumes "stream_pop bs = Inr (None, cs)"
  shows "length bs < MAX_PACKET_SIZE"
proof (cases "length bs < PACKET_HEADER_SIZE")
  case True
  then show ?thesis by (simp add: PACKET_HEADER_SIZE_def MAX_PACKET_SIZE_def)
next
  case False
  with assms obtain h where "DecodeHeader (take PACKET_HEADER_SIZE bs) = Inr h" "length bs < unat (packetSize h)"
    by (auto simp: stream_pop_def split: if_splits sum.splits)
  then show ?thesis using DecodeHeader_size by fastforce
qed

definition input_inv :: "'a NetSession_scheme \<Rightarrow> bool" where
  "input_inv s \<longleftrightarrow>
     rb_ok (ns_receiveBuffer s) \<and>
     pops (ns_dispatched s) (ns_received s) (rb_stream (ns_receiveBuffer s)) \<and>
     rb_Size (ns_receiveBuffer s) < MAX_PACKET_SIZE + RECEIVE_SIZE"

definition output_inv :: "'a NetSession_scheme \<Rightarrow> bool" where
  "output_inv s \<longleftrightarrow>
     ns_sent s @ ns_writeQueue s = ns_responses s \<and>
     ns_pendingWriteBytes s = sum_list (map length (ns_writeQueue s)) \<and>
     ns_pendingWriteBytes s \<le> no_maxPendingWriteBytes (ns_options s) \<and>
     length (ns_writeQueue s) \<le> no_maxPendingWriteMessages (ns_options s) \<and>
     ns_writes s \<le> 1 \<and> (ns_writes s = 1 \<longrightarrow> ns_writeQueue s \<noteq> []) \<and>
     (\<not> ns_closed s \<and> ns_writeQueue s \<noteq> [] \<longrightarrow> ns_writes s = 1 \<and> dl_armed (ns_writeDeadline s))"

definition flow_inv :: "'a NetSession_scheme \<Rightarrow> bool" where
  "flow_inv s \<longleftrightarrow>
     ns_reads s \<le> 1 \<and>
     (ns_reads s = 1 \<longrightarrow> rb_Size (ns_receiveBuffer s) < MAX_PACKET_SIZE) \<and>
     (\<not> ns_started s \<longrightarrow> ns_reads s = 0 \<and> \<not> ns_requestInProgress s \<and> ns_received s = [] \<and>
        rb_Size (ns_receiveBuffer s) = 0) \<and>
     length (ns_responses s) \<le> length (ns_dispatched s) \<and>
     (\<not> ns_closed s \<longrightarrow>
        length (ns_dispatched s) = length (ns_responses s) + (if ns_requestInProgress s then 1 else 0) \<and>
        (ns_started s \<longrightarrow> ns_reads s = (if ns_requestInProgress s then 0 else 1)) \<and>
        (ns_reads s = 1 \<longrightarrow> dl_armed (ns_readDeadline s)))"

text \<open>Between two requests: nothing is being read and nothing is being handled.\<close>

definition between_requests :: "'a NetSession_scheme \<Rightarrow> bool" where
  "between_requests s \<longleftrightarrow>
     ns_started s \<and> ns_reads s = 0 \<and> length (ns_responses s) \<le> length (ns_dispatched s) \<and>
     (\<not> ns_closed s \<longrightarrow> \<not> ns_requestInProgress s \<and> length (ns_dispatched s) = length (ns_responses s))"

definition net_inv :: "'a NetSession_scheme \<Rightarrow> bool" where
  "net_inv s \<longleftrightarrow> input_inv s \<and> output_inv s \<and> flow_inv s"

lemmas net_inv_defs = net_inv_def input_inv_def output_inv_def flow_inv_def

text \<open>The contract of closing, and that under it every shared operation keeps the invariant.\<close>

locale session_close =
  fixes close :: "'a NetSession_scheme \<Rightarrow> 'a NetSession_scheme"
  assumes close_closed [simp]: "ns_closed (close s)"
    and close_keeps [simp]: "ns_options (close s) = ns_options s" "ns_receiveBuffer (close s) = ns_receiveBuffer s"
      "ns_writeQueue (close s) = ns_writeQueue s" "ns_pendingWriteBytes (close s) = ns_pendingWriteBytes s"
      "ns_requestInProgress (close s) = ns_requestInProgress s" "ns_started (close s) = ns_started s"
      "ns_reads (close s) = ns_reads s" "ns_writes (close s) = ns_writes s" "ns_received (close s) = ns_received s"
      "ns_dispatched (close s) = ns_dispatched s" "ns_responses (close s) = ns_responses s" "ns_sent (close s) = ns_sent s"
begin

lemma close_input: "input_inv (close s) = input_inv s"
  by (simp add: input_inv_def)

lemma close_output: "output_inv s \<Longrightarrow> output_inv (close s)"
  by (simp add: output_inv_def)

lemma close_flow: "flow_inv s \<Longrightarrow> flow_inv (close s)"
  by (simp add: flow_inv_def)

lemma close_inv: "net_inv s \<Longrightarrow> net_inv (close s)"
  by (simp add: net_inv_def close_input close_output close_flow)

lemma StartRead_inv:
  assumes "input_inv s" "output_inv s" "between_requests s" "rb_Size (ns_receiveBuffer s) < MAX_PACKET_SIZE"
  shows "net_inv (StartRead s)"
  using assms by (auto simp: net_inv_defs between_requests_def StartRead_def StartReadTimeout_def Let_def)

lemma QueueWrite_inv:
  assumes "output_inv s" "\<not> ns_closed s"
  shows "output_inv (snd (QueueWrite close data s))"
  using assms by (auto simp: output_inv_def QueueWrite_def StartWrite_def StartWriteTimeout_def Let_def)

lemma QueueWrite_fields:
  "ns_receiveBuffer (snd (QueueWrite close data s)) = ns_receiveBuffer s"
  "ns_received (snd (QueueWrite close data s)) = ns_received s"
  "ns_dispatched (snd (QueueWrite close data s)) = ns_dispatched s"
  "ns_reads (snd (QueueWrite close data s)) = ns_reads s"
  "ns_started (snd (QueueWrite close data s)) = ns_started s"
  "ns_requestInProgress (snd (QueueWrite close data s)) = ns_requestInProgress s"
  "ns_responses (snd (QueueWrite close data s)) = ns_responses s @ (if fst (QueueWrite close data s) then [data] else [])"
  "ns_closed (snd (QueueWrite close data s)) = (ns_closed s \<or> \<not> fst (QueueWrite close data s))"
  by (auto simp: QueueWrite_def StartWrite_def StartWriteTimeout_def Let_def)

lemma DispatchNextPacket_inv:
  assumes "input_inv s" "output_inv s" "between_requests s"
  shows "net_inv (DispatchNextPacket close throws s)"
proof (cases "ns_closed s \<or> ns_requestInProgress s")
  case True
  with assms show ?thesis
    by (auto simp: net_inv_defs between_requests_def DispatchNextPacket_def)
next
  case False
  have ok: "rb_ok (ns_receiveBuffer s)" using assms(1) by (simp add: input_inv_def)
  show ?thesis
  proof (cases "rb_TryPop (ns_receiveBuffer s)")
    case (Inl e)
    with False assms show ?thesis by (auto simp: net_inv_defs between_requests_def DispatchNextPacket_def)
  next
    case (Inr res)
    obtain r b where res: "res = (r, b)" by (cases res)
    with Inr ok have pop: "stream_pop (rb_stream (ns_receiveBuffer s)) = Inr (r, rb_stream b)" "rb_ok b"
      using receive_buffer.pop_result by auto
    show ?thesis
    proof (cases r)
      case None
      with Inr res have b: "b = ns_receiveBuffer s" by (auto simp: rb_TryPop_def Let_def split: if_splits sum.splits)
      have "rb_Size (ns_receiveBuffer s) < MAX_PACKET_SIZE"
        using pop(1) None stream_pop_None_short by (fastforce simp: rb_Size_def rb_stream_def)
      with StartRead_inv [OF assms] False Inr res None b show ?thesis by (simp add: DispatchNextPacket_def)
    next
      case (Some p)
      have "rb_Size b < rb_Size (ns_receiveBuffer s)" using rb_TryPop_shorter Inr res Some by blast
      moreover have "pops (ns_dispatched s @ [p]) (ns_received s) (rb_stream b)"
        using assms(1) pop(1) Some by (auto simp: input_inv_def intro: pops_snoc)
      ultimately show ?thesis using False Inr res Some pop(2) assms
        by (auto simp: net_inv_defs between_requests_def DispatchNextPacket_def Let_def)
    qed
  qed
qed

lemma read_done_inv:
  assumes "net_inv s" "0 < ns_reads s" "\<forall>bytes. result = Some bytes \<longrightarrow> length bytes \<le> RECEIVE_SIZE"
  shows "net_inv (read_done close throws result s)"
proof (cases result)
  case None
  with assms show ?thesis by (auto simp: net_inv_defs read_done_def Let_def)
next
  case (Some bytes)
  let ?s = "s\<lparr>ns_reads := ns_reads s - 1, ns_readDeadline := dl_Cancel (ns_readDeadline s),
    ns_receiveBuffer := rb_Append bytes (ns_receiveBuffer s), ns_received := ns_received s @ bytes\<rparr>"
  have ok: "rb_ok (ns_receiveBuffer s)" using assms(1) by (simp add: net_inv_defs)
  have len: "rb_Size c = length (rb_stream c)" for c by (simp add: rb_Size_def rb_stream_def)
  have "rb_Size (rb_Append bytes (ns_receiveBuffer s)) < MAX_PACKET_SIZE + RECEIVE_SIZE"
    using assms Some by (auto simp: len rb_Append_stream ok net_inv_defs)
  then have "input_inv ?s" using assms(1)
    by (simp add: net_inv_defs rb_Append_ok rb_Append_stream pops_append_bytes)
  moreover have "output_inv ?s" "between_requests ?s"
    using assms(1,2) by (auto simp: net_inv_defs between_requests_def split: if_splits)
  ultimately show ?thesis
    using DispatchNextPacket_inv Some by (simp add: read_done_def HandleRead_def Let_def)
qed

lemma write_done_inv:
  assumes "net_inv s" "0 < ns_writes s"
  shows "net_inv (write_done close error s)"
proof -
  obtain d ds where "ns_writeQueue s = d # ds" using assms by (cases "ns_writeQueue s") (auto simp: net_inv_defs)
  with assms show ?thesis
    by (auto simp: net_inv_defs write_done_def StartWrite_def StartWriteTimeout_def Let_def)
qed

lemma wait_done_inv:
  assumes "net_inv s"
  shows "net_inv (authentication_wait_done close n error s)"
    and "wait_completes n error (ns_readDeadline s) \<Longrightarrow> net_inv (read_wait_done close n error s)"
    and "wait_completes n error (ns_writeDeadline s) \<Longrightarrow> net_inv (write_wait_done close n error s)"
  using assms
  by (auto simp: net_inv_defs authentication_wait_done_def read_wait_done_def write_wait_done_def Let_def
      split_def intro: dl_armed_wait)

text \<open>What the timers of a session amount to: a waiting session can be closed by a timeout.\<close>

lemma waiting_closes:
  assumes "net_inv s" "\<not> ns_closed s"
  shows "ns_reads s = 1 \<Longrightarrow> \<exists>n. wait_completes n False (ns_readDeadline s) \<and> ns_closed (read_wait_done close n False s)"
    and "ns_writes s = 1 \<Longrightarrow> \<exists>n. wait_completes n False (ns_writeDeadline s) \<and> ns_closed (write_wait_done close n False s)"
proof -
  show "\<exists>n. wait_completes n False (ns_readDeadline s) \<and> ns_closed (read_wait_done close n False s)"
    if "ns_reads s = 1"
    using assms that dl_armed_expires [of "ns_readDeadline s"]
    by (auto simp: net_inv_defs read_wait_done_def Let_def split_def)
  show "\<exists>n. wait_completes n False (ns_writeDeadline s) \<and> ns_closed (write_wait_done close n False s)"
    if "ns_writes s = 1"
    using assms that dl_armed_expires [of "ns_writeDeadline s"]
    by (auto simp: net_inv_defs write_wait_done_def Let_def split_def)
qed

lemma authentication_closes:
  "dl_armed (ns_authenticationDeadline s) \<Longrightarrow>
   \<exists>n. wait_completes n False (ns_authenticationDeadline s) \<and> ns_closed (authentication_wait_done close n False s)"
  using dl_armed_expires [of "ns_authenticationDeadline s"]
  by (auto simp: authentication_wait_done_def Let_def split_def)

end

interpretation tcp_close: session_close CloseOnStrand
  by unfold_locales (auto simp: CloseOnStrand_def)

interpretation auth_close: session_close auth_Close
  by unfold_locales (auto simp: auth_Close_def)

section \<open>The life of a game server session\<close>

inductive tcp_step :: "TcpSession \<Rightarrow> TcpSession \<Rightarrow> bool" where
  tcp_start: "\<not> ns_started s \<Longrightarrow> tcp_step s (tcp_Start s)"
| tcp_stop: "tcp_step s (CloseOnStrand s)"
| tcp_read: "0 < ns_reads s \<Longrightarrow> \<forall>bytes. result = Some bytes \<longrightarrow> length bytes \<le> RECEIVE_SIZE \<Longrightarrow>
    tcp_step s (read_done CloseOnStrand throws result s)"
| tcp_write: "0 < ns_writes s \<Longrightarrow> tcp_step s (write_done CloseOnStrand error s)"
| tcp_response: "ns_requestInProgress s \<Longrightarrow>
    tcp_step s (tcp_HandleResponse throws authenticated registered response s)"
| tcp_authentication_wait: "wait_completes n error (ns_authenticationDeadline s) \<Longrightarrow>
    tcp_step s (authentication_wait_done CloseOnStrand n error s)"
| tcp_read_wait: "wait_completes n error (ns_readDeadline s) \<Longrightarrow>
    tcp_step s (read_wait_done CloseOnStrand n error s)"
| tcp_write_wait: "wait_completes n error (ns_writeDeadline s) \<Longrightarrow>
    tcp_step s (write_wait_done CloseOnStrand n error s)"

inductive tcp_reachable :: "NetworkSessionOptions \<Rightarrow> TcpSession \<Rightarrow> bool" for opts where
  tcp_made: "make_TcpSession opts = Some s \<Longrightarrow> tcp_reachable opts s"
| tcp_next: "tcp_reachable opts s \<Longrightarrow> tcp_step s s' \<Longrightarrow> tcp_reachable opts s'"

text \<open>The session leaves the session manager exactly when it closes, and registers its player before that.\<close>

definition tcp_inv :: "TcpSession \<Rightarrow> bool" where
  "tcp_inv s \<longleftrightarrow>
     net_inv s \<and>
     filter (\<lambda>c. c = RemoveCall) (tcs_calls s) = (if ns_closed s then [RemoveCall] else []) \<and>
     (ns_closed s \<longrightarrow> last (tcs_calls s) = RemoveCall) \<and>
     length (filter (\<lambda>c. c = RegisterCall) (tcs_calls s)) \<le> 1 \<and>
     (\<not> ns_closed s \<longrightarrow> tcs_authenticationRegistered s = (RegisterCall \<in> set (tcs_calls s))) \<and>
     (\<not> ns_closed s \<and> ns_started s \<and> \<not> tcs_authenticationRegistered s \<longrightarrow> dl_armed (ns_authenticationDeadline s))"

lemma make_TcpSession_inv: "make_TcpSession opts = Some s \<Longrightarrow> tcp_inv s"
  by (auto simp: make_TcpSession_def tcp_inv_def net_inv_defs rb_init_def rb_ok_def rb_stream_def rb_Size_def
      MAX_PACKET_SIZE_def split: if_splits)

text \<open>The operations shared with the other session class do not touch what \<open>tcp_inv\<close> adds, closing apart.\<close>

definition tcp_rest :: "TcpSession \<Rightarrow> bool \<times> session_call list \<times> bool \<times> SessionDeadline" where
  "tcp_rest s = (tcs_authenticationRegistered s, tcs_calls s, ns_started s, ns_authenticationDeadline s)"

definition rest_or_closed :: "TcpSession \<Rightarrow> TcpSession \<Rightarrow> bool" where
  "rest_or_closed s s' \<longleftrightarrow>
     (if ns_closed s' = ns_closed s then tcp_rest s' = tcp_rest s else tcp_rest s' = tcp_rest (CloseOnStrand s) \<and> ns_closed s')"

lemma rest_or_closed_trans: "rest_or_closed s s' \<Longrightarrow> rest_or_closed s' s'' \<Longrightarrow> rest_or_closed s s''"
  by (auto simp: rest_or_closed_def tcp_rest_def CloseOnStrand_def split: if_splits)

lemma tcp_inv_rest:
  assumes "tcp_inv s" "net_inv s'" "rest_or_closed s s'"
  shows "tcp_inv s'"
  using assms by (cases "ns_closed s'") (auto simp: tcp_inv_def rest_or_closed_def tcp_rest_def CloseOnStrand_def split: if_splits)

lemma rest_or_closed_close: "tcp_rest t = tcp_rest s \<Longrightarrow> ns_closed t = ns_closed s \<Longrightarrow> rest_or_closed s (CloseOnStrand t)"
  by (auto simp: rest_or_closed_def tcp_rest_def CloseOnStrand_def)

lemma rest_DispatchNextPacket: "rest_or_closed s (DispatchNextPacket CloseOnStrand throws s)"
  by (auto simp: DispatchNextPacket_def StartRead_def StartReadTimeout_def Let_def rest_or_closed_def tcp_rest_def
      CloseOnStrand_def split: sum.splits option.splits)

lemma rest_QueueWrite: "rest_or_closed s (snd (QueueWrite CloseOnStrand data s))"
  by (auto simp: QueueWrite_def StartWrite_def StartWriteTimeout_def Let_def rest_or_closed_def tcp_rest_def CloseOnStrand_def)

lemma rest_read_done: "rest_or_closed s (read_done CloseOnStrand throws result s)"
proof (cases result)
  case None
  then show ?thesis by (auto simp: read_done_def Let_def tcp_rest_def intro!: rest_or_closed_close)
next
  case (Some bytes)
  let ?s = "s\<lparr>ns_reads := ns_reads s - 1, ns_readDeadline := dl_Cancel (ns_readDeadline s),
    ns_receiveBuffer := rb_Append bytes (ns_receiveBuffer s), ns_received := ns_received s @ bytes\<rparr>"
  have "rest_or_closed s ?s" by (simp add: rest_or_closed_def tcp_rest_def)
  with rest_DispatchNextPacket [of ?s throws] rest_or_closed_trans Some show ?thesis
    by (simp add: read_done_def HandleRead_def Let_def)
qed

lemma rest_write_done: "rest_or_closed s (write_done CloseOnStrand error s)"
  by (auto simp: write_done_def StartWrite_def StartWriteTimeout_def Let_def rest_or_closed_def tcp_rest_def CloseOnStrand_def)

lemma rest_wait_done:
  "rest_or_closed s (read_wait_done CloseOnStrand n error s)"
  "rest_or_closed s (write_wait_done CloseOnStrand n error s)"
  by (auto simp: read_wait_done_def write_wait_done_def Let_def split_def rest_or_closed_def tcp_rest_def CloseOnStrand_def)

lemma tcp_Start_inv:
  assumes "tcp_inv s" "\<not> ns_started s"
  shows "tcp_inv (tcp_Start s)"
proof (cases "ns_closed s")
  case True
  with assms show ?thesis by (auto simp: tcp_Start_def tcp_inv_def net_inv_defs Let_def)
next
  case False
  let ?s = "StartAuthenticationTimeout (s\<lparr>ns_started := True\<rparr>)"
  have "input_inv ?s" "output_inv ?s" "between_requests ?s" "rb_Size (ns_receiveBuffer ?s) < MAX_PACKET_SIZE"
    using assms False
    by (auto simp: tcp_inv_def net_inv_defs between_requests_def StartAuthenticationTimeout_def MAX_PACKET_SIZE_def)
  then have "net_inv (StartRead ?s)" by (rule tcp_close.StartRead_inv)
  with assms False show ?thesis
    by (simp add: tcp_Start_def tcp_inv_def StartAuthenticationTimeout_def StartRead_def StartReadTimeout_def Let_def)
qed

text \<open>\<open>HandleResponse\<close> up to the point where the response is queued.\<close>

lemma respond_net:
  fixes s :: "'a NetSession_scheme"
  assumes "session_close close" "input_inv s" "output_inv s" "\<not> ns_closed s" "ns_started s" "ns_reads s = 0"
    and "\<not> ns_requestInProgress s" "length (ns_dispatched s) = Suc (length (ns_responses s))"
  shows "fst (QueueWrite close data s) \<Longrightarrow> net_inv (DispatchNextPacket close throws (snd (QueueWrite close data s)))"
    and "\<not> fst (QueueWrite close data s) \<Longrightarrow> net_inv (snd (QueueWrite close data s))"
proof -
  note fields = session_close.QueueWrite_fields [OF assms(1), of data s]
  let ?t = "snd (QueueWrite close data s)"
  have out: "output_inv ?t" using session_close.QueueWrite_inv [OF assms(1,3,4)] .
  have inp: "input_inv ?t" using assms(2) by (simp add: input_inv_def fields)
  show "net_inv (DispatchNextPacket close throws ?t)" if "fst (QueueWrite close data s)"
  proof -
    have "between_requests ?t" using assms that by (simp add: between_requests_def fields)
    with inp out show ?thesis by (intro session_close.DispatchNextPacket_inv [OF assms(1)])
  qed
  show "net_inv ?t" if "\<not> fst (QueueWrite close data s)"
    using inp out assms that by (simp add: net_inv_def flow_inv_def fields)
qed

lemma tcp_HandleResponse_inv:
  assumes "tcp_inv s" "ns_requestInProgress s"
  shows "tcp_inv (tcp_HandleResponse throws authenticated registered response s)"
proof (cases "ns_closed s")
  case True
  with assms show ?thesis by (simp add: tcp_HandleResponse_def)
next
  case False
  define register where "register \<longleftrightarrow> authenticated \<and> \<not> tcs_authenticationRegistered s"
  define s0 where "s0 = s\<lparr>ns_requestInProgress := False\<rparr>"
  define s1 where "s1 = (if authenticated then s0\<lparr>ns_authenticationDeadline := dl_Cancel (ns_authenticationDeadline s0)\<rparr> else s0)"
  define t where "t = (if register then s1\<lparr>tcs_calls := tcs_calls s1 @ [RegisterCall]\<rparr> else s1)"
  define u where "u = (if register then t\<lparr>tcs_authenticationRegistered := True\<rparr> else t)"
  note defs = s0_def s1_def t_def u_def
  have resp: "tcp_HandleResponse throws authenticated registered response s =
    (if register \<and> \<not> registered then CloseOnStrand t
     else if fst (QueueWrite CloseOnStrand response u)
     then DispatchNextPacket CloseOnStrand throws (snd (QueueWrite CloseOnStrand response u))
     else snd (QueueWrite CloseOnStrand response u))"
    using False by (auto simp: tcp_HandleResponse_def Let_def split_def register_def defs)
  have base: "input_inv u" "output_inv u" "\<not> ns_closed u" "ns_started u" "ns_reads u = 0" "\<not> ns_requestInProgress u"
    "length (ns_dispatched u) = Suc (length (ns_responses u))"
    using assms False by (auto simp: tcp_inv_def net_inv_defs defs split: if_splits)
  have rest: "filter (\<lambda>c. c = RemoveCall) (tcs_calls u) = []" "length (filter (\<lambda>c. c = RegisterCall) (tcs_calls u)) \<le> 1"
    "tcs_authenticationRegistered u = (RegisterCall \<in> set (tcs_calls u))"
    "\<not> tcs_authenticationRegistered u \<longrightarrow> dl_armed (ns_authenticationDeadline u)"
    using assms False base(4) by (auto simp: tcp_inv_def defs register_def filter_empty_conv)
  have ext: "tcp_inv v" if "net_inv v" "rest_or_closed u v" for v
    using that rest base(3,4) by (cases "ns_closed v")
      (auto simp: tcp_inv_def rest_or_closed_def tcp_rest_def CloseOnStrand_def split: if_splits)
  show ?thesis
  proof (cases "register \<and> \<not> registered")
    case True
    have "net_inv (CloseOnStrand t)" using base by (simp add: net_inv_defs u_def split: if_splits)
    then have "tcp_inv (CloseOnStrand t)" using rest base(3) by (auto simp: tcp_inv_def CloseOnStrand_def u_def split: if_splits)
    then show ?thesis unfolding resp using True by simp
  next
    case False
    note net = respond_net [OF tcp_close.session_close_axioms base, of response]
    note trans = rest_or_closed_trans [OF rest_QueueWrite [of u response] rest_DispatchNextPacket [of _ throws]]
    show ?thesis using False ext net(1) [of throws] net(2) trans rest_QueueWrite [of u response] by (auto simp: resp)
  qed
qed

lemma tcp_step_inv:
  assumes "tcp_step s s'" "tcp_inv s"
  shows "tcp_inv s'"
proof -
  have net: "net_inv s" using assms(2) by (simp add: tcp_inv_def)
  show ?thesis using assms(1)
  proof cases
    case tcp_start
    then show ?thesis using tcp_Start_inv assms(2) by simp
  next
    case tcp_stop
    then show ?thesis using tcp_inv_rest [OF assms(2) tcp_close.close_inv [OF net] rest_or_closed_close] by simp
  next
    case (tcp_read result throws)
    then show ?thesis using tcp_inv_rest [OF assms(2) tcp_close.read_done_inv [OF net] rest_read_done] by simp
  next
    case (tcp_write error)
    then show ?thesis using tcp_inv_rest [OF assms(2) tcp_close.write_done_inv [OF net] rest_write_done] by simp
  next
    case (tcp_response throws authenticated registered response)
    then show ?thesis using tcp_HandleResponse_inv assms(2) by simp
  next
    case (tcp_authentication_wait n error)
    with assms(2) tcp_close.wait_done_inv(1) [OF net, of n error] show ?thesis
      by (auto simp: tcp_inv_def authentication_wait_done_def CloseOnStrand_def Let_def split_def intro: dl_armed_wait)
  next
    case (tcp_read_wait n error)
    then show ?thesis using tcp_inv_rest [OF assms(2) tcp_close.wait_done_inv(2) [OF net] rest_wait_done(1)] by simp
  next
    case (tcp_write_wait n error)
    then show ?thesis using tcp_inv_rest [OF assms(2) tcp_close.wait_done_inv(3) [OF net] rest_wait_done(2)] by simp
  qed
qed

lemma tcp_reachable_inv: "tcp_reachable opts s \<Longrightarrow> tcp_inv s"
  by (induction rule: tcp_reachable.induct) (auto intro: make_TcpSession_inv tcp_step_inv)

lemma shared_options [simp]:
  "ns_options (StartRead s) = ns_options s"
  "ns_options (StartWrite s) = ns_options s"
  by (auto simp: StartRead_def StartReadTimeout_def StartWrite_def StartWriteTimeout_def Let_def)

context session_close
begin

lemma keeps_options [simp]:
  "ns_options (DispatchNextPacket close throws s) = ns_options s"
  "ns_options (snd (QueueWrite close data s)) = ns_options s"
  "ns_options (read_done close throws result s) = ns_options s"
  "ns_options (write_done close error s) = ns_options s"
  "ns_options (authentication_wait_done close n error s) = ns_options s"
  "ns_options (read_wait_done close n error s) = ns_options s"
  "ns_options (write_wait_done close n error s) = ns_options s"
  by (auto simp: DispatchNextPacket_def QueueWrite_def read_done_def HandleRead_def write_done_def
      authentication_wait_done_def read_wait_done_def write_wait_done_def Let_def split_def
      split: sum.splits option.splits)

end

lemma tcp_step_options: "tcp_step s s' \<Longrightarrow> ns_options s' = ns_options s"
  by (induction rule: tcp_step.induct)
    (auto simp: tcp_Start_def StartAuthenticationTimeout_def tcp_HandleResponse_def Let_def split_def)

lemma tcp_reachable_options: "tcp_reachable opts s \<Longrightarrow> ns_options s = opts"
  by (induction rule: tcp_reachable.induct)
    (auto simp: make_TcpSession_def tcp_step_options split: if_splits)

section \<open>The life of an authentication server session\<close>

text \<open>A wait of the handshake timer completes.\<close>

definition handshake_wait_done :: "nat \<Rightarrow> bool \<Rightarrow> AuthTlsSession \<Rightarrow> AuthTlsSession" where
  "handshake_wait_done n error s =
     (let (timeout, t) = dl_complete n error (ats_handshakeDeadline s);
          s = s\<lparr>ats_handshakeDeadline := t\<rparr>
      in if timeout then auth_Close s else s)"

text \<open>\<open>Start\<close> is called once, on a session that has just been made.\<close>

inductive auth_step :: "AuthTlsSession \<Rightarrow> AuthTlsSession \<Rightarrow> bool" where
  auth_start: "\<not> ns_started s \<Longrightarrow> ats_handshakes s = 0 \<Longrightarrow> \<not> ns_closed s \<Longrightarrow> auth_step s (StartHandshake s)"
| auth_handshake: "0 < ats_handshakes s \<Longrightarrow> auth_step s (handshake_done error s)"
| auth_read: "0 < ns_reads s \<Longrightarrow> \<forall>bytes. result = Some bytes \<longrightarrow> length bytes \<le> RECEIVE_SIZE \<Longrightarrow>
    auth_step s (auth_read_done throws result s)"
| auth_write: "0 < ns_writes s \<Longrightarrow> auth_step s (auth_write_done error s)"
| auth_response: "ns_requestInProgress s \<Longrightarrow>
    auth_step s (auth_HandleResponse throws authenticated response s)"
| auth_handshake_wait: "wait_completes n error (ats_handshakeDeadline s) \<Longrightarrow>
    auth_step s (handshake_wait_done n error s)"
| auth_authentication_wait: "wait_completes n error (ns_authenticationDeadline s) \<Longrightarrow>
    auth_step s (authentication_wait_done auth_Close n error s)"
| auth_read_wait: "wait_completes n error (ns_readDeadline s) \<Longrightarrow>
    auth_step s (read_wait_done auth_Close n error s)"
| auth_write_wait: "wait_completes n error (ns_writeDeadline s) \<Longrightarrow>
    auth_step s (write_wait_done auth_Close n error s)"

inductive auth_reachable :: "NetworkSessionOptions \<Rightarrow> AuthTlsSession \<Rightarrow> bool" for opts where
  auth_made: "make_AuthTlsSession opts = Some s \<Longrightarrow> auth_reachable opts s"
| auth_next: "auth_reachable opts s \<Longrightarrow> auth_step s s' \<Longrightarrow> auth_reachable opts s'"

definition auth_rest :: "AuthTlsSession \<Rightarrow> bool" where
  "auth_rest s \<longleftrightarrow>
     ats_handshakes s \<le> 1 \<and> (ats_handshakes s = 1 \<longrightarrow> \<not> ns_started s) \<and>
     (\<not> ns_closed s \<and> ats_handshakes s = 1 \<longrightarrow> dl_armed (ats_handshakeDeadline s)) \<and>
     (\<not> ns_closed s \<and> ns_started s \<and> \<not> ats_authenticated s \<longrightarrow> dl_armed (ns_authenticationDeadline s))"

definition ats_inv :: "AuthTlsSession \<Rightarrow> bool" where
  "ats_inv s \<longleftrightarrow> net_inv s \<and> auth_rest s"

lemma make_AuthTlsSession_inv: "make_AuthTlsSession opts = Some s \<Longrightarrow> ats_inv s"
  by (auto simp: make_AuthTlsSession_def ats_inv_def auth_rest_def net_inv_defs rb_init_def rb_ok_def rb_stream_def
      rb_Size_def MAX_PACKET_SIZE_def split: if_splits)

lemma auth_rest_updates [simp]:
  "auth_rest (s\<lparr>ns_reads := n\<rparr>) = auth_rest s" "auth_rest (s\<lparr>ns_writes := n\<rparr>) = auth_rest s"
  "auth_rest (s\<lparr>ns_readDeadline := d\<rparr>) = auth_rest s" "auth_rest (s\<lparr>ns_writeDeadline := d\<rparr>) = auth_rest s"
  "auth_rest (s\<lparr>ns_receiveBuffer := b\<rparr>) = auth_rest s" "auth_rest (s\<lparr>ns_received := bs\<rparr>) = auth_rest s"
  "auth_rest (s\<lparr>ns_writeQueue := q\<rparr>) = auth_rest s" "auth_rest (s\<lparr>ns_pendingWriteBytes := n\<rparr>) = auth_rest s"
  "auth_rest (s\<lparr>ns_sent := q\<rparr>) = auth_rest s" "auth_rest (s\<lparr>ns_responses := q\<rparr>) = auth_rest s"
  "auth_rest (s\<lparr>ns_dispatched := ps\<rparr>) = auth_rest s" "auth_rest (s\<lparr>ns_requestInProgress := x\<rparr>) = auth_rest s"
  by (simp_all add: auth_rest_def)

lemma auth_rest_close: "auth_rest s \<Longrightarrow> auth_rest (auth_Close s)"
  by (auto simp: auth_rest_def auth_Close_def)

lemma auth_rest_shared:
  assumes "auth_rest s"
  shows "auth_rest (StartRead s)" "auth_rest (StartWrite s)"
    "auth_rest (DispatchNextPacket auth_Close throws s)" "auth_rest (snd (QueueWrite auth_Close data s))"
  using assms
  by (auto simp: StartRead_def StartReadTimeout_def StartWrite_def StartWriteTimeout_def DispatchNextPacket_def
      QueueWrite_def auth_rest_close Let_def split: sum.splits option.splits)

lemma auth_rest_done:
  assumes "auth_rest s"
  shows "auth_rest (read_done auth_Close throws result s)" "auth_rest (write_done auth_Close error s)"
    "auth_rest (read_wait_done auth_Close n error s)" "auth_rest (write_wait_done auth_Close n error s)"
  using assms
  by (auto simp: read_done_def HandleRead_def write_done_def read_wait_done_def write_wait_done_def Let_def split_def
      auth_rest_close auth_rest_shared split: option.splits)

lemma auth_rest_authentication_wait:
  "auth_rest s \<Longrightarrow> wait_completes n error (ns_authenticationDeadline s) \<Longrightarrow>
   auth_rest (authentication_wait_done auth_Close n error s)"
  by (auto simp: authentication_wait_done_def auth_rest_def auth_Close_def Let_def split_def intro: dl_armed_wait)

lemma auth_rest_handshake_wait:
  "auth_rest s \<Longrightarrow> wait_completes n error (ats_handshakeDeadline s) \<Longrightarrow> auth_rest (handshake_wait_done n error s)"
  by (auto simp: handshake_wait_done_def auth_rest_def auth_Close_def Let_def split_def intro: dl_armed_wait)

lemma handshake_done_inv:
  assumes "ats_inv s" "0 < ats_handshakes s"
  shows "ats_inv (handshake_done error s)"
proof (cases error)
  case True
  let ?t = "s\<lparr>ats_handshakes := ats_handshakes s - 1, ats_handshakeDeadline := dl_Cancel (ats_handshakeDeadline s)\<rparr>"
  have "net_inv ?t" using assms(1) by (simp add: ats_inv_def net_inv_defs)
  moreover have "auth_rest ?t" using assms by (auto simp: ats_inv_def auth_rest_def)
  ultimately have "ats_inv (auth_Close ?t)" by (simp add: ats_inv_def auth_close.close_inv auth_rest_close)
  with True show ?thesis by (simp add: handshake_done_def Let_def)
next
  case False
  let ?t = "s\<lparr>ats_handshakes := ats_handshakes s - 1, ats_handshakeDeadline := dl_Cancel (ats_handshakeDeadline s)\<rparr>"
  let ?s = "StartAuthenticationTimeout (?t\<lparr>ns_started := True\<rparr>)"
  have "\<not> ns_started s" "net_inv s" "auth_rest s" using assms by (auto simp: ats_inv_def auth_rest_def)
  then have pre: "input_inv ?s" "output_inv ?s" "between_requests ?s" "rb_Size (ns_receiveBuffer ?s) < MAX_PACKET_SIZE" "auth_rest ?s"
    by (auto simp: auth_rest_def net_inv_defs between_requests_def StartAuthenticationTimeout_def MAX_PACKET_SIZE_def)
  then have "ats_inv (StartRead ?s)"
    using auth_close.StartRead_inv [OF pre(1-4)] auth_rest_shared(1) [OF pre(5)] by (simp add: ats_inv_def)
  with False show ?thesis by (simp add: handshake_done_def Let_def)
qed

lemma auth_HandleResponse_inv:
  assumes "ats_inv s" "ns_requestInProgress s"
  shows "ats_inv (auth_HandleResponse throws authenticated response s)"
proof (cases "ns_closed s")
  case True
  with assms show ?thesis by (simp add: auth_HandleResponse_def)
next
  case False
  define t where "t = s\<lparr>ns_requestInProgress := False\<rparr>"
  define u where "u = (if authenticated
    then t\<lparr>ns_authenticationDeadline := dl_Cancel (ns_authenticationDeadline t), ats_authenticated := True\<rparr> else t)"
  have resp: "auth_HandleResponse throws authenticated response s =
    (if fst (QueueWrite auth_Close response u)
     then DispatchNextPacket auth_Close throws (snd (QueueWrite auth_Close response u))
     else snd (QueueWrite auth_Close response u))"
    using False by (simp add: auth_HandleResponse_def Let_def split_def t_def u_def)
  have base: "input_inv u" "output_inv u" "\<not> ns_closed u" "ns_started u" "ns_reads u = 0" "\<not> ns_requestInProgress u"
    "length (ns_dispatched u) = Suc (length (ns_responses u))"
    using assms False by (auto simp: ats_inv_def net_inv_defs t_def u_def split: if_splits)
  have rest: "auth_rest u" using assms by (auto simp: ats_inv_def auth_rest_def t_def u_def)
  note net = respond_net [OF auth_close.session_close_axioms base, of response]
  show ?thesis
    using net(1) [of throws] net(2) auth_rest_shared(4) [OF rest] auth_rest_shared(3) [OF auth_rest_shared(4) [OF rest]]
    by (auto simp: resp ats_inv_def)
qed

lemma handshake_wait_done_net: "net_inv s \<Longrightarrow> net_inv (handshake_wait_done n error s)"
  by (auto simp: handshake_wait_done_def net_inv_defs Let_def split_def)

lemma auth_step_inv:
  assumes "auth_step s s'" "ats_inv s"
  shows "ats_inv s'"
proof -
  have inv: "net_inv s" "auth_rest s" using assms(2) by (auto simp: ats_inv_def)
  note rest = auth_rest_done [OF inv(2)] auth_rest_authentication_wait [OF inv(2)] auth_rest_handshake_wait [OF inv(2)]
  note net = auth_close.read_done_inv [OF inv(1)] auth_close.write_done_inv [OF inv(1)] auth_close.wait_done_inv [OF inv(1)]
    handshake_wait_done_net [OF inv(1)]
  show ?thesis using assms(1)
  proof cases
    case auth_start
    with inv show ?thesis
      by (auto simp: StartHandshake_def StartHandshakeTimeout_def ats_inv_def auth_rest_def net_inv_defs Let_def)
  next
    case (auth_handshake error)
    with assms(2) show ?thesis by (simp add: handshake_done_inv)
  next
    case (auth_response throws authenticated response)
    with assms(2) show ?thesis by (simp add: auth_HandleResponse_inv)
  qed (auto simp: ats_inv_def rest net)
qed

lemma auth_reachable_inv: "auth_reachable opts s \<Longrightarrow> ats_inv s"
  by (induction rule: auth_reachable.induct) (auto intro: make_AuthTlsSession_inv auth_step_inv)

lemma auth_step_options: "auth_step s s' \<Longrightarrow> ns_options s' = ns_options s"
  by (induction rule: auth_step.induct)
    (auto simp: StartHandshake_def StartHandshakeTimeout_def handshake_done_def handshake_wait_done_def
      StartAuthenticationTimeout_def auth_HandleResponse_def Let_def split_def)

lemma auth_reachable_options: "auth_reachable opts s \<Longrightarrow> ns_options s = opts"
  by (induction rule: auth_reachable.induct)
    (auto simp: make_AuthTlsSession_def auth_step_options split: if_splits)

end
