(* ===== verification/Session_Properties.thy ===== *)
theory Session_Properties
  imports Net_Session
begin

text \<open>
  What a connection guarantees whatever the network, the timers and the dispatcher do, for both session
  classes, with a sample connection on which the statements are applied.
\<close>

section \<open>A sample connection\<close>

definition sample_connection_options :: NetworkSessionOptions where
  "sample_connection_options = \<lparr>no_handshakeTimeout = 5000, no_authenticationTimeout = 10000, no_readTimeout = 30000,
     no_writeTimeout = 10000, no_maxPendingWriteMessages = 2, no_maxPendingWriteBytes = 16\<rparr>"

text \<open>A packet with two payload bytes, as it is sent.\<close>

definition sample_request :: "u8 list" where
  "sample_request = [0, 10, 0, 1, 0, 0, 0, 7, 3, 4]"

definition sample_connection_made :: TcpSession where
  "sample_connection_made = the (make_TcpSession sample_connection_options)"

text \<open>Two requests arrive in two reads that split the second request; both are answered, one response is written.\<close>

definition sample_connection_read1 :: TcpSession where
  "sample_connection_read1 =
     read_done CloseOnStrand (\<lambda>p. False) (Some (sample_request @ take 5 sample_request)) (tcp_Start sample_connection_made)"

definition sample_connection_answered :: TcpSession where
  "sample_connection_answered = tcp_HandleResponse (\<lambda>p. False) False False [1, 2, 3] sample_connection_read1"

definition sample_connection_read2 :: TcpSession where
  "sample_connection_read2 = read_done CloseOnStrand (\<lambda>p. False) (Some (drop 5 sample_request)) sample_connection_answered"

definition sample_connection :: TcpSession where
  "sample_connection = tcp_HandleResponse (\<lambda>p. False) True True [5, 6] sample_connection_read2"

definition sample_connection_end :: TcpSession where
  "sample_connection_end = CloseOnStrand (write_done CloseOnStrand False sample_connection)"

text \<open>The two states in which a request is being handled, evaluated.\<close>

lemma sample_connection_read1_eval [code]:
  "sample_connection_read1 =
     \<lparr>ns_options = sample_connection_options, ns_authenticationDeadline = \<lparr>dl_generation = 1, dl_waits = [1]\<rparr>,
      ns_readDeadline = \<lparr>dl_generation = 2, dl_waits = [1]\<rparr>, ns_writeDeadline = \<lparr>dl_generation = 0, dl_waits = []\<rparr>,
      ns_receiveBuffer = \<lparr>rb_buffer = [0, 10, 0, 1, 0, 0, 0, 7, 3, 4, 0, 10, 0, 1, 0], rb_readOffset = 10\<rparr>,
      ns_writeQueue = [], ns_pendingWriteBytes = 0, ns_requestInProgress = True, ns_closed = False, ns_started = True,
      ns_reads = 0, ns_writes = 0, ns_received = [0, 10, 0, 1, 0, 0, 0, 7, 3, 4, 0, 10, 0, 1, 0],
      ns_dispatched = [\<lparr>header = \<lparr>packetSize = 10, headerType = 1, requestId = 7\<rparr>, payload = [3, 4]\<rparr>],
      ns_responses = [], ns_sent = [], tcs_authenticationRegistered = False, tcs_calls = []\<rparr>"
  by code_simp

lemma sample_connection_read2_eval [code]:
  "sample_connection_read2 =
     \<lparr>ns_options = sample_connection_options, ns_authenticationDeadline = \<lparr>dl_generation = 1, dl_waits = [1]\<rparr>,
      ns_readDeadline = \<lparr>dl_generation = 4, dl_waits = [1, 3]\<rparr>, ns_writeDeadline = \<lparr>dl_generation = 1, dl_waits = [1]\<rparr>,
      ns_receiveBuffer = \<lparr>rb_buffer = [], rb_readOffset = 0\<rparr>,
      ns_writeQueue = [[1, 2, 3]], ns_pendingWriteBytes = 3, ns_requestInProgress = True, ns_closed = False,
      ns_started = True, ns_reads = 0, ns_writes = 1,
      ns_received = [0, 10, 0, 1, 0, 0, 0, 7, 3, 4, 0, 10, 0, 1, 0, 0, 0, 7, 3, 4],
      ns_dispatched = [\<lparr>header = \<lparr>packetSize = 10, headerType = 1, requestId = 7\<rparr>, payload = [3, 4]\<rparr>,
        \<lparr>header = \<lparr>packetSize = 10, headerType = 1, requestId = 7\<rparr>, payload = [3, 4]\<rparr>],
      ns_responses = [[1, 2, 3]], ns_sent = [], tcs_authenticationRegistered = False, tcs_calls = []\<rparr>"
  by code_simp

lemma sample_connection_made_reachable: "tcp_reachable sample_connection_options sample_connection_made"
proof (rule tcp_made)
  show "make_TcpSession sample_connection_options = Some sample_connection_made" by code_simp
qed

lemma sample_connection_answered_reachable: "tcp_reachable sample_connection_options sample_connection_answered"
proof -
  have "\<not> ns_started sample_connection_made" by code_simp
  then have 1: "tcp_reachable sample_connection_options (tcp_Start sample_connection_made)"
    by (rule tcp_next [OF sample_connection_made_reachable tcp_start])
  have "0 < ns_reads (tcp_Start sample_connection_made)" by code_simp
  moreover have "length (sample_request @ take 5 sample_request) \<le> RECEIVE_SIZE" by code_simp
  ultimately have 2: "tcp_reachable sample_connection_options sample_connection_read1"
    unfolding sample_connection_read1_def by (intro tcp_next [OF 1 tcp_read]) auto
  have "ns_requestInProgress sample_connection_read1" by code_simp
  then show ?thesis unfolding sample_connection_answered_def by (rule tcp_next [OF 2 tcp_response])
qed

lemma sample_connection_reachable: "tcp_reachable sample_connection_options sample_connection"
proof -
  have "0 < ns_reads sample_connection_answered" by code_simp
  moreover have "length (drop 5 sample_request) \<le> RECEIVE_SIZE" by code_simp
  ultimately have 1: "tcp_reachable sample_connection_options sample_connection_read2"
    unfolding sample_connection_read2_def by (intro tcp_next [OF sample_connection_answered_reachable tcp_read]) auto
  have "ns_requestInProgress sample_connection_read2" by code_simp
  then show ?thesis unfolding sample_connection_def by (rule tcp_next [OF 1 tcp_response])
qed

lemma sample_connection_end_reachable: "tcp_reachable sample_connection_options sample_connection_end"
proof -
  have "0 < ns_writes sample_connection" by code_simp
  then have "tcp_reachable sample_connection_options (write_done CloseOnStrand False sample_connection)"
    by (rule tcp_next [OF sample_connection_reachable tcp_write])
  then show ?thesis unfolding sample_connection_end_def by (rule tcp_next [OF _ tcp_stop])
qed

section \<open>Order and bounds\<close>

text \<open>C9. The packets handed to the dispatcher are the packets of the received byte stream in order; the
  responses are written in the order in which they were given, each once, with never more than one write
  and one read under way; at most one request is being handled and no response overtakes its request; the
  queues stay within the options and the unread input within one packet and one read.\<close>

theorem session_serial_and_bounded:
  assumes "tcp_reachable opts s"
  shows "pops (ns_dispatched s) (ns_received s) (rb_stream (ns_receiveBuffer s)) \<and>
    ns_sent s @ ns_writeQueue s = ns_responses s \<and>
    ns_reads s \<le> 1 \<and> ns_writes s \<le> 1 \<and>
    (\<not> ns_closed s \<longrightarrow>
       length (ns_dispatched s) = length (ns_responses s) + (if ns_requestInProgress s then 1 else 0) \<and>
       (ns_started s \<longrightarrow> ns_reads s = (if ns_requestInProgress s then 0 else 1)) \<and>
       ns_writes s = (if ns_writeQueue s = [] then 0 else 1)) \<and>
    length (ns_writeQueue s) \<le> no_maxPendingWriteMessages opts \<and>
    sum_list (map length (ns_writeQueue s)) \<le> no_maxPendingWriteBytes opts \<and>
    length (rb_stream (ns_receiveBuffer s)) < MAX_PACKET_SIZE + RECEIVE_SIZE"
proof -
  have inv: "input_inv s" "output_inv s" "flow_inv s" and opts: "ns_options s = opts"
    using tcp_reachable_inv [OF assms] tcp_reachable_options [OF assms] by (auto simp: tcp_inv_def net_inv_def)
  have input: "pops (ns_dispatched s) (ns_received s) (rb_stream (ns_receiveBuffer s))"
    "length (rb_stream (ns_receiveBuffer s)) < MAX_PACKET_SIZE + RECEIVE_SIZE"
    using inv(1) by (simp_all add: input_inv_def rb_Size_def rb_stream_def)
  have written: "ns_sent s @ ns_writeQueue s = ns_responses s" "ns_writes s \<le> 1"
    "length (ns_writeQueue s) \<le> no_maxPendingWriteMessages opts"
    "sum_list (map length (ns_writeQueue s)) \<le> no_maxPendingWriteBytes opts"
    "\<not> ns_closed s \<Longrightarrow> ns_writes s = (if ns_writeQueue s = [] then 0 else 1)"
    using inv(2) opts by (auto simp: output_inv_def le_Suc_eq)
  have flow: "ns_reads s \<le> 1"
    "\<not> ns_closed s \<Longrightarrow> length (ns_dispatched s) = length (ns_responses s) + (if ns_requestInProgress s then 1 else 0)"
    "\<not> ns_closed s \<Longrightarrow> ns_started s \<Longrightarrow> ns_reads s = (if ns_requestInProgress s then 0 else 1)"
    using inv(3) by (simp_all only: flow_inv_def if_True if_False simp_thms)
  show ?thesis by (intro conjI impI input written flow)
qed

theorem session_serial_and_bounded_witness:
  "length (ns_dispatched sample_connection) = 2 \<and> ns_writeQueue sample_connection = [[1, 2, 3], [5, 6]] \<and>
   ns_sent sample_connection @ ns_writeQueue sample_connection = ns_responses sample_connection \<and> ns_writes sample_connection \<le> 1"
proof -
  have "length (ns_dispatched sample_connection) = 2" "ns_writeQueue sample_connection = [[1, 2, 3], [5, 6]]" by code_simp+
  with session_serial_and_bounded [OF sample_connection_reachable] show ?thesis by blast
qed

text \<open>C25. A session is taken out of the session manager exactly once, when it closes, and nothing is asked of
  the manager afterwards; its player is registered at most once, and an open session knows that it is.\<close>

theorem session_removed_exactly_once:
  assumes "tcp_reachable opts s"
  shows "filter (\<lambda>c. c = RemoveCall) (tcs_calls s) = (if ns_closed s then [RemoveCall] else []) \<and>
    (ns_closed s \<longrightarrow> last (tcs_calls s) = RemoveCall) \<and>
    length (filter (\<lambda>c. c = RegisterCall) (tcs_calls s)) \<le> 1 \<and>
    (\<not> ns_closed s \<longrightarrow> tcs_authenticationRegistered s = (RegisterCall \<in> set (tcs_calls s)))"
  using tcp_reachable_inv [OF assms] by (simp add: tcp_inv_def)

theorem session_removed_exactly_once_witness:
  "ns_closed sample_connection_end \<and> filter (\<lambda>c. c = RemoveCall) (tcs_calls sample_connection_end) = [RemoveCall] \<and>
   length (filter (\<lambda>c. c = RegisterCall) (tcs_calls sample_connection_end)) \<le> 1"
proof -
  have "ns_closed sample_connection_end" by code_simp
  with session_removed_exactly_once [OF sample_connection_end_reachable] show ?thesis by simp
qed

text \<open>C23. An open game server session never waits without a deadline: whenever it waits for the client, for a
  write to finish or for the login, a timer is running whose expiry closes it.\<close>

theorem waiting_session_times_out:
  assumes "tcp_reachable opts s" "ns_started s" "\<not> ns_closed s"
  shows "(\<not> ns_requestInProgress s \<longrightarrow>
            (\<exists>n. wait_completes n False (ns_readDeadline s) \<and> ns_closed (read_wait_done CloseOnStrand n False s))) \<and>
    (ns_writeQueue s \<noteq> [] \<longrightarrow>
            (\<exists>n. wait_completes n False (ns_writeDeadline s) \<and> ns_closed (write_wait_done CloseOnStrand n False s))) \<and>
    (\<not> tcs_authenticationRegistered s \<longrightarrow>
            (\<exists>n. wait_completes n False (ns_authenticationDeadline s) \<and>
                 ns_closed (authentication_wait_done CloseOnStrand n False s)))"
proof -
  have inv: "tcp_inv s" using assms(1) by (rule tcp_reachable_inv)
  then have net: "net_inv s" by (simp add: tcp_inv_def)
  have "\<not> ns_requestInProgress s \<longrightarrow> ns_reads s = 1" "ns_writeQueue s \<noteq> [] \<longrightarrow> ns_writes s = 1"
    using net assms by (auto simp: net_inv_def flow_inv_def output_inv_def)
  moreover have "\<not> tcs_authenticationRegistered s \<longrightarrow> dl_armed (ns_authenticationDeadline s)"
    using inv assms by (simp add: tcp_inv_def)
  ultimately show ?thesis
    using tcp_close.waiting_closes [OF net assms(3)] tcp_close.authentication_closes [of s] by blast
qed

theorem waiting_session_times_out_witness:
  "\<not> ns_requestInProgress sample_connection_answered \<and>
   (\<exists>n. wait_completes n False (ns_readDeadline sample_connection_answered) \<and>
        ns_closed (read_wait_done CloseOnStrand n False sample_connection_answered)) \<and>
   (\<exists>n. wait_completes n False (ns_authenticationDeadline sample_connection_answered) \<and>
        ns_closed (authentication_wait_done CloseOnStrand n False sample_connection_answered))"
proof -
  have "ns_started sample_connection_answered" "\<not> ns_closed sample_connection_answered"
    "\<not> ns_requestInProgress sample_connection_answered" "\<not> tcs_authenticationRegistered sample_connection_answered"
    by code_simp+
  with waiting_session_times_out [OF sample_connection_answered_reachable] show ?thesis by blast
qed

section \<open>The session of the authentication server\<close>

definition sample_auth_session_made :: AuthTlsSession where
  "sample_auth_session_made = the (make_AuthTlsSession sample_connection_options)"

definition sample_auth_session :: AuthTlsSession where
  "sample_auth_session = handshake_done False (StartHandshake sample_auth_session_made)"

lemma sample_auth_session_reachable: "auth_reachable sample_connection_options sample_auth_session"
proof -
  have "make_AuthTlsSession sample_connection_options = Some sample_auth_session_made" by code_simp
  then have 1: "auth_reachable sample_connection_options sample_auth_session_made" by (rule auth_made)
  have "\<not> ns_started sample_auth_session_made" "ats_handshakes sample_auth_session_made = 0"
    "\<not> ns_closed sample_auth_session_made" by code_simp+
  then have 2: "auth_reachable sample_connection_options (StartHandshake sample_auth_session_made)"
    by (rule auth_next [OF 1 auth_start])
  have "0 < ats_handshakes (StartHandshake sample_auth_session_made)" by code_simp
  then show ?thesis unfolding sample_auth_session_def by (rule auth_next [OF 2 auth_handshake])
qed

text \<open>C26. The session of the authentication server keeps the same order and bounds, never waits without a running
  deadline (for the handshake, for a request, for a write or for the login), and reads nothing before the
  handshake has succeeded.\<close>

theorem auth_session_safe:
  assumes "auth_reachable opts s"
  shows "pops (ns_dispatched s) (ns_received s) (rb_stream (ns_receiveBuffer s)) \<and>
    ns_sent s @ ns_writeQueue s = ns_responses s \<and>
    length (ns_writeQueue s) \<le> no_maxPendingWriteMessages opts \<and>
    sum_list (map length (ns_writeQueue s)) \<le> no_maxPendingWriteBytes opts \<and>
    (0 < ns_reads s + length (ns_received s) \<longrightarrow> ns_started s \<and> ats_handshakes s = 0) \<and>
    (\<not> ns_closed s \<longrightarrow>
       (0 < ats_handshakes s \<longrightarrow> dl_armed (ats_handshakeDeadline s)) \<and>
       (ns_started s \<and> \<not> ns_requestInProgress s \<longrightarrow> dl_armed (ns_readDeadline s)) \<and>
       (ns_writeQueue s \<noteq> [] \<longrightarrow> dl_armed (ns_writeDeadline s)) \<and>
       (ns_started s \<and> \<not> ats_authenticated s \<longrightarrow> dl_armed (ns_authenticationDeadline s)))"
proof -
  have inv: "net_inv s" "auth_rest s" using auth_reachable_inv [OF assms] by (auto simp: ats_inv_def)
  have "pops (ns_dispatched s) (ns_received s) (rb_stream (ns_receiveBuffer s))"
    "ns_sent s @ ns_writeQueue s = ns_responses s" "length (ns_writeQueue s) \<le> no_maxPendingWriteMessages opts"
    "sum_list (map length (ns_writeQueue s)) \<le> no_maxPendingWriteBytes opts"
    using inv(1) auth_reachable_options [OF assms] by (auto simp: net_inv_def input_inv_def output_inv_def)
  moreover have "0 < ns_reads s + length (ns_received s) \<longrightarrow> ns_started s \<and> ats_handshakes s = 0"
    using inv by (auto simp: net_inv_def flow_inv_def auth_rest_def le_Suc_eq)
  moreover have "\<not> ns_closed s \<longrightarrow> (ns_writeQueue s \<noteq> [] \<longrightarrow> dl_armed (ns_writeDeadline s)) \<and>
      (ns_started s \<and> \<not> ns_requestInProgress s \<longrightarrow> dl_armed (ns_readDeadline s))"
    using inv(1) by (auto simp: net_inv_def output_inv_def flow_inv_def)
  moreover have "\<not> ns_closed s \<longrightarrow> (0 < ats_handshakes s \<longrightarrow> dl_armed (ats_handshakeDeadline s)) \<and>
      (ns_started s \<and> \<not> ats_authenticated s \<longrightarrow> dl_armed (ns_authenticationDeadline s))"
    using inv(2) by (auto simp: auth_rest_def less_Suc_eq_le le_Suc_eq)
  ultimately show ?thesis by argo
qed

theorem auth_session_safe_witness:
  "ns_reads sample_auth_session = 1 \<and> ns_started sample_auth_session \<and> ats_handshakes sample_auth_session = 0 \<and>
   dl_armed (ns_readDeadline sample_auth_session) \<and> dl_armed (ns_authenticationDeadline sample_auth_session)"
proof -
  have "ns_reads sample_auth_session = 1" "\<not> ns_closed sample_auth_session" "ns_started sample_auth_session"
    "\<not> ns_requestInProgress sample_auth_session" "\<not> ats_authenticated sample_auth_session" by code_simp+
  with auth_session_safe [OF sample_auth_session_reachable] show ?thesis by auto
qed

end
