(* ===== verification/Ticket_Store.thy ===== *)
theory Ticket_Store
  imports Session_Auth Tcp_Protocol
begin

text \<open>
  The tickets by which the authentication server hands a player over to the game server
  (\<open>src/src/SqliteAuthTicketStore.cpp\<close>, \<open>src/src/SqliteAuthTicketVerifier.cpp\<close>, \<open>src/src/AuthTicketIssuer.cpp\<close>).

  The database engine is not part of the sources. The statements the store executes on the table
  \<open>auth_tickets\<close> are an argument, \<open>ticket_table\<close>: each may fail, a failure to prepare or to bind
  counting as a failure of the statement, and may change the database. The locale \<open>ticket_sql\<close> states what
  SQL says about them; it is interpreted on a table held as an association list. The connection mutex
  makes each call of the store one step.
\<close>

section \<open>The statements\<close>

datatype sql_step = SQLITE_DONE | SQLITE_ROW | SQLITE_CONSTRAINT | SQLITE_FAILED

text \<open>The columns \<open>account_id\<close>, \<open>player_id\<close> and \<open>expires_at_unix\<close>.\<close>

type_synonym ticket_row = "int \<times> int \<times> int"

record 'db ticket_table =
  tt_insert :: "string \<Rightarrow> ticket_row \<Rightarrow> 'db \<Rightarrow> sql_step \<times> 'db"
  tt_select :: "string \<Rightarrow> 'db \<Rightarrow> sql_step \<times> ticket_row"
  tt_delete :: "string \<Rightarrow> 'db \<Rightarrow> sql_step \<times> 'db"
  tt_begin :: "'db \<Rightarrow> bool \<times> 'db"
  tt_commit :: "'db \<Rightarrow> bool \<times> 'db"
  tt_rollback :: "'db \<Rightarrow> 'db"

section \<open>The store\<close>

datatype database_error = DatabaseError

text \<open>The casts between \<open>std::uint64_t\<close> and \<open>std::int64_t\<close>.\<close>

definition to_int64 :: "u64 \<Rightarrow> int" where "to_int64 w = sint w"
definition to_uint64 :: "int \<Rightarrow> u64" where "to_uint64 i = word_of_int i"

definition INT64_MAX :: int where "INT64_MAX = 9223372036854775807"

definition MAX_DATABASE_ID :: u64 where "MAX_DATABASE_ID = to_uint64 INT64_MAX"

definition CanStoreContext :: "AuthContext \<Rightarrow> bool" where
  "CanStoreContext context \<longleftrightarrow>
     IsValidAuthContext context \<and> ac_accountId context \<le> MAX_DATABASE_ID \<and> ac_playerId context \<le> MAX_DATABASE_ID"

definition IssueTicket ::
    "'db ticket_table \<Rightarrow> string \<Rightarrow> AuthContext \<Rightarrow> int \<Rightarrow> 'db \<Rightarrow> (database_error + bool) \<times> 'db" where
  "IssueTicket sql ticket context expiresAtUnix db =
     (if \<not> IsValidAuthTicket ticket \<or> \<not> CanStoreContext context \<or> expiresAtUnix \<le> 0 then (Inr False, db)
      else case tt_insert sql ticket (to_int64 (ac_accountId context), to_int64 (ac_playerId context), expiresAtUnix) db of
             (SQLITE_CONSTRAINT, db) \<Rightarrow> (Inr False, db)
           | (SQLITE_DONE, db) \<Rightarrow> (Inr True, db)
           | (_, db) \<Rightarrow> (Inl DatabaseError, db))"

text \<open>An exception that leaves the function before the commit runs the destructor of the transaction, which rolls back.\<close>

definition ConsumeTicket ::
    "'db ticket_table \<Rightarrow> string \<Rightarrow> int \<Rightarrow> 'db \<Rightarrow> (database_error + AuthContext option) \<times> 'db" where
  "ConsumeTicket sql ticket nowUnix db =
     (if \<not> IsValidAuthTicket ticket \<or> nowUnix < 0 then (Inr None, db)
      else
        let (begun, db) = tt_begin sql db in
        if \<not> begun then (Inl DatabaseError, db)
        else
          let (stepResult, accountId, playerId, expiresAtUnix) = tt_select sql ticket db in
          if stepResult = SQLITE_DONE
          then let (committed, db) = tt_commit sql db in
               if committed then (Inr None, db) else (Inl DatabaseError, tt_rollback sql db)
          else if stepResult \<noteq> SQLITE_ROW then (Inl DatabaseError, tt_rollback sql db)
          else
            let (deleted, db) = tt_delete sql ticket db in
            if deleted \<noteq> SQLITE_DONE then (Inl DatabaseError, tt_rollback sql db)
            else
              let (committed, db) = tt_commit sql db in
              if \<not> committed then (Inl DatabaseError, tt_rollback sql db)
              else if expiresAtUnix \<le> nowUnix \<or> accountId \<le> 0 \<or> playerId \<le> 0 then (Inr None, db)
              else (Inr (Some \<lparr>ac_accountId = to_uint64 accountId, ac_playerId = to_uint64 playerId\<rparr>), db))"

text \<open>\<open>SqliteAuthTicketVerifier\<close>: the clock is read by the caller of the model.\<close>

definition VerifyTicket ::
    "'db ticket_table \<Rightarrow> int \<Rightarrow> string \<Rightarrow> 'db \<Rightarrow> (database_error + AuthContext option) \<times> 'db" where
  "VerifyTicket sql unixSeconds ticket db = ConsumeTicket sql ticket unixSeconds db"

section \<open>The issuer\<close>

definition TICKET_BYTE_COUNT :: nat where "TICKET_BYTE_COUNT = 32"

definition HEX_DIGITS :: string where "HEX_DIGITS = ''0123456789abcdef''"

record IssuedAuthTicket =
  iat_ticket :: string
  iat_expiresAtUnix :: int

datatype issue_error = LifetimeMustBePositive | ExpiryOverflowed | TicketGenerationFailed | IssueDatabaseError

definition hex_byte :: "u8 \<Rightarrow> string" where
  "hex_byte byte = [HEX_DIGITS ! unat (drop_bit 4 byte), HEX_DIGITS ! unat (and byte 0x0F)]"

text \<open>\<open>None\<close>: the random generator failed.\<close>

definition GenerateTicket :: "u8 list option \<Rightarrow> issue_error + string" where
  "GenerateTicket randomBytes =
     (case randomBytes of
        None \<Rightarrow> Inl TicketGenerationFailed
      | Some bytes \<Rightarrow> Inr (concat (map hex_byte bytes)))"

text \<open>The constructor's check of the lifetime.\<close>

definition make_AuthTicketIssuer :: "int \<Rightarrow> issue_error + int" where
  "make_AuthTicketIssuer ticketLifetime =
     (if ticketLifetime \<le> 0 then Inl LifetimeMustBePositive else Inr ticketLifetime)"

definition Issue ::
    "'db ticket_table \<Rightarrow> (AccountId \<Rightarrow> PlayerId \<Rightarrow> database_error + bool) \<Rightarrow> int \<Rightarrow> int \<Rightarrow> u8 list option \<Rightarrow>
     AuthContext \<Rightarrow> 'db \<Rightarrow> (issue_error + IssuedAuthTicket option) \<times> 'db" where
  "Issue sql OwnsPlayer ticketLifetime nowUnix randomBytes context db =
     (if \<not> IsValidAuthContext context then (Inr None, db)
      else case OwnsPlayer (ac_accountId context) (ac_playerId context) of
        Inl e \<Rightarrow> (Inl IssueDatabaseError, db)
      | Inr owns \<Rightarrow>
          if \<not> owns then (Inr None, db)
          else if INT64_MAX - nowUnix < ticketLifetime then (Inl ExpiryOverflowed, db)
          else case GenerateTicket randomBytes of
            Inl e \<Rightarrow> (Inl e, db)
          | Inr ticket \<Rightarrow>
              let issuedTicket = \<lparr>iat_ticket = ticket, iat_expiresAtUnix = nowUnix + ticketLifetime\<rparr> in
              case IssueTicket sql ticket context (iat_expiresAtUnix issuedTicket) db of
                (Inl e, db) \<Rightarrow> (Inl IssueDatabaseError, db)
              | (Inr stored, db) \<Rightarrow> (Inr (if stored then Some issuedTicket else None), db))"

section \<open>What SQL says about the statements\<close>

text \<open>
  \<open>view\<close> is the content of the table as the connection sees it, \<open>saved\<close> the content to which a rollback
  returns. The ticket is the primary key. A statement that fails outside a transaction changes nothing.
\<close>

locale ticket_sql =
  fixes sql :: "'db ticket_table"
    and view :: "'db \<Rightarrow> string \<Rightarrow> ticket_row option"
    and saved :: "'db \<Rightarrow> string \<Rightarrow> ticket_row option"
  assumes insert_done: "tt_insert sql t r db = (SQLITE_DONE, db') \<Longrightarrow> view db t = None \<and> view db' = (view db)(t \<mapsto> r)"
    and insert_other: "tt_insert sql t r db = (c, db') \<Longrightarrow> c \<noteq> SQLITE_DONE \<Longrightarrow> view db' = view db"
    and select_row: "tt_select sql t db = (SQLITE_ROW, r) \<Longrightarrow> view db t = Some r"
    and select_done: "tt_select sql t db = (SQLITE_DONE, r) \<Longrightarrow> view db t = None"
    and delete_done: "tt_delete sql t db = (SQLITE_DONE, db') \<Longrightarrow> view db' = (view db)(t := None)"
    and delete_saved: "tt_delete sql t db = (c, db') \<Longrightarrow> saved db' = saved db"
    and begin_view: "tt_begin sql db = (ok, db') \<Longrightarrow> view db' = view db \<and> (ok \<longrightarrow> saved db' = view db)"
    and commit_done: "tt_commit sql db = (True, db') \<Longrightarrow> view db' = view db"
    and commit_failed: "tt_commit sql db = (False, db') \<Longrightarrow> saved db' = saved db"
    and rollback_view: "view (tt_rollback sql db) = saved db"
begin

lemma issue_stored:
  assumes "IssueTicket sql t c e db = (Inr True, db')"
  shows "view db t = None \<and> view db' = (view db)(t \<mapsto> (to_int64 (ac_accountId c), to_int64 (ac_playerId c), e)) \<and>
    CanStoreContext c \<and> 0 < e \<and> IsValidAuthTicket t"
  using assms insert_done by (auto simp: IssueTicket_def split: if_splits sql_step.splits prod.splits)

lemma issue_refused:
  assumes "IssueTicket sql t c e db = (r, db')" "r \<noteq> Inr True"
  shows "view db' = view db"
  using assms insert_other by (auto simp: IssueTicket_def split: if_splits sql_step.splits prod.splits)

text \<open>Whatever fails, the store either leaves the table alone or has consumed exactly this ticket.\<close>

lemma consume_view:
  assumes "ConsumeTicket sql t now db = (r, db')"
  shows "case r of
      Inl _ \<Rightarrow> view db' = view db
    | Inr None \<Rightarrow> view db' = view db \<or> view db' = (view db)(t := None)
    | Inr (Some c) \<Rightarrow> view db' = (view db)(t := None) \<and>
        (\<exists>a p e. view db t = Some (a, p, e) \<and> now < e \<and> 0 < a \<and> 0 < p \<and> 0 \<le> now \<and>
           c = \<lparr>ac_accountId = to_uint64 a, ac_playerId = to_uint64 p\<rparr>)"
proof (cases "\<not> IsValidAuthTicket t \<or> now < 0")
  case True
  with assms show ?thesis by (auto simp: ConsumeTicket_def)
next
  case False
  obtain ok db1 where b: "tt_begin sql db = (ok, db1)" by (cases "tt_begin sql db")
  obtain st a p e where s: "tt_select sql t db1 = (st, a, p, e)" by (cases "tt_select sql t db1") auto
  obtain dl db2 where d: "tt_delete sql t db1 = (dl, db2)" by (cases "tt_delete sql t db1")
  obtain c1 db3 where c1: "tt_commit sql db1 = (c1, db3)" by (cases "tt_commit sql db1")
  obtain c2 db4 where c2: "tt_commit sql db2 = (c2, db4)" by (cases "tt_commit sql db2")
  have v: "view db1 = view db" "ok \<Longrightarrow> saved db1 = view db" using begin_view [OF b] by auto
  have sv: "saved db2 = saved db1" using delete_saved [OF d] .
  note sel = select_row [of t db1] select_done [of t db1]
  show ?thesis
    using assms False b s d c1 c2 v sv sel rollback_view delete_done [of t db1 db2] commit_done [of db1 db3]
      commit_failed [of db1 db3] commit_done [of db2 db4] commit_failed [of db2 db4]
    by (auto simp: ConsumeTicket_def Let_def split: if_splits)
qed

lemma consume_once:
  assumes "ConsumeTicket sql t now db = (Inr (Some c), db')"
  shows "fst (ConsumeTicket sql t now' db') \<noteq> Inr (Some c')"
proof
  assume "fst (ConsumeTicket sql t now' db') = Inr (Some c')"
  then obtain db'' where "ConsumeTicket sql t now' db' = (Inr (Some c'), db'')" by (metis prod.collapse)
  from consume_view [OF this] consume_view [OF assms] show False by auto
qed

end

section \<open>A table in memory\<close>

text \<open>\<open>lt_broken\<close>: every statement fails.\<close>

record list_db =
  lt_rows :: "(string, ticket_row) umap"
  lt_saved :: "(string, ticket_row) umap"
  lt_broken :: bool

definition list_table :: "list_db ticket_table" where
  "list_table = \<lparr>
     tt_insert = \<lambda>t r db. if lt_broken db then (SQLITE_FAILED, db)
       else if um_contains (lt_rows db) t then (SQLITE_CONSTRAINT, db)
       else (SQLITE_DONE, db\<lparr>lt_rows := um_emplace t r (lt_rows db)\<rparr>),
     tt_select = \<lambda>t db. if lt_broken db then (SQLITE_FAILED, (0, 0, 0))
       else (case map_of (lt_rows db) t of None \<Rightarrow> (SQLITE_DONE, (0, 0, 0)) | Some r \<Rightarrow> (SQLITE_ROW, r)),
     tt_delete = \<lambda>t db. if lt_broken db then (SQLITE_FAILED, db) else (SQLITE_DONE, db\<lparr>lt_rows := um_erase t (lt_rows db)\<rparr>),
     tt_begin = \<lambda>db. if lt_broken db then (False, db) else (True, db\<lparr>lt_saved := lt_rows db\<rparr>),
     tt_commit = \<lambda>db. (\<not> lt_broken db, db),
     tt_rollback = \<lambda>db. db\<lparr>lt_rows := lt_saved db\<rparr>\<rparr>"

definition lt_view :: "list_db \<Rightarrow> string \<Rightarrow> ticket_row option" where "lt_view db = map_of (lt_rows db)"
definition lt_saved_view :: "list_db \<Rightarrow> string \<Rightarrow> ticket_row option" where "lt_saved_view db = map_of (lt_saved db)"

lemma no_row: "\<forall>a b c. (r :: ticket_row option) \<noteq> Some (a, b, c) \<Longrightarrow> r = None"
  by (cases r) auto

interpretation list_tickets: ticket_sql list_table lt_view lt_saved_view
  by unfold_locales
    (auto simp: list_table_def lt_view_def lt_saved_view_def fun_eq_iff umap_simps um_contains_def
      split: if_splits option.splits dest: no_row)

section \<open>Identifiers and tickets on their way through the table\<close>

lemma MAX_DATABASE_ID_uint: "uint MAX_DATABASE_ID = INT64_MAX"
  by (simp add: MAX_DATABASE_ID_def to_uint64_def INT64_MAX_def)

lemma int64_roundtrip [simp]: "to_uint64 (to_int64 w) = w"
  by (simp add: to_uint64_def to_int64_def)

lemma int64_positive:
  assumes "w \<le> MAX_DATABASE_ID" "w \<noteq> 0"
  shows "0 < to_int64 w"
proof -
  have "uint w \<le> INT64_MAX" using assms(1) MAX_DATABASE_ID_uint by (simp add: word_le_def)
  moreover have "- (2 ^ 63) \<le> uint w" by (rule order_trans [of _ 0]) simp_all
  ultimately have "sint w = uint w"
    unfolding sint_uint by (intro signed_take_bit_int_eq_self) (auto simp: INT64_MAX_def)
  moreover have "0 < uint w" using assms(2) by (simp add: word_neq_0_conv word_less_def)
  ultimately show ?thesis by (simp add: to_int64_def)
qed

lemma HEX_DIGITS_inj:
  assumes "i < 16" "j < 16" "HEX_DIGITS ! i = HEX_DIGITS ! j"
  shows "i = j"
proof -
  have "distinct HEX_DIGITS" "length HEX_DIGITS = 16" by (simp_all add: HEX_DIGITS_def)
  then show ?thesis using assms by (simp add: nth_eq_iff_index_eq)
qed

lemma byte_nibbles: "unat (drop_bit 4 b :: u8) < 16" "unat (and b 0x0F :: u8) < 16"
  "b = push_bit 4 (drop_bit 4 b) + and b 0x0F"
proof -
  have m: "and b 0x0F = take_bit 4 b" by (simp add: take_bit_eq_mask mask_numeral)
  have "unat (and b 0x0F :: u8) \<le> unat (0x0F :: u8)" using word_and_le1 [of b "0x0F"] by (simp only: word_le_nat_alt)
  then show "unat (and b 0x0F :: u8) < 16" by simp
  have "unat b < 256" using unsigned_less [of b, where ?'a = nat] by simp
  then show "unat (drop_bit 4 b :: u8) < 16" by (simp add: unat_drop_bit_eq drop_bit_nat_def)
  show "b = push_bit 4 (drop_bit 4 b) + and b 0x0F" unfolding m by (simp add: bits_ident)
qed

lemma hex_byte_inj:
  assumes "hex_byte b = hex_byte c"
  shows "b = c"
proof -
  have "unat (drop_bit 4 b) = unat (drop_bit 4 c)" "unat (and b 0x0F) = unat (and c 0x0F)"
    using assms by (auto simp: hex_byte_def intro: HEX_DIGITS_inj byte_nibbles)
  then have "drop_bit 4 b = drop_bit 4 c" "and b 0x0F = and c 0x0F" by (simp_all only: word_unat_eq_iff)
  then show ?thesis using byte_nibbles(3) [of b] byte_nibbles(3) [of c] by simp
qed

lemma hex_byte_length [simp]: "length (hex_byte b) = 2"
  by (simp add: hex_byte_def)

lemma hex_bytes_inj: "concat (map hex_byte bs) = concat (map hex_byte cs) \<Longrightarrow> bs = cs"
proof (induction bs arbitrary: cs)
  case Nil
  then show ?case by (cases cs) (auto simp: hex_byte_def)
next
  case (Cons b bs)
  then obtain c cs' where cs: "cs = c # cs'" by (cases cs) (auto simp: hex_byte_def)
  with Cons.prems have "hex_byte b = hex_byte c" "concat (map hex_byte bs) = concat (map hex_byte cs')"
    by (auto simp: append_eq_append_conv)
  with Cons.IH cs hex_byte_inj show ?case by simp
qed

lemma GenerateTicket_length: "GenerateTicket (Some bs) = Inr t \<Longrightarrow> length t = 2 * length bs"
  by (auto simp: GenerateTicket_def length_concat o_def sum_list_triv)

lemma GenerateTicket_valid: "length bs = TICKET_BYTE_COUNT \<Longrightarrow> GenerateTicket (Some bs) = Inr t \<Longrightarrow> IsValidAuthTicket t"
  using GenerateTicket_length [of bs t]
  by (cases t) (auto simp: IsValidAuthTicket_def TICKET_BYTE_COUNT_def MAX_AUTH_TICKET_LENGTH_def)

text \<open>What a successful \<open>Issue\<close> has checked and stored.\<close>

lemma Issue_Some:
  assumes "Issue sql OwnsPlayer life now rnd c db = (Inr (Some i), db')"
  shows "OwnsPlayer (ac_accountId c) (ac_playerId c) = Inr True \<and> iat_expiresAtUnix i = now + life \<and>
    now + life \<le> INT64_MAX \<and> IssueTicket sql (iat_ticket i) c (now + life) db = (Inr True, db') \<and>
    (\<exists>bs. rnd = Some bs \<and> GenerateTicket (Some bs) = Inr (iat_ticket i))"
  using assms
  by (auto simp: Issue_def GenerateTicket_def Let_def split: if_splits sum.splits option.splits prod.splits bool.splits)

text \<open>Otherwise the store has refused the ticket, or was never asked.\<close>

lemma Issue_other:
  assumes "Issue sql OwnsPlayer life now rnd c db = (r, db')" "\<forall>i. r \<noteq> Inr (Some i)"
  shows "db' = db \<or> (\<exists>t e q. IssueTicket sql t c e db = (q, db') \<and> q \<noteq> Inr True)"
  using assms
  by (auto simp: Issue_def GenerateTicket_def Let_def split: if_splits sum.splits option.splits prod.splits)

context ticket_sql
begin

lemma issue_then_consume:
  assumes "IssueTicket sql t c e db = (Inr True, db')" "ConsumeTicket sql t now db' = (Inr r, db'')" "now < e" "0 \<le> now"
  shows "r = Some c"
proof -
  from issue_stored [OF assms(1)] have t: "IsValidAuthTicket t" "CanStoreContext c" and
    v: "view db' t = Some (to_int64 (ac_accountId c), to_int64 (ac_playerId c), e)" by auto
  then have pos: "0 < to_int64 (ac_accountId c)" "0 < to_int64 (ac_playerId c)"
    by (auto simp: CanStoreContext_def IsValidAuthContext_def intro: int64_positive)
  obtain ok db1 where b: "tt_begin sql db' = (ok, db1)" by (cases "tt_begin sql db'")
  obtain st a p x where s: "tt_select sql t db1 = (st, a, p, x)" by (cases "tt_select sql t db1") auto
  have v1: "view db1 = view db'" using begin_view [OF b] by simp
  show ?thesis
    using assms(2-4) t(1) b s v v1 pos select_row [of t db1] select_done [of t db1]
    by (auto simp: ConsumeTicket_def Let_def split: if_splits prod.splits)
qed

end

end
