(* ===== verification/Auth_Server.thy ===== *)
theory Auth_Server
  imports Packet Ticket_Store Login_Limiter Database_Executor
begin

text \<open>
  The authentication server behind the TLS sessions: the payloads (\<open>src/src/AuthFlatBufferCodec.cpp\<close>), the
  account, character list and character selection services (\<open>src/src/AccountAuthenticationService.cpp\<close>,
  \<open>src/src/CharacterListService.cpp\<close>, \<open>src/src/CharacterSelectionService.cpp\<close>,
  \<open>src/src/AccountProvisioningService.cpp\<close>) and the dispatcher of a session
  (\<open>src/src/AuthPacketDispatcher.cpp\<close>).

  A request does not complete where it is made: it posts a task to the database executor, the task posts its
  result to the I/O context, and the completion handler answers. Tasks and posted results are data here, with
  the connection and the request they belong to, so that every interleaving of connections, database threads
  and I/O threads is a run. The repositories and the password hasher are the abstract classes of the sources;
  \<open>AuthBackend\<close> is what their functions return at one moment, an \<open>Inl\<close> being any exception.
  FlatBuffers is a parameter as in \<open>Tcp_Protocol\<close>. Erasing passwords from memory is left out.
\<close>

section \<open>Payloads\<close>

definition AUTH_PAYLOAD_PROTOCOL_VERSION :: u16 where "AUTH_PAYLOAD_PROTOCOL_VERSION = 1"

datatype auth_login_result = ALR_Success | ALR_InvalidCredentials | ALR_ServiceError | ALR_RateLimited | ALR_ServiceBusy

datatype auth_list_result = ACL_Success | ACL_NotAuthenticated | ACL_AccountNotFound | ACL_ServiceError | ACL_ServiceBusy

datatype auth_selection_result = ACS_Success | ACS_NotAuthenticated | ACS_InvalidSelection | ACS_ServiceError | ACS_ServiceBusy

record CharacterSummary =
  cs_playerId :: PlayerId
  cs_name :: string
  cs_level :: u32

record SelectionResponseTable =
  srt_result :: auth_selection_result
  srt_game_server_host :: string
  srt_game_server_port :: u16
  srt_auth_ticket :: string
  srt_expires_at_unix :: int

text \<open>The members of the union; \<open>None\<close> is a null pointer.\<close>

datatype AuthPayload = Auth_NONE
  | Auth_LoginRequest "(string \<times> string) option"
  | Auth_CharacterListRequest "unit option"
  | Auth_CharacterSelectionRequest "PlayerId option"
  | Auth_LoginResponse "auth_login_result option"
  | Auth_CharacterListResponse "(auth_list_result \<times> CharacterSummary list) option"
  | Auth_CharacterSelectionResponse "SelectionResponseTable option"

record AuthMessage =
  am_protocol_version :: u16
  am_payload :: AuthPayload

type_synonym auth_parser = "u8 list \<Rightarrow> AuthMessage option"
type_synonym auth_serializer = "AuthMessage \<Rightarrow> u8 list"

datatype auth_error = EmptyAuthArgument | EmptyAuthPayload | InvalidAuthPayload | UnsupportedAuthVersion
  | UnexpectedAuthPayloadType | AuthAlreadyAuthenticated | NoAuthHandler | AuthLoginInProgress
  | AuthPacketError packet_error | AuthExecutorError executor_error | InvalidGameServerAddress

fun empty_payload :: "AuthPayload \<Rightarrow> bool" where
  "empty_payload Auth_NONE = True"
| "empty_payload (Auth_LoginRequest t) = (t = None)"
| "empty_payload (Auth_CharacterListRequest t) = (t = None)"
| "empty_payload (Auth_CharacterSelectionRequest t) = (t = None)"
| "empty_payload (Auth_LoginResponse t) = (t = None)"
| "empty_payload (Auth_CharacterListResponse t) = (t = None)"
| "empty_payload (Auth_CharacterSelectionResponse t) = (t = None)"

definition FinishAuthPayload :: "auth_serializer \<Rightarrow> AuthPayload \<Rightarrow> auth_error + u8 list" where
  "FinishAuthPayload serialize body =
     (if empty_payload body then Inl EmptyAuthArgument
      else Inr (serialize \<lparr>am_protocol_version = AUTH_PAYLOAD_PROTOCOL_VERSION, am_payload = body\<rparr>))"

text \<open>\<open>payload_as\<close> is the accessor of the expected member: \<open>None\<close> for another member and for a null pointer.\<close>

definition DecodeAuthPayload :: "auth_parser \<Rightarrow> (AuthPayload \<Rightarrow> 'a option) \<Rightarrow> u8 list \<Rightarrow> auth_error + 'a" where
  "DecodeAuthPayload parse payload_as bytes =
     (if bytes = [] then Inl EmptyAuthPayload
      else case parse bytes of
        None \<Rightarrow> Inl InvalidAuthPayload
      | Some message \<Rightarrow>
          if am_protocol_version message \<noteq> AUTH_PAYLOAD_PROTOCOL_VERSION then Inl UnsupportedAuthVersion
          else case payload_as (am_payload message) of None \<Rightarrow> Inl UnexpectedAuthPayloadType | Some t \<Rightarrow> Inr t)"

fun as_AuthLoginRequest where "as_AuthLoginRequest (Auth_LoginRequest t) = t" | "as_AuthLoginRequest _ = None"
fun as_CharacterListRequest where "as_CharacterListRequest (Auth_CharacterListRequest t) = t" | "as_CharacterListRequest _ = None"
fun as_CharacterSelectionRequest where
  "as_CharacterSelectionRequest (Auth_CharacterSelectionRequest t) = t" | "as_CharacterSelectionRequest _ = None"
fun as_AuthLoginResponse where "as_AuthLoginResponse (Auth_LoginResponse t) = t" | "as_AuthLoginResponse _ = None"
fun as_CharacterListResponse where "as_CharacterListResponse (Auth_CharacterListResponse t) = t" | "as_CharacterListResponse _ = None"
fun as_CharacterSelectionResponse where
  "as_CharacterSelectionResponse (Auth_CharacterSelectionResponse t) = t" | "as_CharacterSelectionResponse _ = None"

section \<open>The work of the services\<close>

datatype AccountAuthenticationStatus = AA_Success | AA_InvalidCredentials | AA_RateLimited | AA_ServiceBusy | AA_ServiceError

record AccountAuthenticationResult =
  aar_status :: AccountAuthenticationStatus
  aar_accountId :: "AccountId option"

datatype CharacterListStatus = CL_Success | CL_AccountNotFound | CL_ServiceBusy | CL_ServiceError

record CharacterListResult =
  clr_status :: CharacterListStatus
  clr_characters :: "CharacterSummary list"

datatype CharacterSelectionStatus = CS_Success | CS_InvalidSelection | CS_ServiceBusy | CS_ServiceError

record CharacterSelectionResult =
  csr_status :: CharacterSelectionStatus
  csr_authTicket :: "IssuedAuthTicket option"

record AuthBackend =
  ab_FindAccountByLoginId :: "string \<Rightarrow> database_error + Account option"
  ab_FindAccount :: "AccountId \<Rightarrow> database_error + Account option"
  ab_FindPlayerIds :: "AccountId \<Rightarrow> database_error + PlayerId list"
  ab_OwnsPlayer :: "AccountId \<Rightarrow> PlayerId \<Rightarrow> database_error + bool"
  ab_FindPlayer :: "PlayerId \<Rightarrow> database_error + PlayerProfile option"
  ab_Verify :: "string \<Rightarrow> string \<Rightarrow> database_error + bool"

definition MAX_PASSWORD_LENGTH :: nat where "MAX_PASSWORD_LENGTH = 1024"

definition IsValidPasswordInput :: "string \<Rightarrow> bool" where
  "IsValidPasswordInput password \<longleftrightarrow> password \<noteq> [] \<and> length password \<le> MAX_PASSWORD_LENGTH"

text \<open>The task of \<open>Authenticate\<close>. An unknown login id costs a password check too, against the dummy hash.\<close>

definition authentication_work :: "AuthBackend \<Rightarrow> string \<Rightarrow> string \<Rightarrow> string \<Rightarrow> AccountAuthenticationResult" where
  "authentication_work be dummyHash loginId password =
     (case ab_FindAccountByLoginId be loginId of
        Inl e \<Rightarrow> \<lparr>aar_status = AA_ServiceError, aar_accountId = None\<rparr>
      | Inr account \<Rightarrow>
          let encodedHash = (case account of Some a \<Rightarrow> acc_encodedPasswordHash a | None \<Rightarrow> dummyHash) in
          case ab_Verify be password encodedHash of
            Inl e \<Rightarrow> \<lparr>aar_status = AA_ServiceError, aar_accountId = None\<rparr>
          | Inr passwordMatches \<Rightarrow>
              (case account of
                 Some a \<Rightarrow> if passwordMatches then \<lparr>aar_status = AA_Success, aar_accountId = Some (acc_accountId a)\<rparr>
                           else \<lparr>aar_status = AA_InvalidCredentials, aar_accountId = None\<rparr>
               | None \<Rightarrow> \<lparr>aar_status = AA_InvalidCredentials, aar_accountId = None\<rparr>))"

text \<open>The loop over the owned players; \<open>None\<close> when it throws.\<close>

fun load_profiles :: "AuthBackend \<Rightarrow> PlayerId list \<Rightarrow> CharacterSummary list option" where
  "load_profiles be [] = Some []"
| "load_profiles be (playerId # ps) =
     (case ab_FindPlayer be playerId of
        Inr (Some profile) \<Rightarrow>
          map_option (\<lambda>cs. \<lparr>cs_playerId = pp_playerId profile, cs_name = pp_name profile, cs_level = pp_level profile\<rparr> # cs)
            (load_profiles be ps)
      | _ \<Rightarrow> None)"

definition list_work :: "AuthBackend \<Rightarrow> AccountId \<Rightarrow> CharacterListResult" where
  "list_work be accountId =
     (case ab_FindAccount be accountId of
        Inl e \<Rightarrow> \<lparr>clr_status = CL_ServiceError, clr_characters = []\<rparr>
      | Inr None \<Rightarrow> \<lparr>clr_status = CL_AccountNotFound, clr_characters = []\<rparr>
      | Inr (Some account) \<Rightarrow>
          (case ab_FindPlayerIds be accountId of
             Inl e \<Rightarrow> \<lparr>clr_status = CL_ServiceError, clr_characters = []\<rparr>
           | Inr playerIds \<Rightarrow>
               (case load_profiles be playerIds of
                  None \<Rightarrow> \<lparr>clr_status = CL_ServiceError, clr_characters = []\<rparr>
                | Some characters \<Rightarrow> \<lparr>clr_status = CL_Success, clr_characters = characters\<rparr>)))"

definition selection_work ::
    "'db ticket_table \<Rightarrow> AuthBackend \<Rightarrow> int \<Rightarrow> int \<Rightarrow> u8 list option \<Rightarrow> AccountId \<Rightarrow> PlayerId \<Rightarrow> 'db \<Rightarrow>
     CharacterSelectionResult \<times> 'db" where
  "selection_work sql be ticketLifetime nowUnix randomBytes accountId playerId db =
     (case Issue sql (ab_OwnsPlayer be) ticketLifetime nowUnix randomBytes
             \<lparr>ac_accountId = accountId, ac_playerId = playerId\<rparr> db of
        (Inl e, db) \<Rightarrow> (\<lparr>csr_status = CS_ServiceError, csr_authTicket = None\<rparr>, db)
      | (Inr authTicket, db) \<Rightarrow>
          (\<lparr>csr_status = (if authTicket \<noteq> None then CS_Success else CS_InvalidSelection), csr_authTicket = authTicket\<rparr>, db))"

text \<open>The provisioning of an account, a synchronous call of the administration tool. \<open>CreateAccount\<close> of the
  repository returns no account when the login id is taken.\<close>

datatype AccountProvisioningStatus = AP_Success | AP_InvalidLoginId | AP_InvalidPassword | AP_PasswordHashFailed
  | AP_LoginIdAlreadyExists

definition provision_account ::
    "(string \<Rightarrow> string option) \<Rightarrow> (string \<Rightarrow> string \<Rightarrow> 'r \<Rightarrow> Account option \<times> 'r) \<Rightarrow> string \<Rightarrow> string \<Rightarrow> 'r \<Rightarrow>
     (AccountProvisioningStatus \<times> AccountId) \<times> 'r" where
  "provision_account Hash CreateAccount loginId password repository =
     (if \<not> IsValidAccountLoginId loginId then ((AP_InvalidLoginId, 0), repository)
      else if password = [] \<or> MAX_PASSWORD_LENGTH < length password then ((AP_InvalidPassword, 0), repository)
      else case Hash password of
        None \<Rightarrow> ((AP_PasswordHashFailed, 0), repository)
      | Some encodedPasswordHash \<Rightarrow>
          if \<not> IsValidEncodedPasswordHash encodedPasswordHash then ((AP_PasswordHashFailed, 0), repository)
          else case CreateAccount loginId encodedPasswordHash repository of
            (None, repository) \<Rightarrow> ((AP_LoginIdAlreadyExists, 0), repository)
          | (Some account, repository) \<Rightarrow> ((AP_Success, acc_accountId account), repository))"

section \<open>State\<close>

record GameServerAddress =
  gs_host :: string
  gs_port :: u16

record AuthDispatcher =
  ad_account :: AuthServerSessionState
  ad_loginInProgress :: bool
  ad_clientAddress :: string

definition SetClientAddress :: "string \<Rightarrow> AuthDispatcher \<Rightarrow> AuthDispatcher" where
  "SetClientAddress clientAddress d = d\<lparr>ad_clientAddress := (if clientAddress = [] then ''unknown'' else clientAddress)\<rparr>"

text \<open>The constructor, and what the constructor of the session does with the address of its peer.\<close>

definition make_AuthPacketDispatcher :: "GameServerAddress \<Rightarrow> auth_error + AuthDispatcher" where
  "make_AuthPacketDispatcher gameServerAddress =
     (if gs_host gameServerAddress = [] \<or> gs_port gameServerAddress = 0 then Inl InvalidGameServerAddress
      else Inr \<lparr>ad_account = None, ad_loginInProgress = False, ad_clientAddress = ''unknown''\<rparr>)"

text \<open>Tasks and results carry the connection and the request they belong to.\<close>

type_synonym connection = nat

datatype auth_task =
    LoginTask connection u32 string string
  | ListTask connection u32 AccountId
  | SelectTask connection u32 AccountId PlayerId

datatype auth_completion =
    LoginDone connection u32 AccountAuthenticationResult
  | ListDone connection u32 CharacterListResult
  | SelectDone connection u32 CharacterSelectionResult

datatype auth_event =
    Presented connection string string
  | Granted connection string AuthContext
  | Redeemed string AuthContext

text \<open>\<open>as_responses\<close> are the packets given to the response handlers, \<open>as_log\<close> what has happened; no operation reads them.\<close>

record 'db AuthServer =
  as_limiter :: LoginAttemptLimiter
  as_executor :: "auth_task DatabaseExecutor"
  as_posted :: "auth_completion list"
  as_dispatchers :: "connection \<Rightarrow> AuthDispatcher"
  as_db :: 'db
  as_responses :: "(connection \<times> (auth_error + u8 list)) list"
  as_log :: "auth_event list"

definition PostCompletion :: "auth_completion \<Rightarrow> 'db AuthServer \<Rightarrow> 'db AuthServer" where
  "PostCompletion c s = s\<lparr>as_posted := as_posted s @ [c]\<rparr>"

definition give_response :: "connection \<Rightarrow> auth_error + u8 list \<Rightarrow> 'db AuthServer \<Rightarrow> 'db AuthServer" where
  "give_response c response s = s\<lparr>as_responses := as_responses s @ [(c, response)]\<rparr>"

definition upd_dispatcher :: "connection \<Rightarrow> (AuthDispatcher \<Rightarrow> AuthDispatcher) \<Rightarrow> 'db AuthServer \<Rightarrow> 'db AuthServer" where
  "upd_dispatcher c f s = s\<lparr>as_dispatchers := (as_dispatchers s)(c := f (as_dispatchers s c))\<rparr>"

definition note_event :: "auth_event \<Rightarrow> 'db AuthServer \<Rightarrow> 'db AuthServer" where
  "note_event e s = s\<lparr>as_log := as_log s @ [e]\<rparr>"

section \<open>Submitting work\<close>

text \<open>
  A task the executor does not take is destroyed, and with it the permit that a login task holds. An \<open>Inl\<close>
  is the exception that leaves the call.
\<close>

definition submit_login ::
    "LoginAttemptLimiterOptions \<Rightarrow> int \<Rightarrow> bool \<Rightarrow> connection \<Rightarrow> u32 \<Rightarrow> string \<Rightarrow> string \<Rightarrow> string \<Rightarrow> 'db AuthServer \<Rightarrow>
     (auth_error + unit) \<times> 'db AuthServer" where
  "submit_login opts now posted c rid clientAddress loginId password s =
     (if \<not> IsValidAccountLoginId loginId \<or> \<not> IsValidPasswordInput password
      then (Inr (), PostCompletion (LoginDone c rid \<lparr>aar_status = AA_InvalidCredentials, aar_accountId = None\<rparr>) s)
      else
        let (status, limiter) = TryAcquire opts now clientAddress loginId (as_limiter s);
            s = s\<lparr>as_limiter := limiter\<rparr>
        in if status \<noteq> Accepted
           then (Inr (), PostCompletion (LoginDone c rid
                   \<lparr>aar_status = (if status = RateLimited then AA_RateLimited else AA_ServiceBusy), aar_accountId = None\<rparr>) s)
           else
             case TryPost now posted (Some (LoginTask c rid loginId password)) (as_executor s) of
               (Inl e, ex) \<Rightarrow>
                 (Inl (AuthExecutorError e), s\<lparr>as_executor := ex, as_limiter := release_permit (as_limiter s)\<rparr>)
             | (Inr queued, ex) \<Rightarrow>
                 if queued then (Inr (), s\<lparr>as_executor := ex\<rparr>)
                 else (Inr (), PostCompletion (LoginDone c rid \<lparr>aar_status = AA_ServiceBusy, aar_accountId = None\<rparr>)
                         (s\<lparr>as_executor := ex, as_limiter := release_permit (as_limiter s)\<rparr>)))"

definition LoadCharacters ::
    "int \<Rightarrow> bool \<Rightarrow> connection \<Rightarrow> u32 \<Rightarrow> AccountId \<Rightarrow> 'db AuthServer \<Rightarrow> (auth_error + unit) \<times> 'db AuthServer" where
  "LoadCharacters now posted c rid accountId s =
     (if accountId = 0
      then (Inr (), PostCompletion (ListDone c rid \<lparr>clr_status = CL_AccountNotFound, clr_characters = []\<rparr>) s)
      else case TryPost now posted (Some (ListTask c rid accountId)) (as_executor s) of
        (Inl e, ex) \<Rightarrow> (Inl (AuthExecutorError e), s\<lparr>as_executor := ex\<rparr>)
      | (Inr queued, ex) \<Rightarrow>
          if queued then (Inr (), s\<lparr>as_executor := ex\<rparr>)
          else (Inr (), PostCompletion (ListDone c rid \<lparr>clr_status = CL_ServiceBusy, clr_characters = []\<rparr>)
                  (s\<lparr>as_executor := ex\<rparr>)))"

definition SelectCharacter ::
    "int \<Rightarrow> bool \<Rightarrow> connection \<Rightarrow> u32 \<Rightarrow> AccountId \<Rightarrow> PlayerId \<Rightarrow> 'db AuthServer \<Rightarrow> (auth_error + unit) \<times> 'db AuthServer" where
  "SelectCharacter now posted c rid accountId playerId s =
     (if accountId = 0 \<or> playerId = 0
      then (Inr (), PostCompletion (SelectDone c rid \<lparr>csr_status = CS_InvalidSelection, csr_authTicket = None\<rparr>) s)
      else case TryPost now posted (Some (SelectTask c rid accountId playerId)) (as_executor s) of
        (Inl e, ex) \<Rightarrow> (Inl (AuthExecutorError e), s\<lparr>as_executor := ex\<rparr>)
      | (Inr queued, ex) \<Rightarrow>
          if queued then (Inr (), s\<lparr>as_executor := ex\<rparr>)
          else (Inr (), PostCompletion (SelectDone c rid \<lparr>csr_status = CS_ServiceBusy, csr_authTicket = None\<rparr>)
                  (s\<lparr>as_executor := ex\<rparr>)))"

section \<open>Responses\<close>

definition login_protocol_result :: "AccountAuthenticationStatus \<Rightarrow> auth_login_result" where
  "login_protocol_result status = (case status of AA_Success \<Rightarrow> ALR_Success | AA_InvalidCredentials \<Rightarrow> ALR_InvalidCredentials
     | AA_RateLimited \<Rightarrow> ALR_RateLimited | AA_ServiceBusy \<Rightarrow> ALR_ServiceBusy | AA_ServiceError \<Rightarrow> ALR_ServiceError)"

definition list_protocol_result :: "CharacterListStatus \<Rightarrow> auth_list_result" where
  "list_protocol_result status = (case status of CL_Success \<Rightarrow> ACL_Success | CL_AccountNotFound \<Rightarrow> ACL_AccountNotFound
     | CL_ServiceBusy \<Rightarrow> ACL_ServiceBusy | CL_ServiceError \<Rightarrow> ACL_ServiceError)"

definition selection_protocol_result :: "CharacterSelectionStatus \<Rightarrow> auth_selection_result" where
  "selection_protocol_result status = (case status of CS_Success \<Rightarrow> ACS_Success | CS_InvalidSelection \<Rightarrow> ACS_InvalidSelection
     | CS_ServiceBusy \<Rightarrow> ACS_ServiceBusy | CS_ServiceError \<Rightarrow> ACS_ServiceError)"

definition auth_packet :: "auth_serializer \<Rightarrow> PacketType \<Rightarrow> u32 \<Rightarrow> AuthPayload \<Rightarrow> auth_error + u8 list" where
  "auth_packet serialize ty rid body =
     (case FinishAuthPayload serialize body of
        Inl e \<Rightarrow> Inl e
      | Inr bytes \<Rightarrow> (case EncodePacket ty rid bytes of Inl e \<Rightarrow> Inl (AuthPacketError e) | Inr p \<Rightarrow> Inr p))"

definition EncodeLoginResponse :: "auth_serializer \<Rightarrow> u32 \<Rightarrow> auth_login_result \<Rightarrow> auth_error + u8 list" where
  "EncodeLoginResponse serialize rid result = auth_packet serialize 301 rid (Auth_LoginResponse (Some result))"

definition EncodeCharacterListResponse ::
    "auth_serializer \<Rightarrow> u32 \<Rightarrow> auth_list_result \<Rightarrow> CharacterSummary list \<Rightarrow> auth_error + u8 list" where
  "EncodeCharacterListResponse serialize rid result characters =
     auth_packet serialize 302 rid (Auth_CharacterListResponse (Some (result, characters)))"

definition EncodeCharacterSelectionResponse ::
    "auth_serializer \<Rightarrow> u32 \<Rightarrow> auth_selection_result \<Rightarrow> GameServerAddress \<Rightarrow> IssuedAuthTicket option \<Rightarrow>
     auth_error + u8 list" where
  "EncodeCharacterSelectionResponse serialize rid result gameServerAddress authTicket =
     (let success = (result = ACS_Success \<and> authTicket \<noteq> None) in
      auth_packet serialize 303 rid (Auth_CharacterSelectionResponse (Some
        \<lparr>srt_result = result,
         srt_game_server_host = (if success then gs_host gameServerAddress else []),
         srt_game_server_port = (if success then gs_port gameServerAddress else 0),
         srt_auth_ticket = (if success then iat_ticket (the authTicket) else []),
         srt_expires_at_unix = (if success then iat_expiresAtUnix (the authTicket) else 0)\<rparr>)))"

section \<open>The dispatcher\<close>

definition HandleLoginRequestAsync ::
    "auth_parser \<Rightarrow> LoginAttemptLimiterOptions \<Rightarrow> int \<Rightarrow> bool \<Rightarrow> connection \<Rightarrow> Packet \<Rightarrow> 'db AuthServer \<Rightarrow>
     (auth_error + unit) \<times> 'db AuthServer" where
  "HandleLoginRequestAsync parse opts now posted c request s =
     (if ad_loginInProgress (as_dispatchers s c) then (Inl AuthLoginInProgress, s)
      else
        let s = upd_dispatcher c (\<lambda>d. d\<lparr>ad_loginInProgress := True\<rparr>) s;
            (result, s) =
              (case DecodeAuthPayload parse as_AuthLoginRequest (payload request) of
                 Inl e \<Rightarrow> (Inl e, s)
               | Inr (loginId, password) \<Rightarrow>
                   submit_login opts now posted c (requestId (header request)) (ad_clientAddress (as_dispatchers s c))
                     loginId password (note_event (Presented c loginId password) s))
        in case result of
             Inl e \<Rightarrow> (Inl e, upd_dispatcher c (\<lambda>d. d\<lparr>ad_loginInProgress := False\<rparr>) s)
           | Inr u \<Rightarrow> (Inr u, s))"

definition HandleCharacterListRequestAsync ::
    "auth_parser \<Rightarrow> auth_serializer \<Rightarrow> int \<Rightarrow> bool \<Rightarrow> connection \<Rightarrow> Packet \<Rightarrow> 'db AuthServer \<Rightarrow>
     (auth_error + unit) \<times> 'db AuthServer" where
  "HandleCharacterListRequestAsync parse serialize now posted c request s =
     (case DecodeAuthPayload parse as_CharacterListRequest (payload request) of
        Inl e \<Rightarrow> (Inl e, s)
      | Inr _ \<Rightarrow>
          (case ad_account (as_dispatchers s c) of
             None \<Rightarrow> (Inr (), give_response c
                       (EncodeCharacterListResponse serialize (requestId (header request)) ACL_NotAuthenticated []) s)
           | Some accountId \<Rightarrow> LoadCharacters now posted c (requestId (header request)) accountId s))"

definition HandleCharacterSelectionRequestAsync ::
    "auth_parser \<Rightarrow> auth_serializer \<Rightarrow> GameServerAddress \<Rightarrow> int \<Rightarrow> bool \<Rightarrow> connection \<Rightarrow> Packet \<Rightarrow> 'db AuthServer \<Rightarrow>
     (auth_error + unit) \<times> 'db AuthServer" where
  "HandleCharacterSelectionRequestAsync parse serialize gameServer now posted c request s =
     (case DecodeAuthPayload parse as_CharacterSelectionRequest (payload request) of
        Inl e \<Rightarrow> (Inl e, s)
      | Inr selectedPlayerId \<Rightarrow>
          (case ad_account (as_dispatchers s c) of
             None \<Rightarrow> (Inr (), give_response c
                       (EncodeCharacterSelectionResponse serialize (requestId (header request)) ACS_NotAuthenticated gameServer None) s)
           | Some accountId \<Rightarrow> SelectCharacter now posted c (requestId (header request)) accountId selectedPlayerId s))"

definition auth_DispatchAsync ::
    "auth_parser \<Rightarrow> auth_serializer \<Rightarrow> GameServerAddress \<Rightarrow> LoginAttemptLimiterOptions \<Rightarrow> int \<Rightarrow> bool \<Rightarrow>
     connection \<Rightarrow> Packet \<Rightarrow> 'db AuthServer \<Rightarrow> (auth_error + unit) \<times> 'db AuthServer" where
  "auth_DispatchAsync parse serialize gameServer opts now posted c request s =
     (let ty = headerType (header request) in
      if ty = 201
      then if ad_account (as_dispatchers s c) \<noteq> None then (Inl AuthAlreadyAuthenticated, s)
           else HandleLoginRequestAsync parse opts now posted c request s
      else if ty = 202 then HandleCharacterListRequestAsync parse serialize now posted c request s
      else if ty = 203 then HandleCharacterSelectionRequestAsync parse serialize gameServer now posted c request s
      else (Inl NoAuthHandler, s))"

text \<open>A database thread runs the \<open>n\<close>-th active task to its end; the permit of a login task goes with the task.\<close>

definition finish_task ::
    "'db ticket_table \<Rightarrow> string \<Rightarrow> int \<Rightarrow> AuthBackend \<Rightarrow> int \<Rightarrow> u8 list option \<Rightarrow> int \<Rightarrow> nat \<Rightarrow> 'db AuthServer \<Rightarrow>
     'db AuthServer" where
  "finish_task sql dummyHash ticketLifetime be nowUnix randomBytes completedAt n s =
     (let (startedAt, task) = de_active (as_executor s) ! n;
          s = (case task of
                 LoginTask c rid loginId password \<Rightarrow>
                   let s = PostCompletion (LoginDone c rid (authentication_work be dummyHash loginId password)) s
                   in s\<lparr>as_limiter := release_permit (as_limiter s)\<rparr>
               | ListTask c rid accountId \<Rightarrow> PostCompletion (ListDone c rid (list_work be accountId)) s
               | SelectTask c rid accountId playerId \<Rightarrow>
                   let (result, db) = selection_work sql be ticketLifetime nowUnix randomBytes accountId playerId (as_db s);
                       s = PostCompletion (SelectDone c rid result) (s\<lparr>as_db := db\<rparr>)
                   in case csr_authTicket result of
                        None \<Rightarrow> s
                      | Some t \<Rightarrow> note_event (Granted c (iat_ticket t) \<lparr>ac_accountId = accountId, ac_playerId = playerId\<rparr>) s)
      in s\<lparr>as_executor := end_task completedAt False n (as_executor s)\<rparr>)"

text \<open>An I/O thread runs the \<open>n\<close>-th posted completion handler.\<close>

definition login_completed ::
    "auth_serializer \<Rightarrow> connection \<Rightarrow> u32 \<Rightarrow> AccountAuthenticationResult \<Rightarrow> 'db AuthServer \<Rightarrow> 'db AuthServer" where
  "login_completed serialize c rid authenticationResult s =
     (let responseResult = login_protocol_result (aar_status authenticationResult);
          (responseResult, s) =
            (if responseResult = ALR_Success
             then (case aar_accountId authenticationResult of
                     None \<Rightarrow> (ALR_ServiceError, s)
                   | Some accountId \<Rightarrow>
                       let (marked, account) = MarkAuthenticated accountId (ad_account (as_dispatchers s c));
                           s = upd_dispatcher c (\<lambda>d. d\<lparr>ad_account := account\<rparr>) s
                       in (if \<not> marked then ALR_ServiceError else ALR_Success, s))
             else (responseResult, s));
          s = upd_dispatcher c (\<lambda>d. d\<lparr>ad_loginInProgress := False\<rparr>) s
      in give_response c (EncodeLoginResponse serialize rid responseResult) s)"

definition list_completed ::
    "auth_serializer \<Rightarrow> connection \<Rightarrow> u32 \<Rightarrow> CharacterListResult \<Rightarrow> 'db AuthServer \<Rightarrow> 'db AuthServer" where
  "list_completed serialize c rid listResult s =
     (let responseResult = list_protocol_result (clr_status listResult);
          characters = (if responseResult \<noteq> ACL_Success then [] else clr_characters listResult)
      in give_response c (EncodeCharacterListResponse serialize rid responseResult characters) s)"

definition selection_completed ::
    "auth_serializer \<Rightarrow> GameServerAddress \<Rightarrow> connection \<Rightarrow> u32 \<Rightarrow> CharacterSelectionResult \<Rightarrow> 'db AuthServer \<Rightarrow>
     'db AuthServer" where
  "selection_completed serialize gameServer c rid selectionResult s =
     (let responseResult = selection_protocol_result (csr_status selectionResult);
          (responseResult, authTicket) =
            (if responseResult = ACS_Success \<and>
                (case csr_authTicket selectionResult of
                   None \<Rightarrow> True | Some t \<Rightarrow> iat_ticket t = [] \<or> iat_expiresAtUnix t \<le> 0)
             then (ACS_ServiceError, None) else (responseResult, csr_authTicket selectionResult))
      in give_response c (EncodeCharacterSelectionResponse serialize rid responseResult gameServer authTicket) s)"

definition run_completion :: "auth_serializer \<Rightarrow> GameServerAddress \<Rightarrow> nat \<Rightarrow> 'db AuthServer \<Rightarrow> 'db AuthServer" where
  "run_completion serialize gameServer n s =
     (let completion = as_posted s ! n;
          s = s\<lparr>as_posted := take n (as_posted s) @ drop (Suc n) (as_posted s)\<rparr>
      in case completion of
           LoginDone c rid r \<Rightarrow> login_completed serialize c rid r s
         | ListDone c rid r \<Rightarrow> list_completed serialize c rid r s
         | SelectDone c rid r \<Rightarrow> selection_completed serialize gameServer c rid r s)"

text \<open>The game server redeems a ticket, from its own database thread.\<close>

definition redeem :: "'db ticket_table \<Rightarrow> int \<Rightarrow> string \<Rightarrow> 'db AuthServer \<Rightarrow> 'db AuthServer" where
  "redeem sql unixSeconds ticket s =
     (let (result, db) = VerifyTicket sql unixSeconds ticket (as_db s); s = s\<lparr>as_db := db\<rparr>
      in case result of Inr (Some context) \<Rightarrow> note_event (Redeemed ticket context) s | _ \<Rightarrow> s)"

end
