(* ===== verification/Auth_Runs.thy ===== *)
theory Auth_Runs
  imports Auth_Server "HOL-Library.Multiset"
begin

text \<open>
  Runs of the authentication server together with the game server that redeems its tickets, and the abstract
  system they implement.

  \<open>auth_server_step\<close> is the interleaving of the concrete operations. \<open>core_step\<close> is what they amount to: a bag
  of tasks, a bag of results that wait for their handler, who is busy logging in, which account a connection
  speaks for, and the ticket table. Every concrete step is a step of the core (\<open>auth_server_simulation\<close>), and
  the invariant is proved on the core.
\<close>

section \<open>The core\<close>

record auth_core =
  co_tasks :: "auth_task multiset"
  co_done :: "auth_completion multiset"
  co_busy :: "connection \<Rightarrow> bool"
  co_owner :: "connection \<Rightarrow> AccountId option"
  co_jobs :: nat
  co_log :: "auth_event list"
  co_rows :: "string \<Rightarrow> ticket_row option"

fun login_task_of :: "connection \<Rightarrow> auth_task \<Rightarrow> bool" where
  "login_task_of c (LoginTask d r l p) \<longleftrightarrow> d = c"
| "login_task_of c _ \<longleftrightarrow> False"

fun is_login :: "auth_task \<Rightarrow> bool" where
  "is_login (LoginTask d r l p) \<longleftrightarrow> True"
| "is_login _ \<longleftrightarrow> False"

fun login_done_of :: "connection \<Rightarrow> auth_completion \<Rightarrow> bool" where
  "login_done_of c (LoginDone d r x) \<longleftrightarrow> d = c"
| "login_done_of c _ \<longleftrightarrow> False"

fun is_login_done :: "auth_completion \<Rightarrow> bool" where
  "is_login_done (LoginDone d r x) \<longleftrightarrow> True"
| "is_login_done _ \<longleftrightarrow> False"

text \<open>Which account the task of an authenticated connection is made for.\<close>

fun task_account :: "auth_task \<Rightarrow> (connection \<times> AccountId) option" where
  "task_account (LoginTask c r l p) = None"
| "task_account (ListTask c r a) = Some (c, a)"
| "task_account (SelectTask c r a p) = Some (c, a)"

text \<open>The account that a completed login gives to a connection.\<close>

definition new_owner :: "AccountAuthenticationResult \<Rightarrow> AccountId option \<Rightarrow> AccountId option" where
  "new_owner r owner =
     (if aar_status r = AA_Success \<and> aar_accountId r \<noteq> None then snd (MarkAuthenticated (the (aar_accountId r)) owner)
      else owner)"

inductive core_step :: "AuthBackend set \<Rightarrow> string \<Rightarrow> nat \<Rightarrow> auth_core \<Rightarrow> auth_core \<Rightarrow> bool" for B dummy limit where
  core_idle: "core_step B dummy limit s s"
| core_present: "core_step B dummy limit s (s\<lparr>co_log := co_log s @ [Presented c l p]\<rparr>)"
| core_refuse: "\<not> co_busy s c \<Longrightarrow> aar_status x \<noteq> AA_Success \<Longrightarrow>
    core_step B dummy limit s (s\<lparr>co_busy := (co_busy s)(c := True), co_log := co_log s @ [Presented c l p],
      co_done := add_mset (LoginDone c r x) (co_done s)\<rparr>)"
| core_login: "\<not> co_busy s c \<Longrightarrow> co_jobs s < limit \<Longrightarrow>
    core_step B dummy limit s (s\<lparr>co_busy := (co_busy s)(c := True), co_log := co_log s @ [Presented c l p],
      co_tasks := add_mset (LoginTask c r l p) (co_tasks s), co_jobs := co_jobs s + 1\<rparr>)"
| core_answer: "\<not> is_login_done x \<Longrightarrow> core_step B dummy limit s (s\<lparr>co_done := add_mset x (co_done s)\<rparr>)"
| core_task: "task_account t = Some (c, a) \<Longrightarrow> co_owner s c = Some a \<Longrightarrow>
    core_step B dummy limit s (s\<lparr>co_tasks := add_mset t (co_tasks s)\<rparr>)"
| core_check: "LoginTask c r l p \<in># co_tasks s \<Longrightarrow> be \<in> B \<Longrightarrow>
    core_step B dummy limit s (s\<lparr>co_tasks := co_tasks s - {#LoginTask c r l p#},
      co_done := add_mset (LoginDone c r (authentication_work be dummy l p)) (co_done s), co_jobs := co_jobs s - 1\<rparr>)"
| core_work: "t \<in># co_tasks s \<Longrightarrow> \<not> is_login t \<Longrightarrow> \<not> is_login_done x \<Longrightarrow>
    core_step B dummy limit s (s\<lparr>co_tasks := co_tasks s - {#t#}, co_done := add_mset x (co_done s)\<rparr>)"
| core_grant: "SelectTask c r a p \<in># co_tasks s \<Longrightarrow> be \<in> B \<Longrightarrow> ab_OwnsPlayer be a p = Inr True \<Longrightarrow> co_rows s t = None \<Longrightarrow>
    core_step B dummy limit s (s\<lparr>co_tasks := co_tasks s - {#SelectTask c r a p#},
      co_done := add_mset (SelectDone c r x) (co_done s),
      co_log := co_log s @ [Granted c t \<lparr>ac_accountId = a, ac_playerId = p\<rparr>],
      co_rows := (co_rows s)(t \<mapsto> (to_int64 a, to_int64 p, e))\<rparr>)"
| core_login_done: "LoginDone c r x \<in># co_done s \<Longrightarrow>
    core_step B dummy limit s (s\<lparr>co_done := co_done s - {#LoginDone c r x#}, co_busy := (co_busy s)(c := False),
      co_owner := (co_owner s)(c := new_owner x (co_owner s c))\<rparr>)"
| core_done: "x \<in># co_done s \<Longrightarrow> \<not> is_login_done x \<Longrightarrow>
    core_step B dummy limit s (s\<lparr>co_done := co_done s - {#x#}\<rparr>)"
| core_redeem: "co_rows s t = Some (a, p, e) \<Longrightarrow>
    core_step B dummy limit s (s\<lparr>co_rows := (co_rows s)(t := None),
      co_log := co_log s @ [Redeemed t \<lparr>ac_accountId = to_uint64 a, ac_playerId = to_uint64 p\<rparr>]\<rparr>)"
| core_drop: "core_step B dummy limit s (s\<lparr>co_rows := (co_rows s)(t := None)\<rparr>)"

text \<open>A connection has proved that it may speak for an account: it presented a login id and a password that
  the repository and the hasher accepted.\<close>

definition proved :: "AuthBackend set \<Rightarrow> auth_event list \<Rightarrow> connection \<Rightarrow> AccountId \<Rightarrow> bool" where
  "proved B events c a \<longleftrightarrow>
     (\<exists>be \<in> B. \<exists>l p account. Presented c l p \<in> set events \<and> ab_FindAccountByLoginId be l = Inr (Some account) \<and>
        acc_accountId account = a \<and> ab_Verify be p (acc_encodedPasswordHash account) = Inr True)"

lemma proved_mono: "proved B events c a \<Longrightarrow> proved B (events @ later) c a"
  by (auto simp: proved_def)

lemma authentication_work_Success:
  assumes "aar_status (authentication_work be dummy l p) = AA_Success"
  shows "\<exists>account. ab_FindAccountByLoginId be l = Inr (Some account) \<and>
    ab_Verify be p (acc_encodedPasswordHash account) = Inr True \<and>
    aar_accountId (authentication_work be dummy l p) = Some (acc_accountId account)"
  using assms by (auto simp: authentication_work_def Let_def split: sum.splits option.splits if_splits)

definition granted_count :: "auth_event list \<Rightarrow> string \<Rightarrow> nat" where
  "granted_count events t = length (filter (\<lambda>e. case e of Granted c u x \<Rightarrow> u = t | _ \<Rightarrow> False) events)"

definition redeemed_count :: "auth_event list \<Rightarrow> string \<Rightarrow> nat" where
  "redeemed_count events t = length (filter (\<lambda>e. case e of Redeemed u x \<Rightarrow> u = t | _ \<Rightarrow> False) events)"

text \<open>How many tasks and results satisfy a predicate.\<close>

definition how_many :: "('a \<Rightarrow> bool) \<Rightarrow> 'a multiset \<Rightarrow> nat" where
  "how_many P M = size (filter_mset P M)"

lemma how_many_add [simp]: "how_many P (add_mset x M) = how_many P M + (if P x then 1 else 0)"
  by (simp add: how_many_def)

lemma how_many_empty [simp]: "how_many P {#} = 0"
  by (simp add: how_many_def)

definition pending_logins :: "connection \<Rightarrow> auth_core \<Rightarrow> nat" where
  "pending_logins c s = how_many (login_task_of c) (co_tasks s) + how_many (login_done_of c) (co_done s)"

definition login_flow :: "nat \<Rightarrow> auth_core \<Rightarrow> bool" where
  "login_flow limit s \<longleftrightarrow>
     (\<forall>c. pending_logins c s = (if co_busy s c then 1 else 0)) \<and>
     co_jobs s = how_many is_login (co_tasks s) \<and> co_jobs s \<le> limit"

definition trusted :: "AuthBackend set \<Rightarrow> auth_core \<Rightarrow> bool" where
  "trusted B s \<longleftrightarrow>
     (\<forall>c r l p. LoginTask c r l p \<in># co_tasks s \<longrightarrow> Presented c l p \<in> set (co_log s)) \<and>
     (\<forall>t c a. t \<in># co_tasks s \<longrightarrow> task_account t = Some (c, a) \<longrightarrow> co_owner s c = Some a) \<and>
     (\<forall>c r x. LoginDone c r x \<in># co_done s \<longrightarrow> aar_status x = AA_Success \<longrightarrow>
        (\<exists>a. aar_accountId x = Some a \<and> proved B (co_log s) c a)) \<and>
     (\<forall>c a. co_owner s c = Some a \<longrightarrow> proved B (co_log s) c a)"

definition tickets_ok :: "AuthBackend set \<Rightarrow> auth_core \<Rightarrow> bool" where
  "tickets_ok B s \<longleftrightarrow>
     (\<forall>c t x. Granted c t x \<in> set (co_log s) \<longrightarrow>
        co_owner s c = Some (ac_accountId x) \<and> (\<exists>be \<in> B. ab_OwnsPlayer be (ac_accountId x) (ac_playerId x) = Inr True)) \<and>
     (\<forall>t a p e. co_rows s t = Some (a, p, e) \<longrightarrow>
        (\<exists>c x. Granted c t x \<in> set (co_log s) \<and> a = to_int64 (ac_accountId x) \<and> p = to_int64 (ac_playerId x))) \<and>
     (\<forall>t x. Redeemed t x \<in> set (co_log s) \<longrightarrow> (\<exists>c. Granted c t x \<in> set (co_log s))) \<and>
     (\<forall>t. redeemed_count (co_log s) t + (if co_rows s t = None then 0 else 1) \<le> granted_count (co_log s) t)"

definition core_inv :: "AuthBackend set \<Rightarrow> nat \<Rightarrow> auth_core \<Rightarrow> bool" where
  "core_inv B limit s \<longleftrightarrow> login_flow limit s \<and> trusted B s \<and> tickets_ok B s"

lemma other_task: "\<not> is_login t \<Longrightarrow> \<not> login_task_of c t" by (cases t) auto
lemma other_done: "\<not> is_login_done x \<Longrightarrow> \<not> login_done_of c x" by (cases x) auto
lemma account_task: "task_account t = Some y \<Longrightarrow> \<not> is_login t" by (cases t) auto

lemma login_flowI:
  assumes "\<And>d. pending_logins d s = (if co_busy s d then 1 else 0)" "co_jobs s = how_many is_login (co_tasks s)" "co_jobs s \<le> limit"
  shows "login_flow limit s"
  using assms by (simp add: login_flow_def)

lemma core_login_flow:
  assumes "core_step B dummy limit s s'" "login_flow limit s"
  shows "login_flow limit s'"
proof -
  have flow: "pending_logins c s = (if co_busy s c then 1 else 0)" for c using assms(2) by (simp add: login_flow_def)
  have jobs: "co_jobs s = how_many is_login (co_tasks s)" "co_jobs s \<le> limit" using assms(2) by (simp_all add: login_flow_def)
  show ?thesis using assms(1)
  proof cases
    case (core_refuse c x r l p)
    have "pending_logins d s' = (if co_busy s' d then 1 else 0)" for d
      using flow [of d] core_refuse(1,2) by (cases "d = c") (simp_all add: pending_logins_def split: if_splits)
    with jobs core_refuse(1) show ?thesis by (intro login_flowI) simp_all
  next
    case (core_login c r l p)
    have "pending_logins d s' = (if co_busy s' d then 1 else 0)" for d
      using flow [of d] core_login(1,2) by (cases "d = c") (simp_all add: pending_logins_def split: if_splits)
    with jobs core_login(1,3) show ?thesis by (intro login_flowI) simp_all
  next
    case (core_check c r l p be)
    obtain M where M: "co_tasks s = add_mset (LoginTask c r l p) M" using core_check(2) by (auto dest: multi_member_split)
    have "pending_logins d s' = (if co_busy s' d then 1 else 0)" for d
      using flow [of d] core_check(1) by (simp add: pending_logins_def M)
    with jobs core_check(1) show ?thesis by (intro login_flowI) (simp_all add: M)
  next
    case (core_login_done c r x)
    obtain M where M: "co_done s = add_mset (LoginDone c r x) M" using core_login_done(2) by (auto dest: multi_member_split)
    have none: "how_many (login_task_of c) (co_tasks s) = 0 \<and> how_many (login_done_of c) M = 0"
      using flow [of c] by (simp add: M pending_logins_def split: if_splits)
    have "pending_logins d s' = (if co_busy s' d then 1 else 0)" for d
      using flow [of d] none core_login_done(1) by (cases "d = c") (simp_all add: M pending_logins_def)
    with jobs core_login_done(1) show ?thesis by (intro login_flowI) simp_all
  next
    case (core_work t x)
    obtain M where "co_tasks s = add_mset t M" using core_work(2) by (auto dest: multi_member_split)
    with core_work assms(2) show ?thesis by (simp add: login_flow_def pending_logins_def other_task other_done)
  next
    case (core_grant c r a p be t x e)
    obtain M where "co_tasks s = add_mset (SelectTask c r a p) M" using core_grant(2) by (auto dest: multi_member_split)
    with core_grant assms(2) show ?thesis by (simp add: login_flow_def pending_logins_def)
  next
    case (core_done x)
    obtain M where "co_done s = add_mset x M" using core_done(2) by (auto dest: multi_member_split)
    with core_done assms(2) show ?thesis by (simp add: login_flow_def pending_logins_def other_done)
  qed (use assms(2) in \<open>simp_all add: login_flow_def pending_logins_def other_task other_done account_task\<close>)
qed

lemma new_owner_keeps: "owner = Some a \<Longrightarrow> new_owner x owner = Some a"
  by (simp add: new_owner_def MarkAuthenticated_def)

lemma new_owner_new:
  "new_owner x owner = Some a \<Longrightarrow> owner = Some a \<or> aar_status x = AA_Success \<and> aar_accountId x = Some a"
  by (auto simp: new_owner_def MarkAuthenticated_def split: if_splits)

lemma core_trusted:
  assumes "core_step B dummy limit s s'" "trusted B s"
  shows "trusted B s'"
  using assms
proof cases
  case (core_check c r l p be)
  have "proved B (co_log s) c a" if "aar_status (authentication_work be dummy l p) = AA_Success"
    "aar_accountId (authentication_work be dummy l p) = Some a" for a
    using authentication_work_Success [OF that(1)] that(2) core_check assms(2)
    by (fastforce simp: proved_def trusted_def)
  with core_check assms(2) authentication_work_Success [of be dummy l p] show ?thesis
    by (auto simp: trusted_def dest: in_diffD)
next
  case (core_login_done c r x)
  have "proved B (co_log s) c a" if "new_owner x (co_owner s c) = Some a" for a
    using new_owner_new [OF that] core_login_done(2) assms(2) by (fastforce simp: trusted_def)
  with core_login_done assms(2) new_owner_keeps show ?thesis
    by (fastforce simp: trusted_def dest: in_diffD)
next
  case (core_grant c r a p be t x e)
  with assms(2) show ?thesis by (fastforce simp: trusted_def intro: proved_mono dest: in_diffD)
next
  case (core_redeem t a p e)
  with assms(2) show ?thesis by (fastforce simp: trusted_def intro: proved_mono)
next
  case (core_login c r l p)
  with assms(2) show ?thesis by (fastforce simp: trusted_def intro: proved_mono)
next
  case (core_refuse c x r l p)
  with assms(2) show ?thesis by (fastforce simp: trusted_def intro: proved_mono)
next
  case (core_present c l p)
  with assms(2) show ?thesis by (fastforce simp: trusted_def intro: proved_mono)
next
  case (core_task t c a)
  with assms(2) show ?thesis by (auto simp: trusted_def)
next
  case (core_answer x)
  with assms(2) show ?thesis by (auto simp: trusted_def)
next
  case (core_work t x)
  with assms(2) show ?thesis by (auto simp: trusted_def dest: in_diffD)
next
  case (core_done x)
  with assms(2) show ?thesis by (auto simp: trusted_def dest: in_diffD)
qed (auto simp: trusted_def)

lemma counts_snoc [simp]:
  "granted_count (events @ [e]) t = granted_count events t + (case e of Granted c u x \<Rightarrow> if u = t then 1 else 0 | _ \<Rightarrow> 0)"
  "redeemed_count (events @ [e]) t = redeemed_count events t + (case e of Redeemed u x \<Rightarrow> if u = t then 1 else 0 | _ \<Rightarrow> 0)"
  by (auto simp: granted_count_def redeemed_count_def split: auth_event.splits)

lemma tickets_okD:
  assumes "tickets_ok B s"
  shows "Granted c t x \<in> set (co_log s) \<Longrightarrow> co_owner s c = Some (ac_accountId x)"
    and "Granted c t x \<in> set (co_log s) \<Longrightarrow> \<exists>be \<in> B. ab_OwnsPlayer be (ac_accountId x) (ac_playerId x) = Inr True"
    and "co_rows s t = Some (a, p, e) \<Longrightarrow>
      \<exists>c x. Granted c t x \<in> set (co_log s) \<and> a = to_int64 (ac_accountId x) \<and> p = to_int64 (ac_playerId x)"
    and "Redeemed t x \<in> set (co_log s) \<Longrightarrow> \<exists>c. Granted c t x \<in> set (co_log s)"
    and "redeemed_count (co_log s) t \<le> granted_count (co_log s) t"
    and "co_rows s t \<noteq> None \<Longrightarrow> redeemed_count (co_log s) t < granted_count (co_log s) t"
proof -
  have "redeemed_count (co_log s) t + (if co_rows s t = None then 0 else 1) \<le> granted_count (co_log s) t"
    using assms unfolding tickets_ok_def by blast
  then show "redeemed_count (co_log s) t \<le> granted_count (co_log s) t"
    and "co_rows s t \<noteq> None \<Longrightarrow> redeemed_count (co_log s) t < granted_count (co_log s) t" by auto
qed (use assms in \<open>unfold tickets_ok_def, blast+\<close>)

lemma core_tickets:
  assumes "core_step B dummy limit s s'" "trusted B s" "tickets_ok B s"
  shows "tickets_ok B s'"
  using assms(1)
proof cases
  case (core_login_done c r x)
  have "co_owner s' d = Some a" if "co_owner s d = Some a" for d a
    using that core_login_done(1) by (auto simp: new_owner_keeps)
  with tickets_okD [OF assms(3)] assms(3) core_login_done(1) show ?thesis by (simp add: tickets_ok_def)
next
  case (core_grant c r a p be t x e)
  have owner: "co_owner s c = Some a" using core_grant(2) assms(2) by (fastforce simp: trusted_def)
  note old = tickets_okD [OF assms(3)]
  show ?thesis unfolding tickets_ok_def
  proof (intro conjI allI impI)
    show "co_owner s' d = Some (ac_accountId y)" "\<exists>be \<in> B. ab_OwnsPlayer be (ac_accountId y) (ac_playerId y) = Inr True"
      if "Granted d u y \<in> set (co_log s')" for d u y
      using that core_grant owner old(1,2) by auto
    show "\<exists>d y. Granted d u y \<in> set (co_log s') \<and> b = to_int64 (ac_accountId y) \<and> q = to_int64 (ac_playerId y)"
      if "co_rows s' u = Some (b, q, f)" for u b q f
      using that core_grant(1) old(3) [of u b q f] by (fastforce split: if_splits)
    show "\<exists>d. Granted d u y \<in> set (co_log s')" if "Redeemed u y \<in> set (co_log s')" for u y
      using that core_grant(1) old(4) by auto
    show "redeemed_count (co_log s') u + (if co_rows s' u = None then 0 else 1) \<le> granted_count (co_log s') u" for u
      using core_grant(1) old(5,6) [of u] by (auto simp: Suc_le_eq)
  qed
next
  case (core_redeem t a p e)
  note old = tickets_okD [OF assms(3)]
  from old(3) [OF core_redeem(2)] obtain c x where
    g: "Granted c t x \<in> set (co_log s)" "a = to_int64 (ac_accountId x)" "p = to_int64 (ac_playerId x)" by blast
  have x: "\<lparr>ac_accountId = to_uint64 a, ac_playerId = to_uint64 p\<rparr> = x" using g by simp
  show ?thesis unfolding tickets_ok_def
  proof (intro conjI allI impI)
    show "co_owner s' d = Some (ac_accountId y)" "\<exists>be \<in> B. ab_OwnsPlayer be (ac_accountId y) (ac_playerId y) = Inr True"
      if "Granted d u y \<in> set (co_log s')" for d u y
      using that core_redeem(1) old(1,2) by auto
    show "\<exists>d y. Granted d u y \<in> set (co_log s') \<and> b = to_int64 (ac_accountId y) \<and> q = to_int64 (ac_playerId y)"
      if "co_rows s' u = Some (b, q, f)" for u b q f
      using that core_redeem(1) old(3) [of u b q f] by (auto split: if_splits)
    show "\<exists>d. Granted d u y \<in> set (co_log s')" if "Redeemed u y \<in> set (co_log s')" for u y
      using that core_redeem(1) old(4) g(1) x by auto
    show "redeemed_count (co_log s') u + (if co_rows s' u = None then 0 else 1) \<le> granted_count (co_log s') u" for u
      using core_redeem old(5,6) [of u] by (auto simp: Suc_le_eq)
  qed
next
  case (core_drop t)
  note old = tickets_okD [OF assms(3)]
  have "redeemed_count (co_log s') u + (if co_rows s' u = None then 0 else 1) \<le> granted_count (co_log s') u" for u
    using core_drop old(5,6) [of u] by (auto simp: Suc_le_eq)
  with core_drop assms(3) show ?thesis by (simp add: tickets_ok_def)
qed (use assms(3) in \<open>auto simp: tickets_ok_def\<close>)

lemma core_inv_step: "core_step B dummy limit s s' \<Longrightarrow> core_inv B limit s \<Longrightarrow> core_inv B limit s'"
  unfolding core_inv_def using core_login_flow core_trusted core_tickets by blast

section \<open>Runs of the server\<close>

inductive auth_server_step ::
    "AuthBackend set \<Rightarrow> 'db ticket_table \<Rightarrow> string \<Rightarrow> int \<Rightarrow> LoginAttemptLimiterOptions \<Rightarrow> GameServerAddress \<Rightarrow>
     auth_parser \<Rightarrow> auth_serializer \<Rightarrow> 'db AuthServer \<Rightarrow> 'db AuthServer \<Rightarrow> bool"
  for B sql dummy life opts gameServer parse serialize where
  as_request: "auth_server_step B sql dummy life opts gameServer parse serialize s
    (snd (auth_DispatchAsync parse serialize gameServer opts now posted c request s))"
| as_begin: "n < length (de_queued (as_executor s)) \<Longrightarrow>
    auth_server_step B sql dummy life opts gameServer parse serialize s
      (s\<lparr>as_executor := begin_task startedAt n (as_executor s)\<rparr>)"
| as_work: "n < length (de_active (as_executor s)) \<Longrightarrow> be \<in> B \<Longrightarrow>
    auth_server_step B sql dummy life opts gameServer parse serialize s
      (finish_task sql dummy life be nowUnix randomBytes completedAt n s)"
| as_complete: "n < length (as_posted s) \<Longrightarrow>
    auth_server_step B sql dummy life opts gameServer parse serialize s (run_completion serialize gameServer n s)"
| as_redeem: "auth_server_step B sql dummy life opts gameServer parse serialize s (redeem sql unixSeconds ticket s)"
| as_drain: "auth_server_step B sql dummy life opts gameServer parse serialize s
    (s\<lparr>as_executor := snd (begin_drain (as_executor s))\<rparr>)"
| as_join: "de_stopping (as_executor s) \<Longrightarrow> de_queued (as_executor s) = [] \<Longrightarrow> de_active (as_executor s) = [] \<Longrightarrow>
    auth_server_step B sql dummy life opts gameServer parse serialize s (s\<lparr>as_executor := end_drain (as_executor s)\<rparr>)"

text \<open>The server starts with fresh dispatchers, one for every connection there will be, and its own database.\<close>

definition auth_server_initial ::
    "LoginAttemptLimiterOptions \<Rightarrow> GameServerAddress \<Rightarrow> ('db \<Rightarrow> string \<Rightarrow> ticket_row option) \<Rightarrow> 'db AuthServer \<Rightarrow> bool" where
  "auth_server_initial opts gameServer view s \<longleftrightarrow>
     make_LoginAttemptLimiter opts = Some (as_limiter s) \<and>
     (\<exists>workers queue. make_DatabaseExecutor workers queue = Inr (as_executor s)) \<and>
     as_posted s = [] \<and> as_log s = [] \<and> as_responses s = [] \<and> view (as_db s) = Map.empty \<and>
     (\<exists>d address. make_AuthPacketDispatcher gameServer = Inr d \<and>
        as_dispatchers s = (\<lambda>c. SetClientAddress (address c) d))"

inductive auth_server_reachable ::
    "AuthBackend set \<Rightarrow> 'db ticket_table \<Rightarrow> string \<Rightarrow> int \<Rightarrow> LoginAttemptLimiterOptions \<Rightarrow> GameServerAddress \<Rightarrow>
     auth_parser \<Rightarrow> auth_serializer \<Rightarrow> ('db \<Rightarrow> string \<Rightarrow> ticket_row option) \<Rightarrow> 'db AuthServer \<Rightarrow> bool"
  for B sql dummy life opts gameServer parse serialize view where
  as_initial: "auth_server_initial opts gameServer view s \<Longrightarrow>
    auth_server_reachable B sql dummy life opts gameServer parse serialize view s"
| as_next: "auth_server_reachable B sql dummy life opts gameServer parse serialize view s \<Longrightarrow>
    auth_server_step B sql dummy life opts gameServer parse serialize s s' \<Longrightarrow>
    auth_server_reachable B sql dummy life opts gameServer parse serialize view s'"

section \<open>The core of a server\<close>

definition tasks_of :: "auth_task DatabaseExecutor \<Rightarrow> auth_task multiset" where
  "tasks_of ex = mset (map snd (de_queued ex @ de_active ex))"

definition jobs_of :: "LoginAttemptLimiter \<Rightarrow> nat" where
  "jobs_of l = ll_concurrentPasswordJobs (ll_stats l)"

definition core_of :: "('db \<Rightarrow> string \<Rightarrow> ticket_row option) \<Rightarrow> 'db AuthServer \<Rightarrow> auth_core" where
  "core_of view s = \<lparr>co_tasks = tasks_of (as_executor s), co_done = mset (as_posted s),
     co_busy = (\<lambda>c. ad_loginInProgress (as_dispatchers s c)), co_owner = (\<lambda>c. ad_account (as_dispatchers s c)),
     co_jobs = jobs_of (as_limiter s), co_log = as_log s, co_rows = view (as_db s)\<rparr>"

lemma TryPost_tasks:
  assumes "TryPost q p (Some t) ex = (r, ex')"
  shows "tasks_of ex' = (if r = Inr True then add_mset t (tasks_of ex) else tasks_of ex)"
  using assms by (auto simp: TryPost_def tasks_of_def upd_de_def Let_def split: if_splits)

lemma remove_nth: "n < length xs \<Longrightarrow> mset (take n xs @ drop (Suc n) xs) = mset xs - {#xs ! n#}"
  by (metis add_mset_remove_trivial id_take_nth_drop mset.simps(2) mset_append union_mset_add_mset_right)

lemma remove_nth_map: "n < length xs \<Longrightarrow> mset (map f (take n xs @ drop (Suc n) xs)) = mset (map f xs) - {#f (xs ! n)#}"
  using remove_nth [of n "map f xs"] by (simp add: take_map drop_map)

lemma nth_in_map: "n < length xs \<Longrightarrow> f (xs ! n) \<in># mset (map f xs)"
  by (simp only: in_multiset_in_set set_map) auto

lemma begin_task_tasks:
  assumes "n < length (de_queued ex)"
  shows "tasks_of (begin_task startedAt n ex) = tasks_of ex"
proof -
  have "add_mset (snd (de_queued ex ! n)) (mset (map snd (take n (de_queued ex) @ drop (Suc n) (de_queued ex)))) =
      mset (map snd (de_queued ex))"
    unfolding remove_nth_map [OF assms] by (rule insert_DiffM) (rule nth_in_map [OF assms])
  from this [symmetric] show ?thesis by (simp add: tasks_of_def begin_task_def upd_de_def split_def Let_def)
qed

lemma end_task_tasks:
  assumes "n < length (de_active ex)"
  shows "snd (de_active ex ! n) \<in># tasks_of ex"
    and "tasks_of (end_task completedAt failed n ex) = tasks_of ex - {#snd (de_active ex ! n)#}"
proof -
  note mem = nth_in_map [OF assms, of snd]
  show "snd (de_active ex ! n) \<in># tasks_of ex" using mem by (simp add: tasks_of_def)
  have "tasks_of (end_task completedAt failed n ex) = mset (map snd (de_queued ex)) +
      mset (map snd (take n (de_active ex) @ drop (Suc n) (de_active ex)))"
    by (simp add: tasks_of_def end_task_def upd_de_def split_def Let_def)
  also have "\<dots> = mset (map snd (de_queued ex)) + mset (map snd (de_active ex)) - {#snd (de_active ex ! n)#}"
    unfolding remove_nth_map [OF assms] by (rule diff_union_single_conv [OF mem, symmetric])
  finally show "tasks_of (end_task completedAt failed n ex) = tasks_of ex - {#snd (de_active ex ! n)#}"
    by (simp add: tasks_of_def)
qed

lemma TryAcquire_jobs:
  assumes "TryAcquire opts now a l li = (st, li')"
  shows "if st = Accepted then jobs_of li < lo_maxConcurrentPasswordJobs opts \<and> jobs_of li' = jobs_of li + 1
    else jobs_of li' = jobs_of li"
  using assms by (auto simp: TryAcquire_def jobs_of_def Let_def split_def split: if_splits)

lemma release_permit_jobs [simp]: "jobs_of (release_permit li) = jobs_of li - 1"
  by (simp add: release_permit_def jobs_of_def Let_def)

lemma core_of_simps [simp]:
  "core_of view (PostCompletion x s) = (core_of view s)\<lparr>co_done := add_mset x (mset (as_posted s))\<rparr>"
  "core_of view (give_response c y s) = core_of view s"
  "core_of view (note_event e s) = (core_of view s)\<lparr>co_log := as_log s @ [e]\<rparr>"
  "core_of view (upd_dispatcher c f s) = (core_of view s)\<lparr>
     co_busy := (\<lambda>c. ad_loginInProgress (as_dispatchers s c))(c := ad_loginInProgress (f (as_dispatchers s c))),
     co_owner := (\<lambda>c. ad_account (as_dispatchers s c))(c := ad_account (f (as_dispatchers s c)))\<rparr>"
  "core_of view (s\<lparr>as_executor := ex\<rparr>) = (core_of view s)\<lparr>co_tasks := tasks_of ex\<rparr>"
  "core_of view (s\<lparr>as_limiter := li\<rparr>) = (core_of view s)\<lparr>co_jobs := jobs_of li\<rparr>"
  "core_of view (s\<lparr>as_posted := q\<rparr>) = (core_of view s)\<lparr>co_done := mset q\<rparr>"
  "core_of view (s\<lparr>as_db := db\<rparr>) = (core_of view s)\<lparr>co_rows := view db\<rparr>"
  by (auto simp: core_of_def PostCompletion_def give_response_def note_event_def upd_dispatcher_def fun_eq_iff)

lemma core_of_sel [simp]:
  "co_tasks (core_of view s) = tasks_of (as_executor s)" "co_done (core_of view s) = mset (as_posted s)"
  "co_busy (core_of view s) c = ad_loginInProgress (as_dispatchers s c)"
  "co_owner (core_of view s) c = ad_account (as_dispatchers s c)"
  "co_jobs (core_of view s) = jobs_of (as_limiter s)" "co_log (core_of view s) = as_log s"
  "co_rows (core_of view s) = view (as_db s)"
  by (simp_all add: core_of_def)

text \<open>The three ways in which a login is submitted.\<close>

lemma submit_login_core:
  assumes "submit_login opts now posted c r address l p s = (res, s')"
  obtains (refused) x where "aar_status x \<noteq> AA_Success" "res = Inr ()"
      "core_of view s' = (core_of view s)\<lparr>co_done := add_mset (LoginDone c r x) (mset (as_posted s))\<rparr>"
  | (queued) "res = Inr ()" "jobs_of (as_limiter s) < lo_maxConcurrentPasswordJobs opts"
      "core_of view s' = (core_of view s)\<lparr>co_tasks := add_mset (LoginTask c r l p) (tasks_of (as_executor s)),
         co_jobs := jobs_of (as_limiter s) + 1\<rparr>"
  | (failed) e where "res = Inl e" "core_of view s' = core_of view s"
proof (cases "\<not> IsValidAccountLoginId l \<or> \<not> IsValidPasswordInput p")
  case True
  with assms show ?thesis
    by (intro refused [of "\<lparr>aar_status = AA_InvalidCredentials, aar_accountId = None\<rparr>"]) (auto simp: submit_login_def)
next
  case False
  obtain st li where a: "TryAcquire opts now address l (as_limiter s) = (st, li)" by fastforce
  obtain q ex where t: "TryPost now posted (Some (LoginTask c r l p)) (as_executor s) = (q, ex)" by fastforce
  note jobs = TryAcquire_jobs [OF a] and tasks = TryPost_tasks [OF t]
  show ?thesis
  proof (cases "st = Accepted")
    case False
    let ?x = "\<lparr>aar_status = (if st = RateLimited then AA_RateLimited else AA_ServiceBusy), aar_accountId = None\<rparr>"
    from False \<open>\<not> (\<not> IsValidAccountLoginId l \<or> \<not> IsValidPasswordInput p)\<close> assms a jobs
    show ?thesis by (intro refused [of ?x]) (auto simp: submit_login_def core_of_def PostCompletion_def)
  next
    case True
    note ok = \<open>\<not> (\<not> IsValidAccountLoginId l \<or> \<not> IsValidPasswordInput p)\<close>
    show ?thesis
    proof (cases q)
      case (Inl e)
      with ok True assms a t jobs tasks show ?thesis
        by (intro failed [of "AuthExecutorError e"]) (auto simp: submit_login_def core_of_def)
    next
      case (Inr b)
      show ?thesis
      proof (cases b)
        case True
        with Inr ok \<open>st = Accepted\<close> assms a t jobs tasks show ?thesis
          by (intro queued) (auto simp: submit_login_def core_of_def)
      next
        case False
        with Inr ok \<open>st = Accepted\<close> assms a t jobs tasks show ?thesis
          by (intro refused [of "\<lparr>aar_status = AA_ServiceBusy, aar_accountId = None\<rparr>"])
            (auto simp: submit_login_def core_of_def PostCompletion_def)
      qed
    qed
  qed
qed

lemma request_login_core:
  "core_step B dummy (lo_maxConcurrentPasswordJobs opts) (core_of view s)
     (core_of view (snd (HandleLoginRequestAsync parse opts now posted c request s)))"
proof (cases "ad_loginInProgress (as_dispatchers s c)")
  case True
  then show ?thesis by (simp add: HandleLoginRequestAsync_def core_idle)
next
  case False
  define s1 where "s1 = upd_dispatcher c (\<lambda>d. d\<lparr>ad_loginInProgress := True\<rparr>) s"
  have core1: "core_of view s1 = (core_of view s)\<lparr>co_busy := (co_busy (core_of view s))(c := True)\<rparr>"
    by (simp add: s1_def core_of_def upd_dispatcher_def fun_eq_iff)
  have reset: "core_of view (upd_dispatcher c (\<lambda>d. d\<lparr>ad_loginInProgress := False\<rparr>) u) =
      (core_of view u)\<lparr>co_busy := (co_busy (core_of view u))(c := False)\<rparr>" for u :: "'a AuthServer"
    by (simp add: core_of_def upd_dispatcher_def fun_eq_iff)
  have undone: "(co_busy (core_of view s))(c := False) = co_busy (core_of view s)" using False by (auto simp: fun_eq_iff)
  show ?thesis
  proof (cases "DecodeAuthPayload parse as_AuthLoginRequest (payload request)")
    case (Inl e)
    then have "snd (HandleLoginRequestAsync parse opts now posted c request s) =
        upd_dispatcher c (\<lambda>d. d\<lparr>ad_loginInProgress := False\<rparr>) s1"
      using False by (simp add: HandleLoginRequestAsync_def Let_def flip: s1_def)
    then have "core_of view (snd (HandleLoginRequestAsync parse opts now posted c request s)) = core_of view s"
      using undone by (simp add: reset core1 del: core_of_simps)
    then show ?thesis by (simp only: core_idle)
  next
    case (Inr lp)
    obtain l p where lp: "lp = (l, p)" by (cases lp)
    define s2 where "s2 = note_event (Presented c l p) s1"
    obtain res s3 where sub: "submit_login opts now posted c (requestId (header request))
        (ad_clientAddress (as_dispatchers s1 c)) l p s2 = (res, s3)" by fastforce
    have result: "snd (HandleLoginRequestAsync parse opts now posted c request s) =
        (case res of Inl e \<Rightarrow> upd_dispatcher c (\<lambda>d. d\<lparr>ad_loginInProgress := False\<rparr>) s3 | Inr u \<Rightarrow> s3)"
      using False Inr lp sub by (simp add: HandleLoginRequestAsync_def Let_def flip: s1_def s2_def split: sum.splits)
    have core2: "core_of view s2 = (core_of view s)\<lparr>co_busy := (co_busy (core_of view s))(c := True),
        co_log := as_log s @ [Presented c l p]\<rparr>"
      by (simp add: s2_def core1) (simp add: s1_def upd_dispatcher_def)
    have same: "as_posted s2 = as_posted s" "as_executor s2 = as_executor s" "as_limiter s2 = as_limiter s"
      by (simp_all add: s2_def s1_def note_event_def upd_dispatcher_def)
    show ?thesis using sub
    proof (cases rule: submit_login_core [where view = view])
      case (refused x)
      with core_refuse [where s = "core_of view s" and c = c and x = x and l = l and p = p and B = B and dummy = dummy] False show ?thesis
        by (simp add: result core2 same)
    next
      case queued
      with core_login [where s = "core_of view s" and c = c and l = l and p = p and B = B and dummy = dummy] False show ?thesis
        by (simp add: result core2 same)
    next
      case (failed e)
      with core_present [where s = "core_of view s" and c = c and l = l and p = p and B = B and dummy = dummy] show ?thesis
        by (simp add: result core2 reset undone del: core_of_simps)
    qed
  qed
qed

lemma TryPost_core:
  assumes "TryPost now posted (Some t) (as_executor s) = (r, ex)" "task_account t = Some (c, a)"
    and "ad_account (as_dispatchers s c) = Some a"
  shows "core_step B dummy limit (core_of view s) (core_of view (s\<lparr>as_executor := ex\<rparr>))"
    and "r \<noteq> Inr True \<Longrightarrow> core_of view (s\<lparr>as_executor := ex\<rparr>) = core_of view s"
proof -
  note tasks = TryPost_tasks [OF assms(1)]
  show same: "core_of view (s\<lparr>as_executor := ex\<rparr>) = core_of view s" if "r \<noteq> Inr True"
    using tasks that by (simp add: core_of_def)
  show "core_step B dummy limit (core_of view s) (core_of view (s\<lparr>as_executor := ex\<rparr>))"
  proof (cases "r = Inr True")
    case True
    with tasks core_task [of t c a "core_of view s" B dummy limit] assms show ?thesis by simp
  qed (simp add: same core_idle del: core_of_simps)
qed

lemma answer_core:
  "\<not> is_login_done x \<Longrightarrow> core_step B dummy limit (core_of view s) (core_of view (PostCompletion x s))"
  using core_answer [of x B dummy limit "core_of view s"] by simp

text \<open>What \<open>LoadCharacters\<close> and \<open>SelectCharacter\<close> do once the arguments are valid.\<close>

lemma submit_core:
  assumes "task_account t = Some (c, a)" "ad_account (as_dispatchers s c) = Some a" "\<not> is_login_done x"
    and "TryPost now posted (Some t) (as_executor s) = (q, ex)"
  shows "core_step B dummy limit (core_of view s)
    (core_of view (if q = Inr False then PostCompletion x (s\<lparr>as_executor := ex\<rparr>) else s\<lparr>as_executor := ex\<rparr>))"
proof (cases "q = Inr False")
  case True
  then have same: "core_of view (s\<lparr>as_executor := ex\<rparr>) = core_of view s"
    using TryPost_core(2) [OF assms(4,1,2)] by simp
  show ?thesis using True answer_core [OF assms(3), of B dummy limit view "s\<lparr>as_executor := ex\<rparr>"] unfolding same by simp
next
  case False
  with TryPost_core(1) [OF assms(4,1,2)] show ?thesis by simp
qed

lemma LoadCharacters_core:
  assumes "ad_account (as_dispatchers s c) = Some a"
  shows "core_step B dummy limit (core_of view s) (core_of view (snd (LoadCharacters now posted c r a s)))"
proof (cases "a = 0")
  case True
  then show ?thesis by (simp add: LoadCharacters_def answer_core del: core_of_simps)
next
  case False
  obtain q ex where t: "TryPost now posted (Some (ListTask c r a)) (as_executor s) = (q, ex)" by fastforce
  let ?x = "ListDone c r \<lparr>clr_status = CL_ServiceBusy, clr_characters = []\<rparr>"
  have "snd (LoadCharacters now posted c r a s) =
      (if q = Inr False then PostCompletion ?x (s\<lparr>as_executor := ex\<rparr>) else s\<lparr>as_executor := ex\<rparr>)"
    using False t by (auto simp: LoadCharacters_def split: sum.splits)
  with submit_core [OF _ assms _ t, of ?x B dummy limit view] show ?thesis by simp
qed

lemma SelectCharacter_core:
  assumes "ad_account (as_dispatchers s c) = Some a"
  shows "core_step B dummy limit (core_of view s) (core_of view (snd (SelectCharacter now posted c r a p s)))"
proof (cases "a = 0 \<or> p = 0")
  case True
  then show ?thesis by (simp add: SelectCharacter_def answer_core del: core_of_simps)
next
  case False
  obtain q ex where t: "TryPost now posted (Some (SelectTask c r a p)) (as_executor s) = (q, ex)" by fastforce
  let ?x = "SelectDone c r \<lparr>csr_status = CS_ServiceBusy, csr_authTicket = None\<rparr>"
  have "snd (SelectCharacter now posted c r a p s) =
      (if q = Inr False then PostCompletion ?x (s\<lparr>as_executor := ex\<rparr>) else s\<lparr>as_executor := ex\<rparr>)"
    using False t by (auto simp: SelectCharacter_def split: sum.splits)
  with submit_core [OF _ assms _ t, of ?x B dummy limit view] show ?thesis by simp
qed

lemma request_core:
  "core_step B dummy (lo_maxConcurrentPasswordJobs opts) (core_of view s)
     (core_of view (snd (auth_DispatchAsync parse serialize gameServer opts now posted c request s)))"
  using request_login_core [of B dummy opts view s parse now posted c request] LoadCharacters_core SelectCharacter_core
  by (auto simp: auth_DispatchAsync_def HandleCharacterListRequestAsync_def HandleCharacterSelectionRequestAsync_def
      Let_def core_idle split: sum.splits option.splits)

text \<open>Running a posted handler.\<close>

lemma login_completed_core:
  "core_of view (login_completed serialize c r x s) = (core_of view s)\<lparr>co_busy := (co_busy (core_of view s))(c := False),
     co_owner := (co_owner (core_of view s))(c := new_owner x (ad_account (as_dispatchers s c)))\<rparr>"
  by (auto simp: login_completed_def login_protocol_result_def new_owner_def core_of_def give_response_def
      upd_dispatcher_def Let_def split_def fun_eq_iff split: AccountAuthenticationStatus.splits option.splits)

lemma completion_core:
  assumes "n < length (as_posted s)"
  shows "core_step B dummy limit (core_of view s) (core_of view (run_completion serialize gameServer n s))"
proof -
  have mem: "as_posted s ! n \<in># co_done (core_of view s)" using assms by simp
  have rest: "mset (take n (as_posted s) @ drop (Suc n) (as_posted s)) = co_done (core_of view s) - {#as_posted s ! n#}"
    unfolding remove_nth [OF assms] by simp
  show ?thesis
  proof (cases "as_posted s ! n")
    case (LoginDone c r x)
    with core_login_done [of c r x "core_of view s" B dummy limit] mem rest show ?thesis
      by (simp add: run_completion_def login_completed_core)
  next
    case (ListDone c r x)
    with core_done [of "ListDone c r x" "core_of view s" B dummy limit] mem rest show ?thesis
      by (simp add: run_completion_def list_completed_def Let_def)
  next
    case (SelectDone c r x)
    with core_done [of "SelectDone c r x" "core_of view s" B dummy limit] mem rest show ?thesis
      by (simp add: run_completion_def selection_completed_def Let_def split_def)
  qed
qed

definition initial_auth_core :: auth_core where
  "initial_auth_core = \<lparr>co_tasks = {#}, co_done = {#}, co_busy = (\<lambda>c. False), co_owner = (\<lambda>c. None), co_jobs = 0,
     co_log = [], co_rows = Map.empty\<rparr>"

lemma core_inv_initial: "core_inv B limit initial_auth_core"
  by (simp add: initial_auth_core_def core_inv_def login_flow_def pending_logins_def trusted_def tickets_ok_def
      granted_count_def redeemed_count_def)

lemma initial_core:
  assumes "auth_server_initial opts gameServer view s"
  shows "core_of view s = initial_auth_core"
proof -
  have "tasks_of (as_executor s) = {#}"
    using assms by (auto simp: auth_server_initial_def make_DatabaseExecutor_def tasks_of_def split: if_splits dest!: sym [of _ "as_executor s"])
  moreover have "jobs_of (as_limiter s) = 0"
    using assms by (auto simp: auth_server_initial_def make_LoginAttemptLimiter_def jobs_of_def split: if_splits dest!: sym [of _ "as_limiter s"])
  ultimately show ?thesis using assms
    by (auto simp: core_of_def initial_auth_core_def auth_server_initial_def make_AuthPacketDispatcher_def SetClientAddress_def
        split: if_splits)
qed

context ticket_sql
begin

text \<open>Running a task.\<close>

lemma selection_core:
  assumes "SelectTask c r a p \<in># tasks_of (as_executor s)" "be \<in> B"
    and "selection_work sql be life now rnd a p (as_db s) = (res, db)"
    and "tasks_of ex = tasks_of (as_executor s) - {#SelectTask c r a p#}"
  shows "core_step B dummy limit (core_of view s)
    (core_of view ((case csr_authTicket res of
         None \<Rightarrow> PostCompletion (SelectDone c r res) (s\<lparr>as_db := db\<rparr>)
       | Some t \<Rightarrow> note_event (Granted c (iat_ticket t) \<lparr>ac_accountId = a, ac_playerId = p\<rparr>)
           (PostCompletion (SelectDone c r res) (s\<lparr>as_db := db\<rparr>)))\<lparr>as_executor := ex\<rparr>))"
proof -
  let ?ctx = "\<lparr>ac_accountId = a, ac_playerId = p\<rparr>"
  obtain q where q: "Issue sql (ab_OwnsPlayer be) life now rnd ?ctx (as_db s) = (q, db)"
    "csr_authTicket res = (case q of Inl e \<Rightarrow> None | Inr i \<Rightarrow> i)"
    using assms(3) by (auto simp: selection_work_def split: prod.splits sum.splits)
  show ?thesis
  proof (cases "csr_authTicket res")
    case None
    then have "\<forall>i. q \<noteq> Inr (Some i)" using q(2) by auto
    with Issue_other [OF q(1)] have "view db = view (as_db s)" using issue_refused by blast
    then have "core_of view (PostCompletion (SelectDone c r res) (s\<lparr>as_db := db\<rparr>)\<lparr>as_executor := ex\<rparr>) =
        (core_of view s)\<lparr>co_tasks := tasks_of ex, co_done := add_mset (SelectDone c r res) (mset (as_posted s))\<rparr>"
      by (simp add: core_of_def PostCompletion_def)
    with None core_work [of "SelectTask c r a p" "core_of view s" "SelectDone c r res" B dummy limit] assms(1,4)
    show ?thesis by simp
  next
    case (Some i)
    then have qi: "q = Inr (Some i)" using q(2) by (auto split: sum.splits)
    from Issue_Some [OF q(1) [unfolded qi]] have owns: "ab_OwnsPlayer be a p = Inr True" and
      st: "IssueTicket sql (iat_ticket i) ?ctx (now + life) (as_db s) = (Inr True, db)" by auto
    from issue_stored [OF st] have v: "view (as_db s) (iat_ticket i) = None"
      "view db = (view (as_db s))(iat_ticket i \<mapsto> (to_int64 a, to_int64 p, now + life))" by auto
    have "core_of view (note_event (Granted c (iat_ticket i) ?ctx)
          (PostCompletion (SelectDone c r res) (s\<lparr>as_db := db\<rparr>))\<lparr>as_executor := ex\<rparr>) =
        (core_of view s)\<lparr>co_tasks := tasks_of ex, co_done := add_mset (SelectDone c r res) (mset (as_posted s)),
          co_log := as_log s @ [Granted c (iat_ticket i) ?ctx],
          co_rows := (view (as_db s))(iat_ticket i \<mapsto> (to_int64 a, to_int64 p, now + life))\<rparr>"
      by (simp add: core_of_def PostCompletion_def note_event_def v(2))
    with Some core_grant [where s = "core_of view s" and c = c and r = r and a = a and p = p and be = be and t = "iat_ticket i" and x = res and e = "now + life" and B = B and dummy = dummy and limit = limit] assms(1,2,4) owns v(1)
    show ?thesis by simp
  qed
qed

lemma work_core:
  assumes "n < length (de_active (as_executor s))" "be \<in> B"
  shows "core_step B dummy limit (core_of view s) (core_of view (finish_task sql dummy life be now rnd completedAt n s))"
proof -
  obtain startedAt task where nth: "de_active (as_executor s) ! n = (startedAt, task)" by fastforce
  note ends = end_task_tasks [OF assms(1), unfolded nth snd_conv]
  show ?thesis
  proof (cases task)
    case (LoginTask c r l p)
    with core_check [of c r l p "core_of view s" be B dummy limit] nth ends assms(2) show ?thesis
      by (simp add: finish_task_def Let_def PostCompletion_def core_of_def)
  next
    case (ListTask c r a)
    with core_work [of "ListTask c r a" "core_of view s" "ListDone c r (list_work be a)" B dummy limit] nth ends show ?thesis
      by (simp add: finish_task_def Let_def PostCompletion_def core_of_def)
  next
    case (SelectTask c r a p)
    obtain res db where w: "selection_work sql be life now rnd a p (as_db s) = (res, db)" by fastforce
    have "finish_task sql dummy life be now rnd completedAt n s =
      (case csr_authTicket res of
         None \<Rightarrow> PostCompletion (SelectDone c r res) (s\<lparr>as_db := db\<rparr>)
       | Some t \<Rightarrow> note_event (Granted c (iat_ticket t) \<lparr>ac_accountId = a, ac_playerId = p\<rparr>)
           (PostCompletion (SelectDone c r res) (s\<lparr>as_db := db\<rparr>)))\<lparr>as_executor := end_task completedAt False n (as_executor s)\<rparr>"
      using nth SelectTask w by (simp add: finish_task_def PostCompletion_def note_event_def Let_def split: option.splits)
    with selection_core [OF _ assms(2) w] ends SelectTask show ?thesis by (simp del: core_of_simps)
  qed
qed

lemma redeem_core: "core_step B dummy limit (core_of view s) (core_of view (redeem sql now t s))"
proof -
  obtain res db where c: "ConsumeTicket sql t now (as_db s) = (res, db)" by fastforce
  note v = consume_view [OF c]
  have drop: "core_step B dummy limit (core_of view s) (core_of view (s\<lparr>as_db := db\<rparr>))"
    if "view db = view (as_db s) \<or> view db = (view (as_db s))(t := None)"
    using that core_idle [of B dummy limit "core_of view s"] core_drop [of B dummy limit "core_of view s" t]
    by (auto simp: core_of_def)
  show ?thesis
  proof (cases "\<exists>x. res = Inr (Some x)")
    case False
    then have "redeem sql now t s = s\<lparr>as_db := db\<rparr>"
      using c by (auto simp: redeem_def VerifyTicket_def Let_def split: sum.splits option.splits)
    with drop v False show ?thesis by (auto split: sum.splits option.splits)
  next
    case True
    then obtain x where x: "res = Inr (Some x)" by blast
    with v obtain a p e where row: "view (as_db s) t = Some (a, p, e)" "x = \<lparr>ac_accountId = to_uint64 a, ac_playerId = to_uint64 p\<rparr>"
      "view db = (view (as_db s))(t := None)" by auto
    have "redeem sql now t s = note_event (Redeemed t x) (s\<lparr>as_db := db\<rparr>)" using c x by (simp add: redeem_def VerifyTicket_def)
    with core_redeem [of "core_of view s" t a p e B dummy limit] row show ?thesis by (simp add: core_of_def note_event_def)
  qed
qed

lemma auth_server_simulation:
  assumes "auth_server_step B sql dummy life opts gameServer parse serialize s s'"
  shows "core_step B dummy (lo_maxConcurrentPasswordJobs opts) (core_of view s) (core_of view s')"
  using assms
proof cases
  case (as_begin n startedAt)
  then have "core_of view s' = core_of view s" by (simp add: begin_task_tasks core_of_def)
  then show ?thesis by (simp only: core_idle)
next
  case as_drain
  have "core_of view s' = core_of view s"
    unfolding as_drain by (simp add: begin_drain_def tasks_of_def upd_de_def core_of_def)
  then show ?thesis by (simp only: core_idle)
next
  case as_join
  have "core_of view s' = core_of view s" unfolding as_join(1) by (simp add: end_drain_def tasks_of_def core_of_def)
  then show ?thesis by (simp only: core_idle)
qed (simp_all add: request_core work_core completion_core redeem_core)

lemma auth_server_inv:
  assumes "auth_server_reachable B sql dummy life opts gameServer parse serialize view s"
  shows "core_inv B (lo_maxConcurrentPasswordJobs opts) (core_of view s)"
  using assms
proof (induction rule: auth_server_reachable.induct)
  case (as_initial s)
  then show ?case by (simp add: initial_core core_inv_initial)
next
  case (as_next s s')
  then show ?case using auth_server_simulation core_inv_step by blast
qed

end

end
