(* ===== verification/Auth_Properties.thy ===== *)
theory Auth_Properties
  imports Auth_Runs
begin

text \<open>
  What the authentication server guarantees on every run, with a sample run from the login of an account to
  the redemption of its ticket on which the statements are applied.
\<close>

section \<open>A sample run\<close>

definition sample_account :: Account where
  "sample_account = \<lparr>acc_accountId = 5, acc_loginId = ''alice'', acc_encodedPasswordHash = ''hash''\<rparr>"

text \<open>One account with the password \<open>secret\<close> that owns player 42.\<close>

definition sample_backend :: AuthBackend where
  "sample_backend = \<lparr>
     ab_FindAccountByLoginId = \<lambda>l. Inr (if l = ''alice'' then Some sample_account else None),
     ab_FindAccount = \<lambda>a. Inr (if a = 5 then Some sample_account else None),
     ab_FindPlayerIds = \<lambda>a. Inr (if a = 5 then [42] else []),
     ab_OwnsPlayer = \<lambda>a p. Inr (a = 5 \<and> p = 42),
     ab_FindPlayer = \<lambda>p. Inr None,
     ab_Verify = \<lambda>password hash. Inr (password = ''secret'' \<and> hash = ''hash'')\<rparr>"

definition sample_auth_parse :: auth_parser where
  "sample_auth_parse bytes =
     (if bytes = [1] then Some \<lparr>am_protocol_version = 1, am_payload = Auth_LoginRequest (Some (''alice'', ''secret''))\<rparr>
      else if bytes = [2] then Some \<lparr>am_protocol_version = 1, am_payload = Auth_CharacterSelectionRequest (Some 42)\<rparr>
      else None)"

definition sample_auth_serialize :: auth_serializer where "sample_auth_serialize m = [0]"

definition sample_limits :: LoginAttemptLimiterOptions where
  "sample_limits = \<lparr>lo_maxAttemptsPerIp = 3, lo_maxAttemptsPerAccount = 3, lo_maxConcurrentPasswordJobs = 2,
     lo_maxTrackedIps = 4, lo_maxTrackedAccounts = 4, lo_attemptWindow = 60000\<rparr>"

definition sample_game_server :: GameServerAddress where
  "sample_game_server = \<lparr>gs_host = ''game'', gs_port = 7777\<rparr>"

abbreviation sample_reachable :: "list_db AuthServer \<Rightarrow> bool" where
  "sample_reachable \<equiv> auth_server_reachable {sample_backend} list_table ''dummy'' 60 sample_limits sample_game_server
     sample_auth_parse sample_auth_serialize lt_view"

definition sample_auth0 :: "list_db AuthServer" where
  "sample_auth0 = \<lparr>as_limiter = the (make_LoginAttemptLimiter sample_limits),
     as_executor = projr (make_DatabaseExecutor 1 4), as_posted = [],
     as_dispatchers = \<lambda>c. SetClientAddress ''10.0.0.1'' (projr (make_AuthPacketDispatcher sample_game_server)),
     as_db = \<lparr>lt_rows = [], lt_saved = [], lt_broken = False\<rparr>, as_responses = [], as_log = []\<rparr>"

definition sample_auth_request :: "PacketType \<Rightarrow> u8 list \<Rightarrow> Packet" where
  "sample_auth_request ty body = \<lparr>header = \<lparr>packetSize = 9, headerType = ty, requestId = 1\<rparr>, payload = body\<rparr>"

definition sample_dispatch :: "PacketType \<Rightarrow> u8 list \<Rightarrow> list_db AuthServer \<Rightarrow> list_db AuthServer" where
  "sample_dispatch ty body s = snd (auth_DispatchAsync sample_auth_parse sample_auth_serialize sample_game_server
     sample_limits 0 True 0 (sample_auth_request ty body) s)"

definition sample_begin :: "list_db AuthServer \<Rightarrow> list_db AuthServer" where
  "sample_begin s = s\<lparr>as_executor := begin_task 0 0 (as_executor s)\<rparr>"

definition sample_work :: "list_db AuthServer \<Rightarrow> list_db AuthServer" where
  "sample_work s = finish_task list_table ''dummy'' 60 sample_backend 1000 (Some (replicate 32 7)) 0 0 s"

definition sample_auth1 :: "list_db AuthServer" where "sample_auth1 = sample_dispatch 201 [1] sample_auth0"
definition sample_auth2 :: "list_db AuthServer" where "sample_auth2 = sample_work (sample_begin sample_auth1)"
definition sample_auth3 :: "list_db AuthServer" where
  "sample_auth3 = run_completion sample_auth_serialize sample_game_server 0 sample_auth2"
definition sample_auth4 :: "list_db AuthServer" where "sample_auth4 = sample_dispatch 203 [2] sample_auth3"
definition sample_auth5 :: "list_db AuthServer" where "sample_auth5 = sample_work (sample_begin sample_auth4)"

definition sample_ticket :: string where "sample_ticket = concat (replicate 32 ''07'')"

lemma sample_dispatch_reachable: "sample_reachable s \<Longrightarrow> sample_reachable (sample_dispatch ty body s)"
  unfolding sample_dispatch_def by (rule as_next [OF _ as_request])

lemma sample_worked_reachable:
  assumes "sample_reachable s" "0 < length (de_queued (as_executor s))" "0 < length (de_active (as_executor (sample_begin s)))"
  shows "sample_reachable (sample_work (sample_begin s))"
proof -
  have "sample_reachable (sample_begin s)"
    unfolding sample_begin_def by (rule as_next [OF assms(1) as_begin [OF assms(2)]])
  then show ?thesis unfolding sample_work_def by (rule as_next [OF _ as_work [OF assms(3)]]) simp
qed

lemma sample_auth0_reachable: "sample_reachable sample_auth0"
proof (rule as_initial)
  obtain l where l: "make_LoginAttemptLimiter sample_limits = Some l"
    by (auto simp: make_LoginAttemptLimiter_def limiter_options_IsValid_def sample_limits_def)
  obtain d where d: "make_AuthPacketDispatcher sample_game_server = Inr d"
    by (auto simp: make_AuthPacketDispatcher_def sample_game_server_def)
  have e: "make_DatabaseExecutor 1 4 = Inr (projr (make_DatabaseExecutor 1 4) :: auth_task DatabaseExecutor)"
    by (simp add: make_DatabaseExecutor_def)
  have "as_executor sample_auth0 = projr (make_DatabaseExecutor 1 4)" by (simp add: sample_auth0_def)
  with e have ex: "\<exists>workers queue. make_DatabaseExecutor workers queue = Inr (as_executor sample_auth0)" by metis
  show "auth_server_initial sample_limits sample_game_server lt_view sample_auth0"
    unfolding auth_server_initial_def using l d ex by (auto simp: sample_auth0_def lt_view_def)
qed

lemma sample_auth3_reachable: "sample_reachable sample_auth3"
proof -
  have 1: "sample_reachable sample_auth1"
    unfolding sample_auth1_def by (rule sample_dispatch_reachable [OF sample_auth0_reachable])
  have "0 < length (de_queued (as_executor sample_auth1))" "0 < length (de_active (as_executor (sample_begin sample_auth1)))"
    by code_simp+
  then have 2: "sample_reachable sample_auth2"
    unfolding sample_auth2_def by (rule sample_worked_reachable [OF 1])
  have "0 < length (as_posted sample_auth2)" by code_simp
  then show ?thesis unfolding sample_auth3_def by (rule as_next [OF 2 as_complete])
qed

lemma sample_auth5_reachable: "sample_reachable sample_auth5"
proof -
  have 4: "sample_reachable sample_auth4"
    unfolding sample_auth4_def by (rule sample_dispatch_reachable [OF sample_auth3_reachable])
  have "0 < length (de_queued (as_executor sample_auth4))" "0 < length (de_active (as_executor (sample_begin sample_auth4)))"
    by code_simp+
  then show ?thesis unfolding sample_auth5_def by (rule sample_worked_reachable [OF 4])
qed

section \<open>From the password to the game server\<close>

text \<open>C3. Whoever the game server admits by a ticket has proved the password: if in any state that the
  authentication server, its database threads and the game server can reach the verifier accepts a ticket for
  an account and a player, then a connection presented a login id and a password which the account repository
  and the hasher accepted for this account, the account owns the player, and the ticket was granted to that
  connection.\<close>

theorem game_login_requires_password:
  assumes "ticket_sql sql view saved"
    and "auth_server_reachable B sql dummy life opts gameServer parse serialize view s"
    and "VerifyTicket sql now t (as_db s) = (Inr (Some context), db)"
  shows "\<exists>c. Granted c t context \<in> set (as_log s) \<and> proved B (as_log s) c (ac_accountId context) \<and>
    (\<exists>be \<in> B. ab_OwnsPlayer be (ac_accountId context) (ac_playerId context) = Inr True)"
proof -
  have inv: "trusted B (core_of view s)" "tickets_ok B (core_of view s)"
    using ticket_sql.auth_server_inv [OF assms(1,2)] by (simp_all add: core_inv_def)
  from ticket_sql.consume_view [OF assms(1) assms(3) [unfolded VerifyTicket_def]] obtain a p e where
    row: "view (as_db s) t = Some (a, p, e)" "context = \<lparr>ac_accountId = to_uint64 a, ac_playerId = to_uint64 p\<rparr>" by auto
  from tickets_okD(3) [OF inv(2), of t a p e] row(1) obtain c x where
    g: "Granted c t x \<in> set (as_log s)" "a = to_int64 (ac_accountId x)" "p = to_int64 (ac_playerId x)" by auto
  with row(2) have "context = x" by simp
  with g tickets_okD(1,2) [OF inv(2), of c t x] inv(1) show ?thesis by (auto simp: trusted_def)
qed

theorem game_login_requires_password_witness:
  "\<exists>db c. VerifyTicket list_table 1001 sample_ticket (as_db sample_auth5) =
      (Inr (Some \<lparr>ac_accountId = 5, ac_playerId = 42\<rparr>), db) \<and> proved {sample_backend} (as_log sample_auth5) c 5"
proof -
  have "fst (VerifyTicket list_table 1001 sample_ticket (as_db sample_auth5)) = Inr (Some \<lparr>ac_accountId = 5, ac_playerId = 42\<rparr>)"
    by code_simp
  then obtain db where db: "VerifyTicket list_table 1001 sample_ticket (as_db sample_auth5) =
      (Inr (Some \<lparr>ac_accountId = 5, ac_playerId = 42\<rparr>), db)" by (metis prod.collapse)
  from game_login_requires_password [OF list_tickets.ticket_sql_axioms sample_auth5_reachable db] db show ?thesis by auto
qed

text \<open>C8. A granted ticket is redeemed at most once, and only for the account and the player for which it was
  granted: on every run a ticket has been redeemed at most as often as it was granted, strictly less often while
  it can still be redeemed, and every redemption names the context of a grant.\<close>

theorem tickets_redeemed_at_most_once:
  assumes "ticket_sql sql view saved"
    and "auth_server_reachable B sql dummy life opts gameServer parse serialize view s"
  shows "redeemed_count (as_log s) t + (if view (as_db s) t = None then 0 else 1) \<le> granted_count (as_log s) t \<and>
    (\<forall>context. Redeemed t context \<in> set (as_log s) \<longrightarrow> (\<exists>c. Granted c t context \<in> set (as_log s)))"
proof -
  have inv: "tickets_ok B (core_of view s)"
    using ticket_sql.auth_server_inv [OF assms] by (simp add: core_inv_def)
  from tickets_okD(4-6) [OF inv, of t] show ?thesis by (auto simp: Suc_le_eq)
qed

theorem tickets_redeemed_at_most_once_witness:
  "granted_count (as_log sample_auth5) sample_ticket = 1 \<and> lt_view (as_db sample_auth5) sample_ticket \<noteq> None \<and>
   redeemed_count (as_log sample_auth5) sample_ticket = 0"
proof -
  have "granted_count (as_log sample_auth5) sample_ticket = 1" "lt_view (as_db sample_auth5) sample_ticket \<noteq> None" by code_simp+
  with tickets_redeemed_at_most_once [OF list_tickets.ticket_sql_axioms sample_auth5_reachable, of sample_ticket]
  show ?thesis by simp
qed

text \<open>C24. The login gate neither leaks nor locks: on every run a connection is marked as logging in exactly when
  one login of it is under way (a task in the executor or a result waiting for its handler), and the limiter's
  count of password checks is the number of login tasks, which never exceeds the configured limit.\<close>

theorem login_gate_exact:
  assumes "ticket_sql sql view saved"
    and "auth_server_reachable B sql dummy life opts gameServer parse serialize view s"
  shows "how_many (login_task_of c) (tasks_of (as_executor s)) + how_many (login_done_of c) (mset (as_posted s)) =
      (if ad_loginInProgress (as_dispatchers s c) then 1 else 0) \<and>
    jobs_of (as_limiter s) = how_many is_login (tasks_of (as_executor s)) \<and>
    jobs_of (as_limiter s) \<le> lo_maxConcurrentPasswordJobs opts"
  using ticket_sql.auth_server_inv [OF assms] by (simp add: core_inv_def login_flow_def pending_logins_def)

theorem login_gate_exact_witness:
  "ad_account (as_dispatchers sample_auth3 0) = Some 5 \<and> as_posted sample_auth3 = [] \<and>
   \<not> ad_loginInProgress (as_dispatchers sample_auth3 0) \<and> jobs_of (as_limiter sample_auth3) = 0"
proof -
  have "ad_account (as_dispatchers sample_auth3 0) = Some 5" "as_posted sample_auth3 = []"
    "de_queued (as_executor sample_auth3) = []" "de_active (as_executor sample_auth3) = []" by code_simp+
  with login_gate_exact [OF list_tickets.ticket_sql_axioms sample_auth3_reachable, of 0] show ?thesis
    by (simp add: tasks_of_def split: if_splits)
qed

section \<open>A ticket\<close>

text \<open>A stored ticket reads back: when \<open>Issue\<close> has issued a ticket, the ticket is new, valid and determined by
  its random bytes, and the first \<open>ConsumeTicket\<close> that the database lets finish before the expiry gives the
  same account and player; afterwards nothing is given for this ticket.\<close>

lemma ticket_roundtrip:
  assumes "ticket_sql sql view saved"
    and "Issue sql owns life now (Some bytes) context db = (Inr (Some issued), db1)" "length bytes = TICKET_BYTE_COUNT"
    and "ConsumeTicket sql (iat_ticket issued) later db1 = (Inr result, db2)" "0 \<le> later" "later < now + life"
  shows "view db (iat_ticket issued) = None \<and> IsValidAuthTicket (iat_ticket issued) \<and> length (iat_ticket issued) = 64 \<and>
    (\<forall>bytes'. GenerateTicket (Some bytes') = Inr (iat_ticket issued) \<longrightarrow> bytes' = bytes) \<and>
    result = Some context \<and> (\<forall>t' c. fst (ConsumeTicket sql (iat_ticket issued) t' db2) \<noteq> Inr (Some c))"
proof -
  note issue = Issue_Some [OF assms(2)]
  then have stored: "IssueTicket sql (iat_ticket issued) context (now + life) db = (Inr True, db1)"
    and gen: "GenerateTicket (Some bytes) = Inr (iat_ticket issued)" by auto
  have res: "result = Some context" using ticket_sql.issue_then_consume [OF assms(1) stored assms(4,6,5)] .
  have inj: "\<forall>bytes'. GenerateTicket (Some bytes') = Inr (iat_ticket issued) \<longrightarrow> bytes' = bytes"
    using gen by (auto simp: GenerateTicket_def intro: hex_bytes_inj)
  have once: "\<forall>t' c. fst (ConsumeTicket sql (iat_ticket issued) t' db2) \<noteq> Inr (Some c)"
    using ticket_sql.consume_once [OF assms(1) assms(4) [unfolded res]] by blast
  show ?thesis
    using ticket_sql.issue_stored [OF assms(1) stored] GenerateTicket_length [OF gen] assms(3) res inj once
    by (simp add: TICKET_BYTE_COUNT_def)
qed

end
