(* ===== verification/Text_Format.thy ===== *)
theory Text_Format
  imports Prelude
begin

text \<open>
  Decimal numbers as the standard library prints and reads them: \<open>std::to_string\<close> and \<open>std::from_chars\<close>
  for unsigned integers.
\<close>

fun to_string :: "nat \<Rightarrow> string" where
  "to_string n = (if n < 10 then [char_of (48 + n)] else to_string (n div 10) @ [char_of (48 + n mod 10)])"

declare to_string.simps [simp del]

definition is_digit :: "char \<Rightarrow> bool" where
  "is_digit c \<longleftrightarrow> 48 \<le> (of_char c :: nat) \<and> (of_char c :: nat) \<le> 57"

definition digits_value :: "string \<Rightarrow> nat" where
  "digits_value ds = foldl (\<lambda>n c. 10 * n + (of_char c - 48)) 0 ds"

text \<open>The value and the text behind the digits; \<open>None\<close> when there is no digit or the value does not fit.\<close>

definition from_chars_u64 :: "string \<Rightarrow> (u64 \<times> string) option" where
  "from_chars_u64 text =
     (let ds = takeWhile is_digit text in
      if ds = [] \<or> 2 ^ 64 \<le> digits_value ds then None
      else Some (of_nat (digits_value ds), dropWhile is_digit text))"

lemma of_char_digit: "k < 10 \<Longrightarrow> of_char (char_of (48 + k :: nat)) = 48 + k"
  by simp

lemma to_string_digits: "\<forall>c \<in> set (to_string n). is_digit c"
proof (induction n rule: to_string.induct)
  case (1 n)
  then show ?case by (subst to_string.simps) (auto simp: is_digit_def)
qed

lemma to_string_nonempty [simp]: "to_string n \<noteq> []"
  by (subst to_string.simps) simp

lemma digits_value_to_string [simp]: "digits_value (to_string n) = n"
proof (induction n rule: to_string.induct)
  case (1 n)
  then show ?case by (subst to_string.simps) (auto simp: digits_value_def)
qed

lemma from_chars_to_string: "from_chars_u64 (to_string (unat w)) = Some (w, [])"
proof -
  have digits: "takeWhile is_digit (to_string (unat w)) = to_string (unat w)" "dropWhile is_digit (to_string (unat w)) = []"
    using to_string_digits by (simp_all add: takeWhile_eq_all_conv dropWhile_eq_Nil_conv)
  have "unat w < 2 ^ 64" using unsigned_less [of w, where ?'a = nat] by simp
  then show ?thesis by (simp add: from_chars_u64_def Let_def digits)
qed

lemma to_string_length: "n < 10 ^ k \<Longrightarrow> 0 < k \<Longrightarrow> length (to_string n) \<le> k"
proof (induction n arbitrary: k rule: to_string.induct)
  case (1 n)
  show ?case
  proof (cases "n < 10")
    case False
    then have "1 < k" using "1.prems" by (cases k) (auto simp: less_Suc_eq)
    then obtain m where m: "k = Suc m" "0 < m" by (cases k) auto
    with "1.prems" have "n div 10 < 10 ^ m" by (simp add: less_mult_imp_div_less mult.commute)
    from "1.IH" [OF False this m(2)] False m show ?thesis by (subst to_string.simps) simp
  qed (use "1.prems" in \<open>subst to_string.simps; simp\<close>)
qed

end
