(* ===== verification/Game_Data_Loader.thy ===== *)
theory Game_Data_Loader
  imports Text_Format Static_Data Room_State Combat_Processor "HOL-Library.List_Lexorder" "HOL-Library.Char_ord"
begin

text \<open>
  The loader of game data (\<open>src/include/GameDataLoader.h\<close>, \<open>src/src/GameDataLoader.cpp\<close>), which fills the
  channel manager and the catalogs from JSON files before the server starts.

  Property trees and the JSON parser belong to Boost: their type is a parameter, and the functions the
  loader calls on them are the record \<open>ptree_ops\<close>. What the file system answers is the record
  \<open>file_system\<close>; a directory lists its entries in any order. An exception is \<open>Inl\<close> of a \<open>load_error\<close>, with
  the context that the message carries. The catalogs are filled in place, so a load that fails returns
  what it had stored by then.
\<close>

type_synonym path = "string list"

definition path_string :: "path \<Rightarrow> string" where
  "path_string p = (case p of [] \<Rightarrow> [] | name # names \<Rightarrow> name @ concat (map (\<lambda>n. ''/'' @ n) names))"

definition extension :: "path \<Rightarrow> string" where
  "extension p =
     (if p = [] then []
      else let name = last p; suffix = rev (takeWhile (\<lambda>c. c \<noteq> CHR ''.'') (rev name)) in
        if name = ''..'' \<or> length name \<le> Suc (length suffix) then [] else CHR ''.'' # suffix)"

record 't file_system =
  is_directory :: "path \<Rightarrow> bool"
  is_regular_file :: "path \<Rightarrow> bool"
  directory_entries :: "path \<Rightarrow> path list"
  read_json :: "path \<Rightarrow> (nat \<times> string) + 't"

record 't ptree_ops =
  get_u32 :: "'t \<Rightarrow> string \<Rightarrow> u32 option"
  get_u8 :: "'t \<Rightarrow> string \<Rightarrow> u8 option"
  get_size :: "'t \<Rightarrow> string \<Rightarrow> nat option"
  get_float :: "'t \<Rightarrow> string \<Rightarrow> float32 option"
  get_bool :: "'t \<Rightarrow> string \<Rightarrow> bool option"
  get_string :: "'t \<Rightarrow> string \<Rightarrow> string option"
  get_child :: "'t \<Rightarrow> string \<Rightarrow> 't option"
  children :: "'t \<Rightarrow> (string \<times> 't) list"

datatype load_error =
  InvalidField string string
| InvalidChild string string
| NotAnArray string
| NotFinite string string
| NoSuchFile path
| ParseFailed path nat string
| ZeroContentVersion path
| ContentVersionMismatch path u32 u32
| UnknownName string string
| CatalogRejected string u32
| EmptyCollection path string
| MissingTargetRoom path DungeonTemplateId RoomId PortalId RoomId
| MissingEnemy path DungeonTemplateId RoomId EnemySpawnId EnemyTemplateId
| NoDungeonDirectory path
| NoDungeonFiles path
| NoDataDirectory path

record GameDataLoadResult =
  lr_contentVersion :: u32
  lr_channelCount :: nat
  lr_skillCount :: nat
  lr_enemyCount :: nat
  lr_dungeonCount :: nat

text \<open>The objects that the loader refers to, and the result it accumulates.\<close>

record GameData =
  gd_channels :: ChannelManager
  gd_skills :: SkillCatalog
  gd_enemies :: EnemyCatalog
  gd_dungeons :: DungeonCatalog
  gd_result :: GameDataLoadResult

section \<open>Reading values\<close>

text \<open>Statements in sequence, the first of which may throw.\<close>

definition and_then :: "'e + 'a \<Rightarrow> ('a \<Rightarrow> 'e + 'b) \<Rightarrow> 'e + 'b" where
  "and_then m f = (case m of Inl e \<Rightarrow> Inl e | Inr x \<Rightarrow> f x)"

lemma and_then_Inr [simp]: "and_then m f = Inr y \<longleftrightarrow> (\<exists>x. m = Inr x \<and> f x = Inr y)"
  by (simp add: and_then_def split: sum.split)

definition RequireValue :: "('t \<Rightarrow> string \<Rightarrow> 'v option) \<Rightarrow> 't \<Rightarrow> string \<Rightarrow> string \<Rightarrow> load_error + 'v" where
  "RequireValue get tree field ctxt =
     (case get tree field of None \<Rightarrow> Inl (InvalidField ctxt field) | Some v \<Rightarrow> Inr v)"

definition RequireChild :: "'t ptree_ops \<Rightarrow> 't \<Rightarrow> string \<Rightarrow> string \<Rightarrow> load_error + 't" where
  "RequireChild pt tree field ctxt =
     (case get_child pt tree field of None \<Rightarrow> Inl (InvalidChild ctxt field) | Some t \<Rightarrow> Inr t)"

fun require_array :: "(string \<times> 't) list \<Rightarrow> string \<Rightarrow> load_error + unit" where
  "require_array [] ctxt = Inr ()"
| "require_array ((key, _) # nodes) ctxt = (if key \<noteq> [] then Inl (NotAnArray ctxt) else require_array nodes ctxt)"

definition RequireArray :: "'t ptree_ops \<Rightarrow> 't \<Rightarrow> string \<Rightarrow> load_error + unit" where
  "RequireArray pt tree ctxt = require_array (children pt tree) ctxt"

definition RequireFiniteFloat :: "'t ptree_ops \<Rightarrow> 't \<Rightarrow> string \<Rightarrow> string \<Rightarrow> load_error + float32" where
  "RequireFiniteFloat pt tree field ctxt =
     and_then (RequireValue (get_float pt) tree field ctxt) (\<lambda>value.
     if \<not> isfinite value then Inl (NotFinite ctxt field) else Inr value)"

definition ReadJsonFile :: "'t file_system \<Rightarrow> path \<Rightarrow> load_error + 't" where
  "ReadJsonFile fs path =
     (if \<not> is_regular_file fs path then Inl (NoSuchFile path)
      else case read_json fs path of Inl (line, message) \<Rightarrow> Inl (ParseFailed path line message) | Inr tree \<Rightarrow> Inr tree)"

definition ReadContentVersion :: "'t ptree_ops \<Rightarrow> 't \<Rightarrow> path \<Rightarrow> load_error + u32" where
  "ReadContentVersion pt tree path =
     and_then (RequireValue (get_u32 pt) tree ''contentVersion'' (path_string path)) (\<lambda>version.
     if version = 0 then Inl (ZeroContentVersion path) else Inr version)"

definition AcceptContentVersion :: "u32 \<Rightarrow> path \<Rightarrow> GameDataLoadResult \<Rightarrow> load_error + GameDataLoadResult" where
  "AcceptContentVersion candidate path result =
     (if lr_contentVersion result = 0 then Inr (result\<lparr>lr_contentVersion := candidate\<rparr>)
      else if candidate \<noteq> lr_contentVersion result
      then Inl (ContentVersionMismatch path candidate (lr_contentVersion result))
      else Inr result)"

definition ReadPosition :: "'t ptree_ops \<Rightarrow> 't \<Rightarrow> string \<Rightarrow> load_error + Position" where
  "ReadPosition pt tree ctxt =
     and_then (RequireFiniteFloat pt tree ''x'' ctxt) (\<lambda>x.
     and_then (RequireFiniteFloat pt tree ''y'' ctxt) (\<lambda>y.
     and_then (RequireFiniteFloat pt tree ''z'' ctxt) (\<lambda>z.
     Inr \<lparr>pos_x = x, pos_y = y, pos_z = z\<rparr>)))"

definition ReadCollisionBox :: "'t ptree_ops \<Rightarrow> 't \<Rightarrow> string \<Rightarrow> load_error + CollisionBox" where
  "ReadCollisionBox pt tree ctxt =
     and_then (RequireChild pt tree ''minimum'' ctxt) (\<lambda>lower.
     and_then (ReadPosition pt lower (ctxt @ ''.minimum'')) (\<lambda>minimum.
     and_then (RequireChild pt tree ''maximum'' ctxt) (\<lambda>upper.
     and_then (ReadPosition pt upper (ctxt @ ''.maximum'')) (\<lambda>maximum.
     Inr \<lparr>box_minimum = minimum, box_maximum = maximum\<rparr>))))"

definition ParseEnemyAiType :: "string \<Rightarrow> string \<Rightarrow> load_error + EnemyAiType" where
  "ParseEnemyAiType v ctxt =
     (if v = ''melee'' then Inr Melee
      else if v = ''ranged'' then Inr Ranged
      else if v = ''boss'' then Inr Boss
      else Inl (UnknownName ctxt v))"

definition ParseSkillEffectType :: "string \<Rightarrow> string \<Rightarrow> load_error + SkillEffectType" where
  "ParseSkillEffectType v ctxt =
     (if v = ''damage'' then Inr Damage
      else if v = ''heal'' then Inr Heal
      else if v = ''buff'' then Inr Buff
      else if v = ''debuff'' then Inr Debuff
      else Inl (UnknownName ctxt v))"

definition ParseSkillTargetType :: "string \<Rightarrow> string \<Rightarrow> load_error + SkillTargetType" where
  "ParseSkillTargetType v ctxt =
     (if v = ''self'' then Inr Self
      else if v = ''party'' then Inr PartyTarget
      else if v = ''enemy'' then Inr EnemyTarget
      else Inl (UnknownName ctxt v))"

definition ParseSkillStat :: "string \<Rightarrow> string \<Rightarrow> load_error + SkillStat" where
  "ParseSkillStat v ctxt =
     (if v = ''none'' then Inr NoStat
      else if v = ''attack'' then Inr Attack
      else if v = ''defense'' then Inr Defense
      else if v = ''moveSpeed'' then Inr MoveSpeed
      else Inl (UnknownName ctxt v))"

definition indexed :: "string \<Rightarrow> nat \<Rightarrow> string" where
  "indexed collection i = collection @ ''['' @ to_string i @ '']''"

definition ItemContext :: "path \<Rightarrow> string \<Rightarrow> nat \<Rightarrow> string" where
  "ItemContext path collection i = path_string path @ '': '' @ indexed collection i"

text \<open>The loop over a JSON array that is a field of an object: each element is read in the context
  \<open>ctxt.field[i]\<close>.\<close>

fun read_nodes :: "('t \<Rightarrow> string \<Rightarrow> load_error + 'a) \<Rightarrow> string \<Rightarrow> nat \<Rightarrow> (string \<times> 't) list \<Rightarrow> load_error + 'a list" where
  "read_nodes reader ctxt i [] = Inr []"
| "read_nodes reader ctxt i ((_, node) # nodes) =
     and_then (reader node (indexed ctxt i)) (\<lambda>item.
     and_then (read_nodes reader ctxt (Suc i) nodes) (\<lambda>items.
     Inr (item # items)))"

definition read_array :: "'t ptree_ops \<Rightarrow> ('t \<Rightarrow> string \<Rightarrow> load_error + 'a) \<Rightarrow> 't \<Rightarrow> string \<Rightarrow> string \<Rightarrow> load_error + 'a list" where
  "read_array pt reader tree field ctxt =
     and_then (RequireChild pt tree field ctxt) (\<lambda>child.
     and_then (RequireArray pt child (ctxt @ ''.'' @ field)) (\<lambda>_.
     read_nodes reader (ctxt @ ''.'' @ field) 0 (children pt child)))"

section \<open>Loading a collection\<close>

text \<open>
  \<open>LoadChannels\<close>, \<open>LoadSkills\<close> and \<open>LoadEnemies\<close> have one shape: the file, its version, an array, and for
  every element the values it is made of, its admission to a catalog and a counter. \<open>load_items\<close> is the
  loop and returns the final index.
\<close>

definition open_file :: "'t file_system \<Rightarrow> 't ptree_ops \<Rightarrow> path \<Rightarrow> GameDataLoadResult \<Rightarrow> load_error + 't \<times> GameDataLoadResult" where
  "open_file fs pt path result =
     and_then (ReadJsonFile fs path) (\<lambda>tree.
     and_then (ReadContentVersion pt tree path) (\<lambda>version.
     and_then (AcceptContentVersion version path result) (\<lambda>result.
     Inr (tree, result))))"

fun load_items ::
    "('t \<Rightarrow> string \<Rightarrow> load_error + 'i) \<Rightarrow> ('i \<Rightarrow> u32) \<Rightarrow> ('i \<Rightarrow> GameData \<Rightarrow> bool \<times> GameData) \<Rightarrow>
     path \<Rightarrow> string \<Rightarrow> nat \<Rightarrow> (string \<times> 't) list \<Rightarrow> GameData \<Rightarrow> (load_error + nat) \<times> GameData" where
  "load_items reader ident admit path collection i [] g = (Inr i, g)"
| "load_items reader ident admit path collection i ((_, node) # nodes) g =
     (let ctxt = ItemContext path collection i in
      case reader node ctxt of
        Inl e \<Rightarrow> (Inl e, g)
      | Inr item \<Rightarrow>
          let (added, g) = admit item g in
          if \<not> added then (Inl (CatalogRejected ctxt (ident item)), g)
          else load_items reader ident admit path collection (Suc i) nodes g)"

definition load_collection ::
    "'t file_system \<Rightarrow> 't ptree_ops \<Rightarrow> ('t \<Rightarrow> string \<Rightarrow> load_error + 'i) \<Rightarrow> ('i \<Rightarrow> u32) \<Rightarrow>
     ('i \<Rightarrow> GameData \<Rightarrow> bool \<times> GameData) \<Rightarrow> string \<Rightarrow> path \<Rightarrow> GameData \<Rightarrow> (load_error + unit) \<times> GameData" where
  "load_collection fs pt reader ident admit collection path g =
     (case open_file fs pt path (gd_result g) of
        Inl e \<Rightarrow> (Inl e, g)
      | Inr (tree, result) \<Rightarrow>
          let g = g\<lparr>gd_result := result\<rparr> in
          case and_then (RequireChild pt tree collection (path_string path)) (\<lambda>items.
               and_then (RequireArray pt items (path_string path @ '': '' @ collection)) (\<lambda>_. Inr items)) of
            Inl e \<Rightarrow> (Inl e, g)
          | Inr items \<Rightarrow>
              (case load_items reader ident admit path collection 0 (children pt items) g of
                 (Inl e, g) \<Rightarrow> (Inl e, g)
               | (Inr n, g) \<Rightarrow> (if n = 0 then Inl (EmptyCollection path collection) else Inr (), g)))"

definition read_channel :: "'t ptree_ops \<Rightarrow> 't \<Rightarrow> string \<Rightarrow> load_error + ChannelId \<times> string \<times> nat" where
  "read_channel pt node ctxt =
     and_then (RequireValue (get_u32 pt) node ''id'' ctxt) (\<lambda>i.
     and_then (RequireValue (get_string pt) node ''name'' ctxt) (\<lambda>name.
     and_then (RequireValue (get_size pt) node ''maxPlayers'' ctxt) (\<lambda>maxPlayers.
     Inr (i, name, maxPlayers))))"

definition admit_channel :: "ChannelId \<times> string \<times> nat \<Rightarrow> GameData \<Rightarrow> bool \<times> GameData" where
  "admit_channel item g =
     (let (added, channels) = AddChannel (fst item) (fst (snd item)) (snd (snd item)) (gd_channels g);
          g = g\<lparr>gd_channels := channels\<rparr>
      in (added, if added then g\<lparr>gd_result := (gd_result g)\<lparr>lr_channelCount := lr_channelCount (gd_result g) + 1\<rparr>\<rparr> else g))"

definition LoadChannels :: "'t file_system \<Rightarrow> 't ptree_ops \<Rightarrow> path \<Rightarrow> GameData \<Rightarrow> (load_error + unit) \<times> GameData" where
  "LoadChannels fs pt = load_collection fs pt (read_channel pt) fst admit_channel ''channels''"

definition ReadSkillEffect :: "'t ptree_ops \<Rightarrow> 't \<Rightarrow> string \<Rightarrow> load_error + SkillEffect" where
  "ReadSkillEffect pt tree ctxt =
     and_then (and_then (RequireValue (get_string pt) tree ''type'' ctxt) (\<lambda>v. ParseSkillEffectType v ctxt)) (\<lambda>effectType.
     and_then (and_then (RequireValue (get_string pt) tree ''target'' ctxt) (\<lambda>v. ParseSkillTargetType v ctxt)) (\<lambda>target.
     and_then (and_then (RequireValue (get_string pt) tree ''stat'' ctxt) (\<lambda>v. ParseSkillStat v ctxt)) (\<lambda>stat.
     and_then (RequireFiniteFloat pt tree ''value'' ctxt) (\<lambda>value.
     and_then (RequireValue (get_u32 pt) tree ''durationTicks'' ctxt) (\<lambda>durationTicks.
     Inr \<lparr>effect_type = effectType, effect_target = target, effect_stat = stat, effect_value = value,
       effect_durationTicks = durationTicks\<rparr>)))))"

definition read_skill :: "'t ptree_ops \<Rightarrow> 't \<Rightarrow> string \<Rightarrow> load_error + SkillTemplate" where
  "read_skill pt node ctxt =
     and_then (RequireValue (get_u32 pt) node ''id'' ctxt) (\<lambda>i.
     and_then (RequireValue (get_string pt) node ''name'' ctxt) (\<lambda>name.
     and_then (RequireValue (get_u32 pt) node ''cooldownTicks'' ctxt) (\<lambda>cooldownTicks.
     and_then (RequireValue (get_u32 pt) node ''manaCost'' ctxt) (\<lambda>manaCost.
     and_then (RequireValue (get_u32 pt) node ''startupTicks'' ctxt) (\<lambda>startupTicks.
     and_then (RequireValue (get_u32 pt) node ''activeTicks'' ctxt) (\<lambda>activeTicks.
     and_then (RequireValue (get_u32 pt) node ''recoveryTicks'' ctxt) (\<lambda>recoveryTicks.
     and_then (RequireChild pt node ''hitBox'' ctxt) (\<lambda>hitBox.
     and_then (RequireFiniteFloat pt hitBox ''forwardRange'' (ctxt @ ''.hitBox'')) (\<lambda>forwardRange.
     and_then (RequireFiniteFloat pt hitBox ''backwardRange'' (ctxt @ ''.hitBox'')) (\<lambda>backwardRange.
     and_then (RequireFiniteFloat pt hitBox ''halfDepth'' (ctxt @ ''.hitBox'')) (\<lambda>halfDepth.
     and_then (RequireFiniteFloat pt hitBox ''height'' (ctxt @ ''.hitBox'')) (\<lambda>height.
     and_then (read_array pt (ReadSkillEffect pt) node ''effects'' ctxt) (\<lambda>effects.
     Inr \<lparr>skill_id = i, skill_name = name, skill_cooldownTicks = cooldownTicks, skill_manaCost = manaCost,
       skill_startupTicks = startupTicks, skill_activeTicks = activeTicks, skill_recoveryTicks = recoveryTicks,
       skill_hitBox = \<lparr>hit_forwardRange = forwardRange, hit_backwardRange = backwardRange, hit_halfDepth = halfDepth,
         hit_height = height\<rparr>,
       skill_effects = effects\<rparr>)))))))))))))"

definition admit_skill :: "SkillTemplate \<Rightarrow> GameData \<Rightarrow> bool \<times> GameData" where
  "admit_skill skill g =
     (let (added, skills) = AddSkill skill (gd_skills g);
          g = g\<lparr>gd_skills := skills\<rparr>
      in (added, if added then g\<lparr>gd_result := (gd_result g)\<lparr>lr_skillCount := lr_skillCount (gd_result g) + 1\<rparr>\<rparr> else g))"

definition LoadSkills :: "'t file_system \<Rightarrow> 't ptree_ops \<Rightarrow> path \<Rightarrow> GameData \<Rightarrow> (load_error + unit) \<times> GameData" where
  "LoadSkills fs pt = load_collection fs pt (read_skill pt) skill_id admit_skill ''skills''"

definition read_enemy :: "'t ptree_ops \<Rightarrow> 't \<Rightarrow> string \<Rightarrow> load_error + EnemyTemplate" where
  "read_enemy pt node ctxt =
     and_then (RequireValue (get_u32 pt) node ''id'' ctxt) (\<lambda>i.
     and_then (RequireValue (get_string pt) node ''name'' ctxt) (\<lambda>name.
     and_then (RequireValue (get_u32 pt) node ''maxHp'' ctxt) (\<lambda>maxHp.
     and_then (RequireFiniteFloat pt node ''moveSpeed'' ctxt) (\<lambda>moveSpeed.
     and_then (and_then (RequireValue (get_string pt) node ''aiType'' ctxt) (\<lambda>v. ParseEnemyAiType v ctxt)) (\<lambda>aiType.
     and_then (RequireChild pt node ''collision'' ctxt) (\<lambda>box.
     and_then (ReadCollisionBox pt box (ctxt @ ''.collision'')) (\<lambda>collision.
     Inr \<lparr>enemy_id = i, enemy_name = name, enemy_maxHp = maxHp, enemy_moveSpeed = moveSpeed, enemy_aiType = aiType,
       enemy_collision = collision\<rparr>)))))))"

definition admit_enemy :: "EnemyTemplate \<Rightarrow> GameData \<Rightarrow> bool \<times> GameData" where
  "admit_enemy enemy g =
     (let (added, enemies) = AddEnemy enemy (gd_enemies g);
          g = g\<lparr>gd_enemies := enemies\<rparr>
      in (added, if added then g\<lparr>gd_result := (gd_result g)\<lparr>lr_enemyCount := lr_enemyCount (gd_result g) + 1\<rparr>\<rparr> else g))"

definition LoadEnemies :: "'t file_system \<Rightarrow> 't ptree_ops \<Rightarrow> path \<Rightarrow> GameData \<Rightarrow> (load_error + unit) \<times> GameData" where
  "LoadEnemies fs pt = load_collection fs pt (read_enemy pt) enemy_id admit_enemy ''enemies''"

section \<open>Loading dungeons\<close>

definition ReadPortal :: "'t ptree_ops \<Rightarrow> 't \<Rightarrow> string \<Rightarrow> load_error + PortalTemplate" where
  "ReadPortal pt tree ctxt =
     and_then (RequireValue (get_u32 pt) tree ''id'' ctxt) (\<lambda>i.
     and_then (RequireChild pt tree ''triggerArea'' ctxt) (\<lambda>area.
     and_then (ReadCollisionBox pt area (ctxt @ ''.triggerArea'')) (\<lambda>triggerArea.
     and_then (RequireValue (get_u32 pt) tree ''targetRoomId'' ctxt) (\<lambda>targetRoomId.
     and_then (RequireChild pt tree ''targetPosition'' ctxt) (\<lambda>target.
     and_then (ReadPosition pt target (ctxt @ ''.targetPosition'')) (\<lambda>targetPosition.
     and_then (RequireValue (get_bool pt) tree ''requiresRoomClear'' ctxt) (\<lambda>requiresRoomClear.
     Inr \<lparr>portal_id = i, portal_triggerArea = triggerArea, portal_targetRoomId = targetRoomId,
       portal_targetPosition = targetPosition, portal_requiresRoomClear = requiresRoomClear\<rparr>)))))))"

definition ReadObstacle :: "'t ptree_ops \<Rightarrow> 't \<Rightarrow> string \<Rightarrow> load_error + ObstacleTemplate" where
  "ReadObstacle pt tree ctxt =
     and_then (RequireValue (get_u32 pt) tree ''id'' ctxt) (\<lambda>i.
     and_then (RequireChild pt tree ''collision'' ctxt) (\<lambda>box.
     and_then (ReadCollisionBox pt box (ctxt @ ''.collision'')) (\<lambda>collision.
     and_then (RequireValue (get_bool pt) tree ''destructible'' ctxt) (\<lambda>destructible.
     and_then (RequireValue (get_u32 pt) tree ''maxHp'' ctxt) (\<lambda>maxHp.
     Inr \<lparr>obstacle_id = i, obstacle_collision = collision, obstacle_destructible = destructible,
       obstacle_maxHp = maxHp\<rparr>)))))"

definition ReadEnemySpawn :: "'t ptree_ops \<Rightarrow> 't \<Rightarrow> string \<Rightarrow> load_error + EnemySpawnTemplate" where
  "ReadEnemySpawn pt tree ctxt =
     and_then (RequireValue (get_u32 pt) tree ''id'' ctxt) (\<lambda>i.
     and_then (RequireValue (get_u32 pt) tree ''enemyTemplateId'' ctxt) (\<lambda>enemyTemplateId.
     and_then (RequireChild pt tree ''position'' ctxt) (\<lambda>place.
     and_then (ReadPosition pt place (ctxt @ ''.position'')) (\<lambda>position.
     and_then (RequireValue (get_u32 pt) tree ''wave'' ctxt) (\<lambda>wave.
     Inr \<lparr>spawn_id = i, spawn_enemyTemplateId = enemyTemplateId, spawn_position = position, spawn_wave = wave\<rparr>)))))"

definition ReadRoom :: "'t ptree_ops \<Rightarrow> 't \<Rightarrow> string \<Rightarrow> load_error + RoomTemplate" where
  "ReadRoom pt tree ctxt =
     and_then (RequireValue (get_u32 pt) tree ''id'' ctxt) (\<lambda>i.
     and_then (RequireFiniteFloat pt tree ''width'' ctxt) (\<lambda>width.
     and_then (RequireFiniteFloat pt tree ''depth'' ctxt) (\<lambda>depth.
     and_then (RequireChild pt tree ''playerSpawn'' ctxt) (\<lambda>place.
     and_then (ReadPosition pt place (ctxt @ ''.playerSpawn'')) (\<lambda>playerSpawn.
     and_then (read_array pt (ReadPortal pt) tree ''portals'' ctxt) (\<lambda>portals.
     and_then (read_array pt (ReadObstacle pt) tree ''obstacles'' ctxt) (\<lambda>obstacles.
     and_then (read_array pt (ReadEnemySpawn pt) tree ''enemySpawns'' ctxt) (\<lambda>enemySpawns.
     Inr \<lparr>room_id = i, room_width = width, room_depth = depth, room_playerSpawn = playerSpawn, room_portals = portals,
       room_obstacles = obstacles, room_enemySpawns = enemySpawns\<rparr>))))))))"

fun missing_target :: "path \<Rightarrow> DungeonTemplateId \<Rightarrow> RoomId list \<Rightarrow> RoomId \<Rightarrow> PortalTemplate list \<Rightarrow> load_error + unit" where
  "missing_target path dungeonId roomIds roomId [] = Inr ()"
| "missing_target path dungeonId roomIds roomId (portal # portals) =
     (if \<not> List.member roomIds (portal_targetRoomId portal)
      then Inl (MissingTargetRoom path dungeonId roomId (portal_id portal) (portal_targetRoomId portal))
      else missing_target path dungeonId roomIds roomId portals)"

fun missing_enemy :: "path \<Rightarrow> DungeonTemplateId \<Rightarrow> EnemyCatalog \<Rightarrow> RoomId \<Rightarrow> EnemySpawnTemplate list \<Rightarrow> load_error + unit" where
  "missing_enemy path dungeonId enemies roomId [] = Inr ()"
| "missing_enemy path dungeonId enemies roomId (sp # sps) =
     (if GetEnemy enemies (spawn_enemyTemplateId sp) = None
      then Inl (MissingEnemy path dungeonId roomId (spawn_id sp) (spawn_enemyTemplateId sp))
      else missing_enemy path dungeonId enemies roomId sps)"

fun missing_reference :: "path \<Rightarrow> DungeonTemplateId \<Rightarrow> RoomId list \<Rightarrow> EnemyCatalog \<Rightarrow> RoomTemplate list \<Rightarrow> load_error + unit" where
  "missing_reference path dungeonId roomIds enemies [] = Inr ()"
| "missing_reference path dungeonId roomIds enemies (room # rooms) =
     and_then (missing_target path dungeonId roomIds (room_id room) (room_portals room)) (\<lambda>_.
     and_then (missing_enemy path dungeonId enemies (room_id room) (room_enemySpawns room)) (\<lambda>_.
     missing_reference path dungeonId roomIds enemies rooms))"

definition ValidateDungeonReferences :: "DungeonTemplate \<Rightarrow> EnemyCatalog \<Rightarrow> path \<Rightarrow> load_error + unit" where
  "ValidateDungeonReferences dungeon enemies path =
     missing_reference path (dt_id dungeon) (map room_id (dt_rooms dungeon)) enemies (dt_rooms dungeon)"

definition read_dungeon :: "'t ptree_ops \<Rightarrow> 't \<Rightarrow> EnemyCatalog \<Rightarrow> path \<Rightarrow> load_error + DungeonTemplate" where
  "read_dungeon pt tree enemies path =
     (let ctxt = path_string path @ '': dungeon'' in
      and_then (RequireChild pt tree ''dungeon'' (path_string path)) (\<lambda>dungeonNode.
      and_then (RequireValue (get_u32 pt) dungeonNode ''id'' ctxt) (\<lambda>i.
      and_then (RequireValue (get_string pt) dungeonNode ''name'' ctxt) (\<lambda>name.
      and_then (RequireValue (get_u8 pt) dungeonNode ''recommendedPartySize'' ctxt) (\<lambda>recommendedPartySize.
      and_then (RequireValue (get_u8 pt) dungeonNode ''maxPartySize'' ctxt) (\<lambda>maxPartySize.
      and_then (read_array pt (ReadRoom pt) dungeonNode ''rooms'' ctxt) (\<lambda>rooms.
      let dungeon = \<lparr>dt_id = i, dt_name = name, dt_rooms = rooms, dt_recommendedPartySize = recommendedPartySize,
            dt_maxPartySize = maxPartySize\<rparr>
      in and_then (ValidateDungeonReferences dungeon enemies path) (\<lambda>_. Inr dungeon))))))))"

definition LoadDungeon :: "'t file_system \<Rightarrow> 't ptree_ops \<Rightarrow> path \<Rightarrow> GameData \<Rightarrow> (load_error + unit) \<times> GameData" where
  "LoadDungeon fs pt path g =
     (case open_file fs pt path (gd_result g) of
        Inl e \<Rightarrow> (Inl e, g)
      | Inr (tree, result) \<Rightarrow>
          let g = g\<lparr>gd_result := result\<rparr> in
          case read_dungeon pt tree (gd_enemies g) path of
            Inl e \<Rightarrow> (Inl e, g)
          | Inr dungeon \<Rightarrow>
              let (added, dungeons) = AddDungeon (gd_enemies g) (dt_id dungeon) (dt_name dungeon) (dt_rooms dungeon)
                    (dt_recommendedPartySize dungeon) (dt_maxPartySize dungeon) (gd_dungeons g);
                  g = g\<lparr>gd_dungeons := dungeons\<rparr>
              in if \<not> added then (Inl (CatalogRejected (path_string path @ '': dungeon'') (dt_id dungeon)), g)
                 else (Inr (), g\<lparr>gd_result := (gd_result g)\<lparr>lr_dungeonCount := lr_dungeonCount (gd_result g) + 1\<rparr>\<rparr>))"

definition FindDungeonFiles :: "'t file_system \<Rightarrow> path \<Rightarrow> load_error + path list" where
  "FindDungeonFiles fs directory =
     (if \<not> is_directory fs directory then Inl (NoDungeonDirectory directory)
      else let paths = sort (filter (\<lambda>p. is_regular_file fs p \<and> extension p = ''.json'') (directory_entries fs directory))
        in if paths = [] then Inl (NoDungeonFiles directory) else Inr paths)"

section \<open>Load\<close>

definition seq_load :: "(load_error + unit) \<times> GameData \<Rightarrow> (GameData \<Rightarrow> (load_error + 'b) \<times> GameData) \<Rightarrow> (load_error + 'b) \<times> GameData" where
  "seq_load m f = (case m of (Inl e, g) \<Rightarrow> (Inl e, g) | (Inr _, g) \<Rightarrow> f g)"

fun load_dungeons :: "'t file_system \<Rightarrow> 't ptree_ops \<Rightarrow> path list \<Rightarrow> GameData \<Rightarrow> (load_error + unit) \<times> GameData" where
  "load_dungeons fs pt [] g = (Inr (), g)"
| "load_dungeons fs pt (path # paths) g = seq_load (LoadDungeon fs pt path g) (load_dungeons fs pt paths)"

definition no_result :: GameDataLoadResult where
  "no_result = \<lparr>lr_contentVersion = 0, lr_channelCount = 0, lr_skillCount = 0, lr_enemyCount = 0, lr_dungeonCount = 0\<rparr>"

definition Load :: "'t file_system \<Rightarrow> 't ptree_ops \<Rightarrow> path \<Rightarrow> GameData \<Rightarrow> (load_error + GameDataLoadResult) \<times> GameData" where
  "Load fs pt dataDirectory g =
     (if \<not> is_directory fs dataDirectory then (Inl (NoDataDirectory dataDirectory), g)
      else
        seq_load (LoadChannels fs pt (dataDirectory @ [''channels.json'']) (g\<lparr>gd_result := no_result\<rparr>)) (\<lambda>g.
        seq_load (LoadSkills fs pt (dataDirectory @ [''skills.json'']) g) (\<lambda>g.
        seq_load (LoadEnemies fs pt (dataDirectory @ [''enemies.json'']) g) (\<lambda>g.
        case FindDungeonFiles fs (dataDirectory @ [''dungeons'']) of
          Inl e \<Rightarrow> (Inl e, g)
        | Inr paths \<Rightarrow> seq_load (load_dungeons fs pt paths g) (\<lambda>g. (Inr (gd_result g), g))))))"

definition no_data :: GameData where
  "no_data = \<lparr>gd_channels = cm_init, gd_skills = [], gd_enemies = [], gd_dungeons = [], gd_result = no_result\<rparr>"


section \<open>What is read is finite\<close>

lemma RequireFiniteFloat_finite: "RequireFiniteFloat pt tree field ctxt = Inr v \<Longrightarrow> isfinite v"
  by (auto simp: RequireFiniteFloat_def split: if_splits)

lemma ReadPosition_finite: "ReadPosition pt tree ctxt = Inr p \<Longrightarrow> IsFinitePosition p"
  by (auto simp: ReadPosition_def IsFinitePosition_def dest: RequireFiniteFloat_finite)

lemma ReadCollisionBox_finite:
  "ReadCollisionBox pt tree ctxt = Inr b \<Longrightarrow> IsFinitePosition (box_minimum b) \<and> IsFinitePosition (box_maximum b)"
  by (auto simp: ReadCollisionBox_def dest: ReadPosition_finite)

lemma read_nodes_all:
  assumes "read_nodes reader ctxt i nodes = Inr items" "\<And>node c x. reader node c = Inr x \<Longrightarrow> P x"
  shows "\<forall>x \<in> set items. P x"
  using assms(1)
proof (induction nodes arbitrary: i items)
  case (Cons n nodes)
  then show ?case using assms(2) by (cases n) auto
qed simp

lemma read_array_all:
  assumes "read_array pt reader tree field ctxt = Inr items" "\<And>node c x. reader node c = Inr x \<Longrightarrow> P x"
  shows "\<forall>x \<in> set items. P x"
  using assms(1) by (auto simp: read_array_def dest: read_nodes_all [OF _ assms(2)])

lemma ReadRoom_finite:
  assumes "ReadRoom pt tree ctxt = Inr room"
  shows "finite_room room"
proof -
  have portal: "IsFinitePosition (box_minimum (portal_triggerArea p)) \<and> IsFinitePosition (box_maximum (portal_triggerArea p)) \<and>
      IsFinitePosition (portal_targetPosition p)" if "ReadPortal pt node c = Inr p" for node c p
    using that by (auto simp: ReadPortal_def dest: ReadPosition_finite ReadCollisionBox_finite)
  have obstacle: "IsFinitePosition (box_minimum (obstacle_collision ob)) \<and> IsFinitePosition (box_maximum (obstacle_collision ob))"
    if "ReadObstacle pt node c = Inr ob" for node c ob
    using that by (auto simp: ReadObstacle_def dest: ReadCollisionBox_finite)
  have spawn: "IsFinitePosition (spawn_position sp)" if "ReadEnemySpawn pt node c = Inr sp" for node c sp
    using that by (auto simp: ReadEnemySpawn_def dest: ReadPosition_finite)
  from assms obtain place where r: "RequireFiniteFloat pt tree ''width'' ctxt = Inr (room_width room)"
      "RequireFiniteFloat pt tree ''depth'' ctxt = Inr (room_depth room)"
      "ReadPosition pt place (ctxt @ ''.playerSpawn'') = Inr (room_playerSpawn room)"
      "read_array pt (ReadPortal pt) tree ''portals'' ctxt = Inr (room_portals room)"
      "read_array pt (ReadObstacle pt) tree ''obstacles'' ctxt = Inr (room_obstacles room)"
      "read_array pt (ReadEnemySpawn pt) tree ''enemySpawns'' ctxt = Inr (room_enemySpawns room)"
    unfolding ReadRoom_def by force
  show ?thesis
    unfolding finite_room_def
    using RequireFiniteFloat_finite [OF r(1)] RequireFiniteFloat_finite [OF r(2)] ReadPosition_finite [OF r(3)]
      read_array_all [OF r(4) portal] read_array_all [OF r(5) obstacle] read_array_all [OF r(6) spawn]
    by (intro conjI)
qed

lemma read_enemy_finite: "read_enemy pt node ctxt = Inr e \<Longrightarrow> finite_enemy e"
  by (auto simp: read_enemy_def finite_enemy_def dest: RequireFiniteFloat_finite ReadCollisionBox_finite)

lemma read_dungeon_finite:
  assumes "read_dungeon pt tree enemies path = Inr d"
  shows "\<forall>room \<in> set (dt_rooms d). finite_room room"
  using assms by (auto simp: read_dungeon_def Let_def dest!: read_array_all [OF _ ReadRoom_finite])

section \<open>What a load keeps\<close>

definition with_version :: "u32 \<Rightarrow> GameData \<Rightarrow> GameData" where
  "with_version v g = g\<lparr>gd_result := (gd_result g)\<lparr>lr_contentVersion := v\<rparr>\<rparr>"

lemma open_file_version:
  assumes "open_file fs pt path (gd_result g) = Inr (tree, result)"
  shows "read_json fs path = Inr tree \<and> get_u32 pt tree ''contentVersion'' = Some (lr_contentVersion result) \<and>
    lr_contentVersion result \<noteq> 0 \<and> g\<lparr>gd_result := result\<rparr> = with_version (lr_contentVersion result) g \<and>
    (lr_contentVersion (gd_result g) \<noteq> 0 \<longrightarrow> result = gd_result g)"
  using assms
  by (auto simp: open_file_def ReadJsonFile_def ReadContentVersion_def RequireValue_def AcceptContentVersion_def
      with_version_def split: if_splits option.splits sum.splits prod.splits)

lemma load_items_keeps:
  assumes "P g" "\<And>g node ctxt item. P g \<Longrightarrow> reader node ctxt = Inr item \<Longrightarrow> P (snd (admit item g))"
  shows "P (snd (load_items reader ident admit path collection i nodes g))"
  using assms(1)
proof (induction nodes arbitrary: i g)
  case (Cons n nodes)
  show ?case
  proof (cases "reader (snd n) (ItemContext path collection i)")
    case (Inr item)
    then show ?thesis
      using Cons.IH assms(2) [OF Cons.prems Inr] by (cases n) (auto simp: Let_def case_prod_beta)
  qed (use Cons.prems in \<open>cases n; simp\<close>)
qed simp

text \<open>
  The contract between the loop and a catalog: whatever is read and offered to the catalog keeps the
  invariant, and what the catalog accepts stays in it.
\<close>

locale item_loader =
  fixes reader :: "'t \<Rightarrow> string \<Rightarrow> load_error + 'i"
    and ident :: "'i \<Rightarrow> u32"
    and admit :: "'i \<Rightarrow> GameData \<Rightarrow> bool \<times> GameData"
    and inv :: "GameData \<Rightarrow> bool"
    and stored :: "'i \<Rightarrow> GameData \<Rightarrow> bool"
  assumes keeps: "inv g \<Longrightarrow> reader node ctxt = Inr item \<Longrightarrow> inv (snd (admit item g))"
    and version_free: "inv g \<Longrightarrow> inv (with_version v g)"
    and stores: "fst (admit item g) \<Longrightarrow> stored item (snd (admit item g))"
    and grows: "stored other g \<Longrightarrow> stored other (snd (admit item g))"
    and versioned: "lr_contentVersion (gd_result (snd (admit item g))) = lr_contentVersion (gd_result g)"
begin

lemma load_items_inv: "inv g \<Longrightarrow> inv (snd (load_items reader ident admit path collection i nodes g))"
  by (rule load_items_keeps [where P = inv]) (auto intro: keeps)

lemma load_items_stored:
  "stored item g \<Longrightarrow> stored item (snd (load_items reader ident admit path collection i nodes g))"
  by (rule load_items_keeps [where P = "stored item"]) (auto intro: grows)

lemma load_items_version:
  "lr_contentVersion (gd_result (snd (load_items reader ident admit path collection i nodes g))) = lr_contentVersion (gd_result g)"
  by (rule load_items_keeps [where P = "\<lambda>h. lr_contentVersion (gd_result h) = lr_contentVersion (gd_result g)"])
    (auto simp: versioned)

lemma load_items_complete:
  assumes "load_items reader ident admit path collection i nodes g = (Inr n, g')"
  shows "n = i + length nodes \<and>
    (\<forall>node \<in> set nodes. \<exists>ctxt item. reader (snd node) ctxt = Inr item \<and> stored item g')"
  using assms
proof (induction nodes arbitrary: i g)
  case (Cons e nodes)
  obtain k node where e: "e = (k, node)" by fastforce
  from Cons.prems obtain item g1 where item: "reader node (ItemContext path collection i) = Inr item"
      "admit item g = (True, g1)" and rest: "load_items reader ident admit path collection (Suc i) nodes g1 = (Inr n, g')"
    by (auto simp: e Let_def split: sum.splits prod.splits if_splits)
  have "stored item g'"
    using load_items_stored [OF stores, of item g path collection "Suc i" nodes] item(2) rest by simp
  with Cons.IH [OF rest] item(1) show ?case by (auto simp: e)
qed simp

lemma load_collection_inv:
  assumes "inv g"
  shows "inv (snd (load_collection fs pt reader ident admit collection path g))"
proof (cases "open_file fs pt path (gd_result g)")
  case (Inr tr)
  obtain tree result where tr: "tr = (tree, result)" by fastforce
  have "inv (g\<lparr>gd_result := result\<rparr>)"
    using open_file_version [OF Inr [unfolded tr]] version_free [OF assms] by simp
  then show ?thesis
    using load_items_inv [of "g\<lparr>gd_result := result\<rparr>"] Inr
    by (auto simp: load_collection_def tr Let_def split: sum.splits prod.splits) (metis snd_conv)+
qed (simp add: load_collection_def assms)

lemma load_collection_complete:
  assumes "load_collection fs pt reader ident admit collection path g = (Inr u, g')"
  shows "\<exists>tree items. read_json fs path = Inr tree \<and>
    get_u32 pt tree ''contentVersion'' = Some (lr_contentVersion (gd_result g')) \<and> lr_contentVersion (gd_result g') \<noteq> 0 \<and>
    (lr_contentVersion (gd_result g) \<noteq> 0 \<longrightarrow> lr_contentVersion (gd_result g') = lr_contentVersion (gd_result g)) \<and>
    get_child pt tree collection = Some items \<and> children pt items \<noteq> [] \<and>
    (\<forall>node \<in> set (children pt items). \<exists>ctxt item. reader (snd node) ctxt = Inr item \<and> stored item g')"
proof -
  from assms obtain tree result items n where o: "open_file fs pt path (gd_result g) = Inr (tree, result)"
      and c: "get_child pt tree collection = Some items"
      and l: "load_items reader ident admit path collection 0 (children pt items) (g\<lparr>gd_result := result\<rparr>) = (Inr n, g')"
      and n: "n \<noteq> 0"
    by (auto simp: load_collection_def Let_def RequireChild_def split: sum.splits prod.splits option.splits if_splits)
  have "lr_contentVersion (gd_result g') = lr_contentVersion result"
    using load_items_version [of path collection 0 "children pt items" "g\<lparr>gd_result := result\<rparr>"] l by simp
  with open_file_version [OF o] load_items_complete [OF l] c n show ?thesis by auto
qed

end

section \<open>The invariant of the loaded data\<close>

definition skill_admissible :: "SkillTemplate \<Rightarrow> bool" where
  "skill_admissible skill \<longleftrightarrow>
     skill_id skill \<noteq> 0 \<and> skill_name skill \<noteq> [] \<and> skill_activeTicks skill \<noteq> 0 \<and> IsValidHitBox (skill_hitBox skill) \<and>
     skill_effects skill \<noteq> [] \<and> (\<forall>e \<in> set (skill_effects skill). IsValidEffect e)"

definition channels_loaded :: "GameData \<Rightarrow> bool" where
  "channels_loaded g \<longleftrightarrow> cm_inv (gd_channels g) \<and> lr_channelCount (gd_result g) = length (cm_channels (gd_channels g))"

definition skills_loaded :: "GameData \<Rightarrow> bool" where
  "skills_loaded g \<longleftrightarrow> um_ok (gd_skills g) \<and> lr_skillCount (gd_result g) = length (gd_skills g) \<and>
     (\<forall>i sk. map_of (gd_skills g) i = Some sk \<longrightarrow> skill_id sk = i \<and> skill_admissible sk)"

definition enemies_loaded :: "GameData \<Rightarrow> bool" where
  "enemies_loaded g \<longleftrightarrow> um_ok (gd_enemies g) \<and> lr_enemyCount (gd_result g) = length (gd_enemies g) \<and>
     (\<forall>i e. map_of (gd_enemies g) i = Some e \<longrightarrow> enemy_id e = i \<and> static_enemy_ok e)"

definition dungeons_loaded :: "GameData \<Rightarrow> bool" where
  "dungeons_loaded g \<longleftrightarrow> catalog_inv (gd_enemies g) (gd_dungeons g) \<and>
     lr_dungeonCount (gd_result g) = length (gd_dungeons g) \<and>
     (\<forall>i d. map_of (gd_dungeons g) i = Some d \<longrightarrow> (\<forall>room \<in> set (dt_rooms d). finite_room room))"

definition game_inv :: "GameData \<Rightarrow> bool" where
  "game_inv g \<longleftrightarrow> channels_loaded g \<and> skills_loaded g \<and> enemies_loaded g \<and> dungeons_loaded g"

lemmas loaded_defs = channels_loaded_def skills_loaded_def enemies_loaded_def dungeons_loaded_def

lemma game_inv_no_data: "game_inv no_data"
  using cm_inv_init by (simp add: game_inv_def loaded_defs no_data_def no_result_def cm_init_def catalog_inv_def um_ok_def)

lemma game_inv_with_version [simp]: "game_inv (with_version v g) = game_inv g"
  by (simp add: game_inv_def loaded_defs with_version_def)

lemma with_version_fields [simp]:
  "gd_channels (with_version v g) = gd_channels g" "gd_skills (with_version v g) = gd_skills g"
  "gd_enemies (with_version v g) = gd_enemies g" "gd_dungeons (with_version v g) = gd_dungeons g"
  by (simp_all add: with_version_def)

lemma um_emplace_length: "\<not> um_contains m k \<Longrightarrow> length (um_emplace k v m) = Suc (length m)"
  by (simp add: um_emplace_def)

lemma game_inv_admit_channel: "game_inv g \<Longrightarrow> game_inv (snd (admit_channel item g))"
  using cm_inv_AddChannel [of "gd_channels g" "fst item" "fst (snd item)" "snd (snd item)"]
  by (auto simp: game_inv_def loaded_defs admit_channel_def AddChannel_def Let_def um_emplace_length)

lemma game_inv_admit_skill: "game_inv g \<Longrightarrow> game_inv (snd (admit_skill item g))"
  by (auto simp: game_inv_def loaded_defs admit_skill_def AddSkill_def Let_def um_emplace_length umap_simps
      skill_admissible_def list_ex_iff)

lemma game_inv_admit_enemy:
  assumes "game_inv g" "finite_enemy item"
  shows "game_inv (snd (admit_enemy item g))"
proof -
  have "catalog_inv (snd (AddEnemy item (gd_enemies g))) (gd_dungeons g)"
    using assms by (intro catalog_inv_AddEnemy) (simp add: game_inv_def dungeons_loaded_def)
  then show ?thesis
    using assms by (auto simp: game_inv_def loaded_defs admit_enemy_def AddEnemy_def Let_def um_emplace_length umap_simps
        static_enemy_ok_def)
qed

section \<open>The phases of a load\<close>

definition channel_stored :: "ChannelId \<times> string \<times> nat \<Rightarrow> GameData \<Rightarrow> bool" where
  "channel_stored item g \<longleftrightarrow>
     (\<exists>c. map_of (cm_channels (gd_channels g)) (fst item) = Some c \<and> ch_name c = fst (snd item) \<and> ch_maxPlayers c = snd (snd item))"

definition skill_stored :: "SkillTemplate \<Rightarrow> GameData \<Rightarrow> bool" where
  "skill_stored sk g \<longleftrightarrow> GetSkill (gd_skills g) (skill_id sk) = Some sk"

definition enemy_stored :: "EnemyTemplate \<Rightarrow> GameData \<Rightarrow> bool" where
  "enemy_stored e g \<longleftrightarrow> GetEnemy (gd_enemies g) (enemy_id e) = Some e"

text \<open>Each phase fills its own container: the invariant of a phase fixes the containers of the phases before it.\<close>

interpretation channel_phase: item_loader "read_channel pt" fst admit_channel
    "\<lambda>g. game_inv g \<and> gd_dungeons g = ds" channel_stored for pt ds
  by unfold_locales
    (auto simp: game_inv_admit_channel channel_stored_def, auto simp: admit_channel_def AddChannel_def Let_def umap_simps)

interpretation skill_phase: item_loader "read_skill pt" skill_id admit_skill
    "\<lambda>g. game_inv g \<and> gd_dungeons g = ds \<and> gd_channels g = cm" skill_stored for pt ds cm
  by unfold_locales
    (auto simp: game_inv_admit_skill skill_stored_def GetSkill_def, auto simp: admit_skill_def AddSkill_def Let_def umap_simps)

interpretation enemy_phase: item_loader "read_enemy pt" enemy_id admit_enemy
    "\<lambda>g. game_inv g \<and> gd_dungeons g = ds \<and> gd_channels g = cm \<and> gd_skills g = sk" enemy_stored for pt ds cm sk
  by unfold_locales
    (auto simp: game_inv_admit_enemy read_enemy_finite enemy_stored_def GetEnemy_def,
      auto simp: admit_enemy_def AddEnemy_def Let_def umap_simps)

lemma dungeon_eta [simp]:
  "\<lparr>dt_id = dt_id d, dt_name = dt_name d, dt_rooms = dt_rooms d, dt_recommendedPartySize = dt_recommendedPartySize d,
    dt_maxPartySize = dt_maxPartySize d\<rparr> = d"
  by simp

lemma game_inv_add_dungeon:
  fixes d :: DungeonTemplate
  assumes "game_inv g" "\<forall>room \<in> set (dt_rooms d). finite_room room"
    and "AddDungeon (gd_enemies g) (dt_id d) (dt_name d) (dt_rooms d) (dt_recommendedPartySize d) (dt_maxPartySize d) (gd_dungeons g) =
      (added, dungeons)"
  shows "if added
    then game_inv (g\<lparr>gd_dungeons := dungeons, gd_result := (gd_result g)\<lparr>lr_dungeonCount := lr_dungeonCount (gd_result g) + 1\<rparr>\<rparr>)
    else dungeons = gd_dungeons g"
proof -
  have "catalog_inv (gd_enemies g) dungeons"
    using assms(1,3) catalog_inv_AddDungeon [of "gd_enemies g" "gd_dungeons g" "dt_id d" "dt_name d" "dt_rooms d"]
    by (simp add: game_inv_def dungeons_loaded_def) (metis snd_conv)
  moreover have "\<not> um_contains (gd_dungeons g) (dt_id d)" if added
    using that AddDungeon_accepts_iff [of "gd_enemies g" "dt_id d" "dt_name d" "dt_rooms d"] assms(3) by (metis fst_conv)
  moreover have "dungeons = (if added then um_emplace (dt_id d) d (gd_dungeons g) else gd_dungeons g)"
    using AddDungeon_result [of "gd_enemies g" "dt_id d" "dt_name d" "dt_rooms d" "dt_recommendedPartySize d" "dt_maxPartySize d" "gd_dungeons g"]
    by (simp add: assms(3))
  ultimately show ?thesis
    using assms(1,2) by (auto simp: game_inv_def loaded_defs um_emplace_length umap_simps)
qed

lemma LoadDungeon_inv:
  assumes "game_inv g"
  shows "game_inv (snd (LoadDungeon fs pt path g)) \<and> gd_channels (snd (LoadDungeon fs pt path g)) = gd_channels g \<and>
    gd_skills (snd (LoadDungeon fs pt path g)) = gd_skills g \<and> gd_enemies (snd (LoadDungeon fs pt path g)) = gd_enemies g"
proof (cases "open_file fs pt path (gd_result g)")
  case (Inr tr)
  obtain tree result where tr: "tr = (tree, result)" by fastforce
  have inv: "game_inv (g\<lparr>gd_result := result\<rparr>)" using open_file_version [OF Inr [unfolded tr]] assms by simp
  show ?thesis
  proof (cases "read_dungeon pt tree (gd_enemies g) path")
    case d: (Inr d)
    obtain added dungeons where add: "AddDungeon (gd_enemies g) (dt_id d) (dt_name d) (dt_rooms d) (dt_recommendedPartySize d)
        (dt_maxPartySize d) (gd_dungeons g) = (added, dungeons)" by fastforce
    show ?thesis
      using game_inv_add_dungeon [OF inv read_dungeon_finite [OF d], of added dungeons] add inv
      by (cases added) (simp_all add: LoadDungeon_def Inr tr d Let_def)
  qed (use Inr inv in \<open>simp add: LoadDungeon_def tr Let_def\<close>)
qed (use assms in \<open>simp add: LoadDungeon_def\<close>)

lemma LoadDungeon_complete:
  assumes "LoadDungeon fs pt path g = (Inr u, g')"
  shows "\<exists>tree d. read_json fs path = Inr tree \<and> get_u32 pt tree ''contentVersion'' = Some (lr_contentVersion (gd_result g')) \<and>
    (lr_contentVersion (gd_result g) \<noteq> 0 \<longrightarrow> lr_contentVersion (gd_result g') = lr_contentVersion (gd_result g)) \<and>
    read_dungeon pt tree (gd_enemies g) path = Inr d \<and> \<not> um_contains (gd_dungeons g) (dt_id d) \<and>
    gd_dungeons g' = um_emplace (dt_id d) d (gd_dungeons g)"
proof -
  from assms obtain tree result d where o: "open_file fs pt path (gd_result g) = Inr (tree, result)"
      and r: "read_dungeon pt tree (gd_enemies g) path = Inr d"
      and a: "fst (AddDungeon (gd_enemies g) (dt_id d) (dt_name d) (dt_rooms d) (dt_recommendedPartySize d) (dt_maxPartySize d) (gd_dungeons g))"
        "gd_dungeons g' = snd (AddDungeon (gd_enemies g) (dt_id d) (dt_name d) (dt_rooms d) (dt_recommendedPartySize d) (dt_maxPartySize d) (gd_dungeons g))"
      and v: "lr_contentVersion (gd_result g') = lr_contentVersion result"
    by (auto simp: LoadDungeon_def Let_def case_prod_beta split: sum.splits prod.splits if_splits)
  from a have "\<not> um_contains (gd_dungeons g) (dt_id d)" "gd_dungeons g' = um_emplace (dt_id d) d (gd_dungeons g)"
    by (simp_all add: AddDungeon_accepts_iff AddDungeon_result)
  with open_file_version [OF o] r v show ?thesis by auto
qed

lemma load_dungeons_inv:
  assumes "game_inv g"
  shows "game_inv (snd (load_dungeons fs pt paths g)) \<and> gd_channels (snd (load_dungeons fs pt paths g)) = gd_channels g \<and>
    gd_skills (snd (load_dungeons fs pt paths g)) = gd_skills g \<and> gd_enemies (snd (load_dungeons fs pt paths g)) = gd_enemies g"
  using assms
proof (induction paths arbitrary: g)
  case (Cons path paths)
  then show ?case
    using LoadDungeon_inv [OF Cons.prems, of fs pt path]
    by (cases "LoadDungeon fs pt path g") (auto simp: seq_load_def split: sum.splits)
qed simp

lemma load_dungeons_complete:
  assumes "load_dungeons fs pt paths g = (Inr u, g')" "game_inv g" "lr_contentVersion (gd_result g) \<noteq> 0"
  shows "lr_contentVersion (gd_result g') = lr_contentVersion (gd_result g) \<and>
    (\<forall>i d. map_of (gd_dungeons g) i = Some d \<longrightarrow> map_of (gd_dungeons g') i = Some d) \<and>
    length (gd_dungeons g') = length (gd_dungeons g) + length paths \<and>
    (\<forall>path \<in> set paths. \<exists>tree d. read_json fs path = Inr tree \<and>
       get_u32 pt tree ''contentVersion'' = Some (lr_contentVersion (gd_result g')) \<and>
       read_dungeon pt tree (gd_enemies g) path = Inr d \<and> map_of (gd_dungeons g') (dt_id d) = Some d)"
  using assms
proof (induction paths arbitrary: g)
  case (Cons path paths)
  from Cons.prems(1) obtain h where h: "LoadDungeon fs pt path g = (Inr (), h)" "load_dungeons fs pt paths h = (Inr u, g')"
    by (auto simp: seq_load_def split: prod.splits sum.splits)
  have inv: "game_inv h" "gd_enemies h = gd_enemies g" using LoadDungeon_inv [OF Cons.prems(2), of fs pt path] h(1) by auto
  from LoadDungeon_complete [OF h(1)] Cons.prems(3) obtain tree d where d: "read_json fs path = Inr tree"
      "get_u32 pt tree ''contentVersion'' = Some (lr_contentVersion (gd_result h))"
      "lr_contentVersion (gd_result h) = lr_contentVersion (gd_result g)"
      "read_dungeon pt tree (gd_enemies g) path = Inr d" "\<not> um_contains (gd_dungeons g) (dt_id d)"
      "gd_dungeons h = um_emplace (dt_id d) d (gd_dungeons g)"
    by auto
  have grow: "map_of (gd_dungeons h) i = Some x" if "map_of (gd_dungeons g) i = Some x" for i x
    using d(5,6) that by (auto simp: umap_simps um_contains_def)
  have own: "map_of (gd_dungeons h) (dt_id d) = Some d" using d(5,6) by (auto simp: umap_simps um_contains_def)
  have len: "length (gd_dungeons h) = Suc (length (gd_dungeons g))" using d(5,6) by (simp add: um_emplace_length)
  have "lr_contentVersion (gd_result h) \<noteq> 0" using Cons.prems(3) d(3) by simp
  note ih = Cons.IH [OF h(2) inv(1) this, unfolded inv(2)]
  show ?case
    using ih d grow own len by auto
qed simp

section \<open>The load as a whole\<close>

lemma seq_load_snd:
  assumes "P (snd m)" "\<And>g. P g \<Longrightarrow> P (snd (f g))"
  shows "P (snd (seq_load m f))"
  using assms by (auto simp: seq_load_def split: prod.splits sum.splits)

lemma seq_load_Inr: "seq_load m f = (Inr x, g') \<longleftrightarrow> (\<exists>g. m = (Inr (), g) \<and> f g = (Inr x, g'))"
  by (auto simp: seq_load_def split: prod.splits sum.splits)

lemma phase_frames:
  assumes "game_inv g"
  shows "game_inv (snd (LoadChannels fs pt path g)) \<and> gd_dungeons (snd (LoadChannels fs pt path g)) = gd_dungeons g"
    and "game_inv (snd (LoadSkills fs pt path g)) \<and> gd_dungeons (snd (LoadSkills fs pt path g)) = gd_dungeons g \<and>
      gd_channels (snd (LoadSkills fs pt path g)) = gd_channels g"
    and "game_inv (snd (LoadEnemies fs pt path g)) \<and> gd_dungeons (snd (LoadEnemies fs pt path g)) = gd_dungeons g \<and>
      gd_channels (snd (LoadEnemies fs pt path g)) = gd_channels g \<and> gd_skills (snd (LoadEnemies fs pt path g)) = gd_skills g"
  using channel_phase.load_collection_inv [of g "gd_dungeons g" fs pt pt "''channels''" path]
    skill_phase.load_collection_inv [of g "gd_dungeons g" "gd_channels g" fs pt pt "''skills''" path]
    enemy_phase.load_collection_inv [of g "gd_dungeons g" "gd_channels g" "gd_skills g" fs pt pt "''enemies''" path] assms
  unfolding LoadChannels_def LoadSkills_def LoadEnemies_def by simp_all

lemma Load_inv: "game_inv (snd (Load fs pt dir no_data))"
proof -
  have "game_inv (no_data\<lparr>gd_result := no_result\<rparr>)" using game_inv_no_data by (simp add: no_data_def)
  then show ?thesis
    unfolding Load_def
    by (auto intro!: seq_load_snd [where P = game_inv] split: sum.splits simp: game_inv_no_data phase_frames load_dungeons_inv)
qed

text \<open>What a successful load has gone through: the data after each phase.\<close>

lemma Load_phases:
  assumes "Load fs pt dir g0 = (Inr result, g)"
  obtains g1 g2 g3 paths where
    "LoadChannels fs pt (dir @ [''channels.json'']) (g0\<lparr>gd_result := no_result\<rparr>) = (Inr (), g1)"
    "LoadSkills fs pt (dir @ [''skills.json'']) g1 = (Inr (), g2)"
    "LoadEnemies fs pt (dir @ [''enemies.json'']) g2 = (Inr (), g3)"
    "FindDungeonFiles fs (dir @ [''dungeons'']) = Inr paths"
    "load_dungeons fs pt paths g3 = (Inr (), g)" "result = gd_result g"
  using assms by (cases "FindDungeonFiles fs (dir @ [''dungeons''])") (auto simp: Load_def seq_load_Inr split: if_splits)

end
