(* ===== verification/Server_Runs.thy ===== *)
theory Server_Runs
  imports Tick_Service Request_Handlers
begin

text \<open>
  The server as a whole. The session manager (\<open>src/include/SessionManager.h\<close>, \<open>src/src/SessionManager.cpp\<close>)
  creates and removes TCP sessions and forwards to the other managers; \<open>server_step\<close> is everything that
  can happen to the channels, the parties, the dungeons, the UDP sessions and the tick service: one event
  after another, in any order. \<open>server_inv\<close> holds in every state that can be reached until the server is
  shut down.
\<close>

section \<open>The session manager\<close>

definition DEFAULT_DUNGEON_RECONNECT_GRACE :: int where "DEFAULT_DUNGEON_RECONNECT_GRACE = 30000"

text \<open>Only the keys of \<open>sessions_\<close> are kept; the sessions themselves are handled on their own strands.\<close>

record SessionManager =
  sm_nextSessionId :: SessionId
  sm_sessions :: "SessionId list"
  sm_stopping :: bool

definition sm_init :: SessionManager where
  "sm_init = \<lparr>sm_nextSessionId = 1, sm_sessions = [], sm_stopping = False\<rparr>"

text \<open>\<open>None\<close> is the thrown \<open>std::runtime_error\<close>.\<close>

definition StartSession :: "SessionManager \<Rightarrow> SessionId option \<times> SessionManager" where
  "StartSession s =
     (if sm_stopping s then (None, s)
      else
        let sessionId = sm_nextSessionId s in
        (Some sessionId,
         s\<lparr>sm_nextSessionId := sessionId + 1,
           sm_sessions := (if List.member (sm_sessions s) sessionId then sm_sessions s
                           else sm_sessions s @ [sessionId])\<rparr>))"

definition RegisterAuthenticatedPlayer ::
    "u8 list \<Rightarrow> int \<Rightarrow> int \<Rightarrow> SessionId \<Rightarrow> PlayerId \<Rightarrow> DungeonManager \<Rightarrow> DungeonUdpManager \<Rightarrow>
     (bool \<times> DungeonManager \<times> DungeonUdpManager) option" where
  "RegisterAuthenticatedPlayer rnd now later sessionId playerId dm udm =
     (case ls_RegisterPlayerSession rnd now later DEFAULT_DUNGEON_RECONNECT_GRACE sessionId playerId dm udm of
        None \<Rightarrow> None
      | Some (registration, dm, udm) \<Rightarrow>
          Some (if sr_status registration = InvalidIdentity then False
                else if sr_status registration = Reconnected \<and> sr_freshUdpToken registration = None then False
                else True, dm, udm))"

definition RemoveSession ::
    "int \<Rightarrow> SessionId \<Rightarrow> ChannelManager \<Rightarrow> PartyManager \<Rightarrow> DungeonManager \<Rightarrow> DungeonUdpManager \<Rightarrow> SessionManager \<Rightarrow>
     ChannelManager \<times> PartyManager \<times> DungeonManager \<times> DungeonUdpManager \<times> SessionManager" where
  "RemoveSession now sessionId cm pm dm udm sm =
     (let (_, dm, udm) = ls_DisconnectPlayerSession now sessionId dm udm;
          (_, cm) = LeaveChannel sessionId cm;
          (_, pm) = LeaveParty sessionId pm
      in (cm, pm, dm, udm, sm\<lparr>sm_sessions := filter (\<lambda>x. x \<noteq> sessionId) (sm_sessions sm)\<rparr>))"

text \<open>The sessions that \<open>Stop\<close> stops, one after the other, once it has released the mutex.\<close>

definition sm_Stop :: "SessionManager \<Rightarrow> SessionId list \<times> SessionManager" where
  "sm_Stop s = (if sm_stopping s then ([], s) else (sm_sessions s, s\<lparr>sm_stopping := True\<rparr>))"

definition ActiveSessionCount :: "SessionManager \<Rightarrow> nat" where
  "ActiveSessionCount s = length (sm_sessions s)"

section \<open>What can happen\<close>

record Server =
  se_world :: TickWorld
  se_channels :: ChannelManager
  se_parties :: PartyManager
  se_sessions :: SessionManager

definition with_managers :: "DungeonManager \<Rightarrow> DungeonUdpManager \<Rightarrow> Server \<Rightarrow> Server" where
  "with_managers dm udm s = s\<lparr>se_world := (se_world s)\<lparr>tw_dm := dm, tw_udm := udm\<rparr>\<rparr>"

definition with_service :: "DungeonTickService \<Rightarrow> Server \<Rightarrow> Server" where
  "with_service t s = s\<lparr>se_world := (se_world s)\<lparr>tw_service := t\<rparr>\<rparr>"

text \<open>
  Requests come from sessions that \<open>StartSession\<close> has created, so their identifier is not zero. The
  counters for dungeons and parties have not wrapped around, and the operating system hands out ports
  other than zero.
\<close>

inductive server_step ::
    "EnemyCatalog \<Rightarrow> DungeonCatalog \<Rightarrow> SkillCatalog \<Rightarrow> TickConfig \<Rightarrow> Server \<Rightarrow> Server \<Rightarrow> bool"
  for cat catalog skills cfg where
  tick: "HandleTick cat skills serialize cfg clk err (se_world s) = Inr (b, w) \<Longrightarrow>
    server_step cat catalog skills cfg s (s\<lparr>se_world := w\<rparr>)"
| start_ticks: "server_step cat catalog skills cfg s (with_service (snd (tick_Start (tw_service (se_world s)))) s)"
| first_tick: "server_step cat catalog skills cfg s (with_service (tick_Start_dispatched now (tw_service (se_world s))) s)"
| stop_ticks: "server_step cat catalog skills cfg s (with_service (snd (tick_Stop (tw_service (se_world s)))) s)"
| clear_ticks: "server_step cat catalog skills cfg s (with_service (tick_Stop_dispatched (tw_service (se_world s))) s)"
| connect: "server_step cat catalog skills cfg s (s\<lparr>se_sessions := snd (StartSession (se_sessions s))\<rparr>)"
| register: "RegisterAuthenticatedPlayer rnd now later x p (tw_dm (se_world s)) (tw_udm (se_world s)) = Some (b, dm, udm) \<Longrightarrow>
    server_step cat catalog skills cfg s (with_managers dm udm s)"
| remove: "RemoveSession now x (se_channels s) (se_parties s) (tw_dm (se_world s)) (tw_udm (se_world s)) (se_sessions s) =
      (cm, pm, dm, udm, sm) \<Longrightarrow>
    server_step cat catalog skills cfg s (with_managers dm udm (s\<lparr>se_channels := cm, se_parties := pm, se_sessions := sm\<rparr>))"
| join_channel: "server_step cat catalog skills cfg s (s\<lparr>se_channels := snd (JoinChannel x c (se_channels s))\<rparr>)"
| create_party: "x \<noteq> 0 \<Longrightarrow> unat (pm_nextPartyId (se_parties s)) < 2 ^ 64 - 1 \<Longrightarrow>
    server_step cat catalog skills cfg s (s\<lparr>se_parties := snd (CreateParty x (se_parties s))\<rparr>)"
| join_party: "x \<noteq> 0 \<Longrightarrow> server_step cat catalog skills cfg s (s\<lparr>se_parties := snd (JoinParty p x (se_parties s))\<rparr>)"
| leave_party: "server_step cat catalog skills cfg s (s\<lparr>se_parties := snd (LeaveParty x (se_parties s))\<rparr>)"
| enter: "unat (dm_nextDungeonId (tw_dm (se_world s))) < 2 ^ 64 - 1 \<Longrightarrow> bound \<noteq> Some 0 \<Longrightarrow>
    enter_dungeon catalog now rnd bound x tid (se_parties s) (tw_dm (se_world s)) (tw_udm (se_world s)) =
      Some (r, dm, udm) \<Longrightarrow>
    server_step cat catalog skills cfg s (with_managers dm udm s)"
| datagram: "map_of (udm_sessions (tw_udm (se_world s))) i = Some u \<Longrightarrow>
    HandleReceive parse serialize (udm_serverTick (tw_udm (se_world s))) sender now received u = Inr (reply, u') \<Longrightarrow>
    server_step cat catalog skills cfg s
      (with_managers (tw_dm (se_world s)) (put_session i u' (tw_udm (se_world s))) s)"
| pump: "map_of (udm_sessions (tw_udm (se_world s))) i = Some u \<Longrightarrow>
    u' = PumpSnapshotOnStrand u \<or> u' = CompleteSnapshotSend failed u \<Longrightarrow>
    server_step cat catalog skills cfg s
      (with_managers (tw_dm (se_world s)) (put_session i u' (tw_udm (se_world s))) s)"

inductive server_reachable ::
    "EnemyCatalog \<Rightarrow> DungeonCatalog \<Rightarrow> SkillCatalog \<Rightarrow> TickConfig \<Rightarrow> Server \<Rightarrow> bool"
  for cat catalog skills cfg where
  boot: "make_TickService cfg = Inr t \<Longrightarrow> cm_inv cm \<Longrightarrow>
    server_reachable cat catalog skills cfg
      \<lparr>se_world = \<lparr>tw_service = t, tw_dm = dm_init, tw_udm = udm_init, tw_pumps = []\<rparr>,
       se_channels = cm, se_parties = pm_init, se_sessions = sm_init\<rparr>"
| event: "server_reachable cat catalog skills cfg s \<Longrightarrow> server_step cat catalog skills cfg s s' \<Longrightarrow>
    server_reachable cat catalog skills cfg s'"

section \<open>What every event keeps\<close>

definition server_inv :: "EnemyCatalog \<Rightarrow> Server \<Rightarrow> bool" where
  "server_inv cat s \<longleftrightarrow> world_ok cat (se_world s) \<and> times_ok (se_world s) \<and> parties_ok (se_parties s) \<and>
     cm_inv (se_channels s)"

lemma parties_ok_CreateParty:
  "parties_ok pm \<Longrightarrow> x \<noteq> 0 \<Longrightarrow> unat (pm_nextPartyId pm) < 2 ^ 64 - 1 \<Longrightarrow> parties_ok (snd (CreateParty x pm))"
  using pm_inv_CreateParty [of pm x]
  by (auto simp: parties_ok_def CreateParty_def GetParty_def Let_def umap_simps split: if_splits)

lemma parties_ok_JoinParty: "parties_ok pm \<Longrightarrow> x \<noteq> 0 \<Longrightarrow> parties_ok (snd (JoinParty p x pm))"
  using pm_inv_JoinParty [of pm p x]
  by (auto simp: parties_ok_def JoinParty_def GetParty_def umap_simps split: if_splits option.splits)

lemma parties_ok_LeaveParty: "parties_ok pm \<Longrightarrow> parties_ok (snd (LeaveParty x pm))"
  using pm_inv_LeaveParty [of pm x]
  by (auto simp: parties_ok_def LeaveParty_def GetParty_def umap_simps Let_def split: if_splits option.splits)

text \<open>The state of a dungeon changes in the tick and when it is created or dropped, nowhere else.\<close>

lemma dungeon_state_modify_same:
  assumes "map_of (dm_dungeons dm) i = Some d" "di_state d' = di_state d" "dm_dungeons dm' = um_modify i (\<lambda>_. d') (dm_dungeons dm)"
  shows "dungeon_state dm' = dungeon_state dm"
  using assms by (auto simp: dungeon_state_def umap_simps fun_eq_iff)

lemma instance_state_fields [simp]:
  "di_state (snd (DisconnectParticipant x t d)) = di_state d"
  "di_state (snd (ReconnectParticipant p x now g d)) = di_state d"
  "di_state (snd (RollbackParticipantReconnect p x rc d)) = di_state d"
  by (auto simp: DisconnectParticipant_def ReconnectParticipant_def RollbackParticipantReconnect_def
      move_participant_def Let_def split: option.splits prod.splits)

lemma dungeon_state_Disconnect:
  assumes "um_ok (dm_dungeons dm)"
  shows "dungeon_state (snd (DisconnectPlayerSession x t dm)) = dungeon_state dm"
proof -
  from disconnect_first_cases [OF assms, of x t]
  have "map_option di_state (map_of (snd (disconnect_first x t (dm_dungeons dm))) i) = dungeon_state dm i" for i
    by (auto simp: dungeon_state_def umap_simps)
  then show ?thesis
    by (auto simp: dungeon_state_def fun_eq_iff DisconnectPlayerSession_def Let_def case_prod_beta split: option.splits)
qed

lemma dungeon_state_Rollback: "dungeon_state (snd (RollbackPlayerReconnect i p y x t dm)) = dungeon_state dm"
proof (cases "map_of (dm_dungeons dm) i")
  case (Some d)
  show ?thesis by (rule dungeon_state_modify_same [OF Some _ dm_dungeons_Rollback(1) [OF Some]]) simp
qed (simp add: RollbackPlayerReconnect_def)

lemma dungeon_state_register_in:
  assumes "dm_inv cat dm"
  shows "dungeon_state (snd (register_in_dungeons x p now g dm)) = dungeon_state dm"
proof (cases "find (\<lambda>e. HasParticipant (snd e) x) (dm_dungeons dm)")
  case None
  with try_reconnect_cases [OF dm_invD(1) [OF assms] dm_roster [OF assms], of p x now g] show ?thesis
  proof (elim disjE exE conjE)
    fix i d rc d'
    assume a: "map_of (dm_dungeons dm) i = Some d" "ReconnectParticipant p x now g d = (Some rc, d')"
      "try_reconnect p x now g (dm_dungeons dm) = (Some (i, rc), um_modify i (\<lambda>_. d') (dm_dungeons dm))"
    have "di_state d' = di_state d" using instance_state_fields(2) [of p x now g d] a(2) by simp
    with None a show ?thesis
      using dungeon_state_modify_same [OF a(1)] by (simp add: register_in_dungeons_def)
  qed (simp add: register_in_dungeons_def dungeon_state_def fun_eq_iff)
next
  case (Some e)
  obtain i d where e: "e = (i, d)" by fastforce
  have d: "map_of (dm_dungeons dm) i = Some d" using find_dungeon [OF dm_invD(1) [OF assms] Some [unfolded e]] by simp
  obtain b d' where b: "BindParticipantPlayer x p d = (b, d')" by fastforce
  have "di_state d' = di_state d" using Bind_state [of x p d] b by simp
  with Some e b d show ?thesis
    by (cases b) (auto simp: register_in_dungeons_def dungeon_state_def fun_eq_iff umap_simps)
qed

lemma dungeon_state_Register:
  assumes "dm_inv cat dm"
  shows "dungeon_state (snd (RegisterPlayerSession x p now g dm)) = dungeon_state dm"
proof -
  let ?s = "dm\<lparr>dm_authenticatedPlayers := um_emplace x p (dm_authenticatedPlayers dm),
        dm_activePlayerSessions := um_emplace p x (dm_activePlayerSessions dm)\<rparr>"
  show ?thesis
  proof (cases "RegisterPlayerSession x p now g dm = (invalid_registration, dm)")
    case False
    then have g: "map_of (dm_authenticatedPlayers dm) x \<in> {None, Some p}" "map_of (dm_activePlayerSessions dm) p \<in> {None, Some x}"
      "RegisterPlayerSession x p now g dm = register_in_dungeons x p now g ?s"
      using RegisterPlayerSession_guard [of x p now g dm] by blast+
    have "dm_inv cat ?s"
      by (rule dm_inv_login [OF assms login_inv_emplace [OF dm_invD(8) [OF assms] g(1,2)]])
    from dungeon_state_register_in [OF this, of x p now g] show ?thesis
      unfolding g(3) by (simp add: dungeon_state_def fun_eq_iff)
  qed simp
qed

lemma dungeon_state_ls_Register:
  assumes "dm_inv cat dm" "ls_RegisterPlayerSession rnd now later g x p dm udm = Some (r, dm', udm')"
  shows "dungeon_state dm' = dungeon_state dm"
proof -
  obtain rg dm\<^sub>1 where rg: "RegisterPlayerSession x p now g dm = (rg, dm\<^sub>1)" by fastforce
  have 1: "dm_inv cat dm\<^sub>1" "dungeon_state dm\<^sub>1 = dungeon_state dm"
    using RegisterPlayerSession_cases(1) [OF assms(1), of x p now g] dungeon_state_Register [OF assms(1), of x p now g] rg by auto
  consider "dm' = dm\<^sub>1"
    | i y t where "dm' = snd (RollbackPlayerReconnect i p x y t dm\<^sub>1)"
    | i y t where "dm' = snd (DisconnectPlayerSession x later (snd (RollbackPlayerReconnect i p x y t dm\<^sub>1)))"
    | "dm' = snd (DisconnectPlayerSession x later dm\<^sub>1)"
    using assms(2) rg
    by (auto simp: ls_RegisterPlayerSession_def Let_def case_prod_beta split: if_splits option.splits)
  moreover have "um_ok (dm_dungeons (snd (RollbackPlayerReconnect i p x y t dm\<^sub>1)))" for i y t
    using dm_invD(1) [OF 1(1)] by (auto simp: RollbackPlayerReconnect_def Let_def case_prod_beta split: option.splits)
  ultimately show ?thesis
    using 1 dm_invD(1) [OF 1(1)] by cases (simp_all add: dungeon_state_Rollback dungeon_state_Disconnect)
qed

section \<open>The invariant of the server\<close>

lemma HandleReceive_dungeonId:
  assumes "HandleReceive parse serialize tick e t rcv u = Inr (r, u')"
  shows "us_dungeonId u' = us_dungeonId u"
  using assms
  by (auto simp: HandleReceive_def HandleHello_def accept_hello_def receive_input_def receive_attack_def
      receive_heartbeat_def HandleHeartbeat_def HandlePlayerMovement_def HandlePlayerAttack_def Let_def
      split: if_splits receive_outcome.splits option.splits sum.splits)

lemma pump_fields:
  "us_tokens (PumpSnapshotOnStrand u) = us_tokens u \<and> us_dungeonId (PumpSnapshotOnStrand u) = us_dungeonId u"
  "us_tokens (SendSnapshotToNextEndpoint u) = us_tokens u \<and> us_dungeonId (SendSnapshotToNextEndpoint u) = us_dungeonId u"
  "us_tokens (FinishSnapshotOnStrand u) = us_tokens u \<and> us_dungeonId (FinishSnapshotOnStrand u) = us_dungeonId u"
proof (induction u and u and u rule: PumpSnapshotOnStrand_SendSnapshotToNextEndpoint_FinishSnapshotOnStrand.induct)
  case (1 s)
  then show ?case by (subst (1 2) PumpSnapshotOnStrand.simps) (auto split: option.splits)
next
  case (2 s)
  then show ?case by (subst (1 2) SendSnapshotToNextEndpoint.simps) auto
next
  case (3 s)
  then show ?case by (subst (1 2) FinishSnapshotOnStrand.simps) auto
qed

text \<open>A step of a UDP session that keeps its tokens.\<close>

lemma world_ok_put:
  assumes w: "world_ok cat w" "times_ok w" and u: "map_of (udm_sessions (tw_udm w)) i = Some u"
    and u': "us_inv u \<Longrightarrow> us_inv u'" "us_dungeonId u' = us_dungeonId u" "us_tokens u' = us_tokens u"
  shows "world_ok cat (w\<lparr>tw_dm := tw_dm w, tw_udm := put_session i u' (tw_udm w)\<rparr>) \<and>
    times_ok (w\<lparr>tw_dm := tw_dm w, tw_udm := put_session i u' (tw_udm w)\<rparr>)"
proof -
  have inv: "udm_inv (tw_udm w)" using w(1) by (simp add: world_ok_def)
  have "udm_inv (put_session i u' (tw_udm w))"
    using udm_inv_update [OF inv u] u' udm_invD(2) [OF inv u] by blast
  with w holders_put_same [OF u u'(3)] show ?thesis
    by (auto simp: world_ok_def times_ok_def intro: synced_cong)
qed

lemma world_ok_managers:
  assumes "world_ok cat w" "times_ok w" "dm_inv cat dm" "udm_inv udm" "synced dm udm"
    "\<And>i. dungeon_state (tw_dm w) i \<noteq> None \<Longrightarrow> dungeon_state dm i = dungeon_state (tw_dm w) i"
  shows "world_ok cat (w\<lparr>tw_dm := dm, tw_udm := udm\<rparr>) \<and> times_ok (w\<lparr>tw_dm := dm, tw_udm := udm\<rparr>)"
  using assms by (fastforce simp: world_ok_def times_ok_def)

lemma dungeon_state_enter:
  assumes "dm_inv cat dm" "enter_dungeon catalog now rnd bound x tid pm dm udm = Some (r, dm', udm')" "dungeon_state dm i \<noteq> None"
  shows "dungeon_state dm' i = dungeon_state dm i"
proof -
  let ?n = "dm_nextDungeonId dm"
  have "i \<noteq> ?n" using dm_invD(5) [OF assms(1), of i] assms(3) by (fastforce simp: dungeon_state_def)
  moreover have create: "dungeon_state (snd (CreateDungeon pm catalog p tid now dm)) i = dungeon_state dm i" for p
    using calculation by (auto simp: CreateDungeon_def dungeon_state_def Let_def umap_simps split: option.splits sum.splits)
  moreover have "dungeon_state dm'' i = dungeon_state dm\<^sub>1 i"
    if "open_dungeon rnd bound x d dm\<^sub>1 udm = Some (r', dm'', udm'')" "di_dungeonId d = ?n" for d dm\<^sub>1 r' dm'' udm''
    using that dungeon_state_Cancel [of ?n dm\<^sub>1] calculation(1)
    by (auto simp: open_dungeon_def Let_def split: option.splits prod.splits if_splits)
  moreover have "di_dungeonId d = ?n" if "CreateDungeon pm catalog p tid now dm = (Inr (st, Some d), dm\<^sub>1)" for p st d dm\<^sub>1
  proof -
    have "di_dungeonId (bind_members auth xs d) = di_dungeonId d" for auth xs d
      by (induction auth xs d rule: bind_members.induct) (auto split: option.splits)
    then show ?thesis
      using that by (auto simp: CreateDungeon_def make_DungeonInstance_def Let_def split: if_splits option.splits sum.splits)
  qed
  ultimately show ?thesis
    using assms(2)
    by (auto simp: enter_dungeon_def split: option.splits if_splits prod.splits sum.splits CreateDungeonStatus.splits)
       (metis snd_conv)+
qed

lemma HandleReceive_tokens:
  assumes "HandleReceive parse serialize tick e t rcv u = Inr (r, u')"
  shows "us_tokens u' = us_tokens u"
  using assms
  by (auto simp: HandleReceive_def HandleHello_def accept_hello_def receive_input_def receive_attack_def
      receive_heartbeat_def HandleHeartbeat_def HandlePlayerMovement_def HandlePlayerAttack_def Let_def
      split: if_splits receive_outcome.splits option.splits sum.splits)

lemma Complete_fields:
  "us_tokens (CompleteSnapshotSend failed u) = us_tokens u \<and> us_dungeonId (CompleteSnapshotSend failed u) = us_dungeonId u"
  by (simp add: CompleteSnapshotSend_def Let_def pump_fields)

lemma world_ok_service:
  assumes "world_ok cat w" "times_ok w" "ts_pendingHits t = ts_pendingHits (tw_service w)"
    "ts_waitingSince t \<in> {[], ts_waitingSince (tw_service w)}" "ts_finishedSince t \<in> {[], ts_finishedSince (tw_service w)}"
  shows "world_ok cat (w\<lparr>tw_service := t\<rparr>) \<and> times_ok (w\<lparr>tw_service := t\<rparr>)"
  using assms by (auto simp: world_ok_def times_ok_def umap_simps)

lemma tick_service_fields:
  "ts_pendingHits (snd (tick_Start t)) = ts_pendingHits t" "ts_waitingSince (snd (tick_Start t)) = ts_waitingSince t"
  "ts_finishedSince (snd (tick_Start t)) = ts_finishedSince t"
  "ts_pendingHits (tick_Start_dispatched now t) = ts_pendingHits t" "ts_waitingSince (tick_Start_dispatched now t) = ts_waitingSince t"
  "ts_finishedSince (tick_Start_dispatched now t) = ts_finishedSince t"
  "ts_pendingHits (snd (tick_Stop t)) = ts_pendingHits t" "ts_waitingSince (snd (tick_Stop t)) = ts_waitingSince t"
  "ts_finishedSince (snd (tick_Stop t)) = ts_finishedSince t"
  "ts_pendingHits (tick_Stop_dispatched t) = ts_pendingHits t" "ts_waitingSince (tick_Stop_dispatched t) = []"
  "ts_finishedSince (tick_Stop_dispatched t) = []"
  for t :: DungeonTickService
  by (simp_all add: tick_Start_def tick_Start_dispatched_def tick_Stop_def tick_Stop_dispatched_def ScheduleNextTick_def)

lemma HandleTick_ok:
  assumes "enemies_ok cat" "skills_defined skills" "config_ok cfg" "world_ok cat w" "times_ok w"
  shows "\<exists>b w'. HandleTick cat skills serialize cfg clk err w = Inr (b, w') \<and> world_ok cat w' \<and> times_ok w'"
proof (cases "\<not> ts_running (tw_service w) \<or> err \<noteq> Expired")
  case True
  have "world_ok cat (w\<lparr>tw_service := snd (tick_Stop (tw_service w))\<rparr>) \<and> times_ok (w\<lparr>tw_service := snd (tick_Stop (tw_service w))\<rparr>)"
    using assms(4,5) by (intro world_ok_service) (simp_all add: tick_service_fields)
  with True assms(4,5) show ?thesis
    by (cases err) (auto simp: HandleTick_def case_prod_beta)
next
  case False
  with run_tick_ok [OF assms, of serialize clk] show ?thesis by (auto simp: HandleTick_def)
qed

lemma server_inv_service:
  assumes "server_inv cat s" "ts_pendingHits t = ts_pendingHits (tw_service (se_world s))"
    "ts_waitingSince t \<in> {[], ts_waitingSince (tw_service (se_world s))}"
    "ts_finishedSince t \<in> {[], ts_finishedSince (tw_service (se_world s))}"
  shows "server_inv cat (with_service t s)"
  using assms world_ok_service [of cat "se_world s" t] by (simp add: server_inv_def with_service_def)

lemma server_inv_managers:
  assumes "server_inv cat s" "dm_inv cat dm" "udm_inv udm" "synced dm udm"
    "\<And>i. dungeon_state (tw_dm (se_world s)) i \<noteq> None \<Longrightarrow> dungeon_state dm i = dungeon_state (tw_dm (se_world s)) i"
  shows "server_inv cat (with_managers dm udm s)"
  using assms world_ok_managers [of cat "se_world s" dm udm] by (simp add: server_inv_def with_managers_def)

text \<open>Every event keeps the invariant.\<close>

lemma server_inv_step:
  assumes step: "server_step cat catalog skills cfg s s'" and inv: "server_inv cat s"
    and cat: "enemies_ok cat" "skills_defined skills" "config_ok cfg" "catalog_inv cat catalog"
  shows "server_inv cat s'"
proof -
  have w: "world_ok cat (se_world s)" "times_ok (se_world s)" "parties_ok (se_parties s)" "cm_inv (se_channels s)"
    using inv by (auto simp: server_inv_def)
  then have m: "dm_inv cat (tw_dm (se_world s))" "udm_inv (tw_udm (se_world s))"
    "synced (tw_dm (se_world s)) (tw_udm (se_world s))" by (auto simp: world_ok_def)
  from step show ?thesis
  proof cases
    case (tick serialize clk err b w')
    with HandleTick_ok [OF cat(1-3) w(1,2), of serialize clk err] w show ?thesis by (simp add: server_inv_def)
  next
    case (register rnd now later x p b dm udm)
    then obtain r where "ls_RegisterPlayerSession rnd now later DEFAULT_DUNGEON_RECONNECT_GRACE x p (tw_dm (se_world s))
        (tw_udm (se_world s)) = Some (r, dm, udm)"
      by (auto simp: RegisterAuthenticatedPlayer_def split: option.splits)
    from ls_Register_keeps [OF m this] dungeon_state_ls_Register [OF m(1) this] register(1) show ?thesis
      using server_inv_managers [OF inv, of dm udm] by simp
  next
    case (remove now x cm pm dm udm sm)
    then obtain b where d: "ls_DisconnectPlayerSession now x (tw_dm (se_world s)) (tw_udm (se_world s)) = (b, dm, udm)"
      and l: "cm = snd (LeaveChannel x (se_channels s))" "pm = snd (LeaveParty x (se_parties s))"
      by (auto simp: RemoveSession_def split: prod.splits)
    have "dungeon_state dm = dungeon_state (tw_dm (se_world s))"
      using d dungeon_state_Disconnect [OF dm_invD(1) [OF m(1)], of x now]
      by (auto simp: ls_DisconnectPlayerSession_def split: prod.splits option.splits)
    moreover have "server_inv cat (s\<lparr>se_channels := cm, se_parties := pm, se_sessions := sm\<rparr>)"
      using w l by (simp add: server_inv_def parties_ok_LeaveParty cm_inv_LeaveChannel)
    ultimately show ?thesis
      using ls_Disconnect_keeps [OF m d] remove(1)
        server_inv_managers [where s = "s\<lparr>se_channels := cm, se_parties := pm, se_sessions := sm\<rparr>"] by simp
  next
    case (enter bound now rnd x tid r dm udm)
    from enter_dungeon_result [OF m cat(4) w(3) enter(2,3,4)] dungeon_state_enter [OF m(1) enter(4)] enter(1)
    show ?thesis by (auto intro: server_inv_managers [OF inv])
  next
    case (datagram i u parse serialize sender now received reply u')
    have "us_inv u \<Longrightarrow> us_inv u'" 
      using HandleReceive_total [of u parse serialize "udm_serverTick (tw_udm (se_world s))" sender now received] datagram(3) by simp
    from world_ok_put [OF w(1,2) datagram(2) this HandleReceive_dungeonId [OF datagram(3)] HandleReceive_tokens [OF datagram(3)]]
      datagram(1) w show ?thesis by (simp add: server_inv_def with_managers_def)
  next
    case (pump i u u' failed)
    then have "us_inv u \<Longrightarrow> us_inv u'" "us_dungeonId u' = us_dungeonId u" "us_tokens u' = us_tokens u"
      using us_inv_pump us_inv_Complete pump_fields Complete_fields by auto
    from world_ok_put [OF w(1,2) pump(2) this] pump(1) w show ?thesis by (simp add: server_inv_def with_managers_def)
  qed (use w in \<open>auto intro!: server_inv_service [OF inv] simp: tick_service_fields\<close>;
       auto simp: server_inv_def parties_ok_CreateParty parties_ok_JoinParty parties_ok_LeaveParty cm_inv_JoinChannel)+
qed

lemma server_reachable_inv:
  assumes "server_reachable cat catalog skills cfg s"
    and "enemies_ok cat" "skills_defined skills" "config_ok cfg" "catalog_inv cat catalog"
  shows "server_inv cat s"
  using assms(1)
proof induction
  case (boot t cm)
  then have "ts_pendingHits t = []" "ts_waitingSince t = []" "ts_finishedSince t = []"
    by (auto simp: make_TickService_def split: if_splits)
  with boot(2) show ?case
    using dm_inv_init udm_inv_init pm_inv_init
    by (auto simp: server_inv_def world_ok_def times_ok_def umap_simps synced_def holders_def udm_init_def hits_defined_def
        parties_ok_def GetParty_def pm_init_def)
qed (use assms(2-) server_inv_step in blast)

end
