(* ===== verification/Loader_Properties.thy ===== *)
theory Loader_Properties
  imports Game_Data_Loader Request_Handlers Server_Runs Sample_Tcp Simulation_Properties "HOL-Library.Multiset"
begin

text \<open>
  Properties of the game data on its way from the files to the server and to the clients: what a load
  stores, on which server it can run, and that the static data of every loaded dungeon can be served.
\<close>

section \<open>A game to load\<close>

text \<open>A small property tree with the game of \<open>Sample_Data\<close>, and the functions that read it.\<close>

datatype json = JNumber int | JText string | JFlag bool | JTree "(string \<times> json) list"

fun json_children :: "json \<Rightarrow> (string \<times> json) list" where
  "json_children (JTree ts) = ts"
| "json_children _ = []"

fun json_number :: "json \<Rightarrow> int option" where
  "json_number (JNumber i) = Some i"
| "json_number _ = None"

fun json_text :: "json \<Rightarrow> string option" where
  "json_text (JText v) = Some v"
| "json_text _ = None"

fun json_flag :: "json \<Rightarrow> bool option" where
  "json_flag (JFlag b) = Some b"
| "json_flag _ = None"

definition json_get :: "(json \<Rightarrow> 'a option) \<Rightarrow> json \<Rightarrow> string \<Rightarrow> 'a option" where
  "json_get f t field = (case map_of (json_children t) field of None \<Rightarrow> None | Some c \<Rightarrow> f c)"

definition json_ops :: "json ptree_ops" where
  "json_ops =
     \<lparr>get_u32 = json_get (\<lambda>t. map_option word_of_int (json_number t)),
      get_u8 = json_get (\<lambda>t. map_option word_of_int (json_number t)),
      get_size = json_get (\<lambda>t. map_option nat (json_number t)),
      get_float = json_get (\<lambda>t. map_option whole (json_number t)),
      get_bool = json_get json_flag, get_string = json_get json_text, get_child = json_get Some,
      children = json_children\<rparr>"

definition json_array :: "json list \<Rightarrow> json" where
  "json_array ts = JTree (map (\<lambda>t. ([], t)) ts)"

definition json_point :: "int \<Rightarrow> int \<Rightarrow> int \<Rightarrow> json" where
  "json_point x y z = JTree [(''x'', JNumber x), (''y'', JNumber y), (''z'', JNumber z)]"

definition json_box :: "int \<Rightarrow> int \<Rightarrow> json" where
  "json_box lo hi = JTree [(''minimum'', json_point lo lo 0), (''maximum'', json_point hi hi 2)]"

definition json_spawn :: "int \<Rightarrow> int \<Rightarrow> json" where
  "json_spawn i w = JTree [(''id'', JNumber i), (''enemyTemplateId'', JNumber 7), (''position'', json_point 5 5 0), (''wave'', JNumber w)]"

definition channels_json :: json where
  "channels_json = JTree [(''contentVersion'', JNumber 3), (''channels'', json_array
     [JTree [(''id'', JNumber 1), (''name'', JText ''town''), (''maxPlayers'', JNumber 50)]])]"

definition skills_json :: json where
  "skills_json = JTree [(''contentVersion'', JNumber 3), (''skills'', json_array
     [JTree [(''id'', JNumber 5), (''name'', JText ''slash''), (''cooldownTicks'', JNumber 10), (''manaCost'', JNumber 5),
        (''startupTicks'', JNumber 0), (''activeTicks'', JNumber 2), (''recoveryTicks'', JNumber 1),
        (''hitBox'', JTree [(''forwardRange'', JNumber 6), (''backwardRange'', JNumber 1), (''halfDepth'', JNumber 3), (''height'', JNumber 2)]),
        (''effects'', json_array [JTree [(''type'', JText ''damage''), (''target'', JText ''enemy''), (''stat'', JText ''none''),
           (''value'', JNumber 1), (''durationTicks'', JNumber 0)]])]])]"

definition enemies_json :: json where
  "enemies_json = JTree [(''contentVersion'', JNumber 3), (''enemies'', json_array
     [JTree [(''id'', JNumber 7), (''name'', JText ''goblin''), (''maxHp'', JNumber 30), (''moveSpeed'', JNumber 2),
        (''aiType'', JText ''melee''), (''collision'', json_box 0 1)]])]"

definition forest_json :: json where
  "forest_json = JTree [(''contentVersion'', JNumber 3), (''dungeon'', JTree
     [(''id'', JNumber 1), (''name'', JText ''forest''), (''recommendedPartySize'', JNumber 2), (''maxPartySize'', JNumber 4),
      (''rooms'', json_array
        [JTree [(''id'', JNumber 1), (''width'', JNumber 10), (''depth'', JNumber 10), (''playerSpawn'', json_point 1 1 0),
           (''portals'', json_array [JTree [(''id'', JNumber 1), (''triggerArea'', json_box 8 10), (''targetRoomId'', JNumber 2),
              (''targetPosition'', json_point 1 1 0), (''requiresRoomClear'', JFlag True)]]),
           (''obstacles'', json_array []), (''enemySpawns'', json_array [json_spawn 1 1, json_spawn 2 3])],
         JTree [(''id'', JNumber 2), (''width'', JNumber 6), (''depth'', JNumber 6), (''playerSpawn'', json_point 1 1 0),
           (''portals'', json_array []),
           (''obstacles'', json_array [JTree [(''id'', JNumber 1), (''collision'', json_box 3 4), (''destructible'', JFlag True),
              (''maxHp'', JNumber 10)]]),
           (''enemySpawns'', json_array [])]])])]"

definition sample_file :: "path \<Rightarrow> (nat \<times> string) + json" where
  "sample_file p =
     (case map_of [([''data'', ''channels.json''], channels_json), ([''data'', ''skills.json''], skills_json),
        ([''data'', ''enemies.json''], enemies_json), ([''data'', ''dungeons'', ''forest.json''], forest_json)] p of
        None \<Rightarrow> Inl (0, ''cannot open file'')
      | Some t \<Rightarrow> Inr t)"

definition sample_fs :: "json file_system" where
  "sample_fs =
     \<lparr>is_directory = (\<lambda>p. p = [''data''] \<or> p = [''data'', ''dungeons'']),
      is_regular_file = (\<lambda>p. \<not> isl (sample_file p) \<or> p = [''data'', ''dungeons'', ''notes.txt'']),
      directory_entries = (\<lambda>p. [[''data'', ''dungeons'', ''notes.txt''], [''data'', ''dungeons'', ''forest.json'']]),
      read_json = sample_file\<rparr>"

lemma sample_loaded:
  "Load sample_fs json_ops [''data''] no_data =
     (Inr \<lparr>lr_contentVersion = 3, lr_channelCount = 1, lr_skillCount = 1, lr_enemyCount = 1, lr_dungeonCount = 1\<rparr>,
      \<lparr>gd_channels = snd (AddChannel 1 ''town'' 50 cm_init), gd_skills = sample_skills, gd_enemies = sample_enemies,
       gd_dungeons = sample_dungeons,
       gd_result = \<lparr>lr_contentVersion = 3, lr_channelCount = 1, lr_skillCount = 1, lr_enemyCount = 1, lr_dungeonCount = 1\<rparr>\<rparr>)"
  by code_simp

definition sample_game :: GameData where
  "sample_game = snd (Load sample_fs json_ops [''data''] no_data)"

lemma sample_game_fields:
  "Load sample_fs json_ops [''data''] no_data = (Inr (gd_result sample_game), sample_game)"
  "gd_skills sample_game = sample_skills" "gd_enemies sample_game = sample_enemies" "gd_dungeons sample_game = sample_dungeons"
  "gd_channels sample_game = snd (AddChannel 1 ''town'' 50 cm_init)"
  by (simp_all add: sample_game_def sample_loaded)

section \<open>What a load stores\<close>


text \<open>A file of the loaded version whose array is not empty and has all its elements stored.\<close>

definition file_loaded :: "'t file_system \<Rightarrow> 't ptree_ops \<Rightarrow> u32 \<Rightarrow> path \<Rightarrow> string \<Rightarrow> ('t \<Rightarrow> bool) \<Rightarrow> bool" where
  "file_loaded fs pt v path collection present \<longleftrightarrow>
     (\<exists>tree items. read_json fs path = Inr tree \<and> get_u32 pt tree ''contentVersion'' = Some v \<and>
        get_child pt tree collection = Some items \<and> children pt items \<noteq> [] \<and>
        (\<forall>node \<in> set (children pt items). present (snd node)))"

text \<open>C12. After a successful load every entry of every file is in its catalog as it was read, there is one dungeon
  for each dungeon file, all files carry the content version of the result, which is not zero, and the data is
  valid: admitted by the catalogs, finite, and counted.\<close>

theorem loaded_game_complete:
  assumes "Load fs pt dir no_data = (Inr result, g)"
  shows "game_inv g \<and> result = gd_result g \<and> lr_contentVersion result \<noteq> 0 \<and>
    file_loaded fs pt (lr_contentVersion result) (dir @ [''channels.json'']) ''channels''
      (\<lambda>node. \<exists>c item. read_channel pt node c = Inr item \<and> channel_stored item g) \<and>
    file_loaded fs pt (lr_contentVersion result) (dir @ [''skills.json'']) ''skills''
      (\<lambda>node. \<exists>c item. read_skill pt node c = Inr item \<and> skill_stored item g) \<and>
    file_loaded fs pt (lr_contentVersion result) (dir @ [''enemies.json'']) ''enemies''
      (\<lambda>node. \<exists>c item. read_enemy pt node c = Inr item \<and> enemy_stored item g) \<and>
    (\<exists>paths. FindDungeonFiles fs (dir @ [''dungeons'']) = Inr paths \<and> length (gd_dungeons g) = length paths \<and>
       (\<forall>path \<in> set paths. \<exists>tree d. read_json fs path = Inr tree \<and>
          get_u32 pt tree ''contentVersion'' = Some (lr_contentVersion result) \<and>
          read_dungeon pt tree (gd_enemies g) path = Inr d \<and> GetDungeon (gd_dungeons g) (dt_id d) = Some d))"
proof -
  from Load_phases [OF assms] obtain g1 g2 g3 paths where
      1: "LoadChannels fs pt (dir @ [''channels.json'']) (no_data\<lparr>gd_result := no_result\<rparr>) = (Inr (), g1)"
    and 2: "LoadSkills fs pt (dir @ [''skills.json'']) g1 = (Inr (), g2)"
    and 3: "LoadEnemies fs pt (dir @ [''enemies.json'']) g2 = (Inr (), g3)"
    and 4: "FindDungeonFiles fs (dir @ [''dungeons'']) = Inr paths"
    and 5: "load_dungeons fs pt paths g3 = (Inr (), g)" and result: "result = gd_result g"
    by metis
  have start: "game_inv (no_data\<lparr>gd_result := no_result\<rparr>)" using game_inv_no_data by (simp add: no_data_def)
  note c = channel_phase.load_collection_complete [OF 1 [unfolded LoadChannels_def]]
    and s = skill_phase.load_collection_complete [OF 2 [unfolded LoadSkills_def]]
    and e = enemy_phase.load_collection_complete [OF 3 [unfolded LoadEnemies_def]]
  have i1: "game_inv g1 \<and> gd_dungeons g1 = []" 
    using phase_frames(1) [OF start, of fs pt "dir @ [''channels.json'']"] 1
    by (simp add: no_data_def)
  then have i2: "game_inv g2 \<and> gd_dungeons g2 = [] \<and> gd_channels g2 = gd_channels g1" using phase_frames(2) [of g1 fs pt] 2 by (metis snd_conv)
  then have i3: "game_inv g3 \<and> gd_dungeons g3 = [] \<and> gd_channels g3 = gd_channels g1 \<and> gd_skills g3 = gd_skills g2"
    using phase_frames(3) [of g2 fs pt] 3 by (metis snd_conv)
  then have i4: "game_inv g" "gd_channels g = gd_channels g1" "gd_skills g = gd_skills g2" "gd_enemies g = gd_enemies g3"
    using load_dungeons_inv [of g3 fs pt paths] 5 by auto
  have v: "lr_contentVersion (gd_result g1) = lr_contentVersion (gd_result g)"
      "lr_contentVersion (gd_result g2) = lr_contentVersion (gd_result g)"
      "lr_contentVersion (gd_result g3) = lr_contentVersion (gd_result g)" "lr_contentVersion (gd_result g) \<noteq> 0"
    using c s e load_dungeons_complete [OF 5 conjunct1 [OF i3]] by metis+
  have d: "length (gd_dungeons g) = length paths \<and>
       (\<forall>path \<in> set paths. \<exists>tree d. read_json fs path = Inr tree \<and>
          get_u32 pt tree ''contentVersion'' = Some (lr_contentVersion (gd_result g)) \<and>
          read_dungeon pt tree (gd_enemies g) path = Inr d \<and> GetDungeon (gd_dungeons g) (dt_id d) = Some d)"
    using load_dungeons_complete [OF 5 conjunct1 [OF i3]] v i3 by (simp add: GetDungeon_def i4(4))
  have stored: "channel_stored item g1 = channel_stored item g" "skill_stored sk g2 = skill_stored sk g"
    "enemy_stored en g3 = enemy_stored en g" for item sk en
    by (simp_all add: channel_stored_def skill_stored_def enemy_stored_def i4)
  show ?thesis
    using c s e 4 d i4(1) v(4) unfolding file_loaded_def result stored v by (intro conjI) blast+
qed

theorem loaded_game_complete_witness:
  "game_inv sample_game \<and> file_loaded sample_fs json_ops 3 [''data'', ''skills.json''] ''skills''
     (\<lambda>node. \<exists>c item. read_skill json_ops node c = Inr item \<and> skill_stored item sample_game)"
proof -
  have "lr_contentVersion (gd_result sample_game) = 3" by (simp add: sample_game_def sample_loaded)
  then show ?thesis using loaded_game_complete [OF sample_game_fields(1)] by (simp add: file_loaded_def)
qed

text \<open>The order in which the operating system lists a directory has no influence on a load.\<close>

lemma load_independent_of_listing:
  assumes "\<And>d. mset (listing d) = mset (directory_entries fs d)"
  shows "Load (fs\<lparr>directory_entries := listing\<rparr>) pt dir g = Load fs pt dir g"
proof -
  let ?fs = "fs\<lparr>directory_entries := listing\<rparr>"
  have "open_file ?fs pt = open_file fs pt" by (simp add: fun_eq_iff open_file_def ReadJsonFile_def)
  then have col: "load_collection ?fs pt r i a = load_collection fs pt r i a" and "LoadDungeon ?fs pt = LoadDungeon fs pt"
    for r :: "'a \<Rightarrow> string \<Rightarrow> load_error + 'i" and i a
    by (simp_all add: fun_eq_iff load_collection_def LoadDungeon_def)
  then have dungeons: "load_dungeons ?fs pt paths h = load_dungeons fs pt paths h" for paths h
    by (induction paths arbitrary: h) (auto simp: seq_load_def split: prod.splits sum.splits)
  have "sort (filter P (listing d)) = sort (filter P (directory_entries fs d))" for P d
    by (rule properties_for_sort) (simp_all add: assms)
  then have "FindDungeonFiles ?fs d = FindDungeonFiles fs d" for d by (simp add: FindDungeonFiles_def)
  then show ?thesis by (simp add: Load_def LoadChannels_def LoadSkills_def LoadEnemies_def dungeons col cong: sum.case_cong)
qed

section \<open>What the server does with it\<close>




section \<open>What a client gets of it\<close>

lemma collect_enemies_result:
  assumes "\<forall>sp \<in> set sps. um_contains enemies (spawn_enemyTemplateId sp)"
    and keys: "\<And>i e. map_of enemies i = Some e \<Longrightarrow> enemy_id e = i"
  shows "\<exists>es. collect_enemies enemies sps added = Some es \<and> distinct (map enemy_id es) \<and>
    set es = {e. \<exists>sp \<in> set sps. spawn_enemyTemplateId sp \<notin> set added \<and> GetEnemy enemies (spawn_enemyTemplateId sp) = Some e}"
  using assms(1)
proof (induction sps arbitrary: added)
  case (Cons sp sps)
  let ?i = "spawn_enemyTemplateId sp"
  show ?case
  proof (cases "?i \<in> set added")
    case True
    from Cons.IH [of added] Cons.prems obtain es where "collect_enemies enemies sps added = Some es \<and> distinct (map enemy_id es) \<and>
        set es = {e. \<exists>sp \<in> set sps. spawn_enemyTemplateId sp \<notin> set added \<and> GetEnemy enemies (spawn_enemyTemplateId sp) = Some e}"
      by auto
    with True show ?thesis by auto
  next
    case False
    obtain e where e: "GetEnemy enemies ?i = Some e" using Cons.prems by (auto simp: um_contains_def GetEnemy_def)
    from Cons.IH [of "?i # added"] Cons.prems obtain es where es: "collect_enemies enemies sps (?i # added) = Some es"
        "distinct (map enemy_id es)" "set es = {e. \<exists>sp \<in> set sps. spawn_enemyTemplateId sp \<notin> set (?i # added) \<and>
           GetEnemy enemies (spawn_enemyTemplateId sp) = Some e}"
      by auto
    have "enemy_id e = ?i" using keys e by (simp add: GetEnemy_def)
    moreover have "\<forall>x \<in> set es. enemy_id x \<noteq> ?i" using keys by (auto simp: es(3) GetEnemy_def)
    ultimately have "distinct (map enemy_id (e # es))" using es(2) by auto
    moreover have "set (e # es) = {e. \<exists>sp \<in> set (sp # sps). spawn_enemyTemplateId sp \<notin> set added \<and>
        GetEnemy enemies (spawn_enemyTemplateId sp) = Some e}"
      using False e es(3) by auto (metis option.inject)
    ultimately show ?thesis using False e es(1) by auto
  qed
qed simp

text \<open>The data of a loaded dungeon passes the validation of the protocol.\<close>

lemma loaded_static_data:
  assumes inv: "game_inv g" and t: "GetDungeon (gd_dungeons g) tid = Some t" and "i \<noteq> 0"
  shows "\<exists>es. collect_enemies (gd_enemies g) (concat (map room_enemySpawns (dt_rooms t))) [] = Some es \<and>
    set es = {e. \<exists>room \<in> set (dt_rooms t). \<exists>sp \<in> set (room_enemySpawns room).
      GetEnemy (gd_enemies g) (spawn_enemyTemplateId sp) = Some e} \<and>
    IsValidStaticData \<lparr>sd_result = StaticSuccess, sd_dungeonId = i, sd_dungeonTemplateId = dt_id t, sd_rooms = dt_rooms t,
      sd_enemyTemplates = sort_key enemy_id es\<rparr>"
proof -
  have d: "dt_id t \<noteq> 0" "rooms_valid (gd_enemies g) (dt_rooms t)" "\<forall>room \<in> set (dt_rooms t). finite_room room"
    using inv t by (auto simp: game_inv_def dungeons_loaded_def catalog_inv_def GetDungeon_def)
  have keys: "enemy_id e = j" "static_enemy_ok e" if "map_of (gd_enemies g) j = Some e" for j e
    using inv that by (auto simp: game_inv_def enemies_loaded_def)
  have known: "\<forall>sp \<in> set (concat (map room_enemySpawns (dt_rooms t))). um_contains (gd_enemies g) (spawn_enemyTemplateId sp)"
    using d(2) by (auto simp: rooms_valid_def spawns_valid_def)
  from collect_enemies_result [OF known keys(1), of "[]"] obtain es where es:
      "collect_enemies (gd_enemies g) (concat (map room_enemySpawns (dt_rooms t))) [] = Some es" "distinct (map enemy_id es)"
      "set es = {e. \<exists>room \<in> set (dt_rooms t). \<exists>sp \<in> set (room_enemySpawns room).
        GetEnemy (gd_enemies g) (spawn_enemyTemplateId sp) = Some e}"
    by auto
  have "spawn_enemyTemplateId sp \<in> set (map enemy_id es)" if sp: "room \<in> set (dt_rooms t)" "sp \<in> set (room_enemySpawns room)" for room sp
  proof -
    obtain e where e: "map_of (gd_enemies g) (spawn_enemyTemplateId sp) = Some e"
      using known sp by (force simp: um_contains_def)
    with sp es(3) have "e \<in> set es" by (auto simp: GetEnemy_def)
    with keys(1) [OF e] show ?thesis by force
  qed
  then have "rooms_valid (enemy_map (sort_key enemy_id es)) (dt_rooms t)"
    using d(2) by (simp add: rooms_valid_def spawns_valid_def enemy_map_contains)
  moreover have "distinct (map enemy_id (sort_key enemy_id es))" using es(2) by (simp add: distinct_map)
  moreover have "\<forall>e \<in> set es. static_enemy_ok e" using es(3) keys(2) by (auto simp: GetEnemy_def)
  ultimately have "IsValidStaticData \<lparr>sd_result = StaticSuccess, sd_dungeonId = i, sd_dungeonTemplateId = dt_id t, sd_rooms = dt_rooms t,
      sd_enemyTemplates = sort_key enemy_id es\<rparr>"
    using d assms(3) by (simp add: IsValidStaticData_iff)
  with es show ?thesis by blast
qed

text \<open>C13. A participant of a dungeon that asks for its static data gets it: the rooms of the dungeon and exactly
  the enemies that spawn in them, in a payload that the client's decoder accepts and reads back unchanged. Only
  a packet beyond the size limit is refused.\<close>

theorem static_data_served:
  assumes "Load fs pt dir no_data = (Inr result, g)" "tcp_faithful parse serialize"
    and request: "DecodeDungeonStaticDataRequestPayload parse (payload request) = Inr i"
    and dungeon: "FindDungeon dm i = Some d" "HasParticipant d x"
    and t: "GetDungeon (gd_dungeons g) (dt_id (di_dungeonTemplate d)) = Some t"
  shows "\<exists>response bytes.
    sd_result response = StaticSuccess \<and> sd_dungeonId response = i \<and> sd_dungeonTemplateId response = dt_id t \<and>
    sd_rooms response = dt_rooms t \<and> sorted (map enemy_id (sd_enemyTemplates response)) \<and>
    set (sd_enemyTemplates response) = {e. \<exists>room \<in> set (dt_rooms t). \<exists>sp \<in> set (room_enemySpawns room).
      GetEnemy (gd_enemies g) (spawn_enemyTemplateId sp) = Some e} \<and>
    DecodeDungeonStaticDataResponsePayload parse bytes = Inr response \<and>
    HandleDungeonStaticDataRequest parse serialize (gd_enemies g) (gd_dungeons g) x request dm =
      map_sum HPacket id (EncodePacket 111 (requestId (header request)) bytes)"
proof -
  have inv: "game_inv g" using Load_inv [of fs pt dir] assms(1) by simp
  have "i \<noteq> 0" using static_data_request.decode_acceptable [OF request] .
  from loaded_static_data [OF inv t this] obtain es where es:
      "collect_enemies (gd_enemies g) (concat (map room_enemySpawns (dt_rooms t))) [] = Some es"
      "set es = {e. \<exists>room \<in> set (dt_rooms t). \<exists>sp \<in> set (room_enemySpawns room).
        GetEnemy (gd_enemies g) (spawn_enemyTemplateId sp) = Some e}"
      "IsValidStaticData \<lparr>sd_result = StaticSuccess, sd_dungeonId = i, sd_dungeonTemplateId = dt_id t, sd_rooms = dt_rooms t,
        sd_enemyTemplates = sort_key enemy_id es\<rparr>" (is "IsValidStaticData ?data") by blast
  from static_data_response.roundtrip [OF assms(2) es(3)] obtain bytes where
    "EncodeDungeonStaticDataResponsePayload serialize ?data = Inr bytes" "DecodeDungeonStaticDataResponsePayload parse bytes = Inr ?data"
    by auto
  then show ?thesis
    using es(1,2) request dungeon t
    by (intro exI [of _ ?data] exI [of _ bytes]) (simp add: HandleDungeonStaticDataRequest_def respond_def)
qed

definition static_data_request_packet :: Packet where
  "static_data_request_packet =
     \<lparr>header = \<lparr>packetSize = 8, headerType = DungeonStaticDataRequest, requestId = 9\<rparr>,
      payload = sample_tcp_serialize \<lparr>tcp_protocol_version = TCP_PAYLOAD_PROTOCOL_VERSION,
        tcp_payload = Tcp_DungeonStaticDataRequest (Some 1)\<rparr>\<rparr>"

theorem static_data_served_witness:
  "\<exists>response bytes. sd_rooms response = [first_room, last_room] \<and>
     DecodeDungeonStaticDataResponsePayload sample_tcp_parse bytes = Inr response \<and>
     HandleDungeonStaticDataRequest sample_tcp_parse sample_tcp_serialize sample_enemies sample_dungeons 11
       static_data_request_packet sample_manager = map_sum HPacket id (EncodePacket 111 9 bytes)"
proof -
  have "DecodeDungeonStaticDataRequestPayload sample_tcp_parse (payload static_data_request_packet) = Inr 1"
    by (simp add: static_data_request_packet_def DecodeDungeonStaticDataRequestPayload_def
        DecodeTcpPayload_serialize [OF sample_tcp_faithful])
  moreover have "FindDungeon sample_manager 1 = Some bound_dungeon" "HasParticipant bound_dungeon 11"
    "GetDungeon (gd_dungeons sample_game) (dt_id (di_dungeonTemplate bound_dungeon)) = Some forest"
    by (simp_all add: FindDungeon_def sample_manager_def HasParticipant_def bound_dungeon_def waiting_dungeon_def
        um_contains_def sample_game_fields sample_dungeons_eq GetDungeon_def forest_def)
  ultimately show ?thesis
    using static_data_served [OF sample_game_fields(1) sample_tcp_faithful]
    by (fastforce simp: sample_game_fields forest_def static_data_request_packet_def)
qed

end
