(* ===== verification/Sqlite_Store.thy ===== *)
theory Sqlite_Store
  imports Ticket_Store
begin

text \<open>
  The repositories on SQLite: players with their skills (\<open>src/src/SqlitePlayerRepository.cpp\<close>), accounts
  (\<open>src/src/SqliteAccountRepository.cpp\<close>), who owns which player (\<open>src/src/SqliteAccountPlayerRepository.cpp\<close>)
  and the creation of an owned player (\<open>src/src/SqliteCharacterProvisioner.cpp\<close>).

  As for the tickets, the database engine is an argument: \<open>game_sql\<close> has one field for each SQL text of the
  sources. A failure to prepare or to bind a statement counts as a failure of the statement. A query that
  returns several rows is the list of the rows it delivers and the step result that ends it. The locale
  \<open>game_database\<close> states what SQL and the schema of \<open>src/src/SqliteDatabase.cpp\<close> say about the statements. The
  connection mutex makes each call one step.
\<close>

section \<open>The statements\<close>

text \<open>A row of \<open>players\<close>: \<open>player_id\<close>, \<open>name\<close>, \<open>level\<close>, \<open>skill_points\<close>; of \<open>accounts\<close>: \<open>account_id\<close>, \<open>login_id\<close>,
  \<open>password_hash\<close>. A text is \<open>None\<close> when the column pointer is null.\<close>

type_synonym player_row = "int \<times> string option \<times> int \<times> int"
type_synonym account_row = "int \<times> string option \<times> string option"

record 'db game_sql =
  q_begin :: "'db \<Rightarrow> bool \<times> 'db"
  q_commit :: "'db \<Rightarrow> bool \<times> 'db"
  q_rollback :: "'db \<Rightarrow> 'db"
  q_player :: "int \<Rightarrow> 'db \<Rightarrow> sql_step \<times> player_row"
  q_player_named :: "string \<Rightarrow> 'db \<Rightarrow> sql_step \<times> player_row"
  q_player_exists :: "int \<Rightarrow> 'db \<Rightarrow> sql_step"
  q_insert_player :: "string \<Rightarrow> 'db \<Rightarrow> sql_step \<times> int \<times> 'db"
  q_update_player :: "int \<Rightarrow> string \<Rightarrow> int \<Rightarrow> int \<Rightarrow> 'db \<Rightarrow> sql_step \<times> 'db"
  q_skills :: "int \<Rightarrow> 'db \<Rightarrow> (int \<times> int) list \<times> sql_step"
  q_delete_skills :: "int \<Rightarrow> 'db \<Rightarrow> sql_step \<times> 'db"
  q_insert_skill :: "int \<Rightarrow> int \<Rightarrow> int \<Rightarrow> 'db \<Rightarrow> sql_step \<times> 'db"
  q_account :: "int \<Rightarrow> 'db \<Rightarrow> sql_step \<times> account_row"
  q_account_named :: "string \<Rightarrow> 'db \<Rightarrow> sql_step \<times> account_row"
  q_account_exists :: "int \<Rightarrow> 'db \<Rightarrow> sql_step"
  q_insert_account :: "string \<Rightarrow> string \<Rightarrow> 'db \<Rightarrow> sql_step \<times> int \<times> 'db"
  q_insert_link :: "int \<Rightarrow> int \<Rightarrow> 'db \<Rightarrow> sql_step \<times> 'db"
  q_link_exists :: "int \<Rightarrow> int \<Rightarrow> 'db \<Rightarrow> sql_step"
  q_links :: "int \<Rightarrow> 'db \<Rightarrow> int list \<times> sql_step"

section \<open>Players\<close>

text \<open>\<open>CanStorePlayerId\<close>, \<open>CanStoreAccountId\<close> and \<open>CanStoreId\<close> are the same test on identifiers of 64 bits.\<close>

definition CanStoreId :: "u64 \<Rightarrow> bool" where
  "CanStoreId i \<longleftrightarrow> 0 < i \<and> i \<le> MAX_DATABASE_ID"

definition ReadUint32 :: "int \<Rightarrow> database_error + u32" where
  "ReadUint32 value = (if value < 0 \<or> 4294967295 < value then Inl DatabaseError else Inr (word_of_int value))"

definition ReadProfileRow :: "player_row \<Rightarrow> database_error + PlayerProfile" where
  "ReadProfileRow row =
     (let (playerId, nameText, level, skillPoints) = row in
      case nameText of
        None \<Rightarrow> Inl DatabaseError
      | Some name \<Rightarrow>
          if playerId \<le> 0 then Inl DatabaseError
          else case ReadUint32 level of
            Inl e \<Rightarrow> Inl e
          | Inr l \<Rightarrow>
              (case ReadUint32 skillPoints of
                 Inl e \<Rightarrow> Inl e
               | Inr p \<Rightarrow> Inr \<lparr>pp_playerId = to_uint64 playerId, pp_name = name, pp_level = l, pp_skillPoints = p, pp_skills = []\<rparr>))"

text \<open>The loop that fetches the rows, up to the step result that is not a row.\<close>

fun fetch_skills :: "(int \<times> int) list \<Rightarrow> sql_step \<Rightarrow> database_error + OwnedSkill list" where
  "fetch_skills [] end_result = (if end_result = SQLITE_DONE then Inr [] else Inl DatabaseError)"
| "fetch_skills ((skillId, skillLevel) # rows) end_result =
     (case ReadUint32 skillId of
        Inl e \<Rightarrow> Inl e
      | Inr i \<Rightarrow>
          (case ReadUint32 skillLevel of
             Inl e \<Rightarrow> Inl e
           | Inr l \<Rightarrow> map_sum id (\<lambda>skills. \<lparr>owned_skillId = i, owned_level = l\<rparr> # skills) (fetch_skills rows end_result)))"

definition LoadPlayerSkills :: "'db game_sql \<Rightarrow> PlayerId \<Rightarrow> 'db \<Rightarrow> database_error + OwnedSkill list" where
  "LoadPlayerSkills sql playerId db = (let (rows, end_result) = q_skills sql (to_int64 playerId) db in fetch_skills rows end_result)"

definition ValidateLoadedProfile :: "'db game_sql \<Rightarrow> PlayerProfile \<Rightarrow> 'db \<Rightarrow> database_error + PlayerProfile" where
  "ValidateLoadedProfile sql profile db =
     (case LoadPlayerSkills sql (pp_playerId profile) db of
        Inl e \<Rightarrow> Inl e
      | Inr skills \<Rightarrow>
          let profile = profile\<lparr>pp_skills := skills\<rparr> in
          if \<not> IsValidPlayerProfile profile then Inl DatabaseError else Inr profile)"

text \<open>The second halves of \<open>FindPlayer\<close> and \<open>FindPlayerByName\<close> are the same.\<close>

definition read_player :: "'db game_sql \<Rightarrow> sql_step \<times> player_row \<Rightarrow> 'db \<Rightarrow> database_error + PlayerProfile option" where
  "read_player sql result db =
     (let (stepResult, row) = result in
      if stepResult = SQLITE_DONE then Inr None
      else if stepResult \<noteq> SQLITE_ROW then Inl DatabaseError
      else case ReadProfileRow row of
        Inl e \<Rightarrow> Inl e
      | Inr profile \<Rightarrow> map_sum id Some (ValidateLoadedProfile sql profile db))"

definition sql_FindPlayer :: "'db game_sql \<Rightarrow> PlayerId \<Rightarrow> 'db \<Rightarrow> database_error + PlayerProfile option" where
  "sql_FindPlayer sql playerId db =
     (if \<not> CanStoreId playerId then Inr None
      else read_player sql (q_player sql (to_int64 playerId) db) db)"

definition FindPlayerByName :: "'db game_sql \<Rightarrow> string \<Rightarrow> 'db \<Rightarrow> database_error + PlayerProfile option" where
  "FindPlayerByName sql playerName db =
     (if fst (ValidateName playerName) \<noteq> ValidPlayerName then Inr None
      else read_player sql (q_player_named sql playerName db) db)"

definition CreatePlayer :: "'db game_sql \<Rightarrow> string \<Rightarrow> 'db \<Rightarrow> (database_error + PlayerProfile option) \<times> 'db" where
  "CreatePlayer sql playerName db =
     (if fst (ValidateName playerName) \<noteq> ValidPlayerName then (Inr None, db)
      else
        let (stepResult, playerId, db) = q_insert_player sql playerName db in
        if stepResult = SQLITE_CONSTRAINT then (Inr None, db)
        else if stepResult \<noteq> SQLITE_DONE then (Inl DatabaseError, db)
        else if playerId \<le> 0 then (Inl DatabaseError, db)
        else (Inr (Some \<lparr>pp_playerId = to_uint64 playerId, pp_name = playerName, pp_level = 1, pp_skillPoints = 0, pp_skills = []\<rparr>), db))"

fun insert_skills :: "'db game_sql \<Rightarrow> PlayerId \<Rightarrow> OwnedSkill list \<Rightarrow> 'db \<Rightarrow> bool \<times> 'db" where
  "insert_skills sql playerId [] db = (True, db)"
| "insert_skills sql playerId (skill # skills) db =
     (let (stepResult, db) = q_insert_skill sql (to_int64 playerId) (uint (owned_skillId skill)) (uint (owned_level skill)) db in
      if stepResult \<noteq> SQLITE_DONE then (False, db) else insert_skills sql playerId skills db)"

text \<open>Leaving the function before the commit runs the destructor of the transaction, which rolls back.\<close>

definition SavePlayer :: "'db game_sql \<Rightarrow> PlayerProfile \<Rightarrow> 'db \<Rightarrow> (database_error + bool) \<times> 'db" where
  "SavePlayer sql profile db =
     (if \<not> CanStoreId (pp_playerId profile) \<or> \<not> IsValidPlayerProfile profile then (Inr False, db)
      else
        let (begun, db) = q_begin sql db; playerId = to_int64 (pp_playerId profile) in
        if \<not> begun then (Inl DatabaseError, db)
        else
          let existsResult = q_player_exists sql playerId db in
          if existsResult = SQLITE_DONE then (Inr False, q_rollback sql db)
          else if existsResult \<noteq> SQLITE_ROW then (Inl DatabaseError, q_rollback sql db)
          else
            let (updated, db) = q_update_player sql playerId (pp_name profile) (uint (pp_level profile)) (uint (pp_skillPoints profile)) db in
            if updated \<noteq> SQLITE_DONE then (Inl DatabaseError, q_rollback sql db)
            else
              let (deleted, db) = q_delete_skills sql playerId db in
              if deleted \<noteq> SQLITE_DONE then (Inl DatabaseError, q_rollback sql db)
              else
                let (inserted, db) = insert_skills sql (pp_playerId profile) (pp_skills profile) db in
                if \<not> inserted then (Inl DatabaseError, q_rollback sql db)
                else
                  let (committed, db) = q_commit sql db in
                  if \<not> committed then (Inl DatabaseError, q_rollback sql db) else (Inr True, db))"

section \<open>Accounts\<close>

definition ReadAccountRow :: "account_row \<Rightarrow> database_error + Account" where
  "ReadAccountRow row =
     (let (accountId, loginId, passwordHash) = row in
      case (loginId, passwordHash) of
        (Some login, Some hash) \<Rightarrow>
          if accountId \<le> 0 then Inl DatabaseError
          else
            let account = \<lparr>acc_accountId = to_uint64 accountId, acc_loginId = login, acc_encodedPasswordHash = hash\<rparr> in
            if \<not> IsValidAccount account then Inl DatabaseError else Inr account
      | _ \<Rightarrow> Inl DatabaseError)"

definition ReadSingleAccount :: "sql_step \<times> account_row \<Rightarrow> database_error + Account option" where
  "ReadSingleAccount result =
     (let (stepResult, row) = result in
      if stepResult = SQLITE_DONE then Inr None
      else if stepResult \<noteq> SQLITE_ROW then Inl DatabaseError
      else map_sum id Some (ReadAccountRow row))"

definition FindAccount :: "'db game_sql \<Rightarrow> AccountId \<Rightarrow> 'db \<Rightarrow> database_error + Account option" where
  "FindAccount sql accountId db =
     (if \<not> CanStoreId accountId then Inr None else ReadSingleAccount (q_account sql (to_int64 accountId) db))"

definition FindAccountByLoginId :: "'db game_sql \<Rightarrow> string \<Rightarrow> 'db \<Rightarrow> database_error + Account option" where
  "FindAccountByLoginId sql loginId db =
     (if \<not> IsValidAccountLoginId loginId then Inr None else ReadSingleAccount (q_account_named sql loginId db))"

definition CreateAccount :: "'db game_sql \<Rightarrow> string \<Rightarrow> string \<Rightarrow> 'db \<Rightarrow> (database_error + Account option) \<times> 'db" where
  "CreateAccount sql loginId encodedPasswordHash db =
     (if \<not> IsValidAccountLoginId loginId \<or> \<not> IsValidEncodedPasswordHash encodedPasswordHash then (Inr None, db)
      else
        let (stepResult, accountId, db) = q_insert_account sql loginId encodedPasswordHash db in
        if stepResult = SQLITE_CONSTRAINT then (Inr None, db)
        else if stepResult \<noteq> SQLITE_DONE then (Inl DatabaseError, db)
        else if accountId \<le> 0 then (Inl DatabaseError, db)
        else (Inr (Some \<lparr>acc_accountId = to_uint64 accountId, acc_loginId = loginId, acc_encodedPasswordHash = encodedPasswordHash\<rparr>), db))"

section \<open>Who owns a player\<close>

definition LinkPlayer :: "'db game_sql \<Rightarrow> AccountId \<Rightarrow> PlayerId \<Rightarrow> 'db \<Rightarrow> (database_error + bool) \<times> 'db" where
  "LinkPlayer sql accountId playerId db =
     (if \<not> CanStoreId accountId \<or> \<not> CanStoreId playerId then (Inr False, db)
      else
        let (stepResult, db) = q_insert_link sql (to_int64 accountId) (to_int64 playerId) db in
        if stepResult = SQLITE_CONSTRAINT then (Inr False, db)
        else if stepResult \<noteq> SQLITE_DONE then (Inl DatabaseError, db)
        else (Inr True, db))"

definition OwnsPlayer :: "'db game_sql \<Rightarrow> AccountId \<Rightarrow> PlayerId \<Rightarrow> 'db \<Rightarrow> database_error + bool" where
  "OwnsPlayer sql accountId playerId db =
     (if \<not> CanStoreId accountId \<or> \<not> CanStoreId playerId then Inr False
      else
        let stepResult = q_link_exists sql (to_int64 accountId) (to_int64 playerId) db in
        if stepResult = SQLITE_ROW then Inr True
        else if stepResult = SQLITE_DONE then Inr False
        else Inl DatabaseError)"

fun fetch_ids :: "int list \<Rightarrow> sql_step \<Rightarrow> database_error + PlayerId list" where
  "fetch_ids [] end_result = (if end_result = SQLITE_DONE then Inr [] else Inl DatabaseError)"
| "fetch_ids (playerId # ids) end_result =
     (if playerId \<le> 0 then Inl DatabaseError
      else map_sum id (\<lambda>playerIds. to_uint64 playerId # playerIds) (fetch_ids ids end_result))"

definition FindPlayerIds :: "'db game_sql \<Rightarrow> AccountId \<Rightarrow> 'db \<Rightarrow> database_error + PlayerId list" where
  "FindPlayerIds sql accountId db =
     (if \<not> CanStoreId accountId then Inr []
      else let (ids, end_result) = q_links sql (to_int64 accountId) db in fetch_ids ids end_result)"

section \<open>Creating an owned player\<close>

datatype CharacterProvisioningStatus = CP_Success | CP_InvalidInput | CP_AccountNotFound | CP_PlayerNameAlreadyExists

definition CreateOwnedPlayer ::
    "'db game_sql \<Rightarrow> AccountId \<Rightarrow> string \<Rightarrow> 'db \<Rightarrow> (database_error + CharacterProvisioningStatus \<times> PlayerId) \<times> 'db" where
  "CreateOwnedPlayer sql accountId playerName db =
     (if \<not> CanStoreId accountId \<or> fst (ValidateName playerName) \<noteq> ValidPlayerName then (Inr (CP_InvalidInput, 0), db)
      else
        let (begun, db) = q_begin sql db in
        if \<not> begun then (Inl DatabaseError, db)
        else
          let accountResult = q_account_exists sql (to_int64 accountId) db in
          if accountResult = SQLITE_DONE then (Inr (CP_AccountNotFound, 0), q_rollback sql db)
          else if accountResult \<noteq> SQLITE_ROW then (Inl DatabaseError, q_rollback sql db)
          else
            let (playerResult, playerId, db) = q_insert_player sql playerName db in
            if playerResult = SQLITE_CONSTRAINT then (Inr (CP_PlayerNameAlreadyExists, 0), q_rollback sql db)
            else if playerResult \<noteq> SQLITE_DONE then (Inl DatabaseError, q_rollback sql db)
            else if playerId \<le> 0 then (Inl DatabaseError, q_rollback sql db)
            else
              let (linked, db) = q_insert_link sql (to_int64 accountId) playerId db in
              if linked \<noteq> SQLITE_DONE then (Inl DatabaseError, q_rollback sql db)
              else
                let (committed, db) = q_commit sql db in
                if \<not> committed then (Inl DatabaseError, q_rollback sql db)
                else (Inr (CP_Success, to_uint64 playerId), db))"

section \<open>What SQL says about the statements\<close>

text \<open>
  The contents of the tables. \<open>player_id\<close> is unique in \<open>account_players\<close>, so that table maps players to
  accounts. Login ids compare without regard to the case of ASCII letters (\<open>COLLATE NOCASE\<close>).
\<close>

record tables =
  t_players :: "int \<Rightarrow> (string \<times> int \<times> int) option"
  t_skills :: "int \<Rightarrow> int \<Rightarrow> int option"
  t_accounts :: "int \<Rightarrow> (string \<times> string) option"
  t_owner :: "int \<Rightarrow> int option"

definition nocase :: "string \<Rightarrow> string" where
  "nocase s = map (\<lambda>c. if 65 \<le> (of_char c :: nat) \<and> (of_char c :: nat) \<le> 90 then char_of (of_char c + 32 :: nat) else c) s"

definition name_free :: "string \<Rightarrow> tables \<Rightarrow> bool" where
  "name_free n t \<longleftrightarrow> (\<forall>i r. t_players t i = Some r \<longrightarrow> fst r \<noteq> n)"

definition login_free :: "string \<Rightarrow> tables \<Rightarrow> bool" where
  "login_free l t \<longleftrightarrow> (\<forall>i r. t_accounts t i = Some r \<longrightarrow> nocase (fst r) \<noteq> nocase l)"

text \<open>The rows that a profile stands for.\<close>

definition add_skill :: "OwnedSkill \<Rightarrow> (int \<Rightarrow> int option) \<Rightarrow> int \<Rightarrow> int option" where
  "add_skill sk m = m(uint (owned_skillId sk) \<mapsto> uint (owned_level sk))"

definition stored_skills :: "OwnedSkill list \<Rightarrow> int \<Rightarrow> int option" where
  "stored_skills skills = fold add_skill skills (\<lambda>_. None)"

definition profile_at :: "int \<Rightarrow> PlayerProfile \<Rightarrow> tables \<Rightarrow> tables" where
  "profile_at i profile t =
     t\<lparr>t_players := (t_players t)(i \<mapsto> (pp_name profile, uint (pp_level profile), uint (pp_skillPoints profile))),
       t_skills := (t_skills t)(i := stored_skills (pp_skills profile))\<rparr>"

definition with_profile :: "PlayerProfile \<Rightarrow> tables \<Rightarrow> tables" where
  "with_profile profile = profile_at (to_int64 (pp_playerId profile)) profile"

text \<open>
  \<open>view\<close> is what the connection sees, \<open>saved\<close> what a rollback returns to. A statement that changes a table
  leaves \<open>saved\<close> alone, and changes nothing when it does not end with \<open>SQLITE_DONE\<close>. New row identifiers are
  fresh and positive.
\<close>

lemma to_int64_to_uint64:
  assumes "0 < i" "i \<le> INT64_MAX"
  shows "to_int64 (to_uint64 i) = i \<and> CanStoreId (to_uint64 i)"
proof -
  have "uint (to_uint64 i) = i"
    using assms by (simp add: to_uint64_def uint_word_of_int_eq take_bit_int_eq_self INT64_MAX_def)
  then show ?thesis
    using assms MAX_DATABASE_ID_uint
    by (simp add: to_int64_def to_uint64_def CanStoreId_def word_le_def word_less_def INT64_MAX_def signed_of_int
        signed_take_bit_int_eq_self)
qed

lemma stored_skills_iff:
  "distinct (map owned_skillId skills) \<Longrightarrow>
   stored_skills skills k = Some v \<longleftrightarrow> (\<exists>sk \<in> set skills. k = uint (owned_skillId sk) \<and> v = uint (owned_level sk))"
proof (induction skills rule: rev_induct)
  case (snoc sk skills)
  then show ?case by (auto simp: stored_skills_def add_skill_def) (metis image_eqI word_uint_eqI)
qed (simp add: stored_skills_def)

lemma same_skills:
  assumes "\<And>k v. (\<exists>sk \<in> set xs. k = uint (owned_skillId sk) \<and> v = uint (owned_level sk)) \<longleftrightarrow>
    (\<exists>sk \<in> set ys. k = uint (owned_skillId sk) \<and> v = uint (owned_level sk))"
  shows "set xs = set (ys :: OwnedSkill list)"
proof -
  have "sk \<in> set zs" if "sk' \<in> set zs" "uint (owned_skillId sk) = uint (owned_skillId sk')" "uint (owned_level sk) = uint (owned_level sk')"
    for sk sk' :: OwnedSkill and zs
  proof -
    have "sk = sk'" using that(2,3) by (intro OwnedSkill.equality) (simp_all add: word_uint_eq_iff)
    with that(1) show ?thesis by simp
  qed
  with assms show ?thesis by blast
qed

lemma sorted_skills_unique:
  assumes "sorted_wrt (<) (map owned_skillId xs)" "distinct (map owned_skillId ys)" "set xs = set (ys :: OwnedSkill list)"
  shows "xs = sort_key owned_skillId ys"
proof -
  have "inj_on owned_skillId (set xs)" using assms(2,3) by (simp add: distinct_map)
  moreover have "sorted (map owned_skillId xs)" "distinct xs"
    using assms(1) by (auto simp: strict_sorted_iff distinct_map)
  moreover have "distinct ys" using assms(2) by (simp add: distinct_map)
  ultimately show ?thesis
    using assms(3) by (intro map_sorted_distinct_set_unique) (simp_all add: assms(3) distinct_map sorted_sort_key)
qed

locale game_database =
  fixes sql :: "'db game_sql"
    and view :: "'db \<Rightarrow> tables"
    and saved :: "'db \<Rightarrow> tables"
  assumes begin_view: "q_begin sql db = (ok, db') \<Longrightarrow> view db' = view db \<and> (ok \<longrightarrow> saved db' = view db)"
    and commit_done: "q_commit sql db = (True, db') \<Longrightarrow> view db' = view db"
    and commit_failed: "q_commit sql db = (False, db') \<Longrightarrow> saved db' = saved db"
    and rollback_view: "view (q_rollback sql db) = saved db"
    and player_row: "q_player sql i db = (SQLITE_ROW, i', nm, l, p) \<Longrightarrow> i' = i \<and> (\<exists>m. nm = Some m \<and> t_players (view db) i = Some (m, l, p))"
    and player_done: "q_player sql i db = (SQLITE_DONE, r) \<Longrightarrow> t_players (view db) i = None"
    and named_row: "q_player_named sql m db = (SQLITE_ROW, i, nm, l, p) \<Longrightarrow> nm = Some m \<and> t_players (view db) i = Some (m, l, p)"
    and named_done: "q_player_named sql m db = (SQLITE_DONE, r) \<Longrightarrow> name_free m (view db)"
    and exists_row: "q_player_exists sql i db = SQLITE_ROW \<Longrightarrow> t_players (view db) i \<noteq> None"
    and exists_done: "q_player_exists sql i db = SQLITE_DONE \<Longrightarrow> t_players (view db) i = None"
    and insert_player_done: "q_insert_player sql n db = (SQLITE_DONE, i, db') \<Longrightarrow>
      0 < i \<and> i \<le> INT64_MAX \<and> t_players (view db) i = None \<and> t_skills (view db) i = (\<lambda>_. None) \<and> t_owner (view db) i = None \<and> name_free n (view db) \<and>
      view db' = (view db)\<lparr>t_players := (t_players (view db))(i \<mapsto> (n, 1, 0))\<rparr> \<and> saved db' = saved db"
    and insert_player_other: "q_insert_player sql n db = (c, i, db') \<Longrightarrow> c \<noteq> SQLITE_DONE \<Longrightarrow> view db' = view db \<and> saved db' = saved db"
    and insert_player_constraint: "q_insert_player sql n db = (SQLITE_CONSTRAINT, i, db') \<Longrightarrow> 1 \<le> length n \<Longrightarrow> length n \<le> 16 \<Longrightarrow> \<not> name_free n (view db)"
    and update_player: "q_update_player sql i n l p db = (c, db') \<Longrightarrow> saved db' = saved db \<and>
      (c = SQLITE_DONE \<longrightarrow> view db' = (if t_players (view db) i = None then view db
         else (view db)\<lparr>t_players := (t_players (view db))(i \<mapsto> (n, l, p))\<rparr>))"
    and skills_done: "q_skills sql i db = (rows, SQLITE_DONE) \<Longrightarrow>
      sorted_wrt (<) (map fst rows) \<and> (\<forall>k l. (k, l) \<in> set rows \<longleftrightarrow> t_skills (view db) i k = Some l)"
    and skills_ended: "q_skills sql i db = (rows, c) \<Longrightarrow> c \<noteq> SQLITE_ROW"
    and delete_skills: "q_delete_skills sql i db = (c, db') \<Longrightarrow> saved db' = saved db \<and>
      (c = SQLITE_DONE \<longrightarrow> view db' = (view db)\<lparr>t_skills := (t_skills (view db))(i := (\<lambda>_. None))\<rparr>)"
    and insert_skill: "q_insert_skill sql i k l db = (c, db') \<Longrightarrow> saved db' = saved db \<and>
      (c = SQLITE_DONE \<longrightarrow> view db' = (view db)\<lparr>t_skills := (t_skills (view db))(i := (t_skills (view db) i)(k \<mapsto> l))\<rparr>)"
    and account_row: "q_account sql i db = (SQLITE_ROW, i', nm, hs) \<Longrightarrow> i' = i \<and> (\<exists>a b. nm = Some a \<and> hs = Some b \<and> t_accounts (view db) i = Some (a, b))"
    and account_done: "q_account sql i db = (SQLITE_DONE, ar) \<Longrightarrow> t_accounts (view db) i = None"
    and login_row: "q_account_named sql m db = (SQLITE_ROW, i, nm, hs) \<Longrightarrow>
      \<exists>a b. nm = Some a \<and> hs = Some b \<and> nocase a = nocase m \<and> t_accounts (view db) i = Some (a, b)"
    and login_done: "q_account_named sql m db = (SQLITE_DONE, ar) \<Longrightarrow> login_free m (view db)"
    and account_exists_row: "q_account_exists sql i db = SQLITE_ROW \<Longrightarrow> t_accounts (view db) i \<noteq> None"
    and account_exists_done: "q_account_exists sql i db = SQLITE_DONE \<Longrightarrow> t_accounts (view db) i = None"
    and insert_account_done: "q_insert_account sql n h db = (SQLITE_DONE, i, db') \<Longrightarrow>
      0 < i \<and> i \<le> INT64_MAX \<and> t_accounts (view db) i = None \<and> login_free n (view db) \<and>
      view db' = (view db)\<lparr>t_accounts := (t_accounts (view db))(i \<mapsto> (n, h))\<rparr>"
    and insert_account_other: "q_insert_account sql n h db = (c, i, db') \<Longrightarrow> c \<noteq> SQLITE_DONE \<Longrightarrow> view db' = view db"
    and insert_link_done: "q_insert_link sql a i db = (SQLITE_DONE, db') \<Longrightarrow>
      t_accounts (view db) a \<noteq> None \<and> t_players (view db) i \<noteq> None \<and> t_owner (view db) i = None \<and>
      view db' = (view db)\<lparr>t_owner := (t_owner (view db))(i \<mapsto> a)\<rparr>"
    and insert_link_other: "q_insert_link sql a i db = (c, db') \<Longrightarrow> saved db' = saved db \<and> (c \<noteq> SQLITE_DONE \<longrightarrow> view db' = view db)"
    and link_row: "q_link_exists sql a i db = SQLITE_ROW \<Longrightarrow> t_owner (view db) i = Some a"
    and link_done: "q_link_exists sql a i db = SQLITE_DONE \<Longrightarrow> t_owner (view db) i \<noteq> Some a"
    and links_done: "q_links sql a db = (ids, SQLITE_DONE) \<Longrightarrow> sorted_wrt (<) ids \<and> (\<forall>i. i \<in> set ids \<longleftrightarrow> t_owner (view db) i = Some a)"
    and links_ended: "q_links sql a db = (ids, c) \<Longrightarrow> c \<noteq> SQLITE_ROW"
begin

lemma insert_skills_view:
  assumes "insert_skills sql x skills db = (True, db')"
  shows "view db' = (view db)\<lparr>t_skills := (t_skills (view db))(to_int64 x :=
    fold add_skill skills (t_skills (view db) (to_int64 x)))\<rparr>"
  using assms
proof (induction skills arbitrary: db)
  case (Cons sk skills)
  obtain c db1 where q: "q_insert_skill sql (to_int64 x) (uint (owned_skillId sk)) (uint (owned_level sk)) db = (c, db1)" by fastforce
  with Cons.prems have c: "c = SQLITE_DONE" "insert_skills sql x skills db1 = (True, db')" by (auto split: if_splits)
  have "view db1 = (view db)\<lparr>t_skills := (t_skills (view db))(to_int64 x := add_skill sk (t_skills (view db) (to_int64 x)))\<rparr>"
    using insert_skill [OF q] c(1) by (simp add: add_skill_def)
  then show ?case using Cons.IH [OF c(2)] by (simp add: fun_upd_same del: fun_upd_apply)
qed simp

lemma insert_skills_saved: "insert_skills sql x skills db = (ok, db') \<Longrightarrow> saved db' = saved db"
proof (induction skills arbitrary: db)
  case (Cons sk skills)
  obtain c db1 where q: "q_insert_skill sql (to_int64 x) (uint (owned_skillId sk)) (uint (owned_level sk)) db = (c, db1)" by fastforce
  with Cons insert_skill [OF q] show ?case by (auto split: if_splits)
qed simp

text \<open>Saving a profile replaces the rows of its player, or changes nothing.\<close>

lemma save_view:
  assumes "SavePlayer sql profile db = (r, db')"
  shows "if r = Inr True
    then IsValidPlayerProfile profile \<and> CanStoreId (pp_playerId profile) \<and>
      t_players (view db) (to_int64 (pp_playerId profile)) \<noteq> None \<and> view db' = with_profile profile (view db)
    else view db' = view db"
proof (cases "CanStoreId (pp_playerId profile) \<and> IsValidPlayerProfile profile")
  case True
  let ?i = "to_int64 (pp_playerId profile)"
  obtain ok db1 where b: "q_begin sql db = (ok, db1)" by fastforce
  obtain c2 db2 where u: "q_update_player sql ?i (pp_name profile) (uint (pp_level profile)) (uint (pp_skillPoints profile)) db1 = (c2, db2)"
    by fastforce
  obtain c3 db3 where d: "q_delete_skills sql ?i db2 = (c3, db3)" by fastforce
  obtain c4 db4 where i: "insert_skills sql (pp_playerId profile) (pp_skills profile) db3 = (c4, db4)" by fastforce
  obtain c5 db5 where c: "q_commit sql db4 = (c5, db5)" by fastforce
  note fail = rollback_view begin_view [OF b] update_player [OF u] delete_skills [OF d] insert_skills_saved [OF i] commit_failed
  have ok: "view db5 = with_profile profile (view db) \<and> t_players (view db) ?i \<noteq> None"
    if steps: "q_player_exists sql ?i db1 = SQLITE_ROW" "c2 = SQLITE_DONE" "c3 = SQLITE_DONE" c4 c5
  proof -
    obtain row where row: "t_players (view db) ?i = Some row"
      using begin_view [OF b] exists_row [OF steps(1)] by auto
    then show ?thesis
      using steps begin_view [OF b] update_player [OF u] delete_skills [OF d]
        insert_skills_view [of "pp_playerId profile" "pp_skills profile" db3 db4] i commit_done [of db4 db5] c
      by (simp add: with_profile_def profile_at_def stored_skills_def fun_upd_same del: fun_upd_apply)
  qed
  show ?thesis
    using assms True b u d i c fail ok by (auto simp: SavePlayer_def Let_def split: if_splits)
qed (use assms in \<open>auto simp: SavePlayer_def\<close>)

lemma fetch_skills_Inr:
  "fetch_skills rows c = Inr skills \<Longrightarrow> c = SQLITE_DONE \<and>
     rows = map (\<lambda>sk. (uint (owned_skillId sk), uint (owned_level sk))) skills"
proof (induction rows c arbitrary: skills rule: fetch_skills.induct)
  case (2 k l rows c)
  then show ?case
    by (cases "fetch_skills rows c")
      (auto simp: ReadUint32_def uint_word_of_int_eq take_bit_int_eq_self split: sum.splits if_splits)
qed (auto split: if_splits)

text \<open>What a search returns is what the tables hold; the skills come in the order of their identifiers.\<close>

lemma read_player_Inr:
  assumes "read_player sql (SQLITE_ROW, to_int64 x, Some n, l, p) db = Inr r" "CanStoreId x"
  shows "\<exists>profile. r = Some profile \<and> pp_playerId profile = x \<and> pp_name profile = n \<and>
    uint (pp_level profile) = l \<and> uint (pp_skillPoints profile) = p \<and> IsValidPlayerProfile profile \<and>
    sorted_wrt (<) (map owned_skillId (pp_skills profile)) \<and>
    (\<forall>k v. t_skills (view db) (to_int64 x) k = Some v \<longleftrightarrow>
       (\<exists>sk \<in> set (pp_skills profile). k = uint (owned_skillId sk) \<and> v = uint (owned_level sk)))"
proof -
  from assms(1) obtain rows c skills where q: "q_skills sql (to_int64 x) db = (rows, c)" "fetch_skills rows c = Inr skills"
      and lp: "0 \<le> l" "l \<le> 4294967295" "0 \<le> p" "p \<le> 4294967295"
      and v: "r = Some \<lparr>pp_playerId = x, pp_name = n, pp_level = word_of_int l, pp_skillPoints = word_of_int p, pp_skills = skills\<rparr>"
        "IsValidPlayerProfile \<lparr>pp_playerId = x, pp_name = n, pp_level = word_of_int l, pp_skillPoints = word_of_int p, pp_skills = skills\<rparr>"
    by (auto simp: read_player_def ReadProfileRow_def ReadUint32_def ValidateLoadedProfile_def LoadPlayerSkills_def Let_def
        split: sum.splits if_splits prod.splits)
  from fetch_skills_Inr [OF q(2)] have rows: "c = SQLITE_DONE" "rows = map (\<lambda>sk. (uint (owned_skillId sk), uint (owned_level sk))) skills" by auto
  from skills_done [OF q(1) [unfolded rows(1)]] have sorted: "sorted_wrt (<) (map owned_skillId skills)"
      and rows_iff: "\<And>k v. t_skills (view db) (to_int64 x) k = Some v \<longleftrightarrow> (k, v) \<in> set rows"
    by (auto simp: rows(2) sorted_wrt_map word_less_def o_def)
  show ?thesis
    unfolding v(1) using v(2) lp sorted rows_iff rows(2) by (auto simp: uint_word_of_int_eq take_bit_int_eq_self)
qed

lemma find_after_save:
  assumes "SavePlayer sql profile db = (Inr True, db')" "sql_FindPlayer sql (pp_playerId profile) db' = Inr r"
  shows "r = Some (profile\<lparr>pp_skills := sort_key owned_skillId (pp_skills profile)\<rparr>)"
proof -
  let ?x = "pp_playerId profile" and ?i = "to_int64 (pp_playerId profile)"
  have saved: "IsValidPlayerProfile profile" "CanStoreId ?x" "view db' = with_profile profile (view db)"
    using save_view [OF assms(1)] by auto
  have row: "t_players (view db') ?i = Some (pp_name profile, uint (pp_level profile), uint (pp_skillPoints profile))"
    and skills: "t_skills (view db') ?i = stored_skills (pp_skills profile)"
    by (simp_all add: saved(3) with_profile_def profile_at_def)
  obtain c i n l p where q: "q_player sql ?i db' = (c, i, n, l, p)" by (metis prod.exhaust)
  with assms(2) saved(2) have read: "read_player sql (c, i, n, l, p) db' = Inr r" by (simp add: sql_FindPlayer_def)
  have "c = SQLITE_ROW" using read q player_done [of ?i db'] row by (auto simp: read_player_def split: if_splits)
  with player_row [of ?i db'] q row have "read_player sql (SQLITE_ROW, ?i, Some (pp_name profile), uint (pp_level profile), uint (pp_skillPoints profile)) db' = Inr r"
    using read by auto
  from read_player_Inr [OF this saved(2)] obtain found where f: "r = Some found" "pp_playerId found = ?x" "pp_name found = pp_name profile"
      "uint (pp_level found) = uint (pp_level profile)" "uint (pp_skillPoints found) = uint (pp_skillPoints profile)"
      "sorted_wrt (<) (map owned_skillId (pp_skills found))"
      "\<And>k v. t_skills (view db') ?i k = Some v \<longleftrightarrow> (\<exists>sk \<in> set (pp_skills found). k = uint (owned_skillId sk) \<and> v = uint (owned_level sk))"
    by blast
  have d: "distinct (map owned_skillId (pp_skills profile))"
    using saved(1) by (simp add: IsValidPlayerProfile_def check_skills_iff split: if_splits)
  have "set (pp_skills found) = set (pp_skills profile)"
    using f(7) stored_skills_iff [OF d] by (intro same_skills) (simp add: skills)
  then have "pp_skills found = sort_key owned_skillId (pp_skills profile)" by (rule sorted_skills_unique [OF f(6) d])
  then show ?thesis using f(1-5) by (simp add: word_uint_eq_iff)
qed

lemma create_owned_view:
  assumes "CreateOwnedPlayer sql a n db = (r, db')"
  shows "case r of
      Inl _ \<Rightarrow> view db' = view db
    | Inr (status, x) \<Rightarrow>
        if status = CP_Success
        then CanStoreId x \<and> t_accounts (view db) (to_int64 a) \<noteq> None \<and> name_free n (view db) \<and>
          t_players (view db) (to_int64 x) = None \<and>
          view db' = (view db)\<lparr>t_players := (t_players (view db))(to_int64 x \<mapsto> (n, 1, 0)),
            t_owner := (t_owner (view db))(to_int64 x \<mapsto> to_int64 a)\<rparr>
        else view db' = view db \<and> x = 0 \<and> (status = CP_AccountNotFound \<longrightarrow> t_accounts (view db) (to_int64 a) = None) \<and>
          (status = CP_PlayerNameAlreadyExists \<longrightarrow> \<not> name_free n (view db))"
proof (cases "CanStoreId a \<and> fst (ValidateName n) = ValidPlayerName")
  case True
  then have len: "1 \<le> length n" "length n \<le> 16" by (auto simp: ValidateName_iff MAX_PLAYER_NAME_LENGTH_def Suc_le_eq)
  obtain ok db1 where b: "q_begin sql db = (ok, db1)" by fastforce
  obtain c2 i db2 where p: "q_insert_player sql n db1 = (c2, i, db2)" by (metis prod.exhaust)
  obtain c3 db3 where l: "q_insert_link sql (to_int64 a) i db2 = (c3, db3)" by fastforce
  obtain c4 db4 where c: "q_commit sql db3 = (c4, db4)" by fastforce
  have saved: "ok \<Longrightarrow> view (q_rollback sql db1) = view db" "ok \<Longrightarrow> view (q_rollback sql db2) = view db"
      "ok \<Longrightarrow> view (q_rollback sql db3) = view db" "ok \<Longrightarrow> \<not> c4 \<Longrightarrow> view (q_rollback sql db4) = view db"
    using rollback_view begin_view [OF b] insert_player_done insert_player_other p insert_link_other [OF l] commit_failed c
    by (metis (full_types))+
  have ok: "CanStoreId (to_uint64 i) \<and> to_int64 (to_uint64 i) = i \<and> name_free n (view db) \<and> t_players (view db) i = None \<and>
      view db4 = (view db)\<lparr>t_players := (t_players (view db))(i \<mapsto> (n, 1, 0)), t_owner := (t_owner (view db))(i \<mapsto> to_int64 a)\<rparr>"
    if "c2 = SQLITE_DONE" "c3 = SQLITE_DONE" c4
    using that p l c begin_view [OF b] insert_player_done [of n db1 i db2] insert_link_done [of "to_int64 a" i db2 db3] commit_done [of db3 db4]
    by (auto simp: to_int64_to_uint64)
  have acct: "t_accounts (view db1) = t_accounts (view db)" using begin_view [OF b] by simp
  have taken: "c2 = SQLITE_CONSTRAINT \<Longrightarrow> \<not> name_free n (view db)"
    using insert_player_constraint [of n db1 i db2] p len begin_view [OF b] by auto
  show ?thesis
    using assms True b p l c saved ok taken begin_view [OF b] account_exists_row [of "to_int64 a" db1] account_exists_done [of "to_int64 a" db1]
    by (auto simp: CreateOwnedPlayer_def Let_def split: if_splits)
qed (use assms in \<open>auto simp: CreateOwnedPlayer_def\<close>)

end

section \<open>A database in memory\<close>

text \<open>The tables as lists of rows, the copy a rollback returns to, and whether every statement fails. New rows get the
  identifier after the greatest one that any table mentions.\<close>

record row_tables =
  r_players :: "(int, string \<times> int \<times> int) umap"
  r_skills :: "(int \<times> int, int) umap"
  r_accounts :: "(int, string \<times> string) umap"
  r_owner :: "(int, int) umap"

record memory_db =
  m_now :: row_tables
  m_saved :: row_tables
  m_broken :: bool

definition rows_view :: "row_tables \<Rightarrow> tables" where
  "rows_view t = \<lparr>t_players = map_of (r_players t), t_skills = (\<lambda>i k. map_of (r_skills t) (i, k)),
     t_accounts = map_of (r_accounts t), t_owner = map_of (r_owner t)\<rparr>"

definition next_id :: "int list \<Rightarrow> int" where
  "next_id used = 1 + fold max used 0"

lemma next_id_fresh: "0 < next_id used \<and> (\<forall>i \<in> set used. i < next_id used)"
proof -
  have "m \<le> fold max used m \<and> (\<forall>i \<in> set used. i \<le> fold max used m)" for m :: int
    by (induction used arbitrary: m) (auto, (metis max.bounded_iff order.trans)+)
  from this [of 0] show ?thesis by (auto simp: next_id_def)
qed

definition player_ids :: "row_tables \<Rightarrow> int list" where
  "player_ids t = map fst (r_players t) @ map (fst \<circ> fst) (r_skills t) @ map fst (r_owner t)"

definition change :: "bool \<Rightarrow> (row_tables \<Rightarrow> row_tables) \<Rightarrow> memory_db \<Rightarrow> sql_step \<times> memory_db" where
  "change allowed f db =
     (if m_broken db then (SQLITE_FAILED, db)
      else if \<not> allowed then (SQLITE_CONSTRAINT, db)
      else (SQLITE_DONE, db\<lparr>m_now := f (m_now db)\<rparr>))"

definition answer :: "memory_db \<Rightarrow> bool \<Rightarrow> sql_step" where
  "answer db found = (if m_broken db then SQLITE_FAILED else if found then SQLITE_ROW else SQLITE_DONE)"

definition erase_skills :: "int \<Rightarrow> row_tables \<Rightarrow> row_tables" where
  "erase_skills i t = t\<lparr>r_skills := filter (\<lambda>e. fst (fst e) \<noteq> i) (r_skills t)\<rparr>"

definition memory_sql :: "memory_db game_sql" where
  "memory_sql = \<lparr>
     q_begin = \<lambda>db. if m_broken db then (False, db) else (True, db\<lparr>m_saved := m_now db\<rparr>),
     q_commit = \<lambda>db. (\<not> m_broken db, db),
     q_rollback = \<lambda>db. db\<lparr>m_now := m_saved db\<rparr>,
     q_player = \<lambda>i db. (case map_of (r_players (m_now db)) i of
         None \<Rightarrow> (answer db False, 0, None, 0, 0)
       | Some (n, l, p) \<Rightarrow> (answer db True, i, Some n, l, p)),
     q_player_named = \<lambda>n db. (case find (\<lambda>e. fst (snd e) = n) (AList.clearjunk (r_players (m_now db))) of
         None \<Rightarrow> (answer db False, 0, None, 0, 0)
       | Some (i, m, l, p) \<Rightarrow> (answer db True, i, Some m, l, p)),
     q_player_exists = \<lambda>i db. answer db (um_contains (r_players (m_now db)) i),
     q_insert_player = \<lambda>n db. (let i = next_id (player_ids (m_now db)) in
       if INT64_MAX < i then (SQLITE_FAILED, 0, db)
       else let (c, db) = change (list_all (\<lambda>e. fst (snd e) \<noteq> n) (AList.clearjunk (r_players (m_now db))) \<and> 1 \<le> length n \<and> length n \<le> 16)
              (\<lambda>t. t\<lparr>r_players := um_emplace i (n, 1, 0) (r_players t)\<rparr>) db
            in (c, i, db)),
     q_update_player = \<lambda>i n l p. change True (\<lambda>t. t\<lparr>r_players := um_modify i (\<lambda>_. (n, l, p)) (r_players t)\<rparr>),
     q_skills = \<lambda>i db. (sort_key fst (map (\<lambda>e. (snd (fst e), snd e)) (filter (\<lambda>e. fst (fst e) = i) (AList.clearjunk (r_skills (m_now db))))),
       answer db False),
     q_delete_skills = \<lambda>i. change True (erase_skills i),
     q_insert_skill = \<lambda>i k l db. change (\<not> um_contains (r_skills (m_now db)) (i, k))
       (\<lambda>t. t\<lparr>r_skills := um_emplace (i, k) l (r_skills t)\<rparr>) db,
     q_account = \<lambda>i db. (case map_of (r_accounts (m_now db)) i of
         None \<Rightarrow> (answer db False, 0, None, None)
       | Some (n, h) \<Rightarrow> (answer db True, i, Some n, Some h)),
     q_account_named = \<lambda>n db. (case find (\<lambda>e. nocase (fst (snd e)) = nocase n) (AList.clearjunk (r_accounts (m_now db))) of
         None \<Rightarrow> (answer db False, 0, None, None)
       | Some (i, m, h) \<Rightarrow> (answer db True, i, Some m, Some h)),
     q_account_exists = \<lambda>i db. answer db (um_contains (r_accounts (m_now db)) i),
     q_insert_account = \<lambda>n h db. (let i = next_id (map fst (r_accounts (m_now db)));
         (c, db) = change (list_all (\<lambda>e. nocase (fst (snd e)) \<noteq> nocase n) (AList.clearjunk (r_accounts (m_now db))) \<and> i \<le> INT64_MAX)
           (\<lambda>t. t\<lparr>r_accounts := um_emplace i (n, h) (r_accounts t)\<rparr>) db
       in (c, i, db)),
     q_insert_link = \<lambda>a i db. change (um_contains (r_accounts (m_now db)) a \<and> um_contains (r_players (m_now db)) i \<and>
         \<not> um_contains (r_owner (m_now db)) i) (\<lambda>t. t\<lparr>r_owner := um_emplace i a (r_owner t)\<rparr>) db,
     q_link_exists = \<lambda>a i db. answer db (map_of (r_owner (m_now db)) i = Some a),
     q_links = \<lambda>a db. (sort (map fst (filter (\<lambda>e. snd e = a) (AList.clearjunk (r_owner (m_now db))))), answer db False)\<rparr>"

definition memory_view :: "memory_db \<Rightarrow> tables" where "memory_view db = rows_view (m_now db)"
definition memory_saved :: "memory_db \<Rightarrow> tables" where "memory_saved db = rows_view (m_saved db)"

lemma clearjunk_mem: "(k, v) \<in> set (AList.clearjunk m) \<longleftrightarrow> map_of m k = Some v"
  by (metis distinct_clearjunk map_of_clearjunk map_of_eq_Some_iff)

lemma clearjunk_all: "list_all P (AList.clearjunk m) \<longleftrightarrow> (\<forall>k v. map_of m k = Some v \<longrightarrow> P (k, v))"
  by (simp only: list_all_iff Ball_def split_paired_All clearjunk_mem)

lemma clearjunk_find:
  "find P (AList.clearjunk m) = Some (k, v) \<Longrightarrow> map_of m k = Some v \<and> P (k, v)"
  "find P (AList.clearjunk m) = None \<longleftrightarrow> (\<forall>k v. map_of m k = Some v \<longrightarrow> \<not> P (k, v))"
proof -
  show "find P (AList.clearjunk m) = Some (k, v) \<Longrightarrow> map_of m k = Some v \<and> P (k, v)"
    by (metis clearjunk_mem find_Some_in)
  show "find P (AList.clearjunk m) = None \<longleftrightarrow> (\<forall>k v. map_of m k = Some v \<longrightarrow> \<not> P (k, v))"
    by (simp only: find_None_iff split_paired_Ex clearjunk_mem de_Morgan_conj not_ex simp_thms imp_conv_disj)
qed

lemma change_cases:
  assumes "change allowed f db = (c, db')"
  shows "m_saved db' = m_saved db" "c \<noteq> SQLITE_DONE \<Longrightarrow> m_now db' = m_now db"
    "c = SQLITE_DONE \<Longrightarrow> allowed \<and> m_now db' = f (m_now db)" "c = SQLITE_CONSTRAINT \<Longrightarrow> \<not> allowed"
  using assms by (auto simp: change_def split: if_splits)

lemma answer_simps [simp]:
  "answer db b = SQLITE_ROW \<longleftrightarrow> \<not> m_broken db \<and> b" "answer db b = SQLITE_DONE \<longleftrightarrow> \<not> m_broken db \<and> \<not> b"
  by (auto simp: answer_def)

lemma memory_name_free:
  "name_free n (memory_view db) \<longleftrightarrow> list_all (\<lambda>e. fst (snd e) \<noteq> n) (AList.clearjunk (r_players (m_now db)))"
  by (simp add: name_free_def memory_view_def rows_view_def clearjunk_all)

lemma memory_login_free:
  "login_free n (memory_view db) \<longleftrightarrow> list_all (\<lambda>e. nocase (fst (snd e)) \<noteq> nocase n) (AList.clearjunk (r_accounts (m_now db)))"
  by (simp add: login_free_def memory_view_def rows_view_def clearjunk_all)

lemma memory_insert_player:
  assumes "q_insert_player memory_sql n db = (c, i, db')"
  shows "m_saved db' = m_saved db" "c \<noteq> SQLITE_DONE \<Longrightarrow> m_now db' = m_now db"
    "c = SQLITE_CONSTRAINT \<Longrightarrow> 1 \<le> length n \<Longrightarrow> length n \<le> 16 \<Longrightarrow> \<not> name_free n (memory_view db)"
    "c = SQLITE_DONE \<Longrightarrow> 0 < i \<and> i \<le> INT64_MAX \<and> i \<notin> set (player_ids (m_now db)) \<and> name_free n (memory_view db) \<and>
      m_now db' = (m_now db)\<lparr>r_players := um_emplace i (n, 1, 0) (r_players (m_now db))\<rparr>"
  using assms next_id_fresh [of "player_ids (m_now db)"]
  by (auto simp: memory_sql_def Let_def memory_name_free split: if_splits prod.splits dest: change_cases)

lemma distinct_second:
  assumes "distinct (map fst xs)" "\<forall>e \<in> set xs. fst (fst e) = i"
  shows "distinct (map (\<lambda>e. snd (fst e)) xs)"
  using assms
proof (induction xs)
  case (Cons e xs)
  have "snd (fst e) \<noteq> snd (fst x)" if "x \<in> set xs" for x
    using Cons.prems that by (metis distinct.simps(2) image_eqI list.set(2) list.simps(9) insertCI list.set_map prod.collapse)
  with Cons show ?case by auto
qed simp

lemma memory_skills:
  assumes "q_skills memory_sql i db = (rows, c)"
  shows "sorted_wrt (<) (map fst rows) \<and> (\<forall>k l. (k, l) \<in> set rows \<longleftrightarrow> t_skills (memory_view db) i k = Some l)"
proof -
  define m where "m = filter (\<lambda>e. fst (fst e) = i) (AList.clearjunk (r_skills (m_now db)))"
  define ys where "ys = map (\<lambda>e. (snd (fst e), snd e)) m"
  have rows: "rows = sort_key fst ys" using assms by (simp add: memory_sql_def m_def ys_def)
  have "distinct (map (\<lambda>e. snd (fst e)) m)" unfolding m_def by (rule distinct_second) (auto simp: distinct_map_filter)
  then have "distinct (map fst ys)" by (simp add: ys_def o_def)
  then have "distinct (map fst rows)" unfolding rows by (simp only: distinct_map distinct_sort set_sort)
  then have "sorted_wrt (<) (map fst rows)" by (simp add: strict_sorted_iff rows sorted_sort_key)
  moreover have "(k, l) \<in> set rows \<longleftrightarrow> ((i, k), l) \<in> set (AList.clearjunk (r_skills (m_now db)))" for k l
    by (auto simp: rows ys_def m_def image_iff)
  ultimately show ?thesis by (simp add: clearjunk_mem memory_view_def rows_view_def)
qed

lemma memory_links:
  assumes "q_links memory_sql a db = (ids, c)"
  shows "sorted_wrt (<) ids \<and> (\<forall>i. i \<in> set ids \<longleftrightarrow> t_owner (memory_view db) i = Some a)"
proof -
  let ?m = "filter (\<lambda>e. snd e = a) (AList.clearjunk (r_owner (m_now db)))"
  have ids: "ids = sort (map fst ?m)" using assms by (simp add: memory_sql_def)
  have "distinct (map fst ?m)" by (simp add: distinct_map_filter)
  then have "sorted_wrt (<) ids" unfolding ids by (simp add: strict_sorted_iff)
  moreover have "i \<in> set ids \<longleftrightarrow> (i, a) \<in> set (AList.clearjunk (r_owner (m_now db)))" for i
    by (auto simp: ids image_iff)
  ultimately show ?thesis by (simp add: clearjunk_mem memory_view_def rows_view_def)
qed

lemma memory_insert_account:
  assumes "q_insert_account memory_sql n h db = (c, i, db')"
  shows "c \<noteq> SQLITE_DONE \<Longrightarrow> m_now db' = m_now db"
    "c = SQLITE_DONE \<Longrightarrow> 0 < i \<and> i \<le> INT64_MAX \<and> map_of (r_accounts (m_now db)) i = None \<and> login_free n (memory_view db) \<and>
      m_now db' = (m_now db)\<lparr>r_accounts := um_emplace i (n, h) (r_accounts (m_now db))\<rparr>"
proof -
  let ?i = "next_id (map fst (r_accounts (m_now db)))"
  have fresh: "0 < ?i" "map_of (r_accounts (m_now db)) ?i = None"
    using next_id_fresh [of "map fst (r_accounts (m_now db))"] by (auto simp: map_of_eq_None_iff)
  show "c \<noteq> SQLITE_DONE \<Longrightarrow> m_now db' = m_now db"
    using assms by (auto simp: memory_sql_def Let_def split: prod.splits dest: change_cases)
  show "c = SQLITE_DONE \<Longrightarrow> 0 < i \<and> i \<le> INT64_MAX \<and> map_of (r_accounts (m_now db)) i = None \<and> login_free n (memory_view db) \<and>
      m_now db' = (m_now db)\<lparr>r_accounts := um_emplace i (n, h) (r_accounts (m_now db))\<rparr>"
    using assms fresh by (auto simp: memory_sql_def Let_def memory_login_free split: prod.splits dest!: change_cases(3))
qed

lemma view_emplace:
  "\<not> um_contains m k \<Longrightarrow> map_of (um_emplace k v m) = (map_of m)(k \<mapsto> v)"
  by (auto simp: fun_eq_iff umap_simps um_contains_def)

lemma fresh_player:
  assumes "i \<notin> set (player_ids t)"
  shows "\<not> um_contains (r_players t) i" "map_of (r_players t) i = None" "map_of (r_skills t) (i, k) = None" "map_of (r_owner t) i = None"
  using assms by (force simp: player_ids_def um_contains_def map_of_eq_None_iff)+

interpretation memory: game_database memory_sql memory_view memory_saved
proof unfold_locales
  fix n db c i and db' :: memory_db
  assume q: "q_insert_player memory_sql n db = (SQLITE_DONE, i, db')"
  show "0 < i \<and> i \<le> INT64_MAX \<and> t_players (memory_view db) i = None \<and> t_skills (memory_view db) i = (\<lambda>_. None) \<and>
      t_owner (memory_view db) i = None \<and> name_free n (memory_view db) \<and>
      memory_view db' = (memory_view db)\<lparr>t_players := (t_players (memory_view db))(i \<mapsto> (n, 1, 0))\<rparr> \<and> memory_saved db' = memory_saved db"
    using memory_insert_player [OF q] fresh_player [of i "m_now db"]
    by (simp add: memory_view_def memory_saved_def rows_view_def view_emplace)
next
  fix n db c i and db' :: memory_db
  assume "q_insert_player memory_sql n db = (c, i, db')" "c \<noteq> SQLITE_DONE"
  then show "memory_view db' = memory_view db \<and> memory_saved db' = memory_saved db"
    using memory_insert_player by (simp add: memory_view_def memory_saved_def)
next
  fix n db i and db' :: memory_db
  assume "q_insert_player memory_sql n db = (SQLITE_CONSTRAINT, i, db')" "1 \<le> length n" "length n \<le> 16"
  then show "\<not> name_free n (memory_view db)" using memory_insert_player(3) by blast
next
  fix n h db i and db' :: memory_db
  assume q: "q_insert_account memory_sql n h db = (SQLITE_DONE, i, db')"
  show "0 < i \<and> i \<le> INT64_MAX \<and> t_accounts (memory_view db) i = None \<and> login_free n (memory_view db) \<and>
      memory_view db' = (memory_view db)\<lparr>t_accounts := (t_accounts (memory_view db))(i \<mapsto> (n, h))\<rparr>"
    using memory_insert_account [OF q] by (simp add: memory_view_def rows_view_def view_emplace um_contains_def)
next
  fix n h db c i and db' :: memory_db
  assume "q_insert_account memory_sql n h db = (c, i, db')" "c \<noteq> SQLITE_DONE"
  then show "memory_view db' = memory_view db" using memory_insert_account(1) by (simp add: memory_view_def)
next
  fix i db rows
  assume "q_skills memory_sql i db = (rows, SQLITE_DONE)"
  then show "sorted_wrt (<) (map fst rows) \<and> (\<forall>k l. (k, l) \<in> set rows \<longleftrightarrow> t_skills (memory_view db) i k = Some l)"
    by (rule memory_skills)
next
  fix a db ids
  assume "q_links memory_sql a db = (ids, SQLITE_DONE)"
  then show "sorted_wrt (<) ids \<and> (\<forall>i. i \<in> set ids \<longleftrightarrow> t_owner (memory_view db) i = Some a)" by (rule memory_links)
next
  fix i n l p db c and db' :: memory_db
  assume "q_update_player memory_sql i n l p db = (c, db')"
  then have q: "change True (\<lambda>t. t\<lparr>r_players := um_modify i (\<lambda>_. (n, l, p)) (r_players t)\<rparr>) db = (c, db')" by (simp add: memory_sql_def)
  show "memory_saved db' = memory_saved db \<and> (c = SQLITE_DONE \<longrightarrow> memory_view db' = (if t_players (memory_view db) i = None then memory_view db
         else (memory_view db)\<lparr>t_players := (t_players (memory_view db))(i \<mapsto> (n, l, p))\<rparr>))"
    using change_cases [OF q] by (auto simp: memory_view_def memory_saved_def rows_view_def umap_simps fun_eq_iff)
next
  fix i db c and db' :: memory_db
  assume "q_delete_skills memory_sql i db = (c, db')"
  then have q: "change True (erase_skills i) db = (c, db')" by (simp add: memory_sql_def)
  have "map_of (filter (\<lambda>e. fst (fst e) \<noteq> i) m) (j, k) = (if j = i then None else map_of m (j, k))" for m :: "(int \<times> int, int) umap" and j k
    by (induction m) auto
  with change_cases [OF q] show "memory_saved db' = memory_saved db \<and> (c = SQLITE_DONE \<longrightarrow>
      memory_view db' = (memory_view db)\<lparr>t_skills := (t_skills (memory_view db))(i := (\<lambda>_. None))\<rparr>)"
    by (auto simp: memory_view_def memory_saved_def rows_view_def erase_skills_def fun_eq_iff)
next
  fix i k l db c and db' :: memory_db
  assume "q_insert_skill memory_sql i k l db = (c, db')"
  then have q: "change (\<not> um_contains (r_skills (m_now db)) (i, k)) (\<lambda>t. t\<lparr>r_skills := um_emplace (i, k) l (r_skills t)\<rparr>) db = (c, db')"
    by (simp add: memory_sql_def)
  from change_cases [OF q] show "memory_saved db' = memory_saved db \<and> (c = SQLITE_DONE \<longrightarrow>
      memory_view db' = (memory_view db)\<lparr>t_skills := (t_skills (memory_view db))(i := (t_skills (memory_view db) i)(k \<mapsto> l))\<rparr>)"
    by (auto simp: memory_view_def memory_saved_def rows_view_def view_emplace fun_eq_iff)
next
  fix a i db and db' :: memory_db
  assume "q_insert_link memory_sql a i db = (SQLITE_DONE, db')"
  then have q: "change (um_contains (r_accounts (m_now db)) a \<and> um_contains (r_players (m_now db)) i \<and>
      \<not> um_contains (r_owner (m_now db)) i) (\<lambda>t. t\<lparr>r_owner := um_emplace i a (r_owner t)\<rparr>) db = (SQLITE_DONE, db')" by (simp add: memory_sql_def)
  from change_cases(3) [OF q] show "t_accounts (memory_view db) a \<noteq> None \<and> t_players (memory_view db) i \<noteq> None \<and> t_owner (memory_view db) i = None \<and>
      memory_view db' = (memory_view db)\<lparr>t_owner := (t_owner (memory_view db))(i \<mapsto> a)\<rparr>"
    by (simp add: memory_view_def rows_view_def view_emplace) (simp add: um_contains_def)
next
  fix a i db c and db' :: memory_db
  assume "q_insert_link memory_sql a i db = (c, db')"
  then show "memory_saved db' = memory_saved db \<and> (c \<noteq> SQLITE_DONE \<longrightarrow> memory_view db' = memory_view db)"
    by (auto simp: memory_sql_def memory_view_def memory_saved_def dest: change_cases)
next
  fix m db i nm l p
  assume "q_player_named memory_sql m db = (SQLITE_ROW, i, nm, l, p)"
  then show "nm = Some m \<and> t_players (memory_view db) i = Some (m, l, p)"
    by (auto simp: memory_sql_def memory_view_def rows_view_def split: option.splits dest!: clearjunk_find(1))
next
  fix m db r
  assume "q_player_named memory_sql m db = (SQLITE_DONE, r)"
  then show "name_free m (memory_view db)"
    by (auto simp: memory_sql_def memory_view_def rows_view_def name_free_def clearjunk_find(2) split: option.splits)
next
  fix m db i nm hs
  assume "q_account_named memory_sql m db = (SQLITE_ROW, i, nm, hs)"
  then show "\<exists>a b. nm = Some a \<and> hs = Some b \<and> nocase a = nocase m \<and> t_accounts (memory_view db) i = Some (a, b)"
    by (auto simp: memory_sql_def memory_view_def rows_view_def split: option.splits dest!: clearjunk_find(1))
next
  fix m db ar
  assume "q_account_named memory_sql m db = (SQLITE_DONE, ar)"
  then show "login_free m (memory_view db)"
    by (auto simp: memory_sql_def memory_view_def rows_view_def login_free_def clearjunk_find(2) split: option.splits)
next
  fix i db
  assume "q_player_exists memory_sql i db = SQLITE_DONE"
  then have "\<not> um_contains (r_players (m_now db)) i" by (simp add: memory_sql_def)
  then show "t_players (memory_view db) i = None" by (cases "map_of (r_players (m_now db)) i") (simp_all add: um_contains_def memory_view_def rows_view_def)
next
  fix i db
  assume "q_account_exists memory_sql i db = SQLITE_DONE"
  then have "\<not> um_contains (r_accounts (m_now db)) i" by (simp add: memory_sql_def)
  then show "t_accounts (memory_view db) i = None" by (cases "map_of (r_accounts (m_now db)) i") (simp_all add: um_contains_def memory_view_def rows_view_def)
qed (auto simp: memory_sql_def memory_view_def memory_saved_def rows_view_def um_contains_def answer_def split: if_splits option.splits)

end
