(* ===== verification/Mysql_Store.thy ===== *)
theory Mysql_Store
  imports Sqlite_Store
begin

text \<open>
  The player repository on MySQL (\<open>src/src/MySqlPlayerRepository.cpp\<close>) and the options of its connection pool
  (\<open>src/src/MySqlConnectionPool.cpp\<close>).

  The client library and the server are an argument: \<open>mysql\<close> has one field for each SQL text of the sources and
  one for \<open>Acquire\<close>, which ends with a connection or with an exception. A statement ends with an error code
  or with its result; a row is a list of fields. Unlike SQLite, a commit that reports an error may have taken
  place: the connection can be lost or the time can run out after the server has committed. The locale
  \<open>mysql_database\<close> says so.
\<close>

section \<open>Statements, fields and errors\<close>

datatype mysql_code = er_lock_deadlock | er_lock_wait_timeout | er_dup_entry | other_code nat

datatype field = FUint u64 | FInt int | FText string | FOther

text \<open>\<open>MySqlOperationError\<close> with its code, and any other \<open>DatabaseError\<close>.\<close>

datatype mysql_exception = MySqlOperationError mysql_code | MySqlDatabaseError

record 'db mysql =
  my_acquire :: "'db \<Rightarrow> bool \<times> 'db"
  my_start :: "'db \<Rightarrow> mysql_code option \<times> 'db"
  my_commit :: "'db \<Rightarrow> mysql_code option \<times> 'db"
  my_rollback :: "'db \<Rightarrow> 'db"
  my_player :: "u64 \<Rightarrow> 'db \<Rightarrow> mysql_code + field list list"
  my_player_named :: "string \<Rightarrow> 'db \<Rightarrow> mysql_code + field list list"
  my_player_lock :: "u64 \<Rightarrow> 'db \<Rightarrow> mysql_code + field list list"
  my_insert_player :: "string \<Rightarrow> 'db \<Rightarrow> (mysql_code + u64) \<times> 'db"
  my_update_player :: "u64 \<Rightarrow> string \<Rightarrow> u32 \<Rightarrow> u32 \<Rightarrow> 'db \<Rightarrow> mysql_code option \<times> 'db"
  my_skills :: "u64 \<Rightarrow> 'db \<Rightarrow> mysql_code + field list list"
  my_delete_skills :: "u64 \<Rightarrow> 'db \<Rightarrow> mysql_code option \<times> 'db"
  my_insert_skill :: "u64 \<Rightarrow> u32 \<Rightarrow> u32 \<Rightarrow> 'db \<Rightarrow> mysql_code option \<times> 'db"

definition IsRetryableMySqlSaveError :: "mysql_code \<Rightarrow> bool" where
  "IsRetryableMySqlSaveError error \<longleftrightarrow> error = er_lock_deadlock \<or> error = er_lock_wait_timeout"

section \<open>Reading rows\<close>

text \<open>\<open>PlayerId\<close> has 64 bits, so the \<open>constexpr\<close> branch of \<open>CanStorePlayerId\<close> is not taken.\<close>

definition my_CanStorePlayerId :: "u64 \<Rightarrow> bool" where
  "my_CanStorePlayerId playerId \<longleftrightarrow> playerId \<noteq> 0"

definition ReadUnsigned :: "field \<Rightarrow> u64 \<Rightarrow> mysql_exception + u64" where
  "ReadUnsigned f maximum =
     (case (case f of FUint v \<Rightarrow> Some v | FInt i \<Rightarrow> if 0 \<le> i then Some (word_of_int i) else None | _ \<Rightarrow> None) of
        None \<Rightarrow> Inl MySqlDatabaseError
      | Some v \<Rightarrow> if maximum < v then Inl MySqlDatabaseError else Inr v)"

definition UINT32_MAX :: u64 where "UINT32_MAX = 4294967295"

definition my_ReadProfileRow :: "field list \<Rightarrow> mysql_exception + PlayerProfile" where
  "my_ReadProfileRow row =
     (case row of
        [idField, FText name, levelField, pointsField] \<Rightarrow>
          (case ReadUnsigned idField (- 1) of
             Inl e \<Rightarrow> Inl e
           | Inr playerId \<Rightarrow>
               if \<not> my_CanStorePlayerId playerId then Inl MySqlDatabaseError
               else (case ReadUnsigned levelField UINT32_MAX of
                       Inl e \<Rightarrow> Inl e
                     | Inr level \<Rightarrow>
                         (case ReadUnsigned pointsField UINT32_MAX of
                            Inl e \<Rightarrow> Inl e
                          | Inr skillPoints \<Rightarrow>
                              Inr \<lparr>pp_playerId = playerId, pp_name = name, pp_level = ucast level,
                                pp_skillPoints = ucast skillPoints, pp_skills = []\<rparr>)))
      | _ \<Rightarrow> Inl MySqlDatabaseError)"

fun read_skill_rows :: "field list list \<Rightarrow> mysql_exception + OwnedSkill list" where
  "read_skill_rows [] = Inr []"
| "read_skill_rows ([idField, levelField] # rows) =
     (case ReadUnsigned idField UINT32_MAX of
        Inl e \<Rightarrow> Inl e
      | Inr skillId \<Rightarrow>
          (case ReadUnsigned levelField UINT32_MAX of
             Inl e \<Rightarrow> Inl e
           | Inr skillLevel \<Rightarrow>
               map_sum id (\<lambda>skills. \<lparr>owned_skillId = ucast skillId, owned_level = ucast skillLevel\<rparr> # skills) (read_skill_rows rows)))"
| "read_skill_rows (_ # rows) = Inl MySqlDatabaseError"

definition my_LoadSkills :: "'db mysql \<Rightarrow> PlayerId \<Rightarrow> 'db \<Rightarrow> mysql_exception + OwnedSkill list" where
  "my_LoadSkills my playerId db =
     (case my_skills my playerId db of
        Inl e \<Rightarrow> Inl (MySqlOperationError e)
      | Inr rows \<Rightarrow> read_skill_rows rows)"

definition my_ValidateLoadedProfile :: "'db mysql \<Rightarrow> PlayerProfile \<Rightarrow> 'db \<Rightarrow> mysql_exception + PlayerProfile" where
  "my_ValidateLoadedProfile my profile db =
     (case my_LoadSkills my (pp_playerId profile) db of
        Inl e \<Rightarrow> Inl e
      | Inr skills \<Rightarrow>
          let profile = profile\<lparr>pp_skills := skills\<rparr> in
          if \<not> IsValidPlayerProfile profile then Inl MySqlDatabaseError else Inr profile)"

section \<open>The repository\<close>

text \<open>The second halves of the two searches.\<close>

definition my_read_player :: "'db mysql \<Rightarrow> mysql_code + field list list \<Rightarrow> 'db \<Rightarrow> mysql_exception + PlayerProfile option" where
  "my_read_player my result db =
     (case result of
        Inl e \<Rightarrow> Inl (MySqlOperationError e)
      | Inr [] \<Rightarrow> Inr None
      | Inr [row] \<Rightarrow>
          (case my_ReadProfileRow row of
             Inl e \<Rightarrow> Inl e
           | Inr profile \<Rightarrow> map_sum id Some (my_ValidateLoadedProfile my profile db))
      | Inr _ \<Rightarrow> Inl MySqlDatabaseError)"

definition my_FindPlayer :: "'db mysql \<Rightarrow> PlayerId \<Rightarrow> 'db \<Rightarrow> (mysql_exception + PlayerProfile option) \<times> 'db" where
  "my_FindPlayer my playerId db =
     (if playerId = 0 then (Inr None, db)
      else
        let (acquired, db) = my_acquire my db in
        if \<not> acquired then (Inl MySqlDatabaseError, db)
        else (my_read_player my (my_player my playerId db) db, db))"

definition my_FindPlayerByName :: "'db mysql \<Rightarrow> string \<Rightarrow> 'db \<Rightarrow> (mysql_exception + PlayerProfile option) \<times> 'db" where
  "my_FindPlayerByName my playerName db =
     (if fst (ValidateName playerName) \<noteq> ValidPlayerName then (Inr None, db)
      else
        let (acquired, db) = my_acquire my db in
        if \<not> acquired then (Inl MySqlDatabaseError, db)
        else (my_read_player my (my_player_named my playerName db) db, db))"

definition my_CreatePlayer :: "'db mysql \<Rightarrow> string \<Rightarrow> 'db \<Rightarrow> (mysql_exception + PlayerProfile option) \<times> 'db" where
  "my_CreatePlayer my playerName db =
     (if fst (ValidateName playerName) \<noteq> ValidPlayerName then (Inr None, db)
      else
        let (acquired, db) = my_acquire my db in
        if \<not> acquired then (Inl MySqlDatabaseError, db)
        else case my_insert_player my playerName db of
          (Inl e, db) \<Rightarrow> (if e = er_dup_entry then Inr None else Inl (MySqlOperationError e), db)
        | (Inr playerId, db) \<Rightarrow>
            if \<not> my_CanStorePlayerId playerId then (Inl MySqlDatabaseError, db)
            else (Inr (Some \<lparr>pp_playerId = playerId, pp_name = playerName, pp_level = 1, pp_skillPoints = 0, pp_skills = []\<rparr>), db))"

fun my_insert_skills :: "'db mysql \<Rightarrow> PlayerId \<Rightarrow> OwnedSkill list \<Rightarrow> 'db \<Rightarrow> mysql_code option \<times> 'db" where
  "my_insert_skills my playerId [] db = (None, db)"
| "my_insert_skills my playerId (skill # skills) db =
     (case my_insert_skill my playerId (owned_skillId skill) (owned_level skill) db of
        (Some e, db) \<Rightarrow> (Some e, db)
      | (None, db) \<Rightarrow> my_insert_skills my playerId skills db)"

text \<open>Leaving the function before the commit has succeeded runs the destructor of the transaction.\<close>

definition SavePlayerOnce :: "'db mysql \<Rightarrow> PlayerProfile \<Rightarrow> 'db \<Rightarrow> (mysql_exception + bool) \<times> 'db" where
  "SavePlayerOnce my profile db =
     (let (acquired, db) = my_acquire my db; playerId = pp_playerId profile in
      if \<not> acquired then (Inl MySqlDatabaseError, db)
      else case my_start my db of
        (Some e, db) \<Rightarrow> (Inl (MySqlOperationError e), db)
      | (None, db) \<Rightarrow>
          (case my_player_lock my playerId db of
             Inl e \<Rightarrow> (Inl (MySqlOperationError e), my_rollback my db)
           | Inr [] \<Rightarrow> (Inr False, my_rollback my db)
           | Inr _ \<Rightarrow>
               (case my_update_player my playerId (pp_name profile) (pp_level profile) (pp_skillPoints profile) db of
                  (Some e, db) \<Rightarrow> (Inl (MySqlOperationError e), my_rollback my db)
                | (None, db) \<Rightarrow>
                    (case my_delete_skills my playerId db of
                       (Some e, db) \<Rightarrow> (Inl (MySqlOperationError e), my_rollback my db)
                     | (None, db) \<Rightarrow>
                         (case my_insert_skills my playerId (pp_skills profile) db of
                            (Some e, db) \<Rightarrow> (Inl (MySqlOperationError e), my_rollback my db)
                          | (None, db) \<Rightarrow>
                              (case my_commit my db of
                                 (Some e, db) \<Rightarrow> (Inl (MySqlOperationError e), my_rollback my db)
                               | (None, db) \<Rightarrow> (Inr True, db)))))))"

definition MYSQL_SAVE_MAX_TRANSACTION_ATTEMPTS :: nat where "MYSQL_SAVE_MAX_TRANSACTION_ATTEMPTS = 3"

text \<open>The loop, with the number of attempts that are left. The pause before the next attempt has no effect on
  the state. The third component counts the attempts.\<close>

fun save_attempts :: "'db mysql \<Rightarrow> PlayerProfile \<Rightarrow> nat \<Rightarrow> 'db \<Rightarrow> (mysql_exception + bool) \<times> 'db \<times> nat" where
  "save_attempts my profile 0 db = (Inr False, db, 0)"
| "save_attempts my profile (Suc left) db =
     (case SavePlayerOnce my profile db of
        (Inl (MySqlOperationError e), db) \<Rightarrow>
          if \<not> IsRetryableMySqlSaveError e \<or> left = 0 then (Inl (MySqlOperationError e), db, 1)
          else (case save_attempts my profile left db of (r, db, n) \<Rightarrow> (r, db, Suc n))
      | (r, db) \<Rightarrow> (r, db, 1))"

definition my_SavePlayer :: "'db mysql \<Rightarrow> PlayerProfile \<Rightarrow> 'db \<Rightarrow> (mysql_exception + bool) \<times> 'db \<times> nat" where
  "my_SavePlayer my profile db =
     (if \<not> IsValidPlayerProfile profile then (Inr False, db, 0)
      else save_attempts my profile MYSQL_SAVE_MAX_TRANSACTION_ATTEMPTS db)"

section \<open>The options of the pool\<close>

datatype MySqlTlsMode = TlsDisabled | TlsPreferred | TlsRequired

record MySqlConnectionPoolOptions =
  po_host :: string
  po_port :: u16
  po_username :: string
  po_password :: string
  po_database :: string
  po_initialSize :: nat
  po_maxSize :: nat
  po_connectTimeout :: int
  po_acquireTimeout :: int
  po_queryTimeout :: int
  po_tlsMode :: MySqlTlsMode

definition MAX_MYSQL_CONNECTION_POOL_SIZE :: nat where "MAX_MYSQL_CONNECTION_POOL_SIZE = 64"

datatype pool_options_error = EmptyHost | ZeroPort | EmptyUsername | EmptyDatabase | MaxSizeOutOfRange | InitialSizeExceedsMax
  | ConnectTimeoutNotPositive | AcquireTimeoutNotPositive | QueryTimeoutNotPositive

text \<open>The exception, if any. The switch over the TLS mode covers every value of the enumeration.\<close>

definition ValidateMySqlConnectionPoolOptions :: "MySqlConnectionPoolOptions \<Rightarrow> pool_options_error option" where
  "ValidateMySqlConnectionPoolOptions options =
     (if po_host options = [] then Some EmptyHost
      else if po_port options = 0 then Some ZeroPort
      else if po_username options = [] then Some EmptyUsername
      else if po_database options = [] then Some EmptyDatabase
      else if po_maxSize options = 0 \<or> MAX_MYSQL_CONNECTION_POOL_SIZE < po_maxSize options then Some MaxSizeOutOfRange
      else if po_maxSize options < po_initialSize options then Some InitialSizeExceedsMax
      else if po_connectTimeout options \<le> 0 then Some ConnectTimeoutNotPositive
      else if po_acquireTimeout options \<le> 0 then Some AcquireTimeoutNotPositive
      else if po_queryTimeout options \<le> 0 then Some QueryTimeoutNotPositive
      else None)"

section \<open>What the server promises\<close>

text \<open>
  \<open>view\<close> is what the connection sees and \<open>saved\<close> what a rollback returns to; identifiers are unsigned. A commit that
  fails leaves either the old or the new tables behind. Every other statement that fails inside a transaction is
  undone by the rollback. Connections of other processes do not change the rows in between.
\<close>

text \<open>What saving has done to the tables, by its result. After an exception the rows of the player are the old or the
  new ones.\<close>

definition save_outcome :: "PlayerProfile \<Rightarrow> mysql_exception + bool \<Rightarrow> tables \<Rightarrow> tables \<Rightarrow> bool" where
  "save_outcome profile r t t' \<longleftrightarrow>
     (let i = uint (pp_playerId profile); new = profile_at i profile t in
      case r of
        Inr True \<Rightarrow> t_players t i \<noteq> None \<and> t' = new
      | Inr False \<Rightarrow> t_players t i = None \<and> t' = t
      | Inl _ \<Rightarrow> t' = t \<or> t_players t i \<noteq> None \<and> t' = new)"

definition retried :: "mysql_exception + bool \<Rightarrow> bool" where
  "retried r \<longleftrightarrow> (case r of Inl (MySqlOperationError e) \<Rightarrow> IsRetryableMySqlSaveError e | _ \<Rightarrow> False)"

lemma profile_at_twice [simp]:
  "profile_at i profile (profile_at i profile t) = profile_at i profile t" "t_players (profile_at i profile t) i \<noteq> None"
  by (simp_all add: profile_at_def)

text \<open>A second attempt after a failed one leaves no more than one attempt would.\<close>

lemma save_outcome_trans:
  assumes "save_outcome profile (Inl e) t t1" "save_outcome profile r t1 t2"
  shows "save_outcome profile r t t2"
  using assms by (auto simp: save_outcome_def Let_def split: sum.splits bool.splits)

lemma read_unsigned_Inr: "ReadUnsigned (FUint a) m = Inr v \<Longrightarrow> v = a \<and> a \<le> m"
  by (auto simp: ReadUnsigned_def split: if_splits)

lemma uint_narrow: "a \<le> UINT32_MAX \<Longrightarrow> uint (ucast a :: u32) = uint (a :: u64)"
  by (simp add: UINT32_MAX_def word_le_def unsigned_ucast_eq take_bit_int_eq_self)

lemma read_skill_rows_Inr:
  "read_skill_rows (map (\<lambda>(a, b). [FUint a, FUint b]) ks) = Inr skills \<Longrightarrow>
     map (\<lambda>sk. (uint (owned_skillId sk), uint (owned_level sk))) skills = map (\<lambda>(a, b). (uint a, uint b)) ks"
proof (induction ks arbitrary: skills)
  case (Cons e ks)
  obtain a b where e: "e = (a, b)" by fastforce
  from Cons.prems obtain rest where r: "read_skill_rows (map (\<lambda>(a, b). [FUint a, FUint b]) ks) = Inr rest"
      "skills = \<lparr>owned_skillId = ucast a, owned_level = ucast b\<rparr> # rest" "a \<le> UINT32_MAX" "b \<le> UINT32_MAX"
    by (cases "read_skill_rows (map (\<lambda>(a, b). [FUint a, FUint b]) ks)")
      (auto simp: e split: sum.splits dest!: read_unsigned_Inr)
  show ?case using Cons.IH [OF r(1)] r(2-4) by (simp add: e uint_narrow)
qed simp

lemma skills_order:
  assumes "map (\<lambda>sk. (uint (owned_skillId sk), uint (owned_level sk))) skills = map (\<lambda>(a :: u64, b :: u64). (uint a, uint b)) ks"
  shows "sorted_wrt (<) (map owned_skillId skills) \<longleftrightarrow> sorted_wrt (<) (map fst ks)"
proof -
  have "map (\<lambda>sk. uint (owned_skillId sk)) skills = map (\<lambda>e. uint (fst e)) ks"
    using arg_cong [OF assms, of "map fst"] by (simp add: o_def split_def)
  then have "sorted_wrt (<) (map (\<lambda>sk. uint (owned_skillId sk)) skills) \<longleftrightarrow> sorted_wrt (<) (map (\<lambda>e. uint (fst e)) ks)" by simp
  then show ?thesis by (simp add: sorted_wrt_map word_less_def)
qed

lemma skills_members:
  assumes "map (\<lambda>sk. (uint (owned_skillId sk), uint (owned_level sk))) skills = map (\<lambda>(a :: u64, b :: u64). (uint a, uint b)) ks"
  shows "(\<exists>sk \<in> set skills. k = uint (owned_skillId sk) \<and> v = uint (owned_level sk)) \<longleftrightarrow> (\<exists>(a, b) \<in> set ks. k = uint a \<and> v = uint b)"
proof -
  have "(k, v) \<in> set (map (\<lambda>sk. (uint (owned_skillId sk), uint (owned_level sk))) skills) \<longleftrightarrow> (k, v) \<in> set (map (\<lambda>(a, b). (uint a, uint b)) ks)"
    by (simp only: assms)
  then show ?thesis by (simp add: image_iff split_def)
qed

locale mysql_database =
  fixes my :: "'db mysql"
    and view :: "'db \<Rightarrow> tables"
    and saved :: "'db \<Rightarrow> tables"
  assumes acquire_view: "my_acquire my db = (ok, db') \<Longrightarrow> view db' = view db"
    and start_view: "my_start my db = (e, db') \<Longrightarrow> view db' = view db \<and> (e = None \<longrightarrow> saved db' = view db)"
    and commit_done: "my_commit my db = (None, db') \<Longrightarrow> view db' = view db"
    and commit_failed: "my_commit my db = (Some c, db') \<Longrightarrow> saved db' = saved db \<or> saved db' = view db"
    and rollback_view: "view (my_rollback my db) = saved db"
    and player_rows: "my_player my x db = Inr rows \<Longrightarrow>
      (case t_players (view db) (uint x) of
         None \<Rightarrow> rows = []
       | Some (n, l, p) \<Rightarrow> \<exists>a b. rows = [[FUint x, FText n, FUint a, FUint b]] \<and> uint a = l \<and> uint b = p)"
    and player_lock: "my_player_lock my x db = Inr rows \<Longrightarrow> rows = [] \<longleftrightarrow> t_players (view db) (uint x) = None"
    and insert_player_done: "my_insert_player my n db = (Inr x, db') \<Longrightarrow>
      x \<noteq> 0 \<and> t_players (view db) (uint x) = None \<and> t_skills (view db) (uint x) = (\<lambda>_. None) \<and>
      view db' = (view db)\<lparr>t_players := (t_players (view db))(uint x \<mapsto> (n, 1, 0))\<rparr>"
    and insert_player_dup: "my_insert_player my n db = (Inl er_dup_entry, db') \<Longrightarrow> view db' = view db"
    and update_player: "my_update_player my x n l p db = (e, db') \<Longrightarrow> saved db' = saved db \<and>
      (e = None \<longrightarrow> view db' = (if t_players (view db) (uint x) = None then view db
         else (view db)\<lparr>t_players := (t_players (view db))(uint x \<mapsto> (n, uint l, uint p))\<rparr>))"
    and skill_rows: "my_skills my x db = Inr rows \<Longrightarrow>
      (\<exists>ks. rows = map (\<lambda>(a, b). [FUint a, FUint b]) ks \<and> sorted_wrt (<) (map fst ks) \<and>
        (\<forall>k l. t_skills (view db) (uint x) k = Some l \<longleftrightarrow> (\<exists>(a, b) \<in> set ks. k = uint a \<and> l = uint b)))"
    and delete_skills: "my_delete_skills my x db = (e, db') \<Longrightarrow> saved db' = saved db \<and>
      (e = None \<longrightarrow> view db' = (view db)\<lparr>t_skills := (t_skills (view db))(uint x := (\<lambda>_. None))\<rparr>)"
    and insert_skill: "my_insert_skill my x k l db = (e, db') \<Longrightarrow> saved db' = saved db \<and>
      (e = None \<longrightarrow> view db' = (view db)\<lparr>t_skills := (t_skills (view db))(uint x := (t_skills (view db) (uint x))(uint k \<mapsto> uint l))\<rparr>)"
begin

lemma insert_skills_saved: "my_insert_skills my x skills db = (e, db') \<Longrightarrow> saved db' = saved db"
proof (induction skills arbitrary: db)
  case (Cons sk skills)
  obtain c db1 where q: "my_insert_skill my x (owned_skillId sk) (owned_level sk) db = (c, db1)" by fastforce
  with Cons insert_skill [OF q] show ?case by (auto split: option.splits)
qed simp

lemma insert_skills_view:
  assumes "my_insert_skills my x skills db = (None, db')"
  shows "view db' = (view db)\<lparr>t_skills := (t_skills (view db))(uint x := fold add_skill skills (t_skills (view db) (uint x)))\<rparr>"
  using assms
proof (induction skills arbitrary: db)
  case (Cons sk skills)
  obtain c db1 where q: "my_insert_skill my x (owned_skillId sk) (owned_level sk) db = (c, db1)" by fastforce
  with Cons.prems have c: "c = None" "my_insert_skills my x skills db1 = (None, db')" by (auto split: option.splits)
  have "view db1 = (view db)\<lparr>t_skills := (t_skills (view db))(uint x := add_skill sk (t_skills (view db) (uint x)))\<rparr>"
    using insert_skill [OF q] c(1) by (simp add: add_skill_def)
  then show ?case using Cons.IH [OF c(2)] by (simp add: fun_upd_same del: fun_upd_apply)
qed simp

lemma save_once_outcome:
  assumes "SavePlayerOnce my profile db = (r, db')"
  shows "save_outcome profile r (view db) (view db')"
proof -
  let ?x = "pp_playerId profile"
  obtain ok db0 where a: "my_acquire my db = (ok, db0)" by fastforce
  obtain e1 db1 where b: "my_start my db0 = (e1, db1)" by fastforce
  obtain e2 db2 where u: "my_update_player my ?x (pp_name profile) (pp_level profile) (pp_skillPoints profile) db1 = (e2, db2)" by fastforce
  obtain e3 db3 where d: "my_delete_skills my ?x db2 = (e3, db3)" by fastforce
  obtain e4 db4 where i: "my_insert_skills my ?x (pp_skills profile) db3 = (e4, db4)" by fastforce
  obtain e5 db5 where c: "my_commit my db4 = (e5, db5)" by fastforce
  have view1: "view db1 = view db" "e1 = None \<Longrightarrow> saved db1 = view db" "view db0 = view db"
    using acquire_view [OF a] start_view [OF b] by auto
  have saved4: "saved db2 = saved db1" "saved db3 = saved db1" "saved db4 = saved db1"
    using update_player [OF u] delete_skills [OF d] insert_skills_saved [OF i] by auto
  have new: "view db4 = profile_at (uint ?x) profile (view db)"
    if "t_players (view db) (uint ?x) \<noteq> None" "e2 = None" "e3 = None" "e4 = None"
    using that view1 update_player [OF u] delete_skills [OF d] insert_skills_view i
    by (simp add: profile_at_def stored_skills_def fun_upd_same del: fun_upd_apply not_None_eq)
  have failed: "view (my_rollback my db5) = saved db1 \<or> view (my_rollback my db5) = view db4" if "e5 = Some e" for e
    using rollback_view [of db5] commit_failed [of db4 e db5] c that saved4 by auto
  have lock: "rows = [] \<longleftrightarrow> t_players (view db) (uint ?x) = None" if "my_player_lock my ?x db1 = Inr rows" for rows
    using player_lock [OF that] view1 by simp
  note cases = assms a b u d i c
  show ?thesis
  proof (cases "ok \<and> e1 = None")
    case False
    then show ?thesis using cases view1 by (auto simp: SavePlayerOnce_def save_outcome_def Let_def split: option.splits if_splits)
  next
    case started: True
    note undone = rollback_view saved4 view1(2) [of] started
    show ?thesis
    proof (cases "my_player_lock my ?x db1")
      case (Inl e)
      then show ?thesis using cases undone by (auto simp: SavePlayerOnce_def save_outcome_def Let_def)
    next
      case (Inr rows)
      show ?thesis
      proof (cases rows)
        case Nil
        then show ?thesis using cases undone lock [OF Inr] Inr by (auto simp: SavePlayerOnce_def save_outcome_def Let_def)
      next
        case (Cons row more_rows)
        then have there: "t_players (view db) (uint ?x) \<noteq> None" using lock [OF Inr] by simp
        note new = new [OF there] and there' = there [unfolded not_None_eq]
        show ?thesis
        proof (cases "e2 = None \<and> e3 = None \<and> e4 = None")
          case True
          then show ?thesis
            using cases undone Inr Cons there' new failed commit_done [of db4 db5]
            by (cases e5) (auto simp: SavePlayerOnce_def save_outcome_def Let_def)
        next
          case False
          then show ?thesis
            using cases undone Inr Cons by (auto simp: SavePlayerOnce_def save_outcome_def Let_def split: option.splits)
        qed
      qed
    qed
  qed
qed

lemma save_attempts_outcome:
  assumes "save_attempts my profile n db = (r, db', k)" "0 < n"
  shows "save_outcome profile r (view db) (view db') \<and> 1 \<le> k \<and> k \<le> n \<and> (retried r \<longrightarrow> k = n)"
  using assms
proof (induction n arbitrary: db r db' k)
  case (Suc n)
  obtain r1 db1 where once: "SavePlayerOnce my profile db = (r1, db1)" by fastforce
  note one = save_once_outcome [OF once]
  show ?case
  proof (cases "retried r1 \<and> n \<noteq> 0")
    case True
    then obtain e where e: "r1 = Inl (MySqlOperationError e)" "IsRetryableMySqlSaveError e"
      by (auto simp: retried_def split: sum.splits mysql_exception.splits)
    obtain k' where k': "save_attempts my profile n db1 = (r, db', k')" "k = Suc k'"
      using Suc.prems(1) once e True by (auto split: prod.splits)
    show ?thesis using Suc.IH [OF k'(1)] True save_outcome_trans one k'(2) e(1) by auto
  next
    case False
    then have "r = r1" "db' = db1" "k = 1"
      using Suc.prems(1) once by (auto simp: retried_def split: sum.splits mysql_exception.splits if_splits)
    then show ?thesis using one False by auto
  qed
qed simp

lemma save_player_outcome:
  assumes "my_SavePlayer my profile db = (r, db', k)"
  shows "if IsValidPlayerProfile profile
    then save_outcome profile r (view db) (view db') \<and> 1 \<le> k \<and> k \<le> 3 \<and> (retried r \<longrightarrow> k = 3)
    else r = Inr False \<and> db' = db \<and> k = 0"
  using assms save_attempts_outcome [of profile 3 db r db' k]
  by (simp add: my_SavePlayer_def MYSQL_SAVE_MAX_TRANSACTION_ATTEMPTS_def split: if_splits)

lemma find_after_save:
  assumes "my_SavePlayer my profile db = (Inr True, db1, k)" "my_FindPlayer my (pp_playerId profile) db1 = (Inr r, db')"
  shows "r = Some (profile\<lparr>pp_skills := sort_key owned_skillId (pp_skills profile)\<rparr>)"
proof -
  let ?x = "pp_playerId profile" and ?i = "uint (pp_playerId profile)"
  have valid: "IsValidPlayerProfile profile" and out: "view db1 = profile_at ?i profile (view db)"
    using save_player_outcome [OF assms(1)] by (auto simp: save_outcome_def Let_def split: if_splits)
  then have x: "?x \<noteq> 0" by (auto simp: IsValidPlayerProfile_def split: if_splits)
  obtain ok db2 where a: "my_acquire my db1 = (ok, db2)" by fastforce
  with assms(2) x have read: "my_read_player my (my_player my ?x db2) db2 = Inr r" by (auto simp: my_FindPlayer_def split: if_splits)
  have row: "t_players (view db2) ?i = Some (pp_name profile, uint (pp_level profile), uint (pp_skillPoints profile))"
    and stored: "t_skills (view db2) ?i = stored_skills (pp_skills profile)"
    using acquire_view [OF a] by (simp_all add: out profile_at_def)
  obtain rows where rows: "my_player my ?x db2 = Inr rows" using read by (auto simp: my_read_player_def split: sum.splits)
  from player_rows [OF rows] row obtain l p where fields': "rows = [[FUint ?x, FText (pp_name profile), FUint l, FUint p]]"
      "uint l = uint (pp_level profile)" "uint p = uint (pp_skillPoints profile)" by auto
  from read rows fields'(1) x obtain srows skills where s: "my_skills my ?x db2 = Inr srows" "read_skill_rows srows = Inr skills"
      and r: "r = Some \<lparr>pp_playerId = ?x, pp_name = pp_name profile, pp_level = ucast l, pp_skillPoints = ucast p, pp_skills = skills\<rparr>"
      and bounds: "l \<le> UINT32_MAX" "p \<le> UINT32_MAX"
    by (auto simp: my_read_player_def my_ReadProfileRow_def my_ValidateLoadedProfile_def my_LoadSkills_def Let_def
        split: sum.splits if_splits dest!: read_unsigned_Inr)
  from skill_rows [OF s(1)] obtain ks where ks: "srows = map (\<lambda>(a, b). [FUint a, FUint b]) ks" "sorted_wrt (<) (map fst ks)"
      "\<And>k l. t_skills (view db2) ?i k = Some l \<longleftrightarrow> (\<exists>(a, b) \<in> set ks. k = uint a \<and> l = uint b)" by auto
  note same = read_skill_rows_Inr [OF s(2) [unfolded ks(1)]]
  have d: "distinct (map owned_skillId (pp_skills profile))"
    using valid by (simp add: IsValidPlayerProfile_def check_skills_iff split: if_splits)
  have "set skills = set (pp_skills profile)"
    using ks(3) stored_skills_iff [OF d] skills_members [OF same] by (intro same_skills) (simp add: stored)
  moreover have "sorted_wrt (<) (map owned_skillId skills)"
    using skills_order [OF same] ks(2) by simp
  ultimately have "skills = sort_key owned_skillId (pp_skills profile)" using sorted_skills_unique d by blast
  then show ?thesis using fields'(2,3) bounds by (simp add: r word_uint_eq_iff uint_narrow)
qed

text \<open>A player is created with a fresh identifier, level 1 and no skills; a name in use changes nothing.\<close>

lemma create_player_view:
  assumes "my_CreatePlayer my n db = (Inr r, db')"
  shows "case r of
      None \<Rightarrow> view db' = view db
    | Some profile \<Rightarrow> pp_name profile = n \<and> IsValidPlayerProfile profile \<and>
        t_players (view db) (uint (pp_playerId profile)) = None \<and> view db' = profile_at (uint (pp_playerId profile)) profile (view db)"
proof (cases "fst (ValidateName n) = ValidPlayerName \<and> fst (my_acquire my db)")
  case True
  obtain ok db1 where a: "my_acquire my db = (ok, db1)" by fastforce
  obtain e db2 where i: "my_insert_player my n db1 = (e, db2)" by fastforce
  have unchanged: "(t_skills t)(j := (\<lambda>_. None)) = t_skills t" if "t_skills t j = (\<lambda>_. None)" for t :: tables and j
    using that by (metis fun_upd_triv)
  show ?thesis
    using assms True a i acquire_view [OF a] insert_player_dup [of n db1 db2] insert_player_done [of n db1 _ db2]
    by (auto simp: my_CreatePlayer_def my_CanStorePlayerId_def IsValidPlayerProfile_def profile_at_def stored_skills_def unchanged
        split: sum.splits if_splits)
next
  case False
  then show ?thesis
    using assms acquire_view [of db] by (auto simp: my_CreatePlayer_def split: if_splits prod.splits)
qed

end

section \<open>A server in memory\<close>

text \<open>The tables of \<open>memory_sql\<close>, with the number of updates that still run into a deadlock and whether the next commit
  takes place without an answer. A row with a number that does not fit into 64 bits makes its query fail.\<close>

record mysql_db =
  d_rows :: memory_db
  d_deadlocks :: nat
  d_lost :: bool

definition my_change :: "sql_step \<times> memory_db \<Rightarrow> mysql_db \<Rightarrow> mysql_code option \<times> mysql_db" where
  "my_change q db = (if fst q = SQLITE_DONE then (None, db\<lparr>d_rows := snd q\<rparr>)
     else (Some (if fst q = SQLITE_CONSTRAINT then er_dup_entry else other_code 0), db))"

definition as_unsigned :: "int \<Rightarrow> u64 option" where
  "as_unsigned i = (if 0 \<le> i \<and> i < 18446744073709551616 then Some (word_of_int i) else None)"

fun as_pairs :: "(int \<times> int) list \<Rightarrow> (u64 \<times> u64) list option" where
  "as_pairs [] = Some []"
| "as_pairs ((k, l) # rows) =
     (case (as_unsigned k, as_unsigned l, as_pairs rows) of
        (Some a, Some b, Some ks) \<Rightarrow> Some ((a, b) # ks)
      | _ \<Rightarrow> None)"

definition memory_mysql :: "mysql_db mysql" where
  "memory_mysql = \<lparr>
     my_acquire = \<lambda>db. (\<not> m_broken (d_rows db), db),
     my_start = \<lambda>db. case q_begin memory_sql (d_rows db) of
         (ok, rows) \<Rightarrow> (if ok then None else Some (other_code 0), db\<lparr>d_rows := rows\<rparr>),
     my_commit = \<lambda>db. if d_lost db then (Some (other_code 1), db\<lparr>d_rows := (d_rows db)\<lparr>m_saved := m_now (d_rows db)\<rparr>, d_lost := False\<rparr>)
         else (None, db),
     my_rollback = \<lambda>db. db\<lparr>d_rows := q_rollback memory_sql (d_rows db)\<rparr>,
     my_player = \<lambda>x db. (case map_of (r_players (m_now (d_rows db))) (uint x) of
         None \<Rightarrow> Inr []
       | Some (n, l, p) \<Rightarrow> (case (as_unsigned l, as_unsigned p) of
             (Some a, Some b) \<Rightarrow> Inr [[FUint x, FText n, FUint a, FUint b]]
           | _ \<Rightarrow> Inl (other_code 0))),
     my_player_named = \<lambda>n db. (case find (\<lambda>e. fst (snd e) = n) (AList.clearjunk (r_players (m_now (d_rows db)))) of
         None \<Rightarrow> Inr []
       | Some (i, m, l, p) \<Rightarrow> (case (as_unsigned i, as_unsigned l, as_unsigned p) of
             (Some x, Some a, Some b) \<Rightarrow> Inr [[FUint x, FText m, FUint a, FUint b]]
           | _ \<Rightarrow> Inl (other_code 0))),
     my_player_lock = \<lambda>x db. Inr (if um_contains (r_players (m_now (d_rows db))) (uint x) then [[FInt 1]] else []),
     my_insert_player = \<lambda>n db. (case q_insert_player memory_sql n (d_rows db) of
         (c, i, rows) \<Rightarrow> (case my_change (c, rows) db of
             (Some e, db) \<Rightarrow> (Inl e, db)
           | (None, db) \<Rightarrow> (Inr (word_of_int i), db))),
     my_update_player = \<lambda>x n l p db. (if d_deadlocks db = 0
         then my_change (q_update_player memory_sql (uint x) n (uint l) (uint p) (d_rows db)) db
         else (Some er_lock_deadlock, db\<lparr>d_deadlocks := d_deadlocks db - 1\<rparr>)),
     my_skills = \<lambda>x db. (case as_pairs (fst (q_skills memory_sql (uint x) (d_rows db))) of
         None \<Rightarrow> Inl (other_code 0)
       | Some ks \<Rightarrow> Inr (map (\<lambda>(a, b). [FUint a, FUint b]) ks)),
     my_delete_skills = \<lambda>x db. my_change (q_delete_skills memory_sql (uint x) (d_rows db)) db,
     my_insert_skill = \<lambda>x k l db. my_change (q_insert_skill memory_sql (uint x) (uint k) (uint l) (d_rows db)) db\<rparr>"

definition mysql_view :: "mysql_db \<Rightarrow> tables" where "mysql_view db = memory_view (d_rows db)"
definition mysql_saved :: "mysql_db \<Rightarrow> tables" where "mysql_saved db = memory_saved (d_rows db)"

lemma as_unsigned_Some: "as_unsigned i = Some a \<Longrightarrow> uint a = i"
  by (auto simp: as_unsigned_def uint_word_of_int_eq take_bit_int_eq_self split: if_splits)

lemma as_pairs_Some: "as_pairs rows = Some ks \<Longrightarrow> rows = map (\<lambda>(a, b). (uint a, uint b)) ks"
  by (induction rows arbitrary: ks rule: as_pairs.induct) (auto split: option.splits dest: as_unsigned_Some)

interpretation memory_my: mysql_database memory_mysql mysql_view mysql_saved
proof unfold_locales
  fix x db and rows :: "field list list"
  assume "my_skills memory_mysql x db = Inr rows"
  then obtain ks where ks: "as_pairs (fst (q_skills memory_sql (uint x) (d_rows db))) = Some ks"
      "rows = map (\<lambda>(a, b). [FUint a, FUint b]) ks" by (auto simp: memory_mysql_def split: option.splits)
  obtain rs c where q: "q_skills memory_sql (uint x) (d_rows db) = (rs, c)" by fastforce
  with ks(1) as_pairs_Some have rs: "rs = map (\<lambda>(a, b). (uint a, uint b)) ks" by simp
  have "sorted_wrt (<) (map fst ks)" using memory_skills [OF q]
    by (simp add: rs sorted_wrt_map o_def split_def word_less_def)
  moreover have "t_skills (mysql_view db) (uint x) k = Some l \<longleftrightarrow> (\<exists>(a, b) \<in> set ks. k = uint a \<and> l = uint b)" for k l
  proof -
    have "t_skills (mysql_view db) (uint x) k = Some l \<longleftrightarrow> (k, l) \<in> set rs" using memory_skills [OF q] by (simp add: mysql_view_def)
    then show ?thesis by (simp add: rs image_iff split_def)
  qed
  ultimately show "\<exists>ks. rows = map (\<lambda>(a, b). [FUint a, FUint b]) ks \<and> sorted_wrt (<) (map fst ks) \<and>
      (\<forall>k l. t_skills (mysql_view db) (uint x) k = Some l \<longleftrightarrow> (\<exists>(a, b) \<in> set ks. k = uint a \<and> l = uint b))"
    using ks(2) by blast
next
  fix n x db and db' :: mysql_db
  assume "my_insert_player memory_mysql n db = (Inr x, db')"
  then obtain i where q: "q_insert_player memory_sql n (d_rows db) = (SQLITE_DONE, i, d_rows db')" and x: "x = word_of_int i"
    by (auto simp: memory_mysql_def my_change_def split: prod.splits if_splits)
  have "uint x = i" using memory.insert_player_done [OF q] by (simp add: x uint_word_of_int_eq take_bit_int_eq_self INT64_MAX_def)
  then show "x \<noteq> 0 \<and> t_players (mysql_view db) (uint x) = None \<and> t_skills (mysql_view db) (uint x) = (\<lambda>_. None) \<and>
      mysql_view db' = (mysql_view db)\<lparr>t_players := (t_players (mysql_view db))(uint x \<mapsto> (n, 1, 0))\<rparr>"
    using memory.insert_player_done [OF q] by (auto simp: mysql_view_def)
next
  fix n db and db' :: mysql_db
  assume "my_insert_player memory_mysql n db = (Inl er_dup_entry, db')"
  then show "mysql_view db' = mysql_view db" by (auto simp: memory_mysql_def my_change_def mysql_view_def split: prod.splits if_splits)
next
  fix x n l p db e and db' :: mysql_db
  assume "my_update_player memory_mysql x n l p db = (e, db')"
  then have q: "my_change (q_update_player memory_sql (uint x) n (uint l) (uint p) (d_rows db)) db = (e, db') \<or>
      e \<noteq> None \<and> d_rows db' = d_rows db" by (auto simp: memory_mysql_def split: if_splits)
  obtain c rows where u: "q_update_player memory_sql (uint x) n (uint l) (uint p) (d_rows db) = (c, rows)" by fastforce
  from q memory.update_player [OF u] u show "mysql_saved db' = mysql_saved db \<and>
      (e = None \<longrightarrow> mysql_view db' = (if t_players (mysql_view db) (uint x) = None then mysql_view db
         else (mysql_view db)\<lparr>t_players := (t_players (mysql_view db))(uint x \<mapsto> (n, uint l, uint p))\<rparr>))"
    by (auto simp: mysql_view_def mysql_saved_def my_change_def split: if_splits)
next
  fix x db e and db' :: mysql_db
  assume q: "my_delete_skills memory_mysql x db = (e, db')"
  obtain c rows where u: "q_delete_skills memory_sql (uint x) (d_rows db) = (c, rows)" by fastforce
  from q memory.delete_skills [OF u] u show "mysql_saved db' = mysql_saved db \<and>
      (e = None \<longrightarrow> mysql_view db' = (mysql_view db)\<lparr>t_skills := (t_skills (mysql_view db))(uint x := (\<lambda>_. None))\<rparr>)"
    by (auto simp: memory_mysql_def mysql_view_def mysql_saved_def my_change_def split: if_splits)
next
  fix x k l db e and db' :: mysql_db
  assume q: "my_insert_skill memory_mysql x k l db = (e, db')"
  obtain c rows where u: "q_insert_skill memory_sql (uint x) (uint k) (uint l) (d_rows db) = (c, rows)" by fastforce
  from q memory.insert_skill [OF u] u show "mysql_saved db' = mysql_saved db \<and> (e = None \<longrightarrow>
      mysql_view db' = (mysql_view db)\<lparr>t_skills := (t_skills (mysql_view db))(uint x := (t_skills (mysql_view db) (uint x))(uint k \<mapsto> uint l))\<rparr>)"
    by (auto simp: memory_mysql_def mysql_view_def mysql_saved_def my_change_def split: if_splits)
next
  fix x db and rows :: "field list list"
  assume "my_player memory_mysql x db = Inr rows"
  then show "case t_players (mysql_view db) (uint x) of None \<Rightarrow> rows = []
      | Some (n, l, p) \<Rightarrow> \<exists>a b. rows = [[FUint x, FText n, FUint a, FUint b]] \<and> uint a = l \<and> uint b = p"
    by (auto simp: memory_mysql_def mysql_view_def memory_view_def rows_view_def as_unsigned_Some split: option.splits)
next
  fix x db and rows :: "field list list"
  assume "my_player_lock memory_mysql x db = Inr rows"
  then show "rows = [] \<longleftrightarrow> t_players (mysql_view db) (uint x) = None"
    by (cases "map_of (r_players (m_now (d_rows db))) (uint x)")
      (auto simp: memory_mysql_def mysql_view_def memory_view_def rows_view_def um_contains_def)
next
  fix db e and db' :: mysql_db
  assume "my_start memory_mysql db = (e, db')"
  then show "mysql_view db' = mysql_view db \<and> (e = None \<longrightarrow> mysql_saved db' = mysql_view db)"
    by (auto simp: memory_mysql_def mysql_view_def mysql_saved_def split: prod.splits if_splits dest!: memory.begin_view)
qed (auto simp: memory_mysql_def mysql_view_def mysql_saved_def memory_view_def memory_saved_def rows_view_def um_contains_def memory.rollback_view
    memory.rollback_view [unfolded memory_view_def memory_saved_def rows_view_def] split: if_splits option.splits)

end
