(* ===== verification/Password_Hash.thy ===== *)
theory Password_Hash
  imports Text_Format Auth_Server
begin

text \<open>
  The password hasher (\<open>src/src/ScryptPasswordHasher.cpp\<close>): the text in which a hash is stored, its parser
  with the limits on the cost parameters, hashing and verification.

  The key derivation \<open>EVP_PBE_scrypt\<close> and the random generator belong to OpenSSL. The derivation is a
  parameter, a function of the password, the salt, the cost parameters, the memory limit and the length of
  the key; \<open>None\<close> is its failure. The salt that \<open>RAND_bytes\<close> produced is an argument of \<open>Hash\<close>.
\<close>

definition SCRYPT_N :: u64 where "SCRYPT_N = 131072"
definition SCRYPT_R :: u64 where "SCRYPT_R = 8"
definition SCRYPT_P :: u64 where "SCRYPT_P = 1"
definition SCRYPT_MAX_MEMORY :: u64 where "SCRYPT_MAX_MEMORY = 256 * 1024 * 1024"
definition SALT_BYTE_COUNT :: nat where "SALT_BYTE_COUNT = 16"
definition HASH_BYTE_COUNT :: nat where "HASH_BYTE_COUNT = 32"

record ScryptHashData =
  sh_n :: u64
  sh_r :: u64
  sh_p :: u64
  sh_salt :: "u8 list"
  sh_hash :: "u8 list"

type_synonym scrypt = "string \<Rightarrow> u8 list \<Rightarrow> u64 \<Rightarrow> u64 \<Rightarrow> u64 \<Rightarrow> u64 \<Rightarrow> nat \<Rightarrow> u8 list option"

definition EncodeHex :: "u8 list \<Rightarrow> string" where
  "EncodeHex bytes = concat (map hex_byte bytes)"

definition HexValue :: "char \<Rightarrow> int" where
  "HexValue c =
     (let code = (of_char c :: int) in
      if 48 \<le> code \<and> code \<le> 57 then code - 48
      else if 97 \<le> code \<and> code \<le> 102 then code - 97 + 10
      else - 1)"

fun decode_pairs :: "string \<Rightarrow> u8 list option" where
  "decode_pairs (h # l # rest) =
     (if HexValue h < 0 \<or> HexValue l < 0 then None
      else map_option (\<lambda>bytes. word_of_int (or (push_bit 4 (HexValue h)) (HexValue l)) # bytes) (decode_pairs rest))"
| "decode_pairs _ = Some []"

definition DecodeHex :: "nat \<Rightarrow> string \<Rightarrow> u8 list option" where
  "DecodeHex n encoded = (if length encoded \<noteq> n * 2 then None else decode_pairs encoded)"

text \<open>The loop of \<open>Split\<close>, on the text from \<open>start\<close>: \<open>find\<close> stops at the next delimiter or at the end.\<close>

function Split :: "string \<Rightarrow> string list" where
  "Split value =
     (case dropWhile (\<lambda>c. c \<noteq> CHR ''$'') value of
        [] \<Rightarrow> [value]
      | _ # rest \<Rightarrow> takeWhile (\<lambda>c. c \<noteq> CHR ''$'') value # Split rest)"
  by auto
termination
  by (relation "measure length") (auto, metis dropWhile_eq_drop drop_eq_Nil length_Cons length_drop less_diff_conv linorder_not_less
      nat_add_left_cancel_less le_add2 order_le_less_trans diff_le_self Suc_le_eq)

declare Split.simps [simp del]

definition ParseUint64 :: "string \<Rightarrow> u64 option" where
  "ParseUint64 text =
     (if text = [] then None
      else case from_chars_u64 text of
        None \<Rightarrow> None
      | Some (value, rest) \<Rightarrow> if rest = [] then Some value else None)"

definition HasSafeScryptParameters :: "ScryptHashData \<Rightarrow> bool" where
  "HasSafeScryptParameters d =
     (if sh_n d < push_bit 14 1 \<or> push_bit 20 1 < sh_n d \<or> and (sh_n d) (sh_n d - 1) \<noteq> 0 \<or>
         sh_r d = 0 \<or> 32 < sh_r d \<or> sh_p d = 0 \<or> 16 < sh_p d
      then False
      else if (- 1) div 128 div sh_r d < sh_n d then False
      else 128 * sh_n d * sh_r d \<le> SCRYPT_MAX_MEMORY)"

definition ParseEncodedHash :: "string \<Rightarrow> ScryptHashData option" where
  "ParseEncodedHash encodedPasswordHash =
     (if \<not> IsValidEncodedPasswordHash encodedPasswordHash then None
      else let parts = Split encodedPasswordHash in
        if length parts \<noteq> 6 \<or> parts ! 0 \<noteq> ''scrypt'' then None
        else case ParseUint64 (parts ! 1) of
          None \<Rightarrow> None
        | Some n \<Rightarrow>
            (case ParseUint64 (parts ! 2) of
               None \<Rightarrow> None
             | Some r \<Rightarrow>
                 (case ParseUint64 (parts ! 3) of
                    None \<Rightarrow> None
                  | Some p \<Rightarrow>
                      if \<not> HasSafeScryptParameters \<lparr>sh_n = n, sh_r = r, sh_p = p, sh_salt = [], sh_hash = []\<rparr> then None
                      else (case DecodeHex SALT_BYTE_COUNT (parts ! 4) of
                              None \<Rightarrow> None
                            | Some salt \<Rightarrow>
                                (case DecodeHex HASH_BYTE_COUNT (parts ! 5) of
                                   None \<Rightarrow> None
                                 | Some hash \<Rightarrow> Some \<lparr>sh_n = n, sh_r = r, sh_p = p, sh_salt = salt, sh_hash = hash\<rparr>)))))"

definition DeriveScryptHash :: "scrypt \<Rightarrow> string \<Rightarrow> ScryptHashData \<Rightarrow> u8 list option" where
  "DeriveScryptHash EVP_PBE_scrypt password d =
     EVP_PBE_scrypt password (sh_salt d) (sh_n d) (sh_r d) (sh_p d) SCRYPT_MAX_MEMORY HASH_BYTE_COUNT"

definition EncodeHash :: "ScryptHashData \<Rightarrow> string" where
  "EncodeHash d =
     ''scrypt$'' @ to_string (unat (sh_n d)) @ ''$'' @ to_string (unat (sh_r d)) @ ''$'' @ to_string (unat (sh_p d)) @ ''$'' @
     EncodeHex (sh_salt d) @ ''$'' @ EncodeHex (sh_hash d)"

datatype hash_error = SaltGenerationFailed | ScryptFailed

text \<open>\<open>IsValidPassword\<close> of this file is \<open>IsValidPasswordInput\<close> of the authentication service, word for word.\<close>

definition Hash :: "scrypt \<Rightarrow> u8 list option \<Rightarrow> string \<Rightarrow> hash_error + string option" where
  "Hash EVP_PBE_scrypt randomBytes password =
     (if \<not> IsValidPasswordInput password then Inr None
      else case randomBytes of
        None \<Rightarrow> Inl SaltGenerationFailed
      | Some salt \<Rightarrow>
          let d = \<lparr>sh_n = SCRYPT_N, sh_r = SCRYPT_R, sh_p = SCRYPT_P, sh_salt = salt, sh_hash = []\<rparr> in
          (case DeriveScryptHash EVP_PBE_scrypt password d of
             None \<Rightarrow> Inl ScryptFailed
           | Some hash \<Rightarrow> Inr (Some (EncodeHash (d\<lparr>sh_hash := hash\<rparr>)))))"

definition Verify :: "scrypt \<Rightarrow> string \<Rightarrow> string \<Rightarrow> bool" where
  "Verify EVP_PBE_scrypt password encodedPasswordHash =
     (if \<not> IsValidPasswordInput password then False
      else case ParseEncodedHash encodedPasswordHash of
        None \<Rightarrow> False
      | Some parsed \<Rightarrow>
          (case DeriveScryptHash EVP_PBE_scrypt password parsed of
             None \<Rightarrow> False
           | Some derivedHash \<Rightarrow> derivedHash = sh_hash parsed))"

section \<open>The text format\<close>

lemma Split_append: "CHR ''$'' \<notin> set part \<Longrightarrow> Split (part @ CHR ''$'' # rest) = part # Split rest"
  by (subst Split.simps) (simp add: takeWhile_append dropWhile_append)

lemma Split_last: "CHR ''$'' \<notin> set part \<Longrightarrow> Split part = [part]"
proof -
  assume "CHR ''$'' \<notin> set part"
  then have "dropWhile (\<lambda>c. c \<noteq> CHR ''$'') part = []" by (auto simp: dropWhile_eq_Nil_conv)
  then show ?thesis by (subst Split.simps) (simp only: list.case)
qed

lemma to_string_no_delimiter: "CHR ''$'' \<notin> set (to_string n)"
  using to_string_digits [of n] by (auto simp: is_digit_def)

lemma HexValue_digit: "i < 16 \<Longrightarrow> HexValue (HEX_DIGITS ! i) = int i"
proof -
  have "\<forall>i \<in> set [0..<16]. HexValue (HEX_DIGITS ! i) = int i" by code_simp
  then show "i < 16 \<Longrightarrow> ?thesis" by simp
qed

lemma hex_nibbles_join: "word_of_int (or (push_bit 4 (uint (drop_bit 4 b))) (uint (and b 0x0F))) = (b :: u8)"
proof -
  have "and b 0x0F = take_bit 4 b" by (simp add: take_bit_eq_mask mask_numeral)
  then show ?thesis by (auto intro!: bit_word_eqI simp: bit_simps)
qed

lemma decode_pairs_EncodeHex: "decode_pairs (EncodeHex bytes) = Some bytes"
proof (induction bytes)
  case (Cons b bytes)
  then show ?case
    using byte_nibbles(1,2) [of b] by (simp add: EncodeHex_def hex_byte_def HexValue_digit hex_nibbles_join)
qed (simp add: EncodeHex_def)

lemma EncodeHex_length [simp]: "length (EncodeHex bytes) = 2 * length bytes"
  by (induction bytes) (simp_all add: EncodeHex_def)

lemma HEX_length: "length HEX_DIGITS = 16"
  by (simp add: HEX_DIGITS_def)

lemma EncodeHex_no_delimiter: "CHR ''$'' \<notin> set (EncodeHex bytes)"
proof -
  have "set (hex_byte b) \<subseteq> set HEX_DIGITS" for b
    using byte_nibbles(1,2) [of b] by (simp add: hex_byte_def HEX_length)
  moreover have "CHR ''$'' \<notin> set HEX_DIGITS" by (simp add: HEX_DIGITS_def)
  ultimately show ?thesis by (auto simp: EncodeHex_def)
qed

lemma Split_EncodeHash:
  "Split (EncodeHash d) = [''scrypt'', to_string (unat (sh_n d)), to_string (unat (sh_r d)), to_string (unat (sh_p d)),
     EncodeHex (sh_salt d), EncodeHex (sh_hash d)]"
  using Split_append [of "''scrypt''"]
  by (simp add: EncodeHash_def Split_append Split_last to_string_no_delimiter EncodeHex_no_delimiter)

lemma ParseUint64_to_string [simp]: "ParseUint64 (to_string (unat w)) = Some w"
  by (simp add: ParseUint64_def from_chars_to_string)

lemma unat_length: "length (to_string (unat (w :: u64))) \<le> 20"
  using unsigned_less [of w, where ?'a = nat] by (intro to_string_length) simp_all

text \<open>What is printed is read back, whatever the parameters are as long as they are safe.\<close>

lemma ParseEncodedHash_EncodeHash:
  assumes "HasSafeScryptParameters d" "length (sh_salt d) = SALT_BYTE_COUNT" "length (sh_hash d) = HASH_BYTE_COUNT"
  shows "ParseEncodedHash (EncodeHash d) = Some d"
proof -
  have "length (EncodeHash d) \<le> 256"
    using assms(2,3) unat_length [of "sh_n d"] unat_length [of "sh_r d"] unat_length [of "sh_p d"]
    by (simp add: EncodeHash_def SALT_BYTE_COUNT_def HASH_BYTE_COUNT_def)
  then have "IsValidEncodedPasswordHash (EncodeHash d)"
    by (simp add: IsValidEncodedPasswordHash_def MAX_ENCODED_PASSWORD_HASH_LENGTH_def) (simp add: EncodeHash_def)
  moreover have "HasSafeScryptParameters \<lparr>sh_n = sh_n d, sh_r = sh_r d, sh_p = sh_p d, sh_salt = [], sh_hash = []\<rparr>"
    using assms(1) unfolding HasSafeScryptParameters_def by (simp only: ScryptHashData.select_convs)
  ultimately show ?thesis
    using assms(2,3) by (simp add: ParseEncodedHash_def Split_EncodeHash DecodeHex_def decode_pairs_EncodeHex)
qed

section \<open>The limits on the parameters\<close>

text \<open>The tests say what they mean: nothing wraps around, and 128 n r is within the memory limit.\<close>

lemma HasSafeScryptParameters_iff:
  "HasSafeScryptParameters d \<longleftrightarrow>
     2 ^ 14 \<le> unat (sh_n d) \<and> unat (sh_n d) \<le> 2 ^ 20 \<and> and (sh_n d) (sh_n d - 1) = 0 \<and>
     0 < unat (sh_r d) \<and> unat (sh_r d) \<le> 32 \<and> 0 < unat (sh_p d) \<and> unat (sh_p d) \<le> 16 \<and>
     128 * unat (sh_n d) * unat (sh_r d) \<le> 2 ^ 28"
proof (cases "unat (sh_n d) \<le> 2 ^ 20 \<and> 0 < unat (sh_r d) \<and> unat (sh_r d) \<le> 32")
  case True
  have "128 * unat (sh_n d) * unat (sh_r d) \<le> 128 * 2 ^ 20 * 32" using True by (intro mult_le_mono) auto
  then have small: "128 * unat (sh_n d) * unat (sh_r d) < 2 ^ 64" by simp
  then have product: "unat (128 * sh_n d * sh_r d) = 128 * unat (sh_n d) * unat (sh_r d)"
    by (simp add: unat_word_ariths mod_mult_left_eq)
  have "2 ^ 20 * unat (sh_r d) \<le> 2 ^ 20 * 32" using True by (intro mult_le_mono) auto
  then have "unat (sh_n d) \<le> (2 ^ 64 - 1) div 128 div unat (sh_r d)"
    using True by (intro order.trans [OF conjunct1 [OF True]]) (simp add: less_eq_div_iff_mult_less_eq)
  then have "\<not> (- 1) div 128 div sh_r d < sh_n d" by (simp add: word_less_nat_alt unat_div)
  with True product show ?thesis
    by (auto simp: HasSafeScryptParameters_def SCRYPT_MAX_MEMORY_def word_less_nat_alt word_le_nat_alt unat_eq_0 [symmetric]
        simp del: unat_eq_0)
next
  case False
  then show ?thesis
    by (auto simp: HasSafeScryptParameters_def word_less_nat_alt unat_eq_0 [symmetric] simp del: unat_eq_0)
qed

section \<open>Hashing and verification\<close>

text \<open>What the code relies on of the key derivation: a key has the length that was asked for.\<close>

definition derives_full_keys :: "scrypt \<Rightarrow> bool" where
  "derives_full_keys EVP_PBE_scrypt \<longleftrightarrow>
     (\<forall>password salt n r p m k key. EVP_PBE_scrypt password salt n r p m k = Some key \<longrightarrow> length key = k)"

lemma default_parameters_safe: "HasSafeScryptParameters (d\<lparr>sh_n := SCRYPT_N, sh_r := SCRYPT_R, sh_p := SCRYPT_P\<rparr>)"
proof -
  have "and SCRYPT_N (SCRYPT_N - 1) = 0" by (simp add: SCRYPT_N_def)
  then show ?thesis by (simp add: HasSafeScryptParameters_iff) (simp add: SCRYPT_N_def SCRYPT_R_def SCRYPT_P_def)
qed

definition default_key :: "scrypt \<Rightarrow> u8 list \<Rightarrow> string \<Rightarrow> u8 list option" where
  "default_key EVP_PBE_scrypt salt password =
     EVP_PBE_scrypt password salt SCRYPT_N SCRYPT_R SCRYPT_P SCRYPT_MAX_MEMORY HASH_BYTE_COUNT"

lemma Verify_Hash:
  assumes "derives_full_keys EVP_PBE_scrypt" "length salt = SALT_BYTE_COUNT"
    and "Hash EVP_PBE_scrypt (Some salt) password = Inr (Some encoded)"
  shows "Verify EVP_PBE_scrypt attempt encoded \<longleftrightarrow>
    IsValidPasswordInput attempt \<and> default_key EVP_PBE_scrypt salt attempt = default_key EVP_PBE_scrypt salt password"
proof -
  let ?d = "\<lparr>sh_n = SCRYPT_N, sh_r = SCRYPT_R, sh_p = SCRYPT_P, sh_salt = salt, sh_hash = []\<rparr>"
  from assms(3) obtain key where key: "default_key EVP_PBE_scrypt salt password = Some key" "encoded = EncodeHash (?d\<lparr>sh_hash := key\<rparr>)"
    by (auto simp: Hash_def Let_def DeriveScryptHash_def default_key_def split: if_splits option.splits)
  have "length key = HASH_BYTE_COUNT" using assms(1) key(1) by (auto simp: derives_full_keys_def default_key_def)
  moreover have "HasSafeScryptParameters (?d\<lparr>sh_hash := key\<rparr>)"
    using default_parameters_safe [of "?d\<lparr>sh_hash := key\<rparr>"] by simp
  ultimately have "ParseEncodedHash encoded = Some (?d\<lparr>sh_hash := key\<rparr>)"
    unfolding key(2) using assms(2) by (intro ParseEncodedHash_EncodeHash) simp_all
  then show ?thesis
    using key(1) by (auto simp: Verify_def DeriveScryptHash_def default_key_def split: option.splits)
qed

text \<open>C17. An account whose password was hashed by this hasher is authenticated by a password if and only if scrypt
  derives the same key from it with the stored salt; the password itself is always accepted, and every other
  outcome is a refusal without an account.\<close>

theorem stored_password_authenticates:
  assumes "derives_full_keys EVP_PBE_scrypt" "length salt = SALT_BYTE_COUNT"
    and "Hash EVP_PBE_scrypt (Some salt) password = Inr (Some (acc_encodedPasswordHash account))"
    and "ab_FindAccountByLoginId be loginId = Inr (Some account)" "ab_Verify be = (\<lambda>p h. Inr (Verify EVP_PBE_scrypt p h))"
  shows "authentication_work be dummyHash loginId attempt =
    (if attempt = password \<or>
        IsValidPasswordInput attempt \<and> default_key EVP_PBE_scrypt salt attempt = default_key EVP_PBE_scrypt salt password
     then \<lparr>aar_status = AA_Success, aar_accountId = Some (acc_accountId account)\<rparr>
     else \<lparr>aar_status = AA_InvalidCredentials, aar_accountId = None\<rparr>)"
proof -
  have "IsValidPasswordInput password" using assms(3) by (auto simp: Hash_def split: if_splits)
  then show ?thesis
    using Verify_Hash [OF assms(1-3), of attempt] by (auto simp: authentication_work_def assms(4,5))
qed

definition toy_scrypt :: scrypt where
  "toy_scrypt password salt n r p m k = Some (take k (map of_char password @ salt @ replicate k 0))"

definition toy_account :: Account where
  "toy_account = \<lparr>acc_accountId = 4, acc_loginId = ''anna'',
     acc_encodedPasswordHash = EncodeHash \<lparr>sh_n = SCRYPT_N, sh_r = SCRYPT_R, sh_p = SCRYPT_P, sh_salt = replicate 16 7,
       sh_hash = the (default_key toy_scrypt (replicate 16 7) ''secret'')\<rparr>\<rparr>"

definition toy_backend :: AuthBackend where
  "toy_backend = \<lparr>ab_FindAccountByLoginId = (\<lambda>l. Inr (if l = ''anna'' then Some toy_account else None)), ab_FindAccount = (\<lambda>_. Inr None),
     ab_FindPlayerIds = (\<lambda>_. Inr []), ab_OwnsPlayer = (\<lambda>_ _. Inr False), ab_FindPlayer = (\<lambda>_. Inr None),
     ab_Verify = (\<lambda>p h. Inr (Verify toy_scrypt p h))\<rparr>"

theorem stored_password_authenticates_witness:
  "aar_status (authentication_work toy_backend [] ''anna'' ''secret'') = AA_Success \<and>
   aar_status (authentication_work toy_backend [] ''anna'' ''guess'') = AA_InvalidCredentials"
proof -
  have "derives_full_keys toy_scrypt" by (auto simp: derives_full_keys_def toy_scrypt_def)
  moreover have "Hash toy_scrypt (Some (replicate 16 7)) ''secret'' = Inr (Some (acc_encodedPasswordHash toy_account))"
    by (simp add: Hash_def toy_account_def IsValidPasswordInput_def MAX_PASSWORD_LENGTH_def DeriveScryptHash_def default_key_def
        toy_scrypt_def Let_def)
  ultimately have auth: "authentication_work toy_backend [] ''anna'' attempt =
    (if attempt = ''secret'' \<or>
        IsValidPasswordInput attempt \<and> default_key toy_scrypt (replicate 16 7) attempt = default_key toy_scrypt (replicate 16 7) ''secret''
     then \<lparr>aar_status = AA_Success, aar_accountId = Some (acc_accountId toy_account)\<rparr>
     else \<lparr>aar_status = AA_InvalidCredentials, aar_accountId = None\<rparr>)" for attempt
    by (intro stored_password_authenticates) (simp_all add: SALT_BYTE_COUNT_def toy_backend_def)
  have "default_key toy_scrypt (replicate 16 7) ''guess'' \<noteq> default_key toy_scrypt (replicate 16 7) ''secret''" by code_simp
  then show ?thesis by (simp add: auth)
qed

text \<open>Whatever text is stored as a hash, verifying against it asks the key derivation for at most 256 MiB of
  memory, 16 lanes and a 32-byte key from a 16-byte salt; any other text is refused before the derivation.\<close>

lemma verification_cost_bounded:
  assumes "ParseEncodedHash encoded = Some d"
  shows "128 * unat (sh_n d) * unat (sh_r d) \<le> 2 ^ 28 \<and> 2 ^ 14 \<le> unat (sh_n d) \<and> 0 < unat (sh_r d) \<and>
    0 < unat (sh_p d) \<and> unat (sh_p d) \<le> 16 \<and> length (sh_salt d) = SALT_BYTE_COUNT \<and> length (sh_hash d) = HASH_BYTE_COUNT"
proof -
  have pairs: "decode_pairs t = Some bs \<Longrightarrow> length t = 2 * n \<Longrightarrow> length bs = n" for t bs n
    by (induction t arbitrary: bs n rule: decode_pairs.induct) (auto split: if_splits, (case_tac n; auto)+)
  from assms have d: "HasSafeScryptParameters \<lparr>sh_n = sh_n d, sh_r = sh_r d, sh_p = sh_p d, sh_salt = [], sh_hash = []\<rparr>"
      "DecodeHex SALT_BYTE_COUNT (Split encoded ! 4) = Some (sh_salt d)"
      "DecodeHex HASH_BYTE_COUNT (Split encoded ! 5) = Some (sh_hash d)"
    by (auto simp: ParseEncodedHash_def Let_def split: if_splits option.splits)
  then show ?thesis
    by (auto simp: HasSafeScryptParameters_iff DecodeHex_def mult.commute intro: pairs split: if_splits)
qed

end
