(* ===== verification/Store_Properties.thy ===== *)
theory Store_Properties
  imports Mysql_Store Password_Hash
begin












end
