(* ===== verification/Sqlite_Schema.thy ===== *)
theory Sqlite_Schema
  imports Prelude
begin

text \<open>
  Opening the SQLite database and bringing its schema up to date (\<open>src/src/SqliteDatabase.cpp\<close>).

  The engine is an argument again: \<open>schema_sql\<close> has the calls of the library that the file uses, and \<open>s_exec\<close>
  takes the SQL texts of the source. The locale \<open>schema_engine\<close> states what the texts do to the version number
  of the file and to the tables and indexes that exist.
\<close>

section \<open>The constructor of the database\<close>

datatype schema_error = EmptyDatabasePath | OpenFailed | StatementFailed | NewerSchema

record 'db schema_sql =
  s_open :: "string \<Rightarrow> 'db \<Rightarrow> bool \<times> 'db"
  s_busy_timeout :: "'db \<Rightarrow> bool \<times> 'db"
  s_exec :: "string \<Rightarrow> 'db \<Rightarrow> bool \<times> 'db"
  s_user_version :: "'db \<Rightarrow> int option"
  s_close :: "'db \<Rightarrow> 'db"

definition SQLITE_DATABASE_SCHEMA_VERSION :: int where "SQLITE_DATABASE_SCHEMA_VERSION = 4"

definition FOREIGN_KEYS_ON :: string where "FOREIGN_KEYS_ON = ''PRAGMA foreign_keys = ON;''"
definition BEGIN_TEXT :: string where "BEGIN_TEXT = ''BEGIN IMMEDIATE TRANSACTION;''"
definition COMMIT_TEXT :: string where "COMMIT_TEXT = ''COMMIT;''"
definition ROLLBACK_TEXT :: string where "ROLLBACK_TEXT = ''ROLLBACK;''"

definition migration_1 :: string where
  "migration_1 =
     ''CREATE TABLE players ('' @
     ''player_id INTEGER PRIMARY KEY AUTOINCREMENT,'' @
     ''name TEXT NOT NULL UNIQUE '' @
       ''CHECK(length(name) BETWEEN 1 AND 16),'' @
     ''level INTEGER NOT NULL DEFAULT 1 CHECK(level >= 1),'' @
     ''skill_points INTEGER NOT NULL DEFAULT 0 '' @
       ''CHECK(skill_points >= 0)'' @
     '');'' @
     ''CREATE TABLE player_skills ('' @
     ''player_id INTEGER NOT NULL,'' @
     ''skill_id INTEGER NOT NULL CHECK(skill_id > 0),'' @
     ''skill_level INTEGER NOT NULL DEFAULT 1 '' @
       ''CHECK(skill_level >= 1),'' @
     ''PRIMARY KEY(player_id, skill_id),'' @
     ''FOREIGN KEY(player_id) REFERENCES players(player_id) '' @
       ''ON DELETE CASCADE'' @
     '');'' @
     ''PRAGMA user_version = 1;''"

definition migration_2 :: string where
  "migration_2 =
     ''CREATE TABLE auth_tickets ('' @
     ''ticket TEXT PRIMARY KEY '' @
       ''CHECK(length(ticket) BETWEEN 1 AND 256),'' @
     ''account_id INTEGER NOT NULL CHECK(account_id > 0),'' @
     ''player_id INTEGER NOT NULL CHECK(player_id > 0),'' @
     ''expires_at_unix INTEGER NOT NULL '' @
       ''CHECK(expires_at_unix > 0),'' @
     ''FOREIGN KEY(player_id) REFERENCES players(player_id) '' @
       ''ON DELETE CASCADE'' @
     '');'' @
     ''CREATE INDEX auth_tickets_expiry_index '' @
     ''ON auth_tickets(expires_at_unix);'' @
     ''PRAGMA user_version = 2;''"

definition migration_3 :: string where
  "migration_3 =
     ''CREATE TABLE accounts ('' @
     ''account_id INTEGER PRIMARY KEY AUTOINCREMENT,'' @
     ''login_id TEXT NOT NULL COLLATE NOCASE UNIQUE '' @
       ''CHECK(length(login_id) BETWEEN 4 AND 32),'' @
     ''password_hash TEXT NOT NULL '' @
       ''CHECK(length(password_hash) BETWEEN 1 AND 256)'' @
     '');'' @
     ''PRAGMA user_version = 3;''"

definition migration_4 :: string where
  "migration_4 =
     ''CREATE TABLE account_players ('' @
     ''account_id INTEGER NOT NULL,'' @
     ''player_id INTEGER NOT NULL UNIQUE,'' @
     ''PRIMARY KEY(account_id, player_id),'' @
     ''FOREIGN KEY(account_id) REFERENCES accounts(account_id) '' @
       ''ON DELETE CASCADE,'' @
     ''FOREIGN KEY(player_id) REFERENCES players(player_id) '' @
       ''ON DELETE CASCADE'' @
     '');'' @
     ''PRAGMA user_version = 4;''"

definition RunMigration :: "'db schema_sql \<Rightarrow> string \<Rightarrow> 'db \<Rightarrow> schema_error option \<times> 'db" where
  "RunMigration sql text db =
     (case s_exec sql BEGIN_TEXT db of
        (False, db) \<Rightarrow> (Some StatementFailed, db)
      | (True, db) \<Rightarrow>
          (case s_exec sql text db of
             (False, db) \<Rightarrow> (Some StatementFailed, snd (s_exec sql ROLLBACK_TEXT db))
           | (True, db) \<Rightarrow>
               (case s_exec sql COMMIT_TEXT db of
                  (False, db) \<Rightarrow> (Some StatementFailed, snd (s_exec sql ROLLBACK_TEXT db))
                | (True, db) \<Rightarrow> (None, db))))"

text \<open>\<open>if (schemaVersion < n) { RunMigration(...); schemaVersion = n; }\<close>, once nothing has thrown.\<close>

definition migrate :: "'db schema_sql \<Rightarrow> int \<Rightarrow> string \<Rightarrow> schema_error option \<times> int \<times> 'db \<Rightarrow> schema_error option \<times> int \<times> 'db" where
  "migrate sql n text s =
     (case s of
        (Some e, schemaVersion, db) \<Rightarrow> (Some e, schemaVersion, db)
      | (None, schemaVersion, db) \<Rightarrow>
          if schemaVersion < n
          then (case RunMigration sql text db of
                  (Some e, db) \<Rightarrow> (Some e, schemaVersion, db)
                | (None, db) \<Rightarrow> (None, n, db))
          else (None, schemaVersion, db))"

definition InitializeSchema :: "'db schema_sql \<Rightarrow> 'db \<Rightarrow> schema_error option \<times> 'db" where
  "InitializeSchema sql db =
     (case s_exec sql FOREIGN_KEYS_ON db of
        (False, db) \<Rightarrow> (Some StatementFailed, db)
      | (True, db) \<Rightarrow>
          (case s_user_version sql db of
             None \<Rightarrow> (Some StatementFailed, db)
           | Some schemaVersion \<Rightarrow>
               if SQLITE_DATABASE_SCHEMA_VERSION < schemaVersion then (Some NewerSchema, db)
               else case migrate sql 4 migration_4 (migrate sql 3 migration_3 (migrate sql 2 migration_2
                           (migrate sql 1 migration_1 (None, schemaVersion, db)))) of
                 (e, _, db) \<Rightarrow> (e, db)))"

definition open_database :: "'db schema_sql \<Rightarrow> string \<Rightarrow> 'db \<Rightarrow> schema_error option \<times> 'db" where
  "open_database sql databasePath db =
     (if databasePath = [] then (Some EmptyDatabasePath, db)
      else case s_open sql databasePath db of
        (False, db) \<Rightarrow> (Some OpenFailed, s_close sql db)
      | (True, db) \<Rightarrow>
          (case s_busy_timeout sql db of
             (False, db) \<Rightarrow> (Some OpenFailed, s_close sql db)
           | (True, db) \<Rightarrow>
               (case InitializeSchema sql db of
                  (Some e, db) \<Rightarrow> (Some e, s_close sql db)
                | (None, db) \<Rightarrow> (None, db))))"

section \<open>What the texts do\<close>

record schema =
  sc_version :: int
  sc_objects :: "string set"

definition migrations :: "(string \<times> string list) list" where
  "migrations = [(migration_1, [''players'', ''player_skills'']), (migration_2, [''auth_tickets'', ''auth_tickets_expiry_index'']),
     (migration_3, [''accounts'']), (migration_4, [''account_players''])]"

text \<open>The schema after the first \<open>n\<close> migrations of an empty file.\<close>

definition schema_at :: "nat \<Rightarrow> schema" where
  "schema_at n = \<lparr>sc_version = int n, sc_objects = set (concat (map snd (take n migrations)))\<rparr>"

lemma migrations_length [simp]: "length migrations = 4"
  by (simp add: migrations_def)

locale schema_engine =
  fixes sql :: "'db schema_sql"
    and schema :: "'db \<Rightarrow> schema"
    and saved :: "'db \<Rightarrow> schema"
  assumes open_schema: "s_open sql path db = (ok, db') \<Longrightarrow> schema db' = schema db"
    and busy_schema: "s_busy_timeout sql db = (ok, db') \<Longrightarrow> schema db' = schema db"
    and close_schema: "schema (s_close sql db) = schema db"
    and foreign_keys: "s_exec sql FOREIGN_KEYS_ON db = (ok, db') \<Longrightarrow> schema db' = schema db"
    and version: "s_user_version sql db = Some v \<Longrightarrow> v = sc_version (schema db)"
    and begin_schema: "s_exec sql BEGIN_TEXT db = (ok, db') \<Longrightarrow> schema db' = schema db \<and> (ok \<longrightarrow> saved db' = schema db)"
    and commit_done: "s_exec sql COMMIT_TEXT db = (True, db') \<Longrightarrow> schema db' = schema db"
    and commit_failed: "s_exec sql COMMIT_TEXT db = (False, db') \<Longrightarrow> saved db' = saved db"
    and rollback_schema: "s_exec sql ROLLBACK_TEXT db = (ok, db') \<Longrightarrow> schema db' = saved db"
    and migration: "n < 4 \<Longrightarrow> s_exec sql (fst (migrations ! n)) db = (ok, db') \<Longrightarrow> saved db' = saved db \<and>
      (ok \<longrightarrow> schema db' = \<lparr>sc_version = int (Suc n), sc_objects = sc_objects (schema db) \<union> set (snd (migrations ! n))\<rparr>)"
begin

lemma run_migration_schema:
  assumes "RunMigration sql (fst (migrations ! n)) db = (e, db')" "n < 4" "schema db = schema_at n"
  shows "schema db' = schema_at (if e = None then Suc n else n)"
proof -
  let ?t = "fst (migrations ! n)"
  obtain b db1 where b: "s_exec sql BEGIN_TEXT db = (b, db1)" by fastforce
  obtain m db2 where m: "s_exec sql ?t db1 = (m, db2)" by fastforce
  obtain c db3 where c: "s_exec sql COMMIT_TEXT db2 = (c, db3)" by fastforce
  have undo: "schema (snd (s_exec sql ROLLBACK_TEXT db)) = saved db" for db by (metis rollback_schema prod.collapse)
  have next_schema: "schema_at (Suc n) = \<lparr>sc_version = int (Suc n), sc_objects = sc_objects (schema_at n) \<union> set (snd (migrations ! n))\<rparr>"
    using assms(2) by (simp add: schema_at_def take_Suc_conv_app_nth)
  show ?thesis
    using assms b m c undo begin_schema [OF b] migration [OF assms(2) m] commit_done [of db2 db3] commit_failed [of db2 db3] next_schema
    by (auto simp: RunMigration_def split: if_splits bool.splits)
qed

lemma migrate_schema:
  assumes "migrate sql (int (Suc n)) (fst (migrations ! n)) (e, int v, db) = (e', w, db')" "n < 4" "schema db = schema_at v"
    "e = None \<Longrightarrow> n \<le> v" "v \<le> 4"
  shows "\<exists>v'. w = int v' \<and> schema db' = schema_at v' \<and> v \<le> v' \<and> v' \<le> 4 \<and> (e' = None \<longrightarrow> e = None \<and> Suc n \<le> v')"
proof (cases "e = None \<and> v = n")
  case True
  obtain e1 db1 where r: "RunMigration sql (fst (migrations ! n)) db = (e1, db1)" by fastforce
  show ?thesis
    using assms True r run_migration_schema [OF r assms(2)] by (auto simp: migrate_def split: option.splits intro!: exI [of _ "if e1 = None then Suc n else n"])
next
  case False
  with assms show ?thesis by (auto simp: migrate_def split: option.splits if_splits intro!: exI [of _ v])
qed

lemma initialize_schema:
  assumes "InitializeSchema sql db = (e, db')" "schema db = schema_at v" "v \<le> 4"
  shows "\<exists>v'. schema db' = schema_at v' \<and> v \<le> v' \<and> v' \<le> 4 \<and> (e = None \<longrightarrow> v' = 4)"
proof -
  obtain ok db1 where f: "s_exec sql FOREIGN_KEYS_ON db = (ok, db1)" by fastforce
  note db1 = foreign_keys [OF f]
  show ?thesis
  proof (cases "ok \<and> s_user_version sql db1 \<noteq> None")
    case True
    then have ver: "s_user_version sql db1 = Some (int v)"
      using version [of db1] db1 assms(2) by (auto simp: schema_at_def)
    obtain e1 w1 d1 where m1: "migrate sql 1 migration_1 (None, int v, db1) = (e1, w1, d1)" by (metis prod.exhaust)
    from migrate_schema [of 0 None v db1 e1 w1 d1] m1 assms(2,3) db1 obtain v1 where
      v1: "w1 = int v1" "schema d1 = schema_at v1" "v \<le> v1" "v1 \<le> 4" "e1 = None \<Longrightarrow> 1 \<le> v1"
      by (auto simp: migrations_def)
    obtain e2 w2 d2 where m2: "migrate sql 2 migration_2 (e1, int v1, d1) = (e2, w2, d2)" by (metis prod.exhaust)
    from migrate_schema [of 1 e1 v1 d1 e2 w2 d2] m2 v1 obtain v2 where
      v2: "w2 = int v2" "schema d2 = schema_at v2" "v1 \<le> v2" "v2 \<le> 4" "e2 = None \<Longrightarrow> e1 = None \<and> 2 \<le> v2"
      by (auto simp: migrations_def)
    obtain e3 w3 d3 where m3: "migrate sql 3 migration_3 (e2, int v2, d2) = (e3, w3, d3)" by (metis prod.exhaust)
    from migrate_schema [of 2 e2 v2 d2 e3 w3 d3] m3 v2 obtain v3 where
      v3: "w3 = int v3" "schema d3 = schema_at v3" "v2 \<le> v3" "v3 \<le> 4" "e3 = None \<Longrightarrow> e2 = None \<and> 3 \<le> v3"
      by (auto simp: migrations_def)
    obtain e4 w4 d4 where m4: "migrate sql 4 migration_4 (e3, int v3, d3) = (e4, w4, d4)" by (metis prod.exhaust)
    from migrate_schema [of 3 e3 v3 d3 e4 w4 d4] m4 v3 obtain v4 where
      v4: "schema d4 = schema_at v4" "v3 \<le> v4" "v4 \<le> 4" "e4 = None \<Longrightarrow> 4 \<le> v4"
      by (auto simp: migrations_def)
    have "e = e4 \<and> db' = d4"
      using assms(1,3) f True ver m1 m2 m3 m4 v1(1) v2(1) v3(1)
      by (simp add: InitializeSchema_def SQLITE_DATABASE_SCHEMA_VERSION_def)
    then show ?thesis using v1 v2 v3 v4 by (intro exI [of _ v4]) auto
  next
    case False
    then show ?thesis
      using assms f db1 by (auto simp: InitializeSchema_def split: bool.splits intro!: exI [of _ v])
  qed
qed

lemma open_database_schema:
  assumes "open_database sql path db = (e, db')" "schema db = schema_at v" "v \<le> 4"
  shows "\<exists>v'. schema db' = schema_at v' \<and> v \<le> v' \<and> v' \<le> 4 \<and> (e = None \<longrightarrow> v' = 4)"
proof -
  obtain opened db1 where opened: "s_open sql path db = (opened, db1)" by fastforce
  obtain b db2 where b: "s_busy_timeout sql db1 = (b, db2)" by fastforce
  obtain i db3 where i: "InitializeSchema sql db2 = (i, db3)" by fastforce
  have "schema db2 = schema_at v" "schema db1 = schema_at v" using open_schema [OF opened] busy_schema [OF b] assms(2) by simp_all
  with initialize_schema [OF i _ assms(3)] assms opened b i show ?thesis
    by (cases "path = []"; cases opened; cases b; cases i) (auto simp: open_database_def close_schema)
qed

text \<open>A file of a newer server is refused and left alone.\<close>

lemma newer_schema:
  assumes "open_database sql path db = (e, db')" "4 < sc_version (schema db)"
  shows "e \<noteq> None \<and> schema db' = schema db"
proof -
  obtain opened db1 where opened: "s_open sql path db = (opened, db1)" by fastforce
  obtain b db2 where b: "s_busy_timeout sql db1 = (b, db2)" by fastforce
  obtain f db3 where f: "s_exec sql FOREIGN_KEYS_ON db2 = (f, db3)" by fastforce
  have same: "schema db1 = schema db" "schema db2 = schema db" "schema db3 = schema db"
    using open_schema [OF opened] busy_schema [OF b] foreign_keys [OF f] by simp_all
  with version [of db3] assms opened b f show ?thesis
    by (cases "path = []"; cases opened; cases b; cases f; cases "s_user_version sql db3")
      (auto simp: open_database_def InitializeSchema_def SQLITE_DATABASE_SCHEMA_VERSION_def close_schema)
qed

end

section \<open>An engine in memory\<close>

text \<open>The version and the objects, a copy for the rollback, and the texts that fail.\<close>

record schema_db =
  f_version :: int
  f_objects :: "string list"
  f_saved :: "int \<times> string list"
  f_failing :: "string list"

definition run_text :: "string \<Rightarrow> schema_db \<Rightarrow> schema_db" where
  "run_text text db =
     (if text = BEGIN_TEXT then db\<lparr>f_saved := (f_version db, f_objects db)\<rparr>
      else if text = ROLLBACK_TEXT then db\<lparr>f_version := fst (f_saved db), f_objects := snd (f_saved db)\<rparr>
      else if text = migration_1 then db\<lparr>f_version := 1, f_objects := f_objects db @ snd (migrations ! 0)\<rparr>
      else if text = migration_2 then db\<lparr>f_version := 2, f_objects := f_objects db @ snd (migrations ! 1)\<rparr>
      else if text = migration_3 then db\<lparr>f_version := 3, f_objects := f_objects db @ snd (migrations ! 2)\<rparr>
      else if text = migration_4 then db\<lparr>f_version := 4, f_objects := f_objects db @ snd (migrations ! 3)\<rparr>
      else db)"

definition memory_schema_sql :: "schema_db schema_sql" where
  "memory_schema_sql = \<lparr>
     s_open = \<lambda>path db. (path \<noteq> ''/'', db),
     s_busy_timeout = \<lambda>db. (True, db),
     s_exec = \<lambda>text db. if text \<in> set (f_failing db) \<and> text \<noteq> ROLLBACK_TEXT then (False, db) else (True, run_text text db),
     s_user_version = \<lambda>db. Some (f_version db),
     s_close = \<lambda>db. db\<rparr>"

definition memory_schema :: "schema_db \<Rightarrow> schema" where
  "memory_schema db = \<lparr>sc_version = f_version db, sc_objects = set (f_objects db)\<rparr>"

definition memory_saved_schema :: "schema_db \<Rightarrow> schema" where
  "memory_saved_schema db = \<lparr>sc_version = fst (f_saved db), sc_objects = set (snd (f_saved db))\<rparr>"

lemmas schema_texts = FOREIGN_KEYS_ON_def BEGIN_TEXT_def COMMIT_TEXT_def ROLLBACK_TEXT_def
  migration_1_def migration_2_def migration_3_def migration_4_def

lemma distinct_texts [simp]:
  "distinct [FOREIGN_KEYS_ON, BEGIN_TEXT, COMMIT_TEXT, ROLLBACK_TEXT, migration_1, migration_2, migration_3, migration_4]"
proof -
  have "distinct (map (take 21) [FOREIGN_KEYS_ON, BEGIN_TEXT, COMMIT_TEXT, ROLLBACK_TEXT, migration_1, migration_2, migration_3, migration_4])"
    by (simp add: schema_texts)
  then show ?thesis using distinct_map by blast
qed

lemma run_text_simps:
  "run_text FOREIGN_KEYS_ON db = db" "run_text COMMIT_TEXT db = db"
  "run_text BEGIN_TEXT db = db\<lparr>f_saved := (f_version db, f_objects db)\<rparr>"
  "run_text ROLLBACK_TEXT db = db\<lparr>f_version := fst (f_saved db), f_objects := snd (f_saved db)\<rparr>"
  using distinct_texts by (auto simp: run_text_def simp del: distinct_texts)

lemma texts_differ [simp]:
  "migration_1 \<noteq> BEGIN_TEXT" "migration_1 \<noteq> ROLLBACK_TEXT" "migration_2 \<noteq> BEGIN_TEXT" "migration_2 \<noteq> ROLLBACK_TEXT"
  "migration_3 \<noteq> BEGIN_TEXT" "migration_3 \<noteq> ROLLBACK_TEXT" "migration_4 \<noteq> BEGIN_TEXT" "migration_4 \<noteq> ROLLBACK_TEXT"
  "migration_2 \<noteq> migration_1" "migration_3 \<noteq> migration_1" "migration_3 \<noteq> migration_2" "migration_4 \<noteq> migration_1"
  "migration_4 \<noteq> migration_2" "migration_4 \<noteq> migration_3"
  using distinct_texts by (auto simp del: distinct_texts)

lemma run_text_migration:
  "n < 4 \<Longrightarrow> run_text (fst (migrations ! n)) db = db\<lparr>f_version := int (Suc n), f_objects := f_objects db @ snd (migrations ! n)\<rparr>"
proof -
  assume "n < 4"
  then consider "n = 0" | "n = 1" | "n = 2" | "n = 3" by linarith
  then show ?thesis by cases (simp_all add: run_text_def migrations_def)
qed

interpretation memory_schema: schema_engine memory_schema_sql memory_schema memory_saved_schema
proof unfold_locales
  fix n db ok and db' :: schema_db
  assume "n < 4" "s_exec memory_schema_sql (fst (migrations ! n)) db = (ok, db')"
  then show "memory_saved_schema db' = memory_saved_schema db \<and> (ok \<longrightarrow> memory_schema db' =
      \<lparr>sc_version = int (Suc n), sc_objects = sc_objects (memory_schema db) \<union> set (snd (migrations ! n))\<rparr>)"
    by (auto simp: memory_schema_sql_def memory_schema_def memory_saved_schema_def run_text_migration split: if_splits)
qed (auto simp: memory_schema_sql_def memory_schema_def memory_saved_schema_def run_text_simps split: if_splits)

text \<open>C19. Opening the database never leaves a half-migrated schema. From the schema of any version the server knows, a
  success ends with all tables of version 4; an exception leaves the schema of some version between the old one and
  4, with exactly the tables and indexes of that version, so that the next start goes on from there.\<close>

theorem schema_never_half_migrated:
  assumes "schema_engine sql schema saved" "schema db = schema_at v" "v \<le> 4" "open_database sql path db = (e, db')"
  shows "\<exists>v'. schema db' = schema_at v' \<and> v \<le> v' \<and> v' \<le> 4 \<and> (e = None \<longrightarrow> v' = 4)"
  by (rule schema_engine.open_database_schema [OF assms(1,4,2,3)])

definition old_file :: "string list \<Rightarrow> schema_db" where
  "old_file failing = \<lparr>f_version = 1, f_objects = [''players'', ''player_skills''], f_saved = (0, []), f_failing = failing\<rparr>"

theorem schema_never_half_migrated_witness:
  "memory_schema (snd (open_database memory_schema_sql ''game.db'' (old_file []))) = schema_at 4 \<and>
   (\<exists>v'. memory_schema (snd (open_database memory_schema_sql ''game.db'' (old_file [migration_3]))) = schema_at v' \<and> 1 \<le> v' \<and> v' \<le> 4)"
proof -
  have old: "memory_schema (old_file failing) = schema_at 1" for failing
    by (simp add: memory_schema_def old_file_def schema_at_def migrations_def)
  have ok: "fst (open_database memory_schema_sql ''game.db'' (old_file [])) = None" by code_simp
  show ?thesis
    using schema_never_half_migrated [OF memory_schema.schema_engine_axioms old, of "''game.db''" "[]"]
      schema_never_half_migrated [OF memory_schema.schema_engine_axioms old, of "''game.db''" "[migration_3]"] ok
    by (metis one_le_numeral prod.collapse)
qed

end
