(* ===== verification/Server_Lifecycle.thy ===== *)
theory Server_Lifecycle
  imports Server_Runs
begin

text \<open>
  How the servers start and stop: the listening sockets of \<open>src/src/TcpServer.cpp\<close> and \<open>src/src/AuthTlsServer.cpp\<close>,
  and the life of \<open>src/src/ServerApplication.cpp\<close>.

  The operating system is an argument of \<open>Start\<close>: what opening, binding and listening led to. Pending accepts and
  lambdas that were dispatched or posted and have not run are counted. The atomic flags are read and written one
  at a time, so a thread in \<open>Stop\<close> and the thread in \<open>Run\<close> may take turns between any two of them.
\<close>

section \<open>Listening sockets\<close>

datatype listen_error = ListenerStopped | ListenerStarted | ListenFailed

datatype listen_outcome = Listening u16 | SocketOpenFailed | SocketBindFailed

datatype accept_result = Accepted | AcceptAborted | AcceptFailed

record Listener =
  li_configuredPort :: u16
  li_boundPort :: u16
  li_stopped :: bool
  li_open :: bool
  li_accepts :: nat
  li_closing :: nat

definition make_Listener :: "u16 \<Rightarrow> Listener" where
  "make_Listener port =
     \<lparr>li_configuredPort = port, li_boundPort = 0, li_stopped = False, li_open = False, li_accepts = 0, li_closing = 0\<rparr>"

definition StartAccept :: "Listener \<Rightarrow> Listener" where
  "StartAccept s = s\<lparr>li_accepts := li_accepts s + 1\<rparr>"

definition li_Port :: "Listener \<Rightarrow> u16" where
  "li_Port s = (if li_boundPort s = 0 then li_configuredPort s else li_boundPort s)"

definition CloseAcceptor :: "Listener \<Rightarrow> Listener" where
  "CloseAcceptor s = s\<lparr>li_open := False\<rparr>"

text \<open>The lambda of \<open>Stop\<close>.\<close>

definition close_dispatched :: "Listener \<Rightarrow> Listener" where
  "close_dispatched s = CloseAcceptor (s\<lparr>li_closing := li_closing s - 1\<rparr>)"

subsection \<open>The game server\<close>

definition TcpServer_Stop :: "Listener \<Rightarrow> Listener" where
  "TcpServer_Stop s = (if li_stopped s then s else s\<lparr>li_stopped := True, li_closing := li_closing s + 1\<rparr>)"



subsection \<open>The authentication server\<close>

definition AuthTlsServer_Start :: "listen_outcome \<Rightarrow> Listener \<Rightarrow> listen_error option \<times> Listener" where
  "AuthTlsServer_Start outcome s =
     (if li_stopped s then (Some ListenerStopped, s)
      else if li_open s then (Some ListenerStarted, s)
      else case outcome of
        SocketOpenFailed \<Rightarrow> (Some ListenFailed, CloseAcceptor (s\<lparr>li_stopped := True\<rparr>))
      | SocketBindFailed \<Rightarrow> (Some ListenFailed, CloseAcceptor (s\<lparr>li_open := True, li_stopped := True\<rparr>))
      | Listening port \<Rightarrow> (None, StartAccept (s\<lparr>li_open := True, li_boundPort := port\<rparr>)))"

definition AuthTlsServer_accepted :: "accept_result \<Rightarrow> Listener \<Rightarrow> Listener" where
  "AuthTlsServer_accepted r s =
     (let s = s\<lparr>li_accepts := li_accepts s - 1\<rparr> in
      if \<not> li_stopped s \<and> li_open s then StartAccept s else s)"

definition AuthTlsServer_Stop :: "Listener \<Rightarrow> Listener" where
  "AuthTlsServer_Stop s = s\<lparr>li_stopped := True, li_closing := li_closing s + 1\<rparr>"

subsection \<open>What both promise\<close>

text \<open>At most one accept is pending; an open socket accepts until it is told to stop, and once it is told to stop
  a lambda that closes it is on its way.\<close>

definition listener_inv :: "Listener \<Rightarrow> bool" where
  "listener_inv s \<longleftrightarrow> li_accepts s \<le> 1 \<and> (\<not> li_stopped s \<longrightarrow> li_accepts s = (if li_open s then 1 else 0)) \<and>
     (li_stopped s \<and> li_open s \<longrightarrow> 0 < li_closing s)"

datatype listener_op = LStart listen_outcome | LStop | LClose | LAccepted accept_result

text \<open>A completion handler runs only for a pending accept, and a lambda only after it was dispatched.\<close>

fun listener_step ::
    "(listen_outcome \<Rightarrow> Listener \<Rightarrow> listen_error option \<times> Listener) \<Rightarrow> (Listener \<Rightarrow> Listener) \<Rightarrow>
     (accept_result \<Rightarrow> Listener \<Rightarrow> Listener) \<Rightarrow> Listener \<Rightarrow> listener_op \<Rightarrow> Listener" where
  "listener_step start stop accepted s (LStart outcome) = snd (start outcome s)"
| "listener_step start stop accepted s LStop = stop s"
| "listener_step start stop accepted s LClose = (if li_closing s = 0 then s else close_dispatched s)"
| "listener_step start stop accepted s (LAccepted r) = (if li_accepts s = 0 then s else accepted r s)"

lemma listener_inv_close: "listener_inv s \<Longrightarrow> li_stopped s \<Longrightarrow> listener_inv (close_dispatched s)"
  by (simp add: listener_inv_def close_dispatched_def CloseAcceptor_def)

locale listener =
  fixes start :: "listen_outcome \<Rightarrow> Listener \<Rightarrow> listen_error option \<times> Listener"
    and stop :: "Listener \<Rightarrow> Listener"
    and accepted :: "accept_result \<Rightarrow> Listener \<Rightarrow> Listener"
  assumes start_inv: "listener_inv s \<Longrightarrow> listener_inv (snd (start outcome s))"
    and start_stopped: "li_stopped s \<Longrightarrow> start outcome s = (Some ListenerStopped, s)"
    and start_closing: "li_stopped (snd (start outcome s)) \<or> li_closing (snd (start outcome s)) = li_closing s"
    and stop_inv: "listener_inv s \<Longrightarrow> listener_inv (stop s)"
    and stop_stopped: "li_stopped (stop s)"
    and stop_open: "li_open (stop s) = li_open s \<and> li_accepts (stop s) = li_accepts s"
    and accepted_inv: "listener_inv s \<Longrightarrow> 0 < li_accepts s \<Longrightarrow> listener_inv (accepted r s)"
    and accepted_fields: "li_stopped (accepted r s) = li_stopped s" "li_open (accepted r s) = li_open s" "li_closing (accepted r s) = li_closing s"
    and accepted_closed: "\<not> li_open s \<Longrightarrow> li_accepts (accepted r s) = li_accepts s - 1"
begin

text \<open>Lambdas that close the socket come from \<open>Stop\<close> only.\<close>

lemma step_inv:
  assumes "listener_inv s" "0 < li_closing s \<longrightarrow> li_stopped s"
  shows "listener_inv (listener_step start stop accepted s c) \<and>
    (0 < li_closing (listener_step start stop accepted s c) \<longrightarrow> li_stopped (listener_step start stop accepted s c))"
proof (cases c)
  case (LStart outcome)
  then show ?thesis using assms start_inv start_closing [of outcome s] start_stopped [of s outcome] by (cases "li_stopped s") auto
next
  case LClose
  then show ?thesis
    using assms listener_inv_close [of s] by (auto simp: close_dispatched_def CloseAcceptor_def)
qed (use assms stop_inv stop_stopped accepted_inv accepted_fields in auto)

lemma run_inv:
  "listener_inv (run (listener_step start stop accepted) (make_Listener port) cs)"
proof -
  have "listener_inv s \<and> (0 < li_closing s \<longrightarrow> li_stopped s) \<Longrightarrow>
    listener_inv (run (listener_step start stop accepted) s cs) \<and>
    (0 < li_closing (run (listener_step start stop accepted) s cs) \<longrightarrow> li_stopped (run (listener_step start stop accepted) s cs))" for s
    by (induction cs arbitrary: s) (use step_inv in auto)
  then show ?thesis by (simp add: make_Listener_def listener_inv_def)
qed

text \<open>A socket that is stopped and closed stays so, whatever comes, and accepts at most one more connection.\<close>

lemma closed_for_good:
  assumes "li_stopped s" "\<not> li_open s"
  shows "li_stopped (run (listener_step start stop accepted) s cs) \<and> \<not> li_open (run (listener_step start stop accepted) s cs) \<and>
    li_accepts (run (listener_step start stop accepted) s cs) \<le> li_accepts s"
  using assms
proof (induction cs arbitrary: s)
  case (Cons c cs)
  have "li_stopped (listener_step start stop accepted s c) \<and> \<not> li_open (listener_step start stop accepted s c) \<and>
      li_accepts (listener_step start stop accepted s c) \<le> li_accepts s"
  proof (cases c)
    case LStop
    then show ?thesis using Cons.prems stop_open [of s] stop_stopped [of s] by simp
  qed (use Cons.prems start_stopped accepted_fields accepted_closed in \<open>auto simp: close_dispatched_def CloseAcceptor_def\<close>)
  with Cons.IH show ?case by (fastforce dest: order.trans)
qed simp

end


interpretation auth_listener: listener AuthTlsServer_Start AuthTlsServer_Stop AuthTlsServer_accepted
  by unfold_locales (auto simp: listener_inv_def AuthTlsServer_Start_def AuthTlsServer_Stop_def AuthTlsServer_accepted_def StartAccept_def
      CloseAcceptor_def Let_def split: listen_outcome.splits if_splits)

section \<open>The application\<close>

text \<open>Where the thread in \<open>Run\<close> is: it has claimed the run, it has seen no request to stop, its I/O threads run, or
  they run to clear up after a failed start.\<close>

datatype run_phase = NotRun | Claimed | Checked | Serving | Failing | Returned

datatype signal_wait = NoWait | WaitPending | WaitCancelled

record Application =
  ap_phase :: run_phase
  ap_runStarted :: bool
  ap_stopRequested :: bool
  ap_shutdownStarted :: bool
  ap_stopCalls :: nat
  ap_posted :: nat
  ap_signal :: signal_wait
  ap_tcp :: Listener
  ap_ticks :: DungeonTickService
  ap_dm :: DungeonManager
  ap_udm :: DungeonUdpManager
  ap_sm :: SessionManager
  ap_drains :: nat


definition StopOnIoContext :: "Application \<Rightarrow> Application" where
  "StopOnIoContext s =
     (if ap_shutdownStarted s then s
      else s\<lparr>ap_shutdownStarted := True,
             ap_signal := (if ap_signal s = WaitPending then WaitCancelled else ap_signal s),
             ap_tcp := TcpServer_Stop (ap_tcp s),
             ap_ticks := snd (tick_Stop (ap_ticks s)),
             ap_dm := dm_Stop (ap_dm s),
             ap_udm := udm_Stop (ap_udm s),
             ap_sm := snd (sm_Stop (ap_sm s))\<rparr>)"














section \<open>A request to stop is never lost\<close>





lemma TcpServer_Stop_simps [simp]:
  "li_stopped (TcpServer_Stop l)" "li_open (TcpServer_Stop l) = li_open l" "li_accepts (TcpServer_Stop l) = li_accepts l"
  "li_configuredPort (TcpServer_Stop l) = li_configuredPort l"
  by (simp_all add: TcpServer_Stop_def)


lemma StopOnIoContext_fields [simp]:
  "ap_phase (StopOnIoContext s) = ap_phase s" "ap_runStarted (StopOnIoContext s) = ap_runStarted s"
  "ap_stopRequested (StopOnIoContext s) = ap_stopRequested s" "ap_stopCalls (StopOnIoContext s) = ap_stopCalls s"
  "ap_posted (StopOnIoContext s) = ap_posted s" "ap_drains (StopOnIoContext s) = ap_drains s"
  by (simp_all add: StopOnIoContext_def)



















end
