(* ===== verification/Spec2Isabelle.thy ===== *)
theory Spec2Isabelle
  imports Transport_Properties Room_Properties Player_Properties Dungeon_Properties Udp_Properties
    Simulation_Properties Service_Properties Session_Properties Auth_Properties Loader_Properties
    Store_Properties Sqlite_Schema Server_Lifecycle
begin

text \<open>
  A verification development of a game server: a lobby over TCP and dungeons over UDP.

  \<^bold>\<open>The program.\<close> A client opens a TCP session, logs in with a ticket, joins a channel and a party, and the
  leader of the party enters a dungeon. The dungeon manager creates an instance, the UDP manager opens a
  socket for it and draws a secret token per participant; a participant announces itself over UDP with
  its token. Thirty times a second the tick service sweeps participants that have been gone too long,
  starts or cancels dungeons that wait, moves players, resolves attacks, advances the waves of the rooms,
  retires finished dungeons and broadcasts snapshots. A player that loses its connection may come back
  under a new session within a grace period. An authentication server checks passwords behind a limiter of
  login attempts and hands out tickets that the game server redeems once. Both work through a bounded database
  executor on tables in SQLite or MySQL; the catalogs of the game are loaded from JSON files at the start.

  \<^bold>\<open>Theories and sources\<close> (files under \<open>src/src\<close> with their headers under \<open>src/include\<close>).

  \<^item> \<open>Prelude\<close>: words, the model of \<open>std::unordered_map\<close>, runs of a step function (locale \<open>machine\<close>).
    \<open>Float32\<close>: single-precision floats, exact, with infinities and NaN.
  \<^item> \<open>Packet\<close>, \<open>Receive_Buffer\<close>: \<open>Packet.cpp\<close>, \<open>ReceiveBuffer.cpp\<close> and the read loop of \<open>TcpSession.cpp\<close>.
  \<^item> \<open>Membership\<close>, \<open>Channel_Manager\<close>, \<open>Party_Manager\<close>: \<open>ChannelManager.cpp\<close>, \<open>PartyManager.cpp\<close> and the
    contract they share (locales \<open>membership\<close> and \<open>membership_join\<close>).
  \<^item> \<open>Dungeon_Data\<close>, \<open>Room_State\<close>, \<open>Player_State\<close>: the catalogs and their admission checks, rooms with their
    waves of enemies, players with skills and cooldowns.
  \<^item> \<open>Dungeon_Instance\<close>, \<open>Dungeon_Manager\<close>, \<open>Dungeon_Runs\<close>: one dungeon, the manager of all of them, and the
    step relations over both.
  \<^item> \<open>Dungeon_Protocol\<close>, \<open>Udp_Session\<close>, \<open>Snapshot_Pump\<close>, \<open>Udp_Manager\<close>: \<open>DungeonProtocol.cpp\<close>,
    \<open>DungeonUdpSession.cpp\<close>, \<open>DungeonUdpManager.cpp\<close>.
  \<^item> \<open>Movement_Processor\<close>, \<open>Combat_Processor\<close>, \<open>Lifecycle_Service\<close>, \<open>Tick_Service\<close>: the simulation, one source
    file each.
  \<^item> \<open>Tcp_Protocol\<close>: \<open>TcpFlatBufferCodec.cpp\<close> and the login, channel, party, admission, connection and catalog
    protocols (locale \<open>payload_codec\<close>, interpreted for every pair of an encoder and a decoder).
  \<^item> \<open>Session_Auth\<close>, \<open>Login_Limiter\<close>, \<open>Database_Executor\<close>: identities, \<open>LoginAttemptLimiter.cpp\<close>,
    \<open>DatabaseExecutor.cpp\<close>.
  \<^item> \<open>Net_Session\<close>: \<open>TcpSession.cpp\<close> and \<open>AuthTlsSession.cpp\<close> as state machines over completion handlers, with
    their read buffers, write queues and deadlines (\<open>SessionDeadline.h\<close>).
  \<^item> \<open>Static_Data\<close>: \<open>DungeonStaticDataProtocol.cpp\<close>. \<open>Request_Handlers\<close>: \<open>ChannelPartyRequestHandler.cpp\<close>,
    \<open>DungeonDataRequestHandler.cpp\<close>, \<open>PacketDispatcher.cpp\<close>, \<open>PlayerLoginService.cpp\<close>.
  \<^item> \<open>Server_Runs\<close>: \<open>SessionManager.cpp\<close> and the step relation of the whole game server.
    \<open>Server_Lifecycle\<close>: \<open>ServerApplication.cpp\<close> and the listening sockets of \<open>TcpServer.cpp\<close> and
    \<open>AuthTlsServer.cpp\<close> (locale \<open>listener\<close>, interpreted for both).
  \<^item> \<open>Ticket_Store\<close>, \<open>Auth_Server\<close>, \<open>Auth_Runs\<close>: \<open>AuthTicketIssuer.cpp\<close>, \<open>SqliteAuthTicketStore.cpp\<close>,
    \<open>SqliteAuthTicketVerifier.cpp\<close>, \<open>AuthPacketDispatcher.cpp\<close> with the account and character services, and the
    step relation of the authentication server (locale \<open>ticket_sql\<close> for the tables of tickets).
  \<^item> \<open>Text_Format\<close>, \<open>Password_Hash\<close>: numbers as text, \<open>ScryptPasswordHasher.cpp\<close>.
  \<^item> \<open>Game_Data_Loader\<close>: \<open>GameDataLoader.cpp\<close> (locale \<open>item_loader\<close>, interpreted for channels, skills and enemies).
  \<^item> \<open>Sqlite_Store\<close>, \<open>Sqlite_Schema\<close>, \<open>Mysql_Store\<close>: the SQLite repositories and \<open>SqliteCharacterProvisioner.cpp\<close>,
    the migrations of \<open>SqliteDatabase.cpp\<close>, \<open>MySqlPlayerRepository.cpp\<close> and the options of its pool (locales
    \<open>game_database\<close>, \<open>schema_engine\<close> and \<open>mysql_database\<close>, each interpreted on tables in memory).
  \<^item> \<open>Sample_Data\<close>, \<open>Sample_Codec\<close>, \<open>Sample_Tcp\<close>: a small game and concrete serializers for the instances of the
    theorems.

  \<^bold>\<open>How the code is modelled.\<close> A class is a record, an operation a function from the state to its result
  and the new state; an exception is a value of a sum or option type, and what was changed before a throw
  stays changed. Calls are atomic where the code holds a mutex for the whole call; completion handlers and
  lambdas that run later are steps of their own, so the orders in which threads take turns are the orders
  of steps. Machine integers are words. Clock readings, random bytes, ports and received data are arguments,
  and so is the code of libraries: of the FlatBuffers runtime the theorems assume that it reads back what it
  wrote (\<open>faithful\<close>, \<open>tcp_faithful\<close>), of the database engines the laws of the locales, of scrypt that it
  derives keys of the length asked for; the property tree library and the file system have no laws.

  \<^bold>\<open>What is shown.\<close> Each component has an invariant that its operations keep (\<open>cm_inv\<close>, \<open>pm_inv\<close>, \<open>room_inv\<close>,
  \<open>player_inv\<close>, \<open>stage_inv\<close> and \<open>roster_inv\<close> of a dungeon, \<open>dm_inv\<close>, \<open>us_inv\<close>, \<open>udm_inv\<close>, \<open>limiter_inv\<close>,
  \<open>executor_inv\<close>), and \<open>synced\<close> relates the two dungeon managers: whoever holds a token takes part. The
  theorems of this theory put them together for every state that the server can reach. The property
  theories hold the theorems on the single components: framing, codecs and channels
  (\<open>Transport_Properties\<close>), rooms and catalogs (\<open>Room_Properties\<close>), players (\<open>Player_Properties\<close>), dungeons
  and reconnection (\<open>Dungeon_Properties\<close>), datagrams, sockets and snapshots (\<open>Udp_Properties\<close>), movement,
  combat and the tick (\<open>Simulation_Properties\<close>), payloads, identities, limiter and executor
  (\<open>Service_Properties\<close>), sessions (\<open>Session_Properties\<close>), logins and tickets (\<open>Auth_Properties\<close>), loaded
  games and the data served from them (\<open>Loader_Properties\<close>), and stored players, on both engines
  (\<open>Store_Properties\<close>).

  \<^bold>\<open>Bounds.\<close> No loop of the model runs on fuel: recursion is structural or has a measure (the length of a
  queue, the number of destinations left, the attempts left of a MySQL save). The loops that draw random tokens consume a list of random
  bytes and yield \<open>None\<close> when it does not suffice; that enough fresh numbers end them is a theorem. The
  counters for parties and dungeons have 64 bits, and a step that would wrap one of them is excluded.

  \<^bold>\<open>Not modelled.\<close> Options on the command line, certificates and the threads of the authentication server (the
  main files, \<open>AuthServerApplication.cpp\<close> and the TLS settings of \<open>AuthTlsServer.cpp\<close>). Logging and
  \<open>OperationalMetrics.cpp\<close>, which print numbers that nothing reads back. The inside of the connection pool, of TLS
  and of scrypt, which belong to libraries. Erasing memory, which no value depends on. The client, which is
  written in C#.
\<close>

section \<open>The server as a whole\<close>

lemma server_reachable_config: "server_reachable cat catalog skills cfg s \<Longrightarrow> config_ok cfg"
  by (induction rule: server_reachable.induct) (auto simp: make_TickService_def config_ok_def split: if_splits)
















text \<open>Asking for the connection of one's dungeon never throws and gets a well-formed response; a success
  names a dungeon in which the session takes part, its port and the session's own token.\<close>

lemma connection_info_sound:
  assumes "server_reachable cat catalog skills cfg s" "enemies_ok cat" "skills_defined skills" "catalog_inv cat catalog"
    and "\<And>i port. FindPort (tw_udm (se_world s)) i = Some port \<Longrightarrow> port \<noteq> 0"
  shows "\<exists>res i port token. connection_info x (se_parties s) (tw_dm (se_world s)) (tw_udm (se_world s)) = Inr (res, i, port, token) \<and>
    IsValidConnectionInfoResponse res i port token \<and>
    (res = InfoSuccess \<longrightarrow> (\<exists>xs. roster (tw_dm (se_world s)) i = Some xs \<and> x \<in> set xs) \<and>
      FindPort (tw_udm (se_world s)) i = Some port \<and> FindToken (tw_udm (se_world s)) i x = Some token)"
proof -
  have "server_inv cat s" by (rule server_reachable_inv [OF assms(1-3) server_reachable_config [OF assms(1)] assms(4)])
  then have w: "dm_inv cat (tw_dm (se_world s))" "udm_inv (tw_udm (se_world s))" "synced (tw_dm (se_world s)) (tw_udm (se_world s))"
    by (auto simp: server_inv_def world_ok_def)
  show ?thesis by (rule connection_info_result [OF w assms(5)])
qed

end
